(* ===== verification/Prelude.thy ===== *)
theory Prelude
  imports Main "HOL-Library.Char_ord" "HOL-Library.List_Lexorder" "HOL-Library.Word"
begin

text \<open>
  Shared vocabulary of the development: the parts of Go's standard library the modelled code
  calls (\<^verbatim>\<open>strings\<close>, \<^verbatim>\<open>strconv.Atoi\<close>), three-way comparisons, and the order on zero-padded
  integer lists to which every version comparator is reduced.

  A Go \<^verbatim>\<open>string\<close> is a byte sequence; it is modelled as a HOL \<open>string\<close>, whose characters are the
  256 byte values. \<open>TrimSpace\<close>, \<open>ToLower\<close> and \<open>EqualFold\<close> are modelled on ASCII: bytes of 128 and
  above are neither spaces nor letters. Version strings, ecosystem names, package identifiers
  and host fields are ASCII in every feed the program consumes.
\<close>

section \<open>Collections of hints\<close>

named_theorems cmp_simps \<open>unfolding equations of three-way comparisons\<close>
named_theorems step_simps \<open>unfolding equations of state operations\<close>

section \<open>Go integers\<close>

text \<open>Go's \<^verbatim>\<open>int\<close> is 64 bits wide on every platform the program is built for.\<close>

definition go_int_min :: int where "go_int_min = - (2 ^ 63)"
definition go_int_max :: int where "go_int_max = 2 ^ 63 - 1"

definition wrap64 :: "int \<Rightarrow> int" where
  "wrap64 n = sint (word_of_int n :: 64 word)"

lemma wrap64_id: "go_int_min \<le> n \<Longrightarrow> n \<le> go_int_max \<Longrightarrow> wrap64 n = n"
  by (simp add: wrap64_def go_int_min_def go_int_max_def sint_sbintrunc'
      signed_take_bit_int_eq_self)

lemma wrap64_range: "go_int_min \<le> wrap64 n \<and> wrap64 n \<le> go_int_max"
  using sint_greater_eq [of "word_of_int n :: 64 word"] sint_less [of "word_of_int n :: 64 word"]
  by (simp add: wrap64_def go_int_min_def go_int_max_def)

definition sign :: "int \<Rightarrow> int" where
  "sign n = (if n < 0 then -1 else if n > 0 then 1 else 0)"

lemma sign_sgn: "sign n = sgn n"
  by (simp add: sign_def sgn_if)

lemma sign_simps [simp]: "sign n = 0 \<longleftrightarrow> n = 0" "sign 0 = 0" "sign 1 = 1" "sign (- n) = - sign n"
  "sign (sign n) = sign n"
  by (auto simp: sign_def)

section \<open>Bytes and characters\<close>

abbreviation byte :: "char \<Rightarrow> int" where "byte c \<equiv> of_char c"

definition isDigit :: "char \<Rightarrow> bool" where
  "isDigit c \<longleftrightarrow> CHR ''0'' \<le> c \<and> c \<le> CHR ''9''"

definition isAlpha :: "char \<Rightarrow> bool" where
  "isAlpha c \<longleftrightarrow> (CHR ''a'' \<le> c \<and> c \<le> CHR ''z'') \<or> (CHR ''A'' \<le> c \<and> c \<le> CHR ''Z'')"

definition isAlnum :: "char \<Rightarrow> bool" where
  "isAlnum c \<longleftrightarrow> isDigit c \<or> isAlpha c"

definition isLowerAlpha :: "char \<Rightarrow> bool" where
  "isLowerAlpha c \<longleftrightarrow> CHR ''a'' \<le> c \<and> c \<le> CHR ''z''"

lemma byte_nat: "byte c = int (of_char c)"
  by (rule of_nat_of_char [symmetric])

lemma less_char_byte: "c < d \<longleftrightarrow> byte c < byte d"
  unfolding less_char_def byte_nat of_nat_less_iff ..

lemma less_eq_char_byte: "c \<le> d \<longleftrightarrow> byte c \<le> byte d"
  by (metis less_char_byte not_less)

lemma isDigit_byte: "isDigit c \<longleftrightarrow> 48 \<le> byte c \<and> byte c \<le> 57"
  by (simp add: isDigit_def less_eq_char_byte)

lemma isAlpha_byte:
  "isAlpha c \<longleftrightarrow> (97 \<le> byte c \<and> byte c \<le> 122) \<or> (65 \<le> byte c \<and> byte c \<le> 90)"
  by (simp add: isAlpha_def less_eq_char_byte)

lemma isLowerAlpha_byte: "isLowerAlpha c \<longleftrightarrow> 97 \<le> byte c \<and> byte c \<le> 122"
  by (simp add: isLowerAlpha_def less_eq_char_byte)

lemma byte_eq_iff: "byte c = byte d \<longleftrightarrow> c = d"
  by simp

lemma byte_nonneg [simp]: "0 \<le> byte c"
  unfolding byte_nat by (rule of_nat_0_le_iff)

lemma byte_less_256: "byte c < 256"
  unfolding byte_nat using nat_of_char_less_256 [of c] by linarith

definition is_space :: "char \<Rightarrow> bool" where
  "is_space c \<longleftrightarrow> byte c = 32 \<or> (9 \<le> byte c \<and> byte c \<le> 13)"

definition lower_byte :: "char \<Rightarrow> char" where
  "lower_byte c = (if CHR ''A'' \<le> c \<and> c \<le> CHR ''Z'' then char_of (byte c + 32) else c)"

definition upper_byte :: "char \<Rightarrow> char" where
  "upper_byte c = (if CHR ''a'' \<le> c \<and> c \<le> CHR ''z'' then char_of (byte c - 32) else c)"

section \<open>Package strings\<close>

definition TrimSpace :: "string \<Rightarrow> string" where
  "TrimSpace s = rev (dropWhile is_space (rev (dropWhile is_space s)))"

definition ToLower :: "string \<Rightarrow> string" where
  "ToLower s = map lower_byte s"

definition ToUpper :: "string \<Rightarrow> string" where
  "ToUpper s = map upper_byte s"

definition EqualFold :: "string \<Rightarrow> string \<Rightarrow> bool" where
  "EqualFold s t \<longleftrightarrow> ToLower s = ToLower t"

fun HasPrefix :: "string \<Rightarrow> string \<Rightarrow> bool" where
  "HasPrefix s [] = True"
| "HasPrefix [] (p # ps) = False"
| "HasPrefix (c # s) (p # ps) = (c = p \<and> HasPrefix s ps)"

definition HasSuffix :: "string \<Rightarrow> string \<Rightarrow> bool" where
  "HasSuffix s p = HasPrefix (rev s) (rev p)"

definition TrimPrefix :: "string \<Rightarrow> string \<Rightarrow> string" where
  "TrimPrefix s p = (if HasPrefix s p then drop (length p) s else s)"

definition TrimSuffix :: "string \<Rightarrow> string \<Rightarrow> string" where
  "TrimSuffix s p = (if HasSuffix s p then take (length s - length p) s else s)"

fun Contains :: "string \<Rightarrow> string \<Rightarrow> bool" where
  "Contains [] p = (p = [])"
| "Contains (c # s) p = (HasPrefix (c # s) p \<or> Contains s p)"

lemma byte_char_of: "0 \<le> n \<Longrightarrow> n < 256 \<Longrightarrow> byte (char_of (n :: int)) = n"
  by simp

lemma lower_byte_idem [simp]: "lower_byte (lower_byte c) = lower_byte c"
proof (cases "CHR ''A'' \<le> c \<and> c \<le> CHR ''Z''")
  case True
  then have "97 \<le> byte c + 32" "byte c + 32 < 256" by (simp_all add: less_eq_char_byte)
  then have "97 \<le> byte (lower_byte c)" using True by (simp add: lower_byte_def byte_char_of)
  then show ?thesis by (simp add: lower_byte_def [of "lower_byte c"] less_eq_char_byte)
next
  case False
  then have "lower_byte c = c" unfolding lower_byte_def by (rule if_not_P)
  then show ?thesis by simp
qed

lemma is_space_lower_byte [simp]: "is_space (lower_byte c) = is_space c"
proof (cases "CHR ''A'' \<le> c \<and> c \<le> CHR ''Z''")
  case True
  then have "97 \<le> byte c + 32" "byte c + 32 < 256" "65 \<le> byte c" by (simp_all add: less_eq_char_byte)
  then show ?thesis using True by (simp add: is_space_def lower_byte_def byte_char_of)
qed (auto simp: lower_byte_def)

lemma ToLower_idem [simp]: "ToLower (ToLower s) = ToLower s"
  by (simp add: ToLower_def comp_def)

lemma dropWhile_space_lower: "dropWhile is_space (ToLower s) = ToLower (dropWhile is_space s)"
  by (induction s) (simp_all add: ToLower_def)

lemma TrimSpace_ToLower: "TrimSpace (ToLower s) = ToLower (TrimSpace s)"
proof -
  have rev: "rev (ToLower t) = ToLower (rev t)" for t by (simp add: ToLower_def rev_map)
  show ?thesis by (simp add: TrimSpace_def dropWhile_space_lower rev)
qed

lemma dropWhile_hd: "dropWhile P s = s \<longleftrightarrow> s = [] \<or> \<not> P (hd s)"
  using length_dropWhile_le [of P "tl s"] by (cases s) (auto dest: arg_cong [of _ _ length])

lemma TrimSpace_idem [simp]: "TrimSpace (TrimSpace s) = TrimSpace s"
proof -
  define u where "u = rev (dropWhile is_space s)"
  define v where "v = dropWhile is_space u"
  have v: "v = [] \<or> \<not> is_space (hd v)"
    unfolding v_def using hd_dropWhile [of is_space u] by blast
  have u: "u = [] \<or> \<not> is_space (last u)"
    unfolding u_def using hd_dropWhile [of is_space s] by (auto simp: last_rev)
  have lv: "v = [] \<or> \<not> is_space (last v)"
  proof (cases "v = []")
    case False
    have "takeWhile is_space u @ v = u" by (simp add: v_def)
    then have "last u = last v" and "u \<noteq> []" using False last_appendR [of v] by (metis, auto)
    then show ?thesis using u by simp
  qed simp
  have r: "dropWhile is_space (rev v) = rev v" using lv by (simp add: dropWhile_hd hd_rev)
  have l: "dropWhile is_space v = v" using v by (simp add: dropWhile_hd)
  show ?thesis
    unfolding TrimSpace_def u_def [symmetric] v_def [symmetric] r rev_rev_ident l ..
qed

text \<open>\<^verbatim>\<open>strings.Fields\<close>.\<close>

fun fieldsFrom :: "string \<Rightarrow> string \<Rightarrow> string list" where
  "fieldsFrom cur [] = (if cur = [] then [] else [cur])"
| "fieldsFrom cur (c # s) =
     (if is_space c then (if cur = [] then fieldsFrom [] s else cur # fieldsFrom [] s)
      else fieldsFrom (cur @ [c]) s)"

definition Fields :: "string \<Rightarrow> string list" where
  "Fields s = fieldsFrom [] s"

text \<open>\<^verbatim>\<open>strings.Trim\<close> with a set of ASCII characters.\<close>

definition Trim :: "string \<Rightarrow> string \<Rightarrow> string" where
  "Trim s cutset = rev (dropWhile (\<lambda>c. c \<in> set cutset) (rev (dropWhile (\<lambda>c. c \<in> set cutset) s)))"

text \<open>
  \<^verbatim>\<open>strings.IndexByte\<close> (and \<^verbatim>\<open>strings.Index\<close> with a one-byte needle): the first position, or -1.
\<close>

fun IndexByteFrom :: "string \<Rightarrow> char \<Rightarrow> int \<Rightarrow> int" where
  "IndexByteFrom [] b i = -1"
| "IndexByteFrom (c # s) b i = (if c = b then i else IndexByteFrom s b (i + 1))"

definition IndexByte :: "string \<Rightarrow> char \<Rightarrow> int" where
  "IndexByte s b = IndexByteFrom s b 0"

text \<open>\<^verbatim>\<open>strings.Cut\<close> with a one-byte separator.\<close>

definition CutByte :: "string \<Rightarrow> char \<Rightarrow> string \<times> string \<times> bool" where
  "CutByte s b =
     (if b \<in> set s then (takeWhile (\<lambda>c. c \<noteq> b) s, tl (dropWhile (\<lambda>c. c \<noteq> b) s), True)
      else (s, [], False))"

text \<open>\<^verbatim>\<open>strings.Split\<close> with a one-byte separator: \<open>n\<close> separators give \<open>n + 1\<close> parts.\<close>

fun SplitByte :: "string \<Rightarrow> char \<Rightarrow> string list" where
  "SplitByte [] b = [[]]"
| "SplitByte (c # s) b =
     (if c = b then [] # SplitByte s b
      else (case SplitByte s b of [] \<Rightarrow> [[c]] | p # ps \<Rightarrow> (c # p) # ps))"

fun Join :: "string list \<Rightarrow> string \<Rightarrow> string" where
  "Join [] sep = []"
| "Join [p] sep = p"
| "Join (p # q # ps) sep = p @ sep @ Join (q # ps) sep"

text \<open>\<^verbatim>\<open>strings.Fields\<close> undoes joining with spaces.\<close>

definition word :: "string \<Rightarrow> bool" where
  "word p \<longleftrightarrow> p \<noteq> [] \<and> (\<forall>c \<in> set p. \<not> is_space c)"

lemma fieldsFrom_word: "\<forall>c \<in> set p. \<not> is_space c \<Longrightarrow> fieldsFrom cur (p @ s) = fieldsFrom (cur @ p) s"
  by (induction p arbitrary: cur) simp_all

lemma Fields_Join: "\<forall>p \<in> set ps. word p \<Longrightarrow> Fields (Join ps '' '') = ps"
proof (induction ps "'' ''" rule: Join.induct)
  case (2 p)
  then show ?case using fieldsFrom_word [of p "[]" "[]"] by (simp add: Fields_def word_def)
next
  case (3 p q ps)
  have "is_space CHR '' ''" by (simp add: is_space_def)
  then show ?case using 3 fieldsFrom_word [of p "[]" "CHR '' '' # Join (q # ps) '' ''"]
    by (simp add: Fields_def word_def)
qed (simp add: Fields_def)

lemma digit_no_space: "isDigit c \<Longrightarrow> \<not> is_space c"
  by (auto simp: isDigit_def is_space_def less_eq_char_byte)

text \<open>\<^verbatim>\<open>strings.ReplaceAll\<close> of a one-byte string.\<close>

definition ReplaceAllByte :: "string \<Rightarrow> char \<Rightarrow> string \<Rightarrow> string" where
  "ReplaceAllByte s b r = concat (map (\<lambda>c. if c = b then r else [c]) s)"

lemma IndexByteFrom_shift: "IndexByteFrom s b i = (let k = IndexByteFrom s b 0 in if k < 0 then -1 else k + i)"
proof (induction s arbitrary: i)
  case (Cons c s)
  show ?case using Cons [of "i + 1"] Cons [of 1] by (auto simp: Let_def)
qed simp

lemma IndexByte_absent: "b \<notin> set s \<Longrightarrow> IndexByte s b = -1"
proof -
  have "b \<notin> set s \<Longrightarrow> IndexByteFrom s b i = -1" for i
    by (induction s arbitrary: i) auto
  then show "b \<notin> set s \<Longrightarrow> IndexByte s b = -1" by (simp add: IndexByte_def)
qed

lemma IndexByte_first: "b \<notin> set s \<Longrightarrow> IndexByte (s @ b # t) b = int (length s)"
proof -
  have "b \<notin> set s \<Longrightarrow> IndexByteFrom (s @ b # t) b i = i + int (length s)" for i
    by (induction s arbitrary: i) auto
  then show "b \<notin> set s \<Longrightarrow> IndexByte (s @ b # t) b = int (length s)" by (simp add: IndexByte_def)
qed

lemma SplitByte_none: "b \<notin> set s \<Longrightarrow> SplitByte s b = [s]"
  by (induction s) auto

lemma SplitByte_append: "b \<notin> set s \<Longrightarrow> SplitByte (s @ b # t) b = s # SplitByte t b"
  by (induction s) auto

lemma SplitByte_Join: "ps \<noteq> [] \<Longrightarrow> \<forall>p \<in> set ps. b \<notin> set p \<Longrightarrow> SplitByte (Join ps [b]) b = ps"
  by (induction ps "[b]" rule: Join.induct) (auto simp: SplitByte_none SplitByte_append)

lemma set_Join: "set (Join ps sep) \<subseteq> (\<Union>p \<in> set ps. set p) \<union> set sep"
  by (induction ps sep rule: Join.induct) auto

lemma CutByte_first: "b \<notin> set s \<Longrightarrow> CutByte (s @ b # t) b = (s, t, True)"
  by (simp add: CutByte_def takeWhile_tail) (simp add: dropWhile_append)

lemma HasPrefix_iff: "HasPrefix s p \<longleftrightarrow> (\<exists>x. s = p @ x)"
  by (induction s p rule: HasPrefix.induct) auto

lemma Contains_iff: "Contains s p \<longleftrightarrow> (\<exists>a b. s = a @ p @ b)"
proof (induction s p rule: Contains.induct)
  case (2 c s p)
  have "(\<exists>a b. c # s = a @ p @ b) \<longleftrightarrow> (\<exists>b. c # s = p @ b) \<or> (\<exists>a b. s = a @ p @ b)"
    by (auto simp: Cons_eq_append_conv)
  then show ?case using 2 by (simp add: HasPrefix_iff del: HasPrefix.simps)
qed simp

lemma ReplaceAllByte_none: "b \<notin> set s \<Longrightarrow> ReplaceAllByte s b r = s"
proof (induction s)
  case (Cons c s)
  then show ?case by (auto simp: ReplaceAllByte_def)
qed (simp add: ReplaceAllByte_def)

lemma TrimSpace_no_space:
  assumes "\<forall>c \<in> set s. \<not> is_space c"
  shows "TrimSpace s = s"
proof -
  have "dropWhile is_space t = t" if "\<forall>c \<in> set t. \<not> is_space c" for t
    using that by (cases t) auto
  from this [of s] this [of "rev s"] show ?thesis using assms by (simp add: TrimSpace_def)
qed

lemma TrimSpace_ends: "s = [] \<or> \<not> is_space (hd s) \<and> \<not> is_space (last s) \<Longrightarrow> TrimSpace s = s"
proof (cases "s = []")
  case False
  assume "s = [] \<or> \<not> is_space (hd s) \<and> \<not> is_space (last s)"
  then have "dropWhile is_space s = s" "dropWhile is_space (rev s) = rev s" using False by (simp_all add: dropWhile_hd hd_rev)
  then show ?thesis by (simp add: TrimSpace_def)
qed (simp add: TrimSpace_def)

lemma TrimSpace_last: "TrimSpace s = s \<Longrightarrow> s = [] \<or> \<not> is_space (last s)"
proof (cases "s = []")
  case False
  assume t: "TrimSpace s = s"
  have "s = rev (dropWhile is_space (rev (dropWhile is_space s)))" using t by (simp add: TrimSpace_def)
  moreover define w where "w = dropWhile is_space (rev (dropWhile is_space s))"
  ultimately have w: "s = rev w" by simp
  then have "w \<noteq> []" using False by simp
  then have "\<not> is_space (hd w)" unfolding w_def by (rule hd_dropWhile)
  then show ?thesis using w by (simp add: last_rev)
qed simp

definition string_compare :: "string \<Rightarrow> string \<Rightarrow> int" where
  "string_compare a b = (if a = b then 0 else if a < b then -1 else 1)"

text \<open>
  \<^verbatim>\<open>strconv.Atoi\<close>: an optional sign, a non-empty run of digits and nothing else, in the range of
  the 64-bit \<^verbatim>\<open>int\<close>. \<open>None\<close> is the error result.
\<close>

definition digit_val :: "char \<Rightarrow> int" where
  "digit_val c = byte c - 48"

definition num_of :: "string \<Rightarrow> int" where
  "num_of ds = foldl (\<lambda>n c. n * 10 + digit_val c) 0 ds"

definition Atoi :: "string \<Rightarrow> int option" where
  "Atoi s =
     (let neg = (case s of c # _ \<Rightarrow> c = CHR ''-'' | [] \<Rightarrow> False);
          ds = (case s of c # cs \<Rightarrow> if c = CHR ''-'' \<or> c = CHR ''+'' then cs else s | [] \<Rightarrow> s);
          n = (if neg then - num_of ds else num_of ds)
      in if ds \<noteq> [] \<and> list_all isDigit ds \<and> go_int_min \<le> n \<and> n \<le> go_int_max
         then Some n else None)"

text \<open>\<^verbatim>\<open>fmt.Sprintf("%d", n)\<close> for a non-negative \<^verbatim>\<open>n\<close>.\<close>

fun show_nat :: "nat \<Rightarrow> string" where
  "show_nat n = (if n < 10 then [char_of (48 + n)] else show_nat (n div 10) @ [char_of (48 + n mod 10)])"

declare show_nat.simps [simp del]

definition show_int :: "int \<Rightarrow> string" where
  "show_int n = (if n < 0 then CHR ''-'' # show_nat (nat (- n)) else show_nat (nat n))"

text \<open>\<^verbatim>\<open>strconv.ParseBool\<close>.\<close>

definition ParseBool :: "string \<Rightarrow> bool option" where
  "ParseBool s =
     (if s \<in> set [''1'', ''t'', ''T'', ''TRUE'', ''true'', ''True''] then Some True
      else if s \<in> set [''0'', ''f'', ''F'', ''FALSE'', ''false'', ''False''] then Some False
      else None)"

text \<open>\<^verbatim>\<open>hex.EncodeToString\<close>.\<close>

definition hex_digit :: "nat \<Rightarrow> char" where
  "hex_digit n = (if n < 10 then char_of (48 + n) else char_of (87 + n))"

definition hexEncode :: "string \<Rightarrow> string" where
  "hexEncode raw = concat (map (\<lambda>c. [hex_digit (of_char c div 16), hex_digit (of_char c mod 16)]) raw)"

section \<open>Runes\<close>

text \<open>
  Ranging over a Go string decodes UTF-8 (package \<^verbatim>\<open>unicode/utf8\<close>). \<open>rune_width\<close> is the number of bytes
  of the first well-formed sequence, or 0 where the first byte starts none: the loop then consumes that one
  byte and yields U+FFFD. \<open>runes\<close> lists the byte sequences of the successive runes.
\<close>

definition in_range :: "int \<Rightarrow> int \<Rightarrow> char \<Rightarrow> bool" where
  "in_range lo hi c \<longleftrightarrow> lo \<le> byte c \<and> byte c \<le> hi"

definition cont :: "char \<Rightarrow> bool" where
  "cont c = in_range 128 191 c"

fun rune_width :: "string \<Rightarrow> nat" where
  "rune_width [] = 0"
| "rune_width (a # s) =
     (if byte a < 128 then 1
      else if in_range 194 223 a then
        (case s of b # _ \<Rightarrow> if cont b then 2 else 0 | [] \<Rightarrow> 0)
      else if in_range 224 239 a then
        (case s of b # c # _ \<Rightarrow>
           if in_range (if byte a = 224 then 160 else 128) (if byte a = 237 then 159 else 191) b \<and> cont c
           then 3 else 0
         | _ \<Rightarrow> 0)
      else if in_range 240 244 a then
        (case s of b # c # d # _ \<Rightarrow>
           if in_range (if byte a = 240 then 144 else 128) (if byte a = 244 then 143 else 191) b \<and> cont c \<and> cont d
           then 4 else 0
         | _ \<Rightarrow> 0)
      else 0)"

lemma rune_width_le: "rune_width s \<le> length s"
  by (cases s) (auto split: list.splits)

function runes :: "string \<Rightarrow> string list" where
  "runes s = (if s = [] then [] else take (max 1 (rune_width s)) s # runes (drop (max 1 (rune_width s)) s))"
  by pat_completeness auto
termination by (relation "measure length") auto

declare runes.simps [simp del]

lemma concat_runes [simp]: "concat (runes s) = s"
proof (induction s rule: runes.induct)
  case (1 s)
  then show ?case by (subst runes.simps) auto
qed

lemma runes_nonempty: "r \<in> set (runes s) \<Longrightarrow> r \<noteq> []"
proof (induction s rule: runes.induct)
  case (1 s)
  have "r = take (max 1 (rune_width s)) s \<or> r \<in> set (runes (drop (max 1 (rune_width s)) s))" "s \<noteq> []"
    using 1(2) by (simp_all add: runes.simps[of s] split: if_splits)
  then show ?case using 1(1) by auto
qed

lemma runes_empty [simp]: "runes s = [] \<longleftrightarrow> s = []"
  by (subst runes.simps) auto

text \<open>\<^verbatim>\<open>utf8.ValidString\<close>.\<close>

function valid_utf8 :: "string \<Rightarrow> bool" where
  "valid_utf8 s = (if s = [] then True
     else if rune_width s = 0 then False else valid_utf8 (drop (rune_width s) s))"
  by pat_completeness auto
termination by (relation "measure length") auto

declare valid_utf8.simps [simp del]

lemma valid_utf8_Nil [simp]: "valid_utf8 []"
  by (subst valid_utf8.simps) simp

text \<open>A rune that is one ASCII byte.\<close>

definition ascii_rune :: "(char \<Rightarrow> bool) \<Rightarrow> string \<Rightarrow> bool" where
  "ascii_rune P r = (case r of [c] \<Rightarrow> byte c < 128 \<and> P c | _ \<Rightarrow> False)"

text \<open>A loop that keeps the runes \<open>P\<close> accepts and writes \<open>d\<close> for every other.\<close>

definition replace_runes :: "(char \<Rightarrow> bool) \<Rightarrow> char \<Rightarrow> string \<Rightarrow> string" where
  "replace_runes P d s = map (\<lambda>r. if ascii_rune P r then hd r else d) (runes s)"

lemma set_replace_runes: "c \<in> set (replace_runes P d s) \<Longrightarrow> P c \<or> c = d"
  by (auto simp: replace_runes_def ascii_rune_def split: list.splits if_splits)

lemma replace_runes_Nil [simp]: "replace_runes P d s = [] \<longleftrightarrow> s = []"
  by (simp add: replace_runes_def)

lemma runes_ascii: "\<forall>c \<in> set s. byte c < 128 \<Longrightarrow> runes s = map (\<lambda>c. [c]) s"
proof (induction s)
  case (Cons c s)
  then show ?case by (subst runes.simps) simp
qed simp

lemma replace_runes_ascii:
  "\<forall>c \<in> set s. byte c < 128 \<Longrightarrow> replace_runes P d s = map (\<lambda>c. if P c then c else d) s"
  by (simp add: replace_runes_def runes_ascii ascii_rune_def)

text \<open>\<^verbatim>\<open>truncateValidUTF8\<close>, which the server and the agent both have: bytes are dropped until the rest is valid.\<close>

function dropInvalid :: "string \<Rightarrow> string" where
  "dropInvalid s = (if \<not> valid_utf8 s \<and> length s > 0 then dropInvalid (butlast s) else s)"
  by pat_completeness auto
termination by (relation "measure length") auto

declare dropInvalid.simps [simp del]

definition truncateValidUTF8 :: "string \<Rightarrow> nat \<Rightarrow> string" where
  "truncateValidUTF8 s limit = (if length s \<le> limit then s else dropInvalid (take limit s))"

lemma dropInvalid_prefix: "\<exists>r. s = dropInvalid s @ r"
proof (induction s rule: dropInvalid.induct)
  case (1 s)
  show ?case
  proof (cases "\<not> valid_utf8 s \<and> length s > 0")
    case True
    then obtain r where "butlast s = dropInvalid (butlast s) @ r" using 1 by blast
    then have "s = dropInvalid (butlast s) @ r @ [last s]" using True by (metis append.assoc append_butlast_last_id length_greater_0_conv)
    then show ?thesis using True by (subst dropInvalid.simps) auto
  next
    case False
    then show ?thesis by (subst dropInvalid.simps) auto
  qed
qed

lemma dropInvalid_valid: "valid_utf8 (dropInvalid s)"
proof (induction s rule: dropInvalid.induct)
  case (1 s)
  then show ?case by (subst dropInvalid.simps) (cases s; auto)
qed

lemma length_dropInvalid: "length (dropInvalid s) \<le> length s"
  using dropInvalid_prefix[of s] by (metis le_add1 length_append)

lemma length_truncateValidUTF8: "length (truncateValidUTF8 s n) \<le> n"
  using length_dropInvalid[of "take n s"] by (auto simp: truncateValidUTF8_def)

lemma valid_truncateValidUTF8: "n < length s \<Longrightarrow> valid_utf8 (truncateValidUTF8 s n)"
  by (simp add: truncateValidUTF8_def dropInvalid_valid)

end
