(* ===== verification/Version_Order.thy ===== *)
theory Version_Order
  imports Prelude
begin

text \<open>
  What the version comparators promise, as an interface. A comparator returns -1, 0 or 1
  (\<^verbatim>\<open>vercmp.Compare\<close>'s convention); \<open>preorder_cmp\<close> states that on a set of meaningful inputs it
  is a total preorder. The second locale, \<open>key_cmp\<close>, is the way every comparator of the program
  earns that contract: it equals the comparison of zero-padded integer lists (\<open>padcmp\<close>) under a
  key function. The comparator theories interpret \<open>key_cmp\<close> and inherit the order laws.
\<close>

section \<open>The contract of a comparator\<close>

locale preorder_cmp =
  fixes cmp :: "'a \<Rightarrow> 'a \<Rightarrow> int" and ok :: "'a \<Rightarrow> bool"
  assumes range: "ok a \<Longrightarrow> ok b \<Longrightarrow> cmp a b \<in> {-1, 0, 1}"
    and antisym: "ok a \<Longrightarrow> ok b \<Longrightarrow> cmp b a = - cmp a b"
    and le_trans: "ok a \<Longrightarrow> ok b \<Longrightarrow> ok c \<Longrightarrow> cmp a b \<le> 0 \<Longrightarrow> cmp b c \<le> 0 \<Longrightarrow> cmp a c \<le> 0"
begin

lemma refl: "ok a \<Longrightarrow> cmp a a = 0"
  using antisym [of a a] by simp

lemma total: "ok a \<Longrightarrow> ok b \<Longrightarrow> cmp a b \<le> 0 \<or> cmp b a \<le> 0"
  using antisym [of a b] by auto

lemma eq_cong_left:
  assumes "ok a" "ok b" "ok c" "cmp a b = 0"
  shows "cmp a c = cmp b c"
proof -
  have le: "cmp x z \<le> 0" if "cmp x y = 0" "cmp y z \<le> 0" "ok x" "ok y" "ok z" for x y z
    using le_trans [of x y z] that by simp
  have ba: "cmp b a = 0" using antisym [of a b] assms by simp
  have "cmp a c \<le> 0 \<longleftrightarrow> cmp b c \<le> 0"
    using le [of b a c] le [of a b c] assms ba by blast
  moreover have "cmp c a \<le> 0 \<longleftrightarrow> cmp c b \<le> 0"
    using le_trans [of c a b] le_trans [of c b a] assms ba by auto
  ultimately show ?thesis
    using antisym [of a c] antisym [of b c] range [of a c] range [of b c] assms by auto
qed

lemma less_le_trans:
  assumes "ok a" "ok b" "ok c" "cmp a b < 0" "cmp b c \<le> 0"
  shows "cmp a c < 0"
proof (rule ccontr)
  assume "\<not> cmp a c < 0"
  then have "cmp c a \<le> 0" using antisym [of a c] assms by simp
  then have "cmp b a \<le> 0" using le_trans [of b c a] assms by simp
  then show False using antisym [of a b] assms by simp
qed

lemma le_less_trans:
  assumes "ok a" "ok b" "ok c" "cmp a b \<le> 0" "cmp b c < 0"
  shows "cmp a c < 0"
proof (rule ccontr)
  assume "\<not> cmp a c < 0"
  then have "cmp c a \<le> 0" using antisym [of a c] assms by simp
  then have "cmp c b \<le> 0" using le_trans [of c a b] assms by simp
  then show False using antisym [of b c] assms by simp
qed

lemma less_asym: "ok a \<Longrightarrow> ok b \<Longrightarrow> cmp a b < 0 \<Longrightarrow> \<not> cmp b a < 0"
  using antisym [of a b] by simp

end

section \<open>Zero-padded lexicographic comparison\<close>

definition hd0 :: "int list \<Rightarrow> int" where
  "hd0 xs = (case xs of [] \<Rightarrow> 0 | x # _ \<Rightarrow> x)"

lemma hd0_simps [simp]: "hd0 [] = 0" "hd0 (x # xs) = x"
  by (simp_all add: hd0_def)

fun padcmp :: "int list \<Rightarrow> int list \<Rightarrow> int" where
  "padcmp [] [] = 0"
| "padcmp (x # xs) [] = (if x \<noteq> 0 then sign x else padcmp xs [])"
| "padcmp [] (y # ys) = (if y \<noteq> 0 then sign (- y) else padcmp [] ys)"
| "padcmp (x # xs) (y # ys) = (if x \<noteq> y then sign (x - y) else padcmp xs ys)"

lemma padcmp_step:
  "padcmp a b = (if hd0 a \<noteq> hd0 b then sign (hd0 a - hd0 b) else padcmp (tl a) (tl b))"
  by (cases a; cases b) auto

lemma padcmp_refl [simp]: "padcmp a a = 0"
  by (induction a) auto

lemma padcmp_range: "padcmp a b \<in> {-1, 0, 1}"
  by (induction a b rule: padcmp.induct) (auto simp: sign_def)

lemma padcmp_antisym: "padcmp b a = - padcmp a b"
  by (induction a b rule: padcmp.induct) (auto simp: sign_def)

lemma padcmp_trans_len:
  "length a \<le> n \<Longrightarrow> length b \<le> n \<Longrightarrow> length c \<le> n \<Longrightarrow>
   padcmp a b \<le> 0 \<Longrightarrow> padcmp b c \<le> 0 \<Longrightarrow> padcmp a c \<le> 0"
proof (induction n arbitrary: a b c)
  case 0
  then show ?case by simp
next
  case (Suc n)
  have IH: "padcmp (tl a) (tl b) \<le> 0 \<Longrightarrow> padcmp (tl b) (tl c) \<le> 0 \<Longrightarrow> padcmp (tl a) (tl c) \<le> 0"
    using Suc.IH [of "tl a" "tl b" "tl c"] Suc.prems(1-3) by simp
  have ab: "hd0 a < hd0 b \<or> hd0 a = hd0 b \<and> padcmp (tl a) (tl b) \<le> 0"
    using Suc.prems(4) padcmp_step [of a b] by (auto simp: sign_def split: if_splits)
  have bc: "hd0 b < hd0 c \<or> hd0 b = hd0 c \<and> padcmp (tl b) (tl c) \<le> 0"
    using Suc.prems(5) padcmp_step [of b c] by (auto simp: sign_def split: if_splits)
  have "hd0 a < hd0 c \<or> hd0 a = hd0 c \<and> padcmp (tl a) (tl c) \<le> 0"
    using ab bc IH by auto
  then show ?case
    using padcmp_step [of a c] by (auto simp: sign_def)
qed

lemma padcmp_trans: "padcmp a b \<le> 0 \<Longrightarrow> padcmp b c \<le> 0 \<Longrightarrow> padcmp a c \<le> 0"
  by (rule padcmp_trans_len [of a "max (length a) (max (length b) (length c))" b c]) auto

lemma padcmp_same_prefix [simp]: "padcmp (xs @ a) (xs @ b) = padcmp a b"
  by (induction xs) auto

lemma padcmp_Cons: "padcmp (x # a) (y # b) = (if x \<noteq> y then sign (x - y) else padcmp a b)"
  by simp

lemma padcmp_zeros_left: "padcmp (replicate n 0 @ a) [] = padcmp a []"
  by (induction n) auto

section \<open>Comparators that compare keys\<close>

locale key_cmp =
  fixes cmp :: "'a \<Rightarrow> 'a \<Rightarrow> int" and ok :: "'a \<Rightarrow> bool" and key :: "'a \<Rightarrow> int list"
  assumes cmp_key: "ok a \<Longrightarrow> ok b \<Longrightarrow> cmp a b = padcmp (key a) (key b)"

sublocale key_cmp \<subseteq> preorder_cmp cmp ok
proof unfold_locales
  fix a b assume "ok a" "ok b"
  then show "cmp a b \<in> {-1, 0, 1}" and "cmp b a = - cmp a b"
    using padcmp_range [of "key a" "key b"] padcmp_antisym [of "key a" "key b"]
    by (simp_all only: cmp_key)
next
  fix a b c assume "ok a" "ok b" "ok c" "cmp a b \<le> 0" "cmp b c \<le> 0"
  then show "cmp a c \<le> 0"
    using padcmp_trans [of "key a" "key b" "key c"] by (simp add: cmp_key)
qed

text \<open>
  The order on keys itself, so that the contract has its defining model: every list is
  meaningful and is its own key.
\<close>

interpretation pad: key_cmp padcmp "\<lambda>_. True" "\<lambda>xs. xs"
  by unfold_locales simp

section \<open>Combining comparators\<close>

text \<open>Compare first components, and second components where the first are equal.\<close>

fun lexcmp :: "('a \<Rightarrow> 'a \<Rightarrow> int) \<Rightarrow> ('b \<Rightarrow> 'b \<Rightarrow> int) \<Rightarrow> 'a \<times> 'b \<Rightarrow> 'a \<times> 'b \<Rightarrow> int" where
  "lexcmp c d (a, x) (b, y) = (if c a b \<noteq> 0 then c a b else d x y)"

definition intcmp :: "int \<Rightarrow> int \<Rightarrow> int" where
  "intcmp m n = sign (m - n)"

lemma preorder_intcmp: "preorder_cmp intcmp (\<lambda>_. True)"
  by unfold_locales (auto simp: intcmp_def sign_def split: if_splits)

lemma preorder_lex:
  assumes "preorder_cmp c p" and "preorder_cmp d q"
  shows "preorder_cmp (lexcmp c d) (\<lambda>(a, x). p a \<and> q x)"
proof
  fix u v :: "'a \<times> 'b"
  assume u: "case u of (a, x) \<Rightarrow> p a \<and> q x" and v: "case v of (a, x) \<Rightarrow> p a \<and> q x"
  show "lexcmp c d u v \<in> {-1, 0, 1}"
    using u v preorder_cmp.range [OF assms(1)] preorder_cmp.range [OF assms(2)]
    by (cases u; cases v) auto
  show "lexcmp c d v u = - lexcmp c d u v"
    using u v preorder_cmp.antisym [OF assms(1), of "fst u" "fst v"]
      preorder_cmp.antisym [OF assms(2), of "snd u" "snd v"]
    by (cases u; cases v) auto
next
  fix u v w :: "'a \<times> 'b"
  assume ok: "case u of (a, x) \<Rightarrow> p a \<and> q x" "case v of (a, x) \<Rightarrow> p a \<and> q x"
      "case w of (a, x) \<Rightarrow> p a \<and> q x"
    and le: "lexcmp c d u v \<le> 0" "lexcmp c d v w \<le> 0"
  obtain a x b y e z where [simp]: "u = (a, x)" "v = (b, y)" "w = (e, z)"
    by (cases u; cases v; cases w) auto
  note tr = preorder_cmp.le_trans [OF assms(1), of a b e]
    and str = preorder_cmp.less_le_trans [OF assms(1), of a b e]
    and str' = preorder_cmp.le_less_trans [OF assms(1), of a b e]
    and tr2 = preorder_cmp.le_trans [OF assms(2), of x y z]
  show "lexcmp c d u w \<le> 0"
    using ok le tr str str' tr2 by (simp split: if_splits)
qed

lemma preorder_image:
  assumes "preorder_cmp c p"
  shows "preorder_cmp (\<lambda>a b. c (f a) (f b)) (\<lambda>a. p (f a))"
  using assms unfolding preorder_cmp_def by blast

lemma preorder_on:
  assumes "preorder_cmp c p" "\<And>a. q a \<Longrightarrow> p a" "\<And>a b. q a \<Longrightarrow> q b \<Longrightarrow> d a b = c a b"
  shows "preorder_cmp d q"
proof
  fix a b assume ab: "q a" "q b"
  then show "d a b \<in> {-1, 0, 1}" and "d b a = - d a b"
    using preorder_cmp.range [OF assms(1), of a b] preorder_cmp.antisym [OF assms(1), of a b]
      assms(2,3) by simp_all
next
  fix a b e assume "q a" "q b" "q e" "d a b \<le> 0" "d b e \<le> 0"
  then show "d a e \<le> 0"
    using preorder_cmp.le_trans [OF assms(1), of a b e] assms(2,3) by simp
qed

section \<open>Digit strings\<close>

text \<open>
  The comparators never convert a digit run to a machine integer where it could overflow: they
  strip leading zeros, compare lengths, then compare bytes. These lemmas connect that with the
  number the run denotes.
\<close>

fun stripLeadingZeros :: "string \<Rightarrow> string" where
  "stripLeadingZeros [] = []"
| "stripLeadingZeros (c # s) = (if c = CHR ''0'' then stripLeadingZeros s else c # s)"

fun strcmp :: "string \<Rightarrow> string \<Rightarrow> int" where
  "strcmp [] [] = 0"
| "strcmp [] (y # ys) = -1"
| "strcmp (x # xs) [] = 1"
| "strcmp (x # xs) (y # ys) = (if x < y then -1 else if x > y then 1 else strcmp xs ys)"

lemma strcmp_string_compare: "strcmp a b = string_compare a b"
  by (induction a b rule: strcmp.induct) (auto simp: string_compare_def)

lemma strcmp_refl [simp]: "strcmp a a = 0"
  by (induction a) auto

lemma num_of_snoc: "num_of (ds @ [c]) = num_of ds * 10 + digit_val c"
  by (simp add: num_of_def)

lemma num_of_Nil [simp]: "num_of [] = 0"
  by (simp add: num_of_def)

lemma num_of_append: "num_of (ds @ es) = num_of ds * 10 ^ length es + num_of es"
proof (induction es rule: rev_induct)
  case Nil
  then show ?case by simp
next
  case (snoc c es)
  have "num_of (ds @ es @ [c]) = num_of (ds @ es) * 10 + digit_val c"
    using num_of_snoc [of "ds @ es" c] by simp
  then show ?case by (simp add: snoc num_of_snoc algebra_simps)
qed

lemma num_of_Cons: "num_of (c # ds) = digit_val c * 10 ^ length ds + num_of ds"
  using num_of_append [of "[c]" ds] by (simp add: num_of_def)

lemma digit_val_range: "isDigit c \<Longrightarrow> 0 \<le> digit_val c \<and> digit_val c \<le> 9"
  by (auto simp: isDigit_byte digit_val_def)

lemma num_of_bounds:
  "list_all isDigit ds \<Longrightarrow> 0 \<le> num_of ds \<and> num_of ds < 10 ^ length ds"
proof (induction ds)
  case Nil
  then show ?case by simp
next
  case (Cons c ds)
  then have d: "0 \<le> digit_val c" "digit_val c \<le> 9" and IH: "0 \<le> num_of ds" "num_of ds < 10 ^ length ds"
    using digit_val_range [of c] by auto
  have "digit_val c * 10 ^ length ds \<le> 9 * 10 ^ length ds"
    using d by (intro mult_right_mono) auto
  then have "digit_val c * 10 ^ length ds + num_of ds < 10 * 10 ^ length ds"
    using IH by linarith
  moreover have "0 \<le> digit_val c * 10 ^ length ds" using d by simp
  ultimately show ?case using IH by (simp add: num_of_Cons)
qed

lemma num_of_stripLeadingZeros [simp]: "num_of (stripLeadingZeros ds) = num_of ds"
  by (induction ds rule: stripLeadingZeros.induct) (auto simp: num_of_Cons digit_val_def)

lemma stripLeadingZeros_digits: "list_all isDigit ds \<Longrightarrow> list_all isDigit (stripLeadingZeros ds)"
  by (induction ds rule: stripLeadingZeros.induct) auto

lemma stripLeadingZeros_hd: "stripLeadingZeros ds = c # s \<Longrightarrow> c \<noteq> CHR ''0''"
  by (induction ds rule: stripLeadingZeros.induct) (auto split: if_splits)

lemma num_of_lead:
  assumes "list_all isDigit (c # ds)" "c \<noteq> CHR ''0''"
  shows "10 ^ length ds \<le> num_of (c # ds)"
proof -
  have "byte c \<noteq> byte CHR ''0''" using assms(2) byte_eq_iff by blast
  then have "1 \<le> digit_val c"
    using assms(1) by (auto simp: digit_val_def isDigit_byte)
  then have "1 * 10 ^ length ds \<le> digit_val c * 10 ^ length ds" by (intro mult_right_mono) auto
  moreover have "0 \<le> num_of ds" using num_of_bounds [of ds] assms(1) by simp
  ultimately show ?thesis unfolding num_of_Cons by linarith
qed

lemma num_of_shorter:
  assumes "list_all isDigit a" "list_all isDigit b"
    and "length (stripLeadingZeros a) < length (stripLeadingZeros b)"
  shows "num_of a < num_of b"
proof -
  obtain c s where b: "stripLeadingZeros b = c # s"
    using assms(3) by (cases "stripLeadingZeros b") auto
  have dig: "list_all isDigit (c # s)"
    using stripLeadingZeros_digits [OF assms(2)] b by simp
  have "num_of (stripLeadingZeros a) < 10 ^ length (stripLeadingZeros a)"
    using num_of_bounds stripLeadingZeros_digits assms(1) by blast
  also have "\<dots> \<le> 10 ^ length s"
    using assms(3) b by (intro power_increasing) auto
  also have "\<dots> \<le> num_of (c # s)"
    using num_of_lead [OF dig] stripLeadingZeros_hd [OF b] by blast
  finally show ?thesis
    using b num_of_stripLeadingZeros [of a] num_of_stripLeadingZeros [of b] by simp
qed

lemma strcmp_num_of:
  "list_all isDigit a \<Longrightarrow> list_all isDigit b \<Longrightarrow> length a = length b \<Longrightarrow>
   strcmp a b = sign (num_of a - num_of b)"
proof (induction a b rule: strcmp.induct)
  case (4 x xs y ys)
  have len: "length ys = length xs" using "4.prems" by simp
  have bx: "0 \<le> num_of xs" "num_of xs < 10 ^ length xs"
    and bys: "0 \<le> num_of ys" "num_of ys < 10 ^ length xs"
    using num_of_bounds [of xs] num_of_bounds [of ys] "4.prems" by auto
  have lt: "num_of (u # us) < num_of (v # vs)"
    if "u < v" "length us = length vs" "num_of us < 10 ^ length us" "0 \<le> num_of vs" for u us v vs
  proof -
    have "digit_val u + 1 \<le> digit_val v"
      using that(1) by (simp add: less_char_byte digit_val_def)
    then have "(digit_val u + 1) * 10 ^ length us \<le> digit_val v * 10 ^ length us"
      by (rule mult_right_mono) simp
    then show ?thesis using that by (simp add: num_of_Cons algebra_simps)
  qed
  consider "x < y" | "y < x" | "x = y" by force
  then show ?case
  proof cases
    case 1
    then have "num_of (x # xs) < num_of (y # ys)" using lt [of x y xs ys] len bx bys by simp
    with 1 show ?thesis by (simp add: sign_def)
  next
    case 2
    then have "num_of (y # ys) < num_of (x # xs)" using lt [of y x ys xs] len bx bys by simp
    with 2 show ?thesis by (simp add: sign_def)
  next
    case 3
    then show ?thesis using "4.IH" "4.prems" len by (simp add: num_of_Cons)
  qed
qed auto

definition compareNumStr :: "string \<Rightarrow> string \<Rightarrow> int" where
  "compareNumStr a b =
     (let a' = stripLeadingZeros a; b' = stripLeadingZeros b
      in if length a' \<noteq> length b' then sign (int (length a') - int (length b'))
         else string_compare a' b')"

lemma compareNumStr_num_of:
  assumes "list_all isDigit a" "list_all isDigit b"
  shows "compareNumStr a b = sign (num_of a - num_of b)"
proof -
  let ?a = "stripLeadingZeros a" and ?b = "stripLeadingZeros b"
  consider "length ?a < length ?b" | "length ?b < length ?a" | "length ?a = length ?b"
    by linarith
  then show ?thesis
  proof cases
    case 1
    then show ?thesis using num_of_shorter [OF assms] by (simp add: compareNumStr_def Let_def sign_def)
  next
    case 2
    then show ?thesis using num_of_shorter [OF assms(2,1)] by (simp add: compareNumStr_def Let_def sign_def)
  next
    case 3
    then show ?thesis
      using strcmp_num_of [of ?a ?b] assms stripLeadingZeros_digits
      by (simp add: compareNumStr_def Let_def strcmp_string_compare)
  qed
qed

section \<open>Decimal numbers\<close>

lemma digit_char: "n < 10 \<Longrightarrow> byte (char_of (48 + n)) = 48 + int n"
proof -
  assume "n < 10"
  have "of_char (char_of (48 + n)) = (48 + n) mod 256" by (rule of_char_of)
  also have "\<dots> = 48 + n" using \<open>n < 10\<close> by (intro mod_less) linarith
  finally show ?thesis unfolding byte_nat by (simp only: of_nat_add of_nat_numeral)
qed

lemma num_of_show_nat: "num_of (show_nat n) = int n"
proof (induction n rule: show_nat.induct)
  case (1 n)
  show ?case
  proof (cases "n < 10")
    case True
    then show ?thesis using digit_char [of n] by (simp add: show_nat.simps [of n] num_of_Cons digit_val_def)
  next
    case False
    have "int n = int (n div 10) * 10 + int (n mod 10)" by presburger
    then show ?thesis
      using 1 False digit_char [of "n mod 10"] by (simp add: show_nat.simps [of n] num_of_snoc digit_val_def)
  qed
qed

lemma show_nat_inj: "show_nat m = show_nat n \<Longrightarrow> m = n"
  by (drule arg_cong [where f = num_of]) (simp add: num_of_show_nat)

lemma show_nat_digits: "show_nat n \<noteq> [] \<and> list_all isDigit (show_nat n)"
proof (induction n rule: show_nat.induct)
  case (1 n)
  have d: "isDigit (char_of (48 + k))" if "k < 10" for k :: nat
    using digit_char [OF that] that by (simp add: isDigit_def less_eq_char_byte)
  show ?case
  proof (cases "n < 10")
    case True
    then show ?thesis using d by (simp add: show_nat.simps [of n])
  next
    case False
    then show ?thesis using 1 d [of "n mod 10"] by (simp add: show_nat.simps [of n])
  qed
qed

lemma Atoi_show_nat: "int n \<le> go_int_max \<Longrightarrow> Atoi (show_nat n) = Some (int n)"
proof -
  assume n: "int n \<le> go_int_max"
  obtain c cs where s: "show_nat n = c # cs" using show_nat_digits [of n] by (cases "show_nat n") auto
  have "isDigit c" using show_nat_digits [of n] s by simp
  then have "c \<noteq> CHR ''-''" "c \<noteq> CHR ''+''" by (auto simp: isDigit_def less_eq_char_byte)
  then have "Atoi (show_nat n) = (if go_int_min \<le> int n \<and> int n \<le> go_int_max then Some (int n) else None)"
    using show_nat_digits [of n] num_of_show_nat [of n] s by (simp add: Atoi_def Let_def)
  then show ?thesis using n by (simp add: go_int_min_def)
qed

lemma show_nat_chars: "c \<in> set (show_nat n) \<Longrightarrow> isDigit c"
  using show_nat_digits [of n] by (simp add: list_all_iff)

end
