(* ===== verification/Vercmp_Debian.thy ===== *)
theory Vercmp_Debian
  imports Version_Order
begin

text \<open>
  \<^verbatim>\<open>internal/server/vercmp/deb.go\<close>: Debian's version comparison. An index \<^verbatim>\<open>i\<close> into a string
  \<^verbatim>\<open>a\<close> of the source is the suffix \<^verbatim>\<open>a[i:]\<close> here: \<^verbatim>\<open>i++\<close> is \<open>tl\<close> (which stays at the end of
  the string, as an index past the end does), \<^verbatim>\<open>i < len(a)\<close> is \<open>a \<noteq> []\<close>.
\<close>

section \<open>Shared byte searches (rpm.go)\<close>

definition indexByte :: "string \<Rightarrow> char \<Rightarrow> int" where
  "indexByte s b = IndexByteFrom s b 0"

fun lastIndexByteFrom :: "string \<Rightarrow> char \<Rightarrow> nat \<Rightarrow> int" where
  "lastIndexByteFrom s b 0 = -1"
| "lastIndexByteFrom s b (Suc i) = (if s ! i = b then int i else lastIndexByteFrom s b i)"

definition lastIndexByte :: "string \<Rightarrow> char \<Rightarrow> int" where
  "lastIndexByte s b = lastIndexByteFrom s b (length s)"

section \<open>The comparison\<close>

definition debianOrder :: "char \<Rightarrow> int" where
  "debianOrder c =
     (if c = CHR ''~'' then -1
      else if byte c = 0 then 0
      else if isAlpha c then byte c
      else byte c + 256)"

definition nondigit_head :: "string \<Rightarrow> bool" where
  "nondigit_head s = (case s of [] \<Rightarrow> False | c # _ \<Rightarrow> \<not> isDigit c)"

definition digit_head :: "string \<Rightarrow> bool" where
  "digit_head s = (case s of [] \<Rightarrow> False | c # _ \<Rightarrow> isDigit c)"

text \<open>The weight the loop reads at the cursor: that of byte 0 at the end or at a digit.\<close>

definition cursor_order :: "string \<Rightarrow> int" where
  "cursor_order s = (if nondigit_head s then debianOrder (hd s) else debianOrder (CHR 0x00))"

text \<open>
  The inner loop over non-digits: \<open>Inl\<close> is its early \<^verbatim>\<open>return\<close>, \<open>Inr\<close> the cursors where it stops.
\<close>

function nondigit_loop :: "string \<Rightarrow> string \<Rightarrow> int + (string \<times> string)" where
  "nondigit_loop a b =
     (if nondigit_head a \<or> nondigit_head b
      then (if cursor_order a \<noteq> cursor_order b
            then Inl (sign (cursor_order a - cursor_order b))
            else nondigit_loop (tl a) (tl b))
      else Inr (a, b))"
  by pat_completeness auto
termination
  by (relation "measure (\<lambda>(a, b). length a + length b)")
    (auto simp: nondigit_head_def split: list.splits)

declare nondigit_loop.simps [simp del]

text \<open>The loop over two digit runs, with \<^verbatim>\<open>firstDiff\<close>.\<close>

fun digit_loop :: "string \<Rightarrow> string \<Rightarrow> int \<Rightarrow> int \<times> string \<times> string" where
  "digit_loop (x # xs) (y # ys) d =
     (if isDigit x \<and> isDigit y
      then digit_loop xs ys (if d = 0 then byte x - byte y else d)
      else (d, x # xs, y # ys))"
| "digit_loop xs ys d = (d, xs, ys)"

lemma nondigit_loop_heads:
  "nondigit_loop a b = Inr (a', b') \<Longrightarrow>
   \<not> nondigit_head a' \<and> \<not> nondigit_head b' \<and> length a' \<le> length a \<and> length b' \<le> length b"
proof (induction a b rule: nondigit_loop.induct)
  case (1 a b)
  show ?case
    using "1.prems" "1.IH"
    by (subst (asm) nondigit_loop.simps) (fastforce split: if_splits)
qed

lemma digit_loop_lengths:
  "digit_loop a b d = (d', a', b') \<Longrightarrow> length a' \<le> length a \<and> length b' \<le> length b"
  by (induction a b d rule: digit_loop.induct) (fastforce split: if_splits)+

lemma digit_loop_stuck:
  "digit_loop a b d = (d', a', b') \<Longrightarrow> length a' = length a \<Longrightarrow> a' = a \<and> b' = b"
  by (induction a b d rule: digit_loop.induct)
    (auto split: if_splits dest: digit_loop_lengths)

lemma dropWhile_stuck:
  assumes "length (dropWhile P s) = length s"
  shows "dropWhile P s = s"
proof -
  have "length (takeWhile P s) + length (dropWhile P s) = length s"
    by (metis length_append takeWhile_dropWhile_id)
  then have "takeWhile P s = []" using assms by simp
  then show ?thesis by (metis append_Nil takeWhile_dropWhile_id)
qed

abbreviation skip_zeros :: "string \<Rightarrow> string" where
  "skip_zeros s \<equiv> dropWhile (\<lambda>c. c = CHR ''0'') s"

text \<open>Every pass of the outer loop that does not return consumes input.\<close>

lemma verrevcmp_progress:
  assumes "a \<noteq> [] \<or> b \<noteq> []" and nd: "nondigit_loop a b = Inr (a1, b1)"
    and dl: "digit_loop (skip_zeros a1) (skip_zeros b1) 0 = (d, a2, b2)"
    and "\<not> digit_head a2" "\<not> digit_head b2"
  shows "length a2 + length b2 < length a + length b"
proof (rule ccontr)
  assume neg: "\<not> ?thesis"
  note heads = nondigit_loop_heads [OF nd]
  have le: "length a2 \<le> length (skip_zeros a1)" "length b2 \<le> length (skip_zeros b1)"
    using digit_loop_lengths [OF dl] by auto
  have z: "length (skip_zeros a1) \<le> length a1" "length (skip_zeros b1) \<le> length b1"
    by (rule length_dropWhile_le)+
  have eqs: "length a2 = length (skip_zeros a1)" "length (skip_zeros a1) = length a1"
    "length a1 = length a" "length (skip_zeros b1) = length b1" "length b1 = length b"
    using neg heads le z by auto
  then have "a2 = a1" "b2 = b1"
    using digit_loop_stuck [OF dl eqs(1)] dropWhile_stuck [of _ a1] dropWhile_stuck [of _ b1] by auto
  then have "a1 = []" "b1 = []"
    using heads assms(4,5) by (auto simp: nondigit_head_def digit_head_def split: list.splits)
  then show False using eqs assms(1) by auto
qed

function verrevcmp :: "string \<Rightarrow> string \<Rightarrow> int" where
  "verrevcmp a b =
     (if a \<noteq> [] \<or> b \<noteq> [] then
        (case nondigit_loop a b of
           Inl r \<Rightarrow> r
         | Inr (a1, b1) \<Rightarrow>
             (case digit_loop (skip_zeros a1)
                     (skip_zeros b1) 0 of
                (firstDiff, a2, b2) \<Rightarrow>
                  if digit_head a2 then 1
                  else if digit_head b2 then -1
                  else if firstDiff \<noteq> 0 then sign firstDiff
                  else verrevcmp a2 b2))
      else 0)"
  by pat_completeness auto
termination
proof (relation "measure (\<lambda>(a, b). length a + length b)", goal_cases)
  case 1
  show ?case by simp
next
  case (2 a b p a1 b1 d q a2 b2)
  then have "digit_loop (skip_zeros a1) (skip_zeros b1) 0 = (0, a2, b2)" by simp
  then show ?case using 2 verrevcmp_progress [of a b a1 b1 0 a2 b2] by auto
qed

declare verrevcmp.simps [simp del]

definition splitDebianVersion :: "string \<Rightarrow> int \<times> string \<times> string" where
  "splitDebianVersion v =
     (let i = indexByte v (CHR '':'');
          (epoch, v1) =
            (if i \<ge> 0
             then (case Atoi (take (nat i) v) of
                     Some e \<Rightarrow> (e, drop (nat i + 1) v)
                   | None \<Rightarrow> (0, v))
             else (0, v));
          j = lastIndexByte v1 (CHR ''-'')
      in if j \<ge> 0 then (epoch, take (nat j) v1, drop (nat j + 1) v1)
         else (epoch, v1, ''0''))"

definition compareDebian :: "string \<Rightarrow> string \<Rightarrow> int \<times> bool" where
  "compareDebian a b =
     (if a = [] \<or> b = [] then (0, False)
      else (case splitDebianVersion a of (ea, ua, ra) \<Rightarrow>
            case splitDebianVersion b of (eb, ub, rb) \<Rightarrow>
              if ea \<noteq> eb then (if ea < eb then (-1, True) else (1, True))
              else if verrevcmp ua ub \<noteq> 0 then (verrevcmp ua ub, True)
              else (verrevcmp ra rb, True)))"

section \<open>The key of a version string\<close>

text \<open>
  The reference order: a string is cut into alternating non-digit and digit runs; a non-digit run
  contributes the weights of its bytes and a terminating 0, a digit run its number. Keys are
  compared as zero-padded lists, so the end of the string weighs 0 and an absent number is 0.
\<close>

abbreviation nd_run :: "string \<Rightarrow> string" where "nd_run s \<equiv> takeWhile (\<lambda>c. \<not> isDigit c) s"
abbreviation nd_rest :: "string \<Rightarrow> string" where "nd_rest s \<equiv> dropWhile (\<lambda>c. \<not> isDigit c) s"

function deb_key :: "string \<Rightarrow> int list" where
  "deb_key s =
     (if s = [] then []
      else map debianOrder (nd_run s) @
           [0, num_of (takeWhile isDigit (nd_rest s))] @
           deb_key (dropWhile isDigit (nd_rest s)))"
  by pat_completeness auto
termination
proof (relation "measure length", goal_cases)
  case (2 s)
  then obtain c t where s: "s = c # t" by (cases s) auto
  have "length (dropWhile isDigit (nd_rest s)) \<le> length t"
    using length_dropWhile_le [of isDigit t] length_dropWhile_le [of isDigit "nd_rest t"]
      length_dropWhile_le [of "\<lambda>c. \<not> isDigit c" t] s
    by (cases "isDigit c") (auto split: if_splits)
  then show ?case using s by simp
qed simp

declare deb_key.simps [simp del]

text \<open>PostgreSQL text holds no byte 0, so no version string of the program does.\<close>

definition nul_free :: "string \<Rightarrow> bool" where
  "nul_free s \<longleftrightarrow> list_all (\<lambda>c. byte c \<noteq> 0) s"

lemma nul_free_tl: "nul_free s \<Longrightarrow> nul_free (tl s)"
  by (cases s) (auto simp: nul_free_def)

lemma nul_free_dropWhile: "nul_free s \<Longrightarrow> nul_free (dropWhile P s)"
  by (induction s) (auto simp: nul_free_def)

lemma nul_free_drop: "nul_free s \<Longrightarrow> nul_free (drop n s)"
  by (auto simp: nul_free_def list_all_iff dest: in_set_dropD)

lemma nul_free_take: "nul_free s \<Longrightarrow> nul_free (take n s)"
  by (auto simp: nul_free_def list_all_iff dest: in_set_takeD)

lemma debianOrder_zero: "debianOrder c = 0 \<longleftrightarrow> byte c = 0"
proof -
  have "byte c + 256 \<noteq> 0" using byte_nonneg [of c] by linarith
  then show ?thesis by (auto simp: debianOrder_def isAlpha_byte)
qed

lemma cursor_order_end: "\<not> nondigit_head s \<Longrightarrow> cursor_order s = 0"
  by (simp add: cursor_order_def debianOrder_def isAlpha_byte)

lemma nd_run_step: "map debianOrder (nd_run s) @ 0 # x =
  cursor_order s # (if nondigit_head s then map debianOrder (nd_run (tl s)) @ 0 # x else x)"
  by (cases s) (auto simp: cursor_order_def nondigit_head_def debianOrder_def isAlpha_byte)

lemma cursor_order_nonzero: "nul_free s \<Longrightarrow> nondigit_head s \<Longrightarrow> cursor_order s \<noteq> 0"
  by (cases s) (auto simp: cursor_order_def nondigit_head_def nul_free_def debianOrder_zero)

lemma nondigit_loop_key:
  assumes "nul_free a" "nul_free b"
  shows "case nondigit_loop a b of
      Inl r \<Rightarrow> padcmp (map debianOrder (nd_run a) @ 0 # x) (map debianOrder (nd_run b) @ 0 # y) = r \<and> r \<noteq> 0
    | Inr (a', b') \<Rightarrow> padcmp (map debianOrder (nd_run a) @ 0 # x) (map debianOrder (nd_run b) @ 0 # y) = padcmp x y
        \<and> a' = nd_rest a \<and> b' = nd_rest b"
  using assms
proof (induction a b rule: nondigit_loop.induct)
  case (1 a b)
  note unfold = nondigit_loop.simps [of a b]
  show ?case
  proof (cases "nondigit_head a \<or> nondigit_head b")
    case False
    then have "nd_run a = []" "nd_run b = []" "nd_rest a = a" "nd_rest b = b"
      by (auto simp: nondigit_head_def split: list.splits)
    with False show ?thesis by (simp add: unfold)
  next
    case True
    show ?thesis
    proof (cases "cursor_order a = cursor_order b")
      case False
      with True show ?thesis by (simp add: unfold nd_run_step [of a] nd_run_step [of b])
    next
      case True': True
      have both: "nondigit_head a" "nondigit_head b"
        using True True' "1.prems" cursor_order_nonzero cursor_order_end by metis+
      then have rest: "nd_rest (tl a) = nd_rest a" "nd_rest (tl b) = nd_rest b"
        by (auto simp: nondigit_head_def split: list.splits)
      have "padcmp (map debianOrder (nd_run a) @ 0 # x) (map debianOrder (nd_run b) @ 0 # y) =
          padcmp (map debianOrder (nd_run (tl a)) @ 0 # x) (map debianOrder (nd_run (tl b)) @ 0 # y)"
        using both True' by (simp add: nd_run_step [of a] nd_run_step [of b])
      moreover have "nul_free (tl a)" "nul_free (tl b)" using "1.prems" nul_free_tl by auto
      ultimately show ?thesis
        using "1.IH" [OF True] True True' rest by (simp add: unfold split: sum.splits prod.splits)
    qed
  qed
qed

lemma digit_loop_key:
  "digit_loop a b d = (d', a', b') \<Longrightarrow>
   digit_head a' = (length (takeWhile isDigit b) < length (takeWhile isDigit a)) \<and>
   digit_head b' = (length (takeWhile isDigit a) < length (takeWhile isDigit b)) \<and>
   (length (takeWhile isDigit a) = length (takeWhile isDigit b) \<longrightarrow>
      a' = dropWhile isDigit a \<and> b' = dropWhile isDigit b \<and>
      sign d' = (if d \<noteq> 0 then sign d else strcmp (takeWhile isDigit a) (takeWhile isDigit b)))"
proof (induction a b d rule: digit_loop.induct)
  case (1 x xs y ys d)
  then show ?case
    by (auto simp: digit_head_def less_char_byte sign_def split: if_splits)
qed (auto simp: digit_head_def split: list.splits)

lemma takeWhile_skip_zeros: "takeWhile isDigit (skip_zeros s) = stripLeadingZeros (takeWhile isDigit s)"
  by (induction s) (auto simp: isDigit_byte)

lemma dropWhile_skip_zeros: "dropWhile isDigit (skip_zeros s) = dropWhile isDigit s"
  by (induction s) (auto simp: isDigit_byte)

lemma list_all_takeWhile: "list_all P (takeWhile P s)"
  by (auto simp: list_all_iff dest: set_takeWhileD)

text \<open>The numeric part of one pass: early returns agree with the order of the two numbers.\<close>

lemma digit_pass:
  assumes dl: "digit_loop (skip_zeros a) (skip_zeros b) 0 = (d, a2, b2)"
  defines "da \<equiv> num_of (takeWhile isDigit a)" and "db \<equiv> num_of (takeWhile isDigit b)"
  shows "digit_head a2 \<Longrightarrow> db < da"
    and "digit_head b2 \<Longrightarrow> da < db"
    and "\<not> digit_head a2 \<Longrightarrow> \<not> digit_head b2 \<Longrightarrow>
      sign d = sign (da - db) \<and> a2 = dropWhile isDigit a \<and> b2 = dropWhile isDigit b"
proof -
  note dig = list_all_takeWhile [of isDigit]
  note key = digit_loop_key [OF dl, unfolded takeWhile_skip_zeros dropWhile_skip_zeros]
  show "digit_head a2 \<Longrightarrow> db < da" and "digit_head b2 \<Longrightarrow> da < db"
    using key num_of_shorter [OF dig dig] by (auto simp: da_def db_def)
  assume "\<not> digit_head a2" "\<not> digit_head b2"
  then have len: "length (stripLeadingZeros (takeWhile isDigit a)) =
      length (stripLeadingZeros (takeWhile isDigit b))" using key by auto
  moreover have "strcmp (stripLeadingZeros (takeWhile isDigit a)) (stripLeadingZeros (takeWhile isDigit b))
      = sign (da - db)"
    using strcmp_num_of [OF stripLeadingZeros_digits [OF dig] stripLeadingZeros_digits [OF dig] len]
    by (simp add: da_def db_def)
  ultimately show "sign d = sign (da - db) \<and> a2 = dropWhile isDigit a \<and> b2 = dropWhile isDigit b"
    using key by simp
qed

lemma deb_key_unfold:
  "padcmp (deb_key a) y =
   padcmp (map debianOrder (nd_run a) @ 0 # num_of (takeWhile isDigit (nd_rest a)) #
           deb_key (dropWhile isDigit (nd_rest a))) y"
proof (cases "a = []")
  case True
  have "padcmp [] y = padcmp (0 # 0 # []) y" by (cases y; cases "tl y") auto
  with True show ?thesis by (simp add: deb_key.simps)
next
  case False
  then show ?thesis by (simp add: deb_key.simps [of a])
qed

lemma deb_key_unfold2:
  "padcmp (deb_key a) (deb_key b) =
   padcmp (map debianOrder (nd_run a) @ 0 # num_of (takeWhile isDigit (nd_rest a)) #
           deb_key (dropWhile isDigit (nd_rest a)))
          (map debianOrder (nd_run b) @ 0 # num_of (takeWhile isDigit (nd_rest b)) #
           deb_key (dropWhile isDigit (nd_rest b)))"
  by (metis deb_key_unfold padcmp_antisym)

lemma verrevcmp_key:
  "nul_free a \<Longrightarrow> nul_free b \<Longrightarrow> verrevcmp a b = padcmp (deb_key a) (deb_key b)"
proof (induction a b rule: verrevcmp.induct)
  case (1 a b)
  show ?case
  proof (cases "a \<noteq> [] \<or> b \<noteq> []")
    case False
    then show ?thesis by (simp add: verrevcmp.simps)
  next
    case True
    let ?x = "num_of (takeWhile isDigit (nd_rest a)) # deb_key (dropWhile isDigit (nd_rest a))"
    let ?y = "num_of (takeWhile isDigit (nd_rest b)) # deb_key (dropWhile isDigit (nd_rest b))"
    note nd = nondigit_loop_key [OF "1.prems", of ?x ?y]
    show ?thesis
    proof (cases "nondigit_loop a b")
      case (Inl r)
      with nd True show ?thesis by (simp add: verrevcmp.simps [of a b] deb_key_unfold2 [of a b])
    next
      case (Inr p)
      then have p: "p = (nd_rest a, nd_rest b)" and eq: "padcmp (deb_key a) (deb_key b) = padcmp ?x ?y"
        using nd by (cases p; simp add: deb_key_unfold2 [of a b])+
      obtain d a2 b2 where dl: "digit_loop (skip_zeros (nd_rest a)) (skip_zeros (nd_rest b)) 0 = (d, a2, b2)"
        by (metis prod_cases3)
      note pass = digit_pass [OF dl]
      show ?thesis
      proof (cases "digit_head a2 \<or> digit_head b2 \<or> d \<noteq> 0")
        case stop: True
        then show ?thesis
          using True Inr p dl pass eq
          by (cases "digit_head a2"; cases "digit_head b2")
            (simp_all add: verrevcmp.simps [of a b] sign_def split: if_splits)
      next
        case go: False
        have "nul_free a2" "nul_free b2"
          using go pass(3) "1.prems" nul_free_dropWhile by auto
        then have "verrevcmp a2 b2 = padcmp (deb_key a2) (deb_key b2)"
          using "1.IH" [OF True Inr [unfolded p] refl dl [symmetric] refl] go by simp
        then show ?thesis
          using True Inr p dl pass(3) eq go by (simp add: verrevcmp.simps [of a b])
      qed
    qed
  qed
qed

interpretation deb: key_cmp verrevcmp nul_free deb_key
  by unfold_locales (rule verrevcmp_key)

section \<open>Whole versions\<close>

lemma lastIndexByteFrom_less: "lastIndexByteFrom s b n < int n"
  by (induction n) auto

lemma splitDebianVersion_nul_free:
  "nul_free v \<Longrightarrow> splitDebianVersion v = (e, u, r) \<Longrightarrow> nul_free u \<and> nul_free r"
  by (auto simp: splitDebianVersion_def Let_def nul_free_take nul_free_drop
      split: if_splits option.splits) (simp_all add: nul_free_def)

text \<open>A version is compared as the triple of its epoch, upstream version and revision.\<close>

definition deb_cmp :: "string \<Rightarrow> string \<Rightarrow> int" where
  "deb_cmp a b = fst (compareDebian a b)"

definition deb_version :: "string \<Rightarrow> bool" where
  "deb_version s \<longleftrightarrow> s \<noteq> [] \<and> nul_free s"

lemma compareDebian_lex:
  assumes "a \<noteq> []" "b \<noteq> []"
  shows "compareDebian a b =
    (lexcmp intcmp (lexcmp verrevcmp verrevcmp) (splitDebianVersion a) (splitDebianVersion b), True)"
  using assms
  by (cases "splitDebianVersion a"; cases "splitDebianVersion b")
    (auto simp: compareDebian_def intcmp_def sign_def)

lemma deb_preorder: "preorder_cmp deb_cmp deb_version"
proof (rule preorder_on)
  let ?c = "lexcmp intcmp (lexcmp verrevcmp verrevcmp)"
  let ?p = "\<lambda>(e, u). True \<and> (case u of (x, y) \<Rightarrow> nul_free x \<and> nul_free y)"
  have "preorder_cmp ?c ?p"
    by (rule preorder_lex [OF preorder_intcmp preorder_lex [OF deb.preorder_cmp_axioms deb.preorder_cmp_axioms]])
  then show "preorder_cmp (\<lambda>a b. ?c (splitDebianVersion a) (splitDebianVersion b))
      (\<lambda>a. ?p (splitDebianVersion a))"
    by (rule preorder_image)
  show "?p (splitDebianVersion a)" if "deb_version a" for a
  proof -
    obtain e u r where split: "splitDebianVersion a = (e, u, r)" by (metis prod_cases3)
    have "nul_free a" using that by (simp add: deb_version_def)
    then show ?thesis using splitDebianVersion_nul_free [OF _ split] by (simp add: split)
  qed
  show "deb_cmp a b = ?c (splitDebianVersion a) (splitDebianVersion b)"
    if "deb_version a" "deb_version b" for a b
    using that by (simp add: deb_cmp_def deb_version_def compareDebian_lex)
qed

interpretation debian: preorder_cmp deb_cmp deb_version
  by (rule deb_preorder)

text \<open>The pre-release mark: anything appended after a tilde makes a version part older.\<close>

lemma takeWhile_append_stop:
  "\<not> P c \<Longrightarrow> takeWhile P (xs @ c # ys) = takeWhile P xs"
  by (induction xs) auto

lemma dropWhile_append_stop:
  "\<not> P c \<Longrightarrow> dropWhile P (xs @ c # ys) = dropWhile P xs @ c # ys"
  by (induction xs) auto

lemma nd_run_append:
  "nd_run (s @ t) = nd_run s @ (if nd_rest s = [] then nd_run t else [])"
  "nd_rest (s @ t) = (if nd_rest s = [] then nd_rest t else nd_rest s @ t)"
  by (induction s) auto

lemma deb_key_tilde: "padcmp (deb_key (s @ CHR ''~'' # t)) (deb_key s) = -1"
proof (induction s rule: deb_key.induct)
  case (1 s)
  have tilde: "\<not> isDigit (CHR ''~'')" "debianOrder (CHR ''~'') = -1"
    by (simp_all add: isDigit_byte debianOrder_def)
  show ?case
  proof (cases "nd_rest s = []")
    case True
    with tilde show ?thesis
      by (subst deb_key_unfold2) (simp add: nd_run_append sign_def del: dropWhile_eq_Nil_conv)
  next
    case False
    then have "s \<noteq> []" by auto
    with "1" False tilde show ?thesis
      by (subst deb_key_unfold2)
        (simp add: nd_run_append takeWhile_append_stop dropWhile_append_stop del: dropWhile_eq_Nil_conv)
  qed
qed

text \<open>Dpkg's comparison is a total preorder on the version strings the program can hold
  (non-empty, without byte 0): it always has an answer in -1, 0, 1, it is antisymmetric and
  transitive.\<close>

theorem compareDebian_total_preorder:
  assumes "deb_version a" "deb_version b" "deb_version c"
  shows "snd (compareDebian a b)
    \<and> fst (compareDebian a b) \<in> {-1, 0, 1}
    \<and> fst (compareDebian b a) = - fst (compareDebian a b)
    \<and> (fst (compareDebian a b) \<le> 0 \<and> fst (compareDebian b c) \<le> 0 \<longrightarrow> fst (compareDebian a c) \<le> 0)"
  using debian.range [of a b] debian.antisym [of a b] debian.le_trans [of a b c] assms
  by (simp add: deb_cmp_def deb_version_def compareDebian_lex)

theorem compareDebian_total_preorder_witness:
  "snd (compareDebian ''1.0~rc1'' ''1.0'') \<and> fst (compareDebian ''1.0'' ''1.0~rc1'') = - fst (compareDebian ''1.0~rc1'' ''1.0'')
    \<and> fst (compareDebian ''1.0~rc1'' ''2:0.9'') \<le> 0"
proof -
  have ok: "deb_version ''1.0~rc1''" "deb_version ''1.0''" "deb_version ''2:0.9''" by (simp_all add: deb_version_def nul_free_def)
  have le: "fst (compareDebian ''1.0~rc1'' ''1.0'') \<le> 0" "fst (compareDebian ''1.0'' ''2:0.9'') \<le> 0"
    by code_simp+
  show ?thesis using compareDebian_total_preorder [OF ok] le by simp
qed

text \<open>C13: dpkg's string comparison implements its specification: with the byte weights of
  deb-version(5), it compares alternating non-digit and digit runs, numbers by value, the end of a
  run weighing 0, for strings of any length.\<close>

theorem verrevcmp_refines_key:
  assumes "nul_free a" "nul_free b"
  shows "verrevcmp a b = padcmp (deb_key a) (deb_key b)"
  by (rule deb.cmp_key [OF assms])

theorem verrevcmp_refines_key_witness:
  "verrevcmp ''1.10a'' ''1.9'' = padcmp (deb_key ''1.10a'') (deb_key ''1.9'')"
  by (rule verrevcmp_refines_key) (simp_all add: nul_free_def)

text \<open>A tilde suffix marks a pre-release: appending it to any version part makes the part
  strictly older.\<close>

theorem verrevcmp_tilde_older:
  assumes "nul_free s" "nul_free t"
  shows "verrevcmp (s @ ''~'' @ t) s = -1"
  using deb_key_tilde [of s t] deb.cmp_key [of "s @ ''~'' @ t" s] assms
  by (simp add: nul_free_def)

theorem verrevcmp_tilde_older_witness: "verrevcmp (''1.0'' @ ''~'' @ ''rc1'') ''1.0'' = -1"
  by (rule verrevcmp_tilde_older) (simp_all add: nul_free_def)

end
