(* ===== verification/Vercmp_RPM.thy ===== *)
theory Vercmp_RPM
  imports Vercmp_Debian
begin

text \<open>
  \<^verbatim>\<open>internal/server/vercmp/rpm.go\<close>: RPM's segment comparison and the epoch-version-release order
  on top of it. Indices into a string are its suffixes, as in \<^verbatim>\<open>deb.go\<close>'s model.
\<close>

section \<open>Segments\<close>

definition rpm_sep :: "char \<Rightarrow> bool" where
  "rpm_sep c \<longleftrightarrow> \<not> isAlnum c \<and> c \<noteq> CHR ''~'' \<and> c \<noteq> CHR ''^''"

definition at_char :: "char \<Rightarrow> string \<Rightarrow> bool" where
  "at_char x s = (case s of [] \<Rightarrow> False | c # _ \<Rightarrow> c = x)"

text \<open>What follows the loop: the side with something left is newer.\<close>

definition rpm_end :: "string \<Rightarrow> string \<Rightarrow> int" where
  "rpm_end a b = (if a = [] \<and> b = [] then 0 else if a \<noteq> [] then 1 else -1)"

lemma rpm_segment_progress:
  assumes "dropWhile rpm_sep a = a1" "a1 \<noteq> []" "\<not> at_char (CHR ''~'') a1" "\<not> at_char (CHR ''^'') a1"
  shows "length (dropWhile (if isDigit (hd a1) then isDigit else isAlpha) a1) < length a"
proof -
  obtain c t where a1: "a1 = c # t" using assms(2) by (cases a1) auto
  have "\<not> rpm_sep c" using assms(1) a1 by (simp add: dropWhile_eq_Cons_conv)
  then have "isDigit c \<or> isAlpha c"
    using assms(3,4) a1 by (auto simp: rpm_sep_def isAlnum_def at_char_def)
  then have "length (dropWhile (if isDigit c then isDigit else isAlpha) a1) \<le> length t"
    using length_dropWhile_le [of isDigit t] length_dropWhile_le [of isAlpha t] a1 by auto
  moreover have "length a1 \<le> length a" using assms(1) length_dropWhile_le [of rpm_sep a] by simp
  ultimately show ?thesis using a1 by simp
qed

lemma rpm_tl_progress: "dropWhile rpm_sep a = a1 \<Longrightarrow> at_char x a1 \<Longrightarrow> length (tl a1) < length a"
  using length_dropWhile_le [of rpm_sep a] by (cases a1) (auto simp: at_char_def)

function rpm_loop :: "string \<Rightarrow> string \<Rightarrow> int" where
  "rpm_loop a b =
     (if a \<noteq> [] \<or> b \<noteq> [] then
        let a1 = dropWhile rpm_sep a;
            b1 = dropWhile rpm_sep b;
            aTilde = at_char (CHR ''~'') a1;
            bTilde = at_char (CHR ''~'') b1;
            aCaret = at_char (CHR ''^'') a1;
            bCaret = at_char (CHR ''^'') b1
        in if aTilde \<or> bTilde then
             (if \<not> aTilde then 1 else if \<not> bTilde then -1 else rpm_loop (tl a1) (tl b1))
           else if aCaret \<or> bCaret then
             (if a1 = [] then -1
              else if b1 = [] then 1
              else if \<not> aCaret then 1
              else if \<not> bCaret then -1
              else rpm_loop (tl a1) (tl b1))
           else if a1 = [] \<or> b1 = [] then rpm_end a1 b1
           else
             let isNum = isDigit (hd a1);
                 run = (if isNum then isDigit else isAlpha);
                 segA = takeWhile run a1;
                 segB = takeWhile run b1;
                 a2 = dropWhile run a1;
                 b2 = dropWhile run b1
             in if segB = [] then (if isNum then 1 else -1)
                else if isNum then
                  let segA' = stripLeadingZeros segA; segB' = stripLeadingZeros segB
                  in if length segA' > length segB' then 1
                     else if length segB' > length segA' then -1
                     else if strcmp segA' segB' \<noteq> 0 then strcmp segA' segB'
                     else rpm_loop a2 b2
                else if strcmp segA segB \<noteq> 0 then strcmp segA segB
                else rpm_loop a2 b2
      else rpm_end a b)"
  by pat_completeness auto
termination
proof (relation "measure (\<lambda>(a, b). length a)", goal_cases)
  case (4 a b)
  then show ?case using rpm_segment_progress [OF refl, of a] by auto
next
  case (5 a b)
  then show ?case using rpm_segment_progress [OF refl, of a] by auto
qed (use rpm_tl_progress [OF refl] in auto)

declare rpm_loop.simps [simp del]

definition rpmvercmp :: "string \<Rightarrow> string \<Rightarrow> int" where
  "rpmvercmp a b = (if a = b then 0 else rpm_loop a b)"

definition splitEVR :: "string \<Rightarrow> string \<times> string \<times> string" where
  "splitEVR s =
     (let i = indexByte s (CHR '':'');
          (epoch, s1) =
            (if i \<ge> 0
             then (if take (nat i) s = [] then ''0'' else take (nat i) s, drop (nat i + 1) s)
             else (''0'', s));
          j = lastIndexByte s1 (CHR ''-'')
      in if j \<ge> 0 then (epoch, take (nat j) s1, drop (nat j + 1) s1)
         else (epoch, s1, []))"

definition compareRPM :: "string \<Rightarrow> string \<Rightarrow> int \<times> bool" where
  "compareRPM a b =
     (if a = [] \<or> b = [] then (0, False)
      else (case splitEVR a of (ea, va, ra) \<Rightarrow>
            case splitEVR b of (eb, vb, rb) \<Rightarrow>
              if rpmvercmp ea eb \<noteq> 0 then (rpmvercmp ea eb, True)
              else if rpmvercmp va vb \<noteq> 0 then (rpmvercmp va vb, True)
              else if rpmvercmp ra rb \<noteq> 0 then (rpmvercmp ra rb, True)
              else (0, True)))"

section \<open>The key of a version string\<close>

text \<open>
  The reference order: separators vanish; a tilde is -1, a caret 1, a letter run 2 followed by its
  bytes and 0, a digit run 3 followed by its number. The end of the string weighs 0, so it comes
  after a tilde and before everything else.
\<close>

function rpm_key :: "string \<Rightarrow> int list" where
  "rpm_key s =
     (let s1 = dropWhile rpm_sep s in
      if s1 = [] then []
      else if at_char (CHR ''~'') s1 then -1 # rpm_key (tl s1)
      else if at_char (CHR ''^'') s1 then 1 # rpm_key (tl s1)
      else if isDigit (hd s1) then
        3 # num_of (takeWhile isDigit s1) # rpm_key (dropWhile isDigit s1)
      else
        2 # map byte (takeWhile isAlpha s1) @ 0 # rpm_key (dropWhile isAlpha s1))"
  by pat_completeness auto
termination
proof (relation "measure length", goal_cases)
  case (4 s)
  then show ?case using rpm_segment_progress [OF refl, of s] by auto
next
  case (5 s)
  then show ?case using rpm_segment_progress [OF refl, of s] by auto
qed (use rpm_tl_progress [OF refl] in auto)

declare rpm_key.simps [simp del]

lemma isAlpha_not_digit: "isAlpha c \<Longrightarrow> \<not> isDigit c"
  by (auto simp: isAlpha_byte isDigit_byte)

lemma rpm_special: "rpm_sep c \<Longrightarrow> c \<noteq> CHR ''~'' \<and> c \<noteq> CHR ''^''"
  by (simp add: rpm_sep_def)

lemma rpm_head_alpha:
  assumes "dropWhile rpm_sep a = a1" "a1 \<noteq> []" "\<not> at_char (CHR ''~'') a1" "\<not> at_char (CHR ''^'') a1"
    "\<not> isDigit (hd a1)"
  shows "isAlpha (hd a1)"
proof -
  obtain c t where a1: "a1 = c # t" using assms(2) by (cases a1) auto
  have "\<not> rpm_sep c" using assms(1) a1 by (simp add: dropWhile_eq_Cons_conv)
  then show ?thesis using assms a1 by (auto simp: rpm_sep_def isAlnum_def at_char_def)
qed

lemma at_char_unique: "at_char x s \<Longrightarrow> x \<noteq> y \<Longrightarrow> \<not> at_char y s"
  by (cases s) (auto simp: at_char_def)

text \<open>The key by the class of the first byte after the separators.\<close>

lemma rpm_key_cases:
  assumes "dropWhile rpm_sep s = s1"
  shows "s1 = [] \<Longrightarrow> rpm_key s = []"
    and "at_char (CHR ''~'') s1 \<Longrightarrow> rpm_key s = -1 # rpm_key (tl s1)"
    and "at_char (CHR ''^'') s1 \<Longrightarrow> rpm_key s = 1 # rpm_key (tl s1)"
    and "s1 \<noteq> [] \<Longrightarrow> \<not> at_char (CHR ''~'') s1 \<Longrightarrow> \<not> at_char (CHR ''^'') s1 \<Longrightarrow> isDigit (hd s1) \<Longrightarrow>
      rpm_key s = 3 # num_of (takeWhile isDigit s1) # rpm_key (dropWhile isDigit s1)"
    and "s1 \<noteq> [] \<Longrightarrow> \<not> at_char (CHR ''~'') s1 \<Longrightarrow> \<not> at_char (CHR ''^'') s1 \<Longrightarrow> \<not> isDigit (hd s1) \<Longrightarrow>
      rpm_key s = 2 # map byte (takeWhile isAlpha s1) @ 0 # rpm_key (dropWhile isAlpha s1)"
  using assms at_char_unique [of "CHR ''^''" s1 "CHR ''~''"]
  by (auto simp: rpm_key.simps [of s] Let_def) (simp_all add: at_char_def)

lemma strcmp_key:
  "list_all (\<lambda>c. byte c > 0) a \<Longrightarrow> list_all (\<lambda>c. byte c > 0) b \<Longrightarrow>
   padcmp (map byte a @ 0 # x) (map byte b @ 0 # y) =
     (if strcmp a b \<noteq> 0 then strcmp a b else padcmp x y)"
  by (induction a b rule: strcmp.induct) (auto simp: less_char_byte sign_def)

lemma alpha_run_positive: "list_all (\<lambda>c. byte c > 0) (takeWhile isAlpha s)"
  by (auto simp: list_all_iff isAlpha_byte dest!: set_takeWhileD)

lemma digit_run_compare:
  assumes "list_all isDigit p" "list_all isDigit q"
  defines "p' \<equiv> stripLeadingZeros p" and "q' \<equiv> stripLeadingZeros q"
  shows "(if length p' > length q' then 1 else if length q' > length p' then -1
     else if strcmp p' q' \<noteq> 0 then strcmp p' q' else r) =
     (if num_of p \<noteq> num_of q then sign (num_of p - num_of q) else r)"
proof -
  consider "length p' < length q'" | "length q' < length p'" | "length p' = length q'" by linarith
  then show ?thesis
  proof cases
    case 1
    then show ?thesis using num_of_shorter [OF assms(1,2)] by (simp add: p'_def q'_def sign_def)
  next
    case 2
    then show ?thesis using num_of_shorter [OF assms(2,1)] by (simp add: p'_def q'_def sign_def)
  next
    case 3
    then show ?thesis
      using strcmp_num_of [of p' q'] stripLeadingZeros_digits assms(1,2)
      by (simp add: p'_def q'_def)
  qed
qed

text \<open>One pass of the loop, over the two strings after their separators.\<close>

lemma rpm_loop_step:
  assumes "dropWhile rpm_sep a = a1" "dropWhile rpm_sep b = b1"
  shows "rpm_loop a b =
    (if at_char (CHR ''~'') a1 \<or> at_char (CHR ''~'') b1 then
       (if \<not> at_char (CHR ''~'') a1 then 1 else if \<not> at_char (CHR ''~'') b1 then -1
        else rpm_loop (tl a1) (tl b1))
     else if at_char (CHR ''^'') a1 \<or> at_char (CHR ''^'') b1 then
       (if a1 = [] then -1 else if b1 = [] then 1
        else if \<not> at_char (CHR ''^'') a1 then 1 else if \<not> at_char (CHR ''^'') b1 then -1
        else rpm_loop (tl a1) (tl b1))
     else if a1 = [] \<or> b1 = [] then rpm_end a1 b1
     else if isDigit (hd a1) then
       (if takeWhile isDigit b1 = [] then 1
        else if num_of (takeWhile isDigit a1) \<noteq> num_of (takeWhile isDigit b1)
             then sign (num_of (takeWhile isDigit a1) - num_of (takeWhile isDigit b1))
        else rpm_loop (dropWhile isDigit a1) (dropWhile isDigit b1))
     else
       (if takeWhile isAlpha b1 = [] then -1
        else if strcmp (takeWhile isAlpha a1) (takeWhile isAlpha b1) \<noteq> 0
             then strcmp (takeWhile isAlpha a1) (takeWhile isAlpha b1)
        else rpm_loop (dropWhile isAlpha a1) (dropWhile isAlpha b1)))"
proof (cases "a = [] \<and> b = []")
  case True
  with assms show ?thesis by (auto simp: rpm_loop.simps at_char_def)
next
  case False
  note cmp = digit_run_compare [OF list_all_takeWhile list_all_takeWhile]
  from False show ?thesis
    by (subst rpm_loop.simps) (simp add: assms Let_def cmp del: takeWhile_eq_Nil_iff)
qed

lemma at_char_not_Nil: "at_char x s \<Longrightarrow> s \<noteq> []"
  by (auto simp: at_char_def)

lemma rpm_run_empty:
  assumes "s \<noteq> []"
  shows "takeWhile isDigit s = [] \<longleftrightarrow> \<not> isDigit (hd s)" "takeWhile isAlpha s = [] \<longleftrightarrow> \<not> isAlpha (hd s)"
  using assms by (cases s; simp)+

text \<open>The classes of a string after its separators; every string has exactly one.\<close>

definition rpm_class :: "string \<Rightarrow> int" where
  "rpm_class s1 = (if at_char (CHR ''~'') s1 then -1 else if s1 = [] then 0
     else if at_char (CHR ''^'') s1 then 1 else if isDigit (hd s1) then 3 else 2)"

lemma rpm_class_values: "rpm_class s1 \<in> {-1, 0, 1, 2, 3}"
  by (simp add: rpm_class_def)

lemma rpm_key_class:
  assumes "dropWhile rpm_sep s = s1"
  shows "hd0 (rpm_key s) = rpm_class s1"
  using rpm_key_cases [OF assms] by (auto simp: rpm_class_def)

text \<open>The branches of one pass, as a table over the classes of the two sides.\<close>

lemma rpm_branch_table:
  fixes X D1 D2 :: int
  defines "cls \<equiv> \<lambda>t n c d. (if t then -1 else if n then 0 else if c then 1 else if d then 3 else (2::int))"
  assumes A: "tA \<and> \<not> cA \<and> \<not> nA \<or> \<not> tA \<and> cA \<and> \<not> nA \<or> \<not> tA \<and> \<not> cA \<and> nA \<or>
      \<not> tA \<and> \<not> cA \<and> \<not> nA \<and> dA \<or> \<not> tA \<and> \<not> cA \<and> \<not> nA \<and> \<not> dA"
    and B: "tB \<and> \<not> cB \<and> \<not> nB \<or> \<not> tB \<and> cB \<and> \<not> nB \<or> \<not> tB \<and> \<not> cB \<and> nB \<or>
      \<not> tB \<and> \<not> cB \<and> \<not> nB \<and> dB \<and> \<not> eD \<and> eA \<or> \<not> tB \<and> \<not> cB \<and> \<not> nB \<and> \<not> dB \<and> eD \<and> \<not> eA"
    and diff: "cls tA nA cA dA \<noteq> cls tB nB cB dB"
  shows "(if tA \<or> tB then (if \<not> tA then 1 else if \<not> tB then -1 else X)
     else if cA \<or> cB then (if nA then -1 else if nB then 1 else if \<not> cA then 1 else if \<not> cB then -1 else X)
     else if nA \<or> nB then (if nA \<and> nB then 0 else if \<not> nA then 1 else -1)
     else if dA then (if eD then 1 else D1) else (if eA then -1 else D2)) =
    sign (cls tA nA cA dA - cls tB nB cB dB)"
  using A B diff unfolding cls_def
  by (elim disjE conjE; simp add: sign_def)


lemma rpm_loop_diff_class:
  assumes a: "dropWhile rpm_sep a = a1" and b: "dropWhile rpm_sep b = b1"
    and diff: "rpm_class a1 \<noteq> rpm_class b1"
  shows "rpm_loop a b = sign (rpm_class a1 - rpm_class b1)"
  unfolding rpm_loop_step [OF a b] rpm_class_def rpm_end_def
proof (rule rpm_branch_table, goal_cases)
  case 1
  show ?case using at_char_unique [of "CHR ''~''" a1 "CHR ''^''"] at_char_not_Nil [of _ a1] by blast
next
  case 2
  show ?case
    using at_char_unique [of "CHR ''~''" b1 "CHR ''^''"] at_char_not_Nil [of _ b1]
      rpm_run_empty [of b1] rpm_head_alpha [OF b] isAlpha_not_digit [of "hd b1"] by blast
next
  case 3
  show ?case using diff unfolding rpm_class_def .
qed

text \<open>Where the classes agree, the first segments decide, and otherwise the rests do.\<close>

lemma rpm_key_less_cases:
  assumes a: "dropWhile rpm_sep a = a1" and "a1 \<noteq> []"
  obtains (tilde) "rpm_class a1 = -1" "at_char (CHR ''~'') a1" "length (tl a1) < length a"
    | (caret) "rpm_class a1 = 1" "\<not> at_char (CHR ''~'') a1" "at_char (CHR ''^'') a1" "length (tl a1) < length a"
    | (digit) "rpm_class a1 = 3" "\<not> at_char (CHR ''~'') a1" "\<not> at_char (CHR ''^'') a1" "isDigit (hd a1)"
        "length (dropWhile isDigit a1) < length a"
    | (alpha) "rpm_class a1 = 2" "\<not> at_char (CHR ''~'') a1" "\<not> at_char (CHR ''^'') a1" "\<not> isDigit (hd a1)"
        "isAlpha (hd a1)" "length (dropWhile isAlpha a1) < length a"
proof -
  note len = rpm_segment_progress [OF a assms(2)] and tl = rpm_tl_progress [OF a]
  show thesis
  proof (cases "at_char (CHR ''~'') a1 \<or> at_char (CHR ''^'') a1")
    case True
    then show thesis using tilde caret tl assms(2) by (simp add: rpm_class_def) blast
  next
    case False
    then show thesis
      using digit alpha len assms(2) rpm_head_alpha [OF a assms(2)]
      by (cases "isDigit (hd a1)") (simp_all add: rpm_class_def)
  qed
qed

lemma rpm_loop_key: "rpm_loop a b = padcmp (rpm_key a) (rpm_key b)"
proof (induction a arbitrary: b rule: length_induct)
  case (1 a)
  define a1 where "a1 = dropWhile rpm_sep a"
  define b1 where "b1 = dropWhile rpm_sep b"
  note a = a1_def [symmetric] and b = b1_def [symmetric]
  note step = rpm_loop_step [OF a b] and ka = rpm_key_cases [OF a] and kb = rpm_key_cases [OF b]
  show ?case
  proof (cases "rpm_class a1 = rpm_class b1")
    case False
    then show ?thesis
      using rpm_loop_diff_class [OF a b] padcmp_step [of "rpm_key a" "rpm_key b"]
      by (simp add: rpm_key_class [OF a] rpm_key_class [OF b])
  next
    case same: True
    show ?thesis
    proof (cases "a1 = []")
      case True
      then have "b1 = []" using same by (auto simp: rpm_class_def at_char_def split: if_splits)
      with True show ?thesis using step ka(1) kb(1) by (simp add: at_char_def rpm_end_def)
    next
      case False
      have nb: "b1 \<noteq> []" using same False by (auto simp: rpm_class_def at_char_def split: if_splits)
      from a False show ?thesis
      proof (cases rule: rpm_key_less_cases)
        case tilde
        from b nb show ?thesis
          using same tilde 1 ka(2) kb(2) step by (cases rule: rpm_key_less_cases) simp_all
      next
        case caret
        from b nb show ?thesis
          using same caret 1 False nb ka(3) kb(3) step by (cases rule: rpm_key_less_cases) simp_all
      next
        case digit
        from b nb show ?thesis
          using same digit 1 False nb ka(4) kb(4) step
          by (cases rule: rpm_key_less_cases) (simp_all add: rpm_run_empty)
      next
        case alpha
        from b nb show ?thesis
          using same alpha 1 False nb ka(5) kb(5) step strcmp_key [OF alpha_run_positive alpha_run_positive]
          by (cases rule: rpm_key_less_cases) (simp_all add: rpm_run_empty)
      qed
    qed
  qed
qed

interpretation rpm: key_cmp rpmvercmp "\<lambda>_. True" rpm_key
  by unfold_locales (simp add: rpmvercmp_def rpm_loop_key)

section \<open>Whole versions\<close>

definition rpm_cmp :: "string \<Rightarrow> string \<Rightarrow> int" where
  "rpm_cmp a b = fst (compareRPM a b)"

lemma compareRPM_lex:
  assumes "a \<noteq> []" "b \<noteq> []"
  shows "compareRPM a b =
    (lexcmp rpmvercmp (lexcmp rpmvercmp rpmvercmp) (splitEVR a) (splitEVR b), True)"
  using assms by (cases "splitEVR a"; cases "splitEVR b") (simp add: compareRPM_def)

lemma rpm_preorder: "preorder_cmp rpm_cmp (\<lambda>s. s \<noteq> [])"
proof (rule preorder_on)
  let ?c = "lexcmp rpmvercmp (lexcmp rpmvercmp rpmvercmp)"
  note pre = rpm.preorder_cmp_axioms
  show "preorder_cmp (\<lambda>a b. ?c (splitEVR a) (splitEVR b))
      (\<lambda>a. case splitEVR a of (e, u) \<Rightarrow> True \<and> (case u of (v, r) \<Rightarrow> True \<and> True))"
    by (rule preorder_image [OF preorder_lex [OF pre preorder_lex [OF pre pre]]])
  show "rpm_cmp a b = ?c (splitEVR a) (splitEVR b)" if "a \<noteq> []" "b \<noteq> []" for a b
    using that by (simp add: rpm_cmp_def compareRPM_lex)
qed (simp split: prod.splits)

interpretation rpm_version: preorder_cmp rpm_cmp "\<lambda>s. s \<noteq> []"
  by (rule rpm_preorder)

text \<open>A mark or separator cuts the key in two.\<close>

lemma rpm_key_dropWhile: "dropWhile rpm_sep s = dropWhile rpm_sep t \<Longrightarrow> rpm_key s = rpm_key t"
  by (simp add: rpm_key.simps [of s] rpm_key.simps [of t])

lemma rpm_key_append:
  assumes "\<not> isAlnum x"
  shows "rpm_key (s @ x # t) = rpm_key s @ rpm_key (x # t)"
proof (induction s rule: length_induct)
  case (1 s)
  define s1 where "s1 = dropWhile rpm_sep s"
  note s = s1_def [symmetric]
  have stop: "\<not> isDigit x" "\<not> isAlpha x" using assms by (simp_all add: isAlnum_def)
  show ?case
  proof (cases "s1 = []")
    case True
    then have "dropWhile rpm_sep (s @ x # t) = dropWhile rpm_sep (x # t)"
      by (simp add: s1_def dropWhile_append2 del: dropWhile.simps(2))
    from rpm_key_dropWhile [OF this] show ?thesis using rpm_key_cases(1) [OF s True] by simp
  next
    case False
    then have d: "dropWhile rpm_sep (s @ x # t) = s1 @ x # t"
      unfolding s1_def by (metis dropWhile_append1 dropWhile_eq_Nil_conv)
    have hd: "at_char y (s1 @ x # t) = at_char y s1" "hd (s1 @ x # t) = hd s1"
      "s1 @ x # t \<noteq> []" "tl (s1 @ x # t) = tl s1 @ x # t" for y
      using False by (cases s1; simp add: at_char_def)+
    note K = rpm_key_cases [OF d] and k = rpm_key_cases [OF s]
    from s False show ?thesis
    proof (cases rule: rpm_key_less_cases)
      case tilde
      then show ?thesis using K(2) k(2) hd 1 by simp
    next
      case caret
      then show ?thesis using K(3) k(3) hd 1 by simp
    next
      case digit
      then show ?thesis
        using K(4) k(4) hd 1 False stop by (simp add: takeWhile_append_stop dropWhile_append_stop)
    next
      case alpha
      then show ?thesis
        using K(5) k(5) hd 1 False stop by (simp add: takeWhile_append_stop dropWhile_append_stop)
    qed
  qed
qed

lemma rpm_key_mark:
  "rpm_key (CHR ''~'' # t) = -1 # rpm_key t" "rpm_key (CHR ''^'' # t) = 1 # rpm_key t"
  using rpm_key_cases(2) [of "CHR ''~'' # t"] rpm_key_cases(3) [of "CHR ''^'' # t"]
  by (simp_all add: rpm_sep_def at_char_def)

lemma rpm_key_sep_segment:
  assumes "rpm_sep x" "isAlnum c"
  shows "2 \<le> hd0 (rpm_key (x # c # u))"
proof -
  have c: "\<not> rpm_sep c" "c \<noteq> CHR ''~''" "c \<noteq> CHR ''^''"
    using assms(2) by (auto simp: rpm_sep_def isAlnum_def isDigit_byte isAlpha_byte)
  then have "dropWhile rpm_sep (x # c # u) = c # u" using assms(1) by simp
  from rpm_key_class [OF this] c show ?thesis by (simp add: rpm_class_def at_char_def)
qed

lemma rpmvercmp_append:
  assumes "\<not> isAlnum x" "\<not> isAlnum y"
  shows "rpmvercmp (s @ x # t) (s @ y # u) = padcmp (rpm_key (x # t)) (rpm_key (y # u))"
    and "rpmvercmp (s @ x # t) s = padcmp (rpm_key (x # t)) []"
    and "rpmvercmp s (s @ x # t) = padcmp [] (rpm_key (x # t))"
  using padcmp_same_prefix [of "rpm_key s" "rpm_key (x # t)" "[]"]
    padcmp_same_prefix [of "rpm_key s" "[]" "rpm_key (x # t)"]
  by (simp_all add: rpm.cmp_key rpm_key_append assms)

text \<open>Rpm's comparison is a total preorder on all non-empty version strings: it always has an
  answer in -1, 0, 1, it is antisymmetric and transitive.\<close>

theorem compareRPM_total_preorder:
  assumes "a \<noteq> []" "b \<noteq> []" "c \<noteq> []"
  shows "snd (compareRPM a b)
    \<and> fst (compareRPM a b) \<in> {-1, 0, 1}
    \<and> fst (compareRPM b a) = - fst (compareRPM a b)
    \<and> (fst (compareRPM a b) \<le> 0 \<and> fst (compareRPM b c) \<le> 0 \<longrightarrow> fst (compareRPM a c) \<le> 0)"
  using rpm_version.range [of a b] rpm_version.antisym [of a b] rpm_version.le_trans [of a b c] assms
  by (simp add: rpm_cmp_def compareRPM_lex)

theorem compareRPM_total_preorder_witness:
  "snd (compareRPM ''2.0~rc1-1'' ''2.0-1'') \<and> fst (compareRPM ''2.0-1'' ''2.0~rc1-1'') = - fst (compareRPM ''2.0~rc1-1'' ''2.0-1'')
    \<and> fst (compareRPM ''2.0~rc1-1'' ''1:0.5-1'') \<le> 0"
proof -
  have ok: "''2.0~rc1-1'' \<noteq> []" "''2.0-1'' \<noteq> []" "''1:0.5-1'' \<noteq> []" by simp_all
  have le: "fst (compareRPM ''2.0~rc1-1'' ''2.0-1'') \<le> 0" "fst (compareRPM ''2.0-1'' ''1:0.5-1'') \<le> 0"
    by code_simp+
  show ?thesis using compareRPM_total_preorder [OF ok] le by simp
qed

text \<open>C14: rpm's segment comparison implements its specification: separators are ignored, a tilde
  sorts before the end of the string, the end before a caret, a caret before a letter run and a
  letter run before a digit run; letter runs compare by bytes and digit runs by value, however long.\<close>

theorem rpmvercmp_refines_key: "rpmvercmp a b = padcmp (rpm_key a) (rpm_key b)"
  by (simp add: rpm.cmp_key)

text \<open>Pre-releases and snapshots: after the same version string, a tilde suffix is older than
  nothing, nothing is older than a caret suffix, and a caret suffix is older than any further
  segment after a separator.\<close>

theorem rpmvercmp_marks:
  assumes "rpm_sep x" "isAlnum c"
  shows "rpmvercmp (s @ ''~'' @ t) s = -1
    \<and> rpmvercmp s (s @ ''^'' @ t) = -1
    \<and> rpmvercmp (s @ ''^'' @ t) (s @ x # c # u) = -1"
proof -
  have x: "\<not> isAlnum x" using assms(1) by (simp add: rpm_sep_def)
  have "padcmp (1 # rpm_key t) (rpm_key (x # c # u)) = -1"
    using rpm_key_sep_segment [OF assms, of u] by (subst padcmp_step) (simp add: sign_def)
  then show ?thesis
    using rpmvercmp_append [of _ x s] x
    by (simp add: rpmvercmp_append rpm_key_mark isAlnum_def isDigit_byte isAlpha_byte sign_def)
qed

theorem rpmvercmp_marks_witness:
  "rpmvercmp (''1.2'' @ ''~'' @ ''rc1'') ''1.2'' = -1
    \<and> rpmvercmp ''1.2'' (''1.2'' @ ''^'' @ ''rc1'') = -1
    \<and> rpmvercmp (''1.2'' @ ''^'' @ ''rc1'') (''1.2'' @ CHR ''.'' # CHR ''1'' # []) = -1"
  by (rule rpmvercmp_marks) (simp_all add: rpm_sep_def isAlnum_def isDigit_byte isAlpha_byte)

end
