(* ===== verification/Vercmp_Apk.thy ===== *)
theory Vercmp_Apk
  imports Vercmp_Debian
begin

text \<open>
  \<^verbatim>\<open>internal/server/vercmp/apk.go\<close>: Alpine's tokenizer and the comparison of two token streams.
  The scanner's cursor \<^verbatim>\<open>s[pos:]\<close> is the field \<open>rest\<close>; the scanner never reads behind it. Numeric
  values are Go's 64-bit \<^verbatim>\<open>int\<close>, with its wrap-around written out.
\<close>

section \<open>Tokens\<close>

definition apkTokEnd :: int where "apkTokEnd = 0"
definition apkTokDigitOrZero :: int where "apkTokDigitOrZero = 1"
definition apkTokDigit :: int where "apkTokDigit = 2"
definition apkTokLetter :: int where "apkTokLetter = 3"
definition apkTokSuffix :: int where "apkTokSuffix = 4"
definition apkTokSuffixNo :: int where "apkTokSuffixNo = 5"
definition apkTokRevision :: int where "apkTokRevision = 6"
definition apkTokInvalid :: int where "apkTokInvalid = 7"

lemmas apkTok_defs = apkTokEnd_def apkTokDigitOrZero_def apkTokDigit_def apkTokLetter_def
  apkTokSuffix_def apkTokSuffixNo_def apkTokRevision_def apkTokInvalid_def

definition apkSuffixes :: "string list" where
  "apkSuffixes = [''alpha'', ''beta'', ''pre'', ''rc'', ''cvs'', ''svn'', ''git'', ''hg'', ''p'']"

definition apkPreReleaseCount :: int where "apkPreReleaseCount = 4"

record apkToken =
  ttype :: int
  tvalue :: int
  tdigits :: string

record apkScanner =
  rest :: string
  tok :: int

definition newAPKScanner :: "string \<Rightarrow> apkScanner" where
  "newAPKScanner s = \<lparr>rest = s, tok = apkTokDigit\<rparr>"

definition atoiSimple :: "string \<Rightarrow> int" where
  "atoiSimple s = foldl (\<lambda>n c. wrap64 (wrap64 (n * 10) + (byte c - byte CHR ''0'') mod 256)) 0 s"

section \<open>The scanner\<close>

definition invalidToken :: apkToken where
  "invalidToken = \<lparr>ttype = apkTokInvalid, tvalue = 0, tdigits = []\<rparr>"

text \<open>The separator after a token decides what may follow; each returns the scanner moved over it.\<close>

definition afterNumber :: "string \<Rightarrow> apkScanner" where
  "afterNumber r = (case r of
      [] \<Rightarrow> \<lparr>rest = r, tok = apkTokEnd\<rparr>
    | c # r' \<Rightarrow>
        if c = CHR ''.'' then \<lparr>rest = r', tok = apkTokDigit\<rparr>
        else if isLowerAlpha c then \<lparr>rest = r, tok = apkTokLetter\<rparr>
        else if c = CHR ''_'' then \<lparr>rest = r', tok = apkTokSuffix\<rparr>
        else if c = CHR ''-'' then \<lparr>rest = r', tok = apkTokRevision\<rparr>
        else \<lparr>rest = r, tok = apkTokInvalid\<rparr>)"

definition afterLetter :: "string \<Rightarrow> apkScanner" where
  "afterLetter r = (case r of
      [] \<Rightarrow> \<lparr>rest = r, tok = apkTokEnd\<rparr>
    | c # r' \<Rightarrow>
        if c = CHR ''_'' then \<lparr>rest = r', tok = apkTokSuffix\<rparr>
        else if c = CHR ''-'' then \<lparr>rest = r', tok = apkTokRevision\<rparr>
        else if c = CHR ''.'' then \<lparr>rest = r', tok = apkTokDigit\<rparr>
        else \<lparr>rest = r, tok = apkTokInvalid\<rparr>)"

definition afterSuffixNo :: "string \<Rightarrow> apkScanner" where
  "afterSuffixNo r = (case r of
      [] \<Rightarrow> \<lparr>rest = r, tok = apkTokEnd\<rparr>
    | c # r' \<Rightarrow>
        if c = CHR ''_'' then \<lparr>rest = r', tok = apkTokSuffix\<rparr>
        else if c = CHR ''-'' then \<lparr>rest = r', tok = apkTokRevision\<rparr>
        else if isLowerAlpha c then \<lparr>rest = r, tok = apkTokLetter\<rparr>
        else \<lparr>rest = r, tok = apkTokInvalid\<rparr>)"

text \<open>The loop over \<^verbatim>\<open>apkSuffixes\<close>: index, best index and best length so far.\<close>

fun scanSuffixLoop :: "string list \<Rightarrow> int \<Rightarrow> int \<Rightarrow> nat \<Rightarrow> string \<Rightarrow> int \<times> nat" where
  "scanSuffixLoop [] idx bestIdx bestLen r = (bestIdx, bestLen)"
| "scanSuffixLoop (name # names) idx bestIdx bestLen r =
     (if bestLen < length name \<and> HasPrefix r name
      then scanSuffixLoop names (idx + 1) idx (length name) r
      else scanSuffixLoop names (idx + 1) bestIdx bestLen r)"

definition scanSuffixName :: "string \<Rightarrow> (int \<times> string) option" where
  "scanSuffixName r =
     (case scanSuffixLoop apkSuffixes 0 (-1) 0 r of (bestIdx, bestLen) \<Rightarrow>
        if bestIdx < 0 then None else Some (bestIdx, drop bestLen r))"

definition scan_next :: "apkScanner \<Rightarrow> (apkToken \<times> bool) \<times> apkScanner" where
  "scan_next sc =
     (if rest sc = [] then ((\<lparr>ttype = apkTokEnd, tvalue = 0, tdigits = []\<rparr>, True), sc)
      else if tok sc = apkTokDigitOrZero \<or> tok sc = apkTokDigit then
        let ds = takeWhile isDigit (rest sc); r = dropWhile isDigit (rest sc)
        in if ds = [] then ((invalidToken, False), sc)
           else ((\<lparr>ttype = (if hd ds = CHR ''0'' then apkTokDigitOrZero else apkTokDigit),
                   tvalue = atoiSimple ds, tdigits = ds\<rparr>, True), afterNumber r)
      else if tok sc = apkTokLetter then
        let c = hd (rest sc)
        in if \<not> isLowerAlpha c then ((invalidToken, False), sc)
           else ((\<lparr>ttype = apkTokLetter, tvalue = byte c, tdigits = []\<rparr>, True), afterLetter (tl (rest sc)))
      else if tok sc = apkTokSuffix then
        (case scanSuffixName (rest sc) of
           None \<Rightarrow> ((invalidToken, False), sc)
         | Some (idx, r) \<Rightarrow>
             ((\<lparr>ttype = apkTokSuffix, tvalue = idx, tdigits = []\<rparr>, True), \<lparr>rest = r, tok = apkTokSuffixNo\<rparr>))
      else if tok sc = apkTokSuffixNo then
        let ds = takeWhile isDigit (rest sc); r = dropWhile isDigit (rest sc);
            v = (if ds \<noteq> [] then atoiSimple ds else 0)
        in ((\<lparr>ttype = apkTokSuffixNo, tvalue = v, tdigits = []\<rparr>, True), afterSuffixNo r)
      else if tok sc = apkTokRevision then
        (if hd (rest sc) \<noteq> CHR ''r'' then ((invalidToken, False), sc)
         else
           let ds = takeWhile isDigit (tl (rest sc)); r = dropWhile isDigit (tl (rest sc))
           in if ds = [] then ((invalidToken, False), \<lparr>rest = r, tok = tok sc\<rparr>)
              else ((\<lparr>ttype = apkTokRevision, tvalue = atoiSimple ds, tdigits = []\<rparr>, True),
                    \<lparr>rest = r, tok = apkTokEnd\<rparr>))
      else ((invalidToken, False), sc))"

text \<open>Every token that is not the end consumes a byte, or leaves the state in which none is needed.\<close>

definition scan_size :: "apkScanner \<Rightarrow> nat" where
  "scan_size sc = 2 * length (rest sc) + (if tok sc = apkTokSuffixNo then 1 else 0)"

lemma after_size:
  "scan_size (afterNumber r) \<le> 2 * length r" "scan_size (afterLetter r) \<le> 2 * length r"
  "scan_size (afterSuffixNo r) \<le> 2 * length r"
  by (simp_all add: scan_size_def afterNumber_def afterLetter_def afterSuffixNo_def apkTok_defs
      split: list.splits)

lemma scanSuffixLoop_len:
  "scanSuffixLoop names idx bi bl r = (i, n) \<Longrightarrow> (bi < 0 \<or> 0 < bl) \<Longrightarrow> 0 \<le> idx \<Longrightarrow> 0 \<le> i \<Longrightarrow> 0 < n"
  by (induction names idx bi bl r rule: scanSuffixLoop.induct) (auto simp del: length_greater_0_conv split: if_splits)

lemma scanSuffixName_shorter:
  assumes "scanSuffixName r = Some (i, r')" "r \<noteq> []"
  shows "length r' < length r"
  using assms scanSuffixLoop_len [of apkSuffixes 0 "-1" 0 r]
  by (auto simp: scanSuffixName_def split: prod.splits if_splits)

lemma digit_run_size:
  assumes "ds = takeWhile isDigit r" "ds \<noteq> []"
  shows "length (dropWhile isDigit r) < length r"
  using assms by (cases r) (auto simp: le_imp_less_Suc length_dropWhile_le split: if_splits)

text \<open>The six ways a token is produced.\<close>

lemma scan_next_cases:
  assumes "scan_next sc = ((t, True), sc')"
  obtains (fin) "rest sc = []" "t = \<lparr>ttype = apkTokEnd, tvalue = 0, tdigits = []\<rparr>" "sc' = sc"
    | (digit) "rest sc \<noteq> []" "tok sc = apkTokDigitOrZero \<or> tok sc = apkTokDigit" "takeWhile isDigit (rest sc) \<noteq> []"
        "t = \<lparr>ttype = (if hd (takeWhile isDigit (rest sc)) = CHR ''0'' then apkTokDigitOrZero else apkTokDigit),
           tvalue = atoiSimple (takeWhile isDigit (rest sc)), tdigits = takeWhile isDigit (rest sc)\<rparr>"
        "sc' = afterNumber (dropWhile isDigit (rest sc))"
    | (letter) c r where "tok sc = apkTokLetter" "rest sc = c # r" "isLowerAlpha c"
        "t = \<lparr>ttype = apkTokLetter, tvalue = byte c, tdigits = []\<rparr>" "sc' = afterLetter r"
    | (suffix) i r where "rest sc \<noteq> []" "tok sc = apkTokSuffix" "scanSuffixName (rest sc) = Some (i, r)"
        "t = \<lparr>ttype = apkTokSuffix, tvalue = i, tdigits = []\<rparr>" "sc' = \<lparr>rest = r, tok = apkTokSuffixNo\<rparr>"
    | (number) "rest sc \<noteq> []" "tok sc = apkTokSuffixNo"
        "t = \<lparr>ttype = apkTokSuffixNo,
           tvalue = (if takeWhile isDigit (rest sc) \<noteq> [] then atoiSimple (takeWhile isDigit (rest sc)) else 0),
           tdigits = []\<rparr>"
        "sc' = afterSuffixNo (dropWhile isDigit (rest sc))"
    | (revision) r where "tok sc = apkTokRevision" "rest sc = CHR ''r'' # r" "takeWhile isDigit r \<noteq> []"
        "t = \<lparr>ttype = apkTokRevision, tvalue = atoiSimple (takeWhile isDigit r), tdigits = []\<rparr>"
        "sc' = \<lparr>rest = dropWhile isDigit r, tok = apkTokEnd\<rparr>"
proof (cases "rest sc")
  case Nil
  with assms show thesis by (intro fin) (simp_all add: scan_next_def)
next
  case (Cons c r)
  then have ne: "rest sc \<noteq> []" by simp
  consider (d) "tok sc = apkTokDigitOrZero \<or> tok sc = apkTokDigit" | (l) "tok sc = apkTokLetter"
    | (s) "tok sc = apkTokSuffix" | (n) "tok sc = apkTokSuffixNo" | (r) "tok sc = apkTokRevision"
    | (x) "tok sc \<notin> {apkTokDigitOrZero, apkTokDigit, apkTokLetter, apkTokSuffix, apkTokSuffixNo, apkTokRevision}"
    by blast
  then show thesis
  proof cases
    case d
    then show thesis
      using assms ne by (intro digit) (simp_all add: scan_next_def Let_def del: takeWhile_eq_Nil_iff split: if_splits)
  next
    case l
    then show thesis
      using assms Cons by (intro letter [of c r]) (simp_all add: scan_next_def Let_def apkTok_defs split: if_splits)
  next
    case s
    then show thesis
      using assms ne suffix by (auto simp: scan_next_def apkTok_defs split: option.splits)
  next
    case n
    then show thesis
      using assms ne by (intro number) (simp_all add: scan_next_def Let_def apkTok_defs del: takeWhile_eq_Nil_iff)
  next
    case r
    then show thesis
      using assms Cons by (intro revision [of r])
        (simp_all add: scan_next_def Let_def apkTok_defs del: takeWhile_eq_Nil_iff split: if_splits)
  next
    case x
    then show thesis using assms ne by (simp add: scan_next_def)
  qed
qed

lemma scan_next_size:
  assumes "scan_next sc = ((t, True), sc')" "ttype t \<noteq> apkTokEnd"
  shows "scan_size sc' < scan_size sc"
  using assms(1)
proof (cases rule: scan_next_cases)
  case fin
  then show ?thesis using assms(2) by simp
next
  case digit
  then show ?thesis
    using after_size(1) [of "dropWhile isDigit (rest sc)"] digit_run_size [OF refl digit(3)]
    by (simp add: scan_size_def)
next
  case (letter c r)
  then show ?thesis using after_size(2) [of r] by (simp add: scan_size_def)
next
  case (suffix i r)
  then show ?thesis using scanSuffixName_shorter [OF suffix(3,1)] by (simp add: scan_size_def)
next
  case number
  then show ?thesis
    using after_size(3) [of "dropWhile isDigit (rest sc)"] length_dropWhile_le [of isDigit "rest sc"]
    by (simp add: scan_size_def)
next
  case (revision r)
  then show ?thesis
    using length_dropWhile_le [of isDigit r] by (simp add: scan_size_def apkTok_defs)
qed

lemma scan_next_step:
  assumes "(q, sc') = scan_next sc" "(t, ok) = q" "\<not> \<not> ok" "ttype t \<noteq> apkTokEnd"
  shows "scan_size sc' < scan_size sc"
  using assms scan_next_size [of sc t sc'] by (metis (full_types))

section \<open>The comparison\<close>

fun apkCompareFraction :: "string \<Rightarrow> string \<Rightarrow> int" where
  "apkCompareFraction [] [] = 0"
| "apkCompareFraction (a # as) [] =
     (if a \<noteq> CHR ''0'' then sign (byte a - byte CHR ''0'') else apkCompareFraction as [])"
| "apkCompareFraction [] (b # bs) =
     (if CHR ''0'' \<noteq> b then sign (byte CHR ''0'' - byte b) else apkCompareFraction [] bs)"
| "apkCompareFraction (a # as) (b # bs) =
     (if a \<noteq> b then sign (byte a - byte b) else apkCompareFraction as bs)"

definition apkCompareDiffTypes :: "apkToken \<Rightarrow> apkToken \<Rightarrow> int" where
  "apkCompareDiffTypes ta tb =
     (if ttype ta = apkTokSuffix \<and> ttype tb \<noteq> apkTokSuffix then
        (if tvalue ta < apkPreReleaseCount then -1 else 1)
      else if ttype tb = apkTokSuffix \<and> ttype ta \<noteq> apkTokSuffix then
        (if tvalue tb < apkPreReleaseCount then 1 else -1)
      else sign (ttype ta - ttype tb))"

function apkCompareLoop :: "apkScanner \<Rightarrow> apkScanner \<Rightarrow> int" where
  "apkCompareLoop sa sb =
     (case scan_next sa of ((ta, oka), sa') \<Rightarrow>
      case scan_next sb of ((tb, okb), sb') \<Rightarrow>
        if \<not> oka \<or> \<not> okb then 0
        else if ttype ta \<noteq> ttype tb then apkCompareDiffTypes ta tb
        else if ttype ta = apkTokEnd then 0
        else if ttype ta = apkTokDigitOrZero then
          (let c = apkCompareFraction (tdigits ta) (tdigits tb)
           in if c \<noteq> 0 then c else apkCompareLoop sa' sb')
        else if tvalue ta \<noteq> tvalue tb then sign (wrap64 (tvalue ta - tvalue tb))
        else apkCompareLoop sa' sb')"
  by pat_completeness auto
termination
proof (relation "measure (\<lambda>(sa, sb). scan_size sa)", goal_cases)
  case 2
  show ?case using scan_next_step [OF 2(1,2)] 2(5-7) by simp
next
  case 3
  show ?case using scan_next_step [OF 3(1,2)] 3(5-7) by simp
qed simp

declare apkCompareLoop.simps [simp del]

definition apkCompare :: "string \<Rightarrow> string \<Rightarrow> int" where
  "apkCompare a b = apkCompareLoop (newAPKScanner a) (newAPKScanner b)"

function apkValidFrom :: "apkScanner \<Rightarrow> bool" where
  "apkValidFrom sc =
     (case scan_next sc of ((t, ok), sc') \<Rightarrow>
        if \<not> ok then False
        else if ttype t = apkTokEnd then True
        else apkValidFrom sc')"
  by pat_completeness auto
termination
  by (relation "measure scan_size") (simp, simp add: scan_next_step)

declare apkValidFrom.simps [simp del]

definition apkValid :: "string \<Rightarrow> bool" where
  "apkValid s = apkValidFrom (newAPKScanner s)"

definition compareAlpine :: "string \<Rightarrow> string \<Rightarrow> int \<times> bool" where
  "compareAlpine a b =
     (if a = [] \<or> b = [] then (0, False)
      else if \<not> apkValid a \<or> \<not> apkValid b then (0, False)
      else (apkCompare a b, True))"

section \<open>The key of a token stream\<close>

text \<open>
  The reference order, one block per token: the end weighs 0, a pre-release suffix less and every
  other token more; a zero-led digit run is a decimal fraction, all other values are numbers.
\<close>

fun fraction_key :: "string \<Rightarrow> int list" where
  "fraction_key [] = [0]"
| "fraction_key (d # ds) =
     (if list_all (\<lambda>c. c = CHR ''0'') (d # ds) then [0] else (byte d - 47) # fraction_key ds)"

definition token_key :: "apkToken \<Rightarrow> int list" where
  "token_key t =
     (if ttype t = apkTokSuffix then
        [if tvalue t < apkPreReleaseCount then tvalue t - apkPreReleaseCount else 10 + tvalue t]
      else if ttype t = apkTokDigitOrZero then ttype t # fraction_key (tdigits t)
      else [ttype t, tvalue t])"

function stream_key :: "apkScanner \<Rightarrow> int list" where
  "stream_key sc =
     (case scan_next sc of ((t, ok), sc') \<Rightarrow>
        if \<not> ok \<or> ttype t = apkTokEnd then [] else token_key t @ stream_key sc')"
  by pat_completeness auto
termination
  by (relation "measure scan_size") (simp, simp add: scan_next_step)

declare stream_key.simps [simp del]

definition apk_key :: "string \<Rightarrow> int list" where
  "apk_key s = stream_key (newAPKScanner s)"

text \<open>Runs of at most 18 digits: their numbers fit the 64-bit \<^verbatim>\<open>int\<close>.\<close>

fun short_runs :: "string \<Rightarrow> bool" where
  "short_runs [] = True"
| "short_runs (c # s) = (length (takeWhile isDigit (c # s)) \<le> 18 \<and> short_runs s)"

lemma short_runs_dropWhile: "short_runs s \<Longrightarrow> short_runs (dropWhile P s)"
  by (induction s) auto

lemma short_runs_drop: "short_runs s \<Longrightarrow> short_runs (drop n s)"
  by (induction s arbitrary: n) (auto split: nat.splits simp: drop_Cons)

lemma short_runs_take: "short_runs s \<Longrightarrow> length (takeWhile isDigit s) \<le> 18"
  by (cases s) auto

lemma atoiSimple_num_of: "list_all isDigit ds \<Longrightarrow> length ds \<le> 18 \<Longrightarrow> atoiSimple ds = num_of ds"
proof (induction ds rule: rev_induct)
  case Nil
  then show ?case by (simp add: atoiSimple_def)
next
  case (snoc c ds)
  have IH: "atoiSimple ds = num_of ds" and dig: "list_all isDigit ds" "isDigit c" "length ds \<le> 17"
    using snoc by simp_all
  have "0 \<le> num_of ds" and "num_of ds < 10 ^ length ds"
    using num_of_bounds [OF dig(1)] by auto
  moreover have "(10::int) ^ length ds \<le> 10 ^ 17" using dig(3) by (rule power_increasing) simp
  ultimately have n: "0 \<le> num_of ds" "num_of ds < 10 ^ 17" by linarith+
  have d: "0 \<le> digit_val c" "digit_val c \<le> 9" using digit_val_range [OF dig(2)] by auto
  have "byte c - byte CHR ''0'' = digit_val c" by (simp add: digit_val_def)
  moreover have "digit_val c mod 256 = digit_val c" using d by simp
  ultimately have c: "(byte c - byte CHR ''0'') mod 256 = digit_val c" by simp
  have w1: "wrap64 (num_of ds * 10) = num_of ds * 10"
    using n by (intro wrap64_id) (simp_all add: go_int_min_def go_int_max_def)
  have w2: "wrap64 (num_of ds * 10 + digit_val c) = num_of ds * 10 + digit_val c"
    using n d by (intro wrap64_id) (simp_all add: go_int_min_def go_int_max_def)
  have "atoiSimple (ds @ [c]) = wrap64 (wrap64 (atoiSimple ds * 10) + (byte c - byte CHR ''0'') mod 256)"
    by (simp add: atoiSimple_def)
  then show ?case unfolding IH c w1 w2 num_of_snoc .
qed

text \<open>What a scanned token can be.\<close>

definition token_ok :: "apkToken \<Rightarrow> bool" where
  "token_ok t \<longleftrightarrow> ttype t \<in> {0, 1, 2, 3, 4, 5, 6} \<and> (ttype t = apkTokSuffix \<longrightarrow> 0 \<le> tvalue t \<and> tvalue t \<le> 8)
     \<and> 0 \<le> tvalue t \<and> tvalue t < 10 ^ 18 \<and> list_all isDigit (tdigits t)"

lemma atoiSimple_bounds:
  assumes "short_runs s"
  shows "0 \<le> atoiSimple (takeWhile isDigit s) \<and> atoiSimple (takeWhile isDigit s) < 10 ^ 18"
proof -
  let ?d = "takeWhile isDigit s"
  have d: "list_all isDigit ?d" "length ?d \<le> 18"
    using short_runs_take [OF assms] by (simp_all add: list_all_takeWhile)
  have "(10::int) ^ length ?d \<le> 10 ^ 18" using d(2) by (rule power_increasing) simp
  then show ?thesis using num_of_bounds [OF d(1)] atoiSimple_num_of [OF d] by linarith
qed

lemma scanSuffixLoop_range:
  "scanSuffixLoop names idx bi bl r = (i, n) \<Longrightarrow> bi < idx \<Longrightarrow> i < idx + int (length names)"
  by (induction names idx bi bl r rule: scanSuffixLoop.induct) (fastforce split: if_splits)+

lemma scanSuffixName_range: "scanSuffixName r = Some (i, r') \<Longrightarrow> 0 \<le> i \<and> i \<le> 8"
  using scanSuffixLoop_range [of apkSuffixes 0 "-1" 0 r]
  by (auto simp: scanSuffixName_def apkSuffixes_def simp del: scanSuffixLoop.simps split: prod.splits if_splits)

lemma scanSuffixName_short: "scanSuffixName r = Some (i, r') \<Longrightarrow> short_runs r \<Longrightarrow> short_runs r'"
  by (auto simp: scanSuffixName_def short_runs_drop simp del: scanSuffixLoop.simps split: prod.splits if_splits)

lemma after_short:
  assumes "short_runs r"
  shows "short_runs (rest (afterNumber r))" "short_runs (rest (afterLetter r))"
    "short_runs (rest (afterSuffixNo r))"
  using assms by (cases r; simp add: afterNumber_def afterLetter_def afterSuffixNo_def)+

lemma byte_small: "byte c < 1000000000000000000"
  using byte_less_256 [of c] by linarith

lemma scan_next_ok:
  assumes "scan_next sc = ((t, True), sc')" "short_runs (rest sc)"
  shows "token_ok t \<and> short_runs (rest sc')"
proof -
  note dw = short_runs_dropWhile [OF assms(2), of isDigit]
    and b = atoiSimple_bounds [OF assms(2)]
  from assms(1) show ?thesis
  proof (cases rule: scan_next_cases)
    case fin
    then show ?thesis using assms(2) by (simp add: token_ok_def apkTok_defs)
  next
    case digit
    then show ?thesis
      using after_short(1) [OF dw] b list_all_takeWhile [of isDigit "rest sc"]
      by (simp add: token_ok_def apkTok_defs)
  next
    case (letter c r)
    then show ?thesis using after_short(2) [of r] assms(2) byte_small by (simp add: token_ok_def apkTok_defs)
  next
    case (suffix i r)
    then show ?thesis
      using scanSuffixName_range [OF suffix(3)] scanSuffixName_short [OF suffix(3) assms(2)]
      by (simp add: token_ok_def apkTok_defs)
  next
    case number
    then show ?thesis using after_short(3) [OF dw] b by (simp add: token_ok_def apkTok_defs)
  next
    case (revision r)
    have "short_runs r" using assms(2) revision(2) by simp
    then show ?thesis
      using revision short_runs_dropWhile atoiSimple_bounds [of r] by (simp add: token_ok_def apkTok_defs)
  qed
qed

section \<open>The comparison implements the key order\<close>

lemma digit_not_zero: "isDigit c \<Longrightarrow> c \<noteq> CHR ''0'' \<Longrightarrow> 48 < byte c"
  using byte_eq_iff [of c "CHR ''0''"] by (simp add: isDigit_byte)

abbreviation zeros :: "string \<Rightarrow> bool" where "zeros \<equiv> list_all (\<lambda>c. c = CHR ''0'')"

lemma fraction_zeros_right:
  "list_all isDigit a \<Longrightarrow> apkCompareFraction a [] = (if zeros a then 0 else 1)"
  by (induction a) (auto simp: sign_def dest: digit_not_zero)

lemma fraction_antisym: "apkCompareFraction b a = - apkCompareFraction a b"
  by (induction a b rule: apkCompareFraction.induct) (auto simp: sign_def)

lemma fraction_zeros:
  "zeros b \<Longrightarrow> apkCompareFraction a b = apkCompareFraction a []"
  "zeros b \<Longrightarrow> apkCompareFraction b a = apkCompareFraction [] a"
  by (induction a b rule: apkCompareFraction.induct) auto

lemma fraction_key_zeros: "zeros a \<Longrightarrow> fraction_key a = [0]"
  by (cases a) auto

lemma fraction_key_pos:
  assumes "list_all isDigit a" "\<not> zeros a"
  shows "padcmp (fraction_key a @ x) (0 # y) = 1" "padcmp (0 # y) (fraction_key a @ x) = -1"
  using assms by (cases a; auto simp: isDigit_byte sign_def)+

lemma fraction_key_cmp:
  "list_all isDigit a \<Longrightarrow> list_all isDigit b \<Longrightarrow>
   padcmp (fraction_key a @ x) (fraction_key b @ y) =
     (if apkCompareFraction a b \<noteq> 0 then apkCompareFraction a b else padcmp x y)"
proof (induction a arbitrary: b)
  case Nil
  then show ?case
    using fraction_zeros_right [of b] fraction_antisym [of "[]" b] fraction_key_pos(2) [where a = b and x = y and y = x]
    by (cases "zeros b") (simp_all add: fraction_key_zeros)
next
  case (Cons c a)
  note digits = Cons.prems
  consider (zb) "zeros b" | (za) "zeros (c # a)" "\<not> zeros b"
    | (pos) d b' where "b = d # b'" "\<not> zeros (c # a)" "\<not> zeros b"
    by (cases b) auto
  then show ?case
  proof cases
    case zb
    then show ?thesis
      using fraction_zeros(1) [OF zb, of "c # a"] fraction_zeros_right [of "c # a"] digits
        fraction_key_pos(1) [of "c # a" x y]
      by (cases "zeros (c # a)")
        (simp_all add: fraction_key_zeros del: fraction_key.simps apkCompareFraction.simps list.pred_inject(2))
  next
    case za
    then show ?thesis
      using fraction_zeros(2) [OF za(1), of b] fraction_zeros_right [of b] fraction_antisym [of "[]" b] digits
        fraction_key_pos(2) [where a = b and x = y and y = x]
      by (simp add: fraction_key_zeros del: fraction_key.simps apkCompareFraction.simps list.pred_inject(2))
  next
    case pos
    then show ?thesis using Cons.IH [of b'] digits by (auto simp: sign_def)
  qed
qed

text \<open>One pair of tokens: where types differ the blocks decide, where they agree the values do.\<close>

lemma token_key_nonempty: "token_key t \<noteq> []"
  by (simp add: token_key_def)

definition token_class :: "apkToken \<Rightarrow> int" where
  "token_class t = (if ttype t = apkTokSuffix
     then (if tvalue t < apkPreReleaseCount then tvalue t - apkPreReleaseCount else 10 + tvalue t)
     else ttype t)"

definition token_block :: "apkToken \<Rightarrow> int list \<Rightarrow> int list" where
  "token_block t x = (if ttype t = apkTokEnd then [] else token_key t @ x)"

lemma token_block_class: "hd0 (token_block t x) = token_class t"
  by (simp add: token_block_def token_key_def token_class_def apkTok_defs)

lemma token_class_suffix:
  assumes "token_ok t" "ttype t = apkTokSuffix"
  shows "tvalue t < apkPreReleaseCount \<Longrightarrow> token_class t < 0"
    and "\<not> tvalue t < apkPreReleaseCount \<Longrightarrow> 10 < token_class t"
  using assms by (simp_all add: token_class_def token_ok_def apkPreReleaseCount_def)

lemma token_class_other:
  assumes "token_ok t" "ttype t \<noteq> apkTokSuffix"
  shows "token_class t = ttype t" "0 \<le> ttype t" "ttype t \<le> 6"
  using assms by (auto simp: token_class_def token_ok_def)

lemma diff_types_class:
  assumes "token_ok ta" "token_ok tb" "ttype ta \<noteq> ttype tb"
  shows "apkCompareDiffTypes ta tb = sign (token_class ta - token_class tb) \<and> token_class ta \<noteq> token_class tb"
proof -
  note a = token_class_suffix [OF assms(1)] token_class_other [OF assms(1)]
    and b = token_class_suffix [OF assms(2)] token_class_other [OF assms(2)]
  consider (l) "ttype ta = apkTokSuffix" "ttype tb \<noteq> apkTokSuffix"
    | (r) "ttype ta \<noteq> apkTokSuffix" "ttype tb = apkTokSuffix"
    | (n) "ttype ta \<noteq> apkTokSuffix" "ttype tb \<noteq> apkTokSuffix"
    using assms(3) by fastforce
  then show ?thesis
  proof cases
    case l
    then show ?thesis
      using a(1,2) [OF l(1)] b(3-5) [OF l(2)]
      by (cases "tvalue ta < apkPreReleaseCount") (simp_all add: apkCompareDiffTypes_def sign_def)
  next
    case r
    then show ?thesis
      using b(1,2) [OF r(2)] a(3-5) [OF r(1)]
      by (cases "tvalue tb < apkPreReleaseCount") (simp_all add: apkCompareDiffTypes_def sign_def)
  next
    case n
    then show ?thesis using a(3) [OF n(1)] b(3) [OF n(2)] assms(3) by (simp add: apkCompareDiffTypes_def)
  qed
qed

lemma token_values_wrap:
  assumes "token_ok ta" "token_ok tb"
  shows "wrap64 (tvalue ta - tvalue tb) = tvalue ta - tvalue tb"
  using assms by (intro wrap64_id) (simp_all add: token_ok_def go_int_min_def go_int_max_def)

lemma same_type_cmp:
  assumes "token_ok ta" "token_ok tb" "ttype ta = ttype tb" "ttype ta \<noteq> apkTokEnd"
  shows "padcmp (token_block ta x) (token_block tb y) =
    (if ttype ta = apkTokDigitOrZero then
       (if apkCompareFraction (tdigits ta) (tdigits tb) \<noteq> 0
        then apkCompareFraction (tdigits ta) (tdigits tb) else padcmp x y)
     else if tvalue ta \<noteq> tvalue tb then sign (tvalue ta - tvalue tb) else padcmp x y)"
proof (cases "ttype ta = apkTokDigitOrZero")
  case True
  moreover from True have "ttype ta \<noteq> apkTokSuffix" by (simp add: apkTok_defs)
  ultimately show ?thesis
    using assms fraction_key_cmp [of "tdigits ta" "tdigits tb" x y]
    by (simp add: token_block_def token_key_def token_ok_def)
next
  case False
  then show ?thesis
    using assms
    by (auto simp: token_block_def token_key_def token_ok_def sign_def apkPreReleaseCount_def)
qed

lemma stream_key_block:
  assumes "scan_next sc = ((t, True), sc')"
  shows "stream_key sc = token_block t (stream_key sc')"
  using assms by (simp add: stream_key.simps [of sc] token_block_def)

lemma apkValidFrom_next:
  assumes "apkValidFrom sc"
  obtains t sc' where "scan_next sc = ((t, True), sc')" "ttype t = apkTokEnd \<or> apkValidFrom sc'"
proof -
  obtain t ok sc' where "scan_next sc = ((t, ok), sc')" by (metis surj_pair)
  then show thesis using assms that by (simp add: apkValidFrom.simps [of sc] split: if_splits)
qed

lemma apkCompareLoop_key:
  "apkValidFrom sa \<Longrightarrow> apkValidFrom sb \<Longrightarrow> short_runs (rest sa) \<Longrightarrow> short_runs (rest sb) \<Longrightarrow>
   apkCompareLoop sa sb = padcmp (stream_key sa) (stream_key sb)"
proof (induction sa sb rule: apkCompareLoop.induct)
  case (1 sa sb)
  obtain ta sa' where a: "scan_next sa = ((ta, True), sa')" and va: "ttype ta = apkTokEnd \<or> apkValidFrom sa'"
    using apkValidFrom_next [OF "1.prems"(1)] .
  obtain tb sb' where b: "scan_next sb = ((tb, True), sb')" and vb: "ttype tb = apkTokEnd \<or> apkValidFrom sb'"
    using apkValidFrom_next [OF "1.prems"(2)] .
  have oa: "token_ok ta" "short_runs (rest sa')" using scan_next_ok [OF a "1.prems"(3)] by auto
  have ob: "token_ok tb" "short_runs (rest sb')" using scan_next_ok [OF b "1.prems"(4)] by auto
  note step = apkCompareLoop.simps [of sa sb] and blocks = stream_key_block [OF a] stream_key_block [OF b]
  consider "ttype ta \<noteq> ttype tb" | "ttype ta = ttype tb" "ttype ta = apkTokEnd"
    | (go) "ttype ta = ttype tb" "ttype ta \<noteq> apkTokEnd" by blast
  then show ?case
  proof cases
    case 1
    then show ?thesis
      using diff_types_class [OF oa(1) ob(1)] a b step
        padcmp_step [of "token_block ta (stream_key sa')" "token_block tb (stream_key sb')"]
      by (simp add: blocks token_block_class)
  next
    case 2
    then show ?thesis using a b step by (simp add: blocks token_block_def)
  next
    case go
    have IH: "apkCompareLoop sa' sb' = padcmp (stream_key sa') (stream_key sb')"
      if "(ttype ta = apkTokDigitOrZero \<and> apkCompareFraction (tdigits ta) (tdigits tb) = 0)
          \<or> (ttype ta \<noteq> apkTokDigitOrZero \<and> tvalue ta = tvalue tb)"
      using that
    proof (elim disjE conjE)
      assume "ttype ta = apkTokDigitOrZero" "apkCompareFraction (tdigits ta) (tdigits tb) = 0"
      then show ?thesis
        using "1.IH"(1) [OF a [symmetric] refl b [symmetric] refl] go va vb oa(2) ob(2) by simp
    next
      assume "ttype ta \<noteq> apkTokDigitOrZero" "tvalue ta = tvalue tb"
      then show ?thesis
        using "1.IH"(2) [OF a [symmetric] refl b [symmetric] refl] go va vb oa(2) ob(2) by simp
    qed
    have loop: "apkCompareLoop sa sb =
        (if ttype ta = apkTokDigitOrZero then
           (if apkCompareFraction (tdigits ta) (tdigits tb) \<noteq> 0
            then apkCompareFraction (tdigits ta) (tdigits tb) else apkCompareLoop sa' sb')
         else if tvalue ta \<noteq> tvalue tb then sign (tvalue ta - tvalue tb) else apkCompareLoop sa' sb')"
      using go by (simp add: step a b Let_def token_values_wrap [OF oa(1) ob(1)])
    show ?thesis
      unfolding blocks same_type_cmp [OF oa(1) ob(1) go] loop using IH by (simp split: if_split)
  qed
qed

text \<open>Version strings apk accepts, without numbers of more than 18 digits.\<close>

definition apk_version :: "string \<Rightarrow> bool" where
  "apk_version s \<longleftrightarrow> s \<noteq> [] \<and> apkValid s \<and> short_runs s"

interpretation apk: key_cmp apkCompare apk_version apk_key
  by unfold_locales
    (simp add: apkCompare_def apk_key_def apk_version_def apkValid_def apkCompareLoop_key newAPKScanner_def)

section \<open>Pre-releases and post-releases\<close>

text \<open>Appending \<^verbatim>\<open>_r\<close> to a version that ends in a digit leaves the tokens read before unchanged.\<close>

lemma HasPrefix_append: "HasPrefix s p \<Longrightarrow> s = p @ drop (length p) s"
  by (induction s p rule: HasPrefix.induct) auto

lemma HasPrefix_stop: "c \<notin> set p \<Longrightarrow> HasPrefix (s @ c # r) p = HasPrefix s p"
  by (induction s p rule: HasPrefix.induct) (auto split: list.splits)

lemma scanSuffixLoop_stop:
  "\<forall>p \<in> set names. CHR ''_'' \<notin> set p \<Longrightarrow>
   scanSuffixLoop names idx bi bl (s @ CHR ''_'' # r) = scanSuffixLoop names idx bi bl s"
  by (induction names arbitrary: idx bi bl) (auto simp: HasPrefix_stop)

lemma scanSuffixLoop_match:
  "scanSuffixLoop names idx bi bl s = (i, n) \<Longrightarrow> (i, n) = (bi, bl) \<or>
   (\<exists>p \<in> set names. n = length p \<and> HasPrefix s p)"
  by (induction names idx bi bl s rule: scanSuffixLoop.induct) (auto split: if_splits)

lemma apkSuffixes_letters: "p \<in> set apkSuffixes \<Longrightarrow> CHR ''_'' \<notin> set p \<and> p \<noteq> [] \<and> \<not> isDigit (last p)"
  by (auto simp: apkSuffixes_def isDigit_byte)

lemma scanSuffixName_match:
  assumes "scanSuffixName s = Some (i, s')"
  obtains p where "p \<in> set apkSuffixes" "s = p @ s'"
proof -
  obtain n where n: "scanSuffixLoop apkSuffixes 0 (-1) 0 s = (i, n)" "s' = drop n s" "0 \<le> i"
    using assms by (auto simp: scanSuffixName_def split: prod.splits if_splits)
  then obtain p where "p \<in> set apkSuffixes" "n = length p" "HasPrefix s p"
    using scanSuffixLoop_match [OF n(1)] by auto
  then show thesis using that [of p] HasPrefix_append [of s p] n(2) by simp
qed

lemma scanSuffixName_append:
  assumes "scanSuffixName s = Some (i, s')"
  shows "scanSuffixName (s @ CHR ''_'' # r) = Some (i, s' @ CHR ''_'' # r)"
proof -
  obtain n where n: "scanSuffixLoop apkSuffixes 0 (-1) 0 s = (i, n)" "s' = drop n s" "0 \<le> i"
    using assms by (auto simp: scanSuffixName_def split: prod.splits if_splits)
  obtain p where "p \<in> set apkSuffixes" "n = length p" "HasPrefix s p"
    using scanSuffixLoop_match [OF n(1)] n(3) by auto
  then have "n \<le> length s" using HasPrefix_append [of s p] by (metis length_append le_add1)
  then show ?thesis
    using n scanSuffixLoop_stop [of apkSuffixes 0 "-1" 0 s r] apkSuffixes_letters
    by (simp add: scanSuffixName_def)
qed

lemma underscore_invalid:
  assumes "k \<noteq> apkTokSuffixNo"
  shows "\<not> apkValidFrom \<lparr>rest = CHR ''_'' # r, tok = k\<rparr>"
proof -
  have "scanSuffixName (CHR ''_'' # r) \<noteq> Some (i, r')" for i r'
  proof
    assume "scanSuffixName (CHR ''_'' # r) = Some (i, r')"
    then obtain p where p: "p \<in> set apkSuffixes" "CHR ''_'' # r = p @ r'" by (rule scanSuffixName_match)
    have "p \<noteq> []" using apkSuffixes_letters [OF p(1)] by simp
    then have "CHR ''_'' \<in> set p" using p(2) by (metis hd_append2 hd_in_set list.sel(1))
    then show False using apkSuffixes_letters [OF p(1)] by simp
  qed
  then have "scanSuffixName (CHR ''_'' # r) = None" by (cases "scanSuffixName (CHR ''_'' # r)") auto
  moreover have "\<not> isDigit (CHR ''_'')" "\<not> isLowerAlpha (CHR ''_'')"
    by (simp_all add: isDigit_byte isLowerAlpha_byte)
  ultimately show ?thesis
    using assms by (subst apkValidFrom.simps) (simp add: scan_next_def)
qed

definition digit_end :: "string \<Rightarrow> bool" where
  "digit_end s \<longleftrightarrow> s = [] \<or> isDigit (last s)"

lemma digit_end_simps:
  "digit_end []" "digit_end [c] = isDigit c" "y \<noteq> [] \<Longrightarrow> digit_end (c # y) = digit_end y"
  by (auto simp: digit_end_def)

lemma digit_end_append: "digit_end (p @ s) \<Longrightarrow> digit_end s"
  by (cases "s = []") (simp_all add: digit_end_def)

lemma digit_end_dropWhile: "digit_end x \<Longrightarrow> digit_end (dropWhile P x)"
  by (rule digit_end_append [of "takeWhile P x"]) simp

lemma after_append:
  assumes "digit_end r" "f = afterNumber \<or> f = afterLetter \<or> f = afterSuffixNo"
  shows "r = [] \<Longrightarrow> rest (f r) = [] \<and> f (r @ CHR ''_'' # u) = \<lparr>rest = u, tok = apkTokSuffix\<rparr>"
    and "r \<noteq> [] \<Longrightarrow> rest (f r) \<noteq> [] \<and> digit_end (rest (f r))
      \<and> f (r @ CHR ''_'' # u) = \<lparr>rest = rest (f r) @ CHR ''_'' # u, tok = tok (f r)\<rparr>"
proof -
  show "r = [] \<Longrightarrow> rest (f r) = [] \<and> f (r @ CHR ''_'' # u) = \<lparr>rest = u, tok = apkTokSuffix\<rparr>"
    using assms(2) by (auto simp: afterNumber_def afterLetter_def afterSuffixNo_def isLowerAlpha_byte)
  assume "r \<noteq> []"
  then obtain c y where r: "r = c # y" by (cases r) auto
  have "y \<noteq> [] \<or> isDigit c" using assms(1) r by (auto simp: digit_end_def split: if_splits)
  moreover have "\<not> isDigit (CHR ''_'')" "\<not> isDigit (CHR ''.'')" "\<not> isDigit (CHR ''-'')"
    by (simp_all add: isDigit_byte)
  ultimately show "rest (f r) \<noteq> [] \<and> digit_end (rest (f r))
      \<and> f (r @ CHR ''_'' # u) = \<lparr>rest = rest (f r) @ CHR ''_'' # u, tok = tok (f r)\<rparr>"
    using assms r digit_end_append [of "[c]" y]
    unfolding afterNumber_def afterLetter_def afterSuffixNo_def
    by (elim disjE) (simp_all split: if_split, auto)
qed

text \<open>What reading one token of the longer string gives.\<close>

definition same_token :: "apkToken \<Rightarrow> apkScanner \<Rightarrow> string \<Rightarrow> (apkToken \<times> bool) \<times> apkScanner \<Rightarrow> bool" where
  "same_token t sc' u res \<longleftrightarrow> ttype t \<noteq> apkTokEnd \<and> digit_end (rest sc') \<and>
     fst res = (t, True) \<and>
     (if rest sc' = [] then snd res = \<lparr>rest = u, tok = apkTokSuffix\<rparr> \<or> \<not> apkValidFrom (snd res)
      else snd res = \<lparr>rest = rest sc' @ CHR ''_'' # u, tok = tok sc'\<rparr>)"

lemma same_token_after:
  assumes "digit_end r" "f = afterNumber \<or> f = afterLetter \<or> f = afterSuffixNo" "ttype t \<noteq> apkTokEnd"
  shows "same_token t (f r) u ((t, True), f (r @ CHR ''_'' # u))"
  using after_append [OF assms(1,2), of u] assms(3)
  by (cases "r = []") (simp_all add: same_token_def digit_end_simps)

lemma scan_append:
  assumes sc: "scan_next \<lparr>rest = x, tok = k\<rparr> = ((t, True), sc')" and x: "x \<noteq> []" "digit_end x"
  shows "same_token t sc' u (scan_next \<lparr>rest = x @ CHR ''_'' # u, tok = k\<rparr>)"
proof -
  have us: "\<not> isDigit (CHR ''_'')" by (simp add: isDigit_byte)
  note run = takeWhile_append_stop [of isDigit "CHR ''_''", OF us]
    dropWhile_append_stop [of isDigit "CHR ''_''", OF us]
  note after = same_token_after [where t = t and u = u]
  have tail: "digit_end (dropWhile isDigit x)" by (rule digit_end_dropWhile [OF x(2)])
  from sc show ?thesis
  proof (cases rule: scan_next_cases)
    case fin
    then show ?thesis using x by simp
  next
    case digit
    then have "scan_next \<lparr>rest = x @ CHR ''_'' # u, tok = k\<rparr> =
        ((t, True), afterNumber (dropWhile isDigit x @ CHR ''_'' # u))"
      by (simp add: scan_next_def Let_def run del: takeWhile_eq_Nil_iff)
    then show ?thesis using after [OF tail, of afterNumber] digit by (simp add: apkTok_defs)
  next
    case (letter c r)
    then have "scan_next \<lparr>rest = x @ CHR ''_'' # u, tok = k\<rparr> = ((t, True), afterLetter (r @ CHR ''_'' # u))"
      by (simp add: scan_next_def Let_def apkTok_defs)
    moreover have "digit_end r" using digit_end_append [of "[c]" r] letter(2) x(2) by simp
    ultimately show ?thesis using after [of r afterLetter] letter by (simp add: apkTok_defs)
  next
    case (suffix i r)
    then have s: "scanSuffixName x = Some (i, r)" by simp
    obtain p where p: "p \<in> set apkSuffixes" "x = p @ r" using scanSuffixName_match [OF s] .
    then have "r \<noteq> []" using apkSuffixes_letters [OF p(1)] x by (auto simp: digit_end_def)
    moreover have "digit_end r" using digit_end_append x(2) p(2) by simp
    ultimately show ?thesis
      using suffix scanSuffixName_append [OF s, of u]
      by (simp add: same_token_def scan_next_def apkTok_defs)
  next
    case number
    then have "scan_next \<lparr>rest = x @ CHR ''_'' # u, tok = k\<rparr> =
        ((t, True), afterSuffixNo (dropWhile isDigit x @ CHR ''_'' # u))"
      by (simp add: scan_next_def Let_def run apkTok_defs del: takeWhile_eq_Nil_iff)
    then show ?thesis using after [OF tail, of afterSuffixNo] number by (simp add: apkTok_defs)
  next
    case (revision r)
    have "digit_end (dropWhile isDigit r)"
      using digit_end_dropWhile digit_end_append [of "[CHR ''r'']" r] revision(2) x(2) by simp
    then show ?thesis
      using revision underscore_invalid [of apkTokEnd u]
      by (simp add: same_token_def scan_next_def Let_def run apkTok_defs
          del: takeWhile_eq_Nil_iff dropWhile_eq_Nil_conv)
  qed
qed

definition suffix_sign :: "string \<Rightarrow> int" where
  "suffix_sign u = (case scanSuffixName u of None \<Rightarrow> 0 | Some (i, u') \<Rightarrow>
     if i < apkPreReleaseCount then -1 else 1)"

lemma suffix_scan_end:
  assumes "apkValidFrom \<lparr>rest = u, tok = apkTokSuffix\<rparr>" "u \<noteq> []"
  shows "apkCompareLoop \<lparr>rest = u, tok = apkTokSuffix\<rparr> \<lparr>rest = [], tok = k\<rparr> = suffix_sign u"
  using assms
  by (subst apkCompareLoop.simps)
    (auto simp: apkValidFrom.simps [of "\<lparr>rest = u, tok = apkTokSuffix\<rparr>"] scan_next_def suffix_sign_def
      apkTok_defs apkCompareDiffTypes_def split: option.splits)

lemma apkCompareFraction_refl [simp]: "apkCompareFraction a a = 0"
  by (induction a) auto

lemma apkCompareLoop_same:
  assumes "scan_next sa = ((t, True), sa')" "scan_next sb = ((t, True), sb')" "ttype t \<noteq> apkTokEnd"
  shows "apkCompareLoop sa sb = apkCompareLoop sa' sb'"
  using assms by (subst apkCompareLoop.simps) simp

lemma apkCompareLoop_suffix:
  "apkValidFrom \<lparr>rest = x, tok = k\<rparr> \<Longrightarrow> apkValidFrom \<lparr>rest = x @ CHR ''_'' # u, tok = k\<rparr> \<Longrightarrow>
   x \<noteq> [] \<Longrightarrow> digit_end x \<Longrightarrow> u \<noteq> [] \<Longrightarrow>
   apkCompareLoop \<lparr>rest = x @ CHR ''_'' # u, tok = k\<rparr> \<lparr>rest = x, tok = k\<rparr> = suffix_sign u"
proof (induction "\<lparr>rest = x, tok = k\<rparr>" arbitrary: x k rule: measure_induct_rule [where f = scan_size])
  case (less x k)
  let ?long = "\<lparr>rest = x @ CHR ''_'' # u, tok = k\<rparr>"
  obtain t sc' where t: "scan_next \<lparr>rest = x, tok = k\<rparr> = ((t, True), sc')"
    "ttype t = apkTokEnd \<or> apkValidFrom sc'"
    using apkValidFrom_next [OF less.prems(1)] .
  note same = scan_append [OF t(1) less.prems(3,4), of u]
  then have te: "ttype t \<noteq> apkTokEnd" and de: "digit_end (rest sc')"
    and fst: "fst (scan_next ?long) = (t, True)" by (simp_all add: same_token_def)
  define sc2 where "sc2 = snd (scan_next ?long)"
  have long: "scan_next ?long = ((t, True), sc2)" using fst by (simp add: sc2_def prod_eq_iff)
  have valid2: "apkValidFrom sc2"
    using less.prems(2) te long by (simp add: apkValidFrom.simps [of ?long])
  note step = apkCompareLoop_same [OF long t(1) te]
  show ?case
  proof (cases "rest sc' = []")
    case True
    then have "sc2 = \<lparr>rest = u, tok = apkTokSuffix\<rparr>" "sc' = \<lparr>rest = [], tok = tok sc'\<rparr>"
      using same long valid2 by (simp_all add: same_token_def)
    then show ?thesis using step suffix_scan_end [of u "tok sc'"] valid2 less.prems(5) by metis
  next
    case False
    then have "sc2 = \<lparr>rest = rest sc' @ CHR ''_'' # u, tok = tok sc'\<rparr>"
      using same long by (simp add: same_token_def)
    moreover have sc': "\<lparr>rest = rest sc', tok = tok sc'\<rparr> = sc'" by simp
    ultimately show ?thesis
      using less.hyps [of "rest sc'" "tok sc'", unfolded sc'] scan_next_size [OF t(1) te] t(2) te valid2
        False de step less.prems(5) by simp
  qed
qed



text \<open>A suffix decides against the bare version: for a valid version ending in a digit, an
  appended \<^verbatim>\<open>_alpha\<close>, \<^verbatim>\<open>_beta\<close>, \<^verbatim>\<open>_pre\<close> or \<^verbatim>\<open>_rc\<close> (with anything valid after it) makes it older, and
  every other recognised suffix makes it newer.\<close>

theorem compareAlpine_suffix:
  assumes "apkValid s" "apkValid (s @ ''_'' @ u)" "s \<noteq> []" "isDigit (last s)" "scanSuffixName u = Some (i, u')"
  shows "compareAlpine (s @ ''_'' @ u) s = (if i < apkPreReleaseCount then -1 else 1, True)"
proof -
  have "scanSuffixName [] = None" by code_simp
  then have "u \<noteq> []" using assms(5) by auto
  then have "apkCompare (s @ ''_'' @ u) s = suffix_sign u"
    using apkCompareLoop_suffix [of s apkTokDigit u] assms
    by (simp add: apkCompare_def newAPKScanner_def apkValid_def digit_end_def)
  then show ?thesis using assms by (simp add: compareAlpine_def suffix_sign_def)
qed

theorem compareAlpine_suffix_witness:
  "compareAlpine (''1.2'' @ ''_'' @ ''rc1-r3'') ''1.2'' = (if 3 < apkPreReleaseCount then -1 else 1, True)"
  by (rule compareAlpine_suffix [where u' = "''1-r3''"]; code_simp)

text \<open>
  A digit run too long for the 64-bit \<^verbatim>\<open>int\<close> wraps around in \<^verbatim>\<open>atoiSimple\<close>: a component that is
  larger by 2^64 compares as older.
\<close>

lemma compareAlpine_overflow: "compareAlpine ''1.18446744073709551616'' ''1.1'' = (-1, True)"
  by code_simp

end
