(* ===== verification/Vercmp_Generic.thy ===== *)
theory Vercmp_Generic
  imports Vercmp_Debian
begin

text \<open>
  \<^verbatim>\<open>internal/server/vercmp/generic.go\<close>: the semver-leaning comparison used for language packages.
  Release segments stay digit strings, as in the code, so no number is ever converted.
\<close>

section \<open>Parsing\<close>

record genericVersion =
  release :: "string list"
  pre :: "string list"

definition allDigits :: "string \<Rightarrow> bool" where
  "allDigits s \<longleftrightarrow> s \<noteq> [] \<and> list_all isDigit s"

definition leadingDigits :: "string \<Rightarrow> string \<times> string" where
  "leadingDigits s = (takeWhile isDigit s, dropWhile isDigit s)"

text \<open>The loop of \<^verbatim>\<open>splitAlphaNum\<close>: bytes left, \<^verbatim>\<open>s[start:i]\<close>, \<^verbatim>\<open>prevDigit\<close> and the output.\<close>

fun splitAlphaNumLoop :: "string \<Rightarrow> string \<Rightarrow> bool \<Rightarrow> string list \<Rightarrow> string list" where
  "splitAlphaNumLoop [] cur prevDigit out = out @ [cur]"
| "splitAlphaNumLoop (c # s) cur prevDigit out =
     (let d = isDigit c
      in if d \<noteq> prevDigit then splitAlphaNumLoop s [c] d (out @ [cur])
         else splitAlphaNumLoop s (cur @ [c]) prevDigit out)"

text \<open>Called on non-empty parts only; the code would panic on an empty one.\<close>

fun splitAlphaNum :: "string \<Rightarrow> string list" where
  "splitAlphaNum [] = []"
| "splitAlphaNum (c # s) = splitAlphaNumLoop s [c] (isDigit c) []"

definition splitPreIdentifiers :: "string \<Rightarrow> string list" where
  "splitPreIdentifiers s =
     (if s = [] then []
      else concat (map (\<lambda>part. if part = [] then [] else splitAlphaNum part) (SplitByte s (CHR ''.''))))"

fun releaseLoop :: "string list \<Rightarrow> string list \<Rightarrow> string list \<times> string list" where
  "releaseLoop [] rel = (rel, [])"
| "releaseLoop (seg # segs) rel =
     (if seg = [] then releaseLoop segs rel
      else if allDigits seg then releaseLoop segs (rel @ [seg])
      else (case leadingDigits seg of (num, rest) \<Rightarrow>
              let rel' = (if num \<noteq> [] then rel @ [num] else rel);
                  tail = (if rest \<noteq> [] then [rest] else []) @ segs
              in (rel', splitPreIdentifiers (Join tail ''.''))))"

definition splitReleaseAndQualifier :: "string \<Rightarrow> string list \<times> string list" where
  "splitReleaseAndQualifier v = (if v = [] then ([], []) else releaseLoop (SplitByte v (CHR ''.'')) [])"

definition parseGeneric :: "string \<Rightarrow> genericVersion option" where
  "parseGeneric v =
     (let v = TrimSpace v in
      if v = [] then None
      else
        let v = (if hd v = CHR ''v'' \<or> hd v = CHR ''V'' then tl v else v);
            v = (let i = IndexByte v (CHR ''+'') in if i \<ge> 0 then take (nat i) v else v);
            v = ReplaceAllByte v (CHR ''_'') ''.'';
            i = IndexByte v (CHR ''-'');
            preStr = (if i \<ge> 0 then drop (nat i + 1) v else []);
            v = (if i \<ge> 0 then take (nat i) v else v)
        in case splitReleaseAndQualifier v of (rel, embeddedPre) \<Rightarrow>
             if rel = [] then None
             else Some \<lparr>release = rel,
                        pre = embeddedPre @ (if preStr \<noteq> [] then splitPreIdentifiers preStr else [])\<rparr>)"

section \<open>Comparison\<close>

fun compareRelease :: "string list \<Rightarrow> string list \<Rightarrow> int" where
  "compareRelease [] [] = 0"
| "compareRelease (a # as) [] = (let c = compareNumStr a ''0'' in if c \<noteq> 0 then c else compareRelease as [])"
| "compareRelease [] (b # bs) = (let c = compareNumStr ''0'' b in if c \<noteq> 0 then c else compareRelease [] bs)"
| "compareRelease (a # as) (b # bs) = (let c = compareNumStr a b in if c \<noteq> 0 then c else compareRelease as bs)"

definition qualifierRank :: "string \<Rightarrow> int option" where
  "qualifierRank s =
     (let l = ToLower s in
      if l = ''dev'' then Some (-5)
      else if l = ''alpha'' \<or> l = ''a'' then Some (-4)
      else if l = ''beta'' \<or> l = ''b'' then Some (-3)
      else if l = ''pre'' \<or> l = ''preview'' \<or> l = ''c'' then Some (-2)
      else if l = ''rc'' then Some (-1)
      else if l = ''post'' \<or> l = ''rev'' \<or> l = ''r'' then Some 1
      else None)"

definition releaseTier :: "string list \<Rightarrow> int" where
  "releaseTier ids =
     (case ids of [] \<Rightarrow> 0
      | p # _ \<Rightarrow> (case qualifierRank p of Some rank \<Rightarrow> if rank > 0 then 1 else -1 | None \<Rightarrow> -1))"

definition comparePreIdent :: "string \<Rightarrow> string \<Rightarrow> int" where
  "comparePreIdent a b =
     (if allDigits a \<and> allDigits b then compareNumStr a b
      else if allDigits a \<and> \<not> allDigits b then -1
      else if \<not> allDigits a \<and> allDigits b then 1
      else case (qualifierRank a, qualifierRank b) of
             (Some ra, Some rb) \<Rightarrow> if ra \<noteq> rb then sign (ra - rb) else 0
           | _ \<Rightarrow> string_compare (ToLower a) (ToLower b))"

fun comparePre :: "string list \<Rightarrow> string list \<Rightarrow> int" where
  "comparePre (a # as) (b # bs) = (let c = comparePreIdent a b in if c \<noteq> 0 then c else comparePre as bs)"
| "comparePre as bs = sign (int (length as) - int (length bs))"

definition compareGeneric :: "string \<Rightarrow> string \<Rightarrow> int \<times> bool" where
  "compareGeneric a b =
     (case (parseGeneric a, parseGeneric b) of
        (Some pa, Some pb) \<Rightarrow>
          (let c = compareRelease (release pa) (release pb) in
           if c \<noteq> 0 then (c, True)
           else
             let ta = releaseTier (pre pa); tb = releaseTier (pre pb) in
             if ta \<noteq> tb then (sign (ta - tb), True)
             else if ta = 0 then (0, True)
             else (comparePre (pre pa) (pre pb), True))
      | _ \<Rightarrow> (0, False))"

section \<open>Antisymmetry, on every input\<close>

lemma string_compare_antisym: "string_compare b a = - string_compare a b"
  by (auto simp: string_compare_def)

lemma sign_flip: "sign (b - a) = - sign (a - b)"
  by (simp add: sign_def)

lemma sign_range: "sign n \<in> {-1, 0, 1}"
  by (simp add: sign_def)

lemma compareNumStr_antisym: "compareNumStr b a = - compareNumStr a b"
  by (simp add: compareNumStr_def Let_def string_compare_antisym [of "stripLeadingZeros b"]
      sign_flip [of "int (length (stripLeadingZeros b))"])

lemma compareNumStr_range: "compareNumStr a b \<in> {-1, 0, 1}"
  by (simp add: compareNumStr_def Let_def string_compare_def sign_def)

lemma compareRelease_antisym: "compareRelease b a = - compareRelease a b"
proof (induction a b rule: compareRelease.induct)
  case (2 a as)
  then show ?case using compareNumStr_antisym [of "''0''" a] by (simp add: Let_def)
next
  case (3 b bs)
  then show ?case using compareNumStr_antisym [of b "''0''"] by (simp add: Let_def)
next
  case (4 a as b bs)
  then show ?case using compareNumStr_antisym [of b a] by (simp add: Let_def)
qed simp

lemma compareRelease_range: "compareRelease a b \<in> {-1, 0, 1}"
proof (induction a b rule: compareRelease.induct)
  case (2 a as)
  then show ?case using compareNumStr_range [of a "''0''"] by (auto simp: Let_def)
next
  case (3 b bs)
  then show ?case using compareNumStr_range [of "''0''" b] by (auto simp: Let_def)
next
  case (4 a as b bs)
  then show ?case using compareNumStr_range [of a b] by (auto simp: Let_def)
qed simp

lemma comparePreIdent_antisym: "comparePreIdent b a = - comparePreIdent a b"
  using compareNumStr_antisym [of b a] string_compare_antisym [of "ToLower b" "ToLower a"]
  by (auto simp: comparePreIdent_def sign_def split: option.split)

lemma comparePreIdent_range: "comparePreIdent a b \<in> {-1, 0, 1}"
  using compareNumStr_range [of a b] by (auto simp: comparePreIdent_def sign_def string_compare_def split: option.split)

lemmas comparePre_induct = comparePre.induct [case_names both left_empty right_empty]

lemma comparePre_antisym: "comparePre b a = - comparePre a b"
proof (induction a b rule: comparePre_induct)
  case (both a as b bs)
  then show ?case using comparePreIdent_antisym [of b a] by (simp add: Let_def)
next
  case (left_empty bs)
  then show ?case by (cases bs) (simp_all add: sign_def)
next
  case (right_empty as)
  then show ?case by (cases as) (simp_all add: sign_def)
qed

lemma comparePre_range: "comparePre a b \<in> {-1, 0, 1}"
proof (induction a b rule: comparePre_induct)
  case (both a as b bs)
  then show ?case using comparePreIdent_range [of a b] by (auto simp: Let_def)
next
  case (left_empty bs)
  then show ?case using sign_range by (cases bs) (simp_all add: sign_def)
next
  case (right_empty as)
  then show ?case using sign_range by (cases as) (simp_all add: sign_def)
qed

text \<open>The three stages of a comparison as one lexicographic comparison.\<close>

definition gen_parts :: "genericVersion \<Rightarrow> string list \<times> int \<times> string list" where
  "gen_parts v = (release v, releaseTier (pre v), pre v)"

definition gen_cmp :: "genericVersion \<Rightarrow> genericVersion \<Rightarrow> int" where
  "gen_cmp a b = lexcmp compareRelease (lexcmp intcmp comparePre) (gen_parts a) (gen_parts b)"

lemma releaseTier_zero: "releaseTier p = 0 \<longleftrightarrow> p = []"
  by (auto simp: releaseTier_def split: list.splits option.splits)

lemma releaseTier_Nil [simp]: "releaseTier [] = 0"
  by (simp add: releaseTier_zero)

lemma compareGeneric_parts:
  "compareGeneric a b =
     (case (parseGeneric a, parseGeneric b) of
        (Some pa, Some pb) \<Rightarrow> (gen_cmp pa pb, True)
      | _ \<Rightarrow> (0, False))"
  by (auto simp: compareGeneric_def gen_cmp_def gen_parts_def Let_def intcmp_def releaseTier_zero
      split: option.split)

lemma gen_cmp_antisym: "gen_cmp b a = - gen_cmp a b"
  using compareRelease_antisym [of "release b" "release a"] comparePre_antisym [of "pre b" "pre a"]
  by (auto simp: gen_cmp_def gen_parts_def intcmp_def sign_def)

lemma gen_cmp_range: "gen_cmp a b \<in> {-1, 0, 1}"
  using compareRelease_range [of "release a" "release b"] comparePre_range [of "pre a" "pre b"]
  by (auto simp: gen_cmp_def gen_parts_def intcmp_def sign_def)

section \<open>Versions with known qualifiers\<close>

text \<open>
  Where every non-numeric identifier is a known qualifier, the comparison is a key comparison: a
  numeric identifier weighs 1 and its value, a qualifier 2 and its rank.
\<close>

definition known_ident :: "string \<Rightarrow> bool" where
  "known_ident s \<longleftrightarrow> allDigits s \<or> qualifierRank s \<noteq> None"

definition ident_key :: "string \<Rightarrow> int list" where
  "ident_key s = (if allDigits s then [1, num_of s] else [2, the (qualifierRank s)])"

definition pre_key :: "string list \<Rightarrow> int list" where
  "pre_key ids = concat (map ident_key ids)"

definition release_key :: "string list \<Rightarrow> int list" where
  "release_key rel = map num_of rel"

lemma allDigits_list: "allDigits s \<Longrightarrow> list_all isDigit s"
  by (simp add: allDigits_def)

lemma comparePreIdent_key:
  assumes "known_ident a" "known_ident b"
  shows "padcmp (ident_key a @ x) (ident_key b @ y) =
    (if comparePreIdent a b \<noteq> 0 then comparePreIdent a b else padcmp x y)"
proof (cases "allDigits a"; cases "allDigits b")
  assume "allDigits a" "allDigits b"
  then show ?thesis
    using compareNumStr_num_of [OF allDigits_list allDigits_list]
    by (simp add: ident_key_def comparePreIdent_def)
next
  assume "\<not> allDigits a" "\<not> allDigits b"
  moreover obtain ra rb where "qualifierRank a = Some ra" "qualifierRank b = Some rb"
    using assms calculation by (auto simp: known_ident_def)
  ultimately show ?thesis by (auto simp: ident_key_def comparePreIdent_def)
qed (simp_all add: ident_key_def comparePreIdent_def sign_def)

lemma comparePre_key:
  "list_all known_ident a \<Longrightarrow> list_all known_ident b \<Longrightarrow> comparePre a b = padcmp (pre_key a) (pre_key b)"
proof (induction a b rule: comparePre_induct)
  case (both a as b bs)
  then show ?case
    using comparePreIdent_key [of a b "pre_key as" "pre_key bs"] by (simp add: pre_key_def Let_def)
next
  case (left_empty bs)
  then show ?case by (cases bs) (auto simp: pre_key_def ident_key_def sign_def)
next
  case (right_empty as)
  then show ?case by (cases as) (auto simp: pre_key_def ident_key_def sign_def)
qed

interpretation gen_pre: key_cmp comparePre "list_all known_ident" pre_key
  by unfold_locales (rule comparePre_key)

lemma num_of_zero: "num_of ''0'' = 0"
  by (simp add: num_of_def digit_val_def)

lemma compareRelease_key:
  "list_all allDigits a \<Longrightarrow> list_all allDigits b \<Longrightarrow>
   compareRelease a b = padcmp (release_key a) (release_key b)"
proof (induction a b rule: compareRelease.induct)
  case (2 a as)
  then show ?case
    using compareNumStr_num_of [OF allDigits_list, of a "''0''"]
    by (simp add: release_key_def Let_def num_of_zero isDigit_byte)
next
  case (3 b bs)
  then show ?case
    using compareNumStr_num_of [OF _ allDigits_list, of "''0''" b]
    by (simp add: release_key_def Let_def num_of_zero isDigit_byte)
next
  case (4 a as b bs)
  then show ?case
    using compareNumStr_num_of [OF allDigits_list allDigits_list, of a b]
    by (simp add: release_key_def Let_def)
qed (simp add: release_key_def)

interpretation gen_release: key_cmp compareRelease "list_all allDigits" release_key
  by unfold_locales (rule compareRelease_key)

text \<open>What the parser returns always has digit-only release segments.\<close>

lemma releaseLoop_digits:
  "releaseLoop segs rel = (r, p) \<Longrightarrow> list_all allDigits rel \<Longrightarrow> list_all allDigits r"
proof (induction segs rel rule: releaseLoop.induct)
  case (2 seg segs rel)
  have "takeWhile isDigit seg \<noteq> [] \<Longrightarrow> allDigits (takeWhile isDigit seg)"
    by (simp add: allDigits_def list_all_takeWhile del: takeWhile_eq_Nil_iff)
  with 2 show ?case
    by (auto simp: leadingDigits_def Let_def simp del: takeWhile_eq_Nil_iff split: if_splits)
qed simp

lemma parseGeneric_split:
  assumes "parseGeneric s = Some v"
  obtains t q where "splitReleaseAndQualifier t = (release v, q)"
proof -
  have "TrimSpace s \<noteq> []" using assms by (auto simp: parseGeneric_def)
  then have "\<exists>t p. parseGeneric s = (case splitReleaseAndQualifier t of (rel, embeddedPre) \<Rightarrow>
      if rel = [] then None else Some \<lparr>release = rel, pre = embeddedPre @ p\<rparr>)"
    unfolding parseGeneric_def Let_def by (simp only: if_False) (intro exI, rule refl)
  then obtain t p where eq: "parseGeneric s = (case splitReleaseAndQualifier t of (rel, embeddedPre) \<Rightarrow>
      if rel = [] then None else Some \<lparr>release = rel, pre = embeddedPre @ p\<rparr>)" by blast
  obtain rel q where "splitReleaseAndQualifier t = (rel, q)" by fastforce
  then show thesis using eq assms that [of t q] by (auto split: if_splits)
qed

lemma parseGeneric_digits:
  assumes "parseGeneric s = Some v"
  shows "list_all allDigits (release v)"
proof -
  have "list_all allDigits (fst (splitReleaseAndQualifier t))" for t
    using releaseLoop_digits [of "SplitByte t (CHR ''.'')" "[]"]
    by (cases "releaseLoop (SplitByte t (CHR ''.'')) []") (simp add: splitReleaseAndQualifier_def)
  then show ?thesis using parseGeneric_split [OF assms] by (metis fst_conv)
qed

definition known_qualifiers :: "genericVersion \<Rightarrow> bool" where
  "known_qualifiers v \<longleftrightarrow> list_all known_ident (pre v)"

lemma gen_preorder: "preorder_cmp gen_cmp (\<lambda>v. list_all allDigits (release v) \<and> known_qualifiers v)"
proof (rule preorder_on)
  show "preorder_cmp (\<lambda>a b. lexcmp compareRelease (lexcmp intcmp comparePre) (gen_parts a) (gen_parts b))
      (\<lambda>a. case gen_parts a of (r, u) \<Rightarrow> list_all allDigits r \<and> (case u of (t, p) \<Rightarrow> True \<and> list_all known_ident p))"
    by (rule preorder_image [OF preorder_lex [OF gen_release.preorder_cmp_axioms
          preorder_lex [OF preorder_intcmp gen_pre.preorder_cmp_axioms]]])
qed (simp_all add: gen_cmp_def gen_parts_def known_qualifiers_def)

interpretation gen: preorder_cmp gen_cmp "\<lambda>v. list_all allDigits (release v) \<and> known_qualifiers v"
  by (rule gen_preorder)

definition generic_version :: "string \<Rightarrow> bool" where
  "generic_version s \<longleftrightarrow> (case parseGeneric s of None \<Rightarrow> False | Some v \<Rightarrow> known_qualifiers v)"

lemma generic_version_parse:
  assumes "generic_version s"
  obtains v where "parseGeneric s = Some v" "list_all allDigits (release v) \<and> known_qualifiers v"
  using assms parseGeneric_digits by (auto simp: generic_version_def split: option.splits)

text \<open>The generic comparison never contradicts itself when its arguments are swapped: on any two
  strings the answer and its availability are symmetric, and the answer is -1, 0 or 1.\<close>

theorem compareGeneric_antisym:
  "compareGeneric b a = (- fst (compareGeneric a b), snd (compareGeneric a b))
    \<and> fst (compareGeneric a b) \<in> {-1, 0, 1}
    \<and> (snd (compareGeneric a b) = (parseGeneric a \<noteq> None \<and> parseGeneric b \<noteq> None))"
  using gen_cmp_antisym [of "the (parseGeneric b)" "the (parseGeneric a)"]
    gen_cmp_range [of "the (parseGeneric a)" "the (parseGeneric b)"]
  by (cases "parseGeneric a"; cases "parseGeneric b"; simp add: compareGeneric_parts)

text \<open>Where the pre-release identifiers are numbers or known qualifiers, the generic comparison is
  transitive, so sorting by it is meaningful.\<close>

theorem compareGeneric_trans:
  assumes "generic_version a" "generic_version b" "generic_version c"
    and "fst (compareGeneric a b) \<le> 0" "fst (compareGeneric b c) \<le> 0"
  shows "compareGeneric a c = (fst (compareGeneric a c), True) \<and> fst (compareGeneric a c) \<le> 0"
proof -
  obtain u v w where p: "parseGeneric a = Some u" "parseGeneric b = Some v" "parseGeneric c = Some w"
    and ok: "list_all allDigits (release u) \<and> known_qualifiers u"
      "list_all allDigits (release v) \<and> known_qualifiers v"
      "list_all allDigits (release w) \<and> known_qualifiers w"
    using assms(1-3) by (metis generic_version_parse)
  then show ?thesis
    using gen.le_trans [OF ok] assms(4,5) by (simp add: compareGeneric_parts)
qed

theorem compareGeneric_trans_witness:
  "compareGeneric ''v1.2.0-rc.1'' ''1.2.post1'' = (fst (compareGeneric ''v1.2.0-rc.1'' ''1.2.post1''), True)
    \<and> fst (compareGeneric ''v1.2.0-rc.1'' ''1.2.post1'') \<le> 0"
  by (rule compareGeneric_trans [where b = "''1.2+build7''"]; code_simp)

text \<open>
  Known qualifiers compare by rank, unknown ones by spelling, and a mixed pair by spelling too, so
  three pre-releases can be ordered in a circle.
\<close>

lemma compareGeneric_cycle:
  "compareGeneric ''1.0-alpha'' ''1.0-az'' = (-1, True)"
  "compareGeneric ''1.0-az'' ''1.0-dev'' = (-1, True)"
  "compareGeneric ''1.0-dev'' ''1.0-alpha'' = (-1, True)"
  by code_simp+

section \<open>Parsing what is printed\<close>

text \<open>An identifier that \<^verbatim>\<open>splitPreIdentifiers\<close> keeps whole: a number, or a word without digits.\<close>

definition plain_ident :: "string \<Rightarrow> bool" where
  "plain_ident s \<longleftrightarrow> s \<noteq> [] \<and> (list_all isDigit s \<or> list_all (\<lambda>c. \<not> isDigit c) s)
     \<and> list_all (\<lambda>c. c \<noteq> CHR ''.'' \<and> c \<noteq> CHR ''_'' \<and> c \<noteq> CHR ''+'' \<and> \<not> is_space c) s"

definition print_generic :: "string list \<Rightarrow> string list \<Rightarrow> string \<Rightarrow> string" where
  "print_generic rel ids build = Join rel ''.'' @ ''-'' @ Join ids ''.'' @ ''+'' @ build"

lemma splitAlphaNumLoop_uniform:
  "list_all (\<lambda>c. isDigit c = d) s \<Longrightarrow> splitAlphaNumLoop s cur d out = out @ [cur @ s]"
  by (induction s arbitrary: cur) (auto simp: Let_def)

lemma splitAlphaNum_plain: "plain_ident s \<Longrightarrow> splitAlphaNum s = [s]"
  by (cases s) (auto simp: plain_ident_def splitAlphaNumLoop_uniform)

lemma plain_ident_chars:
  "plain_ident s \<Longrightarrow> s \<noteq> [] \<and> CHR ''.'' \<notin> set s \<and> CHR ''_'' \<notin> set s \<and> CHR ''+'' \<notin> set s \<and> (\<forall>c \<in> set s. \<not> is_space c)"
  by (auto simp: plain_ident_def list_all_iff)

lemma splitPreIdentifiers_Join:
  assumes "ids \<noteq> []" "list_all plain_ident ids"
  shows "splitPreIdentifiers (Join ids ''.'') = ids"
proof -
  have dots: "\<forall>p \<in> set ids. CHR ''.'' \<notin> set p"
    using assms(2) plain_ident_chars by (auto simp: list_all_iff)
  have "Join ids ''.'' \<noteq> []"
    using assms plain_ident_chars by (cases ids rule: Join.cases [of "(_, ''.'')"]) (auto simp: neq_Nil_conv)
  moreover have "concat (map (\<lambda>part. if part = [] then [] else splitAlphaNum part) ids) = ids"
    using assms(2) by (induction ids) (auto simp: splitAlphaNum_plain plain_ident_chars)
  ultimately show ?thesis
    using SplitByte_Join [OF assms(1) dots] by (simp add: splitPreIdentifiers_def)
qed

lemma releaseLoop_all: "list_all allDigits segs \<Longrightarrow> releaseLoop segs rel = (rel @ segs, [])"
  by (induction segs arbitrary: rel) (auto simp: allDigits_def)

lemma digit_chars: "isDigit c \<Longrightarrow> c \<notin> {CHR ''.'', CHR ''_'', CHR ''+'', CHR ''-'', CHR ''v'', CHR ''V''} \<and> \<not> is_space c"
  by (auto simp: isDigit_byte is_space_def)

lemma release_chars:
  assumes "list_all allDigits rel" "rel \<noteq> []"
  shows "set (Join rel ''.'') \<subseteq> {c. isDigit c} \<union> {CHR ''.''}" "Join rel ''.'' \<noteq> []" "isDigit (hd (Join rel ''.''))"
    "\<forall>p \<in> set rel. CHR ''.'' \<notin> set p"
proof -
  have dig: "\<forall>p \<in> set rel. set p \<subseteq> {c. isDigit c}"
    using assms(1) by (auto simp: allDigits_def list_all_iff)
  then show "set (Join rel ''.'') \<subseteq> {c. isDigit c} \<union> {CHR ''.''}"
    using set_Join [of rel "''.''"] by fastforce
  show "\<forall>p \<in> set rel. CHR ''.'' \<notin> set p" using dig digit_chars by auto
  obtain p ps where rel: "rel = p # ps" "p \<noteq> []" "isDigit (hd p)"
    using assms by (cases rel) (auto simp: allDigits_def list_all_iff)
  then show "Join rel ''.'' \<noteq> []" "isDigit (hd (Join rel ''.''))"
    by (cases ps; simp)+
qed

text \<open>A version printed from numeric release segments, pre-release identifiers and build metadata
  parses back to exactly the segments and the identifiers, the metadata dropped.\<close>

theorem parseGeneric_print:
  assumes "rel \<noteq> []" "list_all allDigits rel" "ids \<noteq> []" "list_all plain_ident ids"
    and "list_all (\<lambda>c. \<not> is_space c) build"
  shows "parseGeneric (print_generic rel ids build) = Some \<lparr>release = rel, pre = ids\<rparr>"
proof -
  let ?r = "Join rel ''.''" and ?p = "Join ids ''.''"
  note r = release_chars [OF assms(2,1)]
  have pc: "set ?p \<subseteq> {c. c \<noteq> CHR ''_'' \<and> c \<noteq> CHR ''+'' \<and> \<not> is_space c}"
    using set_Join [of ids "''.''"] assms(4) plain_ident_chars
    by (fastforce simp: list_all_iff is_space_def)
  have rc: "CHR ''+'' \<notin> set ?r" "CHR ''_'' \<notin> set ?r" "CHR ''-'' \<notin> set ?r" "\<forall>c \<in> set ?r. \<not> is_space c"
    using r(1) digit_chars by (fastforce simp: is_space_def)+
  have hd: "hd (?r @ t) \<noteq> CHR ''v'' \<and> hd (?r @ t) \<noteq> CHR ''V''" for t
    using r(2,3) digit_chars by fastforce
  have trim: "TrimSpace (print_generic rel ids build) = print_generic rel ids build"
    using rc(4) pc assms(5)
    by (intro TrimSpace_no_space) (fastforce simp: print_generic_def list_all_iff is_space_def)
  have plus: "IndexByte (print_generic rel ids build) (CHR ''+'') = int (length (?r @ ''-'' @ ?p))"
    using IndexByte_first [of "CHR ''+''" "?r @ ''-'' @ ?p" build] rc(1) pc by (auto simp: print_generic_def)
  have under: "ReplaceAllByte (?r @ ''-'' @ ?p) (CHR ''_'') ''.'' = ?r @ ''-'' @ ?p"
    using rc(2) pc by (intro ReplaceAllByte_none) auto
  have dash: "IndexByte (?r @ ''-'' @ ?p) (CHR ''-'') = int (length ?r)"
    using IndexByte_first [OF rc(3), of ?p] by simp
  have split: "splitReleaseAndQualifier ?r = (rel, [])"
    using r(2) releaseLoop_all [OF assms(2), of "[]"] SplitByte_Join [OF assms(1) r(4)]
    by (simp add: splitReleaseAndQualifier_def)
  have pre: "?p \<noteq> []" "splitPreIdentifiers ?p = ids"
    using splitPreIdentifiers_Join [OF assms(3,4)] assms(3) by (auto simp: splitPreIdentifiers_def)
  have ne: "print_generic rel ids build \<noteq> []" and hdp: "hd (print_generic rel ids build) \<noteq> CHR ''v''"
    "hd (print_generic rel ids build) \<noteq> CHR ''V''"
    using hd by (simp_all add: print_generic_def)
  have cut: "(if IndexByte (print_generic rel ids build) (CHR ''+'') \<ge> 0
      then take (nat (IndexByte (print_generic rel ids build) (CHR ''+''))) (print_generic rel ids build)
      else print_generic rel ids build) = ?r @ ''-'' @ ?p"
    unfolding plus nat_int by (simp add: print_generic_def)
  have head: "(if IndexByte (?r @ ''-'' @ ?p) (CHR ''-'') \<ge> 0
      then take (nat (IndexByte (?r @ ''-'' @ ?p) (CHR ''-''))) (?r @ ''-'' @ ?p) else ?r @ ''-'' @ ?p) = ?r"
    and tail: "(if IndexByte (?r @ ''-'' @ ?p) (CHR ''-'') \<ge> 0
      then drop (nat (IndexByte (?r @ ''-'' @ ?p) (CHR ''-'')) + 1) (?r @ ''-'' @ ?p) else []) = ?p"
    unfolding dash nat_int by simp_all
  show ?thesis
    unfolding parseGeneric_def Let_def
    by (simp only: trim ne hdp if_False simp_thms cut under head tail split prod.case assms(1) pre if_True
        append_Nil not_False_eq_True)
qed

theorem parseGeneric_print_witness:
  "parseGeneric (print_generic [''1'', ''10''] [''rc'', ''2''] ''sha.5'') = Some \<lparr>release = [''1'', ''10''], pre = [''rc'', ''2'']\<rparr>"
  by (rule parseGeneric_print; code_simp)

end
