(* ===== verification/Vercmp.thy ===== *)
theory Vercmp
  imports Vercmp_RPM Vercmp_Apk Vercmp_Generic
begin

text \<open>
  \<^verbatim>\<open>internal/server/vercmp/vercmp.go\<close>: the entry point, which picks the comparator by ecosystem.
\<close>

definition family :: "string \<Rightarrow> string" where
  "family ecosystem =
     (let e = ToLower (TrimSpace ecosystem) in
      if e \<in> set [''debian'', ''ubuntu'', ''deb''] then ''debian''
      else if e \<in> set [''rhel'', ''redhat'', ''centos'', ''rocky'', ''almalinux'', ''alma'', ''amazon'',
                       ''oracle'', ''suse'', ''opensuse'', ''azurelinux''] then ''rhel''
      else if e \<in> set [''alpine'', ''apk'', ''wolfi''] then ''alpine''
      else ''generic'')"

definition Compare :: "string \<Rightarrow> string \<Rightarrow> string \<Rightarrow> int \<times> bool" where
  "Compare ecosystem a b =
     (let a = TrimSpace a; b = TrimSpace b in
      if a = [] \<or> b = [] then (0, False)
      else if a = b then (0, True)
      else if family ecosystem = ''debian'' then compareDebian a b
      else if family ecosystem = ''rhel'' then compareRPM a b
      else if family ecosystem = ''alpine'' then compareAlpine a b
      else compareGeneric a b)"

section \<open>The order an ecosystem defines\<close>

text \<open>Version strings the family's own rules give a meaning.\<close>

definition well_formed :: "string \<Rightarrow> string \<Rightarrow> bool" where
  "well_formed ecosystem s =
     (let t = TrimSpace s in
      if family ecosystem = ''debian'' then deb_version t
      else if family ecosystem = ''rhel'' then t \<noteq> []
      else if family ecosystem = ''alpine'' then apk_version t
      else generic_version t)"

definition family_cmp :: "string \<Rightarrow> string \<Rightarrow> string \<Rightarrow> int" where
  "family_cmp ecosystem a b =
     (if family ecosystem = ''debian'' then deb_cmp a b
      else if family ecosystem = ''rhel'' then rpm_cmp a b
      else if family ecosystem = ''alpine'' then apkCompare a b
      else fst (compareGeneric a b))"

definition family_ok :: "string \<Rightarrow> string \<Rightarrow> bool" where
  "family_ok ecosystem t =
     (if family ecosystem = ''debian'' then deb_version t
      else if family ecosystem = ''rhel'' then t \<noteq> []
      else if family ecosystem = ''alpine'' then apk_version t
      else generic_version t)"

lemma generic_preorder: "preorder_cmp (\<lambda>a b. fst (compareGeneric a b)) generic_version"
proof (rule preorder_on)
  show "preorder_cmp (\<lambda>a b. gen_cmp (the (parseGeneric a)) (the (parseGeneric b)))
      (\<lambda>a. list_all allDigits (release (the (parseGeneric a))) \<and> known_qualifiers (the (parseGeneric a)))"
    by (rule preorder_image [OF gen_preorder])
  show "list_all allDigits (release (the (parseGeneric a))) \<and> known_qualifiers (the (parseGeneric a))"
    if "generic_version a" for a
    using generic_version_parse [OF that] by (metis option.sel)
  show "fst (compareGeneric a b) = gen_cmp (the (parseGeneric a)) (the (parseGeneric b))"
    if "generic_version a" "generic_version b" for a b
    using that by (auto simp: compareGeneric_parts generic_version_def split: option.splits)
qed

lemma family_preorder: "preorder_cmp (family_cmp ecosystem) (family_ok ecosystem)"
proof -
  consider "family ecosystem = ''debian''" | "family ecosystem = ''rhel''" | "family ecosystem = ''alpine''"
    | "family ecosystem \<noteq> ''debian''" "family ecosystem \<noteq> ''rhel''" "family ecosystem \<noteq> ''alpine''"
    by blast
  then show ?thesis
    using deb_preorder rpm_preorder apk.preorder_cmp_axioms generic_preorder
    unfolding family_cmp_def [abs_def] family_ok_def [abs_def]
    by cases simp_all
qed

lemma well_formed_nonempty: "well_formed ecosystem s \<Longrightarrow> TrimSpace s \<noteq> [] \<and> family_ok ecosystem (TrimSpace s)"
proof -
  have "parseGeneric [] = None" by code_simp
  then show "well_formed ecosystem s \<Longrightarrow> TrimSpace s \<noteq> [] \<and> family_ok ecosystem (TrimSpace s)"
    by (auto simp: well_formed_def family_ok_def Let_def deb_version_def apk_version_def generic_version_def
        split: if_splits)
qed

interpretation fam: preorder_cmp "family_cmp ecosystem" "family_ok ecosystem" for ecosystem
  by (rule family_preorder)

lemma family_dispatch:
  assumes "family_ok e x" "family_ok e y" "x \<noteq> []" "y \<noteq> []"
  shows "(if family e = ''debian'' then compareDebian x y
      else if family e = ''rhel'' then compareRPM x y
      else if family e = ''alpine'' then compareAlpine x y
      else compareGeneric x y) = (family_cmp e x y, True)"
proof -
  have deb: "compareDebian x y = (deb_cmp x y, True)" and rpm: "compareRPM x y = (rpm_cmp x y, True)"
    using assms(3,4) by (simp_all add: deb_cmp_def compareDebian_lex rpm_cmp_def compareRPM_lex)
  have apk: "apk_version x \<Longrightarrow> apk_version y \<Longrightarrow> compareAlpine x y = (apkCompare x y, True)"
    by (simp add: compareAlpine_def apk_version_def)
  have gen: "generic_version x \<Longrightarrow> generic_version y \<Longrightarrow> compareGeneric x y = (fst (compareGeneric x y), True)"
    by (auto simp: compareGeneric_parts generic_version_def split: option.splits)
  show ?thesis
    using assms(1,2) apk gen unfolding family_ok_def family_cmp_def by (simp add: deb rpm split: if_splits)
qed

lemma Compare_family:
  assumes "well_formed ecosystem a" "well_formed ecosystem b"
  shows "Compare ecosystem a b = (family_cmp ecosystem (TrimSpace a) (TrimSpace b), True)"
proof -
  note a = well_formed_nonempty [OF assms(1)] and b = well_formed_nonempty [OF assms(2)]
  have "family_cmp ecosystem (TrimSpace a) (TrimSpace a) = 0" using fam.refl a by blast
  then show ?thesis
    using a b family_dispatch [of ecosystem "TrimSpace a" "TrimSpace b"]
    by (cases "TrimSpace a = TrimSpace b") (simp_all add: Compare_def Let_def)
qed

text \<open>C12: within one ecosystem, \<^verbatim>\<open>vercmp.Compare\<close> is a total preorder on the well-formed versions of
  that ecosystem's family: it always reports a result, and the results are a consistent order.\<close>

theorem Compare_total_preorder:
  assumes "well_formed e a" "well_formed e b" "well_formed e c"
  shows "snd (Compare e a b)
    \<and> fst (Compare e a b) \<in> {-1, 0, 1}
    \<and> fst (Compare e b a) = - fst (Compare e a b)
    \<and> (fst (Compare e a b) \<le> 0 \<and> fst (Compare e b c) \<le> 0 \<longrightarrow> fst (Compare e a c) \<le> 0)"
proof -
  note ok = well_formed_nonempty [OF assms(1), THEN conjunct2]
    well_formed_nonempty [OF assms(2), THEN conjunct2] well_formed_nonempty [OF assms(3), THEN conjunct2]
  show ?thesis
    using fam.range [OF ok(1,2)] fam.antisym [OF ok(1,2)] fam.le_trans [OF ok]
    by (simp add: Compare_family assms)
qed

theorem Compare_total_preorder_witness:
  "snd (Compare ''Alpine'' '' 1.2_rc1'' ''1.2'') \<and> fst (Compare ''Alpine'' ''1.2'' '' 1.2_rc1'') = - fst (Compare ''Alpine'' '' 1.2_rc1'' ''1.2'')
    \<and> fst (Compare ''Alpine'' '' 1.2_rc1'' ''1.10-r2'') \<le> 0"
proof -
  have ok: "well_formed ''Alpine'' '' 1.2_rc1''" "well_formed ''Alpine'' ''1.2''" "well_formed ''Alpine'' ''1.10-r2''" by code_simp+
  have le: "fst (Compare ''Alpine'' '' 1.2_rc1'' ''1.2'') \<le> 0" "fst (Compare ''Alpine'' ''1.2'' ''1.10-r2'') \<le> 0"
    by code_simp+
  show ?thesis using Compare_total_preorder [OF ok] le by simp
qed

end
