(* ===== verification/Classify.thy ===== *)
theory Classify
  imports Vercmp
begin

text \<open>
  \<^verbatim>\<open>internal/server/db/classify.go\<close>: which advisories can apply to which installed packages. The JSON
  decoder is a parameter: \<open>unmarshal\<close> returns what \<^verbatim>\<open>json.Unmarshal\<close> left in the slice and whether it
  succeeded. Regular expressions of \<^verbatim>\<open>db.go\<close> are written out as predicates.
\<close>

section \<open>Advisory data\<close>

record affectedRangeEvent =
  Introduced :: string
  Fixed :: string
  LastAffected :: string
  Limit :: string

record affectedRange =
  RangeType :: string
  Events :: "affectedRangeEvent list"

record affectedProduct =
  PName :: string
  PEcosystem :: string
  PFixed :: "string list"
  PRanges :: "affectedRange list"
  PVendor :: string
  PProduct :: string
  PVersion :: string
  VersionStartIncluding :: string
  VersionStartExcluding :: string
  VersionEndIncluding :: string
  VersionEndExcluding :: string

definition noProduct :: affectedProduct where
  "noProduct = \<lparr>PName = [], PEcosystem = [], PFixed = [], PRanges = [], PVendor = [], PProduct = [],
     PVersion = [], VersionStartIncluding = [], VersionStartExcluding = [],
     VersionEndIncluding = [], VersionEndExcluding = []\<rparr>"

type_synonym unmarshal = "string \<Rightarrow> affectedProduct list \<times> bool"

section \<open>Ecosystems and categories\<close>

text \<open>\<^verbatim>\<open>eco[:idx]\<close> for the first colon, trimmed; the whole string without one.\<close>

definition ecoFamily :: "string \<Rightarrow> string" where
  "ecoFamily eco = (let idx = IndexByte eco (CHR '':'')
     in if idx \<ge> 0 then TrimSpace (take (nat idx) eco) else eco)"

definition isOSEcosystem :: "string \<Rightarrow> bool" where
  "isOSEcosystem ecosystem =
     (ecoFamily (ToLower (TrimSpace ecosystem)) \<in> set
        [''debian'', ''ubuntu'', ''alpine'', ''red hat'', ''redhat'', ''rhel'', ''centos'', ''rocky'', ''alma'',
         ''amazon'', ''suse'', ''opensuse'', ''almalinux'', ''amazon linux'', ''wolfi'', ''chainguard'',
         ''rocky linux'', ''oracle linux'', ''azure linux'', ''azurelinux'', ''cbl-mariner'', ''openeuler'',
         ''mageia'', ''android''])"

definition ClassifySecuritySource :: "unmarshal \<Rightarrow> string \<Rightarrow> string \<Rightarrow> string \<times> string" where
  "ClassifySecuritySource unmarshal source affectedProducts =
     (let products = (if affectedProducts \<noteq> [] then fst (unmarshal affectedProducts) else []);
          ecosystem = (case products of [] \<Rightarrow> [] | p # _ \<Rightarrow> PEcosystem p);
          s = ToLower source
      in if ecosystem \<noteq> [] then
           (if isOSEcosystem ecosystem then (''os-package'', ecosystem) else (''code-library'', ecosystem))
         else if s = ''osv'' then (''code-library'', [])
         else if s = ''trivy'' then (''os-package'', [])
         else if s \<in> set [''nvd'', ''cisa-kev'', ''epss''] then (''general-cve'', [])
         else (''custom'', []))"

definition packageCategory :: "string \<Rightarrow> string \<Rightarrow> string" where
  "packageCategory pkgType ecosystem =
     (let eco = ToLower (TrimSpace ecosystem); pt = ToLower pkgType in
      if isOSEcosystem eco then ''os-package''
      else if eco \<in> set [''pypi'', ''npm'', ''go'', ''maven'', ''crates.io'', ''nuget'', ''rubygems'',
                          ''packagist'', ''hex'', ''pub''] then ''code-library''
      else if pt \<in> set [''debian'', ''ubuntu'', ''deb'', ''alpine'', ''apk'', ''redhat'', ''centos'', ''rocky'',
                         ''alma'', ''amazon'', ''rpm'', ''suse'', ''wolfi''] then ''os-package''
      else if pt \<in> set [''python-pkg'', ''pip'', ''poetry'', ''node-pkg'', ''npm'', ''yarn'', ''pnpm'', ''gomod'',
                         ''go'', ''gobinary'', ''golang'', ''jar'', ''maven'', ''cargo'', ''rustbinary'',
                         ''composer'', ''gem'', ''nuget''] then ''code-library''
      else [])"

text \<open>The distro names, after the language names did not match.\<close>

definition distroFamily :: "string \<Rightarrow> string option" where
  "distroFamily f =
     (if f \<in> set [''debian'', ''deb''] then Some ''debian''
      else if f = ''ubuntu'' then Some ''ubuntu''
      else if f \<in> set [''alpine'', ''apk''] then Some ''alpine''
      else if f \<in> set [''redhat'', ''red hat'', ''red hat enterprise linux'', ''rhel'', ''centos'', ''rocky'',
                        ''rocky linux'', ''almalinux'', ''alma'', ''amazon'', ''amazon linux'', ''oracle linux'',
                        ''rpm''] then Some ''rhel''
      else if f \<in> set [''suse'', ''opensuse''] then Some ''suse''
      else if f \<in> set [''wolfi'', ''chainguard''] then Some ''wolfi''
      else if f \<in> set [''azure linux'', ''azurelinux'', ''cbl-mariner''] then Some ''azurelinux''
      else None)"

definition languageEcosystem :: "string \<Rightarrow> string option" where
  "languageEcosystem eco =
     (if eco \<in> set [''python'', ''python-pkg'', ''pip'', ''poetry''] then Some ''pypi''
      else if eco \<in> set [''node'', ''node-pkg'', ''javascript'', ''yarn'', ''pnpm''] then Some ''npm''
      else if eco \<in> set [''golang'', ''gomod'', ''gobinary''] then Some ''go''
      else if eco \<in> set [''ruby'', ''gem''] then Some ''rubygems''
      else if eco \<in> set [''rust'', ''cargo'', ''rustbinary''] then Some ''crates.io''
      else if eco = ''jar'' then Some ''maven''
      else if eco = ''composer'' then Some ''packagist''
      else None)"

definition normalizeEcosystem :: "string \<Rightarrow> string" where
  "normalizeEcosystem eco =
     (let eco = ToLower (TrimSpace eco) in
      case languageEcosystem eco of Some e \<Rightarrow> e
      | None \<Rightarrow> (case distroFamily (ecoFamily eco) of Some e \<Rightarrow> e | None \<Rightarrow> eco))"

text \<open>
  The SQL expression of \<^verbatim>\<open>vulnerability.go\<close> that the database evaluates for the same purpose, on an
  already lowered column value; \<^verbatim>\<open>split_part(x, ':', 1)\<close> is the text before the first colon.
\<close>

definition split_part1 :: "string \<Rightarrow> string" where
  "split_part1 x = takeWhile (\<lambda>c. c \<noteq> CHR '':'') x"

definition normalizeEcosystemSQL :: "string \<Rightarrow> string" where
  "normalizeEcosystemSQL raw =
     (if raw \<in> set [''python'', ''python-pkg'', ''pip'', ''poetry'', ''pypi''] then ''pypi''
      else if raw \<in> set [''node'', ''node-pkg'', ''javascript'', ''npm'', ''yarn'', ''pnpm''] then ''npm''
      else if raw \<in> set [''golang'', ''gomod'', ''gobinary'', ''go''] then ''go''
      else if raw \<in> set [''ruby'', ''gem'', ''rubygems''] then ''rubygems''
      else if raw \<in> set [''rust'', ''cargo'', ''rustbinary'', ''crates.io''] then ''crates.io''
      else if raw \<in> set [''jar'', ''maven''] then ''maven''
      else if raw \<in> set [''composer'', ''packagist''] then ''packagist''
      else if raw \<in> set [''nuget''] then ''nuget''
      else if split_part1 raw \<in> set [''debian'', ''deb''] then ''debian''
      else if split_part1 raw = ''ubuntu'' then ''ubuntu''
      else if split_part1 raw \<in> set [''alpine'', ''apk''] then ''alpine''
      else if split_part1 raw \<in> set [''redhat'', ''red hat'', ''red hat enterprise linux'', ''rhel'', ''centos'',
               ''rocky'', ''rocky linux'', ''almalinux'', ''alma'', ''amazon'', ''amazon linux'',
               ''oracle linux'', ''rpm''] then ''rhel''
      else if split_part1 raw \<in> set [''suse'', ''opensuse''] then ''suse''
      else if split_part1 raw \<in> set [''wolfi'', ''chainguard''] then ''wolfi''
      else if split_part1 raw \<in> set [''azure linux'', ''azurelinux'', ''cbl-mariner''] then ''azurelinux''
      else raw)"

section \<open>Fixed versions\<close>

definition isHexByte :: "char \<Rightarrow> bool" where
  "isHexByte c = (isDigit c \<or> (CHR ''a'' \<le> lower_byte c \<and> lower_byte c \<le> CHR ''f''))"

definition hashOnlyFixedVersion :: "string \<Rightarrow> bool" where
  "hashOnlyFixedVersion v = (length v \<in> set [32, 40, 64] \<and> list_all isHexByte v)"

definition versionLikeFixedVersion :: "string \<Rightarrow> bool" where
  "versionLikeFixedVersion v = list_ex isDigit v"

definition urlLikeFixedVersion :: "string \<Rightarrow> bool" where
  "urlLikeFixedVersion v =
     (let l = ToLower v in
      list_ex (HasPrefix l) [''http://'', ''https://'', ''git://'', ''ssh://'', ''git+'', ''pkg:''] \<or> CHR ''/'' \<in> set v)"

definition branchLikeFixedVersion :: "string \<Rightarrow> bool" where
  "branchLikeFixedVersion v =
     (ToLower v \<in> set [''main'', ''master'', ''trunk'', ''head'', ''latest'', ''stable'', ''unstable'',
                        ''develop'', ''development''])"

definition isHashOnlyFixedVersion :: "string \<Rightarrow> bool" where
  "isHashOnlyFixedVersion version = hashOnlyFixedVersion (TrimSpace version)"

definition isSafeFixedVersion :: "string \<Rightarrow> bool" where
  "isSafeFixedVersion version =
     (let version = TrimSpace version in
      if version = [] then False
      else if version = ''0'' then False
      else if \<not> versionLikeFixedVersion version then False
      else if hashOnlyFixedVersion version then False
      else if urlLikeFixedVersion version then False
      else if branchLikeFixedVersion version then False
      else True)"

text \<open>The loop both functions share: keep what is safe and not yet seen, in order.\<close>

fun addFixed :: "string list \<Rightarrow> string list \<Rightarrow> string list" where
  "addFixed [] out = out"
| "addFixed (f # fs) out =
     (let fixed = TrimSpace f in
      if \<not> isSafeFixedVersion fixed \<or> fixed \<in> set out then addFixed fs out
      else addFixed fs (out @ [fixed]))"

definition uniqueFixedVersions :: "string list \<Rightarrow> string list" where
  "uniqueFixedVersions fs = addFixed fs []"

definition rangeFixes :: "affectedProduct \<Rightarrow> string list" where
  "rangeFixes p = concat (map (\<lambda>r. map Fixed (Events r)) (PRanges p))"

definition fixedVersions :: "affectedProduct \<Rightarrow> string list" where
  "fixedVersions p = addFixed (rangeFixes p) (uniqueFixedVersions (PFixed p))"

definition hasSafeFixedEvidence :: "affectedProduct \<Rightarrow> bool" where
  "hasSafeFixedEvidence p =
     (if length (uniqueFixedVersions (PFixed p)) = 1 then True
      else list_ex (\<lambda>f. isSafeFixedVersion (TrimSpace f)) (rangeFixes p))"

section \<open>Version ranges\<close>

definition stripVersionEpoch :: "string \<Rightarrow> string" where
  "stripVersionEpoch v =
     (let idx = IndexByte v (CHR '':'') in
      if idx > 0 then (case Atoi (take (nat idx) v) of Some _ \<Rightarrow> drop (nat idx + 1) v | None \<Rightarrow> v) else v)"

definition numericVersionEpoch :: "string \<Rightarrow> int option" where
  "numericVersionEpoch v =
     (let v = TrimSpace v; idx = IndexByte v (CHR '':'') in
      if idx \<le> 0 then None else Atoi (take (nat idx) v))"

definition compareVersions :: "string \<Rightarrow> string \<Rightarrow> string \<Rightarrow> int \<times> bool" where
  "compareVersions eco a b =
     (let b' = (case numericVersionEpoch a of
                  Some _ \<Rightarrow> b
                | None \<Rightarrow> (case numericVersionEpoch b of
                             Some be \<Rightarrow> if be > 0 then stripVersionEpoch b else b
                           | None \<Rightarrow> b))
      in Compare eco a b')"

definition versionLess :: "string \<Rightarrow> string \<Rightarrow> string \<Rightarrow> bool \<times> bool" where
  "versionLess eco a b = (case compareVersions eco a b of (cmp, ok) \<Rightarrow> (cmp < 0, ok))"

text \<open>One event: \<open>Inl r\<close> returns \<open>r\<close>, \<open>Inr active\<close> goes on to the next event.\<close>

definition introducedStep :: "string \<Rightarrow> string \<Rightarrow> bool \<Rightarrow> affectedRangeEvent \<Rightarrow> bool + bool" where
  "introducedStep eco installed active ev =
     (if Introduced ev \<noteq> [] then
        (if Introduced ev = ''0'' then Inr True
         else case compareVersions eco installed (Introduced ev) of
                (cmp, ok) \<Rightarrow> if ok then Inr (cmp \<ge> 0) else Inl False)
      else Inr active)"

definition fixedStep :: "string \<Rightarrow> string \<Rightarrow> bool \<Rightarrow> affectedRangeEvent \<Rightarrow> bool + bool" where
  "fixedStep eco installed active ev =
     (if active \<and> Fixed ev \<noteq> [] then
        (if \<not> isSafeFixedVersion (Fixed ev) then Inl False
         else case versionLess eco installed (Fixed ev) of
                (lt, ok) \<Rightarrow> if ok then (if lt then Inl True else Inr False) else Inl False)
      else Inr active)"

definition lastAffectedStep :: "string \<Rightarrow> string \<Rightarrow> bool \<Rightarrow> affectedRangeEvent \<Rightarrow> bool + bool" where
  "lastAffectedStep eco installed active ev =
     (if active \<and> LastAffected ev \<noteq> [] then
        (case compareVersions eco installed (LastAffected ev) of
           (cmp, ok) \<Rightarrow> if ok then (if cmp \<le> 0 then Inl True else Inr False) else Inl False)
      else Inr active)"

definition limitStep :: "string \<Rightarrow> string \<Rightarrow> bool \<Rightarrow> affectedRangeEvent \<Rightarrow> bool + bool" where
  "limitStep eco installed active ev =
     (if active \<and> Limit ev \<noteq> [] then
        (case versionLess eco installed (Limit ev) of
           (lt, ok) \<Rightarrow> if ok then (if lt then Inl True else Inr False) else Inl False)
      else Inr active)"

definition andThen :: "bool + bool \<Rightarrow> (bool \<Rightarrow> bool + bool) \<Rightarrow> bool + bool" where
  "andThen r f = (case r of Inl x \<Rightarrow> Inl x | Inr active \<Rightarrow> f active)"

fun rangeLoop :: "string \<Rightarrow> string \<Rightarrow> bool \<Rightarrow> affectedRangeEvent list \<Rightarrow> bool" where
  "rangeLoop eco installed active [] = active"
| "rangeLoop eco installed active (ev # evs) =
     (case andThen (andThen (andThen (introducedStep eco installed active ev)
                     (\<lambda>a. fixedStep eco installed a ev))
                     (\<lambda>a. lastAffectedStep eco installed a ev))
                     (\<lambda>a. limitStep eco installed a ev) of
        Inl r \<Rightarrow> r
      | Inr a \<Rightarrow> rangeLoop eco installed a evs)"

definition versionInRange :: "string \<Rightarrow> string \<Rightarrow> affectedRangeEvent list \<Rightarrow> bool" where
  "versionInRange eco installed events = rangeLoop eco installed False events"

definition versionIsAffected :: "string \<Rightarrow> string \<Rightarrow> affectedProduct \<Rightarrow> bool" where
  "versionIsAffected eco installed p =
     (if installed = [] then False
      else if PRanges p \<noteq> [] then list_ex (\<lambda>r. versionInRange eco installed (Events r)) (PRanges p)
      else case uniqueFixedVersions (PFixed p) of
             [f] \<Rightarrow> (case versionLess eco installed f of (lt, ok) \<Rightarrow> ok \<and> lt)
           | _ \<Rightarrow> False)"

section \<open>Candidates\<close>

fun candidateLoop ::
    "string \<Rightarrow> string \<Rightarrow> string \<Rightarrow> string \<Rightarrow> string \<Rightarrow> string \<Rightarrow> affectedProduct list \<Rightarrow> affectedProduct \<times> bool" where
  "candidateLoop pkgName pkgCat pkgNormEco installedVersion cveCategory cveNormEco [] = (noProduct, False)"
| "candidateLoop pkgName pkgCat pkgNormEco installedVersion cveCategory cveNormEco (p # ps) =
     (let continue = candidateLoop pkgName pkgCat pkgNormEco installedVersion cveCategory cveNormEco ps in
      if \<not> EqualFold (PName p) pkgName then continue
      else
        let affectedEco = normalizeEcosystem (PEcosystem p);
            effectiveEco = (if affectedEco = [] then cveNormEco else affectedEco)
        in if effectiveEco = [] then continue
           else if length (fixedVersions p) = 0 then continue
           else if \<not> versionIsAffected effectiveEco installedVersion p then continue
           else
             let affectedCat = packageCategory [] effectiveEco;
                 effectiveCat = (if cveCategory = [] \<or> cveCategory = ''general-cve'' then affectedCat else cveCategory)
             in if pkgCat = [] \<or> effectiveCat = [] \<or> pkgCat \<noteq> effectiveCat then continue
                else if pkgNormEco = [] \<or> effectiveEco = [] \<or> pkgNormEco \<noteq> effectiveEco then continue
                else (p, True))"

definition compatibleSecurityCandidate ::
    "unmarshal \<Rightarrow> string \<Rightarrow> string \<Rightarrow> string \<Rightarrow> string \<Rightarrow> string \<Rightarrow> string \<Rightarrow> string \<Rightarrow> affectedProduct \<times> bool" where
  "compatibleSecurityCandidate unmarshal pkgName pkgType pkgEco installedVersion cveCategory cveEco affectedProducts =
     (if affectedProducts = [] \<or> \<not> snd (unmarshal affectedProducts) then (noProduct, False)
      else candidateLoop pkgName (packageCategory pkgType pkgEco) (normalizeEcosystem pkgEco) installedVersion
             cveCategory (normalizeEcosystem cveEco) (fst (unmarshal affectedProducts)))"

definition cpeNormProduct :: "string \<Rightarrow> string" where
  "cpeNormProduct s =
     (let s = ReplaceAllByte (ReplaceAllByte (ReplaceAllByte s (CHR ''.'') []) (CHR ''_'') []) (CHR ''-'') [] in
      if s \<in> set [''nodejs'', ''node''] then ''nodejs''
      else if s \<in> set [''jdk'', ''jre'', ''openjdk'', ''java'', ''javase'', ''javasedevelopmentkit''] then ''jdk''
      else if s \<in> set [''go'', ''golang''] then ''go''
      else s)"

definition cpeProductMatches :: "string \<Rightarrow> string \<Rightarrow> bool" where
  "cpeProductMatches pkgProduct advProduct =
     (if pkgProduct = advProduct then True else cpeNormProduct pkgProduct = cpeNormProduct advProduct)"

definition cpeRuntimeVendors :: "(string \<times> string list) list" where
  "cpeRuntimeVendors =
     [(''python'', [''python'', ''python_software_foundation'']),
      (''nodejs'', [''nodejs'', ''node.js'']),
      (''jdk'', [''oracle'', ''sun'', ''eclipse'', ''adoptium'', ''azul'', ''ibm'', ''redhat'', ''red_hat'',
                  ''amazon'', ''bellsoft'', ''sap'', ''temurin'', ''openjdk'']),
      (''go'', [''golang'', ''google'']),
      (''ruby'', [''ruby-lang'', ''ruby'']),
      (''php'', [''php'', ''php_group''])]"

definition cpeVendorCompatible :: "string \<Rightarrow> string \<Rightarrow> bool" where
  "cpeVendorCompatible pkgProduct advVendor =
     (if advVendor = [] then True
      else case map_of cpeRuntimeVendors (cpeNormProduct pkgProduct) of
             None \<Rightarrow> True
           | Some allowed \<Rightarrow> advVendor \<in> set allowed)"

definition vercmpGeneric :: "string \<Rightarrow> string \<Rightarrow> int \<times> bool" where
  "vercmpGeneric a b = Compare [] a b"

text \<open>A bound that is set but does not hold, or cannot be compared, rejects the product.\<close>

definition boundFails :: "string \<Rightarrow> string \<Rightarrow> (int \<Rightarrow> bool) \<Rightarrow> bool" where
  "boundFails installed bound outside =
     (bound \<noteq> [] \<and> (case vercmpGeneric installed bound of (cmp, ok) \<Rightarrow> \<not> ok \<or> outside cmp))"

definition cpeVersionAffected :: "string \<Rightarrow> affectedProduct \<Rightarrow> bool" where
  "cpeVersionAffected installed p =
     (let startIncl = TrimSpace (VersionStartIncluding p);
          startExcl = TrimSpace (VersionStartExcluding p);
          endIncl = TrimSpace (VersionEndIncluding p);
          endExcl = TrimSpace (VersionEndExcluding p);
          exact = TrimSpace (PVersion p);
          hasBound = (startIncl \<noteq> [] \<or> startExcl \<noteq> [] \<or> endIncl \<noteq> [] \<or> endExcl \<noteq> [])
      in if \<not> hasBound then
           (if exact = [] \<or> exact = ''*'' \<or> exact = ''-'' then False
            else case vercmpGeneric installed exact of (cmp, ok) \<Rightarrow> ok \<and> cmp = 0)
         else if boundFails installed startIncl (\<lambda>cmp. cmp < 0) then False
         else if boundFails installed startExcl (\<lambda>cmp. cmp \<le> 0) then False
         else if boundFails installed endIncl (\<lambda>cmp. cmp > 0) then False
         else if boundFails installed endExcl (\<lambda>cmp. cmp \<ge> 0) then False
         else True)"

fun cpeLoop :: "string \<Rightarrow> string \<Rightarrow> affectedProduct list \<Rightarrow> affectedProduct \<times> bool" where
  "cpeLoop cpeProduct installedVersion [] = (noProduct, False)"
| "cpeLoop cpeProduct installedVersion (p # ps) =
     (if \<not> cpeProductMatches cpeProduct (ToLower (TrimSpace (PProduct p))) then cpeLoop cpeProduct installedVersion ps
      else if \<not> cpeVendorCompatible cpeProduct (ToLower (TrimSpace (PVendor p))) then cpeLoop cpeProduct installedVersion ps
      else if cpeVersionAffected installedVersion p then (p, True)
      else cpeLoop cpeProduct installedVersion ps)"

definition compatibleCPECandidate :: "unmarshal \<Rightarrow> string \<Rightarrow> string \<Rightarrow> string \<Rightarrow> affectedProduct \<times> bool" where
  "compatibleCPECandidate unmarshal cpeProduct installedVersion affectedProducts =
     (let cpeProduct = ToLower (TrimSpace cpeProduct); installedVersion = TrimSpace installedVersion in
      if cpeProduct = [] \<or> installedVersion = [] \<or> affectedProducts = [] then (noProduct, False)
      else if \<not> snd (unmarshal affectedProducts) then (noProduct, False)
      else cpeLoop cpeProduct installedVersion (fst (unmarshal affectedProducts)))"

section \<open>The two normalisations agree\<close>

lemma take_IndexByte: "b \<in> set s \<Longrightarrow> 0 \<le> IndexByte s b \<and> take (nat (IndexByte s b)) s = takeWhile (\<lambda>c. c \<noteq> b) s"
proof -
  assume "b \<in> set s"
  then obtain u t where s: "s = u @ b # t" "b \<notin> set u" by (meson split_list_first)
  then have "IndexByte s b = int (length u)" by (simp add: IndexByte_first)
  moreover have "takeWhile (\<lambda>c. c \<noteq> b) s = u" using s by (induction u arbitrary: s) auto
  ultimately show ?thesis using s(1) by simp
qed

lemma ecoFamily_split: "ecoFamily x = (if CHR '':'' \<in> set x then TrimSpace (split_part1 x) else x)"
  using take_IndexByte [of "CHR '':''" x] by (auto simp: ecoFamily_def IndexByte_absent split_part1_def)

lemma split_part1_none: "CHR '':'' \<notin> set x \<Longrightarrow> split_part1 x = x"
  unfolding split_part1_def by (simp add: takeWhile_eq_all_conv) auto

definition identityEcosystems :: "string list" where
  "identityEcosystems = [''pypi'', ''npm'', ''go'', ''rubygems'', ''crates.io'', ''maven'', ''packagist'', ''nuget'']"

lemma identity_ecosystems:
  "x \<in> set identityEcosystems \<Longrightarrow> normalizeEcosystemSQL x = x \<and> languageEcosystem x = None \<and> distroFamily (ecoFamily x) = None"
proof -
  have "list_all (\<lambda>x. normalizeEcosystemSQL x = x \<and> languageEcosystem x = None \<and> distroFamily (ecoFamily x) = None)
      identityEcosystems" by code_simp
  then show "x \<in> set identityEcosystems \<Longrightarrow>
      normalizeEcosystemSQL x = x \<and> languageEcosystem x = None \<and> distroFamily (ecoFamily x) = None"
    by (simp add: list_all_iff)
qed

lemma normalizeEcosystemSQL_cases:
  assumes "x \<notin> set identityEcosystems"
  shows "normalizeEcosystemSQL x =
    (case languageEcosystem x of Some e \<Rightarrow> e
     | None \<Rightarrow> (case distroFamily (split_part1 x) of Some e \<Rightarrow> e | None \<Rightarrow> x))"
  using assms
  unfolding normalizeEcosystemSQL_def languageEcosystem_def distroFamily_def identityEcosystems_def
  by (simp only: list.set insert_iff empty_iff simp_thms if_distrib [of "case_option _ _"] option.case
      de_Morgan_disj if_False)

lemma normalizeEcosystem_agree:
  assumes "TrimSpace raw = raw" "TrimSpace (split_part1 (ToLower raw)) = split_part1 (ToLower raw)"
  shows "normalizeEcosystemSQL (ToLower raw) = normalizeEcosystem raw"
proof (cases "ToLower raw \<in> set identityEcosystems")
  case True
  then show ?thesis using identity_ecosystems [OF True] assms(1) by (simp add: normalizeEcosystem_def Let_def)
next
  case False
  have "ecoFamily (ToLower raw) = split_part1 (ToLower raw)"
    using assms(2) split_part1_none [of "ToLower raw"] by (simp add: ecoFamily_split)
  then show ?thesis
    using normalizeEcosystemSQL_cases [OF False] assms(1)
    by (cases "languageEcosystem (ToLower raw)") (simp_all add: normalizeEcosystem_def Let_def)
qed



text \<open>A blank before the colon separates the layers: Go trims the segment, \<^verbatim>\<open>split_part\<close> does not.\<close>

lemma normalizeEcosystem_layers_differ:
  "normalizeEcosystem ''Debian :12'' = ''debian''" "normalizeEcosystemSQL (ToLower ''Debian :12'') = ''debian :12''"
  by code_simp+

section \<open>Fixed versions are safe, trimmed and unique\<close>

lemma isSafeFixedVersion_trim: "isSafeFixedVersion (TrimSpace f) = isSafeFixedVersion f"
  by (simp add: isSafeFixedVersion_def)

lemma addFixed_set: "set (addFixed fs out) = set out \<union> {f \<in> TrimSpace ` set fs. isSafeFixedVersion f}"
  by (induction fs out rule: addFixed.induct) (auto simp: Let_def)

lemma addFixed_distinct: "distinct out \<Longrightarrow> distinct (addFixed fs out)"
  by (induction fs out rule: addFixed.induct) (auto simp: Let_def)

lemma addFixed_prefix: "\<exists>t. addFixed fs out = out @ t"
  by (induction fs out rule: addFixed.induct) (auto simp: Let_def)

text \<open>The fixed versions of an advisory product are exactly its safe fixed versions, trimmed: those
  listed directly first, then those of its ranges, each once.\<close>

theorem fixedVersions_exact:
  "distinct (fixedVersions p)
    \<and> set (fixedVersions p) = {f \<in> TrimSpace ` (set (PFixed p) \<union> set (rangeFixes p)). isSafeFixedVersion f}
    \<and> (\<exists>t. fixedVersions p = uniqueFixedVersions (PFixed p) @ t)
    \<and> (hasSafeFixedEvidence p \<longrightarrow> fixedVersions p \<noteq> [])"
proof (intro conjI)
  show "distinct (fixedVersions p)"
    by (simp add: fixedVersions_def uniqueFixedVersions_def addFixed_distinct)
  show set: "set (fixedVersions p) = {f \<in> TrimSpace ` (set (PFixed p) \<union> set (rangeFixes p)). isSafeFixedVersion f}"
    by (auto simp: fixedVersions_def uniqueFixedVersions_def addFixed_set)
  show "\<exists>t. fixedVersions p = uniqueFixedVersions (PFixed p) @ t"
    unfolding fixedVersions_def by (rule addFixed_prefix)
  show "hasSafeFixedEvidence p \<longrightarrow> fixedVersions p \<noteq> []"
  proof
    assume "hasSafeFixedEvidence p"
    then consider "uniqueFixedVersions (PFixed p) \<noteq> []"
      | f where "f \<in> set (rangeFixes p)" "isSafeFixedVersion (TrimSpace f)"
      by (cases "uniqueFixedVersions (PFixed p)") (auto simp: hasSafeFixedEvidence_def list_ex_iff)
    then show "fixedVersions p \<noteq> []"
    proof cases
      case 1
      then show ?thesis
        using addFixed_prefix [of "rangeFixes p" "uniqueFixedVersions (PFixed p)"] by (auto simp: fixedVersions_def)
    next
      case 2
      then have "TrimSpace f \<in> set (fixedVersions p)" unfolding set by blast
      then show ?thesis by auto
    qed
  qed
qed

theorem fixedVersions_exact_witness:
  "hasSafeFixedEvidence (noProduct\<lparr>PFixed := ['' 1.2 '', ''HEAD'']\<rparr>) \<and>
   fixedVersions (noProduct\<lparr>PFixed := ['' 1.2 '', ''HEAD'']\<rparr>) \<noteq> []"
proof -
  have "hasSafeFixedEvidence (noProduct\<lparr>PFixed := ['' 1.2 '', ''HEAD'']\<rparr>)" by code_simp
  with fixedVersions_exact [of "noProduct\<lparr>PFixed := ['' 1.2 '', ''HEAD'']\<rparr>"] show ?thesis by blast
qed

section \<open>Ranges are unions of intervals\<close>

definition introducedEvent :: "string \<Rightarrow> affectedRangeEvent" where
  "introducedEvent v = \<lparr>Introduced = v, Fixed = [], LastAffected = [], Limit = []\<rparr>"

definition fixedEvent :: "string \<Rightarrow> affectedRangeEvent" where
  "fixedEvent v = \<lparr>Introduced = [], Fixed = v, LastAffected = [], Limit = []\<rparr>"

definition intervalEvents :: "string \<times> string \<Rightarrow> affectedRangeEvent list" where
  "intervalEvents iv = [introducedEvent (fst iv), fixedEvent (snd iv)]"

text \<open>An OSV range: closed intervals, possibly followed by one still open.\<close>

definition rangeEvents :: "(string \<times> string) list \<Rightarrow> string option \<Rightarrow> affectedRangeEvent list" where
  "rangeEvents ivs open_from = concat (map intervalEvents ivs) @
     (case open_from of None \<Rightarrow> [] | Some i \<Rightarrow> [introducedEvent i])"

definition at_or_after :: "string \<Rightarrow> string \<Rightarrow> string \<Rightarrow> bool" where
  "at_or_after eco v i = (i = ''0'' \<or> 0 \<le> fst (compareVersions eco v i))"

definition before :: "string \<Rightarrow> string \<Rightarrow> string \<Rightarrow> bool" where
  "before eco v f = (fst (compareVersions eco v f) < 0)"

definition start_usable :: "string \<Rightarrow> string \<Rightarrow> string \<Rightarrow> bool" where
  "start_usable eco v i = (i \<noteq> [] \<and> (i = ''0'' \<or> snd (compareVersions eco v i)))"

definition end_usable :: "string \<Rightarrow> string \<Rightarrow> string \<Rightarrow> bool" where
  "end_usable eco v f = (f \<noteq> [] \<and> isSafeFixedVersion f \<and> snd (compareVersions eco v f))"

lemmas event_steps = andThen_def introducedStep_def fixedStep_def lastAffectedStep_def limitStep_def
  introducedEvent_def fixedEvent_def versionLess_def

lemma rangeLoop_introduced:
  "start_usable eco v i \<Longrightarrow>
   rangeLoop eco v active (introducedEvent i # evs) = rangeLoop eco v (at_or_after eco v i) evs"
  by (auto simp: event_steps start_usable_def at_or_after_def split: prod.split)

lemma rangeLoop_fixed:
  "end_usable eco v f \<Longrightarrow>
   rangeLoop eco v active (fixedEvent f # evs) = (active \<and> before eco v f \<or> rangeLoop eco v False evs)"
  by (cases active) (auto simp: event_steps end_usable_def before_def split: prod.split)

lemma rangeLoop_intervals:
  "\<forall>(i, f) \<in> set ivs. start_usable eco v i \<and> end_usable eco v f \<Longrightarrow>
   rangeLoop eco v False (concat (map intervalEvents ivs) @ evs) =
     ((\<exists>(i, f) \<in> set ivs. at_or_after eco v i \<and> before eco v f) \<or> rangeLoop eco v False evs)"
  by (induction ivs) (auto simp: intervalEvents_def rangeLoop_introduced rangeLoop_fixed simp del: rangeLoop.simps)

text \<open>C11: an advisory range means a union of intervals: a version is in the range exactly when it lies
  between the start and the fix of some interval, or at or after the start of the interval left open,
  whatever order the intervals come in.\<close>

theorem versionInRange_intervals:
  assumes "\<forall>(i, f) \<in> set ivs. start_usable eco v i \<and> end_usable eco v f"
    and "\<forall>i. open_from = Some i \<longrightarrow> start_usable eco v i"
  shows "versionInRange eco v (rangeEvents ivs open_from) =
    ((\<exists>(i, f) \<in> set ivs. at_or_after eco v i \<and> before eco v f)
     \<or> (\<exists>i. open_from = Some i \<and> at_or_after eco v i))"
  using rangeLoop_intervals [OF assms(1), of "[]"] rangeLoop_intervals [OF assms(1)] assms(2)
  by (cases open_from) (simp_all add: versionInRange_def rangeEvents_def rangeLoop_introduced del: rangeLoop.simps(2))

theorem versionInRange_intervals_witness:
  "versionInRange ''npm'' ''1.5.0'' (rangeEvents [(''0'', ''1.2.0''), (''1.4.0'', ''1.5.1'')] (Some ''2.0.0'')) =
    ((\<exists>(i, f) \<in> set [(''0'', ''1.2.0''), (''1.4.0'', ''1.5.1'')]. at_or_after ''npm'' ''1.5.0'' i \<and> before ''npm'' ''1.5.0'' f)
     \<or> (\<exists>i. Some ''2.0.0'' = Some i \<and> at_or_after ''npm'' ''1.5.0'' i))"
proof (rule versionInRange_intervals)
  have "list_all (\<lambda>(i, f). start_usable ''npm'' ''1.5.0'' i \<and> end_usable ''npm'' ''1.5.0'' f)
      [(''0'', ''1.2.0''), (''1.4.0'', ''1.5.1'')]" by code_simp
  then show "\<forall>(i, f) \<in> set [(''0'', ''1.2.0''), (''1.4.0'', ''1.5.1'')].
      start_usable ''npm'' ''1.5.0'' i \<and> end_usable ''npm'' ''1.5.0'' f"
    unfolding list_all_iff .
  have "start_usable ''npm'' ''1.5.0'' ''2.0.0''" by code_simp
  then show "\<forall>i. Some ''2.0.0'' = Some i \<longrightarrow> start_usable ''npm'' ''1.5.0'' i" by simp
qed

section \<open>What a match guarantees\<close>

text \<open>The gates of one product, as one predicate.\<close>

definition effectiveEcosystem :: "string \<Rightarrow> affectedProduct \<Rightarrow> string" where
  "effectiveEcosystem cveEco p =
     (if normalizeEcosystem (PEcosystem p) = [] then normalizeEcosystem cveEco else normalizeEcosystem (PEcosystem p))"

definition candidateGate :: "string \<Rightarrow> string \<Rightarrow> string \<Rightarrow> string \<Rightarrow> string \<Rightarrow> string \<Rightarrow> affectedProduct \<Rightarrow> bool" where
  "candidateGate pkgName pkgType pkgEco installed cveCategory cveEco p =
     (let eco = effectiveEcosystem cveEco p;
          cat = (if cveCategory = [] \<or> cveCategory = ''general-cve'' then packageCategory [] eco else cveCategory)
      in EqualFold (PName p) pkgName \<and> eco \<noteq> [] \<and> normalizeEcosystem pkgEco = eco
         \<and> fixedVersions p \<noteq> [] \<and> versionIsAffected eco installed p
         \<and> cat \<noteq> [] \<and> packageCategory pkgType pkgEco = cat)"

lemma skip_chain:
  "(if a then c else if b then c else if d then c else if e then c else if f then c else if g then c else x) =
   (if \<not> a \<and> \<not> b \<and> \<not> d \<and> \<not> e \<and> \<not> f \<and> \<not> g then x else c)"
  by simp

lemma candidateLoop_step:
  "candidateLoop pkgName (packageCategory pkgType pkgEco) (normalizeEcosystem pkgEco) installed cveCategory
      (normalizeEcosystem cveEco) (p # ps) =
   (if candidateGate pkgName pkgType pkgEco installed cveCategory cveEco p then (p, True)
    else candidateLoop pkgName (packageCategory pkgType pkgEco) (normalizeEcosystem pkgEco) installed cveCategory
      (normalizeEcosystem cveEco) ps)"
proof -
  define eco where "eco = effectiveEcosystem cveEco p"
  define cat where "cat = (if cveCategory = [] \<or> cveCategory = ''general-cve'' then packageCategory [] eco else cveCategory)"
  have gate: "candidateGate pkgName pkgType pkgEco installed cveCategory cveEco p =
    (\<not> \<not> EqualFold (PName p) pkgName \<and> eco \<noteq> [] \<and> \<not> length (fixedVersions p) = 0
      \<and> \<not> \<not> versionIsAffected eco installed p
      \<and> \<not> (packageCategory pkgType pkgEco = [] \<or> cat = [] \<or> packageCategory pkgType pkgEco \<noteq> cat)
      \<and> \<not> (normalizeEcosystem pkgEco = [] \<or> eco = [] \<or> normalizeEcosystem pkgEco \<noteq> eco))"
    unfolding candidateGate_def Let_def eco_def [symmetric] cat_def [symmetric] by auto
  show ?thesis
    unfolding candidateLoop.simps Let_def effectiveEcosystem_def [symmetric] eco_def [symmetric]
      cat_def [symmetric] skip_chain gate ..
qed

lemma candidateLoop_find:
  "candidateLoop pkgName (packageCategory pkgType pkgEco) (normalizeEcosystem pkgEco) installed cveCategory
      (normalizeEcosystem cveEco) ps =
   (case find (candidateGate pkgName pkgType pkgEco installed cveCategory cveEco) ps of
      None \<Rightarrow> (noProduct, False) | Some p \<Rightarrow> (p, True))"
proof (induction ps)
  case (Cons p ps)
  then show ?case unfolding candidateLoop_step by simp
qed simp

text \<open>C1: package matching never crosses ecosystems and never works without evidence: a returned
  product is the first one of the advisory that carries the package's name, resolves to the package's own
  ecosystem and category, names at least one safe fixed version, and whose ranges contain the installed
  version; when nothing is returned, no product of the advisory does.\<close>

theorem compatibleSecurityCandidate_exact:
  fixes pkgName pkgType pkgEco installed cveCategory cveEco :: string
  assumes "affectedProducts \<noteq> []" "unmarshal affectedProducts = (products, True)"
  defines "gate \<equiv> candidateGate pkgName pkgType pkgEco installed cveCategory cveEco"
  shows "case compatibleSecurityCandidate unmarshal pkgName pkgType pkgEco installed cveCategory cveEco affectedProducts of
      (p, True) \<Rightarrow> p \<in> set products \<and> gate p
        \<and> normalizeEcosystem pkgEco = effectiveEcosystem cveEco p \<and> normalizeEcosystem pkgEco \<noteq> []
        \<and> (\<exists>f \<in> set (fixedVersions p). isSafeFixedVersion f) \<and> installed \<noteq> []
        \<and> (\<exists>before after. products = before @ p # after \<and> (\<forall>q \<in> set before. \<not> gate q))
    | (p, False) \<Rightarrow> p = noProduct \<and> (\<forall>q \<in> set products. \<not> gate q)"
proof -
  have result: "compatibleSecurityCandidate unmarshal pkgName pkgType pkgEco installed cveCategory cveEco affectedProducts =
      (case find gate products of None \<Rightarrow> (noProduct, False) | Some p \<Rightarrow> (p, True))"
    using assms(1,2) unfolding gate_def by (simp add: compatibleSecurityCandidate_def candidateLoop_find del: candidateLoop.simps)
  show ?thesis
  proof (cases "find gate products")
    case None
    then have "\<forall>q \<in> set products. \<not> gate q" by (simp add: find_None_iff)
    then show ?thesis by (simp add: result None)
  next
    case (Some p)
    then obtain i where i: "i < length products" "gate (products ! i)" "p = products ! i"
      "\<forall>j<i. \<not> gate (products ! j)" by (auto simp: find_Some_iff)
    have "products = take i products @ p # drop (Suc i) products" using i by (simp add: id_take_nth_drop)
    moreover have "\<forall>q \<in> set (take i products). \<not> gate q" using i by (auto simp: in_set_conv_nth)
    moreover have "fixedVersions p \<noteq> []" "installed \<noteq> []"
      using i(2,3) by (auto simp: gate_def candidateGate_def Let_def versionIsAffected_def)
    moreover have "\<forall>f \<in> set (fixedVersions p). isSafeFixedVersion f"
      by (auto simp: fixedVersions_def uniqueFixedVersions_def addFixed_set)
    moreover have "normalizeEcosystem pkgEco = effectiveEcosystem cveEco p" "normalizeEcosystem pkgEco \<noteq> []"
      using i(2,3) by (simp_all add: gate_def candidateGate_def Let_def)
    moreover have "\<exists>f. f \<in> set (fixedVersions p)"
      using \<open>fixedVersions p \<noteq> []\<close> by (cases "fixedVersions p") auto
    moreover have "p \<in> set products" "gate p" using i(1-3) by simp_all
    ultimately show ?thesis unfolding result Some option.case prod.case bool.case by blast
  qed
qed

theorem compatibleSecurityCandidate_exact_witness:
  "let p = noProduct\<lparr>PName := ''axios'', PEcosystem := ''npm'', PFixed := [''1.2'']\<rparr>;
       r = compatibleSecurityCandidate (\<lambda>_. ([p], True)) ''Axios'' ''node-pkg'' ''npm'' ''1.1'' [] [] ''[]''
   in snd r \<and> fst r \<in> set [p]"
proof -
  let ?p = "noProduct\<lparr>PName := ''axios'', PEcosystem := ''npm'', PFixed := [''1.2'']\<rparr>"
  let ?r = "compatibleSecurityCandidate (\<lambda>_. ([?p], True)) ''Axios'' ''node-pkg'' ''npm'' ''1.1'' [] [] ''[]''"
  have facts: "normalizeEcosystem ''npm'' = ''npm''" "packageCategory ''node-pkg'' ''npm'' = ''code-library''"
    "packageCategory [] ''npm'' = ''code-library''" "EqualFold ''axios'' ''Axios''"
    "fixedVersions ?p = [''1.2'']" "versionIsAffected ''npm'' ''1.1'' ?p"
    by code_simp+
  have "candidateGate ''Axios'' ''node-pkg'' ''npm'' ''1.1'' [] [] ?p"
    by (simp add: candidateGate_def effectiveEcosystem_def Let_def facts)
  then have yes: "snd ?r" by (simp add: compatibleSecurityCandidate_def candidateLoop_find del: candidateLoop.simps)
  obtain q b where qb: "?r = (q, b)" by (rule prod.exhaust)
  have "b" using yes unfolding qb snd_conv .
  then have q: "?r = (q, True)" unfolding qb by simp
  have "''[]'' \<noteq> []" by simp
  from compatibleSecurityCandidate_exact [OF this, where unmarshal = "\<lambda>_. ([?p], True)" and products = "[?p]"
      and pkgName = "''Axios''" and pkgType = "''node-pkg''" and pkgEco = "''npm''" and installed = "''1.1''"
      and cveCategory = "[]" and cveEco = "[]", OF refl, unfolded q prod.case bool.case]
  have "q \<in> set [?p]" by (rule conjunct1)
  then show ?thesis unfolding Let_def q by simp
qed

lemma cpeLoop_match:
  "cpeLoop cpe v ps = (p, True) \<Longrightarrow> p \<in> set ps \<and> cpeProductMatches cpe (ToLower (TrimSpace (PProduct p)))
     \<and> cpeVendorCompatible cpe (ToLower (TrimSpace (PVendor p))) \<and> cpeVersionAffected v p"
  by (induction ps) (auto split: if_splits)

definition within :: "string \<Rightarrow> string \<Rightarrow> (int \<Rightarrow> bool) \<Rightarrow> bool" where
  "within v bound holds =
     (TrimSpace bound = [] \<or> snd (vercmpGeneric v (TrimSpace bound)) \<and> holds (fst (vercmpGeneric v (TrimSpace bound))))"

lemma cpeVersionAffected_bounds:
  "cpeVersionAffected v p \<Longrightarrow>
     within v (VersionStartIncluding p) (\<lambda>c. 0 \<le> c) \<and> within v (VersionStartExcluding p) (\<lambda>c. 0 < c)
     \<and> within v (VersionEndIncluding p) (\<lambda>c. c \<le> 0) \<and> within v (VersionEndExcluding p) (\<lambda>c. c < 0)
     \<and> (TrimSpace (VersionStartIncluding p) @ TrimSpace (VersionStartExcluding p)
        @ TrimSpace (VersionEndIncluding p) @ TrimSpace (VersionEndExcluding p) \<noteq> []
        \<or> vercmpGeneric v (TrimSpace (PVersion p)) = (0, True))"
  by (auto simp: cpeVersionAffected_def within_def boundFails_def Let_def split: if_splits prod.splits)

text \<open>A runtime matches an NVD entry only on its version: the returned product names the runtime,
  comes from a vendor that publishes it, and either pins exactly the installed version or carries at least
  one bound, with every bound it carries comparable and satisfied.\<close>

theorem compatibleCPECandidate_sound:
  assumes "compatibleCPECandidate unmarshal cpe installed affectedProducts = (p, True)"
  shows "let v = TrimSpace installed; c = ToLower (TrimSpace cpe) in
    p \<in> set (fst (unmarshal affectedProducts))
    \<and> cpeProductMatches c (ToLower (TrimSpace (PProduct p)))
    \<and> cpeVendorCompatible c (ToLower (TrimSpace (PVendor p)))
    \<and> within v (VersionStartIncluding p) (\<lambda>c. 0 \<le> c) \<and> within v (VersionStartExcluding p) (\<lambda>c. 0 < c)
    \<and> within v (VersionEndIncluding p) (\<lambda>c. c \<le> 0) \<and> within v (VersionEndExcluding p) (\<lambda>c. c < 0)
    \<and> (TrimSpace (VersionStartIncluding p) @ TrimSpace (VersionStartExcluding p)
        @ TrimSpace (VersionEndIncluding p) @ TrimSpace (VersionEndExcluding p) \<noteq> []
        \<or> vercmpGeneric v (TrimSpace (PVersion p)) = (0, True))"
proof -
  have m: "cpeLoop (ToLower (TrimSpace cpe)) (TrimSpace installed) (fst (unmarshal affectedProducts)) = (p, True)"
    using assms by (simp add: compatibleCPECandidate_def Let_def split: if_splits)
  from cpeLoop_match [OF m] cpeVersionAffected_bounds [of "TrimSpace installed" p] show ?thesis
    by (simp add: Let_def)
qed

theorem compatibleCPECandidate_sound_witness:
  "let p = noProduct\<lparr>PProduct := ''Node.js'', PVendor := ''nodejs'', VersionEndExcluding := ''18.20.4''\<rparr> in
    p \<in> set [p] \<and> within ''18.19.0'' (VersionEndExcluding p) (\<lambda>c. c < 0)"
proof -
  let ?p = "noProduct\<lparr>PProduct := ''Node.js'', PVendor := ''nodejs'', VersionEndExcluding := ''18.20.4''\<rparr>"
  have t: "TrimSpace ''18.19.0'' = ''18.19.0''" by code_simp
  have "compatibleCPECandidate (\<lambda>_. ([?p], True)) ''node'' ''18.19.0'' ''[]'' = (?p, True)" by code_simp
  from compatibleCPECandidate_sound [OF this] show ?thesis by (simp add: Let_def t)
qed

section \<open>Epoch tolerance\<close>

text \<open>An image scanner that dropped the epoch does not turn a package into a false positive: when the
  installed version carries no numeric epoch and the advisory's does, the comparison is that of the
  installed version with the advisory version without its epoch.\<close>

theorem compareVersions_epoch_loss:
  assumes "numericVersionEpoch installed = None" "Atoi e = Some n" "0 < n" "CHR '':'' \<notin> set e"
    and "TrimSpace (e @ '':'' @ u) = e @ '':'' @ u"
  shows "compareVersions eco installed (e @ '':'' @ u) = Compare eco installed u"
proof -
  have e: "e \<noteq> []" using assms(2) by (auto simp: Atoi_def Let_def)
  have idx: "IndexByte (e @ '':'' @ u) (CHR '':'') = int (length e)"
    using IndexByte_first [OF assms(4), of u] by simp
  have "numericVersionEpoch (e @ '':'' @ u) = Some n"
    using assms(2) e by (simp only: numericVersionEpoch_def Let_def assms(5) idx) simp
  moreover have "stripVersionEpoch (e @ '':'' @ u) = u"
    using assms(2) e by (simp only: stripVersionEpoch_def Let_def idx) simp
  ultimately show ?thesis using assms(1,3) by (simp add: compareVersions_def)
qed

theorem compareVersions_epoch_loss_witness:
  "compareVersions ''debian'' ''2.4-1'' (''1'' @ '':'' @ ''2.3-9'') = Compare ''debian'' ''2.4-1'' ''2.3-9''
    \<and> Compare ''debian'' ''2.4-1'' ''2.3-9'' = (1, True)"
proof
  show "compareVersions ''debian'' ''2.4-1'' (''1'' @ '':'' @ ''2.3-9'') = Compare ''debian'' ''2.4-1'' ''2.3-9''"
    by (rule compareVersions_epoch_loss [where n = 1]; code_simp)
  show "Compare ''debian'' ''2.4-1'' ''2.3-9'' = (1, True)" by code_simp
qed

end
