(* ===== verification/Aipolicy.thy ===== *)
theory Aipolicy
  imports Prelude Complex_Main
begin

text \<open>
  \<^verbatim>\<open>internal/server/aipolicy/aipolicy.go\<close>: the engine that rules on actions an AI proposes. Scores
  and confidences are finite \<^verbatim>\<open>float64\<close> values that are only compared; they are modelled as
  rationals.
\<close>

section \<open>Requests and decisions\<close>

datatype Mode = ModeOff | ModeSuggest | ModeAssisted | ModeAuto
datatype Verdict = VerdictAllow | VerdictAsk | VerdictDeny
datatype Outcome = OutcomeApply | OutcomeQueue | OutcomeNone

record Request =
  ReqType :: string
  Confidence :: rat
  Suppressing :: bool
  Severity :: string
  CVSSScore :: rat
  KnownExploited :: bool
  Environment :: string
  Criticality :: string

record Decision =
  DVerdict :: Verdict
  DOutcome :: Outcome
  DRule :: string
  DReason :: string

record Config =
  CMode :: Mode
  MinConfidence :: rat
  ProtectProduction :: bool

section \<open>The engine\<close>

definition NormalizeMode :: "string \<Rightarrow> Mode" where
  "NormalizeMode s =
     (let m = ToLower (TrimSpace s) in
      if m = ''off'' then ModeOff
      else if m = ''assisted'' then ModeAssisted
      else if m = ''auto'' then ModeAuto
      else ModeSuggest)"

definition isCritical :: "string \<Rightarrow> rat \<Rightarrow> bool" where
  "isCritical severity cvss = (EqualFold (TrimSpace severity) ''critical'' \<or> cvss \<ge> 9)"

definition resolveOutcome :: "Config \<Rightarrow> Verdict \<Rightarrow> Outcome" where
  "resolveOutcome cfg v =
     (case CMode cfg of
        ModeSuggest \<Rightarrow> OutcomeNone
      | ModeAssisted \<Rightarrow> (if v = VerdictAllow then OutcomeApply else OutcomeQueue)
      | ModeAuto \<Rightarrow> OutcomeApply
      | ModeOff \<Rightarrow> OutcomeNone)"

definition Decide :: "Config \<Rightarrow> Request \<Rightarrow> Decision" where
  "Decide cfg req =
     (if CMode cfg = ModeOff then
        \<lparr>DVerdict = VerdictDeny, DOutcome = OutcomeNone, DRule = ''mode_off'', DReason = ''AI action mode is off''\<rparr>
      else if Suppressing req \<and> (KnownExploited req \<or> isCritical (Severity req) (CVSSScore req)) then
        \<lparr>DVerdict = VerdictDeny, DOutcome = OutcomeNone, DRule = ''safety_critical'',
         DReason = ''known-exploited or critical/high-CVSS findings require human review''\<rparr>
      else if MinConfidence cfg > 0 \<and> Confidence req < MinConfidence cfg then
        \<lparr>DVerdict = VerdictDeny, DOutcome = OutcomeNone, DRule = ''low_confidence'',
         DReason = ''confidence below the configured threshold''\<rparr>
      else
        let escalate = (ProtectProduction cfg \<and> Suppressing req
              \<and> EqualFold (TrimSpace (Environment req)) ''production''
              \<and> EqualFold (TrimSpace (Criticality req)) ''high'');
            verdict = (if escalate then VerdictAsk else VerdictAllow);
            rule = (if escalate then ''protect_production'' else ''allow'');
            reason = (if escalate then ''production high-criticality host requires human approval''
                      else ''within auto-action policy'')
        in \<lparr>DVerdict = verdict, DOutcome = resolveOutcome cfg verdict, DRule = rule, DReason = reason\<rparr>)"

section \<open>What the engine may do\<close>

definition needs_human :: "Request \<Rightarrow> bool" where
  "needs_human req = (Suppressing req \<and> (KnownExploited req \<or> isCritical (Severity req) (CVSSScore req)))"

definition confident :: "Config \<Rightarrow> Request \<Rightarrow> bool" where
  "confident cfg req = (MinConfidence cfg \<le> 0 \<or> MinConfidence cfg \<le> Confidence req)"

definition protected_host :: "Config \<Rightarrow> Request \<Rightarrow> bool" where
  "protected_host cfg req = (ProtectProduction cfg \<and> Suppressing req
     \<and> EqualFold (TrimSpace (Environment req)) ''production'' \<and> EqualFold (TrimSpace (Criticality req)) ''high'')"

text \<open>C9: hard safety: no configuration, mode or confidence lets the AI silence a known-exploited or
  critical finding: the request is denied, with no outcome, whatever else it says.\<close>

theorem Decide_hard_safety:
  assumes "Suppressing req" "KnownExploited req \<or> EqualFold (TrimSpace (Severity req)) ''critical'' \<or> 9 \<le> CVSSScore req"
  shows "DVerdict (Decide cfg req) = VerdictDeny \<and> DOutcome (Decide cfg req) = OutcomeNone"
  using assms by (auto simp: Decide_def isCritical_def)

theorem Decide_hard_safety_witness:
  "let req = \<lparr>ReqType = ''triage.suppress'', Confidence = 1, Suppressing = True, Severity = '' Critical'',
       CVSSScore = 98 / 10, KnownExploited = False, Environment = ''dev'', Criticality = ''low''\<rparr>;
       d = Decide \<lparr>CMode = ModeAuto, MinConfidence = 0, ProtectProduction = False\<rparr> req
   in DVerdict d = VerdictDeny \<and> DOutcome d = OutcomeNone"
  unfolding Let_def by (rule Decide_hard_safety) simp_all

text \<open>The outcome of every request: nothing is applied or queued in the off and suggest modes; a
  permitted, confident action is applied in auto mode, and in assisted mode is applied unless it would
  silence a finding on a protected production host, which queues it for a human.\<close>

theorem Decide_outcome:
  "DOutcome (Decide cfg req) =
     (if confident cfg req \<and> \<not> needs_human req then
        (case CMode cfg of
           ModeOff \<Rightarrow> OutcomeNone
         | ModeSuggest \<Rightarrow> OutcomeNone
         | ModeAssisted \<Rightarrow> if protected_host cfg req then OutcomeQueue else OutcomeApply
         | ModeAuto \<Rightarrow> OutcomeApply)
      else OutcomeNone)"
  by (cases "CMode cfg")
    (auto simp: Decide_def needs_human_def confident_def protected_host_def resolveOutcome_def Let_def)

end
