(* ===== verification/Ai_Actions.thy ===== *)
theory Ai_Actions
  imports Aipolicy
begin

text \<open>
  \<^verbatim>\<open>internal/server/db/ai_approvals.go\<close> and \<^verbatim>\<open>internal/server/api/ai_actions.go\<close>: the queue of
  AI-proposed actions, the executor, the policy gate and the approval handlers.

  The table \<^verbatim>\<open>ai_action_approvals\<close> is a list of rows. Each SQL statement is one step on it; the
  unique index of migration 064 (one pending row per action type and subject) is written out, a
  violation being an error value. JSON texts are opaque: \<open>decode\<close> stands for \<^verbatim>\<open>json.Unmarshal\<close> into
  the payload struct and \<open>encode\<close> for \<^verbatim>\<open>json.Marshal\<close>. Generated ids, times and the result of the
  triage statement are arguments.
\<close>

section \<open>State\<close>

datatype approvalStatus = Pending | Approved | Rejected

record AIApproval =
  ap_id :: string
  action_type :: string
  subject :: string
  proposed :: string
  ap_context :: string
  confidence :: rat
  rule_name :: string
  ap_reason :: string
  ap_status :: approvalStatus
  created_at :: int
  decided_at :: "int option"
  decided_by :: string

record triageSuppressPayload =
  VulnerabilityID :: string
  HostID :: string
  PkgName :: string
  TriageStatus :: string
  Reason :: string
  Comment :: string

record VulnerabilityTriage =
  tr_vuln :: string
  tr_host :: string
  tr_pkg :: string
  tr_status :: string
  tr_reason :: string
  tr_comment :: string
  tr_assignee :: string
  tr_expires :: "int option"
  tr_updated_by :: string

text \<open>
  The parts of the server the actions change: the approvals, the triage decisions, the triages for
  which package summaries were rebuilt, and the audit trail (action and object).
\<close>

record aiState =
  approvals :: "AIApproval list"
  triages :: "VulnerabilityTriage list"
  rebuilt :: "VulnerabilityTriage list"
  audit :: "(string \<times> string) list"

datatype error = UniqueViolation | DecodeError | InvalidPayload | UnknownAction | StatementFailed
  | VulnerabilityIDRequired

type_synonym decoder = "string \<Rightarrow> triageSuppressPayload option"
type_synonym encoder = "triageSuppressPayload \<Rightarrow> string"

section \<open>The approval table\<close>

definition is_pending :: "AIApproval \<Rightarrow> bool" where
  "is_pending a = (ap_status a = Pending)"

definition same_key :: "AIApproval \<Rightarrow> AIApproval \<Rightarrow> bool" where
  "same_key a b = (action_type a = action_type b \<and> subject a = subject b)"

text \<open>An \<^verbatim>\<open>UPDATE\<close> is refused as a whole when its result breaks a unique index.\<close>

fun unique_index :: "AIApproval list \<Rightarrow> bool" where
  "unique_index [] = True"
| "unique_index (a # as) = (list_all (\<lambda>b. ap_id b \<noteq> ap_id a \<and> \<not> (is_pending a \<and> is_pending b \<and> same_key a b)) as
     \<and> unique_index as)"

text \<open>The row to insert, and what \<^verbatim>\<open>DO UPDATE SET\<close> takes from it.\<close>

definition approvalRow :: "string \<Rightarrow> int \<Rightarrow> AIApproval \<Rightarrow> AIApproval" where
  "approvalRow newId now a =
     a\<lparr>ap_id := newId, ap_status := Pending, created_at := now, decided_at := None, decided_by := [],
       proposed := (if proposed a = [] then ''{}'' else proposed a),
       ap_context := (if ap_context a = [] then ''{}'' else ap_context a)\<rparr>"

definition refreshRow :: "int \<Rightarrow> AIApproval \<Rightarrow> AIApproval \<Rightarrow> AIApproval" where
  "refreshRow now row b =
     (if is_pending b \<and> same_key b row
      then b\<lparr>proposed := proposed row, ap_context := ap_context row, confidence := confidence row,
             rule_name := rule_name row, ap_reason := ap_reason row, created_at := now\<rparr>
      else b)"

definition CreateAIApproval :: "string \<Rightarrow> int \<Rightarrow> AIApproval \<Rightarrow> aiState \<Rightarrow> (error + unit) \<times> aiState" where
  "CreateAIApproval newId now a st =
     (let row = approvalRow newId now a in
      if list_ex (\<lambda>b. is_pending b \<and> same_key b row) (approvals st) then
        (Inr (), st\<lparr>approvals := map (refreshRow now row) (approvals st)\<rparr>)
      else if list_ex (\<lambda>b. ap_id b = newId) (approvals st) then (Inl UniqueViolation, st)
      else (Inr (), st\<lparr>approvals := approvals st @ [row]\<rparr>))"

definition GetAIApproval :: "string \<Rightarrow> aiState \<Rightarrow> AIApproval option" where
  "GetAIApproval k st = find (\<lambda>a. ap_id a = k) (approvals st)"

definition updateRows :: "(AIApproval \<Rightarrow> bool) \<Rightarrow> (AIApproval \<Rightarrow> AIApproval) \<Rightarrow> aiState \<Rightarrow> (error + nat) \<times> aiState" where
  "updateRows P f st =
     (let rows = map (\<lambda>a. if P a then f a else a) (approvals st) in
      if unique_index rows then (Inr (length (filter P (approvals st))), st\<lparr>approvals := rows\<rparr>)
      else (Inl UniqueViolation, st))"

definition ClaimAIApprovalForApproval ::
    "int \<Rightarrow> string \<Rightarrow> string \<Rightarrow> aiState \<Rightarrow> (error + (string \<times> string) option) \<times> aiState" where
  "ClaimAIApprovalForApproval now k decidedBy st =
     (let P = (\<lambda>a. ap_id a = k \<and> is_pending a) in
      case updateRows P (\<lambda>a. a\<lparr>ap_status := Approved, decided_at := Some now, decided_by := decidedBy\<rparr>) st of
        (Inl e, st') \<Rightarrow> (Inl e, st')
      | (Inr n, st') \<Rightarrow> (Inr (map_option (\<lambda>a. (action_type a, proposed a)) (find P (approvals st))), st'))"

definition RevertAIApproval :: "string \<Rightarrow> aiState \<Rightarrow> (error + nat) \<times> aiState" where
  "RevertAIApproval k st =
     updateRows (\<lambda>a. ap_id a = k \<and> ap_status a = Approved)
       (\<lambda>a. a\<lparr>ap_status := Pending, decided_at := None, decided_by := []\<rparr>) st"

text \<open>
  The statement's parameters are \<open>$1\<close> for the id and \<open>$2\<close> for the decider, and the call passes the
  decider first: \<open>arg1\<close> and \<open>arg2\<close> are the parameters by position.
\<close>

definition rejectStatement :: "int \<Rightarrow> string \<Rightarrow> string \<Rightarrow> aiState \<Rightarrow> (error + nat) \<times> aiState" where
  "rejectStatement now arg1 arg2 st =
     updateRows (\<lambda>a. ap_id a = arg1 \<and> is_pending a)
       (\<lambda>a. a\<lparr>ap_status := Rejected, decided_at := Some now, decided_by := arg2\<rparr>) st"

definition RejectAIApproval :: "int \<Rightarrow> string \<Rightarrow> string \<Rightarrow> aiState \<Rightarrow> (error + bool) \<times> aiState" where
  "RejectAIApproval now k decidedBy st =
     (case rejectStatement now decidedBy k st of
        (Inl e, st') \<Rightarrow> (Inl e, st')
      | (Inr n, st') \<Rightarrow> (Inr (n > 0), st'))"

text \<open>Counts by status, as the \<^verbatim>\<open>GROUP BY\<close> returns them: absent statuses have no entry.\<close>

definition CountAIApprovalsByStatus :: "aiState \<Rightarrow> (approvalStatus \<times> nat) list" where
  "CountAIApprovalsByStatus st =
     filter (\<lambda>(s, n). n > 0)
       (map (\<lambda>s. (s, length (filter (\<lambda>a. ap_status a = s) (approvals st)))) [Pending, Approved, Rejected])"

section \<open>Executing an action\<close>

text \<open>The statement; ids and times of the row are left out, the key is the finding.\<close>

definition upsertTriageRow :: "VulnerabilityTriage \<Rightarrow> VulnerabilityTriage list \<Rightarrow> VulnerabilityTriage list" where
  "upsertTriageRow t ts =
     (let same = (\<lambda>u. tr_vuln u = tr_vuln t \<and> tr_host u = tr_host t \<and> tr_pkg u = tr_pkg t) in
      if list_ex same ts then map (\<lambda>u. if same u then t else u) ts else ts @ [t])"

definition UpsertVulnerabilityTriage ::
    "bool \<Rightarrow> VulnerabilityTriage \<Rightarrow> VulnerabilityTriage list \<Rightarrow> error + VulnerabilityTriage \<times> VulnerabilityTriage list" where
  "UpsertVulnerabilityTriage stmtOk t ts =
     (if tr_vuln t = [] then Inl VulnerabilityIDRequired
      else
        let t = t\<lparr>tr_status := (if tr_status t = [] then ''open'' else tr_status t)\<rparr>
        in if \<not> stmtOk then Inl StatementFailed else Inr (t, upsertTriageRow t ts))"

definition triageOf :: "string \<Rightarrow> triageSuppressPayload \<Rightarrow> VulnerabilityTriage" where
  "triageOf actor p = \<lparr>tr_vuln = VulnerabilityID p, tr_host = HostID p, tr_pkg = PkgName p,
     tr_status = TriageStatus p, tr_reason = Reason p, tr_comment = Comment p, tr_assignee = [], tr_expires = None,
     tr_updated_by = actor\<rparr>"

definition executeAIAction ::
    "decoder \<Rightarrow> (VulnerabilityTriage \<Rightarrow> bool) \<Rightarrow> string \<Rightarrow> string \<Rightarrow> string \<Rightarrow> aiState \<Rightarrow> (error + unit) \<times> aiState" where
  "executeAIAction decode upsertOk actionType payload actor st =
     (if actionType = ''triage.suppress'' then
        (case decode payload of
           None \<Rightarrow> (Inl DecodeError, st)
         | Some p \<Rightarrow>
             if VulnerabilityID p = [] \<or> (TriageStatus p \<noteq> ''accepted_risk'' \<and> TriageStatus p \<noteq> ''false_positive'')
             then (Inl InvalidPayload, st)
             else
               (case UpsertVulnerabilityTriage (upsertOk (triageOf actor p)) (triageOf actor p) (triages st) of
                  Inl e \<Rightarrow> (Inl e, st)
                | Inr (t, ts) \<Rightarrow> (Inr (), st\<lparr>triages := ts, rebuilt := rebuilt st @ [t]\<rparr>)))
      else (Inl UnknownAction, st))"

section \<open>The policy gate\<close>

definition triageStatusForAction :: "string \<Rightarrow> string" where
  "triageStatusForAction action =
     (if action = ''false_positive'' then ''false_positive''
      else if action = ''accept_risk'' then ''accepted_risk''
      else [])"

text \<open>\<^verbatim>\<open>envFloat\<close> returns its default for an unset or unparsable variable: \<open>None\<close>.\<close>

definition aiPolicy :: "string \<Rightarrow> rat option \<Rightarrow> rat option \<Rightarrow> bool option \<Rightarrow> Config" where
  "aiPolicy actionMode minConfidence autoapplyConfidence protect =
     (let legacy = (case autoapplyConfidence of Some c \<Rightarrow> c | None \<Rightarrow> 0);
          minConf = (case minConfidence of Some c \<Rightarrow> c | None \<Rightarrow> legacy);
          mode = NormalizeMode actionMode;
          mode = (if actionMode = [] \<and> legacy > 0 then ModeAuto else mode)
      in \<lparr>CMode = mode, MinConfidence = minConf,
          ProtectProduction = (case protect of Some b \<Rightarrow> b | None \<Rightarrow> True)\<rparr>)"

record AnalysisCandidate =
  ca_vuln :: string
  ca_host :: string
  ca_pkg :: string
  ca_severity :: string
  ca_cvss :: rat
  ca_exploited :: bool
  ca_environment :: string
  ca_criticality :: string

record VulnAnalysis =
  an_action :: string
  an_confidence :: rat
  an_note :: string
  an_reasoning :: string
  an_context :: string

text \<open>\<open>an_note\<close> and \<open>an_context\<close> are the texts formatted from the model's name and its answer.\<close>

definition policyRequest :: "AnalysisCandidate \<Rightarrow> VulnAnalysis \<Rightarrow> Request" where
  "policyRequest c a = \<lparr>ReqType = ''triage.suppress'', Confidence = an_confidence a, Suppressing = True,
     Severity = ca_severity c, CVSSScore = ca_cvss c, KnownExploited = ca_exploited c,
     Environment = ca_environment c, Criticality = ca_criticality c\<rparr>"

definition approvalSubject :: "AnalysisCandidate \<Rightarrow> string" where
  "approvalSubject c = ca_vuln c @ ''|'' @ ca_host c @ ''|'' @ ca_pkg c"

definition governAIAnalysisAction ::
    "decoder \<Rightarrow> encoder \<Rightarrow> (VulnerabilityTriage \<Rightarrow> bool) \<Rightarrow> Config \<Rightarrow> string \<Rightarrow> int
      \<Rightarrow> AnalysisCandidate \<Rightarrow> VulnAnalysis \<Rightarrow> aiState \<Rightarrow> bool \<times> aiState" where
  "governAIAnalysisAction decode encode upsertOk cfg newId now c a st =
     (let status = triageStatusForAction (an_action a) in
      if status = [] then (False, st)
      else
        let decision = Decide cfg (policyRequest c a);
            payload = encode \<lparr>VulnerabilityID = ca_vuln c, HostID = ca_host c, PkgName = ca_pkg c,
                        TriageStatus = status, Reason = an_note a, Comment = an_reasoning a\<rparr>
        in case DOutcome decision of
             OutcomeApply \<Rightarrow>
               (case executeAIAction decode upsertOk ''triage.suppress'' payload ''ai-analyzer'' st of
                  (Inl e, st') \<Rightarrow> (False, st')
                | (Inr _, st') \<Rightarrow> (True, st'\<lparr>audit := audit st' @ [(''ai_action.apply'', ca_vuln c)]\<rparr>))
           | OutcomeQueue \<Rightarrow>
               (case CreateAIApproval newId now
                       \<lparr>ap_id = [], action_type = ''triage.suppress'', subject = approvalSubject c, proposed = payload,
                        ap_context = an_context a, confidence = an_confidence a, rule_name = DRule decision,
                        ap_reason = DReason decision, ap_status = Pending, created_at = 0, decided_at = None,
                        decided_by = []\<rparr> st of
                  (Inl e, st') \<Rightarrow> (False, st')
                | (Inr _, st') \<Rightarrow> (False, st'\<lparr>audit := audit st' @ [(''ai_action.queued'', ca_vuln c)]\<rparr>))
           | OutcomeNone \<Rightarrow> (False, st))"

section \<open>The approval handlers\<close>

datatype reply = Unauthorized | DbError | Conflict | ExecutionFailed | Ok string

definition handleDecideAIApproval ::
    "decoder \<Rightarrow> (VulnerabilityTriage \<Rightarrow> bool) \<Rightarrow> bool \<Rightarrow> int \<Rightarrow> string \<Rightarrow> string \<Rightarrow> bool \<Rightarrow> aiState \<Rightarrow> reply \<times> aiState" where
  "handleDecideAIApproval decode upsertOk admin now pathId actor approve st =
     (if \<not> admin then (Unauthorized, st)
      else
        let k = TrimSpace pathId in
        if approve then
          (case ClaimAIApprovalForApproval now k actor st of
             (Inl e, st1) \<Rightarrow> (DbError, st1)
           | (Inr None, st1) \<Rightarrow> (Conflict, st1)
           | (Inr (Some (actionType, payload)), st1) \<Rightarrow>
               (case executeAIAction decode upsertOk actionType payload actor st1 of
                  (Inl e, st2) \<Rightarrow> (ExecutionFailed, snd (RevertAIApproval k st2))
                | (Inr _, st2) \<Rightarrow> (Ok ''approved'', st2\<lparr>audit := audit st2 @ [(''ai_action.approve'', k)]\<rparr>)))
        else
          (case RejectAIApproval now k actor st of
             (Inl e, st1) \<Rightarrow> (DbError, st1)
           | (Inr rejected, st1) \<Rightarrow>
               if \<not> rejected then (Conflict, st1)
               else (Ok ''rejected'', st1\<lparr>audit := audit st1 @ [(''ai_action.reject'', k)]\<rparr>)))"

section \<open>The unique index\<close>

definition keys_ok :: "AIApproval list \<Rightarrow> bool" where
  "keys_ok rows \<longleftrightarrow> distinct (map ap_id rows)
     \<and> distinct (map (\<lambda>a. (action_type a, subject a)) (filter is_pending rows))"

lemma unique_index_keys: "unique_index rows \<longleftrightarrow> keys_ok rows"
proof (induction rows)
  case (Cons a rows)
  have "list_all (\<lambda>b. ap_id b \<noteq> ap_id a \<and> \<not> (is_pending a \<and> is_pending b \<and> same_key a b)) rows \<longleftrightarrow>
      ap_id a \<notin> set (map ap_id rows) \<and>
      (is_pending a \<longrightarrow> (action_type a, subject a) \<notin> set (map (\<lambda>a. (action_type a, subject a)) (filter is_pending rows)))"
    by (induction rows) (auto simp: same_key_def)
  then show ?case using Cons by (auto simp: keys_ok_def simp del: set_map)
qed (simp add: keys_ok_def)

lemma row_of_id:
  assumes "keys_ok rows" "a \<in> set rows" "b \<in> set rows" "ap_id a = ap_id b"
  shows "a = b"
  using assms by (meson eq_key_imp_eq_value distinct_map inj_onD keys_ok_def)

lemma pending_of_key:
  assumes "keys_ok rows" "a \<in> set rows" "b \<in> set rows" "is_pending a" "is_pending b" "same_key a b"
  shows "a = b"
proof -
  have "inj_on (\<lambda>a. (action_type a, subject a)) (set (filter is_pending rows))"
    using assms(1) by (simp add: keys_ok_def distinct_map)
  then show ?thesis using assms(2-6) by (simp add: inj_on_def same_key_def)
qed

text \<open>Statements that take rows out of the pending state cannot break the index.\<close>

lemma leaves_pending_keys:
  assumes "keys_ok rows" "\<And>a. ap_id (f a) = ap_id a" "\<And>a. \<not> is_pending (f a)"
  shows "keys_ok (map (\<lambda>a. if P a then f a else a) rows)"
proof -
  let ?g = "\<lambda>a. if P a then f a else a"
  have ids: "map ap_id (map ?g rows) = map ap_id rows" using assms(2) by (simp cong: map_cong)
  have pend: "filter is_pending (map ?g rows) = filter (\<lambda>a. \<not> P a) (filter is_pending rows)"
    by (induction rows) (auto simp: assms(3))
  show ?thesis
    using assms(1) unfolding keys_ok_def ids pend by (blast intro: distinct_map_filter)
qed

lemma updateRows_leave:
  assumes "keys_ok (approvals st)" "\<And>a. ap_id (f a) = ap_id a" "\<And>a. \<not> is_pending (f a)"
  shows "updateRows P f st =
    (Inr (length (filter P (approvals st))), st\<lparr>approvals := map (\<lambda>a. if P a then f a else a) (approvals st)\<rparr>)"
  using leaves_pending_keys [OF assms] by (simp add: updateRows_def unique_index_keys)

lemma updateRows_keys:
  "updateRows P f st = (r, st') \<Longrightarrow> keys_ok (approvals st) \<Longrightarrow> keys_ok (approvals st')"
  by (auto simp: updateRows_def Let_def unique_index_keys split: if_splits)

lemma refreshRow_same [simp]:
  "ap_id (refreshRow now row b) = ap_id b" "is_pending (refreshRow now row b) = is_pending b"
  "action_type (refreshRow now row b) = action_type b" "subject (refreshRow now row b) = subject b"
  "ap_status (refreshRow now row b) = ap_status b"
  by (simp_all add: refreshRow_def is_pending_def)

lemma approvalRow_fields [simp]:
  "ap_id (approvalRow newId now a) = newId" "is_pending (approvalRow newId now a)"
  "action_type (approvalRow newId now a) = action_type a" "subject (approvalRow newId now a) = subject a"
  by (simp_all add: approvalRow_def is_pending_def)

lemma refreshRow_keys: "keys_ok (map (refreshRow now row) rows) = keys_ok rows"
  by (simp add: keys_ok_def comp_def filter_map)

lemma CreateAIApproval_cases:
  obtains (refresh) b where "b \<in> set (approvals st)" "is_pending b" "same_key b (approvalRow newId now a)"
      "CreateAIApproval newId now a st =
        (Inr (), st\<lparr>approvals := map (refreshRow now (approvalRow newId now a)) (approvals st)\<rparr>)"
    | (taken) "CreateAIApproval newId now a st = (Inl UniqueViolation, st)"
        "\<exists>b \<in> set (approvals st). ap_id b = newId"
    | (fresh) "\<forall>b \<in> set (approvals st). \<not> (is_pending b \<and> same_key b (approvalRow newId now a))"
        "\<forall>b \<in> set (approvals st). ap_id b \<noteq> newId"
        "CreateAIApproval newId now a st = (Inr (), st\<lparr>approvals := approvals st @ [approvalRow newId now a]\<rparr>)"
proof -
  let ?key = "\<lambda>b. is_pending b \<and> same_key b (approvalRow newId now a)"
  show thesis
  proof (cases "list_ex ?key (approvals st)")
    case True
    then show thesis using refresh by (auto simp: CreateAIApproval_def Let_def list_ex_iff)
  next
    case no_key: False
    show thesis
    proof (cases "list_ex (\<lambda>b. ap_id b = newId) (approvals st)")
      case True
      then show thesis using taken no_key by (simp add: CreateAIApproval_def Let_def list_ex_iff)
    next
      case False
      then show thesis using no_key by (intro fresh) (auto simp: CreateAIApproval_def Let_def list_ex_iff)
    qed
  qed
qed

lemma CreateAIApproval_keys:
  assumes "keys_ok (approvals st)"
  shows "keys_ok (approvals (snd (CreateAIApproval newId now a st)))"
proof (cases rule: CreateAIApproval_cases [of st newId now a])
  case (refresh b)
  then show ?thesis using assms by (simp add: refreshRow_keys)
next
  case taken
  then show ?thesis using assms by simp
next
  case fresh
  then show ?thesis using assms by (auto simp: keys_ok_def same_key_def)
qed

section \<open>Properties of the operations\<close>

lemma upsert_suppressing:
  assumes "VulnerabilityID p \<noteq> []" "TriageStatus p = ''accepted_risk'' \<or> TriageStatus p = ''false_positive''"
  shows "UpsertVulnerabilityTriage stmtOk (triageOf actor p) ts =
    (if stmtOk then Inr (triageOf actor p, upsertTriageRow (triageOf actor p) ts) else Inl StatementFailed)"
  using assms by (auto simp: UpsertVulnerabilityTriage_def triageOf_def Let_def)

lemma executeAIAction_cases:
  obtains (fail) e where "executeAIAction decode upsertOk actionType payload actor st = (Inl e, st)"
    | (ok) p where "decode payload = Some p" "VulnerabilityID p \<noteq> []"
        "TriageStatus p \<in> {''accepted_risk'', ''false_positive''}"
        "executeAIAction decode upsertOk actionType payload actor st =
          (Inr (), st\<lparr>triages := upsertTriageRow (triageOf actor p) (triages st),
                      rebuilt := rebuilt st @ [triageOf actor p]\<rparr>)"
proof -
  let ?r = "executeAIAction decode upsertOk actionType payload actor st"
  have "(\<exists>e. ?r = (Inl e, st)) \<or>
      (\<exists>p. decode payload = Some p \<and> VulnerabilityID p \<noteq> [] \<and> TriageStatus p \<in> {''accepted_risk'', ''false_positive''} \<and>
        ?r = (Inr (), st\<lparr>triages := upsertTriageRow (triageOf actor p) (triages st),
                          rebuilt := rebuilt st @ [triageOf actor p]\<rparr>))"
    by (auto simp: executeAIAction_def Let_def upsert_suppressing split: option.split)
  then show thesis using fail ok by blast
qed

text \<open>The executor cannot be misused: whatever payload is stored, an execution either fails and
  changes nothing, or writes exactly one triage, which names a vulnerability and has one of the two
  suppressing statuses, replaces only a triage of the same finding, and leaves the approvals alone.\<close>

theorem executeAIAction_guarded:
  "case executeAIAction decode upsertOk actionType payload actor st of
     (Inl e, st') \<Rightarrow> st' = st
   | (Inr _, st') \<Rightarrow>
       (\<exists>t. t \<in> set (triages st') \<and> tr_vuln t \<noteq> [] \<and> tr_status t \<in> {''accepted_risk'', ''false_positive''}
          \<and> tr_updated_by t = actor
          \<and> (\<forall>u \<in> set (triages st'). u = t \<or> u \<in> set (triages st))
          \<and> (\<forall>u \<in> set (triages st). u \<in> set (triages st') \<or> tr_vuln u = tr_vuln t \<and> tr_host u = tr_host t \<and> tr_pkg u = tr_pkg t)
          \<and> rebuilt st' = rebuilt st @ [t])
       \<and> approvals st' = approvals st \<and> audit st' = audit st"
proof (cases rule: executeAIAction_cases [of decode upsertOk actionType payload actor st])
  case (ok p)
  define t where "t = triageOf actor p"
  have t: "tr_vuln t \<noteq> []" "tr_status t \<in> {''accepted_risk'', ''false_positive''}" "tr_updated_by t = actor"
    using ok by (auto simp: t_def triageOf_def)
  have up: "t \<in> set (upsertTriageRow t ts)"
    "\<forall>u \<in> set (upsertTriageRow t ts). u = t \<or> u \<in> set ts"
    "\<forall>u \<in> set ts. u \<in> set (upsertTriageRow t ts) \<or>
       tr_vuln u = tr_vuln t \<and> tr_host u = tr_host t \<and> tr_pkg u = tr_pkg t" for ts
    by (auto simp: upsertTriageRow_def Let_def list_ex_iff)
  from ok(4) show ?thesis
    unfolding t_def [symmetric] using t up [of "triages st"] by auto
qed simp

lemma executeAIAction_guarded_witness:
  "\<exists>t. tr_status t = ''accepted_risk'' \<and> t \<in> set (triages (snd (executeAIAction
     (\<lambda>_. Some \<lparr>VulnerabilityID = ''CVE-1'', HostID = ''h'', PkgName = ''p'', TriageStatus = ''accepted_risk'',
                Reason = [], Comment = []\<rparr>)
     (\<lambda>_. True) ''triage.suppress'' ''x'' ''admin'' \<lparr>approvals = [], triages = [], rebuilt = [], audit = []\<rparr>)))"
  using executeAIAction_guarded [where decode = "\<lambda>_. Some \<lparr>VulnerabilityID = ''CVE-1'', HostID = ''h'', PkgName = ''p'',
      TriageStatus = ''accepted_risk'', Reason = [], Comment = []\<rparr>" and upsertOk = "\<lambda>_. True"
      and actionType = "''triage.suppress''" and payload = "''x''" and actor = "''admin''"
      and st = "\<lparr>approvals = [], triages = [], rebuilt = [], audit = []\<rparr>"]
  by (simp add: executeAIAction_def Let_def triageOf_def UpsertVulnerabilityTriage_def upsertTriageRow_def)

text \<open>The AI never touches a finding that needs a human: for a known-exploited or critical candidate
  the gate applies nothing, queues nothing and records nothing, under every configuration and for every
  recommendation of the model.\<close>

theorem governAIAnalysisAction_hard_safety:
  assumes "ca_exploited c \<or> EqualFold (TrimSpace (ca_severity c)) ''critical'' \<or> 9 \<le> ca_cvss c"
  shows "governAIAnalysisAction decode encode upsertOk cfg newId now c a st = (False, st)"
  using assms
  by (auto simp: governAIAnalysisAction_def Let_def Decide_outcome needs_human_def policyRequest_def isCritical_def)

theorem governAIAnalysisAction_hard_safety_witness:
  "governAIAnalysisAction (\<lambda>_. None) (\<lambda>p. Reason p) (\<lambda>_. True) (aiPolicy ''auto'' None None None) ''7'' 5
     \<lparr>ca_vuln = ''CVE-2024-3094'', ca_host = ''h1'', ca_pkg = ''xz'', ca_severity = ''HIGH'', ca_cvss = 8,
      ca_exploited = True, ca_environment = ''dev'', ca_criticality = ''low''\<rparr>
     \<lparr>an_action = ''false_positive'', an_confidence = 1, an_note = [], an_reasoning = [], an_context = []\<rparr>
     \<lparr>approvals = [], triages = [], rebuilt = [], audit = []\<rparr>
   = (False, \<lparr>approvals = [], triages = [], rebuilt = [], audit = []\<rparr>)"
  by (rule governAIAnalysisAction_hard_safety) simp

text \<open>Queueing never piles up duplicates: on a consistent table it keeps all ids and all pending keys
  unique, and after a successful call exactly one pending row carries the action's type and subject, with
  the payload just proposed; the other rows are as before.\<close>

theorem CreateAIApproval_dedup:
  assumes "keys_ok (approvals st)" "CreateAIApproval newId now a st = (Inr (), st')"
  shows "keys_ok (approvals st')
    \<and> (\<exists>!b. b \<in> set (approvals st') \<and> is_pending b \<and> same_key b a)
    \<and> (\<forall>b \<in> set (approvals st'). is_pending b \<and> same_key b a
         \<longrightarrow> proposed b = (if proposed a = [] then ''{}'' else proposed a) \<and> created_at b = now)
    \<and> (\<forall>b \<in> set (approvals st). \<not> (is_pending b \<and> same_key b a) \<longrightarrow> b \<in> set (approvals st'))"
proof -
  define row where "row = approvalRow newId now a"
  have key: "same_key b row = same_key b a" for b by (simp add: same_key_def row_def)
  have row: "is_pending row" "same_key row a" "proposed row = (if proposed a = [] then ''{}'' else proposed a)"
    "created_at row = now" by (simp_all add: row_def approvalRow_def is_pending_def same_key_def)
  have keys: "keys_ok (approvals st')"
    using CreateAIApproval_keys [OF assms(1), of newId now a] assms(2) by simp
  have upd: "proposed (refreshRow now row b) = proposed row \<and> created_at (refreshRow now row b) = now"
    if "is_pending b" "same_key b a" for b using that key by (simp add: refreshRow_def)
  have same: "refreshRow now row b = b" if "\<not> (is_pending b \<and> same_key b a)" for b
    using that key [of b] by (auto simp: refreshRow_def)
  have uniq: "b = c" if "b \<in> set (approvals st')" "c \<in> set (approvals st')" "is_pending b" "is_pending c"
    "same_key b a" "same_key c a" for b c
    using pending_of_key [OF keys that(1-4)] that(5,6) by (simp add: same_key_def)
  have main: "(\<exists>b \<in> set (approvals st'). is_pending b \<and> same_key b a)
    \<and> (\<forall>b \<in> set (approvals st'). is_pending b \<and> same_key b a \<longrightarrow> proposed b = proposed row \<and> created_at b = now)
    \<and> (\<forall>b \<in> set (approvals st). \<not> (is_pending b \<and> same_key b a) \<longrightarrow> b \<in> set (approvals st'))"
  proof (cases rule: CreateAIApproval_cases [of st newId now a])
    case (refresh b)
    then have st': "approvals st' = map (refreshRow now row) (approvals st)" using assms(2) by (auto simp: row_def)
    have "is_pending (refreshRow now row c) = is_pending c" "same_key (refreshRow now row c) a = same_key c a" for c
      by (simp_all add: same_key_def)
    then show ?thesis
      using refresh(1-3) key upd same unfolding st' row_def [symmetric] by (auto simp: image_iff) metis+
  next
    case taken
    then show ?thesis using assms(2) by simp
  next
    case fresh
    then have st': "approvals st' = approvals st @ [row]" using assms(2) by (auto simp: row_def)
    then show ?thesis using fresh(1) row key by (auto simp: row_def [symmetric])
  qed
  have "\<exists>!b. b \<in> set (approvals st') \<and> is_pending b \<and> same_key b a"
    using main uniq by (intro ex_ex1I) blast+
  then show ?thesis using keys main unfolding row(3) by blast
qed

theorem CreateAIApproval_dedup_witness:
  "let a = \<lparr>ap_id = [], action_type = ''triage.suppress'', subject = ''CVE-1|h|p'', proposed = ''x'', ap_context = [],
       confidence = 1, rule_name = [], ap_reason = [], ap_status = Pending, created_at = 0, decided_at = None,
       decided_by = []\<rparr>
   in keys_ok (approvals (snd (CreateAIApproval ''7'' 5 a \<lparr>approvals = [], triages = [], rebuilt = [], audit = []\<rparr>)))"
proof -
  let ?a = "\<lparr>ap_id = [], action_type = ''triage.suppress'', subject = ''CVE-1|h|p'', proposed = ''x'', ap_context = [],
       confidence = 1, rule_name = [], ap_reason = [], ap_status = Pending, created_at = 0, decided_at = None,
       decided_by = []\<rparr>"
  let ?st = "\<lparr>approvals = [], triages = [], rebuilt = [], audit = []\<rparr> :: aiState"
  have "CreateAIApproval ''7'' 5 ?a ?st = (Inr (), snd (CreateAIApproval ''7'' 5 ?a ?st))"
    by (simp add: CreateAIApproval_def Let_def)
  moreover have "keys_ok (approvals ?st)" by (simp add: keys_ok_def)
  ultimately show ?thesis unfolding Let_def using CreateAIApproval_dedup by blast
qed

section \<open>Concurrent approvers\<close>

text \<open>
  Requests run concurrently; each SQL statement is atomic. The state below adds the executions under
  way (approval id, its action, its approver) and the ids whose action was carried out.
\<close>

record world =
  wdb :: aiState
  running :: "(string \<times> (string \<times> string) \<times> string) list"
  executed :: "string list"

inductive ai_step :: "decoder \<Rightarrow> (VulnerabilityTriage \<Rightarrow> bool) \<Rightarrow> world \<Rightarrow> world \<Rightarrow> bool"
  for decode :: decoder and upsertOk :: "VulnerabilityTriage \<Rightarrow> bool" where
  queue: "ai_step decode upsertOk w (w\<lparr>wdb := snd (CreateAIApproval newId now a (wdb w))\<rparr>)"
| claim: "ClaimAIApprovalForApproval now k actor (wdb w) = (Inr (Some act), st') \<Longrightarrow>
    ai_step decode upsertOk w (w\<lparr>wdb := st', running := (k, act, actor) # running w\<rparr>)"
| finish: "(k, (ty, pl), actor) \<in> set (running w) \<Longrightarrow>
    executeAIAction decode upsertOk ty pl actor (wdb w) = (Inr (), st') \<Longrightarrow>
    ai_step decode upsertOk w
      (w\<lparr>wdb := st', running := filter (\<lambda>r. fst r \<noteq> k) (running w), executed := k # executed w\<rparr>)"
| fail: "(k, (ty, pl), actor) \<in> set (running w) \<Longrightarrow>
    executeAIAction decode upsertOk ty pl actor (wdb w) = (Inl e, st') \<Longrightarrow>
    ai_step decode upsertOk w
      (w\<lparr>wdb := snd (RevertAIApproval k st'), running := filter (\<lambda>r. fst r \<noteq> k) (running w)\<rparr>)"
| reject: "ai_step decode upsertOk w (w\<lparr>wdb := snd (RejectAIApproval now k actor (wdb w))\<rparr>)"

inductive_cases ai_stepE: "ai_step decode upsertOk w w'"

inductive ai_reachable :: "decoder \<Rightarrow> (VulnerabilityTriage \<Rightarrow> bool) \<Rightarrow> world \<Rightarrow> bool"
  for decode :: decoder and upsertOk :: "VulnerabilityTriage \<Rightarrow> bool" where
  start: "keys_ok (approvals st) \<Longrightarrow> ai_reachable decode upsertOk \<lparr>wdb = st, running = [], executed = []\<rparr>"
| step: "ai_reachable decode upsertOk w \<Longrightarrow> ai_step decode upsertOk w w' \<Longrightarrow> ai_reachable decode upsertOk w'"

definition approved_ids :: "aiState \<Rightarrow> string set" where
  "approved_ids st = ap_id ` {a \<in> set (approvals st). ap_status a = Approved}"

lemma approved_ids_list: "approved_ids st = set (map ap_id (filter (\<lambda>a. ap_status a = Approved) (approvals st)))"
  by (simp add: approved_ids_def)

definition exclusive :: "world \<Rightarrow> bool" where
  "exclusive w \<longleftrightarrow> keys_ok (approvals (wdb w))
     \<and> distinct (map fst (running w) @ executed w)
     \<and> set (map fst (running w) @ executed w) \<subseteq> approved_ids (wdb w)"

lemma approved_not_pending: "keys_ok (approvals st) \<Longrightarrow> a \<in> set (approvals st) \<Longrightarrow> is_pending a \<Longrightarrow> ap_id a \<notin> approved_ids st"
  using row_of_id [of "approvals st"] by (fastforce simp: approved_ids_def is_pending_def)

lemma updateRows_ids:
  assumes "updateRows P f st = (r, st')" "\<And>a. ap_id (f a) = ap_id a"
    and "\<And>a. a \<in> set (approvals st) \<Longrightarrow> P a \<Longrightarrow> ap_status a = Approved \<Longrightarrow> ap_id a \<notin> keep"
  shows "approved_ids st \<inter> keep \<subseteq> approved_ids st'"
  using assms
  by (fastforce simp: updateRows_def Let_def approved_ids_def image_iff split: if_splits)

lemma Claim_effect:
  assumes "keys_ok (approvals st)" "ClaimAIApprovalForApproval now k actor st = (Inr (Some act), st')"
  shows "keys_ok (approvals st') \<and> approved_ids st \<subseteq> approved_ids st' \<and> k \<in> approved_ids st' \<and> k \<notin> approved_ids st"
proof -
  let ?P = "\<lambda>a. ap_id a = k \<and> is_pending a"
  let ?f = "\<lambda>a. a\<lparr>ap_status := Approved, decided_at := Some now, decided_by := actor\<rparr>"
  have up: "updateRows ?P ?f st = (Inr (length (filter ?P (approvals st))),
      st\<lparr>approvals := map (\<lambda>a. if ?P a then ?f a else a) (approvals st)\<rparr>)"
    by (rule updateRows_leave [OF assms(1)]) (simp_all add: is_pending_def)
  then have st': "st' = st\<lparr>approvals := map (\<lambda>a. if ?P a then ?f a else a) (approvals st)\<rparr>"
    and "find ?P (approvals st) \<noteq> None"
    using assms(2) by (auto simp: ClaimAIApprovalForApproval_def Let_def)
  then obtain a where a: "a \<in> set (approvals st)" "ap_id a = k" "is_pending a" by (auto simp: find_None_iff)
  have "keys_ok (approvals st')" by (rule updateRows_keys [OF up [folded st'] assms(1)])
  moreover have "approved_ids st \<subseteq> approved_ids st'"
    using updateRows_ids [OF up, of UNIV] unfolding st' by (auto simp: is_pending_def)
  moreover have "?f a \<in> set (approvals st')" using a by (force simp: st')
  then have "k \<in> approved_ids st'" unfolding approved_ids_def using a(2) by (auto intro: rev_image_eqI)
  moreover have "k \<notin> approved_ids st" using approved_not_pending [OF assms(1) a(1,3)] a(2) by simp
  ultimately show ?thesis by blast
qed

lemma Create_approved: "approved_ids st \<subseteq> approved_ids (snd (CreateAIApproval newId now a st))"
  by (cases rule: CreateAIApproval_cases [of st newId now a])
    (simp_all add: approved_ids_list filter_map comp_def)

lemma Reject_effect:
  assumes "keys_ok (approvals st)"
  shows "keys_ok (approvals (snd (RejectAIApproval now k actor st)))
    \<and> approved_ids st \<subseteq> approved_ids (snd (RejectAIApproval now k actor st))"
proof -
  obtain r st' where up: "rejectStatement now actor k st = (r, st')" by (rule prod.exhaust)
  have "snd (RejectAIApproval now k actor st) = st'"
    using up by (auto simp: RejectAIApproval_def split: sum.splits)
  moreover have "keys_ok (approvals st')" using up updateRows_keys assms unfolding rejectStatement_def by blast
  moreover have "approved_ids st \<inter> UNIV \<subseteq> approved_ids st'"
    by (rule updateRows_ids [OF up [unfolded rejectStatement_def]]) (auto simp: is_pending_def)
  ultimately show ?thesis by simp
qed

lemma Revert_effect:
  assumes "keys_ok (approvals st)"
  shows "keys_ok (approvals (snd (RevertAIApproval k st)))
    \<and> approved_ids st - {k} \<subseteq> approved_ids (snd (RevertAIApproval k st))"
proof -
  obtain r st' where up: "RevertAIApproval k st = (r, st')" by (rule prod.exhaust)
  have "keys_ok (approvals st')" using up updateRows_keys assms unfolding RevertAIApproval_def by blast
  moreover have "approved_ids st \<inter> - {k} \<subseteq> approved_ids st'"
    by (rule updateRows_ids [OF up [unfolded RevertAIApproval_def]]) auto
  ultimately show ?thesis using up by auto
qed

lemma exec_approvals: "executeAIAction decode upsertOk ty pl actor st = (r, st') \<Longrightarrow> approvals st' = approvals st"
  by (cases rule: executeAIAction_cases [of decode upsertOk ty pl actor st]) auto

lemma distinct_move:
  "distinct (map fst rs @ es) \<Longrightarrow> k \<in> fst ` set rs \<Longrightarrow> distinct (map fst (filter (\<lambda>r. fst r \<noteq> k) rs) @ k # es)"
  by (auto simp: distinct_map_filter)

lemma exclusive_step:
  assumes "ai_step decode upsertOk w w'" "exclusive w"
  shows "exclusive w'"
  using assms(1)
proof cases
  case (queue newId now a)
  then show ?thesis
    using assms(2) CreateAIApproval_keys [of "wdb w" newId now a] Create_approved [of "wdb w" newId now a]
    unfolding exclusive_def by auto
next
  case (claim now k actor act st')
  have keys: "keys_ok (approvals (wdb w))" using assms(2) by (simp add: exclusive_def)
  have k: "k \<notin> set (map fst (running w) @ executed w)"
    using Claim_effect [OF keys claim(2)] assms(2) unfolding exclusive_def by blast
  show ?thesis
    using assms(2) Claim_effect [OF keys claim(2)] k unfolding claim(1) exclusive_def by auto
next
  case (finish k ty pl actor st')
  have ap: "approvals st' = approvals (wdb w)" by (rule exec_approvals [OF finish(3)])
  then have ids: "approved_ids st' = approved_ids (wdb w)" by (simp add: approved_ids_def)
  have k: "k \<in> fst ` set (running w)" using finish(2) by force
  have "distinct (map fst (filter (\<lambda>r. fst r \<noteq> k) (running w)) @ k # executed w)"
    using assms(2) k by (intro distinct_move) (simp_all add: exclusive_def)
  then show ?thesis
    using assms(2) k ap ids finish(1) by (auto simp: exclusive_def)
next
  case (fail k ty pl actor e st')
  have ap: "approvals st' = approvals (wdb w)" by (rule exec_approvals [OF fail(3)])
  then have ids: "approved_ids st' = approved_ids (wdb w)" by (simp add: approved_ids_def)
  have k: "k \<in> fst ` set (running w)" using fail(2) by force
  have "distinct (map fst (filter (\<lambda>r. fst r \<noteq> k) (running w)) @ k # executed w)"
    using assms(2) k by (intro distinct_move) (simp_all add: exclusive_def)
  then have d: "distinct (map fst (filter (\<lambda>r. fst r \<noteq> k) (running w)) @ executed w)"
    and "k \<notin> set (executed w)" by auto
  then show ?thesis
    using assms(2) Revert_effect [of st' k] ap ids fail(1) unfolding exclusive_def by auto
next
  case (reject now k actor)
  then show ?thesis
    using assms(2) Reject_effect [of "wdb w" now k actor] by (auto simp: exclusive_def)
qed

text \<open>C10: no double execution: however approvals, rejections, failures and new proposals interleave, the
  approvals under execution are pairwise different, none of them was carried out before, no approval is
  carried out twice, and all of them stand as approved in the table.\<close>

theorem approvals_execute_once:
  assumes "ai_reachable decode upsertOk w"
  shows "distinct (map fst (running w) @ executed w)
    \<and> (\<forall>k \<in> set (map fst (running w) @ executed w).
         \<exists>a \<in> set (approvals (wdb w)). ap_id a = k \<and> ap_status a = Approved)"
proof -
  have "exclusive w" using assms
  proof (induction rule: ai_reachable.induct)
    case (start st)
    then show ?case by (simp add: exclusive_def)
  next
    case (step w w')
    then show ?case using exclusive_step by blast
  qed
  then show ?thesis unfolding exclusive_def approved_ids_def by blast
qed

theorem approvals_execute_once_witness:
  "let row = \<lparr>ap_id = ''1'', action_type = ''triage.suppress'', subject = ''s'', proposed = ''x'', ap_context = [],
       confidence = 1, rule_name = [], ap_reason = [], ap_status = Pending, created_at = 0, decided_at = None,
       decided_by = []\<rparr>;
       w = \<lparr>wdb = \<lparr>approvals = [row\<lparr>ap_status := Approved, decided_at := Some 3, decided_by := ''ann''\<rparr>],
                   triages = [], rebuilt = [], audit = []\<rparr>,
            running = [(''1'', (''triage.suppress'', ''x''), ''ann'')], executed = []\<rparr>
   in distinct (map fst (running w) @ executed w)"
proof -
  let ?row = "\<lparr>ap_id = ''1'', action_type = ''triage.suppress'', subject = ''s'', proposed = ''x'', ap_context = [],
       confidence = 1, rule_name = [], ap_reason = [], ap_status = Pending, created_at = 0, decided_at = None,
       decided_by = []\<rparr>"
  let ?st = "\<lparr>approvals = [?row], triages = [], rebuilt = [], audit = []\<rparr>"
  let ?st' = "\<lparr>approvals = [?row\<lparr>ap_status := Approved, decided_at := Some 3, decided_by := ''ann''\<rparr>],
     triages = [], rebuilt = [], audit = []\<rparr>"
  have "ai_reachable (\<lambda>_. None) (\<lambda>_. True) \<lparr>wdb = ?st, running = [], executed = []\<rparr>"
    by (rule ai_reachable.start) (simp add: keys_ok_def)
  moreover have "ClaimAIApprovalForApproval 3 ''1'' ''ann'' ?st = (Inr (Some (''triage.suppress'', ''x'')), ?st')"
    by (simp add: ClaimAIApprovalForApproval_def updateRows_def Let_def is_pending_def)
  then have "ai_step (\<lambda>_. None) (\<lambda>_. True) \<lparr>wdb = ?st, running = [], executed = []\<rparr>
      \<lparr>wdb = ?st', running = [(''1'', (''triage.suppress'', ''x''), ''ann'')], executed = []\<rparr>"
    using ai_step.claim [of 3 "''1''" "''ann''" "\<lparr>wdb = ?st, running = [], executed = []\<rparr>"] by simp
  ultimately have "ai_reachable (\<lambda>_. None) (\<lambda>_. True)
      \<lparr>wdb = ?st', running = [(''1'', (''triage.suppress'', ''x''), ''ann'')], executed = []\<rparr>"
    by (rule ai_reachable.step)
  from approvals_execute_once [OF this] show ?thesis unfolding Let_def by (rule conjunct1)
qed

section \<open>The handlers\<close>

text \<open>Pending rows carry no decision: they were inserted, or reverted, that way.\<close>

definition pending_undecided :: "aiState \<Rightarrow> bool" where
  "pending_undecided st = list_all (\<lambda>a. is_pending a \<longrightarrow> decided_at a = None \<and> decided_by a = []) (approvals st)"

lemma claim_then_revert:
  assumes keys: "keys_ok (approvals st)" and und: "pending_undecided st"
    and claim: "ClaimAIApprovalForApproval now k actor st = (Inr (Some act), st1)"
  shows "snd (RevertAIApproval k st1) = st"
proof -
  let ?P = "\<lambda>a. ap_id a = k \<and> is_pending a"
  let ?f = "\<lambda>a. a\<lparr>ap_status := Approved, decided_at := Some now, decided_by := actor\<rparr>"
  let ?g = "\<lambda>a. a\<lparr>ap_status := Pending, decided_at := None, decided_by := []\<rparr>"
  have up: "updateRows ?P ?f st = (Inr (length (filter ?P (approvals st))),
      st\<lparr>approvals := map (\<lambda>a. if ?P a then ?f a else a) (approvals st)\<rparr>)"
    by (rule updateRows_leave [OF keys]) (simp_all add: is_pending_def)
  then have st1: "st1 = st\<lparr>approvals := map (\<lambda>a. if ?P a then ?f a else a) (approvals st)\<rparr>"
    and "find ?P (approvals st) \<noteq> None"
    using claim by (auto simp: ClaimAIApprovalForApproval_def Let_def)
  then obtain c where c: "c \<in> set (approvals st)" "ap_id c = k" "is_pending c" by (auto simp: find_None_iff)
  have "(if ap_id x = k \<and> ap_status x = Approved then ?g x else x) = a"
    if a: "a \<in> set (approvals st)" and x: "x = (if ?P a then ?f a else a)" for a x
  proof (cases "?P a")
    case True
    then have "decided_at a = None" "decided_by a = []" "ap_status a = Pending"
      using und a by (auto simp: pending_undecided_def list_all_iff is_pending_def)
    then have "?g (?f a) = a" by simp
    then show ?thesis using True x by simp
  next
    case False
    then have "ap_id a \<noteq> k" using row_of_id [OF keys a c(1)] c by auto
    then show ?thesis using x False by simp
  qed
  then have restored: "map (\<lambda>x. if ap_id x = k \<and> ap_status x = Approved then ?g x else x) (approvals st1) = approvals st"
    unfolding st1 by (simp add: comp_def map_idI)
  then have "RevertAIApproval k st1 = (Inr (length (filter (\<lambda>a. ap_id a = k \<and> ap_status a = Approved) (approvals st1))),
      st1\<lparr>approvals := approvals st\<rparr>)"
    using keys unfolding RevertAIApproval_def updateRows_def Let_def by (simp add: unique_index_keys)
  then show ?thesis by (simp add: st1)
qed

text \<open>A failed approval changes nothing: when the approved action cannot be executed, the claim is
  rolled back and the whole state (approvals, triages, audit) is exactly what it was, so the approval can
  be decided again.\<close>

theorem failed_approval_restores:
  assumes "keys_ok (approvals st)" "pending_undecided st"
    and "handleDecideAIApproval decode upsertOk admin now pathId actor True st = (ExecutionFailed, st')"
  shows "st' = st"
proof -
  obtain act st1 where claim: "ClaimAIApprovalForApproval now (TrimSpace pathId) actor st = (Inr (Some act), st1)"
    and st': "st' = snd (RevertAIApproval (TrimSpace pathId) st1)"
  proof -
    obtain r st1 where c: "ClaimAIApprovalForApproval now (TrimSpace pathId) actor st = (r, st1)" by (rule prod.exhaust)
    moreover obtain ty pl where "r = Inr (Some (ty, pl))"
      using assms(3) c by (auto simp: handleDecideAIApproval_def Let_def split: if_splits sum.splits option.splits)
    moreover have "st' = snd (RevertAIApproval (TrimSpace pathId) st1)"
      using assms(3) c \<open>r = Inr (Some (ty, pl))\<close>
      by (cases rule: executeAIAction_cases [of decode upsertOk ty pl actor st1])
        (auto simp: handleDecideAIApproval_def Let_def split: if_splits)
    ultimately show thesis using that by blast
  qed
  show ?thesis unfolding st' by (rule claim_then_revert [OF assms(1,2) claim])
qed

theorem failed_approval_restores_witness:
  "let row = \<lparr>ap_id = ''1'', action_type = ''triage.suppress'', subject = ''s'', proposed = ''x'', ap_context = [],
       confidence = 1, rule_name = [], ap_reason = [], ap_status = Pending, created_at = 0, decided_at = None,
       decided_by = []\<rparr>;
       st = \<lparr>approvals = [row], triages = [], rebuilt = [], audit = []\<rparr>
   in snd (handleDecideAIApproval (\<lambda>_. None) (\<lambda>_. True) True 3 ''1'' ''ann'' True st) = st"
proof -
  let ?row = "\<lparr>ap_id = ''1'', action_type = ''triage.suppress'', subject = ''s'', proposed = ''x'', ap_context = [],
       confidence = 1, rule_name = [], ap_reason = [], ap_status = Pending, created_at = 0, decided_at = None,
       decided_by = []\<rparr>"
  let ?st = "\<lparr>approvals = [?row], triages = [], rebuilt = [], audit = []\<rparr>"
  let ?r = "handleDecideAIApproval (\<lambda>_. None) (\<lambda>_. True) True 3 ''1'' ''ann'' True ?st"
  have "TrimSpace ''1'' = ''1''" by code_simp
  then have "?r = (ExecutionFailed, snd ?r)"
    by (simp add: handleDecideAIApproval_def ClaimAIApprovalForApproval_def updateRows_def Let_def is_pending_def
        executeAIAction_def)
  moreover have "keys_ok (approvals ?st)" "pending_undecided ?st"
    by (simp_all add: keys_ok_def pending_undecided_def)
  ultimately show ?thesis unfolding Let_def using failed_approval_restores by blast
qed

text \<open>Rejecting is a no-op: because the decider and the id reach the statement in swapped positions, a
  reject request leaves every approval as it is and answers with a conflict, unless the deciding user's
  name happens to be the id of an approval.\<close>

theorem reject_has_no_effect:
  assumes "keys_ok (approvals st)" "\<forall>a \<in> set (approvals st). ap_id a \<noteq> actor"
  shows "handleDecideAIApproval decode upsertOk True now pathId actor False st = (Conflict, st)"
proof -
  have same: "map (\<lambda>a. if ap_id a = actor \<and> is_pending a
      then a\<lparr>ap_status := Rejected, decided_at := Some now, decided_by := TrimSpace pathId\<rparr> else a) (approvals st) = approvals st"
    using assms(2) by (simp add: map_idI)
  have none: "filter (\<lambda>a. ap_id a = actor \<and> is_pending a) (approvals st) = []"
    using assms(2) by (simp add: filter_empty_conv)
  show ?thesis
    unfolding handleDecideAIApproval_def RejectAIApproval_def rejectStatement_def updateRows_def Let_def same none
    using assms(1) by (simp add: unique_index_keys)
qed

theorem reject_has_no_effect_witness:
  "let row = \<lparr>ap_id = ''1'', action_type = ''triage.suppress'', subject = ''s'', proposed = ''x'', ap_context = [],
       confidence = 1, rule_name = [], ap_reason = [], ap_status = Pending, created_at = 0, decided_at = None,
       decided_by = []\<rparr>;
       st = \<lparr>approvals = [row], triages = [], rebuilt = [], audit = []\<rparr>
   in handleDecideAIApproval (\<lambda>_. None) (\<lambda>_. True) True 3 ''1'' ''ann'' False st = (Conflict, st)"
  unfolding Let_def by (rule reject_has_no_effect) (simp_all add: keys_ok_def)

text \<open>
  Rolling a claim back can fail: if the same finding was proposed again in the meantime, the second
  pending row breaks the unique index and the first stays approved although its action never ran.
\<close>

lemma revert_blocked_by_requeue:
  assumes "keys_ok (approvals st)" "a \<in> set (approvals st)" "ap_status a = Approved"
    "b \<in> set (approvals st)" "is_pending b" "same_key a b"
  shows "RevertAIApproval (ap_id a) st = (Inl UniqueViolation, st)"
proof -
  define g :: "AIApproval \<Rightarrow> AIApproval" where "g = (\<lambda>x. if ap_id x = ap_id a \<and> ap_status x = Approved
     then x\<lparr>ap_status := Pending, decided_at := None, decided_by := []\<rparr> else x)"
  have ne: "ap_id a \<noteq> ap_id b"
    using row_of_id [OF assms(1,2,4)] assms(3,5) by (auto simp: is_pending_def)
  have rows: "g a \<in> set (map g (approvals st))" "g b \<in> set (map g (approvals st))"
    using assms(2,4) by simp_all
  have clash: "is_pending (g a)" "is_pending (g b)" "same_key (g a) (g b)" "ap_id (g a) \<noteq> ap_id (g b)"
    using assms ne by (auto simp: g_def is_pending_def same_key_def)
  have "\<not> keys_ok (map g (approvals st))"
    using pending_of_key [OF _ rows clash(1-3)] clash(4) by auto
  then show ?thesis
    by (simp add: RevertAIApproval_def updateRows_def Let_def unique_index_keys g_def)
qed

end
