(* ===== verification/Sbom.thy ===== *)
theory Sbom
  imports Version_Order
begin

text \<open>
  \<^verbatim>\<open>internal/server/cvematch/sbom.go\<close>: package URLs and the two SBOM documents. SHA-1, UUIDs and the
  clock are parameters (\<open>sha1\<close> gives the hexadecimal digest); JSON encoding of the finished document is
  not modelled, the functions return the document itself. Runes are bytes: identifiers are ASCII.
\<close>

section \<open>Packages and hosts\<close>

record Package =
  P_ID :: string
  P_ScanID :: string
  P_HostID :: string
  P_AssetType :: string
  P_AssetID :: string
  P_Source :: string
  P_Container :: string
  P_ContainerID :: string
  P_ImageName :: string
  P_ImageID :: string
  P_Name :: string
  P_Version :: string
  P_Arch :: string
  P_PkgType :: string
  P_Ecosystem :: string
  P_PURL :: string
  P_SrcName :: string
  P_FilePath :: string
  P_LayerID :: string
  P_Target :: string

record Host =
  H_ID :: string
  H_Hostname :: string
  H_IPAddress :: string
  H_OSName :: string
  H_OSVersion :: string
  H_Kernel :: string
  H_Arch :: string
  H_Owner :: string
  H_Team :: string
  H_Environment :: string
  H_Criticality :: string
  H_Tags :: string

section \<open>Package URLs\<close>

definition pkgTypeToPURL :: "(string \<times> string) list" where
  "pkgTypeToPURL =
     [(''deb'', ''deb''), (''rpm'', ''rpm''), (''apk'', ''apk''), (''python-pkg'', ''pypi''), (''pip'', ''pypi''),
      (''poetry'', ''pypi''), (''node-pkg'', ''npm''), (''npm'', ''npm''), (''yarn'', ''npm''), (''pnpm'', ''npm''),
      (''golang'', ''golang''), (''gobinary'', ''golang''), (''jar'', ''maven''), (''maven'', ''maven''),
      (''rustbinary'', ''cargo''), (''cargo'', ''cargo''), (''composer'', ''composer''), (''gem'', ''gem''),
      (''nuget'', ''nuget''), (''cocoapods'', ''cocoapods''), (''swift'', ''swift''), (''dotnet'', ''nuget'')]"

definition purlType :: "string \<Rightarrow> string" where
  "purlType pkgType = (case map_of pkgTypeToPURL pkgType of Some t \<Rightarrow> t | None \<Rightarrow> ''generic'')"

definition inferOSPkgType :: "string \<Rightarrow> string" where
  "inferOSPkgType osName =
     (let s = ToLower osName in
      if Contains s ''ubuntu'' \<or> Contains s ''debian'' then ''deb''
      else if Contains s ''centos'' \<or> Contains s ''red hat'' \<or> Contains s ''rhel'' \<or> Contains s ''fedora''
              \<or> Contains s ''rocky'' \<or> Contains s ''almalinux'' \<or> Contains s ''amazon'' then ''rpm''
      else ''deb'')"

text \<open>\<^verbatim>\<open>strings.Replace(name, ":", "/", 1)\<close>, and whether a colon occurs after the first byte.\<close>

fun replaceFirstColon :: "string \<Rightarrow> string" where
  "replaceFirstColon [] = []"
| "replaceFirstColon (c # s) = (if c = CHR '':'' then CHR ''/'' # s else c # replaceFirstColon s)"

definition buildPurl :: "Package \<Rightarrow> Host \<Rightarrow> string" where
  "buildPurl pkg host =
     (if P_PURL pkg \<noteq> [] then P_PURL pkg
      else
        let pt = (if P_PkgType pkg = ''os'' then inferOSPkgType (H_OSName host) else P_PkgType pkg);
            ty = purlType pt;
            name = (if ty = ''maven'' then
                      (if CHR '':'' \<in> set (tl (P_Name pkg)) then replaceFirstColon (P_Name pkg) else P_Name pkg)
                    else if ty = ''golang'' then
                      (if CHR ''/'' \<notin> set (P_Name pkg) then ''golang.org/x/'' @ P_Name pkg else P_Name pkg)
                    else P_Name pkg);
            p = ''pkg:'' @ ty @ ''/'' @ name @ ''@'' @ P_Version pkg
        in if P_Arch pkg \<noteq> [] \<and> (ty = ''deb'' \<or> ty = ''rpm'') then p @ ''?arch='' @ P_Arch pkg else p)"

section \<open>Identifiers\<close>

definition nul :: string where "nul = [CHR 0x00]"

text \<open>A package takes part in an SBOM when it has a name and a version.\<close>

definition valid_pkg :: "Package \<Rightarrow> bool" where
  "valid_pkg pkg \<longleftrightarrow> P_Name pkg \<noteq> [] \<and> P_Version pkg \<noteq> []"

definition cycloneDXPackageIdentity :: "Package \<Rightarrow> string" where
  "cycloneDXPackageIdentity pkg = Join
     [P_AssetType pkg, P_AssetID pkg, P_Source pkg, P_Container pkg, P_ContainerID pkg, P_ImageName pkg,
      P_Name pkg, P_Version pkg, P_Arch pkg, P_PkgType pkg, P_Ecosystem pkg, P_PURL pkg, P_FilePath pkg,
      P_Target pkg] nul"

definition stableRef :: "(string \<Rightarrow> string) \<Rightarrow> string \<Rightarrow> string" where
  "stableRef sha1 s = sha1 s"

definition bump :: "string \<Rightarrow> (string \<Rightarrow> nat) \<Rightarrow> string \<Rightarrow> nat" where
  "bump base seen = seen(base := seen base + 1)"

text \<open>The map \<^verbatim>\<open>seen\<close> counts the uses of a base; absent keys read 0.\<close>

definition uniqueBOMRef :: "string \<Rightarrow> (string \<Rightarrow> nat) \<Rightarrow> string \<times> (string \<Rightarrow> nat)" where
  "uniqueBOMRef base seen =
     (let seen = bump base seen in
      (if seen base = 1 then base else base @ ''-'' @ show_nat (seen base), seen))"

fun latestScanID :: "Package list \<Rightarrow> string" where
  "latestScanID [] = []"
| "latestScanID (pkg # pkgs) = (if TrimSpace (P_ScanID pkg) \<noteq> [] then TrimSpace (P_ScanID pkg) else latestScanID pkgs)"

definition defaultSPDXName :: "string \<Rightarrow> string \<Rightarrow> string" where
  "defaultSPDXName primary fallback =
     (if TrimSpace primary \<noteq> [] then TrimSpace primary
      else if TrimSpace fallback \<noteq> [] then TrimSpace fallback
      else ''unknown'')"

definition spdxChar :: "char \<Rightarrow> bool" where
  "spdxChar c = ((CHR ''A'' \<le> c \<and> c \<le> CHR ''Z'') \<or> (CHR ''a'' \<le> c \<and> c \<le> CHR ''z'')
     \<or> (CHR ''0'' \<le> c \<and> c \<le> CHR ''9'') \<or> c = CHR ''.'' \<or> c = CHR ''-'')"

definition trimmed :: "char \<Rightarrow> bool" where
  "trimmed c = (c = CHR ''-'' \<or> c = CHR ''.'')"

definition sanitizeSPDXID :: "string \<Rightarrow> string" where
  "sanitizeSPDXID s =
     (let b = replace_runes spdxChar (CHR ''-'') (TrimSpace s);
          out = rev (dropWhile trimmed (rev (dropWhile trimmed b)))
      in if out = [] then ''unknown'' else out)"

section \<open>CycloneDX\<close>

type_synonym property = "string \<times> string"

record cdxComponent =
  c_type :: string
  c_name :: string
  c_version :: string
  c_ref :: string
  c_purl :: string
  c_scope :: string
  c_props :: "property list"

record cycloneDX =
  bomFormat :: string
  specVersion :: string
  serialNumber :: string
  bomVersion :: int
  timestamp :: string
  tools :: "(string \<times> string \<times> string) list"
  rootRef :: string
  rootType :: string
  rootName :: string
  rootVersion :: string
  rootProps :: "property list"
  components :: "cdxComponent list"
  dependencies :: "(string \<times> string list) list"

definition cdxProperties :: "Package \<Rightarrow> property list" where
  "cdxProperties pkg =
     [(''bongsu:package_id'', P_ID pkg), (''bongsu:scan_id'', P_ScanID pkg), (''bongsu:host_id'', P_HostID pkg),
      (''bongsu:asset_type'', P_AssetType pkg), (''bongsu:asset_id'', P_AssetID pkg),
      (''bongsu:source'', P_Source pkg), (''bongsu:pkg_type'', P_PkgType pkg),
      (''bongsu:ecosystem'', P_Ecosystem pkg), (''bongsu:container'', P_Container pkg),
      (''bongsu:container_id'', P_ContainerID pkg), (''bongsu:image_name'', P_ImageName pkg),
      (''bongsu:image_id'', P_ImageID pkg), (''bongsu:file_path'', P_FilePath pkg),
      (''bongsu:target'', P_Target pkg)]"

text \<open>The loop over the packages: components and references so far, and the counts of \<^verbatim>\<open>seenRefs\<close>.\<close>

fun cdxLoop :: "(string \<Rightarrow> string) \<Rightarrow> Host \<Rightarrow> Package list \<Rightarrow> (string \<Rightarrow> nat) \<Rightarrow> cdxComponent list" where
  "cdxLoop sha1 host [] seen = []"
| "cdxLoop sha1 host (pkg # pkgs) seen =
     (if P_Name pkg = [] \<or> P_Version pkg = [] then cdxLoop sha1 host pkgs seen
      else
        let p = buildPurl pkg host in
        case uniqueBOMRef (''bongsu:pkg:'' @ stableRef sha1 (cycloneDXPackageIdentity pkg)) seen of
          (ref, seen') \<Rightarrow>
            \<lparr>c_type = ''library'', c_name = P_Name pkg, c_version = P_Version pkg, c_ref = ref, c_purl = p,
             c_scope = ''required'', c_props = cdxProperties pkg\<rparr> # cdxLoop sha1 host pkgs seen')"

definition GenerateCycloneDX ::
    "(string \<Rightarrow> string) \<Rightarrow> (string \<Rightarrow> string) \<Rightarrow> string \<Rightarrow> Package list \<Rightarrow> Host \<Rightarrow> string + cycloneDX" where
  "GenerateCycloneDX sha1 uuid5 now pkgs host =
     (let scanID = latestScanID pkgs;
          root = ''bongsu:host:'' @ stableRef sha1 (defaultSPDXName (H_ID host) (H_Hostname host));
          comps = cdxLoop sha1 host pkgs (\<lambda>_. 0);
          refs = map c_ref comps
      in if comps = [] then Inl ''no valid packages for SBOM generation''
         else Inr \<lparr>bomFormat = ''CycloneDX'', specVersion = ''1.5'',
           serialNumber = (if scanID \<noteq> []
             then ''urn:uuid:'' @ uuid5 (''bongsu:cyclonedx:'' @ H_ID host @ '':'' @ scanID) else []),
           bomVersion = 1, timestamp = now, tools = [(''ziozzang'', ''bongsu'', ''0.1.0'')],
           rootRef = root, rootType = ''application'', rootName = H_Hostname host,
           rootVersion = H_OSName host @ '' '' @ H_OSVersion host,
           rootProps =
             [(''bongsu:host_id'', H_ID host), (''bongsu:scan_id'', scanID), (''bongsu:ip_address'', H_IPAddress host),
              (''bongsu:os_name'', H_OSName host), (''bongsu:os_version'', H_OSVersion host),
              (''bongsu:kernel'', H_Kernel host), (''bongsu:arch'', H_Arch host), (''bongsu:owner'', H_Owner host),
              (''bongsu:team'', H_Team host), (''bongsu:environment'', H_Environment host),
              (''bongsu:criticality'', H_Criticality host), (''bongsu:tags'', H_Tags host)],
           components = comps,
           dependencies = (root, refs) # map (\<lambda>r. (r, [])) refs\<rparr>)"

section \<open>SPDX\<close>

record spdxPackage =
  s_id :: string
  s_name :: string
  s_version :: string
  s_code :: string
  s_supplier :: string
  s_purl :: string
  s_refs :: "(string \<times> string \<times> string) list"
  s_comment :: string

record spdxDocument =
  d_id :: string
  d_name :: string
  d_namespace :: string
  d_created :: string
  d_packages :: "spdxPackage list"
  d_relationships :: "(string \<times> string \<times> string) list"

definition spdxPackageIdentity :: "Package \<Rightarrow> string list" where
  "spdxPackageIdentity pkg =
     [P_AssetType pkg, P_AssetID pkg, P_Source pkg, P_Container pkg, P_ContainerID pkg, P_ImageName pkg,
      P_ImageID pkg, P_Name pkg, P_Version pkg, P_Arch pkg, P_PkgType pkg, P_Ecosystem pkg, P_PURL pkg,
      P_SrcName pkg, P_FilePath pkg, P_Target pkg]"

definition spdxPackageVerificationCode :: "(string \<Rightarrow> string) \<Rightarrow> string list \<Rightarrow> string" where
  "spdxPackageVerificationCode sha1 parts = sha1 (Join parts nul)"

definition spdxDocumentNamespaceSuffix :: "(string \<Rightarrow> string) \<Rightarrow> Host \<Rightarrow> Package list \<Rightarrow> string" where
  "spdxDocumentNamespaceSuffix sha1 host pkgs =
     stableRef sha1 (Join
       ([H_ID host, H_Hostname host, H_OSName host, H_OSVersion host, latestScanID pkgs]
        @ concat (map (\<lambda>pkg. if P_Name pkg = [] \<or> P_Version pkg = [] then [] else spdxPackageIdentity pkg) pkgs)) nul)"

definition spdxBaseID :: "Package \<Rightarrow> string" where
  "spdxBaseID pkg = ''SPDXRef-Package-'' @ sanitizeSPDXID (P_Name pkg @ ''-'' @ P_Version pkg)"

definition spdxComment :: "Package \<Rightarrow> string" where
  "spdxComment pkg =
     ''bongsu package_id='' @ P_ID pkg @ '' scan_id='' @ P_ScanID pkg @ '' asset_type='' @ P_AssetType pkg
     @ '' asset_id='' @ P_AssetID pkg @ '' source='' @ P_Source pkg @ '' pkg_type='' @ P_PkgType pkg
     @ '' ecosystem='' @ P_Ecosystem pkg @ '' container='' @ P_Container pkg @ '' container_id='' @ P_ContainerID pkg
     @ '' image_name='' @ P_ImageName pkg @ '' image_id='' @ P_ImageID pkg @ '' file_path='' @ P_FilePath pkg
     @ '' target='' @ P_Target pkg"

fun spdxLoop :: "(string \<Rightarrow> string) \<Rightarrow> Host \<Rightarrow> Package list \<Rightarrow> (string \<Rightarrow> nat) \<Rightarrow> spdxPackage list" where
  "spdxLoop sha1 host [] seen = []"
| "spdxLoop sha1 host (pkg # pkgs) seen =
     (if P_Name pkg = [] \<or> P_Version pkg = [] then spdxLoop sha1 host pkgs seen
      else
        let purl = buildPurl pkg host;
            baseID = spdxBaseID pkg;
            seen = bump baseID seen;
            spdxID = (if seen baseID > 1 then baseID @ ''-'' @ show_nat (seen baseID) else baseID)
        in \<lparr>s_id = spdxID, s_name = P_Name pkg, s_version = P_Version pkg,
            s_code = spdxPackageVerificationCode sha1 (spdxPackageIdentity pkg), s_supplier = ''NOASSERTION'',
            s_purl = purl, s_refs = [(''PACKAGE-MANAGER'', ''purl'', purl)], s_comment = spdxComment pkg\<rparr>
           # spdxLoop sha1 host pkgs seen)"

definition GenerateSPDX ::
    "(string \<Rightarrow> string) \<Rightarrow> string \<Rightarrow> Package list \<Rightarrow> Host \<Rightarrow> string + spdxDocument" where
  "GenerateSPDX sha1 now pkgs host =
     (let scanID = latestScanID pkgs;
          docID = ''SPDXRef-DOCUMENT'';
          ns = sanitizeSPDXID (defaultSPDXName (H_ID host) (H_Hostname host))
               @ (if scanID \<noteq> [] then ''-'' @ sanitizeSPDXID scanID else []);
          rootID = ''SPDXRef-Host-'' @ sanitizeSPDXID (defaultSPDXName (H_ID host) (H_Hostname host));
          root = \<lparr>s_id = rootID, s_name = defaultSPDXName (H_Hostname host) (H_ID host),
            s_version = TrimSpace (H_OSName host @ '' '' @ H_OSVersion host),
            s_code = spdxPackageVerificationCode sha1 [H_ID host, H_Hostname host, H_OSName host, H_OSVersion host],
            s_supplier = ''Organization: bongsu'', s_purl = [], s_refs = [],
            s_comment = ''bongsu host_id='' @ H_ID host @ '' scan_id='' @ scanID @ '' ip_address='' @ H_IPAddress host
              @ '' owner='' @ H_Owner host @ '' team='' @ H_Team host @ '' environment='' @ H_Environment host
              @ '' criticality='' @ H_Criticality host\<rparr>;
          items = spdxLoop sha1 host pkgs (\<lambda>_. 0)
      in if length (root # items) \<le> 1 then Inl ''no valid packages for SBOM generation''
         else Inr \<lparr>d_id = docID, d_name = ''bongsu-'' @ sanitizeSPDXID (defaultSPDXName (H_Hostname host) (H_ID host)),
           d_namespace = ''https://bongsu.local/spdx/'' @ ns @ ''/'' @ spdxDocumentNamespaceSuffix sha1 host pkgs,
           d_created = now, d_packages = root # items,
           d_relationships = (docID, ''DESCRIBES'', rootID)
             # map (\<lambda>p. (rootID, ''CONTAINS'', s_id p)) items\<rparr>)"

section \<open>References never collide\<close>

definition ref_of :: "string \<times> nat \<Rightarrow> string" where
  "ref_of p = (if snd p = 1 then fst p else fst p @ ''-'' @ show_nat (snd p))"

lemma ref_of_inj:
  assumes "ref_of p = ref_of q" "CHR ''-'' \<notin> set (fst p)" "CHR ''-'' \<notin> set (fst q)"
  shows "p = q"
proof -
  have cut: "takeWhile (\<lambda>c. c \<noteq> CHR ''-'') (ref_of r) = fst r" if "CHR ''-'' \<notin> set (fst r)" for r
    using that by (auto simp: ref_of_def takeWhile_eq_all_conv takeWhile_append2 intro!: takeWhile_append2 [THEN trans])
  have "fst p = fst q" using cut [OF assms(2)] cut [OF assms(3)] assms(1) by simp
  moreover have "snd p = snd q"
    using assms(1) \<open>fst p = fst q\<close> show_nat_inj [of "snd p" "snd q"] by (auto simp: ref_of_def split: if_splits)
  ultimately show ?thesis by (simp add: prod_eq_iff)
qed

text \<open>The bases with their running numbers, as the loop assigns them.\<close>

fun numbered :: "string list \<Rightarrow> (string \<Rightarrow> nat) \<Rightarrow> (string \<times> nat) list" where
  "numbered [] seen = []"
| "numbered (b # bs) seen = (b, seen b + 1) # numbered bs (bump b seen)"

lemma numbered_above: "(b, n) \<in> set (numbered bs seen) \<Longrightarrow> seen b < n \<and> b \<in> set bs"
  by (induction bs arbitrary: seen) (fastforce simp: bump_def split: if_splits)+

lemma numbered_distinct: "distinct (numbered bs seen)"
proof (induction bs arbitrary: seen)
  case (Cons b bs)
  have "(b, seen b + 1) \<notin> set (numbered bs (bump b seen))"
    using numbered_above [of b "seen b + 1" bs "bump b seen"] by (auto simp: bump_def)
  then show ?case using Cons by simp
qed simp

definition cdxBase :: "(string \<Rightarrow> string) \<Rightarrow> Package \<Rightarrow> string" where
  "cdxBase sha1 pkg = ''bongsu:pkg:'' @ stableRef sha1 (cycloneDXPackageIdentity pkg)"

lemma cdxLoop_refs:
  "map c_ref (cdxLoop sha1 host pkgs seen) = map ref_of (numbered (map (cdxBase sha1) (filter valid_pkg pkgs)) seen)"
  by (induction pkgs arbitrary: seen)
    (auto simp: valid_pkg_def uniqueBOMRef_def Let_def ref_of_def bump_def cdxBase_def)

lemma cdxLoop_components:
  "map (\<lambda>c. (c_name c, c_version c, c_purl c, c_props c)) (cdxLoop sha1 host pkgs seen) =
   map (\<lambda>p. (P_Name p, P_Version p, buildPurl p host, cdxProperties p)) (filter valid_pkg pkgs)"
  by (induction pkgs arbitrary: seen) (auto simp: valid_pkg_def uniqueBOMRef_def Let_def)

lemma cdxBase_no_dash: "\<forall>s. CHR ''-'' \<notin> set (sha1 s) \<Longrightarrow> CHR ''-'' \<notin> set (cdxBase sha1 p)"
  by (simp add: cdxBase_def stableRef_def)

text \<open>C17: a CycloneDX document is complete and its references are unique: given digests without dashes
  (hexadecimal), an error is returned exactly when no package has both name and version; otherwise the
  components are the valid packages in order, all references differ, even for packages with the same
  identity, and the root depends on exactly the components.\<close>

theorem GenerateCycloneDX_complete:
  assumes "\<forall>s. CHR ''-'' \<notin> set (sha1 s)"
  shows "case GenerateCycloneDX sha1 uuid5 now pkgs host of
      Inl _ \<Rightarrow> filter valid_pkg pkgs = []
    | Inr doc \<Rightarrow>
        filter valid_pkg pkgs \<noteq> []
        \<and> map (\<lambda>c. (c_name c, c_version c, c_purl c, c_props c)) (components doc)
            = map (\<lambda>p. (P_Name p, P_Version p, buildPurl p host, cdxProperties p)) (filter valid_pkg pkgs)
        \<and> distinct (map c_ref (components doc))
        \<and> dependencies doc = (rootRef doc, map c_ref (components doc)) # map (\<lambda>c. (c_ref c, [])) (components doc)"
proof -
  let ?c = "cdxLoop sha1 host pkgs (\<lambda>_. 0)"
  have "map fst (map (\<lambda>c. (c_name c, ())) ?c) = map P_Name (filter valid_pkg pkgs)"
    using arg_cong [OF cdxLoop_components [of sha1 host pkgs "\<lambda>_. 0"], of "map fst"] by (simp add: comp_def)
  then have empty: "?c = [] \<longleftrightarrow> filter valid_pkg pkgs = []" by (metis map_is_Nil_conv)
  have "inj_on ref_of (set (numbered (map (cdxBase sha1) (filter valid_pkg pkgs)) (\<lambda>_. 0)))"
  proof (rule inj_onI)
    fix p q
    assume p: "p \<in> set (numbered (map (cdxBase sha1) (filter valid_pkg pkgs)) (\<lambda>_. 0))"
      and q: "q \<in> set (numbered (map (cdxBase sha1) (filter valid_pkg pkgs)) (\<lambda>_. 0))"
      and eq: "ref_of p = ref_of q"
    have nodash: "CHR ''-'' \<notin> set (fst r)"
      if "r \<in> set (numbered (map (cdxBase sha1) (filter valid_pkg pkgs)) (\<lambda>_. 0))" for r
      using numbered_above [of "fst r" "snd r"] that cdxBase_no_dash [OF assms] by fastforce
    show "p = q" by (rule ref_of_inj [OF eq nodash [OF p] nodash [OF q]])
  qed
  then have "distinct (map c_ref ?c)"
    unfolding cdxLoop_refs distinct_map using numbered_distinct by blast
  then show ?thesis
    using empty cdxLoop_components [of sha1 host pkgs "\<lambda>_. 0"]
    by (auto simp: GenerateCycloneDX_def Let_def comp_def)
qed

definition samplePackage :: Package where
  "samplePackage = \<lparr>P_ID = ''p1'', P_ScanID = ''s1'', P_HostID = ''h1'', P_AssetType = ''host'', P_AssetID = [],
     P_Source = ''dpkg'', P_Container = [], P_ContainerID = [], P_ImageName = [], P_ImageID = [], P_Name = ''a'',
     P_Version = ''1'', P_Arch = [], P_PkgType = ''deb'', P_Ecosystem = [], P_PURL = [], P_SrcName = [],
     P_FilePath = [], P_LayerID = [], P_Target = []\<rparr>"

definition sampleHost :: Host where
  "sampleHost = \<lparr>H_ID = ''h1'', H_Hostname = ''web'', H_IPAddress = [], H_OSName = ''Debian'', H_OSVersion = ''12'',
     H_Kernel = [], H_Arch = [], H_Owner = [], H_Team = [], H_Environment = [], H_Criticality = [], H_Tags = []\<rparr>"

theorem GenerateCycloneDX_complete_witness:
  "case GenerateCycloneDX (\<lambda>_. ''0a'') (\<lambda>_. ''u'') ''now'' [samplePackage, samplePackage] sampleHost of
     Inl _ \<Rightarrow> False | Inr doc \<Rightarrow> distinct (map c_ref (components doc))"
proof -
  have dash: "\<forall>s. CHR ''-'' \<notin> set ((\<lambda>_. ''0a'') (s :: string))" by simp
  have valid: "filter valid_pkg [samplePackage, samplePackage] \<noteq> []"
    by (simp add: valid_pkg_def samplePackage_def)
  from GenerateCycloneDX_complete [OF dash, where ?uuid5.0 = "\<lambda>_. ''u''" and now = "''now''"
      and pkgs = "[samplePackage, samplePackage]" and host = sampleHost] valid
  show ?thesis by (simp split: sum.splits)
qed

section \<open>SPDX identifiers\<close>

lemma trim_both:
  defines "t \<equiv> \<lambda>b. rev (dropWhile trimmed (rev (dropWhile trimmed b)))"
  shows "set (t b) \<subseteq> set b" "t b = [] \<or> \<not> trimmed (hd (t b)) \<and> \<not> trimmed (last (t b))"
proof -
  show "set (t b) \<subseteq> set b"
    unfolding t_def by (metis set_dropWhileD set_rev subsetI)
  define u where "u = dropWhile trimmed b"
  have tb: "t b = rev (dropWhile trimmed (rev u))" by (simp add: t_def u_def)
  show "t b = [] \<or> \<not> trimmed (hd (t b)) \<and> \<not> trimmed (last (t b))"
  proof (cases "t b = []")
    case False
    then have "\<not> trimmed (last (t b))"
      using hd_dropWhile [of trimmed "rev u"] by (simp add: tb last_rev)
    moreover have "t b @ rev (takeWhile trimmed (rev u)) = u"
      unfolding tb by (metis rev_append rev_rev_ident takeWhile_dropWhile_id)
    then have "hd (t b) = hd u" "u \<noteq> []" using False by (metis hd_append2, auto)
    then have "\<not> trimmed (hd (t b))" using hd_dropWhile [of trimmed b] by (simp add: u_def)
    ultimately show ?thesis by blast
  qed simp
qed

text \<open>Identifiers written into an SPDX document are well formed: for any input the sanitised string is
  not empty, consists of letters, digits, dots and dashes only, and neither starts nor ends with a dot or
  a dash.\<close>

theorem sanitizeSPDXID_well_formed:
  "sanitizeSPDXID s \<noteq> [] \<and> (\<forall>c \<in> set (sanitizeSPDXID s). spdxChar c)
    \<and> \<not> trimmed (hd (sanitizeSPDXID s)) \<and> \<not> trimmed (last (sanitizeSPDXID s))"
proof -
  define b where "b = replace_runes spdxChar (CHR ''-'') (TrimSpace s)"
  define out where "out = rev (dropWhile trimmed (rev (dropWhile trimmed b)))"
  have "spdxChar (CHR ''-'')" by (simp add: spdxChar_def)
  then have "\<forall>c \<in> set b. spdxChar c" using set_replace_runes by (auto simp: b_def)
  then have chars: "\<forall>c \<in> set out. spdxChar c" using trim_both(1) [of b] unfolding out_def by blast
  have ends: "out = [] \<or> \<not> trimmed (hd out) \<and> \<not> trimmed (last out)"
    using trim_both(2) [of b] unfolding out_def .
  have "list_all spdxChar ''unknown''" "\<not> trimmed (CHR ''u'')" "\<not> trimmed (CHR ''n'')" by code_simp+
  moreover have "sanitizeSPDXID s = (if out = [] then ''unknown'' else out)"
    unfolding sanitizeSPDXID_def Let_def b_def [symmetric] out_def [symmetric] ..
  ultimately show ?thesis using chars ends by (cases "out = []") (simp_all add: list_all_iff)
qed

lemma sanitizeSPDXID_well_formed_witness:
  "sanitizeSPDXID ''@scope/lib_1.'' \<noteq> [] \<and> \<not> trimmed (last (sanitizeSPDXID ''@scope/lib_1.''))"
  using sanitizeSPDXID_well_formed [of "''@scope/lib_1.''"] by blast

text \<open>
  Numbering repeated SPDX identifiers can produce one that another package already has: a package
  listed twice and a third whose version ends in \<^verbatim>\<open>-2\<close> share an identifier.
\<close>

lemma spdx_ids_collide:
  "map s_id (spdxLoop (\<lambda>_. ''0a'') sampleHost
      [samplePackage, samplePackage, samplePackage\<lparr>P_Version := ''1-2''\<rparr>] (\<lambda>_. 0)) =
   [''SPDXRef-Package-a-1'', ''SPDXRef-Package-a-1-2'', ''SPDXRef-Package-a-1-2'']"
proof -
  have "spdxBaseID samplePackage = ''SPDXRef-Package-a-1''"
    "spdxBaseID (samplePackage\<lparr>P_Version := ''1-2''\<rparr>) = ''SPDXRef-Package-a-1-2''"
    "show_nat 2 = ''2''"
    by code_simp+
  then show ?thesis by (simp add: Let_def bump_def samplePackage_def numeral_2_eq_2)
qed

end
