(* ===== verification/Cvematch.thy ===== *)
theory Cvematch
  imports Sbom Aipolicy "HOL-Library.Multiset"
begin

text \<open>
  \<^verbatim>\<open>internal/server/cvematch/matcher.go\<close>: packages are grouped by asset, each group is turned into an
  SBOM and given to trivy, and the reported vulnerabilities are attributed to packages. Running trivy
  (temporary file, process, decoding of its output) is the parameter \<open>trivy\<close>; the semaphore that limits
  concurrent runs is not modelled. A Go map of CVSS entries is a list in iteration order.
\<close>

section \<open>Grouping\<close>

fun firstNonEmpty :: "string list \<Rightarrow> string" where
  "firstNonEmpty [] = []"
| "firstNonEmpty (v # vs) = (if v \<noteq> [] then v else firstNonEmpty vs)"

definition normalizedOSPackageType :: "Package \<Rightarrow> Host \<Rightarrow> string" where
  "normalizedOSPackageType pkg host =
     (let pkgType = ToLower (TrimSpace (P_PkgType pkg));
          inferred = inferOSPkgType (firstNonEmpty [P_Ecosystem pkg, H_OSName host]);
          purl = ToLower (TrimSpace (P_PURL pkg));
          eco = ToLower (TrimSpace (P_Ecosystem pkg))
      in if pkgType \<in> set [''deb'', ''rpm'', ''apk''] then pkgType
         else if pkgType = ''os'' \<and> inferred \<noteq> [] then inferred
         else if HasPrefix purl ''pkg:deb/'' then ''deb''
         else if HasPrefix purl ''pkg:rpm/'' then ''rpm''
         else if HasPrefix purl ''pkg:apk/'' then ''apk''
         else if Contains eco ''alpine'' then ''apk''
         else if Contains eco ''ubuntu'' \<or> Contains eco ''debian'' then ''deb''
         else if Contains eco ''red hat'' \<or> Contains eco ''rhel'' \<or> Contains eco ''rocky''
                 \<or> Contains eco ''almalinux'' \<or> Contains eco ''fedora'' \<or> Contains eco ''centos''
                 \<or> Contains eco ''amazon'' then ''rpm''
         else [])"

definition packageMatchGroupKey :: "Package \<Rightarrow> Host \<Rightarrow> string" where
  "packageMatchGroupKey pkg host =
     (let assetType = TrimSpace (P_AssetType pkg);
          assetType = (if assetType = [] then ''host'' else assetType);
          assetID = firstNonEmpty [P_AssetID pkg, P_ContainerID pkg, P_ImageID pkg, P_ImageName pkg,
                                   P_Container pkg, H_ID host];
          assetID = (if assetType = ''host'' then H_ID host else assetID);
          pkgBucket = normalizedOSPackageType pkg host;
          pkgBucket = (if pkgBucket = [] then ''code'' else pkgBucket)
      in Join [assetType, assetID, pkgBucket] nul)"

record packageMatchGroup =
  g_key :: string
  g_pkgs :: "Package list"

text \<open>The map from key to packages as an association list in order of first use, then sorted by key.\<close>

fun addToGroup :: "string \<Rightarrow> Package \<Rightarrow> (string \<times> Package list) list \<Rightarrow> (string \<times> Package list) list" where
  "addToGroup k p [] = [(k, [p])]"
| "addToGroup k p ((k', ps) # gs) = (if k' = k then (k', ps @ [p]) # gs else (k', ps) # addToGroup k p gs)"

fun groupPackages :: "Package list \<Rightarrow> Host \<Rightarrow> (string \<times> Package list) list \<Rightarrow> (string \<times> Package list) list" where
  "groupPackages [] host gs = gs"
| "groupPackages (pkg # pkgs) host gs =
     (if P_Name pkg = [] \<or> P_Version pkg = [] then groupPackages pkgs host gs
      else groupPackages pkgs host (addToGroup (packageMatchGroupKey pkg host) pkg gs))"

definition packageMatchGroups :: "Package list \<Rightarrow> Host \<Rightarrow> packageMatchGroup list" where
  "packageMatchGroups pkgs host =
     (let grouped = groupPackages pkgs host [];
          keys = sort (map fst grouped)
      in map (\<lambda>key. \<lparr>g_key = key, g_pkgs = the (map_of grouped key)\<rparr>) keys)"

section \<open>Attribution\<close>

record trivyVuln =
  v_id :: string
  v_severity :: string
  v_title :: string
  v_description :: string
  v_pkg :: string
  v_path :: string
  v_installed :: string
  v_fixed :: string
  v_url :: string
  v_layer :: string
  v_cvss :: "(rat \<times> string) list"

record trivyResult =
  r_target :: string
  r_vulns :: "trivyVuln list"

record Vulnerability =
  m_packageID :: string
  m_vulnerabilityID :: string
  m_severity :: string
  m_title :: string
  m_description :: string
  m_pkgName :: string
  m_pkgPath :: string
  m_container :: string
  m_installed :: string
  m_fixed :: string
  m_score :: rat
  m_vector :: string
  m_url :: string
  m_layer :: string

record pkgInfo =
  i_id :: string
  i_container :: string
  i_path :: string

definition noInfo :: pkgInfo where
  "noInfo = \<lparr>i_id = [], i_container = [], i_path = []\<rparr>"

definition matchPackageKey :: "string \<Rightarrow> string \<Rightarrow> string" where
  "matchPackageKey target name = target @ nul @ name"

definition infoOf :: "Package \<Rightarrow> pkgInfo" where
  "infoOf p = \<lparr>i_id = P_ID p, i_container = P_Container p, i_path = P_FilePath p\<rparr>"

text \<open>The three maps built from the group; the last package written to a key wins.\<close>

definition pkgMap :: "Package list \<Rightarrow> string \<Rightarrow> pkgInfo option" where
  "pkgMap pkgs = map_of (rev (map (\<lambda>p. (matchPackageKey (P_Target p) (P_Name p), infoOf p)) pkgs))"

definition nameCount :: "Package list \<Rightarrow> string \<Rightarrow> nat" where
  "nameCount pkgs name = length (filter (\<lambda>p. P_Name p = name) pkgs)"

definition nameInfo :: "Package list \<Rightarrow> string \<Rightarrow> pkgInfo option" where
  "nameInfo pkgs = map_of (rev (map (\<lambda>p. (P_Name p, infoOf p)) pkgs))"

definition getInfo :: "pkgInfo option \<Rightarrow> pkgInfo" where
  "getInfo r = (case r of Some i \<Rightarrow> i | None \<Rightarrow> noInfo)"

fun bestCVSS :: "(rat \<times> string) list \<Rightarrow> rat \<times> string \<Rightarrow> rat \<times> string" where
  "bestCVSS [] best = best"
| "bestCVSS ((score, vector) # cs) best =
     bestCVSS cs (if score > fst best then (score, vector) else best)"

definition attribute :: "Package list \<Rightarrow> string \<Rightarrow> string \<Rightarrow> pkgInfo" where
  "attribute pkgs target name =
     (let pi = getInfo (pkgMap pkgs (matchPackageKey target name)) in
      if i_id pi = [] \<and> nameCount pkgs name = 1 then getInfo (nameInfo pkgs name) else pi)"

definition coalesce :: "string list \<Rightarrow> string" where
  "coalesce vs = firstNonEmpty vs"

definition toVulnerability :: "Package list \<Rightarrow> string \<Rightarrow> trivyVuln \<Rightarrow> Vulnerability" where
  "toVulnerability pkgs target v =
     (let pi = attribute pkgs target (v_pkg v); cvss = bestCVSS (v_cvss v) (0, []) in
      \<lparr>m_packageID = i_id pi, m_vulnerabilityID = v_id v, m_severity = v_severity v, m_title = v_title v,
       m_description = v_description v, m_pkgName = v_pkg v, m_pkgPath = coalesce [v_path v, i_path pi],
       m_container = i_container pi, m_installed = v_installed v, m_fixed = v_fixed v,
       m_score = fst cvss, m_vector = snd cvss, m_url = v_url v, m_layer = v_layer v\<rparr>)"

type_synonym trivy = "cycloneDX \<Rightarrow> string + trivyResult list"

definition matchGroup ::
    "(string \<Rightarrow> string) \<Rightarrow> (string \<Rightarrow> string) \<Rightarrow> string \<Rightarrow> trivy \<Rightarrow> Package list \<Rightarrow> Host \<Rightarrow> string + Vulnerability list" where
  "matchGroup sha1 uuid5 now trivy pkgs host =
     (case GenerateCycloneDX sha1 uuid5 now pkgs host of
        Inl e \<Rightarrow> Inl (''generate SBOM: '' @ e)
      | Inr sbom \<Rightarrow>
          (case trivy sbom of
             Inl e \<Rightarrow> Inl e
           | Inr results \<Rightarrow> Inr (concat (map (\<lambda>r. map (toVulnerability pkgs (r_target r)) (r_vulns r)) results))))"

text \<open>The loop of \<^verbatim>\<open>Match\<close>: vulnerabilities and failures collected so far.\<close>

fun matchLoop :: "(Package list \<Rightarrow> string + Vulnerability list) \<Rightarrow> packageMatchGroup list
    \<Rightarrow> Vulnerability list \<Rightarrow> string list \<Rightarrow> Vulnerability list \<times> string list" where
  "matchLoop match [] vulns failures = (vulns, failures)"
| "matchLoop match (g # gs) vulns failures =
     (case match (g_pkgs g) of
        Inl e \<Rightarrow> matchLoop match gs vulns (failures @ [g_key g @ '': '' @ e])
      | Inr vs \<Rightarrow> matchLoop match gs (vulns @ vs) failures)"

definition Match ::
    "(string \<Rightarrow> string) \<Rightarrow> (string \<Rightarrow> string) \<Rightarrow> string \<Rightarrow> trivy \<Rightarrow> Package list \<Rightarrow> Host
      \<Rightarrow> string list + Vulnerability list" where
  "Match sha1 uuid5 now trivy pkgs host =
     (let groups = packageMatchGroups pkgs host in
      if groups = [] then Inl [''no valid packages for SBOM generation'']
      else case matchLoop (\<lambda>ps. matchGroup sha1 uuid5 now trivy ps host) groups [] [] of
             (vulns, failures) \<Rightarrow>
               if vulns \<noteq> [] then Inr vulns
               else if failures \<noteq> [] then Inl failures
               else Inr vulns)"

section \<open>The groups partition the valid packages\<close>

definition grouped_ok :: "(Package \<Rightarrow> string) \<Rightarrow> Package list \<Rightarrow> (string \<times> Package list) list \<Rightarrow> bool" where
  "grouped_ok key ps gs \<longleftrightarrow> distinct (map fst gs)
     \<and> (\<forall>k qs. (k, qs) \<in> set gs \<longrightarrow> qs = filter (\<lambda>p. key p = k) ps) \<and> fst ` set gs = key ` set ps"

lemma addToGroup_keys: "set (map fst (addToGroup k p gs)) = insert k (set (map fst gs))"
  by (induction k p gs rule: addToGroup.induct) auto

lemma addToGroup_distinct: "distinct (map fst gs) \<Longrightarrow> distinct (map fst (addToGroup k p gs))"
proof (induction k p gs rule: addToGroup.induct)
  case (2 k p k' ps gs)
  then show ?case using addToGroup_keys [of k p gs] by auto
qed simp

lemma addToGroup_mem:
  "distinct (map fst gs) \<Longrightarrow> (j, qs) \<in> set (addToGroup k p gs) \<Longrightarrow>
   (j \<noteq> k \<and> (j, qs) \<in> set gs) \<or> (j = k \<and> (\<exists>ps. (k, ps) \<in> set gs \<and> qs = ps @ [p]))
   \<or> (j = k \<and> k \<notin> fst ` set gs \<and> qs = [p])"
proof (induction gs)
  case (Cons g gs)
  obtain k' ps where g: "g = (k', ps)" by (rule prod.exhaust)
  show ?case
  proof (cases "k' = k")
    case True
    then have "k \<notin> fst ` set gs" using Cons.prems(1) g by simp
    moreover have "(j, qs) = (k, ps @ [p]) \<or> (j, qs) \<in> set gs" using Cons.prems(2) g True by auto
    ultimately show ?thesis using g True by force
  next
    case False
    have "(j, qs) = (k', ps) \<or> (j, qs) \<in> set (addToGroup k p gs)" using Cons.prems(2) g False by auto
    then show ?thesis
    proof
      assume "(j, qs) = (k', ps)"
      then show ?thesis using g False by simp
    next
      assume "(j, qs) \<in> set (addToGroup k p gs)"
      then show ?thesis using Cons.IH Cons.prems(1) g False by auto
    qed
  qed
qed simp

lemma addToGroup_ok:
  assumes "grouped_ok key ps gs"
  shows "grouped_ok key (ps @ [p]) (addToGroup (key p) p gs)"
  unfolding grouped_ok_def
proof (intro conjI allI impI)
  note d = assms [unfolded grouped_ok_def]
  show "distinct (map fst (addToGroup (key p) p gs))" using d addToGroup_distinct by blast
  show "fst ` set (addToGroup (key p) p gs) = key ` set (ps @ [p])"
    using addToGroup_keys [of "key p" p gs] d by auto
  fix k qs assume "(k, qs) \<in> set (addToGroup (key p) p gs)"
  then consider (other) "k \<noteq> key p" "(k, qs) \<in> set gs"
    | (old) ps' where "k = key p" "(key p, ps') \<in> set gs" "qs = ps' @ [p]"
    | (new) "k = key p" "key p \<notin> fst ` set gs" "qs = [p]"
    using addToGroup_mem [of gs k qs "key p" p] d by blast
  then show "qs = filter (\<lambda>q. key q = k) (ps @ [p])"
  proof cases
    case other
    have "qs = filter (\<lambda>q. key q = k) ps" using d other(2) by blast
    then show ?thesis using other(1) by simp
  next
    case old
    have "ps' = filter (\<lambda>q. key q = key p) ps" using d old(2) by blast
    then show ?thesis using old(1,3) by simp
  next
    case new
    from new(2) have "key p \<notin> fst ` set gs" .
    moreover have "fst ` set gs = key ` set ps" using assms by (simp add: grouped_ok_def)
    ultimately have "\<forall>q \<in> set ps. key q \<noteq> key p" by (metis imageI)
    then have "filter (\<lambda>q. key q = key p) ps = []" by (simp add: filter_empty_conv)
    then show ?thesis using new by simp
  qed
qed

lemma groupPackages_ok:
  "grouped_ok (\<lambda>p. packageMatchGroupKey p host) ps gs \<Longrightarrow>
   grouped_ok (\<lambda>p. packageMatchGroupKey p host) (ps @ filter valid_pkg pkgs) (groupPackages pkgs host gs)"
proof (induction pkgs arbitrary: ps gs)
  case (Cons p pkgs)
  then show ?case
    using addToGroup_ok [OF Cons.prems, of p] Cons.IH [of "ps @ [p]"]
    by (auto simp: valid_pkg_def)
qed simp

lemma packageMatchGroups_keys:
  "set (map g_key (packageMatchGroups pkgs host)) = (\<lambda>p. packageMatchGroupKey p host) ` set (filter valid_pkg pkgs)"
proof -
  have ok: "grouped_ok (\<lambda>p. packageMatchGroupKey p host) (filter valid_pkg pkgs) (groupPackages pkgs host [])"
    using groupPackages_ok [of host "[]" "[]" pkgs] by (simp add: grouped_ok_def)
  have "map g_key (packageMatchGroups pkgs host) = sort (map fst (groupPackages pkgs host []))"
    by (simp add: packageMatchGroups_def Let_def comp_def)
  then show ?thesis using ok by (simp add: grouped_ok_def)
qed

lemma packageMatchGroups_empty: "packageMatchGroups pkgs host = [] \<longleftrightarrow> filter valid_pkg pkgs = []"
proof -
  have "packageMatchGroups pkgs host = [] \<longleftrightarrow> set (map g_key (packageMatchGroups pkgs host)) = {}" by simp
  also have "\<dots> \<longleftrightarrow> set (filter valid_pkg pkgs) = {}" unfolding packageMatchGroups_keys by blast
  finally show ?thesis by (simp only: set_empty)
qed

text \<open>Grouping loses nothing and mixes nothing: the groups come sorted by key without repetition, each
  group holds exactly the valid packages with its key, in input order, and a key has a group exactly when
  some valid package has it; the groups are empty only when no package is valid.\<close>

theorem packageMatchGroups_partition:
  "sorted (map g_key (packageMatchGroups pkgs host))
    \<and> distinct (map g_key (packageMatchGroups pkgs host))
    \<and> (\<forall>g \<in> set (packageMatchGroups pkgs host).
         g_pkgs g = filter (\<lambda>p. packageMatchGroupKey p host = g_key g) (filter valid_pkg pkgs))
    \<and> set (map g_key (packageMatchGroups pkgs host)) = (\<lambda>p. packageMatchGroupKey p host) ` set (filter valid_pkg pkgs)
    \<and> (packageMatchGroups pkgs host = [] \<longleftrightarrow> filter valid_pkg pkgs = [])"
proof -
  let ?gs = "groupPackages pkgs host []" and ?key = "\<lambda>p. packageMatchGroupKey p host"
  let ?G = "packageMatchGroups pkgs host"
  have ok: "grouped_ok ?key (filter valid_pkg pkgs) ?gs"
    using groupPackages_ok [of host "[]" "[]" pkgs] by (simp add: grouped_ok_def)
  have keys: "map g_key ?G = sort (map fst ?gs)"
    by (simp add: packageMatchGroups_def Let_def comp_def)
  have groups: "g_pkgs g = filter (\<lambda>p. ?key p = g_key g) (filter valid_pkg pkgs)" if "g \<in> set ?G" for g
  proof -
    have "g \<in> (\<lambda>key. \<lparr>g_key = key, g_pkgs = the (map_of ?gs key)\<rparr>) ` (fst ` set ?gs)"
      using that by (simp only: packageMatchGroups_def Let_def set_map set_sort)
    then obtain k where k: "k \<in> fst ` set ?gs" "g = \<lparr>g_key = k, g_pkgs = the (map_of ?gs k)\<rparr>" by blast
    then obtain qs where "(k, qs) \<in> set ?gs" by auto
    moreover from this have "map_of ?gs k = Some qs" using ok by (simp add: grouped_ok_def)
    ultimately show ?thesis using ok k(2) by (auto simp: grouped_ok_def)
  qed
  show ?thesis
    using groups packageMatchGroups_keys packageMatchGroups_empty keys ok by (simp add: grouped_ok_def)
qed

theorem packageMatchGroups_partition_witness:
  "\<exists>g \<in> set (packageMatchGroups [samplePackage] sampleHost). g_pkgs g = [samplePackage]"
proof -
  let ?G = "packageMatchGroups [samplePackage] sampleHost" and ?k = "packageMatchGroupKey samplePackage sampleHost"
  have v: "filter valid_pkg [samplePackage] = [samplePackage]" by (simp add: valid_pkg_def samplePackage_def)
  note P = packageMatchGroups_partition [of "[samplePackage]" sampleHost, unfolded v]
  have "?k \<in> set (map g_key ?G)" using P by (auto simp: image_iff)
  then obtain g where g: "g \<in> set ?G" "g_key g = ?k" by auto
  have "g_pkgs g = filter (\<lambda>p. packageMatchGroupKey p sampleHost = g_key g) [samplePackage]" using P g(1) by blast
  then show ?thesis using g by auto
qed

section \<open>Every vulnerability is attributed within its name\<close>

lemma map_of_rev_mem: "map_of (rev (map (\<lambda>p. (f p, g p)) ps)) k = Some y \<Longrightarrow> \<exists>p \<in> set ps. f p = k \<and> y = g p"
  by (drule map_of_SomeD) auto

lemma matchPackageKey_inj:
  assumes "matchPackageKey t n = matchPackageKey t' n'" "CHR 0x00 \<notin> set n" "CHR 0x00 \<notin> set n'"
  shows "t = t' \<and> n = n'"
proof -
  have "rev n @ nul @ rev t = rev n' @ nul @ rev t'"
    using arg_cong [OF assms(1), of rev] by (simp add: matchPackageKey_def nul_def)
  then have eq: "rev n @ CHR 0x00 # rev t = rev n' @ CHR 0x00 # rev t'" by (simp add: nul_def)
  have cut: "takeWhile (\<lambda>c. c \<noteq> CHR 0x00) (u @ CHR 0x00 # v) = u" if "CHR 0x00 \<notin> set u" for u v
    using that by (induction u) auto
  have "rev n = rev n'"
    using arg_cong [OF eq, of "takeWhile (\<lambda>c. c \<noteq> CHR 0x00)"] cut [of "rev n"] cut [of "rev n'"] assms(2,3) by simp
  then show ?thesis using eq by simp
qed

text \<open>Attribution is sound and, for unambiguous names, complete: the package a vulnerability is given to
  has the reported name; a package that is the only one of its name in the group gets the vulnerability
  even when the reported target differs; without such a package the id stays empty.\<close>

theorem attribute_by_name:
  assumes "CHR 0x00 \<notin> set name" "\<forall>p \<in> set pkgs. CHR 0x00 \<notin> set (P_Name p)"
  shows "(attribute pkgs target name = noInfo \<or> (\<exists>p \<in> set pkgs. P_Name p = name \<and> attribute pkgs target name = infoOf p))
    \<and> (\<forall>p \<in> set pkgs. P_Name p = name \<and> nameCount pkgs name = 1 \<longrightarrow> attribute pkgs target name = infoOf p)"
proof -
  have hit: "\<exists>p \<in> set pkgs. P_Name p = name \<and> y = infoOf p"
    if "pkgMap pkgs (matchPackageKey target name) = Some y" for y
    using map_of_rev_mem [OF that [unfolded pkgMap_def]] matchPackageKey_inj assms by metis
  have by_name: "\<exists>p \<in> set pkgs. P_Name p = name \<and> y = infoOf p" if "nameInfo pkgs name = Some y" for y
    using map_of_rev_mem [OF that [unfolded nameInfo_def]] by auto
  have sound: "attribute pkgs target name = noInfo \<or> (\<exists>p \<in> set pkgs. P_Name p = name \<and> attribute pkgs target name = infoOf p)"
    using hit by_name
    by (cases "pkgMap pkgs (matchPackageKey target name)"; cases "nameInfo pkgs name")
      (auto simp: attribute_def getInfo_def Let_def)
  have only: "attribute pkgs target name = infoOf p"
    if p: "p \<in> set pkgs" "P_Name p = name" "nameCount pkgs name = 1" for p
  proof -
    obtain q where q: "filter (\<lambda>p. P_Name p = name) pkgs = [q]"
      using p(3) by (auto simp: nameCount_def length_Suc_conv)
    have one: "r = p" if "r \<in> set pkgs" "P_Name r = name" for r
    proof -
      have "r \<in> set (filter (\<lambda>p. P_Name p = name) pkgs)" "p \<in> set (filter (\<lambda>p. P_Name p = name) pkgs)"
        using that p(1,2) by simp_all
      then show ?thesis using q by simp
    qed
    have "nameInfo pkgs name \<noteq> None"
      using p(1,2) unfolding nameInfo_def map_of_eq_None_iff by (auto simp: image_image)
    then have name: "nameInfo pkgs name = Some (infoOf p)" using by_name one by blast
    show ?thesis
    proof (cases "pkgMap pkgs (matchPackageKey target name)")
      case None
      then show ?thesis using name p(3) by (simp add: attribute_def getInfo_def noInfo_def)
    next
      case (Some y)
      then have "y = infoOf p" using hit one by blast
      then show ?thesis using Some name by (simp add: attribute_def getInfo_def Let_def)
    qed
  qed
  show ?thesis using sound only by blast
qed

theorem attribute_by_name_witness:
  "attribute [samplePackage] ''other'' ''a'' = infoOf samplePackage"
proof -
  have "nameCount [samplePackage] ''a'' = 1" "P_Name samplePackage = ''a''"
    by (simp_all add: nameCount_def samplePackage_def)
  then show ?thesis
    using attribute_by_name [of "''a''" "[samplePackage]" "''other''"] by simp
qed

text \<open>
  The key of the first map has no version: of two versions of a package at one target, a vulnerability of
  the first is attributed to the second.
\<close>

lemma attribute_ignores_version:
  "i_id (attribute [samplePackage\<lparr>P_ID := ''old'', P_Version := ''1''\<rparr>, samplePackage\<lparr>P_ID := ''new'', P_Version := ''2''\<rparr>]
     [] ''a'') = ''new''"
  by (simp add: attribute_def pkgMap_def getInfo_def infoOf_def samplePackage_def Let_def)

section \<open>Partial failures\<close>

lemma matchLoop_result:
  "matchLoop match gs vulns failures =
     (vulns @ concat (map (\<lambda>g. case match (g_pkgs g) of Inl _ \<Rightarrow> [] | Inr vs \<Rightarrow> vs) gs),
      failures @ concat (map (\<lambda>g. case match (g_pkgs g) of Inl e \<Rightarrow> [g_key g @ '': '' @ e] | Inr _ \<Rightarrow> []) gs))"
  by (induction gs arbitrary: vulns failures) (auto split: sum.split)

text \<open>One failing group does not hide the others: the result is the concatenation of what the
  succeeding groups found whenever that is non-empty or no group failed; an error is returned exactly when
  there is no valid package, or some group failed and nothing was found.\<close>

theorem Match_partial_failure:
  "let groups = packageMatchGroups pkgs host;
       run = (\<lambda>g. matchGroup sha1 uuid5 now trivy (g_pkgs g) host);
       found = concat (map (\<lambda>g. case run g of Inl _ \<Rightarrow> [] | Inr vs \<Rightarrow> vs) groups);
       failed = (\<exists>g \<in> set groups. \<exists>e. run g = Inl e)
   in (filter valid_pkg pkgs = [] \<or> failed \<and> found = [] \<longleftrightarrow> (\<exists>es. Match sha1 uuid5 now trivy pkgs host = Inl es \<and> es \<noteq> []))
      \<and> (filter valid_pkg pkgs \<noteq> [] \<and> \<not> (failed \<and> found = []) \<longleftrightarrow> Match sha1 uuid5 now trivy pkgs host = Inr found)"
proof -
  define groups where "groups = packageMatchGroups pkgs host"
  define run :: "packageMatchGroup \<Rightarrow> string + Vulnerability list" where "run = (\<lambda>g. matchGroup sha1 uuid5 now trivy (g_pkgs g) host)"
  define found where "found = concat (map (\<lambda>g. case run g of Inl _ \<Rightarrow> [] | Inr vs \<Rightarrow> vs) groups)"
  define fails where "fails = concat (map (\<lambda>g. case run g of Inl e \<Rightarrow> [g_key g @ '': '' @ e] | Inr _ \<Rightarrow> []) groups)"
  have failed: "(\<exists>g \<in> set groups. \<exists>e. run g = Inl e) \<longleftrightarrow> fails \<noteq> []"
  proof -
    have "(case run g of Inl e \<Rightarrow> [g_key g @ '': '' @ e] | Inr _ \<Rightarrow> []) = [] \<longleftrightarrow> \<not> (\<exists>e. run g = Inl e)" for g
      by (cases "run g") auto
    then show ?thesis unfolding fails_def concat_eq_Nil_conv set_map by auto
  qed
  have groups: "groups = [] \<longleftrightarrow> filter valid_pkg pkgs = []"
    unfolding groups_def by (rule packageMatchGroups_empty)
  have "Match sha1 uuid5 now trivy pkgs host =
      (if groups = [] then Inl [''no valid packages for SBOM generation'']
       else if found \<noteq> [] then Inr found else if fails \<noteq> [] then Inl fails else Inr found)"
    unfolding Match_def Let_def groups_def [symmetric] matchLoop_result
    by (simp add: found_def fails_def run_def del: concat_eq_Nil_conv)
  then show ?thesis
    unfolding Let_def groups_def [symmetric] run_def [symmetric] failed unfolding found_def [symmetric] groups [symmetric]
    by (cases "groups = []"; cases "found = []"; cases "fails = []"; simp)
qed

end
