(* ===== verification/Scan_Queue.thy ===== *)
theory Scan_Queue
  imports Prelude
begin

text \<open>
  The scan request queue of \<^verbatim>\<open>internal/server/db/scan.go\<close>. The table \<^verbatim>\<open>scan_requests\<close> is a list of
  rows; every SQL statement is written out as a function on it, and a statement whose result would
  break the primary key or the partial unique index of migration 015 (one pending security-db-update
  request per host) fails with \<open>UniqueViolation\<close>. A transaction whose statement fails changes nothing.
  Times are seconds; \<open>now\<close> is the clock. Row locks (\<^verbatim>\<open>FOR UPDATE SKIP LOCKED\<close>) serialise the
  transactions, so each is one step.
\<close>

section \<open>The table\<close>

record ScanRequest =
  sr_id :: string
  host_id :: string
  requested_by :: string
  scan_type :: string
  packages_only :: bool
  req_reason :: string
  security_db_revision :: string
  status :: string
  error_message :: string
  claimed_by_host_id :: string
  claimed_at :: "int option"
  completed_at :: "int option"
  sr_created_at :: int

type_synonym scan_table = "ScanRequest list"

datatype scan_error =
    UniqueViolation
  | ErrInvalidScanRequestStatus string
  | ErrScanRequestNotFound
  | ErrScanRequestNotActive
  | ErrScanRequestNotRetryable
  | ErrScanRequestClaimMismatch

definition sec_update :: "ScanRequest \<Rightarrow> bool" where
  "sec_update r \<longleftrightarrow> host_id r \<noteq> [] \<and> scan_type r = ''security-db-update''"

definition sec_pending :: "ScanRequest \<Rightarrow> bool" where
  "sec_pending r \<longleftrightarrow> sec_update r \<and> status r = ''pending''"

definition scan_index :: "scan_table \<Rightarrow> bool" where
  "scan_index rows \<longleftrightarrow> distinct (map sr_id rows) \<and> distinct (map host_id (filter sec_pending rows))"

text \<open>An \<^verbatim>\<open>UPDATE ... WHERE\<close>: the condition is evaluated on the rows as they were.\<close>

definition sql_update :: "(ScanRequest \<Rightarrow> bool) \<Rightarrow> (ScanRequest \<Rightarrow> ScanRequest) \<Rightarrow> scan_table \<Rightarrow> scan_error + nat \<times> scan_table" where
  "sql_update P f rows =
     (let rows' = map (\<lambda>r. if P r then f r else r) rows in
      if scan_index rows' then Inr (length (filter P rows), rows') else Inl UniqueViolation)"

definition row_exists :: "string \<Rightarrow> scan_table \<Rightarrow> bool" where
  "row_exists k rows = list_ex (\<lambda>r. sr_id r = k) rows"

section \<open>Creating requests\<close>

definition CreateScanRequest :: "string \<Rightarrow> int \<Rightarrow> ScanRequest \<Rightarrow> scan_table \<Rightarrow> scan_error + scan_table" where
  "CreateScanRequest newId now req rows =
     (let row = req\<lparr>sr_id := (if sr_id req = [] then newId else sr_id req),
                    scan_type := (if scan_type req = [] then ''manual'' else scan_type req),
                    status := (if status req = [] then ''pending'' else status req),
                    sr_created_at := now, claimed_at := None, claimed_by_host_id := [], completed_at := None,
                    error_message := []\<rparr>
      in if scan_index (rows @ [row]) then Inr (rows @ [row]) else Inl UniqueViolation)"

text \<open>One upsert; the result says whether a row was inserted.\<close>

definition rescanRow :: "string \<Rightarrow> int \<Rightarrow> string \<Rightarrow> string \<Rightarrow> string \<Rightarrow> string \<Rightarrow> ScanRequest" where
  "rescanRow newId now hostID requestedBy reason revision =
     \<lparr>sr_id = newId, host_id = hostID, requested_by = requestedBy, scan_type = ''security-db-update'',
      packages_only = True, req_reason = reason, security_db_revision = revision, status = ''pending'',
      error_message = [], claimed_by_host_id = [], claimed_at = None, completed_at = None, sr_created_at = now\<rparr>"

definition refreshRescan :: "int \<Rightarrow> string \<Rightarrow> string \<Rightarrow> string \<Rightarrow> ScanRequest \<Rightarrow> ScanRequest" where
  "refreshRescan now requestedBy reason revision r =
     r\<lparr>requested_by := requestedBy, req_reason := reason, security_db_revision := revision,
       sr_created_at := now, claimed_at := None, claimed_by_host_id := [], error_message := []\<rparr>"

definition queueSecurityDBRescanInsert ::
    "string \<Rightarrow> int \<Rightarrow> string \<Rightarrow> string \<Rightarrow> string \<Rightarrow> string \<Rightarrow> scan_table \<Rightarrow> scan_error + bool \<times> scan_table" where
  "queueSecurityDBRescanInsert newId now hostID requestedBy reason revision rows =
     (if hostID \<noteq> [] \<and> list_ex (\<lambda>r. sec_pending r \<and> host_id r = hostID) rows
      then Inr (False, map (\<lambda>r. if sec_pending r \<and> host_id r = hostID
                                then refreshRescan now requestedBy reason revision r else r) rows)
      else if row_exists newId rows then Inl UniqueViolation
      else Inr (True, rows @ [rescanRow newId now hostID requestedBy reason revision]))"

record SecurityDBRescanQueueResult =
  Eligible :: nat
  Queued :: nat
  AlreadyPending :: nat

text \<open>The loop of the transaction, over the eligible hosts and the ids generated for them.\<close>

fun queueLoop :: "int \<Rightarrow> string \<Rightarrow> string \<Rightarrow> string \<Rightarrow> (string \<times> string) list \<Rightarrow> SecurityDBRescanQueueResult
    \<Rightarrow> scan_table \<Rightarrow> scan_error + SecurityDBRescanQueueResult \<times> scan_table" where
  "queueLoop now requestedBy reason revision [] result rows = Inr (result, rows)"
| "queueLoop now requestedBy reason revision ((hostID, newId) # hosts) result rows =
     (case queueSecurityDBRescanInsert newId now hostID requestedBy reason revision rows of
        Inl e \<Rightarrow> Inl e
      | Inr (inserted, rows') \<Rightarrow>
          let result = result\<lparr>Eligible := Eligible result + 1\<rparr>;
              result = (if inserted then result\<lparr>Queued := Queued result + 1\<rparr>
                        else result\<lparr>AlreadyPending := AlreadyPending result + 1\<rparr>)
          in queueLoop now requestedBy reason revision hosts result rows')"

text \<open>\<^verbatim>\<open>hosts\<close>: id and last-seen time, in \<^verbatim>\<open>hostname\<close> order; \<^verbatim>\<open>lastSeenAfter\<close> is absent when zero.\<close>

definition QueueSecurityDBRescans ::
    "(string \<Rightarrow> string) \<Rightarrow> int \<Rightarrow> string \<Rightarrow> string \<Rightarrow> string \<Rightarrow> int option \<Rightarrow> (string \<times> int) list \<Rightarrow> scan_table
      \<Rightarrow> scan_error + SecurityDBRescanQueueResult \<times> scan_table" where
  "QueueSecurityDBRescans newId now requestedBy reason revision lastSeenAfter hosts rows =
     (let eligible = (case lastSeenAfter of None \<Rightarrow> hosts | Some t \<Rightarrow> filter (\<lambda>(h, seen). seen \<ge> t) hosts)
      in queueLoop now requestedBy reason revision (map (\<lambda>(h, _). (h, newId h)) eligible)
           \<lparr>Eligible = 0, Queued = 0, AlreadyPending = 0\<rparr> rows)"

section \<open>Claiming\<close>

definition stale :: "int \<Rightarrow> ScanRequest \<Rightarrow> bool" where
  "stale cutoff r \<longleftrightarrow> status r = ''claimed'' \<and> (case claimed_at r of Some t \<Rightarrow> t < cutoff | None \<Rightarrow> False)"

text \<open>The order of the window function: \<^verbatim>\<open>claimed_at\<close>, \<^verbatim>\<open>created_at\<close>, \<^verbatim>\<open>id\<close>, all descending.\<close>

definition newer :: "ScanRequest \<Rightarrow> ScanRequest \<Rightarrow> bool" where
  "newer a b =
     (the (claimed_at a) > the (claimed_at b)
      \<or> the (claimed_at a) = the (claimed_at b)
        \<and> (sr_created_at a > sr_created_at b \<or> sr_created_at a = sr_created_at b \<and> sr_id a > sr_id b))"

definition stale_sec :: "int \<Rightarrow> ScanRequest \<Rightarrow> bool" where
  "stale_sec cutoff r \<longleftrightarrow> stale cutoff r \<and> sec_update r"

definition has_pending :: "scan_table \<Rightarrow> string \<Rightarrow> bool" where
  "has_pending rows h = list_ex (\<lambda>p. host_id p = h \<and> scan_type p = ''security-db-update'' \<and> status p = ''pending'') rows"

definition not_first :: "int \<Rightarrow> scan_table \<Rightarrow> ScanRequest \<Rightarrow> bool" where
  "not_first cutoff rows r = list_ex (\<lambda>q. stale_sec cutoff q \<and> host_id q = host_id r \<and> newer q r) rows"

definition duplicate :: "int \<Rightarrow> scan_table \<Rightarrow> ScanRequest \<Rightarrow> bool" where
  "duplicate cutoff rows r \<longleftrightarrow> stale_sec cutoff r \<and> (has_pending rows (host_id r) \<or> not_first cutoff rows r)"

definition cancelled_duplicate :: "int \<Rightarrow> ScanRequest \<Rightarrow> ScanRequest" where
  "cancelled_duplicate now r = r\<lparr>status := ''cancelled'', completed_at := Some now,
     error_message := ''cancelled stale duplicate security-db-update request because a newer pending or claimed request exists''\<rparr>"

definition cancelStaleSecurityDBDuplicates :: "int \<Rightarrow> int \<Rightarrow> scan_table \<Rightarrow> scan_error + nat \<times> scan_table" where
  "cancelStaleSecurityDBDuplicates now cutoff rows =
     sql_update (duplicate cutoff rows) (cancelled_duplicate now) rows"

definition requeued :: "string \<Rightarrow> ScanRequest \<Rightarrow> ScanRequest" where
  "requeued message r = r\<lparr>status := ''pending'', claimed_at := None, claimed_by_host_id := [], error_message := message\<rparr>"

definition requeueStale :: "int \<Rightarrow> scan_table \<Rightarrow> scan_error + nat \<times> scan_table" where
  "requeueStale cutoff rows = sql_update (stale cutoff) (requeued ''requeued after claim timeout'') rows"

definition effectiveTimeout :: "int \<Rightarrow> int" where
  "effectiveTimeout timeout = (if timeout \<le> 0 then 3600 else timeout)"

definition RequeueStaleScanRequests :: "int \<Rightarrow> int \<Rightarrow> scan_table \<Rightarrow> scan_error + (nat \<times> nat) \<times> scan_table" where
  "RequeueStaleScanRequests now timeout rows =
     (let cutoff = now - effectiveTimeout timeout in
      case cancelStaleSecurityDBDuplicates now cutoff rows of
        Inl e \<Rightarrow> Inl e
      | Inr (cancelled, rows1) \<Rightarrow>
          (case requeueStale cutoff rows1 of
             Inl e \<Rightarrow> Inl e
           | Inr (n, rows2) \<Rightarrow> Inr ((n, cancelled), rows2)))"

definition claimable :: "string \<Rightarrow> ScanRequest \<Rightarrow> bool" where
  "claimable hostID r \<longleftrightarrow> status r = ''pending'' \<and> (host_id r = [] \<or> host_id r = hostID)"

text \<open>\<^verbatim>\<open>ORDER BY created_at ASC LIMIT 1\<close>; the order of ties is that of the rows.\<close>

fun oldest :: "ScanRequest list \<Rightarrow> ScanRequest option" where
  "oldest [] = None"
| "oldest (r # rs) = (case oldest rs of None \<Rightarrow> Some r
     | Some q \<Rightarrow> if sr_created_at r \<le> sr_created_at q then Some r else Some q)"

definition claimed_row :: "int \<Rightarrow> string \<Rightarrow> ScanRequest \<Rightarrow> ScanRequest" where
  "claimed_row now hostID r =
     r\<lparr>status := ''claimed'', claimed_at := Some now, claimed_by_host_id := hostID, error_message := []\<rparr>"

definition ClaimScanRequest ::
    "int \<Rightarrow> string \<Rightarrow> int \<Rightarrow> scan_table \<Rightarrow> scan_error + (ScanRequest option \<times> nat \<times> nat) \<times> scan_table" where
  "ClaimScanRequest now hostID timeout rows =
     (case RequeueStaleScanRequests now timeout rows of
        Inl e \<Rightarrow> Inl e
      | Inr ((n, cancelled), rows2) \<Rightarrow>
          (case oldest (filter (claimable hostID) rows2) of
             None \<Rightarrow> Inr ((None, n, cancelled), rows2)
           | Some r \<Rightarrow>
               (case sql_update (\<lambda>q. sr_id q = sr_id r) (claimed_row now hostID) rows2 of
                  Inl e \<Rightarrow> Inl e
                | Inr (_, rows3) \<Rightarrow> Inr ((Some (claimed_row now hostID r), n, cancelled), rows3))))"

section \<open>Finishing and retrying\<close>

definition CompleteScanRequest :: "int \<Rightarrow> string \<Rightarrow> string \<Rightarrow> string \<Rightarrow> scan_table \<Rightarrow> scan_error + scan_table" where
  "CompleteScanRequest now k st message rows =
     (if st \<noteq> ''completed'' \<and> st \<noteq> ''degraded'' \<and> st \<noteq> ''failed'' \<and> st \<noteq> ''cancelled''
      then Inl (ErrInvalidScanRequestStatus st)
      else case sql_update (\<lambda>r. sr_id r = k \<and> (status r = ''pending'' \<or> status r = ''claimed''))
                  (\<lambda>r. r\<lparr>status := st, error_message := message, completed_at := Some now\<rparr>) rows of
             Inl e \<Rightarrow> Inl e
           | Inr (affected, rows') \<Rightarrow>
               if affected > 0 then Inr rows'
               else if \<not> row_exists k rows then Inl ErrScanRequestNotFound
               else Inl ErrScanRequestNotActive)"

definition retryable :: "ScanRequest \<Rightarrow> bool" where
  "retryable r \<longleftrightarrow> status r = ''failed'' \<or> status r = ''degraded'' \<or> status r = ''cancelled''"

text \<open>The \<^verbatim>\<open>NOT EXISTS\<close> of both retry statements.\<close>

definition blocked :: "scan_table \<Rightarrow> ScanRequest \<Rightarrow> bool" where
  "blocked rows r = list_ex (\<lambda>p. sr_id p \<noteq> sr_id r \<and> host_id p = host_id r \<and> host_id p \<noteq> []
     \<and> scan_type p = ''security-db-update'' \<and> status p = ''pending'' \<and> scan_type r = ''security-db-update'') rows"

definition retried :: "string \<Rightarrow> ScanRequest \<Rightarrow> ScanRequest" where
  "retried message r = r\<lparr>status := ''pending'', error_message := message, claimed_at := None,
     claimed_by_host_id := [], completed_at := None\<rparr>"

definition RequeueScanRequest :: "string \<Rightarrow> string \<Rightarrow> scan_table \<Rightarrow> scan_error + scan_table" where
  "RequeueScanRequest k message rows =
     (let message = (if message = [] then ''requeued by admin'' else message) in
      case sql_update (\<lambda>r. sr_id r = k \<and> retryable r \<and> \<not> blocked rows r) (retried message) rows of
        Inl e \<Rightarrow> Inl e
      | Inr (affected, rows') \<Rightarrow>
          if affected > 0 then Inr rows'
          else if \<not> row_exists k rows then Inl ErrScanRequestNotFound
          else Inl ErrScanRequestNotRetryable)"

definition matches :: "string \<Rightarrow> string \<Rightarrow> string \<Rightarrow> string \<Rightarrow> ScanRequest \<Rightarrow> bool" where
  "matches hostID st scanType revision r \<longleftrightarrow> retryable r
     \<and> (hostID \<noteq> [] \<longrightarrow> host_id r = hostID) \<and> (st \<noteq> [] \<longrightarrow> status r = st)
     \<and> (scanType \<noteq> [] \<longrightarrow> scan_type r = scanType)
     \<and> (revision \<noteq> [] \<longrightarrow> security_db_revision r = revision)"

definition RequeueScanRequestsByFilter ::
    "string \<Rightarrow> string \<Rightarrow> string \<Rightarrow> string \<Rightarrow> string \<Rightarrow> scan_table \<Rightarrow> scan_error + nat \<times> scan_table" where
  "RequeueScanRequestsByFilter hostID st scanType revision message rows =
     (let message = (if message = [] then ''bulk requeued by admin'' else message) in
      sql_update (\<lambda>r. matches hostID st scanType revision r \<and> \<not> blocked rows r) (retried message) rows)"

definition CompleteClaimedScanRequest ::
    "int \<Rightarrow> string \<Rightarrow> string \<Rightarrow> string \<Rightarrow> string \<Rightarrow> scan_table \<Rightarrow> scan_error + scan_table" where
  "CompleteClaimedScanRequest now k hostID st message rows =
     (if hostID = [] then Inl ErrScanRequestClaimMismatch
      else if st \<noteq> ''completed'' \<and> st \<noteq> ''degraded'' \<and> st \<noteq> ''failed'' then Inl (ErrInvalidScanRequestStatus st)
      else case sql_update (\<lambda>r. sr_id r = k \<and> status r = ''claimed'' \<and> claimed_by_host_id r = hostID)
                  (\<lambda>r. r\<lparr>status := st, error_message := message, completed_at := Some now\<rparr>) rows of
             Inl e \<Rightarrow> Inl e
           | Inr (affected, rows') \<Rightarrow>
               if affected > 0 then Inr rows'
               else (case find (\<lambda>r. sr_id r = k) rows of
                       None \<Rightarrow> Inl ErrScanRequestNotFound
                     | Some r \<Rightarrow>
                         if status r \<noteq> ''claimed'' then Inl ErrScanRequestNotActive
                         else if claimed_by_host_id r \<noteq> hostID then Inl ErrScanRequestClaimMismatch
                         else Inl ErrScanRequestNotActive))"


section \<open>The index under an update\<close>

lemma scan_index_iff:
  "scan_index rows \<longleftrightarrow> distinct (map sr_id rows)
     \<and> (\<forall>a\<in>set rows. \<forall>b\<in>set rows. sec_pending a \<and> sec_pending b \<and> host_id a = host_id b \<longrightarrow> a = b)"
  unfolding scan_index_def by (auto simp: distinct_map inj_on_def)

lemma row_unique:
  "scan_index rows \<Longrightarrow> a \<in> set rows \<Longrightarrow> b \<in> set rows \<Longrightarrow> sr_id a = sr_id b \<Longrightarrow> a = b"
  unfolding scan_index_def by (auto simp: distinct_map inj_on_def)

lemma scan_index_map:
  assumes "scan_index rows" "\<And>r. sr_id (g r) = sr_id r"
    and "\<And>a b. a \<in> set rows \<Longrightarrow> b \<in> set rows \<Longrightarrow> sec_pending (g a) \<Longrightarrow> sec_pending (g b)
          \<Longrightarrow> host_id (g a) = host_id (g b) \<Longrightarrow> a = b"
  shows "scan_index (map g rows)"
proof -
  have "map sr_id (map g rows) = map sr_id rows" using assms(2) by simp
  moreover have "x = y" if "x \<in> set (map g rows)" "y \<in> set (map g rows)"
    "sec_pending x \<and> sec_pending y \<and> host_id x = host_id y" for x y
  proof -
    obtain a b where "a \<in> set rows" "x = g a" "b \<in> set rows" "y = g b" using \<open>x \<in> _\<close> \<open>y \<in> _\<close> by auto
    then show ?thesis using assms(3)[of a b] that by auto
  qed
  ultimately show ?thesis using assms(1) unfolding scan_index_iff by metis
qed

lemma sql_update_ok:
  assumes "scan_index rows" "\<And>r. sr_id (f r) = sr_id r"
    and "\<And>a b. a \<in> set rows \<Longrightarrow> b \<in> set rows \<Longrightarrow> sec_pending (if P a then f a else a)
          \<Longrightarrow> sec_pending (if P b then f b else b)
          \<Longrightarrow> host_id (if P a then f a else a) = host_id (if P b then f b else b) \<Longrightarrow> a = b"
  shows "sql_update P f rows = Inr (length (filter P rows), map (\<lambda>r. if P r then f r else r) rows)"
    and "scan_index (map (\<lambda>r. if P r then f r else r) rows)"
proof -
  show *: "scan_index (map (\<lambda>r. if P r then f r else r) rows)"
    by (rule scan_index_map[OF assms(1)]) (use assms(2,3) in auto)
  show "sql_update P f rows = Inr (length (filter P rows), map (\<lambda>r. if P r then f r else r) rows)"
    unfolding sql_update_def Let_def using * by simp
qed

text \<open>An update whose rows do not become pending never fails.\<close>

lemma sql_update_not_pending:
  assumes "scan_index rows" "\<And>r. sr_id (f r) = sr_id r" "\<And>r. P r \<Longrightarrow> \<not> sec_pending (f r)"
  shows "sql_update P f rows = Inr (length (filter P rows), map (\<lambda>r. if P r then f r else r) rows)"
    and "scan_index (map (\<lambda>r. if P r then f r else r) rows)"
proof -
  have "a = b" if "a \<in> set rows" "b \<in> set rows" "sec_pending (if P a then f a else a)"
    "sec_pending (if P b then f b else b)"
    "host_id (if P a then f a else a) = host_id (if P b then f b else b)" for a b
    using that assms(1,3) unfolding scan_index_iff by (auto split: if_splits)
  then show "sql_update P f rows = Inr (length (filter P rows), map (\<lambda>r. if P r then f r else r) rows)"
    "scan_index (map (\<lambda>r. if P r then f r else r) rows)"
    using sql_update_ok[of rows f P] assms(1,2) by blast+
qed

section \<open>Claiming\<close>

lemma newer_total: "sr_id a \<noteq> sr_id b \<Longrightarrow> newer a b \<or> newer b a"
  unfolding newer_def by auto

lemma newer_irrefl: "\<not> newer a a"
  unfolding newer_def by auto

lemma newer_trans: "newer a b \<Longrightarrow> newer b c \<Longrightarrow> newer a c"
  unfolding newer_def by auto

lemma newest_exists:
  assumes "a \<in> set rows" "Q a"
  shows "\<exists>m\<in>set rows. Q m \<and> (\<forall>q\<in>set rows. Q q \<longrightarrow> \<not> newer q m)"
  using assms
proof (induction rows arbitrary: a)
  case (Cons r rows)
  show ?case
  proof (cases "\<exists>b\<in>set rows. Q b")
    case True
    then obtain m where m: "m \<in> set rows" "Q m" "\<forall>q\<in>set rows. Q q \<longrightarrow> \<not> newer q m" using Cons.IH by blast
    show ?thesis
    proof (cases "Q r \<and> newer r m")
      case True
      then have "\<forall>q\<in>set (r # rows). Q q \<longrightarrow> \<not> newer q r"
        using m(3) newer_irrefl newer_trans by (metis set_ConsD)
      then show ?thesis using True by auto
    qed (use m in auto)
  next
    case False
    then show ?thesis using Cons.prems newer_irrefl by auto
  qed
qed simp

abbreviation after_cancel :: "int \<Rightarrow> int \<Rightarrow> scan_table \<Rightarrow> scan_table" where
  "after_cancel now cutoff rows \<equiv> map (\<lambda>r. if duplicate cutoff rows r then cancelled_duplicate now r else r) rows"

lemma cancelled_simps [simp]:
  "sr_id (cancelled_duplicate now r) = sr_id r" "host_id (cancelled_duplicate now r) = host_id r"
  "scan_type (cancelled_duplicate now r) = scan_type r"
  "status (cancelled_duplicate now r) = ''cancelled''" "\<not> sec_pending (cancelled_duplicate now r)"
  "\<not> stale cutoff (cancelled_duplicate now r)" "sec_update (cancelled_duplicate now r) = sec_update r"
  by (simp_all add: cancelled_duplicate_def sec_pending_def stale_def sec_update_def)

lemma requeued_simps [simp]:
  "sr_id (requeued m r) = sr_id r" "host_id (requeued m r) = host_id r" "scan_type (requeued m r) = scan_type r"
  "status (requeued m r) = ''pending''" "sec_update (requeued m r) = sec_update r"
  "sec_pending (requeued m r) = sec_update r" "\<not> stale cutoff (requeued m r)"
  by (simp_all add: requeued_def sec_pending_def stale_def sec_update_def)

lemma claimed_simps [simp]:
  "sr_id (claimed_row now h r) = sr_id r" "host_id (claimed_row now h r) = host_id r"
  "scan_type (claimed_row now h r) = scan_type r" "status (claimed_row now h r) = ''claimed''"
  "claimed_by_host_id (claimed_row now h r) = h" "sec_update (claimed_row now h r) = sec_update r"
  "\<not> sec_pending (claimed_row now h r)" "claimed_at (claimed_row now h r) = Some now"
  "sr_created_at (claimed_row now h r) = sr_created_at r"
  by (simp_all add: claimed_row_def sec_pending_def sec_update_def)

lemma cancelStale_ok:
  assumes "scan_index rows"
  shows "cancelStaleSecurityDBDuplicates now cutoff rows
      = Inr (length (filter (duplicate cutoff rows) rows), after_cancel now cutoff rows)"
    and "scan_index (after_cancel now cutoff rows)"
  unfolding cancelStaleSecurityDBDuplicates_def
  by (rule sql_update_not_pending[OF assms]; simp)+

lemma stale_not_pending: "stale cutoff r \<Longrightarrow> \<not> sec_pending r"
  unfolding stale_def sec_pending_def by simp

lemma has_pending_iff: "has_pending rows h \<longleftrightarrow> (\<exists>p\<in>set rows. host_id p = h \<and> scan_type p = ''security-db-update'' \<and> status p = ''pending'')"
  unfolding has_pending_def by (auto simp: list_ex_iff)

text \<open>After the cancellation a host has at most one stale request, and none beside a pending one.\<close>

lemma after_cancel_unique:
  assumes "scan_index rows" "a \<in> set rows" "b \<in> set rows" "\<not> duplicate cutoff rows a" "\<not> duplicate cutoff rows b"
    and "stale cutoff a \<or> sec_pending a" "stale cutoff b \<or> sec_pending b" "sec_update a" "sec_update b"
    and "host_id a = host_id b"
  shows "a = b"
proof -
  have A: "stale_sec cutoff a \<Longrightarrow> \<not> sec_pending b" and B: "stale_sec cutoff b \<Longrightarrow> \<not> sec_pending a"
    using assms unfolding duplicate_def has_pending_iff sec_pending_def sec_update_def by (metis)+
  have C: "sr_id a = sr_id b" if "stale_sec cutoff a" "stale_sec cutoff b"
  proof (rule ccontr)
    assume "sr_id a \<noteq> sr_id b"
    then consider "newer a b" | "newer b a" using newer_total by blast
    then show False using assms(2,3,4,5,10) that unfolding duplicate_def not_first_def list_ex_iff by metis
  qed
  show ?thesis
  proof (cases "stale cutoff a")
    case True
    then have "stale_sec cutoff a" using assms(8) by (simp add: stale_sec_def)
    then have "stale_sec cutoff b" using A assms(7,9) by (auto simp: stale_sec_def)
    then show ?thesis using C row_unique assms(1,2,3) \<open>stale_sec cutoff a\<close> by blast
  next
    case False
    then have "sec_pending a" using assms(6) by blast
    moreover have "sec_pending b" using B assms(7,9) calculation by (auto simp: stale_sec_def)
    ultimately show ?thesis using assms(1,2,3,10) unfolding scan_index_iff by blast
  qed
qed

abbreviation timeout_message :: string where "timeout_message \<equiv> ''requeued after claim timeout''"

definition recovered :: "int \<Rightarrow> int \<Rightarrow> scan_table \<Rightarrow> ScanRequest \<Rightarrow> ScanRequest" where
  "recovered now cutoff rows r =
     (if duplicate cutoff rows r then cancelled_duplicate now r
      else if stale cutoff r then requeued timeout_message r else r)"

lemma recovered_simps [simp]:
  "sr_id (recovered now cutoff rows r) = sr_id r" "host_id (recovered now cutoff rows r) = host_id r"
  "scan_type (recovered now cutoff rows r) = scan_type r" "\<not> stale cutoff (recovered now cutoff rows r)"
  "sec_update (recovered now cutoff rows r) = sec_update r"
  by (simp_all add: recovered_def)

lemma recovered_pending:
  "sec_pending (recovered now cutoff rows r) \<Longrightarrow>
     \<not> duplicate cutoff rows r \<and> (stale cutoff r \<or> sec_pending r) \<and> sec_update r"
  unfolding recovered_def by (auto simp: sec_pending_def split: if_splits)

lemma recovered_index:
  assumes "scan_index rows"
  shows "scan_index (map (recovered now cutoff rows) rows)"
proof (rule scan_index_map[OF assms])
  fix a b assume "a \<in> set rows" "b \<in> set rows" "sec_pending (recovered now cutoff rows a)"
    "sec_pending (recovered now cutoff rows b)"
    "host_id (recovered now cutoff rows a) = host_id (recovered now cutoff rows b)"
  then show "a = b" using after_cancel_unique[OF assms] recovered_pending recovered_simps(2) by metis
qed simp

lemma requeue_after_cancel:
  "map (\<lambda>r. if stale cutoff r then requeued timeout_message r else r) (after_cancel now cutoff rows)
     = map (recovered now cutoff rows) rows"
  by (simp add: recovered_def)

lemma RequeueStale_ok:
  assumes "scan_index rows"
  shows "\<exists>n c. RequeueStaleScanRequests now timeout rows
           = Inr ((n, c), map (recovered now (now - effectiveTimeout timeout) rows) rows)"
proof -
  let ?cut = "now - effectiveTimeout timeout"
  have "requeueStale ?cut (after_cancel now ?cut rows)
      = Inr (length (filter (stale ?cut) (after_cancel now ?cut rows)), map (recovered now ?cut rows) rows)"
    unfolding requeueStale_def sql_update_def Let_def requeue_after_cancel
    using recovered_index[OF assms] by simp
  then show ?thesis unfolding RequeueStaleScanRequests_def Let_def cancelStale_ok(1)[OF assms] by simp
qed

definition open_request :: "ScanRequest \<Rightarrow> bool" where
  "open_request r \<longleftrightarrow> status r = ''pending'' \<or> status r = ''claimed''"

definition same_work :: "ScanRequest \<Rightarrow> ScanRequest \<Rightarrow> bool" where
  "same_work p q \<longleftrightarrow> sr_id q = sr_id p \<or> (sec_update p \<and> sec_update q \<and> host_id q = host_id p)"

lemma recovered_open:
  "open_request p \<Longrightarrow> \<not> duplicate cutoff rows p \<Longrightarrow> open_request (recovered now cutoff rows p)"
  unfolding recovered_def open_request_def by auto

lemma claimed_open [simp]: "open_request (claimed_row now h r)"
  by (simp add: open_request_def)

text \<open>A cancelled duplicate leaves another open request of its host.\<close>

lemma recovered_keeps:
  assumes "scan_index rows" "p \<in> set rows" "open_request p"
  shows "\<exists>q\<in>set (map (recovered now cutoff rows) rows). open_request q \<and> same_work p q"
proof (cases "duplicate cutoff rows p")
  case False
  then show ?thesis using recovered_open[OF assms(3) False] assms(2)
    by (auto simp: same_work_def intro!: bexI[of _ p])
next
  case True
  have up: "sec_update p" and st: "stale_sec cutoff p" using True by (auto simp: duplicate_def stale_sec_def)
  show ?thesis
  proof (cases "has_pending rows (host_id p)")
    case True
    then obtain q where q: "q \<in> set rows" "host_id q = host_id p" "scan_type q = ''security-db-update''" "status q = ''pending''"
      unfolding has_pending_iff by blast
    then have "recovered now cutoff rows q = q"
      by (auto simp: recovered_def duplicate_def stale_sec_def stale_def)
    then show ?thesis using q up
      by (auto simp: same_work_def open_request_def sec_update_def intro!: bexI[of _ q])
  next
    case False
    obtain m where m: "m \<in> set rows" "stale_sec cutoff m \<and> host_id m = host_id p"
      "\<forall>q\<in>set rows. stale_sec cutoff q \<and> host_id q = host_id p \<longrightarrow> \<not> newer q m"
      using newest_exists[of p rows "\<lambda>m. stale_sec cutoff m \<and> host_id m = host_id p"] assms(2) st by blast
    have "\<not> not_first cutoff rows m" using m unfolding not_first_def list_ex_iff by auto
    then have "\<not> duplicate cutoff rows m" using m(2) False unfolding duplicate_def by auto
    then have "recovered now cutoff rows m = requeued timeout_message m"
      using m(2) by (simp add: recovered_def stale_sec_def)
    then show ?thesis using m up
      by (auto simp: same_work_def open_request_def stale_sec_def intro!: bexI[of _ m])
  qed
qed

lemma oldest_None: "oldest rs = None \<longleftrightarrow> rs = []"
  by (cases rs) (auto split: option.splits)

lemma oldest_min: "oldest rs = Some r \<Longrightarrow> r \<in> set rs \<and> (\<forall>q\<in>set rs. sr_created_at r \<le> sr_created_at q)"
proof (induction rs arbitrary: r)
  case (Cons a rs)
  then show ?case by (cases "oldest rs") (fastforce simp: oldest_None split: if_splits)+
qed simp

abbreviation after_claim :: "int \<Rightarrow> string \<Rightarrow> ScanRequest \<Rightarrow> scan_table \<Rightarrow> scan_table" where
  "after_claim now hostID r rows \<equiv> map (\<lambda>q. if sr_id q = sr_id r then claimed_row now hostID q else q) rows"

lemma ClaimScanRequest_cases:
  assumes "scan_index rows"
    and rows2_def: "rows2 = map (recovered now (now - effectiveTimeout timeout) rows) rows"
  obtains n c where "oldest (filter (claimable hostID) rows2) = None"
      "ClaimScanRequest now hostID timeout rows = Inr ((None, n, c), rows2)"
  | n c r where "oldest (filter (claimable hostID) rows2) = Some r"
      "ClaimScanRequest now hostID timeout rows = Inr ((Some (claimed_row now hostID r), n, c), after_claim now hostID r rows2)"
      "scan_index (after_claim now hostID r rows2)"
proof -
  have i: "scan_index rows2" unfolding rows2_def by (rule recovered_index[OF assms(1)])
  obtain n c where e: "RequeueStaleScanRequests now timeout rows = Inr ((n, c), rows2)"
    using RequeueStale_ok[OF assms(1)] unfolding rows2_def by blast
  show thesis
  proof (cases "oldest (filter (claimable hostID) rows2)")
    case None
    then show thesis using that(1) e by (simp add: ClaimScanRequest_def)
  next
    case (Some r)
    have u: "sql_update (\<lambda>q. sr_id q = sr_id r) (claimed_row now hostID) rows2
        = Inr (length (filter (\<lambda>q. sr_id q = sr_id r) rows2), after_claim now hostID r rows2)"
      "scan_index (after_claim now hostID r rows2)"
      by (rule sql_update_not_pending[OF i]; simp)+
    show thesis using that(2)[OF Some _ u(2)] e Some u(1) by (simp add: ClaimScanRequest_def)
  qed
qed

lemma after_claim_keeps:
  "\<exists>q\<in>set rows. open_request q \<and> same_work p q \<Longrightarrow> \<exists>q\<in>set (after_claim now h r rows). open_request q \<and> same_work p q"
proof -
  assume "\<exists>q\<in>set rows. open_request q \<and> same_work p q"
  then obtain q where q: "q \<in> set rows" "open_request q" "same_work p q" by blast
  let ?q = "if sr_id q = sr_id r then claimed_row now h q else q"
  have "?q \<in> set (after_claim now h r rows)" using q(1) by auto
  moreover have "open_request ?q" "same_work p ?q" using q(2,3) by (auto simp: same_work_def)
  ultimately show ?thesis by blast
qed

lemma after_claim_not_stale:
  "\<forall>q\<in>set rows. \<not> stale (now - effectiveTimeout timeout) q \<Longrightarrow>
   \<forall>q\<in>set (after_claim now h r rows). \<not> stale (now - effectiveTimeout timeout) q"
  by (auto simp: stale_def effectiveTimeout_def split: option.splits if_splits)

lemma after_claim_claimable:
  "q \<in> set (after_claim now h r rows) \<Longrightarrow> claimable hostID q \<Longrightarrow> q \<in> set rows"
  by (auto simp: claimable_def split: if_splits)



section \<open>Finishing and retrying\<close>

lemma find_id:
  assumes "scan_index rows" "find (\<lambda>r. sr_id r = k) rows = Some r"
  shows "r \<in> set rows \<and> sr_id r = k \<and> (\<forall>q\<in>set rows. sr_id q = k \<longrightarrow> q = r)"
proof -
  have r: "r \<in> set rows" "sr_id r = k" using assms(2) by (auto simp: find_Some_iff)
  then show ?thesis using row_unique[OF assms(1)] by blast
qed

lemma find_id_None: "find (\<lambda>r. sr_id r = k) rows = None \<Longrightarrow> q \<in> set rows \<Longrightarrow> sr_id q \<noteq> k"
  by (auto simp: find_None_iff)

lemma row_exists_find: "row_exists k rows \<longleftrightarrow> find (\<lambda>r. sr_id r = k) rows \<noteq> None"
  by (auto simp: row_exists_def find_None_iff list_ex_iff)

text \<open>A statement on one id, seen through the row it can touch.\<close>

lemma filter_one:
  assumes "scan_index rows" "find (\<lambda>r. sr_id r = k) rows = Some r"
  shows "filter (\<lambda>q. sr_id q = k \<and> P q) rows \<noteq> [] \<longleftrightarrow> P r"
  using find_id[OF assms] by (auto simp: filter_empty_conv)

lemma filter_none:
  "find (\<lambda>r. sr_id r = k) rows = None \<Longrightarrow> filter (\<lambda>q. sr_id q = k \<and> P q) rows = []"
  using find_id_None by (auto simp: filter_empty_conv)

lemma map_one:
  assumes "scan_index rows" "find (\<lambda>r. sr_id r = k) rows = Some r" "P r"
  shows "map (\<lambda>q. if sr_id q = k \<and> P q then f q else q) rows = map (\<lambda>q. if sr_id q = k then f q else q) rows"
  using find_id[OF assms(1,2)] assms(3) by (intro map_cong) auto

definition finished :: "int \<Rightarrow> string \<Rightarrow> string \<Rightarrow> ScanRequest \<Rightarrow> ScanRequest" where
  "finished now st message r = r\<lparr>status := st, error_message := message, completed_at := Some now\<rparr>"

lemma finished_update:
  assumes "scan_index rows" "st \<noteq> ''pending''"
  shows "sql_update P (\<lambda>r. r\<lparr>status := st, error_message := message, completed_at := Some now\<rparr>) rows
    = Inr (length (filter P rows), map (\<lambda>r. if P r then finished now st message r else r) rows)"
    and "scan_index (map (\<lambda>r. if P r then finished now st message r else r) rows)"
  unfolding finished_def
  by (rule sql_update_not_pending[OF assms(1)]; simp add: sec_pending_def assms(2))+

lemma CompleteClaimed_cases:
  assumes "scan_index rows"
  shows "CompleteClaimedScanRequest now k hostID st message rows =
    (if hostID = [] then Inl ErrScanRequestClaimMismatch
     else if st \<notin> {''completed'', ''degraded'', ''failed''} then Inl (ErrInvalidScanRequestStatus st)
     else case find (\<lambda>r. sr_id r = k) rows of
            None \<Rightarrow> Inl ErrScanRequestNotFound
          | Some r \<Rightarrow>
              if status r \<noteq> ''claimed'' then Inl ErrScanRequestNotActive
              else if claimed_by_host_id r \<noteq> hostID then Inl ErrScanRequestClaimMismatch
              else Inr (map (\<lambda>q. if sr_id q = k then finished now st message q else q) rows))"
proof -
  let ?P = "\<lambda>r. status r = ''claimed'' \<and> claimed_by_host_id r = hostID"
  show ?thesis
  proof (cases "hostID = [] \<or> st \<notin> {''completed'', ''degraded'', ''failed''}")
    case False
    then have st: "st \<noteq> ''pending''" by auto
    note u = finished_update(1)[OF assms st, where P = "\<lambda>r. sr_id r = k \<and> ?P r"]
    show ?thesis
    proof (cases "find (\<lambda>r. sr_id r = k) rows")
      case None
      then have "filter (\<lambda>r. sr_id r = k \<and> ?P r) rows = []" by (rule filter_none)
      then show ?thesis using False None by (simp add: CompleteClaimedScanRequest_def u del: filter_empty_conv)
    next
      case (Some r)
      show ?thesis
      proof (cases "?P r")
        case True
        then have "filter (\<lambda>r. sr_id r = k \<and> ?P r) rows \<noteq> []"
          using filter_one[OF assms Some, of ?P] by blast
        then have "0 < length (filter (\<lambda>r. sr_id r = k \<and> ?P r) rows)" by blast
        then show ?thesis using False Some True map_one[OF assms Some, of ?P "finished now st message"]
          by (simp add: CompleteClaimedScanRequest_def u del: filter_empty_conv)
      next
        case n: False
        then have "filter (\<lambda>r. sr_id r = k \<and> ?P r) rows = []"
          using filter_one[OF assms Some, of ?P] by blast
        then show ?thesis using False Some n by (auto simp: CompleteClaimedScanRequest_def u)
      qed
    qed
  qed (auto simp: CompleteClaimedScanRequest_def)
qed

text \<open>
  C18: an agent finishes exactly the request it holds: on a table that satisfies the index, for a named
  host and a final status, the request with the id is finished and every other row kept when that host
  holds its claim; otherwise nothing changes and the error names the reason in the order not found, not
  active, claimed by another host. The two invalid arguments are refused before the table is read.
\<close>

theorem CompleteClaimedScanRequest_exact:
  assumes "scan_index rows"
  shows "CompleteClaimedScanRequest now k hostID st message rows =
    (if hostID = [] then Inl ErrScanRequestClaimMismatch
     else if st \<notin> {''completed'', ''degraded'', ''failed''} then Inl (ErrInvalidScanRequestStatus st)
     else case find (\<lambda>r. sr_id r = k) rows of
            None \<Rightarrow> Inl ErrScanRequestNotFound
          | Some r \<Rightarrow>
              if status r \<noteq> ''claimed'' then Inl ErrScanRequestNotActive
              else if claimed_by_host_id r \<noteq> hostID then Inl ErrScanRequestClaimMismatch
              else Inr (map (\<lambda>q. if sr_id q = k then finished now st message q else q) rows))"
  by (rule CompleteClaimed_cases[OF assms])

lemma CompleteClaimedScanRequest_exact_witness:
  "CompleteClaimedScanRequest 9 ''r1'' ''h'' ''failed'' ''x''
     [(rescanRow ''r1'' 0 ''h'' [] [] [])\<lparr>status := ''claimed'', claimed_by_host_id := ''other''\<rparr>]
   = Inl ErrScanRequestClaimMismatch"
proof -
  have i: "scan_index [(rescanRow ''r1'' 0 ''h'' [] [] [])\<lparr>status := ''claimed'', claimed_by_host_id := ''other''\<rparr>]"
    by code_simp
  show ?thesis using CompleteClaimedScanRequest_exact[OF i, of 9 "''r1''" "''h''" "''failed''" "''x''"]
    by (simp add: rescanRow_def)
qed

lemma retried_simps [simp]:
  "sr_id (retried m r) = sr_id r" "host_id (retried m r) = host_id r" "scan_type (retried m r) = scan_type r"
  "sec_update (retried m r) = sec_update r" "sec_pending (retried m r) = sec_update r" "status (retried m r) = ''pending''"
  by (simp_all add: retried_def sec_pending_def sec_update_def)

lemma retryable_not_pending: "retryable r \<Longrightarrow> \<not> sec_pending r"
  unfolding retryable_def sec_pending_def by auto

lemma blocked_iff:
  "blocked rows r \<longleftrightarrow> scan_type r = ''security-db-update''
     \<and> (\<exists>p\<in>set rows. sr_id p \<noteq> sr_id r \<and> sec_pending p \<and> host_id p = host_id r)"
  unfolding blocked_def list_ex_iff sec_pending_def sec_update_def by auto

text \<open>What a retry of the rows \<open>P\<close> does, when no two of them are security-db-updates of one host.\<close>

lemma retry_update:
  assumes "scan_index rows" "\<And>r. P r \<Longrightarrow> retryable r \<and> \<not> blocked rows r"
    and "\<And>a b. a \<in> set rows \<Longrightarrow> b \<in> set rows \<Longrightarrow> P a \<Longrightarrow> P b \<Longrightarrow> sec_update a \<Longrightarrow> sec_update b
          \<Longrightarrow> host_id a = host_id b \<Longrightarrow> a = b"
  shows "sql_update P (retried m) rows = Inr (length (filter P rows), map (\<lambda>r. if P r then retried m r else r) rows)"
    and "scan_index (map (\<lambda>r. if P r then retried m r else r) rows)"
proof -
  have mixed: "False" if "a \<in> set rows" "b \<in> set rows" "P a" "sec_update a" "\<not> P b" "sec_pending b"
    "host_id a = host_id b" for a b
  proof -
    have "sr_id b \<noteq> sr_id a" using that(1,2,3,5) row_unique[OF assms(1)] by metis
    then have "blocked rows a" unfolding blocked_iff using that by (auto simp: sec_update_def)
    then show False using assms(2) that(3) by blast
  qed
  have "a = b" if "a \<in> set rows" "b \<in> set rows" "sec_pending (if P a then retried m a else a)"
    "sec_pending (if P b then retried m b else b)"
    "host_id (if P a then retried m a else a) = host_id (if P b then retried m b else b)" for a b
    using that assms(3)[of a b] mixed[of a b] mixed[of b a] assms(1)
    unfolding scan_index_iff by (auto split: if_splits)
  then show "sql_update P (retried m) rows = Inr (length (filter P rows), map (\<lambda>r. if P r then retried m r else r) rows)"
    "scan_index (map (\<lambda>r. if P r then retried m r else r) rows)"
    using sql_update_ok[of rows "retried m" P] assms(1) retried_simps(1) by blast+
qed

text \<open>
  Retrying one request never runs into the unique index: the request becomes pending, unclaimed and
  unfinished, all other rows staying, exactly when it is failed, degraded or cancelled and its host has no
  other pending security-db update; otherwise the table stays and the error tells an unknown id from a
  request that cannot be retried.
\<close>

theorem RequeueScanRequest_exact:
  assumes "scan_index rows"
  shows "RequeueScanRequest k message rows =
    (case find (\<lambda>r. sr_id r = k) rows of
       None \<Rightarrow> Inl ErrScanRequestNotFound
     | Some r \<Rightarrow>
         if retryable r \<and> \<not> blocked rows r
         then Inr (map (\<lambda>q. if sr_id q = k
                            then retried (if message = [] then ''requeued by admin'' else message) q else q) rows)
         else Inl ErrScanRequestNotRetryable)"
proof -
  let ?P = "\<lambda>r. retryable r \<and> \<not> blocked rows r"
  define m where "m = (if message = [] then ''requeued by admin'' else message)"
  have u: "sql_update (\<lambda>r. sr_id r = k \<and> ?P r) (retried m) rows
      = Inr (length (filter (\<lambda>r. sr_id r = k \<and> ?P r) rows), map (\<lambda>r. if sr_id r = k \<and> ?P r then retried m r else r) rows)"
    by (rule retry_update(1)[OF assms]) (use row_unique[OF assms] in auto)
  show ?thesis
  proof (cases "find (\<lambda>r. sr_id r = k) rows")
    case None
    have "filter (\<lambda>r. sr_id r = k \<and> ?P r) rows = []" using None by (rule filter_none)
    then show ?thesis
      unfolding RequeueScanRequest_def Let_def m_def[symmetric] u using None
      by (simp add: row_exists_find del: filter_empty_conv)
  next
    case (Some r)
    show ?thesis
    proof (cases "?P r")
      case True
      then have "filter (\<lambda>r. sr_id r = k \<and> ?P r) rows \<noteq> []" using filter_one[OF assms Some, of ?P] by blast
      then have "0 < length (filter (\<lambda>r. sr_id r = k \<and> ?P r) rows)" by blast
      then show ?thesis
        unfolding RequeueScanRequest_def Let_def m_def[symmetric] u
        using Some True map_one[OF assms Some, of ?P "retried m"]
        by (simp del: filter_empty_conv)
    next
      case n: False
      then have "filter (\<lambda>r. sr_id r = k \<and> ?P r) rows = []" using filter_one[OF assms Some, of ?P] by blast
      then show ?thesis
        unfolding RequeueScanRequest_def Let_def m_def[symmetric] u using Some n
        by (auto simp: row_exists_find)
    qed
  qed
qed

lemma RequeueScanRequest_exact_witness:
  "RequeueScanRequest ''r1'' []
     [(rescanRow ''r1'' 0 ''h'' [] [] [])\<lparr>status := ''failed''\<rparr>, rescanRow ''r2'' 3 ''h'' [] [] []]
   = Inl ErrScanRequestNotRetryable"
proof -
  let ?rows = "[(rescanRow ''r1'' 0 ''h'' [] [] [])\<lparr>status := ''failed''\<rparr>, rescanRow ''r2'' 3 ''h'' [] [] []]"
  have i: "scan_index ?rows" by code_simp
  have b: "blocked ?rows (hd ?rows)" by code_simp
  show ?thesis using RequeueScanRequest_exact[OF i, of "''r1''" "[]"] b by (simp add: rescanRow_def)
qed

text \<open>
  A bulk retry succeeds when no host has two matching security-db updates: it reports how many
  requests it reset, resets exactly the matching unblocked ones and keeps the index.
\<close>

theorem RequeueScanRequestsByFilter_ok:
  assumes "scan_index rows"
    and "\<forall>a\<in>set rows. \<forall>b\<in>set rows. matches hostID st scanType revision a \<and> matches hostID st scanType revision b
           \<and> sec_update a \<and> sec_update b \<and> host_id a = host_id b \<longrightarrow> a = b"
  shows "\<exists>m rows'. RequeueScanRequestsByFilter hostID st scanType revision message rows
           = Inr (length (filter (\<lambda>r. matches hostID st scanType revision r \<and> \<not> blocked rows r) rows), rows')
    \<and> rows' = map (\<lambda>r. if matches hostID st scanType revision r \<and> \<not> blocked rows r then retried m r else r) rows
    \<and> m \<noteq> [] \<and> scan_index rows'"
proof -
  define m where "m = (if message = [] then ''bulk requeued by admin'' else message)"
  let ?P = "\<lambda>r. matches hostID st scanType revision r \<and> \<not> blocked rows r"
  have r: "?P r \<Longrightarrow> retryable r \<and> \<not> blocked rows r" for r by (simp add: matches_def)
  note u = retry_update[OF assms(1), of ?P m]
  have "sql_update ?P (retried m) rows = Inr (length (filter ?P rows), map (\<lambda>r. if ?P r then retried m r else r) rows)"
    "scan_index (map (\<lambda>r. if ?P r then retried m r else r) rows)"
    using u r assms(2) by blast+
  moreover have "m \<noteq> []" by (simp add: m_def)
  ultimately show ?thesis
    unfolding RequeueScanRequestsByFilter_def Let_def m_def[symmetric] by blast
qed

lemma RequeueScanRequestsByFilter_ok_witness:
  "\<exists>x. RequeueScanRequestsByFilter ''h'' [] [] [] [] [(rescanRow ''r1'' 0 ''h'' [] [] [])\<lparr>status := ''failed''\<rparr>] = Inr x"
proof -
  have i: "scan_index [(rescanRow ''r1'' 0 ''h'' [] [] [])\<lparr>status := ''failed''\<rparr>]" by code_simp
  show ?thesis
    using RequeueScanRequestsByFilter_ok[OF i, of "''h''" "[]" "[]" "[]" "[]"] by (simp del: ex_simps) blast
qed

text \<open>
  Two failed security-db updates of one host, which the queue can hold, make the bulk retry fail as a
  whole: both pass the \<^verbatim>\<open>NOT EXISTS\<close> and together break the unique index.
\<close>

lemma bulk_retry_conflict:
  "RequeueScanRequestsByFilter [] ''failed'' [] [] []
     [(rescanRow ''r1'' 0 ''h'' [] [] [])\<lparr>status := ''failed''\<rparr>,
      (rescanRow ''r2'' 9 ''h'' [] [] [])\<lparr>status := ''failed''\<rparr>,
      (rescanRow ''r3'' 9 ''g'' [] [] [])\<lparr>status := ''failed''\<rparr>] = Inl UniqueViolation"
  by code_simp

section \<open>Queueing rescans\<close>

definition pending_for :: "scan_table \<Rightarrow> string \<Rightarrow> bool" where
  "pending_for rows h = list_ex (\<lambda>r. sec_pending r \<and> host_id r = h) rows"

text \<open>A pending rescan of the host that carries this request's data.\<close>

definition current_rescan :: "int \<Rightarrow> string \<Rightarrow> string \<Rightarrow> string \<Rightarrow> string \<Rightarrow> ScanRequest \<Rightarrow> bool" where
  "current_rescan now requestedBy reason revision h r \<longleftrightarrow> sec_pending r \<and> host_id r = h
     \<and> security_db_revision r = revision \<and> requested_by r = requestedBy \<and> req_reason r = reason \<and> sr_created_at r = now"

lemma refresh_simps [simp]:
  "sr_id (refreshRescan now b c v r) = sr_id r" "host_id (refreshRescan now b c v r) = host_id r"
  "sec_pending (refreshRescan now b c v r) = sec_pending r"
  "current_rescan now b c v h (refreshRescan now b c v r) = (sec_pending r \<and> host_id r = h)"
  by (auto simp: refreshRescan_def sec_pending_def sec_update_def current_rescan_def)

lemma rescanRow_simps [simp]:
  "sr_id (rescanRow k now g b c v) = k" "host_id (rescanRow k now g b c v) = g"
  "sec_pending (rescanRow k now g b c v) = (g \<noteq> [])"
  "current_rescan now b c v h (rescanRow k now g b c v) = (g \<noteq> [] \<and> g = h)"
  by (auto simp: rescanRow_def sec_pending_def sec_update_def current_rescan_def)

lemma rescan_insert_step:
  assumes "scan_index rows" "h \<noteq> []" "\<not> row_exists k rows"
  obtains rows' where "queueSecurityDBRescanInsert k now h b c v rows = Inr (\<not> pending_for rows h, rows')"
    "scan_index rows'" "\<And>g. g \<noteq> h \<Longrightarrow> pending_for rows' g = pending_for rows g"
    "\<And>j. row_exists j rows' \<Longrightarrow> j = k \<or> row_exists j rows"
    "\<exists>r\<in>set rows'. current_rescan now b c v h r"
    "\<And>r. r \<in> set rows \<Longrightarrow> \<not> (sec_pending r \<and> host_id r = h) \<Longrightarrow> r \<in> set rows'"
proof (cases "pending_for rows h")
  case True
  define G where "G = (\<lambda>r. if sec_pending r \<and> host_id r = h then refreshRescan now b c v r else r)"
  have g: "sr_id (G r) = sr_id r" "host_id (G r) = host_id r" "sec_pending (G r) = sec_pending r"
    "\<not> (sec_pending r \<and> host_id r = h) \<Longrightarrow> G r = r"
    "sec_pending r \<Longrightarrow> host_id r = h \<Longrightarrow> current_rescan now b c v h (G r)" for r by (auto simp: G_def)
  have "queueSecurityDBRescanInsert k now h b c v rows = Inr (\<not> pending_for rows h, map G rows)"
    using True assms(2) by (simp add: queueSecurityDBRescanInsert_def pending_for_def G_def)
  moreover have "scan_index (map G rows)"
    by (rule scan_index_map[OF assms(1)]) (use assms(1) in \<open>auto simp: scan_index_iff g\<close>)
  moreover have "\<exists>r\<in>set (map G rows). current_rescan now b c v h r"
    using True g(5) by (auto simp: pending_for_def list_ex_iff)
  moreover have "j = k \<or> row_exists j rows" if "row_exists j (map G rows)" for j
    using that by (auto simp: row_exists_def list_ex_iff g)
  moreover have "pending_for (map G rows) q = pending_for rows q" for q
    by (auto simp: pending_for_def list_ex_iff g)
  moreover have "r \<in> set (map G rows)" if "r \<in> set rows" "\<not> (sec_pending r \<and> host_id r = h)" for r
    using that g(4)[of r] by force
  ultimately show thesis using that[of "map G rows"] by blast
next
  case False
  let ?r = "rescanRow k now h b c v"
  have "queueSecurityDBRescanInsert k now h b c v rows = Inr (\<not> pending_for rows h, rows @ [?r])"
    using False assms(2,3) by (simp add: queueSecurityDBRescanInsert_def pending_for_def)
  moreover have "scan_index (rows @ [?r])"
    using assms(1,3) False unfolding scan_index_def pending_for_def row_exists_def list_ex_iff by auto
  moreover have "\<exists>r\<in>set (rows @ [?r]). current_rescan now b c v h r" using assms(2) by auto
  moreover have "pending_for (rows @ [?r]) q = pending_for rows q" if "q \<noteq> h" for q
    using that by (simp add: pending_for_def)
  ultimately show thesis using that[of "rows @ [?r]"] by (auto simp: row_exists_def)
qed

definition counted :: "SecurityDBRescanQueueResult \<Rightarrow> nat \<Rightarrow> nat \<Rightarrow> SecurityDBRescanQueueResult" where
  "counted res q p = res\<lparr>Eligible := Eligible res + q + p, Queued := Queued res + q,
     AlreadyPending := AlreadyPending res + p\<rparr>"

lemma queueLoop_ok:
  assumes "scan_index rows" "distinct (map fst hosts)" "\<forall>(h, k)\<in>set hosts. h \<noteq> [] \<and> \<not> row_exists k rows"
    and "distinct (map snd hosts)"
  shows "\<exists>rows'. queueLoop now b c v hosts res rows
      = Inr (counted res (length (filter (\<lambda>(h, _). \<not> pending_for rows h) hosts))
                         (length (filter (\<lambda>(h, _). pending_for rows h) hosts)), rows')
    \<and> scan_index rows'
    \<and> (\<forall>h\<in>fst ` set hosts. \<exists>r\<in>set rows'. current_rescan now b c v h r)
    \<and> (\<forall>r\<in>set rows. \<not> (sec_pending r \<and> host_id r \<in> fst ` set hosts) \<longrightarrow> r \<in> set rows')"
  using assms
proof (induction hosts arbitrary: rows res)
  case Nil
  then show ?case by (simp add: counted_def)
next
  case (Cons x hosts)
  obtain h k where x: "x = (h, k)" by (rule prod.exhaust)
  have pre: "h \<noteq> []" "\<not> row_exists k rows" using Cons.prems(3) x by auto
  obtain rows1 where s: "queueSecurityDBRescanInsert k now h b c v rows = Inr (\<not> pending_for rows h, rows1)"
    "scan_index rows1" "\<And>g. g \<noteq> h \<Longrightarrow> pending_for rows1 g = pending_for rows g"
    "\<And>j. row_exists j rows1 \<Longrightarrow> j = k \<or> row_exists j rows"
    "\<exists>r\<in>set rows1. current_rescan now b c v h r"
    "\<And>r. r \<in> set rows \<Longrightarrow> \<not> (sec_pending r \<and> host_id r = h) \<Longrightarrow> r \<in> set rows1"
    by (rule rescan_insert_step[OF Cons.prems(1) pre, of now b c v]) blast
  define res1 where "res1 = counted res (if pending_for rows h then 0 else 1) (if pending_for rows h then 1 else 0)"
  have fresh: "h \<notin> fst ` set hosts" "k \<notin> snd ` set hosts" using Cons.prems(2,4) x by auto
  have ne: "g \<noteq> h" if "(g, j) \<in> set hosts" for g j using fresh(1) that by force
  have kne: "j \<noteq> k" if "(g, j) \<in> set hosts" for g j using fresh(2) that by force
  have pre1: "\<forall>(g, j)\<in>set hosts. g \<noteq> [] \<and> \<not> row_exists j rows1"
    using Cons.prems(3) s(4) kne by fastforce
  have same: "filter (\<lambda>(g, _). pending_for rows1 g) hosts = filter (\<lambda>(g, _). pending_for rows g) hosts"
    "filter (\<lambda>(g, _). \<not> pending_for rows1 g) hosts = filter (\<lambda>(g, _). \<not> pending_for rows g) hosts"
    using s(3) ne by (auto intro!: filter_cong)
  obtain rows' where l: "queueLoop now b c v hosts res1 rows1
      = Inr (counted res1 (length (filter (\<lambda>(g, _). \<not> pending_for rows g) hosts))
                          (length (filter (\<lambda>(g, _). pending_for rows g) hosts)), rows')"
    "scan_index rows'" "\<forall>g\<in>fst ` set hosts. \<exists>r\<in>set rows'. current_rescan now b c v g r"
    "\<forall>r\<in>set rows1. \<not> (sec_pending r \<and> host_id r \<in> fst ` set hosts) \<longrightarrow> r \<in> set rows'"
    using Cons.IH[OF s(2) _ pre1, of res1] Cons.prems(2,4) same by auto
  have "queueLoop now b c v (x # hosts) res rows = queueLoop now b c v hosts res1 rows1"
    by (simp add: x s(1) res1_def counted_def Let_def)
  moreover have "counted res1 (length (filter (\<lambda>(g, _). \<not> pending_for rows g) hosts))
        (length (filter (\<lambda>(g, _). pending_for rows g) hosts))
      = counted res (length (filter (\<lambda>(g, _). \<not> pending_for rows g) (x # hosts)))
          (length (filter (\<lambda>(g, _). pending_for rows g) (x # hosts)))"
    by (simp add: x res1_def counted_def)
  moreover have "\<exists>r\<in>set rows'. current_rescan now b c v h r"
    using s(5) l(4) fresh(1) by (metis current_rescan_def)
  moreover have "\<forall>r\<in>set rows. \<not> (sec_pending r \<and> host_id r \<in> fst ` set (x # hosts)) \<longrightarrow> r \<in> set rows'"
    using s(6) l(4) x by auto
  ultimately show ?case using l(1,2,3) x by auto
qed

definition eligibleHosts :: "int option \<Rightarrow> (string \<times> int) list \<Rightarrow> (string \<times> int) list" where
  "eligibleHosts lastSeenAfter hosts =
     (case lastSeenAfter of None \<Rightarrow> hosts | Some t \<Rightarrow> filter (\<lambda>(h, seen). seen \<ge> t) hosts)"

text \<open>
  A security-database update reaches every eligible host exactly once: with distinct host ids and
  fresh request ids the transaction succeeds and keeps the index, every eligible host has a pending rescan
  with the new revision, requester and reason, the counters add up, and no other request is touched.
\<close>

theorem QueueSecurityDBRescans_complete:
  assumes "scan_index rows" "distinct (map fst hosts)" "inj_on newId (fst ` set hosts)"
    and "\<forall>h\<in>fst ` set hosts. h \<noteq> [] \<and> \<not> row_exists (newId h) rows"
  shows "\<exists>res rows'. QueueSecurityDBRescans newId now requestedBy reason revision lastSeenAfter hosts rows = Inr (res, rows')
    \<and> scan_index rows'
    \<and> Eligible res = length (eligibleHosts lastSeenAfter hosts)
    \<and> Queued res + AlreadyPending res = Eligible res
    \<and> AlreadyPending res = length (filter (\<lambda>(h, _). pending_for rows h) (eligibleHosts lastSeenAfter hosts))
    \<and> (\<forall>h\<in>fst ` set (eligibleHosts lastSeenAfter hosts).
         \<exists>r\<in>set rows'. current_rescan now requestedBy reason revision h r)
    \<and> (\<forall>r\<in>set rows. \<not> (sec_pending r \<and> host_id r \<in> fst ` set (eligibleHosts lastSeenAfter hosts)) \<longrightarrow> r \<in> set rows')"
proof -
  define el where "el = eligibleHosts lastSeenAfter hosts"
  define pairs where "pairs = map (\<lambda>(h, _). (h, newId h)) el"
  have sub: "set el \<subseteq> set hosts" "distinct (map fst el)"
    using assms(2) by (auto simp: el_def eligibleHosts_def distinct_map_filter split: option.splits)
  have inj: "inj_on newId (fst ` set el)" using assms(3) sub(1) by (meson image_mono inj_on_subset)
  have fsts: "map fst pairs = map fst el" and snds: "map snd pairs = map newId (map fst el)"
    by (simp_all add: pairs_def case_prod_beta comp_def)
  have d: "distinct (map fst pairs)" "distinct (map snd pairs)"
    unfolding fsts snds using sub(2) inj by (simp_all only: distinct_map set_map)
  have ok: "\<forall>(h, k)\<in>set pairs. h \<noteq> [] \<and> \<not> row_exists k rows"
    using assms(4) sub(1) by (force simp: pairs_def)
  have len: "length (filter (\<lambda>(h, _). pending_for rows h) pairs) = length (filter (\<lambda>(h, _). pending_for rows h) el)"
    "length (filter (\<lambda>(h, _). \<not> pending_for rows h) pairs) = length (filter (\<lambda>(h, _). \<not> pending_for rows h) el)"
    unfolding pairs_def by (simp_all add: filter_map comp_def case_prod_unfold)
  have total: "length (filter (\<lambda>(h, _). \<not> pending_for rows h) el) + length (filter (\<lambda>(h, _). pending_for rows h) el) = length el"
    using sum_length_filter_compl[of "\<lambda>(h, _). pending_for rows h" el] by (simp add: case_prod_unfold)
  have hosts: "fst ` set pairs = fst ` set el" using fsts by (metis set_map)
  have q: "QueueSecurityDBRescans newId now requestedBy reason revision lastSeenAfter hosts rows
      = queueLoop now requestedBy reason revision pairs \<lparr>Eligible = 0, Queued = 0, AlreadyPending = 0\<rparr> rows"
    by (simp add: QueueSecurityDBRescans_def pairs_def el_def eligibleHosts_def)
  show ?thesis
    using queueLoop_ok[OF assms(1) d(1) ok d(2), of now requestedBy reason revision "\<lparr>Eligible = 0, Queued = 0, AlreadyPending = 0\<rparr>"] total
    unfolding q el_def[symmetric] len hosts by (force simp: counted_def)
qed

lemma QueueSecurityDBRescans_complete_witness:
  "\<exists>res rows'. QueueSecurityDBRescans (\<lambda>h. ''new-'' @ h) 50 ''api'' [] ''v2'' (Some 10) [(''g'', 3), (''h'', 20)]
      [rescanRow ''r1'' 0 ''h'' ''api'' [] ''v1''] = Inr (res, rows') \<and> Eligible res = 1"
proof -
  have i: "scan_index [rescanRow ''r1'' 0 ''h'' ''api'' [] ''v1'']" by code_simp
  have "inj_on (\<lambda>h. ''new-'' @ h) (fst ` set [(''g'', 3), (''h'', 20)])" by (simp add: inj_on_def)
  moreover have "\<forall>h\<in>fst ` set [(''g'', 3), (''h'', 20)]. h \<noteq> [] \<and> \<not> row_exists (''new-'' @ h) [rescanRow ''r1'' 0 ''h'' ''api'' [] ''v1'']"
    by (simp add: row_exists_def)
  ultimately show ?thesis
    using QueueSecurityDBRescans_complete[OF i, of "[(''g'', 3), (''h'', 20)]" "\<lambda>h. ''new-'' @ h" 50 "''api''" "[]" "''v2''" "Some 10"]
    by (auto simp: eligibleHosts_def)
qed

section \<open>Every reachable table\<close>

text \<open>The create handler normalises its request before the insert.\<close>

definition validScanRequestType :: "string \<Rightarrow> bool" where
  "validScanRequestType t \<longleftrightarrow> t = ''manual'' \<or> t = ''daily'' \<or> t = ''security-db-update''"

definition normalizeScanRequestCreate :: "ScanRequest \<Rightarrow> ScanRequest option" where
  "normalizeScanRequestCreate req =
     (let requestedBy = TrimSpace (requested_by req); scanType = TrimSpace (scan_type req);
          req = req\<lparr>host_id := TrimSpace (host_id req), req_reason := TrimSpace (req_reason req),
                     requested_by := (if requestedBy = [] then ''api'' else requestedBy),
                     scan_type := (if scanType = [] then ''manual'' else scanType)\<rparr>
      in if \<not> validScanRequestType (scan_type req) then None
         else Some (req\<lparr>status := ''pending'', error_message := [],
                         security_db_revision := TrimSpace (security_db_revision req),
                         claimed_by_host_id := [], claimed_at := None, completed_at := None\<rparr>))"

inductive scan_step :: "scan_table \<Rightarrow> scan_table \<Rightarrow> bool" where
  create: "normalizeScanRequestCreate req = Some req' \<Longrightarrow> CreateScanRequest newId now req' rows = Inr rows' \<Longrightarrow> scan_step rows rows'"
| queue: "QueueSecurityDBRescans newIds now requestedBy reason revision lastSeenAfter hosts rows = Inr (res, rows') \<Longrightarrow> scan_step rows rows'"
| recover: "RequeueStaleScanRequests now timeout rows = Inr (res, rows') \<Longrightarrow> scan_step rows rows'"
| claim: "ClaimScanRequest now h timeout rows = Inr (res, rows') \<Longrightarrow> scan_step rows rows'"
| cancel: "CompleteScanRequest now k st msg rows = Inr rows' \<Longrightarrow> scan_step rows rows'"
| finish: "CompleteClaimedScanRequest now k h st msg rows = Inr rows' \<Longrightarrow> scan_step rows rows'"
| retry: "RequeueScanRequest k msg rows = Inr rows' \<Longrightarrow> scan_step rows rows'"
| retry_all: "RequeueScanRequestsByFilter h st scanType revision msg rows = Inr (n, rows') \<Longrightarrow> scan_step rows rows'"

inductive scan_reachable :: "scan_table \<Rightarrow> bool" where
  start: "scan_reachable []"
| step: "scan_reachable rows \<Longrightarrow> scan_step rows rows' \<Longrightarrow> scan_reachable rows'"

definition dated :: "ScanRequest \<Rightarrow> bool" where
  "dated r \<longleftrightarrow> (status r = ''claimed'' \<longrightarrow> claimed_at r \<noteq> None)"

definition sound_table :: "scan_table \<Rightarrow> bool" where
  "sound_table rows \<longleftrightarrow> scan_index rows \<and> list_all dated rows"

lemma dated_simps [simp]:
  "dated (cancelled_duplicate now r)" "dated (requeued m r)" "dated (claimed_row now h r)" "dated (retried m r)"
  "dated (rescanRow k now h b c v)"
  by (simp_all add: dated_def rescanRow_def)

lemma sql_update_sound:
  assumes "sql_update P f rows = Inr (n, rows')" "sound_table rows" "\<And>r. P r \<Longrightarrow> dated r \<Longrightarrow> dated (f r)"
  shows "sound_table rows'"
  using assms by (auto simp: sql_update_def Let_def sound_table_def list_all_iff split: if_splits)

lemma rescan_insert_sound:
  assumes "queueSecurityDBRescanInsert k now h b c v rows = Inr (ins, rows')" "sound_table rows"
  shows "sound_table rows'"
proof (cases "h \<noteq> [] \<and> \<not> row_exists k rows")
  case True
  have s: "scan_index rows" using assms(2) by (simp add: sound_table_def)
  obtain rows1 where "queueSecurityDBRescanInsert k now h b c v rows = Inr (\<not> pending_for rows h, rows1)" "scan_index rows1"
    using rescan_insert_step[OF s, of h k] True by metis
  moreover have "list_all dated rows'"
    using assms by (auto simp: queueSecurityDBRescanInsert_def sound_table_def list_all_iff dated_def
        refreshRescan_def sec_pending_def rescanRow_def split: if_splits)
  ultimately show ?thesis using assms(1) by (simp add: sound_table_def)
next
  case False
  show ?thesis
  proof (cases "h = []")
    case True
    then have "rows' = rows @ [rescanRow k now [] b c v]" "\<not> row_exists k rows"
      using assms(1) by (auto simp: queueSecurityDBRescanInsert_def split: if_splits)
    then show ?thesis using assms(2)
      by (auto simp: sound_table_def scan_index_def row_exists_def list_ex_iff)
  next
    case h: False
    then have e: "row_exists k rows" using False by simp
    let ?G = "\<lambda>r. if sec_pending r \<and> host_id r = h then refreshRescan now b c v r else r"
    have r: "rows' = map ?G rows"
      using assms(1) h e by (auto simp: queueSecurityDBRescanInsert_def split: if_splits)
    define G where "G = ?G"
    have g: "sr_id (G r) = sr_id r" "host_id (G r) = host_id r" "sec_pending (G r) = sec_pending r"
      "dated r \<Longrightarrow> dated (G r)" for r by (auto simp: G_def dated_def) (auto simp: refreshRescan_def sec_pending_def)
    have "scan_index (map G rows)"
      by (rule scan_index_map) (use assms(2) in \<open>auto simp: sound_table_def scan_index_iff g\<close>)
    then show ?thesis unfolding r G_def[symmetric] using assms(2) g(4) by (auto simp: sound_table_def list_all_iff)
  qed
qed

lemma queueLoop_sound:
  "queueLoop now b c v hosts res rows = Inr (res', rows') \<Longrightarrow> sound_table rows \<Longrightarrow> sound_table rows'"
proof (induction now b c v hosts res rows rule: queueLoop.induct)
  case (2 now b c v h k hosts res rows)
  obtain ins rows1 where i: "queueSecurityDBRescanInsert k now h b c v rows = Inr (ins, rows1)"
    using 2(2) by (auto split: sum.splits)
  show ?case
    by (rule 2(1)[OF i refl refl refl _ rescan_insert_sound[OF i 2(3)]])
      (use 2(2) i in \<open>simp only: queueLoop.simps sum.case prod.case Let_def\<close>)
qed simp

lemma CreateScanRequest_sound:
  assumes "normalizeScanRequestCreate req = Some req'" "CreateScanRequest k now req' rows = Inr rows'" "sound_table rows"
  shows "sound_table rows'"
proof -
  have "status req' = ''pending''"
    using assms(1) by (auto simp: normalizeScanRequestCreate_def Let_def split: if_splits)
  then show ?thesis
    using assms(2,3) by (auto simp: CreateScanRequest_def Let_def sound_table_def dated_def split: if_splits)
qed

lemma requeue_sound:
  assumes "RequeueStaleScanRequests now timeout rows = Inr (res, rows')" "sound_table rows"
  shows "sound_table rows'"
proof -
  have s: "scan_index rows" using assms(2) by (simp add: sound_table_def)
  have r: "rows' = map (recovered now (now - effectiveTimeout timeout) rows) rows"
    using RequeueStale_ok[OF s, of now timeout] assms(1) by auto
  have "dated r \<Longrightarrow> dated (recovered now cutoff rows r)" for cutoff r by (simp add: recovered_def)
  then show ?thesis
    using recovered_index[OF s] assms(2) unfolding r by (auto simp: sound_table_def list_all_iff)
qed

lemma claim_sound:
  assumes "ClaimScanRequest now h timeout rows = Inr (res, rows')" "sound_table rows"
  shows "sound_table rows'"
proof -
  obtain e rows2 where e: "RequeueStaleScanRequests now timeout rows = Inr (e, rows2)"
    using assms(1) by (auto simp: ClaimScanRequest_def split: sum.splits)
  have s: "sound_table rows2" by (rule requeue_sound[OF e assms(2)])
  show ?thesis
    using assms(1) e s by (auto simp: ClaimScanRequest_def split: sum.splits option.splits prod.splits
        intro: sql_update_sound[OF _ s])
qed

lemma finish_sound:
  assumes "sql_update P (\<lambda>r. r\<lparr>status := st, error_message := msg, completed_at := Some now\<rparr>) rows = Inr (n, rows')"
    "sound_table rows" "st \<noteq> ''claimed''"
  shows "sound_table rows'"
  using assms(1,2) by (rule sql_update_sound) (simp add: dated_def assms(3))

lemma scan_step_sound: "scan_step rows rows' \<Longrightarrow> sound_table rows \<Longrightarrow> sound_table rows'"
proof (induction rule: scan_step.induct)
  case (create req req' k now rows rows')
  then show ?case using CreateScanRequest_sound by blast
next
  case (queue newIds now b c v after hosts rows res rows')
  then show ?case unfolding QueueSecurityDBRescans_def Let_def using queueLoop_sound by blast
next
  case (recover now timeout rows res rows')
  then show ?case using requeue_sound by blast
next
  case (claim now h timeout rows res rows')
  then show ?case using claim_sound by blast
next
  case (cancel now k st msg rows rows')
  then show ?case
    by (auto simp: CompleteScanRequest_def split: if_splits sum.splits elim!: finish_sound)
next
  case (finish now k h st msg rows rows')
  then show ?case
    by (auto simp: CompleteClaimedScanRequest_def split: if_splits sum.splits option.splits elim!: finish_sound)
next
  case (retry k msg rows rows')
  then show ?case
    by (auto simp: RequeueScanRequest_def Let_def split: if_splits sum.splits elim!: sql_update_sound)
next
  case (retry_all h st ty v msg rows n rows')
  then show ?case
    by (auto simp: RequeueScanRequestsByFilter_def Let_def elim!: sql_update_sound)
qed

lemma reachable_sound: "scan_reachable rows \<Longrightarrow> sound_table rows"
proof (induction rule: scan_reachable.induct)
  case start
  then show ?case by (simp add: sound_table_def scan_index_def)
qed (rule scan_step_sound)

text \<open>
  No claim is held for ever: in every table the operations can reach, whatever their order and
  results, the unique index holds and every claimed request carries the time of its claim; once that time
  is older than the timeout, the next claim of any host succeeds and leaves the request pending, cancelled
  as a duplicate, or claimed afresh.
\<close>

theorem reachable_claims_expire:
  assumes "scan_reachable rows"
  shows "scan_index rows \<and> (\<forall>r\<in>set rows. status r = ''claimed'' \<longrightarrow> (\<exists>t. claimed_at r = Some t
    \<and> (\<forall>now timeout h. t < now - effectiveTimeout timeout \<longrightarrow>
         (\<exists>x rows'. ClaimScanRequest now h timeout rows = Inr (x, rows')
           \<and> (\<forall>q\<in>set rows'. sr_id q = sr_id r \<longrightarrow> status q = ''pending'' \<or> status q = ''cancelled''
                \<or> status q = ''claimed'' \<and> claimed_at q = Some now \<and> claimed_by_host_id q = h)))))"
proof (intro conjI ballI impI)
  have s: "sound_table rows" by (rule reachable_sound[OF assms])
  show i: "scan_index rows" using s by (simp add: sound_table_def)
  fix r assume r: "r \<in> set rows" "status r = ''claimed''"
  obtain t where t: "claimed_at r = Some t" using s r by (auto simp: sound_table_def list_all_iff dated_def)
  have "\<exists>x rows'. ClaimScanRequest now h timeout rows = Inr (x, rows')
      \<and> (\<forall>q\<in>set rows'. sr_id q = sr_id r \<longrightarrow> status q = ''pending'' \<or> status q = ''cancelled''
           \<or> status q = ''claimed'' \<and> claimed_at q = Some now \<and> claimed_by_host_id q = h)"
    if late: "t < now - effectiveTimeout timeout" for now timeout h
  proof -
    define rows2 where "rows2 = map (recovered now (now - effectiveTimeout timeout) rows) rows"
    have "stale (now - effectiveTimeout timeout) r" using r(2) t late by (simp add: stale_def)
    then have freed: "status q = ''pending'' \<or> status q = ''cancelled''" if "q \<in> set rows2" "sr_id q = sr_id r" for q
      using that row_unique[OF i _ r(1)] by (auto simp: rows2_def recovered_def)
    consider (none) n c where "ClaimScanRequest now h timeout rows = Inr ((None, n, c), rows2)"
      | (some) n c p where "ClaimScanRequest now h timeout rows = Inr ((Some (claimed_row now h p), n, c), after_claim now h p rows2)"
      using ClaimScanRequest_cases[OF i rows2_def, of h] by metis
    then show ?thesis
    proof cases
      case none
      then show ?thesis using freed by blast
    next
      case some
      have "status q = ''pending'' \<or> status q = ''cancelled'' \<or> status q = ''claimed'' \<and> claimed_at q = Some now \<and> claimed_by_host_id q = h"
        if "q \<in> set (after_claim now h p rows2)" "sr_id q = sr_id r" for q
        using that freed by (auto split: if_splits)
      then show ?thesis using some by blast
    qed
  qed
  then show "\<exists>t. claimed_at r = Some t \<and> (\<forall>now timeout h. t < now - effectiveTimeout timeout \<longrightarrow>
      (\<exists>x rows'. ClaimScanRequest now h timeout rows = Inr (x, rows')
        \<and> (\<forall>q\<in>set rows'. sr_id q = sr_id r \<longrightarrow> status q = ''pending'' \<or> status q = ''cancelled''
             \<or> status q = ''claimed'' \<and> claimed_at q = Some now \<and> claimed_by_host_id q = h)))"
    using t by blast
qed

lemma reachable_claims_expire_witness:
  "\<exists>rows. scan_reachable rows \<and> (\<exists>r. rows = [r] \<and> status r = ''claimed'') \<and> scan_index rows"
proof -
  let ?req = "(rescanRow [] 0 ''h'' ''api'' [] [])\<lparr>scan_type := ''manual''\<rparr>"
  obtain req' where n: "normalizeScanRequestCreate ?req = Some req'" "sr_id req' = []" "scan_type req' = ''manual''"
      "status req' = ''pending''" "host_id req' = ''h''"
    by (rule that[of "the (normalizeScanRequestCreate ?req)"]; code_simp)
  let ?row = "req'\<lparr>sr_id := ''r1'', sr_created_at := 3, claimed_at := None, claimed_by_host_id := [], completed_at := None, error_message := []\<rparr>"
  have c: "CreateScanRequest ''r1'' 3 req' [] = Inr [?row]"
    using n(2-4) by (simp add: CreateScanRequest_def scan_index_def sec_pending_def sec_update_def)
  have r1: "scan_reachable [?row]" using start step create[OF n(1) c] by blast
  have "ClaimScanRequest 9 ''h'' 60 [?row] = Inr ((Some (claimed_row 9 ''h'' ?row), 0, 0), [claimed_row 9 ''h'' ?row])"
    using n(2-5) by (simp add: ClaimScanRequest_def RequeueStaleScanRequests_def cancelStaleSecurityDBDuplicates_def
        requeueStale_def sql_update_def Let_def duplicate_def stale_sec_def stale_def scan_index_def sec_pending_def
        sec_update_def claimable_def claimed_row_def)
  then have r2: "scan_reachable [claimed_row 9 ''h'' ?row]" using r1 step claim by blast
  show ?thesis using r2 reachable_claims_expire[OF r2] by (intro exI[of _ "[claimed_row 9 ''h'' ?row]"]) simp
qed

end
