(* ===== verification/Server_Env.thy ===== *)
theory Server_Env
  imports Prelude
begin

text \<open>
  The helpers of the server (\<^verbatim>\<open>internal/server/api/util.go\<close>) and the checks of its middleware
  (\<^verbatim>\<open>internal/server/api/middleware.go\<close>): reading the environment and the query of a request, page limits,
  lists in query parameters, file names, request ids, and the state an agent is shown in. \<^verbatim>\<open>os.Getenv\<close> and the query
  parameters are functions that return the empty string where nothing is set.
\<close>

section \<open>The environment\<close>

type_synonym environment = "string \<Rightarrow> string"

definition envInt :: "environment \<Rightarrow> string \<Rightarrow> int \<Rightarrow> int" where
  "envInt env key def =
     (if env key = [] then def else (case Atoi (env key) of None \<Rightarrow> def | Some n \<Rightarrow> n))"

definition envBool :: "environment \<Rightarrow> string \<Rightarrow> bool \<Rightarrow> bool" where
  "envBool env key def =
     (if env key = [] then def else (case ParseBool (env key) of None \<Rightarrow> def | Some b \<Rightarrow> b))"

text \<open>\<^verbatim>\<open>strconv.ParseInt(v, 10, 64)\<close> accepts what \<open>Atoi\<close> accepts.\<close>

definition envBytes :: "environment \<Rightarrow> string \<Rightarrow> int \<Rightarrow> int" where
  "envBytes env key def =
     (if env key = [] then def
      else (case Atoi (env key) of None \<Rightarrow> def | Some n \<Rightarrow> if n \<le> 0 then def else n))"

definition envPositiveIntDefault :: "string option \<Rightarrow> int \<Rightarrow> int" where
  "envPositiveIntDefault env def =
     (let v = (case env of None \<Rightarrow> def | Some s \<Rightarrow> if s = [] then def else (case Atoi s of None \<Rightarrow> def | Some n \<Rightarrow> n))
      in if v > 0 then v else def)"

definition maxAgentReportBytes :: "environment \<Rightarrow> int" where
  "maxAgentReportBytes env =
     (let n = envInt env ''BONGSU_AGENT_REPORT_MAX_BYTES'' (512 * 2 ^ 20) in if n \<le> 0 then 512 * 2 ^ 20 else n)"

definition maxTrivyDBUploadBytes :: "environment \<Rightarrow> int" where
  "maxTrivyDBUploadBytes env = envBytes env ''BONGSU_TRIVY_DB_UPLOAD_MAX_BYTES'' (2 * 2 ^ 30)"

definition maxCveDBImportBytes :: "environment \<Rightarrow> int" where
  "maxCveDBImportBytes env = envBytes env ''BONGSU_CVE_DB_IMPORT_MAX_BYTES'' (2 * 2 ^ 30)"

definition maxSecurityDBBundleBytes :: "environment \<Rightarrow> int" where
  "maxSecurityDBBundleBytes env = envBytes env ''BONGSU_SECURITY_DB_BUNDLE_MAX_BYTES'' (4 * 2 ^ 30)"

definition maxMultipartMemoryBytes :: "environment \<Rightarrow> int" where
  "maxMultipartMemoryBytes env = envBytes env ''BONGSU_MULTIPART_MEMORY_MAX_BYTES'' (32 * 2 ^ 20)"

definition maxJSONBodyBytes :: "environment \<Rightarrow> int" where
  "maxJSONBodyBytes env = envBytes env ''BONGSU_JSON_BODY_MAX_BYTES'' (2 ^ 20)"

section \<open>The query of a request\<close>

definition intParam :: "environment \<Rightarrow> string \<Rightarrow> int \<Rightarrow> int" where
  "intParam q key def =
     (if q key = [] then def
      else (case Atoi (q key) of None \<Rightarrow> def | Some n \<Rightarrow> if n < 0 then def else n))"

definition boolQuery :: "environment \<Rightarrow> string \<Rightarrow> bool" where
  "boolQuery q key \<longleftrightarrow> ToLower (TrimSpace (q key)) \<in> set [''1'', ''true'', ''yes'', ''y'', ''on'']"

definition limitParam :: "environment \<Rightarrow> environment \<Rightarrow> int \<Rightarrow> int" where
  "limitParam env q def =
     (let n = intParam q ''limit'' def; n = (if n \<le> 0 then def else n);
          maxLimit = envInt env ''BONGSU_API_MAX_PAGE_LIMIT'' 1000;
          maxLimit = (if maxLimit \<le> 0 then 1000 else maxLimit)
      in if n > maxLimit then maxLimit else n)"

definition offsetParam :: "environment \<Rightarrow> environment \<Rightarrow> int" where
  "offsetParam env q =
     (let n = intParam q ''offset'' 0;
          maxOffset = envInt env ''BONGSU_API_MAX_PAGE_OFFSET'' 1000000;
          maxOffset = (if maxOffset \<le> 0 then 1000000 else maxOffset)
      in if n > maxOffset then maxOffset else n)"

fun cleanLoop :: "string list \<Rightarrow> string list \<Rightarrow> string list" where
  "cleanLoop [] out = out"
| "cleanLoop (item # items) out =
     (let item = TrimSpace item in
      if item = [] \<or> item \<in> set out then cleanLoop items out else cleanLoop items (out @ [item]))"

definition cleanCSV :: "string list \<Rightarrow> string list" where
  "cleanCSV items = cleanLoop items []"

definition splitCSV :: "string \<Rightarrow> string list" where
  "splitCSV v = (if v = [] then [] else cleanCSV (SplitByte v (CHR '','')))"

section \<open>File names and request ids\<close>

definition sanitizeFilename :: "string \<Rightarrow> string" where
  "sanitizeFilename s =
     Trim (replace_runes (\<lambda>c. isAlnum c \<or> c \<in> set ''-_.'') (CHR ''-'') (TrimSpace s)) ''-.''"

definition cleanRequestID :: "string \<Rightarrow> string" where
  "cleanRequestID header =
     (let raw = TrimSpace header in
      if raw = [] \<or> length raw > 128 then []
      else if list_all (ascii_rune (\<lambda>c. isAlnum c \<or> c \<in> set ''-_.:/'')) (runes raw) then raw
      else [])"

section \<open>The state an agent is shown in\<close>

record agentStatus =
  as_status :: string
  as_age :: int

text \<open>
  \<open>lastSeen\<close> is \<open>None\<close> for the zero time. A difference of times saturates at the ends of the 64-bit duration; a
  duration of minutes is a 64-bit product.
\<close>

definition timeSub :: "int \<Rightarrow> int \<Rightarrow> int" where
  "timeSub t u = max go_int_min (min go_int_max (t - u))"

definition applyAgentStatus :: "environment \<Rightarrow> int option \<Rightarrow> int \<Rightarrow> agentStatus" where
  "applyAgentStatus env lastSeen now =
     (case lastSeen of
        None \<Rightarrow> \<lparr>as_status = ''unknown'', as_age = 0\<rparr>
      | Some t \<Rightarrow>
          let age = timeSub now t; age = (if age < 0 then 0 else age);
              online = wrap64 (envInt env ''BONGSU_AGENT_ONLINE_MINUTES'' (26 * 60) * 60000000000);
              offline = wrap64 (envInt env ''BONGSU_AGENT_OFFLINE_MINUTES'' (72 * 60) * 60000000000);
              offline = (if offline < online then online else offline)
          in \<lparr>as_status = (if age \<le> online then ''online'' else if age \<le> offline then ''stale'' else ''offline''),
              as_age = age div 1000000000\<rparr>)"

section \<open>Bounds\<close>

lemma envBytes_positive: "0 < def \<Longrightarrow> 0 < envBytes env key def"
  by (auto simp: envBytes_def split: option.split)

lemma intParam_nonneg: "0 \<le> def \<Longrightarrow> 0 \<le> intParam q key def"
  by (auto simp: intParam_def split: option.split)

definition pageMax :: "environment \<Rightarrow> int" where
  "pageMax env = (let m = envInt env ''BONGSU_API_MAX_PAGE_LIMIT'' 1000 in if m \<le> 0 then 1000 else m)"

lemma limitParam_bounds: "0 < def \<Longrightarrow> 1 \<le> limitParam env q def \<and> limitParam env q def \<le> pageMax env"
  using intParam_nonneg [of def q "''limit''"] by (auto simp: limitParam_def pageMax_def Let_def)

lemma Trim_ends: "Trim s cutset \<noteq> [] \<Longrightarrow> hd (Trim s cutset) \<notin> set cutset \<and> last (Trim s cutset) \<notin> set cutset"
proof -
  assume ne: "Trim s cutset \<noteq> []"
  define P where "P = (\<lambda>c. c \<in> set cutset)"
  define u where "u = dropWhile P s"
  define w where "w = dropWhile P (rev u)"
  have t: "Trim s cutset = rev w" by (simp add: Trim_def P_def u_def w_def)
  have w: "w \<noteq> []" using ne t by simp
  have wn: "\<not> P (hd w)" unfolding w_def by (rule hd_dropWhile) (use w w_def in simp)
  obtain p where p: "rev u = p @ w" using takeWhile_dropWhile_id [of P "rev u"] w_def by metis
  then have u: "u = rev w @ rev p" by (metis rev_append rev_rev_ident)
  then have "u \<noteq> []" and "hd u = hd (rev w)" using w by simp_all
  moreover have "\<not> P (hd u)" unfolding u_def by (rule hd_dropWhile) (use \<open>u \<noteq> []\<close> u_def in simp)
  ultimately show ?thesis using t w wn by (simp add: P_def last_rev)
qed

lemma set_Trim: "set (Trim s cutset) \<subseteq> set s"
  by (auto simp: Trim_def dest!: set_dropWhileD)

text \<open>
  A file name in a response has only letters, digits and \<open>-_.\<close>, and neither begins nor ends in a dot or a dash:
  whatever a host is called, its export cannot name a hidden file or leave the directory.
\<close>

lemma sanitizeFilename_safe:
  "(\<forall>c \<in> set (sanitizeFilename s). isAlnum c \<or> c \<in> set ''-_.'')
   \<and> (sanitizeFilename s \<noteq> [] \<longrightarrow> hd (sanitizeFilename s) \<notin> set ''-.'' \<and> last (sanitizeFilename s) \<notin> set ''-.'')"
proof -
  have c: "isAlnum c \<or> c \<in> set ''-_.''" if "c \<in> set (sanitizeFilename s)" for c
    using set_mp [OF set_Trim that [unfolded sanitizeFilename_def]] set_replace_runes by fastforce
  show ?thesis using c Trim_ends unfolding sanitizeFilename_def by blast
qed

lemma ascii_runeD: "ascii_rune P r \<Longrightarrow> c \<in> set r \<Longrightarrow> byte c < 128 \<and> P c"
  by (cases r; cases "tl r") (auto simp: ascii_rune_def)

lemma ascii_runes_bytes: "list_all (ascii_rune P) (runes s) \<Longrightarrow> c \<in> set s \<Longrightarrow> byte c < 128 \<and> P c"
proof -
  assume a: "list_all (ascii_rune P) (runes s)" and "c \<in> set s"
  then have "c \<in> set (concat (runes s))" by (simp only: concat_runes)
  then obtain r where "r \<in> set (runes s)" "c \<in> set r" unfolding set_concat by blast
  then show ?thesis using a ascii_runeD by (metis list_all_iff)
qed

text \<open>A request id that reaches the access log has no space, control character or quote: it cannot forge a line.\<close>

lemma cleanRequestID_safe:
  "(\<forall>c \<in> set (cleanRequestID h). isAlnum c \<or> c \<in> set ''-_.:/'') \<and> length (cleanRequestID h) \<le> 128"
  by (auto simp: cleanRequestID_def Let_def dest: ascii_runes_bytes)

text \<open>An agent's state only gets worse while nothing is heard of it.\<close>

definition severityOf :: "string \<Rightarrow> nat" where
  "severityOf s = (if s = ''online'' then 0 else if s = ''stale'' then 1 else 2)"

lemma severityOf_names: "severityOf ''online'' = 0" "severityOf ''stale'' = 1" "severityOf ''offline'' = 2"
  by (simp_all add: severityOf_def)

lemma status_ages:
  "a \<le> b \<Longrightarrow> severityOf (if a \<le> x then ''online'' else if a \<le> y then ''stale'' else ''offline'')
    \<le> severityOf (if b \<le> x then ''online'' else if b \<le> y then ''stale'' else ''offline'')" for a b x y :: int
  by (simp only: if_distrib [of severityOf] severityOf_names) auto

lemma agent_status_ages:
  assumes "now \<le> later"
  shows "severityOf (as_status (applyAgentStatus env t now)) \<le> severityOf (as_status (applyAgentStatus env t later))"
proof (cases t)
  case (Some u)
  have "timeSub now u \<le> timeSub later u" using assms by (simp add: timeSub_def max_def min_def)
  then have "(if timeSub now u < 0 then 0 else timeSub now u) \<le> (if timeSub later u < 0 then 0 else timeSub later u)" by simp
  from status_ages [OF this] show ?thesis unfolding applyAgentStatus_def Some Let_def option.case agentStatus.select_convs .
qed (simp add: applyAgentStatus_def)

end
