(* ===== verification/Rbac.thy ===== *)
theory Rbac
  imports Server_Env
begin

text \<open>
  Access control: \<^verbatim>\<open>internal/server/db/rbac.go\<close> and the scopes of \<^verbatim>\<open>internal/server/api/api.go\<close>. The
  tables are lists of rows with the constraints of migrations 007, 018 and 023; the queries are list
  comprehensions over them. A statement that the database refuses returns \<open>Inl\<close> and changes nothing.
\<close>

section \<open>Scopes\<close>

record AccessScope =
  All :: bool
  HostIDs :: "string list"

definition emptyScope :: AccessScope where
  "emptyScope = \<lparr>All = False, HostIDs = []\<rparr>"

definition appendUnique :: "string list \<Rightarrow> string \<Rightarrow> string list" where
  "appendUnique items item =
     (if item = [] then items
      else if list_ex (\<lambda>existing. existing = item) items then items
      else items @ [item])"

definition appendAll :: "string list \<Rightarrow> string list \<Rightarrow> string list" where
  "appendAll items new = foldl appendUnique items new"

fun mergeLoop :: "AccessScope list \<Rightarrow> string list \<Rightarrow> AccessScope" where
  "mergeLoop [] hosts = \<lparr>All = False, HostIDs = hosts\<rparr>"
| "mergeLoop (scope # scopes) hosts =
     (if All scope then \<lparr>All = True, HostIDs = []\<rparr>
      else mergeLoop scopes (appendAll hosts (HostIDs scope)))"

definition MergeAccessScopes :: "AccessScope list \<Rightarrow> AccessScope" where
  "MergeAccessScopes scopes = mergeLoop scopes []"

definition CanReadHost :: "AccessScope \<Rightarrow> string \<Rightarrow> bool" where
  "CanReadHost s hostID = (if All s then True else list_ex (\<lambda>k. k = hostID) (HostIDs s))"

definition Empty :: "AccessScope \<Rightarrow> bool" where
  "Empty s = (\<not> All s \<and> length (HostIDs s) = 0)"

section \<open>References\<close>

text \<open>One round of the loop over the separators; \<open>None\<close> continues.\<close>

definition typedRef :: "string \<Rightarrow> char \<Rightarrow> (string \<times> string) option" where
  "typedRef ref sep =
     (case CutByte ref sep of (left, right, ok) \<Rightarrow>
        if \<not> ok then None
        else
          let left = ToLower (TrimSpace left); right = TrimSpace right
          in if (left = ''user'' \<or> left = ''group'') \<and> right \<noteq> [] then Some (left, right) else None)"

definition parseAccessSubjectRef :: "string \<Rightarrow> string \<times> string" where
  "parseAccessSubjectRef ref =
     (let ref = TrimSpace ref in
      case typedRef ref (CHR '':'') of Some r \<Rightarrow> r
      | None \<Rightarrow> (case typedRef ref (CHR ''/'') of Some r \<Rightarrow> r | None \<Rightarrow> ([], ref)))"

definition parseAssetGroupRef :: "string \<Rightarrow> string \<times> string \<times> bool" where
  "parseAssetGroupRef ref =
     (let (key, value', ok) = CutByte ref (CHR '':'');
          (key, value', ok) = (if \<not> ok then CutByte ref (CHR ''='') else (key, value', ok));
          key = ToLower (TrimSpace key);
          value' = TrimSpace value'
      in if \<not> ok \<or> key = [] \<or> value' = [] then ([], [], False) else (key, value', True))"

section \<open>Tables\<close>

record AccessSubject =
  su_id :: string
  su_type :: string
  su_external :: string
  su_display :: string

record AccessPolicy =
  po_id :: string
  po_subject :: string
  po_rtype :: string
  po_rid :: string
  po_permission :: string

record ContainerAsset =
  ct_scan :: string
  ct_host :: string
  ct_container :: string
  ct_name :: string
  ct_image_name :: string
  ct_image_id :: string
  ct_digest :: string

record HostRow =
  ho_id :: string
  ho_owner :: string
  ho_team :: string
  ho_environment :: string
  ho_criticality :: string
  ho_tags :: "(string \<times> string) list"

record ScanRow =
  sc_id :: string
  sc_host :: string
  sc_status :: string
  sc_created :: int

record tables =
  subjects :: "AccessSubject list"
  policies :: "AccessPolicy list"
  containers :: "ContainerAsset list"
  hosts :: "HostRow list"
  scans :: "ScanRow list"

text \<open>
  \<^verbatim>\<open>latestScansSub\<close>: \<^verbatim>\<open>DISTINCT ON (host_id)\<close> keeps, per host, the newest completed or degraded scan;
  of scans created at the same time, the first row.
\<close>

definition finishedScan :: "ScanRow \<Rightarrow> bool" where
  "finishedScan s \<longleftrightarrow> sc_status s = ''completed'' \<or> sc_status s = ''degraded''"

fun newestScan :: "ScanRow list \<Rightarrow> ScanRow option" where
  "newestScan [] = None"
| "newestScan (s # ss) = (case newestScan ss of None \<Rightarrow> Some s
     | Some t \<Rightarrow> if sc_created s \<ge> sc_created t then Some s else Some t)"

definition latestScans :: "ScanRow list \<Rightarrow> string list" where
  "latestScans ss =
     (let done = filter finishedScan ss in
      map (\<lambda>h. sc_id (the (newestScan (filter (\<lambda>s. sc_host s = h) done)))) (remdups (map sc_host done)))"

definition liveContainers :: "tables \<Rightarrow> ContainerAsset list" where
  "liveContainers db = filter (\<lambda>c. ct_scan c \<in> set (latestScans (scans db))) (containers db)"

section \<open>Hosts a policy stands for\<close>

text \<open>\<^verbatim>\<open>queryStringList\<close> keeps each non-empty value once.\<close>

definition queryStringList :: "string list \<Rightarrow> string list" where
  "queryStringList rows = appendAll [] rows"

definition hostIDsForContainerPolicies :: "tables \<Rightarrow> string list \<Rightarrow> bool \<Rightarrow> string list" where
  "hostIDsForContainerPolicies db refs wildcard =
     (if \<not> wildcard \<and> refs = [] then []
      else queryStringList (map ct_host
             (filter (\<lambda>c. wildcard \<or> ct_container c \<in> set refs \<or> ct_name c \<in> set refs) (liveContainers db))))"

definition hostIDsForImagePolicies :: "tables \<Rightarrow> string list \<Rightarrow> bool \<Rightarrow> string list" where
  "hostIDsForImagePolicies db refs wildcard =
     (if \<not> wildcard \<and> refs = [] then []
      else queryStringList (map ct_host
             (filter (\<lambda>c. wildcard \<or> ct_image_name c \<in> set refs \<or> ct_image_id c \<in> set refs \<or> ct_digest c \<in> set refs)
                (liveContainers db))))"

text \<open>The hosts one asset group reference selects; \<open>None\<close> continues with the next reference.\<close>

definition assetGroupHosts :: "tables \<Rightarrow> string \<Rightarrow> string list option" where
  "assetGroupHosts db ref =
     (let (key, value', ok) = parseAssetGroupRef ref;
          select = (\<lambda>P. Some (queryStringList (map ho_id (filter P (hosts db))))) in
      if \<not> ok then None
      else if key = ''owner'' then select (\<lambda>h. ho_owner h = value')
      else if key = ''team'' then select (\<lambda>h. ho_team h = value')
      else if key = ''environment'' then select (\<lambda>h. ho_environment h = value')
      else if key = ''criticality'' then select (\<lambda>h. ho_criticality h = value')
      else if key = ''tag'' then
        (case CutByte value' (CHR ''='') of (tagKey, tagValue, ok) \<Rightarrow>
           if \<not> ok \<or> TrimSpace tagKey = [] then None
           else select (\<lambda>h. map_of (ho_tags h) (TrimSpace tagKey) = Some (TrimSpace tagValue)))
      else None)"

fun assetGroupLoop :: "tables \<Rightarrow> string list \<Rightarrow> string list \<Rightarrow> string list" where
  "assetGroupLoop db [] hostIDs = hostIDs"
| "assetGroupLoop db (ref # refs) hostIDs =
     (case assetGroupHosts db ref of
        None \<Rightarrow> assetGroupLoop db refs hostIDs
      | Some ids \<Rightarrow> assetGroupLoop db refs (appendAll hostIDs ids))"

definition hostIDsForAssetGroupPolicies :: "tables \<Rightarrow> string list \<Rightarrow> bool \<Rightarrow> string list" where
  "hostIDsForAssetGroupPolicies db refs wildcard =
     (if wildcard then queryStringList (map ho_id (hosts db))
      else if refs = [] then []
      else assetGroupLoop db refs [])"

section \<open>The scope of a subject\<close>

definition namedBy :: "string \<Rightarrow> AccessSubject \<Rightarrow> bool" where
  "namedBy ref s =
     (case parseAccessSubjectRef ref of (subjectType, externalID) \<Rightarrow>
        su_external s = externalID \<and> (subjectType = [] \<or> su_type s = subjectType))"

text \<open>The join of subjects and policies both queries filter.\<close>

definition subjectPolicies :: "tables \<Rightarrow> string \<Rightarrow> (AccessPolicy \<Rightarrow> bool) \<Rightarrow> AccessPolicy list" where
  "subjectPolicies db subjectRef P =
     concat (map (\<lambda>s. filter (\<lambda>p. po_subject p = su_id s \<and> P p) (policies db))
       (filter (namedBy subjectRef) (subjects db)))"

definition HasResourcePermission :: "tables \<Rightarrow> string \<Rightarrow> string \<Rightarrow> string list \<Rightarrow> bool" where
  "HasResourcePermission db subjectRef resourceType permissions =
     (if permissions = [] then False
      else subjectPolicies db subjectRef
             (\<lambda>p. (po_rtype p = resourceType \<or> po_rtype p = ''all'') \<and> (po_rid p = ''*'' \<or> po_rid p = [])
                  \<and> po_permission p \<in> set permissions) \<noteq> [])"

record scopeRefs =
  isAll :: bool
  hostRefs :: "string list"
  containerRefs :: "string list"
  imageRefs :: "string list"
  assetGroupRefs :: "string list"
  containerWildcard :: bool
  imageWildcard :: bool
  assetGroupWildcard :: bool

definition noRefs :: scopeRefs where
  "noRefs = \<lparr>isAll = False, hostRefs = [], containerRefs = [], imageRefs = [], assetGroupRefs = [],
     containerWildcard = False, imageWildcard = False, assetGroupWildcard = False\<rparr>"

text \<open>One row of the result set.\<close>

definition addPolicy :: "scopeRefs \<Rightarrow> AccessPolicy \<Rightarrow> scopeRefs" where
  "addPolicy r p =
     (let rt = po_rtype p; rid = po_rid p in
      if rt = ''all'' then r\<lparr>isAll := True\<rparr>
      else if rt = ''host'' then
        (if rid \<noteq> [] \<and> rid \<noteq> ''*'' then r\<lparr>hostRefs := appendUnique (hostRefs r) rid\<rparr> else r)
      else if rt = ''container'' then
        (if rid = ''*'' then r\<lparr>containerWildcard := True\<rparr>
         else if rid \<noteq> [] then r\<lparr>containerRefs := containerRefs r @ [rid]\<rparr> else r)
      else if rt = ''image'' then
        (if rid = ''*'' then r\<lparr>imageWildcard := True\<rparr>
         else if rid \<noteq> [] then r\<lparr>imageRefs := imageRefs r @ [rid]\<rparr> else r)
      else if rt = ''asset_group'' then
        (if rid = ''*'' then r\<lparr>assetGroupWildcard := True\<rparr>
         else if rid \<noteq> [] then r\<lparr>assetGroupRefs := assetGroupRefs r @ [rid]\<rparr> else r)
      else r)"

definition getAccessScopeForPermissions :: "tables \<Rightarrow> string \<Rightarrow> string list \<Rightarrow> AccessScope" where
  "getAccessScopeForPermissions db subjectRef permissions =
     (if permissions = [] then emptyScope
      else
        let r = foldl addPolicy noRefs (subjectPolicies db subjectRef (\<lambda>p. po_permission p \<in> set permissions))
        in if isAll r then \<lparr>All = True, HostIDs = hostRefs r\<rparr>
           else
             let ids = hostRefs r;
                 ids = appendAll ids (hostIDsForContainerPolicies db (containerRefs r) (containerWildcard r));
                 ids = appendAll ids (hostIDsForImagePolicies db (imageRefs r) (imageWildcard r));
                 ids = appendAll ids (hostIDsForAssetGroupPolicies db (assetGroupRefs r) (assetGroupWildcard r))
             in \<lparr>All = False, HostIDs = ids\<rparr>)"

definition GetAccessScope :: "tables \<Rightarrow> string \<Rightarrow> AccessScope" where
  "GetAccessScope db subjectRef = getAccessScopeForPermissions db subjectRef [''read'', ''admin'']"

definition GetExportScope :: "tables \<Rightarrow> string \<Rightarrow> AccessScope" where
  "GetExportScope db subjectRef = getAccessScopeForPermissions db subjectRef [''export'', ''admin'']"

section \<open>Changing the tables\<close>

datatype rbac_error = CheckViolation | UniqueViolation | NoRows | SubjectIDNotFound string
  | SubjectNotFound string | SubjectAmbiguous string

definition UpsertAccessSubject ::
    "string \<Rightarrow> string \<Rightarrow> string \<Rightarrow> string \<Rightarrow> string \<Rightarrow> tables \<Rightarrow> rbac_error + tables" where
  "UpsertAccessSubject newId k subjectType externalID displayName db =
     (let k = (if k = [] then newId else k);
          same = (\<lambda>s. su_type s = subjectType \<and> su_external s = externalID) in
      if subjectType \<noteq> ''user'' \<and> subjectType \<noteq> ''group'' then Inl CheckViolation
      else if list_ex same (subjects db) then
        Inr (db\<lparr>subjects := map (\<lambda>s. if same s then s\<lparr>su_display := displayName\<rparr> else s) (subjects db)\<rparr>)
      else if list_ex (\<lambda>s. su_id s = k) (subjects db) then Inl UniqueViolation
      else Inr (db\<lparr>subjects := subjects db @ [\<lparr>su_id = k, su_type = subjectType, su_external = externalID,
                                               su_display = displayName\<rparr>]\<rparr>))"

definition resolveAccessSubjectID :: "string \<Rightarrow> tables \<Rightarrow> rbac_error + string" where
  "resolveAccessSubjectID ref db =
     (let ids = map su_id (sort_key su_type (filter (namedBy ref) (subjects db))) in
      if length ids = 0 then Inl (SubjectNotFound ref)
      else if length ids > 1 then Inl (SubjectAmbiguous ref)
      else Inr (hd ids))"

definition UpsertAccessPolicy ::
    "string \<Rightarrow> string \<Rightarrow> string \<Rightarrow> string \<Rightarrow> string \<Rightarrow> string \<Rightarrow> string \<Rightarrow> tables \<Rightarrow> rbac_error + tables" where
  "UpsertAccessPolicy newId k subjectID subjectExternalID resourceType resourceID permission db =
     (let k = (if k = [] then newId else k);
          resourceID = (if resourceID = [] then ''*'' else resourceID);
          subject = (if subjectID = [] then resolveAccessSubjectID subjectExternalID db
                     else if list_ex (\<lambda>s. su_id s = subjectID) (subjects db) then Inr subjectID
                     else Inl (SubjectIDNotFound subjectID))
      in case subject of
           Inl e \<Rightarrow> Inl e
         | Inr sid \<Rightarrow>
             let row = \<lparr>po_id = k, po_subject = sid, po_rtype = resourceType, po_rid = resourceID,
                        po_permission = permission\<rparr>;
                 same = (\<lambda>p. po_subject p = sid \<and> po_rtype p = resourceType \<and> po_rid p = resourceID
                             \<and> po_permission p = permission)
             in if resourceType \<notin> set [''host'', ''container'', ''image'', ''asset_group'', ''cve_db'', ''all'']
                   \<or> permission \<notin> set [''read'', ''write'', ''admin'', ''export''] then Inl CheckViolation
                else if list_ex same (policies db) then Inr db
                else if list_ex (\<lambda>p. po_id p = k) (policies db) then Inl UniqueViolation
                else Inr (db\<lparr>policies := policies db @ [row]\<rparr>))"

text \<open>The foreign key deletes the policies of a deleted subject.\<close>

definition DeleteAccessSubject :: "string \<Rightarrow> tables \<Rightarrow> (rbac_error + AccessSubject \<times> nat) \<times> tables" where
  "DeleteAccessSubject k db =
     (let policyCount = length (filter (\<lambda>p. po_subject p = k) (policies db)) in
      case find (\<lambda>s. su_id s = k) (subjects db) of
        None \<Rightarrow> (Inl NoRows, db)
      | Some item \<Rightarrow>
          (Inr (item, policyCount),
           db\<lparr>subjects := filter (\<lambda>s. su_id s \<noteq> k) (subjects db),
              policies := filter (\<lambda>p. po_subject p \<noteq> k) (policies db)\<rparr>))"

definition DeleteAccessPolicy :: "string \<Rightarrow> tables \<Rightarrow> (rbac_error + AccessPolicy \<times> AccessSubject) \<times> tables" where
  "DeleteAccessPolicy k db =
     (let db' = db\<lparr>policies := filter (\<lambda>p. po_id p \<noteq> k) (policies db)\<rparr> in
      case find (\<lambda>p. po_id p = k) (policies db) of
        None \<Rightarrow> (Inl NoRows, db')
      | Some p \<Rightarrow>
          (case find (\<lambda>s. su_id s = po_subject p) (subjects db) of
             None \<Rightarrow> (Inl NoRows, db')
           | Some s \<Rightarrow> (Inr (p, s), db')))"

record AccessControlStats =
  SubjectCount :: nat
  PolicyCount :: nat
  UserSubjectCount :: nat
  GroupSubjectCount :: nat
  ReadPolicyCount :: nat
  WritePolicyCount :: nat
  AdminPolicyCount :: nat
  ExportPolicyCount :: nat
  WildcardPolicyCount :: nat
  OrphanPolicyCount :: nat
  SubjectTypeCounts :: "(string \<times> nat) list"
  ResourceTypeCounts :: "(string \<times> nat) list"
  PermissionCounts :: "(string \<times> nat) list"

definition countRowsByValue :: "string list \<Rightarrow> (string \<times> nat) list" where
  "countRowsByValue vs = map (\<lambda>v. (v, length (filter (\<lambda>w. w = v) vs))) (remdups vs)"

definition GetAccessControlStats :: "tables \<Rightarrow> AccessControlStats" where
  "GetAccessControlStats db =
     (let ps = policies db; ss = subjects db; perm = (\<lambda>x. length (filter (\<lambda>p. po_permission p = x) ps)) in
      \<lparr>SubjectCount = length ss, PolicyCount = length ps,
       UserSubjectCount = length (filter (\<lambda>s. su_type s = ''user'') ss),
       GroupSubjectCount = length (filter (\<lambda>s. su_type s = ''group'') ss),
       ReadPolicyCount = perm ''read'', WritePolicyCount = perm ''write'', AdminPolicyCount = perm ''admin'',
       ExportPolicyCount = perm ''export'',
       WildcardPolicyCount = length (filter (\<lambda>p. po_rid p = ''*'' \<or> po_rid p = []) ps),
       OrphanPolicyCount = length (filter (\<lambda>p. \<not> list_ex (\<lambda>s. su_id s = po_subject p) ss) ps),
       SubjectTypeCounts = countRowsByValue (map su_type ss),
       ResourceTypeCounts = countRowsByValue (map po_rtype ps),
       PermissionCounts = countRowsByValue (map po_permission ps)\<rparr>)"

section \<open>Who is asking\<close>

definition appendUniqueString :: "string list \<Rightarrow> string \<Rightarrow> string list" where
  "appendUniqueString items item =
     (let item = TrimSpace item in
      if item = [] then items
      else if list_ex (\<lambda>existing. existing = item) items then items
      else items @ [item])"

definition splitIdentityHeaderValues :: "string \<Rightarrow> string list" where
  "splitIdentityHeaderValues raw = cleanCSV (SplitByte (ReplaceAllByte raw (CHR '';'') '','') (CHR '',''))"

record trustedIdentityConfig =
  userHeader :: string
  groupsHeader :: string
  adminUsers :: "string list"
  adminGroups :: "string list"

record identity =
  id_user :: string
  id_groups :: "string list"
  id_subjects :: "string list"
  id_admin :: bool

definition noIdentity :: identity where
  "noIdentity = \<lparr>id_user = [], id_groups = [], id_subjects = [], id_admin = False\<rparr>"

text \<open>
  \<open>header\<close> reads a request header and \<open>trusted\<close> says whether the remote address lies in a configured
  proxy network.
\<close>

definition trustedIdentity :: "trustedIdentityConfig \<Rightarrow> bool \<Rightarrow> (string \<Rightarrow> string) \<Rightarrow> identity" where
  "trustedIdentity cfg trusted header =
     (if userHeader cfg = [] \<and> groupsHeader cfg = [] then noIdentity
      else if \<not> trusted then noIdentity
      else
        let user = (if userHeader cfg \<noteq> [] then TrimSpace (header (userHeader cfg)) else []);
            groups = (if groupsHeader cfg \<noteq> [] then splitIdentityHeaderValues (header (groupsHeader cfg)) else [])
        in if user = [] \<and> groups = [] then noIdentity
           else \<lparr>id_user = user, id_groups = groups,
                 id_subjects = foldl appendUniqueString
                   (if user \<noteq> [] then appendUniqueString [] (''user:'' @ user) else [])
                   (map (\<lambda>g. ''group:'' @ g) groups),
                 id_admin = (user \<noteq> [] \<and> user \<in> set (adminUsers cfg))
                            \<or> list_ex (\<lambda>g. g \<in> set (adminGroups cfg)) groups\<rparr>)"

text \<open>
  The subjects of a request: the subject of its viewer key, of its viewer token (\<open>None\<close> when there is no
  such token), of the trusted headers and of the OIDC identity.
\<close>

definition viewerSubjects :: "(string \<times> string) list \<Rightarrow> string \<Rightarrow> (string \<times> string) option \<Rightarrow> identity \<Rightarrow> string list \<Rightarrow> string list" where
  "viewerSubjects viewerKeys key token trusted oidcSubjects =
     (let subs = (if key \<noteq> [] then
                    (case map_of viewerKeys key of Some s \<Rightarrow> if s \<noteq> [] then appendUniqueString [] s else []
                     | None \<Rightarrow> [])
                  else []);
          subs = (case token of
                    Some (role, s) \<Rightarrow> if role = ''viewer'' \<and> s \<noteq> [] then appendUniqueString subs s else subs
                  | None \<Rightarrow> subs);
          subs = foldl appendUniqueString subs (id_subjects trusted)
      in foldl appendUniqueString subs oidcSubjects)"

text \<open>A subject whose scope query fails is skipped: \<open>fails\<close>.\<close>

definition mergedScope :: "(string \<Rightarrow> AccessScope) \<Rightarrow> (string \<Rightarrow> bool) \<Rightarrow> string list \<Rightarrow> AccessScope" where
  "mergedScope scopeOf fails subs =
     (if length subs = 0 then emptyScope
      else MergeAccessScopes (map scopeOf (filter (\<lambda>s. \<not> fails s) subs)))"

definition accessScope :: "bool \<Rightarrow> bool \<Rightarrow> string option \<Rightarrow> string list \<Rightarrow> (string \<Rightarrow> bool) \<Rightarrow> tables \<Rightarrow> AccessScope" where
  "accessScope admin webAuth sessionRole subs fails db =
     (if admin \<or> \<not> webAuth then \<lparr>All = True, HostIDs = []\<rparr>
      else if sessionRole = Some ''admin'' then \<lparr>All = True, HostIDs = []\<rparr>
      else mergedScope (GetAccessScope db) fails subs)"

definition exportScope :: "bool \<Rightarrow> string list \<Rightarrow> (string \<Rightarrow> bool) \<Rightarrow> tables \<Rightarrow> AccessScope" where
  "exportScope admin subs fails db =
     (if admin then \<lparr>All = True, HostIDs = []\<rparr> else mergedScope (GetExportScope db) fails subs)"

definition canReadCveDB :: "bool \<Rightarrow> bool \<Rightarrow> string list \<Rightarrow> (string \<Rightarrow> bool) \<Rightarrow> tables \<Rightarrow> bool" where
  "canReadCveDB admin webAuth subs fails db =
     (if admin \<or> \<not> webAuth then True
      else list_ex (\<lambda>s. \<not> fails s \<and> HasResourcePermission db s ''cve_db'' [''read'', ''admin'']) subs)"


section \<open>A scope reads what the policies grant\<close>

lemma set_appendUnique: "set (appendUnique items x) = (if x = [] then set items else insert x (set items))"
  by (auto simp: appendUnique_def list_ex_iff)

lemma set_appendAll: "set (appendAll items xs) = set items \<union> (set xs - {[]})"
  unfolding appendAll_def by (induction xs arbitrary: items) (auto simp: set_appendUnique)

lemma set_queryStringList: "set (queryStringList xs) = set xs - {[]}"
  by (simp add: queryStringList_def set_appendAll)

lemma CanReadHost_iff: "CanReadHost s h \<longleftrightarrow> All s \<or> h \<in> set (HostIDs s)"
  by (auto simp: CanReadHost_def list_ex_iff)

lemma CanReadHost_empty [simp]: "\<not> CanReadHost emptyScope h"
  by (simp add: CanReadHost_def emptyScope_def)

lemma mergeLoop_reads:
  "h \<noteq> [] \<Longrightarrow> CanReadHost (mergeLoop scopes hs) h \<longleftrightarrow> h \<in> set hs \<or> (\<exists>s\<in>set scopes. CanReadHost s h)"
  by (induction scopes arbitrary: hs) (auto simp: CanReadHost_iff set_appendAll)

lemma mergedScope_reads:
  "h \<noteq> [] \<Longrightarrow> CanReadHost (mergedScope f fails subs) h \<longleftrightarrow> (\<exists>s\<in>set subs. \<not> fails s \<and> CanReadHost (f s) h)"
  by (auto simp: mergedScope_def MergeAccessScopes_def mergeLoop_reads)

text \<open>What one policy is meant to grant.\<close>

definition inAssetGroup :: "HostRow \<Rightarrow> string \<Rightarrow> bool" where
  "inAssetGroup r ref =
     (case parseAssetGroupRef ref of (key, v, ok) \<Rightarrow>
        ok \<and> (key = ''owner'' \<and> ho_owner r = v \<or> key = ''team'' \<and> ho_team r = v
               \<or> key = ''environment'' \<and> ho_environment r = v \<or> key = ''criticality'' \<and> ho_criticality r = v
               \<or> key = ''tag'' \<and> (case CutByte v (CHR ''='') of (k, x, eq) \<Rightarrow>
                    eq \<and> TrimSpace k \<noteq> [] \<and> map_of (ho_tags r) (TrimSpace k) = Some (TrimSpace x))))"

definition grants :: "tables \<Rightarrow> AccessPolicy \<Rightarrow> string \<Rightarrow> bool" where
  "grants db p h =
     (let t = po_rtype p; rid = po_rid p in
      t = ''all''
      \<or> t = ''host'' \<and> rid = h \<and> rid \<noteq> ''*''
      \<or> t = ''container'' \<and> rid \<noteq> [] \<and> list_ex (\<lambda>c. ct_host c = h \<and> (rid = ''*'' \<or> ct_container c = rid \<or> ct_name c = rid)) (liveContainers db)
      \<or> t = ''image'' \<and> rid \<noteq> [] \<and> list_ex (\<lambda>c. ct_host c = h \<and> (rid = ''*'' \<or> ct_image_name c = rid \<or> ct_image_id c = rid \<or> ct_digest c = rid)) (liveContainers db)
      \<or> t = ''asset_group'' \<and> rid \<noteq> [] \<and> list_ex (\<lambda>r. ho_id r = h \<and> (rid = ''*'' \<or> inAssetGroup r rid)) (hosts db))"

lemma container_reads:
  "h \<noteq> [] \<Longrightarrow> h \<in> set (hostIDsForContainerPolicies db refs w) \<longleftrightarrow>
     (\<exists>c\<in>set (liveContainers db). ct_host c = h \<and> (w \<or> ct_container c \<in> set refs \<or> ct_name c \<in> set refs))"
  by (auto simp: hostIDsForContainerPolicies_def set_queryStringList)

lemma image_reads:
  "h \<noteq> [] \<Longrightarrow> h \<in> set (hostIDsForImagePolicies db refs w) \<longleftrightarrow>
     (\<exists>c\<in>set (liveContainers db). ct_host c = h
        \<and> (w \<or> ct_image_name c \<in> set refs \<or> ct_image_id c \<in> set refs \<or> ct_digest c \<in> set refs))"
  by (auto simp: hostIDsForImagePolicies_def set_queryStringList)

lemma assetGroupHosts_reads:
  "h \<noteq> [] \<Longrightarrow> (\<exists>ids. assetGroupHosts db ref = Some ids \<and> h \<in> set ids) \<longleftrightarrow> (\<exists>r\<in>set (hosts db). ho_id r = h \<and> inAssetGroup r ref)"
proof -
  assume h: "h \<noteq> []"
  obtain key v ok where p: "parseAssetGroupRef ref = (key, v, ok)" by (rule prod_cases3)
  obtain k x eq where c: "CutByte v (CHR ''='') = (k, x, eq)" by (rule prod_cases3)
  have sel: "(\<exists>ids. Some (queryStringList (map ho_id (filter P (hosts db)))) = Some ids \<and> h \<in> set ids)
      \<longleftrightarrow> (\<exists>r\<in>set (hosts db). ho_id r = h \<and> P r)" for P
    using h by (auto simp: set_queryStringList)
  note defs = assetGroupHosts_def inAssetGroup_def Let_def p c prod.case
  consider "\<not> ok" | "ok" "key = ''owner''" | "ok" "key = ''team''" | "ok" "key = ''environment''"
    | "ok" "key = ''criticality''" | "ok" "key = ''tag''"
    | "ok" "key \<noteq> ''owner''" "key \<noteq> ''team''" "key \<noteq> ''environment''" "key \<noteq> ''criticality''" "key \<noteq> ''tag''"
    by blast
  then show ?thesis
  proof cases
    case 6
    then show ?thesis unfolding defs using sel by (cases "eq \<and> TrimSpace k \<noteq> []") auto
  qed (unfold defs, simp_all add: sel del: option.inject)
qed

lemma assetGroupLoop_reads:
  "h \<noteq> [] \<Longrightarrow> h \<in> set (assetGroupLoop db refs hs) \<longleftrightarrow>
     h \<in> set hs \<or> (\<exists>ref\<in>set refs. \<exists>ids. assetGroupHosts db ref = Some ids \<and> h \<in> set ids)"
  by (induction refs arbitrary: hs) (auto simp: set_appendAll split: option.split)

lemma asset_group_reads:
  "h \<noteq> [] \<Longrightarrow> h \<in> set (hostIDsForAssetGroupPolicies db refs w) \<longleftrightarrow>
     (\<exists>r\<in>set (hosts db). ho_id r = h \<and> (w \<or> (\<exists>ref\<in>set refs. inAssetGroup r ref)))"
  by (auto simp: hostIDsForAssetGroupPolicies_def set_queryStringList assetGroupLoop_reads assetGroupHosts_reads)

text \<open>What the loop over the policies collects.\<close>

definition collected :: "tables \<Rightarrow> scopeRefs \<Rightarrow> string \<Rightarrow> bool" where
  "collected db r h \<longleftrightarrow> isAll r \<or> h \<in> set (hostRefs r)
     \<or> (\<exists>c\<in>set (liveContainers db). ct_host c = h
          \<and> (containerWildcard r \<or> ct_container c \<in> set (containerRefs r) \<or> ct_name c \<in> set (containerRefs r)))
     \<or> (\<exists>c\<in>set (liveContainers db). ct_host c = h
          \<and> (imageWildcard r \<or> ct_image_name c \<in> set (imageRefs r) \<or> ct_image_id c \<in> set (imageRefs r)
              \<or> ct_digest c \<in> set (imageRefs r)))
     \<or> (\<exists>x\<in>set (hosts db). ho_id x = h \<and> (assetGroupWildcard r \<or> (\<exists>ref\<in>set (assetGroupRefs r). inAssetGroup x ref)))"

lemma collected_none: "\<not> collected db noRefs h"
  by (simp add: collected_def noRefs_def)

lemma star_group: "\<not> inAssetGroup x ''*''"
  by (auto simp: inAssetGroup_def parseAssetGroupRef_def CutByte_def)

lemma addPolicy_collected:
  assumes "h \<noteq> []"
  shows "collected db (addPolicy r p) h \<longleftrightarrow> collected db r h \<or> grants db p h"
proof -
  consider "po_rtype p = ''all''" | "po_rtype p = ''host''" | "po_rtype p = ''container''" | "po_rtype p = ''image''"
    | "po_rtype p = ''asset_group''"
    | "po_rtype p \<noteq> ''all''" "po_rtype p \<noteq> ''host''" "po_rtype p \<noteq> ''container''" "po_rtype p \<noteq> ''image''"
      "po_rtype p \<noteq> ''asset_group''"
    by blast
  then show ?thesis
  proof cases
    case 2
    then show ?thesis using assms
      by (cases "po_rid p \<noteq> [] \<and> po_rid p \<noteq> ''*''")
        (auto simp: addPolicy_def grants_def Let_def collected_def set_appendUnique)
  next
    case 3
    then show ?thesis
      by (cases "po_rid p = ''*''"; cases "po_rid p = []")
        (simp_all add: addPolicy_def grants_def Let_def collected_def list_ex_iff, blast+)
  next
    case 4
    then show ?thesis
      by (cases "po_rid p = ''*''"; cases "po_rid p = []")
        (simp_all add: addPolicy_def grants_def Let_def collected_def list_ex_iff, blast+)
  next
    case 5
    then show ?thesis
      by (cases "po_rid p = ''*''"; cases "po_rid p = []")
        (simp_all add: addPolicy_def grants_def Let_def collected_def list_ex_iff, blast+)
  qed (simp_all add: addPolicy_def grants_def Let_def collected_def)
qed

lemma foldl_collected:
  "h \<noteq> [] \<Longrightarrow> collected db (foldl addPolicy r ps) h \<longleftrightarrow> collected db r h \<or> (\<exists>p\<in>set ps. grants db p h)"
  by (induction ps arbitrary: r) (auto simp: addPolicy_collected)

lemma scope_collected:
  assumes "h \<noteq> []" "permissions \<noteq> []"
  shows "CanReadHost (getAccessScopeForPermissions db ref permissions) h
    \<longleftrightarrow> collected db (foldl addPolicy noRefs (subjectPolicies db ref (\<lambda>p. po_permission p \<in> set permissions))) h"
proof -
  define r where "r = foldl addPolicy noRefs (subjectPolicies db ref (\<lambda>p. po_permission p \<in> set permissions))"
  have "CanReadHost (getAccessScopeForPermissions db ref permissions) h \<longleftrightarrow> isAll r \<or> h \<in> set (hostRefs r)
      \<or> h \<in> set (hostIDsForContainerPolicies db (containerRefs r) (containerWildcard r))
      \<or> h \<in> set (hostIDsForImagePolicies db (imageRefs r) (imageWildcard r))
      \<or> h \<in> set (hostIDsForAssetGroupPolicies db (assetGroupRefs r) (assetGroupWildcard r))"
    using assms by (auto simp: getAccessScopeForPermissions_def Let_def r_def[symmetric] CanReadHost_iff set_appendAll)
  then show ?thesis
    unfolding r_def[symmetric] collected_def
    by (simp only: container_reads[OF assms(1)] image_reads[OF assms(1)] asset_group_reads[OF assms(1)])
qed

text \<open>The policies a reference stands for.\<close>

definition granted :: "tables \<Rightarrow> string list \<Rightarrow> string \<Rightarrow> string \<Rightarrow> bool" where
  "granted db permissions h ref =
     list_ex (\<lambda>s. namedBy ref s
       \<and> list_ex (\<lambda>p. po_subject p = su_id s \<and> po_permission p \<in> set permissions \<and> grants db p h) (policies db)) (subjects db)"

lemma scope_granted:
  assumes "h \<noteq> []"
  shows "CanReadHost (getAccessScopeForPermissions db ref permissions) h \<longleftrightarrow> granted db permissions h ref"
proof (cases "permissions = []")
  case True
  then show ?thesis by (simp add: getAccessScopeForPermissions_def granted_def list_ex_iff)
next
  case False
  show ?thesis
    unfolding scope_collected[OF assms False] foldl_collected[OF assms]
    by (auto simp: collected_none subjectPolicies_def granted_def list_ex_iff)
qed


text \<open>
  A host policy for every host, which is what the policy editor stores when the resource is left empty,
  grants no host at all, unlike the wildcards of the other resource types.
\<close>

definition starHost :: tables where
  "starHost = \<lparr>subjects = [\<lparr>su_id = ''1'', su_type = ''user'', su_external = ''ann'', su_display = []\<rparr>], policies = [],
     containers = [], hosts = [\<lparr>ho_id = ''h'', ho_owner = [], ho_team = [], ho_environment = [], ho_criticality = [],
       ho_tags = []\<rparr>], scans = []\<rparr>"

lemma host_wildcard_grants_nothing:
  "case UpsertAccessPolicy ''p'' [] ''1'' [] ''host'' [] ''read'' starHost of
     Inl _ \<Rightarrow> False
   | Inr db \<Rightarrow> map po_rid (policies db) = [''*''] \<and> \<not> CanReadHost (GetAccessScope db ''user:ann'') ''h''
       \<and> WildcardPolicyCount (GetAccessControlStats db) = 1"
  by code_simp

lemma asset_group_wildcard_grants_all:
  "case UpsertAccessPolicy ''p'' [] ''1'' [] ''asset_group'' [] ''read'' starHost of
     Inl _ \<Rightarrow> False | Inr db \<Rightarrow> CanReadHost (GetAccessScope db ''user:ann'') ''h''"
  by code_simp


section \<open>References name what they say\<close>

lemma TrimSpace_app_right:
  assumes "l \<noteq> []" "\<not> is_space (hd l)" "TrimSpace r \<noteq> []"
  shows "\<exists>r'. TrimSpace (l @ r) = l @ r' \<and> TrimSpace r' = TrimSpace r"
proof -
  have "dropWhile is_space (l @ r) = l @ r" using assms(1,2) by (cases l) auto
  moreover have ne: "\<exists>c\<in>set r. \<not> is_space c"
  proof (rule ccontr)
    assume "\<not> ?thesis"
    then have "dropWhile is_space r = []" by (simp only: dropWhile_eq_Nil_conv) blast
    then show False using assms(3) by (simp only: TrimSpace_def) simp
  qed
  then have "dropWhile is_space (rev r @ rev l) = dropWhile is_space (rev r) @ rev l"
    by (metis dropWhile_append1 set_rev)
  ultimately have "TrimSpace (l @ r) = l @ rev (dropWhile is_space (rev r))" by (simp add: TrimSpace_def)
  moreover have "TrimSpace (rev (dropWhile is_space (rev r))) = TrimSpace r"
  proof -
    have r: "r = rev (dropWhile is_space (rev r)) @ rev (takeWhile is_space (rev r))"
      by (metis rev_append rev_rev_ident takeWhile_dropWhile_id)
    define a where "a = rev (dropWhile is_space (rev r))"
    define b where "b = rev (takeWhile is_space (rev r))"
    have bs: "\<forall>c\<in>set b. is_space c" unfolding b_def by (auto dest: set_takeWhileD)
    have "\<exists>c\<in>set a. \<not> is_space c" using ne bs r unfolding a_def[symmetric] b_def[symmetric] by (metis Un_iff set_append)
    then have "dropWhile is_space (a @ b) = dropWhile is_space a @ b" by (metis dropWhile_append1)
    moreover have "dropWhile is_space (rev b @ x) = dropWhile is_space x" for x
      using bs by (intro dropWhile_append2) auto
    ultimately have "TrimSpace (a @ b) = TrimSpace a" by (simp add: TrimSpace_def)
    then show ?thesis using r unfolding a_def[symmetric] b_def[symmetric] by simp
  qed
  ultimately show ?thesis by blast
qed

lemma parse_trimmed: "TrimSpace (snd (parseAccessSubjectRef ref)) = snd (parseAccessSubjectRef ref)"
  by (auto simp: parseAccessSubjectRef_def typedRef_def Let_def split: option.splits prod.splits if_splits)

text \<open>
  A typed subject reference cannot be mistaken for another: whatever a user or group name from a
  token or trusted header contains (colons, slashes, further prefixes), the reference built from it parses
  to that type and the trimmed name, so it can only meet policies of that type and name.
\<close>

theorem typed_reference:
  assumes "t = ''user'' \<or> t = ''group''" "TrimSpace u \<noteq> []"
  shows "parseAccessSubjectRef (t @ '':'' @ u) = (t, TrimSpace u)
    \<and> (namedBy (t @ '':'' @ u) s \<longleftrightarrow> su_type s = t \<and> su_external s = TrimSpace u)"
proof -
  have t: "t \<noteq> []" "CHR '':'' \<notin> set t" "ToLower (TrimSpace t) = t" "\<not> is_space (hd t)"
    using assms(1) by (elim disjE; simp; code_simp)+
  have l: "t @ '':'' \<noteq> []" "\<not> is_space (hd (t @ '':''))" using t by (cases t; simp)+
  obtain r where r: "TrimSpace (t @ '':'' @ u) = t @ '':'' @ r" "TrimSpace r = TrimSpace u"
    using TrimSpace_app_right[OF l assms(2)] by auto
  have "typedRef (t @ '':'' @ r) (CHR '':'') = Some (t, TrimSpace u)"
    using CutByte_first[OF t(2), of r] assms t(3) r(2) by (simp add: typedRef_def Let_def)
  then have p: "parseAccessSubjectRef (t @ '':'' @ u) = (t, TrimSpace u)"
    by (simp add: parseAccessSubjectRef_def r(1)[simplified])
  then show ?thesis using t(1) by (auto simp: namedBy_def)
qed

lemma typed_reference_witness:
  "parseAccessSubjectRef (''user'' @ '':'' @ '' group:ops/x'') = (''user'', ''group:ops/x'')"
proof -
  have n: "TrimSpace '' group:ops/x'' = ''group:ops/x''" by code_simp
  show ?thesis using typed_reference[of "''user''" "'' group:ops/x''"] n by simp
qed

text \<open>
  References are trimmed but stored names are not: a subject whose external id has surrounding spaces,
  which the handler accepts, is named by no reference, so its policies grant nothing.
\<close>

lemma untrimmed_subject_unreachable:
  assumes "TrimSpace (su_external s) \<noteq> su_external s"
  shows "\<not> namedBy ref s"
  using assms parse_trimmed[of ref] by (auto simp: namedBy_def split: prod.splits)

section \<open>Consistency of the tables\<close>

definition subject_key :: "AccessSubject \<Rightarrow> string \<times> string" where
  "subject_key s = (su_type s, su_external s)"

definition policy_key :: "AccessPolicy \<Rightarrow> string \<times> string \<times> string \<times> string" where
  "policy_key p = (po_subject p, po_rtype p, po_rid p, po_permission p)"

definition rbac_ok :: "tables \<Rightarrow> bool" where
  "rbac_ok db \<longleftrightarrow> distinct (map su_id (subjects db)) \<and> distinct (map subject_key (subjects db))
     \<and> list_all (\<lambda>s. su_type s = ''user'' \<or> su_type s = ''group'') (subjects db)
     \<and> distinct (map po_id (policies db)) \<and> distinct (map policy_key (policies db))
     \<and> list_all (\<lambda>p. po_permission p \<in> {''read'', ''write'', ''admin'', ''export''}) (policies db)
     \<and> list_all (\<lambda>p. list_ex (\<lambda>s. su_id s = po_subject p) (subjects db)) (policies db)"

inductive rbac_step :: "tables \<Rightarrow> tables \<Rightarrow> bool" where
  subject: "UpsertAccessSubject newId k ty ext disp db = Inr db' \<Longrightarrow> rbac_step db db'"
| policy: "UpsertAccessPolicy newId k sid ref rt rid perm db = Inr db' \<Longrightarrow> rbac_step db db'"
| remove_subject: "DeleteAccessSubject k db = (r, db') \<Longrightarrow> rbac_step db db'"
| remove_policy: "DeleteAccessPolicy k db = (r, db') \<Longrightarrow> rbac_step db db'"
| inventory: "rbac_step db (db\<lparr>containers := cs, hosts := hs, scans := ss\<rparr>)"

inductive rbac_reachable :: "tables \<Rightarrow> bool" where
  start: "rbac_reachable \<lparr>subjects = [], policies = [], containers = cs, hosts = hs, scans = ss\<rparr>"
| step: "rbac_reachable db \<Longrightarrow> rbac_step db db' \<Longrightarrow> rbac_reachable db'"

lemma subject_step_ok:
  assumes "UpsertAccessSubject newId k ty ext disp db = Inr db'" "rbac_ok db"
  shows "rbac_ok db'"
proof (cases "list_ex (\<lambda>s. su_type s = ty \<and> su_external s = ext) (subjects db)")
  case True
  define f :: "AccessSubject \<Rightarrow> AccessSubject" where "f = (\<lambda>s. if su_type s = ty \<and> su_external s = ext then s\<lparr>su_display := disp\<rparr> else s)"
  have f: "su_id (f s) = su_id s" "subject_key (f s) = subject_key s" "su_type (f s) = su_type s" for s
    by (auto simp: f_def subject_key_def)
  have m: "map su_id (map f ss) = map su_id ss" "map subject_key (map f ss) = map subject_key ss" for ss
    using f by simp_all
  have "db' = db\<lparr>subjects := map f (subjects db)\<rparr>"
    using assms(1) True by (auto simp: UpsertAccessSubject_def Let_def f_def split: if_splits)
  then show ?thesis using assms(2)
    by (simp only: rbac_ok_def tables.simps m) (simp add: list_all_iff list_ex_iff f comp_def)
next
  case False
  then obtain k' where k: "\<not> list_ex (\<lambda>s. su_id s = k') (subjects db)" "ty = ''user'' \<or> ty = ''group''"
      "db' = db\<lparr>subjects := subjects db @ [\<lparr>su_id = k', su_type = ty, su_external = ext, su_display = disp\<rparr>]\<rparr>"
    using assms(1) by (auto simp: UpsertAccessSubject_def Let_def split: if_splits)
  then show ?thesis using assms(2) False
    by (auto simp: rbac_ok_def subject_key_def list_ex_iff list_all_iff)
qed

lemma resolve_exists:
  assumes "resolveAccessSubjectID ref db = Inr sid"
  shows "list_ex (\<lambda>s. su_id s = sid) (subjects db)"
proof -
  define ss where "ss = sort_key su_type (filter (namedBy ref) (subjects db))"
  have "ss \<noteq> []" "sid = su_id (hd ss)"
    using assms by (auto simp: resolveAccessSubjectID_def Let_def ss_def[symmetric] hd_map split: if_splits)
  moreover have "set ss \<subseteq> set (subjects db)" by (auto simp: ss_def)
  ultimately have "hd ss \<in> set (subjects db)" "su_id (hd ss) = sid" by auto
  then show ?thesis by (auto simp: list_ex_iff)
qed

lemma policy_step_ok:
  assumes "UpsertAccessPolicy newId k sid ref rt rid perm db = Inr db'" "rbac_ok db"
  shows "rbac_ok db'"
proof -
  define subj where "subj = (if sid = [] then resolveAccessSubjectID ref db
     else if list_ex (\<lambda>s. su_id s = sid) (subjects db) then Inr sid else Inl (SubjectIDNotFound sid))"
  define rid' where "rid' = (if rid = [] then ''*'' else rid)"
  define k' where "k' = (if k = [] then newId else k)"
  obtain s where s: "subj = Inr s"
    using assms(1) unfolding UpsertAccessPolicy_def Let_def subj_def[symmetric] by (cases subj) auto
  have ex: "list_ex (\<lambda>x. su_id x = s) (subjects db)"
    using s resolve_exists by (auto simp: subj_def split: if_splits)
  have r: "db' = db \<or> (perm \<in> {''read'', ''write'', ''admin'', ''export''}
      \<and> \<not> list_ex (\<lambda>p. po_subject p = s \<and> po_rtype p = rt \<and> po_rid p = rid' \<and> po_permission p = perm) (policies db)
      \<and> \<not> list_ex (\<lambda>p. po_id p = k') (policies db)
      \<and> db' = db\<lparr>policies := policies db @ [\<lparr>po_id = k', po_subject = s, po_rtype = rt, po_rid = rid', po_permission = perm\<rparr>]\<rparr>)"
    using assms(1) s
    unfolding UpsertAccessPolicy_def Let_def subj_def[symmetric] rid'_def[symmetric] k'_def[symmetric]
    by (auto split: if_splits)
  then show ?thesis
  proof
    assume "db' = db"
    then show ?thesis using assms(2) by simp
  next
    assume "perm \<in> {''read'', ''write'', ''admin'', ''export''}
      \<and> \<not> list_ex (\<lambda>p. po_subject p = s \<and> po_rtype p = rt \<and> po_rid p = rid' \<and> po_permission p = perm) (policies db)
      \<and> \<not> list_ex (\<lambda>p. po_id p = k') (policies db)
      \<and> db' = db\<lparr>policies := policies db @ [\<lparr>po_id = k', po_subject = s, po_rtype = rt, po_rid = rid', po_permission = perm\<rparr>]\<rparr>"
    then show ?thesis using assms(2) ex
      unfolding rbac_ok_def by (auto simp: policy_key_def list_ex_iff)
  qed
qed

lemma delete_subject_result:
  "snd (DeleteAccessSubject k db) = db \<or>
   snd (DeleteAccessSubject k db) = db\<lparr>subjects := filter (\<lambda>s. su_id s \<noteq> k) (subjects db),
      policies := filter (\<lambda>p. po_subject p \<noteq> k) (policies db)\<rparr>"
  by (auto simp: DeleteAccessSubject_def Let_def split: option.split)

lemma delete_subject_ok:
  assumes "rbac_ok db"
  shows "rbac_ok (db\<lparr>subjects := filter (\<lambda>s. su_id s \<noteq> k) (subjects db),
      policies := filter (\<lambda>p. po_subject p \<noteq> k) (policies db)\<rparr>)"
  using assms unfolding rbac_ok_def
  by (simp add: distinct_map_filter list_all_iff list_ex_iff) metis

lemma delete_policy_ok:
  assumes "rbac_ok db" shows "rbac_ok (snd (DeleteAccessPolicy k db))"
proof -
  have "snd (DeleteAccessPolicy k db) = db\<lparr>policies := filter (\<lambda>p. po_id p \<noteq> k) (policies db)\<rparr>"
    by (auto simp: DeleteAccessPolicy_def Let_def split: option.split)
  then show ?thesis using assms unfolding rbac_ok_def by (simp add: distinct_map_filter list_all_iff)
qed

lemma rbac_step_ok: "rbac_step db db' \<Longrightarrow> rbac_ok db \<Longrightarrow> rbac_ok db'"
proof (induction rule: rbac_step.induct)
  case (subject newId k ty ext disp db db')
  then show ?case by (rule subject_step_ok)
next
  case (policy newId k sid ref rt rid perm db db')
  then show ?case by (rule policy_step_ok)
next
  case (remove_subject k db r db')
  then show ?case using delete_subject_result[of k db] delete_subject_ok[of db k] by auto
next
  case (remove_policy k db r db')
  then show ?case using delete_policy_ok[of db k] by simp
next
  case (inventory db cs hs ss)
  then show ?case by (simp add: rbac_ok_def)
qed

lemma reachable_ok: "rbac_reachable db \<Longrightarrow> rbac_ok db"
proof (induction rule: rbac_reachable.induct)
  case (start cs hs ss)
  then show ?case by (simp add: rbac_ok_def)
qed (rule rbac_step_ok)

lemma count_two:
  "list_all (\<lambda>x. f x = a \<or> f x = b) xs \<Longrightarrow> a \<noteq> b \<Longrightarrow>
   length (filter (\<lambda>x. f x = a) xs) + length (filter (\<lambda>x. f x = b) xs) = length xs"
  by (induction xs) auto

lemma count_four:
  "list_all (\<lambda>x. f x \<in> {a, b, c, d}) xs \<Longrightarrow> distinct [a, b, c, d] \<Longrightarrow>
   length (filter (\<lambda>x. f x = a) xs) + length (filter (\<lambda>x. f x = b) xs)
   + length (filter (\<lambda>x. f x = c) xs) + length (filter (\<lambda>x. f x = d) xs) = length xs"
  by (induction xs) auto

text \<open>
  C20: revoking a subject revokes its access: in every table reachable by the administration handlers,
  whatever the inventory does in between, there is no orphan policy and the status counters add up;
  deleting a subject reports how many policies go with it, and afterwards a reference grants what the
  other subjects it names were granted, and a subject that was the only one named grants nothing.
\<close>

theorem revocation_is_complete:
  assumes "rbac_reachable db" "DeleteAccessSubject k db = (Inr (item, n), db')"
  shows "OrphanPolicyCount (GetAccessControlStats db') = 0
    \<and> UserSubjectCount (GetAccessControlStats db') + GroupSubjectCount (GetAccessControlStats db')
        = SubjectCount (GetAccessControlStats db')
    \<and> ReadPolicyCount (GetAccessControlStats db') + WritePolicyCount (GetAccessControlStats db')
        + AdminPolicyCount (GetAccessControlStats db') + ExportPolicyCount (GetAccessControlStats db')
        = PolicyCount (GetAccessControlStats db')
    \<and> PolicyCount (GetAccessControlStats db) = PolicyCount (GetAccessControlStats db') + n
    \<and> (\<forall>perms h ref. granted db' perms h ref \<longleftrightarrow>
        list_ex (\<lambda>s. su_id s \<noteq> k \<and> namedBy ref s
          \<and> list_ex (\<lambda>p. po_subject p = su_id s \<and> po_permission p \<in> set perms \<and> grants db p h) (policies db)) (subjects db))"
proof -
  have d: "db' = db\<lparr>subjects := filter (\<lambda>s. su_id s \<noteq> k) (subjects db), policies := filter (\<lambda>p. po_subject p \<noteq> k) (policies db)\<rparr>"
      "n = length (filter (\<lambda>p. po_subject p = k) (policies db))"
    using assms(2) by (auto simp: DeleteAccessSubject_def Let_def split: option.splits)
  have ok: "rbac_ok db'" unfolding d(1) by (rule delete_subject_ok[OF reachable_ok[OF assms(1)]])
  have users: "list_all (\<lambda>s. su_type s = ''user'' \<or> su_type s = ''group'') (subjects db')"
    and perms: "list_all (\<lambda>p. po_permission p \<in> {''read'', ''write'', ''admin'', ''export''}) (policies db')"
    and fk: "list_all (\<lambda>p. list_ex (\<lambda>s. su_id s = po_subject p) (subjects db')) (policies db')"
    using ok by (simp_all add: rbac_ok_def)
  have g: "grants db' p h = grants db p h" for p h
    by (simp add: d(1) grants_def liveContainers_def Let_def)
  have "granted db' ps h ref \<longleftrightarrow> list_ex (\<lambda>s. su_id s \<noteq> k \<and> namedBy ref s
      \<and> list_ex (\<lambda>p. po_subject p = su_id s \<and> po_permission p \<in> set ps \<and> grants db p h) (policies db)) (subjects db)" for ps h ref
    unfolding granted_def g by (simp add: d(1) list_ex_iff) metis
  moreover have "length (policies db) = length (policies db') + n"
    using sum_length_filter_compl[of "\<lambda>p. po_subject p = k" "policies db"] by (simp add: d)
  moreover have "filter (\<lambda>p. \<not> list_ex (\<lambda>s. su_id s = po_subject p) (subjects db')) (policies db') = []"
    using fk by (simp add: list_all_iff filter_empty_conv)
  ultimately show ?thesis
    using count_two[OF users] count_four[OF perms] by (simp add: GetAccessControlStats_def Let_def)
qed

lemma revocation_is_complete_witness:
  "\<exists>db db'. rbac_reachable db \<and> DeleteAccessSubject ''1'' db = (Inr (hd (subjects starHost), 0), db')
     \<and> OrphanPolicyCount (GetAccessControlStats db') = 0"
proof -
  let ?db0 = "starHost\<lparr>subjects := []\<rparr>"
  have r0: "rbac_reachable ?db0" using start unfolding starHost_def by simp
  have "UpsertAccessSubject ''1'' [] ''user'' ''ann'' [] ?db0 = Inr starHost"
    by (simp add: UpsertAccessSubject_def starHost_def)
  then have r: "rbac_reachable starHost" using r0 step subject by blast
  have d: "DeleteAccessSubject ''1'' starHost = (Inr (hd (subjects starHost), 0), ?db0)"
    by (simp add: DeleteAccessSubject_def starHost_def)
  show ?thesis using revocation_is_complete[OF r d] r d by blast
qed

end
