(* ===== verification/Reporter.thy ===== *)
theory Reporter
  imports Prelude
begin

text \<open>
  The agent's HTTP client: \<^verbatim>\<open>internal/agent/reporter/reporter.go\<close>. Durations are 64-bit counts of
  nanoseconds, held as \<open>int\<close> with the wrap-around written out. The server is a function from the attempt
  number and the request to a transport error or a response; sleeping is an output, the list of delays.
  A Go panic is \<open>None\<close>.
\<close>

section \<open>Configuration\<close>

definition Second :: int where "Second = 1000000000"

record retryConfig =
  maxAttempts :: int
  maxBackoff :: int

text \<open>\<open>env\<close> is the environment; an unset variable reads as the empty string.\<close>

definition retryConfigFromEnv :: "(string \<Rightarrow> string) \<Rightarrow> retryConfig" where
  "retryConfigFromEnv env =
     (let attempts = (let v = env ''BONGSU_AGENT_RETRY_ATTEMPTS'' in
            if v \<noteq> [] then (case Atoi v of Some n \<Rightarrow> if n > 0 then n else 5 | None \<Rightarrow> 5) else 5);
          backoff = (let v = env ''BONGSU_AGENT_RETRY_MAX_BACKOFF_SECONDS'' in
            if v \<noteq> [] then
              (case Atoi v of Some n \<Rightarrow> if n > 0 then wrap64 (n * Second) else 30 * Second | None \<Rightarrow> 30 * Second)
            else 30 * Second)
      in \<lparr>maxAttempts = attempts, maxBackoff = backoff\<rparr>)"

section \<open>Requests and responses\<close>

record HttpRequest =
  Url :: string
  Headers :: "(string \<times> string) list"
  ReqBody :: string

text \<open>
  A response body delivers its bytes and then ends (\<open>True\<close>) or fails (\<open>False\<close>); \<open>None\<close> is the nil reader.
\<close>

record Response =
  StatusCode :: int
  RetryAfter :: string
  Body :: "(string \<times> bool) option"

datatype send_error = Transport string | ServerStatus int | MarshalFailed | BadRequestURL

datatype report_error = NewRequestFailed | AfterAttempts int "send_error option"
  | Returned int string | DecodeFailed

definition maxErrorResponseBodyBytes :: nat where
  "maxErrorResponseBodyBytes = 16384"

definition readBoundedErrorBody :: "(string \<times> bool) option \<Rightarrow> string" where
  "readBoundedErrorBody body =
     (case body of
        None \<Rightarrow> []
      | Some (bytes, ok) \<Rightarrow>
          let data = take (maxErrorResponseBodyBytes + 1) bytes in
          if length bytes < maxErrorResponseBodyBytes + 1 \<and> \<not> ok then ''failed to read error response''
          else if length data \<le> maxErrorResponseBodyBytes then data
          else take maxErrorResponseBodyBytes data @ ''...(truncated)'')"

section \<open>Delays\<close>

definition shouldRetryHTTP :: "int \<Rightarrow> bool" where
  "shouldRetryHTTP statusCode \<longleftrightarrow> statusCode = 429 \<or> statusCode \<ge> 500"

text \<open>
  What the client reads from outside at attempt \<open>n\<close>: the clock, and \<^verbatim>\<open>rng.Int63n(k)\<close>, which returns a value
  in \<open>{0..<k}\<close>. \<open>parseTime\<close> is \<^verbatim>\<open>http.ParseTime\<close>.
\<close>

record world =
  clock :: "nat \<Rightarrow> int"
  Int63n :: "nat \<Rightarrow> int \<Rightarrow> int"
  parseTime :: "string \<Rightarrow> int option"

text \<open>\<^verbatim>\<open>time.Time.Sub\<close> saturates.\<close>

definition subTime :: "int \<Rightarrow> int \<Rightarrow> int" where
  "subTime t u = max go_int_min (min go_int_max (t - u))"

definition retryAfterDelay :: "(string \<Rightarrow> int option) \<Rightarrow> string \<Rightarrow> int \<Rightarrow> int option" where
  "retryAfterDelay parse header now =
     (let header = TrimSpace header in
      if header = [] then None
      else case Atoi header of
             Some seconds \<Rightarrow> if seconds < 0 then None else Some (wrap64 (seconds * Second))
           | None \<Rightarrow>
               (case parse header of
                  None \<Rightarrow> None
                | Some w \<Rightarrow> let delay = subTime w now in Some (if delay < 0 then 0 else delay)))"

definition boundedBackoff :: "retryConfig \<Rightarrow> int \<Rightarrow> int" where
  "boundedBackoff cfg delay = (if delay > maxBackoff cfg then maxBackoff cfg else delay)"

text \<open>\<^verbatim>\<open>Int63n\<close> panics unless its argument is positive. A shift by 64 or more leaves 0.\<close>

definition exponentialBackoff :: "retryConfig \<Rightarrow> (int \<Rightarrow> int) \<Rightarrow> int \<Rightarrow> int option" where
  "exponentialBackoff cfg draw attempt =
     (let attempt = (if attempt \<le> 0 then 1 else attempt);
          backoff = wrap64 (wrap64 (2 ^ nat (attempt - 1)) * Second);
          backoff = boundedBackoff cfg backoff
      in if backoff \<le> 0 then Some 0
         else if backoff div 2 \<le> 0 then None
         else Some (wrap64 (backoff + draw (backoff div 2))))"

definition retryDelay :: "retryConfig \<Rightarrow> world \<Rightarrow> nat \<Rightarrow> int \<Rightarrow> Response option \<Rightarrow> int option" where
  "retryDelay cfg w k attempt resp =
     (case resp of
        Some r \<Rightarrow>
          (case retryAfterDelay (parseTime w) (RetryAfter r) (clock w k) of
             Some delay \<Rightarrow> Some (boundedBackoff cfg delay)
           | None \<Rightarrow> exponentialBackoff cfg (Int63n w k) attempt)
      | None \<Rightarrow> exponentialBackoff cfg (Int63n w k) attempt)"

section \<open>The retry loop\<close>

text \<open>The result carries the delays slept, in order.\<close>

function retryLoop :: "retryConfig \<Rightarrow> world \<Rightarrow> (nat \<Rightarrow> send_error + Response) \<Rightarrow> int \<Rightarrow> int \<Rightarrow> send_error option
    \<Rightarrow> (int list \<times> (report_error + Response)) option" where
  "retryLoop cfg w fn attempt delay lastErr =
     (if attempt < maxAttempts cfg then
        let slept = (if attempt > 0 then [delay] else []);
            k = nat attempt;
            again = (\<lambda>err resp. case retryDelay cfg w k (attempt + 1) resp of
                 None \<Rightarrow> None
               | Some d \<Rightarrow> map_option (map_prod ((@) slept) id) (retryLoop cfg w fn (attempt + 1) d (Some err)))
        in case fn k of
             Inl err \<Rightarrow> again err None
           | Inr resp \<Rightarrow>
               if shouldRetryHTTP (StatusCode resp) then again (ServerStatus (StatusCode resp)) (Some resp)
               else Some (slept, Inr resp)
      else Some ([], Inl (AfterAttempts (maxAttempts cfg) lastErr)))"
  by pat_completeness auto
termination by (relation "measure (\<lambda>(cfg, w, fn, attempt, delay, lastErr). nat (maxAttempts cfg - attempt))") auto

declare retryLoop.simps [simp del]

definition doWithRetry :: "retryConfig \<Rightarrow> world \<Rightarrow> (nat \<Rightarrow> send_error + Response)
    \<Rightarrow> (int list \<times> (report_error + Response)) option" where
  "doWithRetry cfg w fn = retryLoop cfg w fn 0 0 None"

section \<open>The calls\<close>

text \<open>\<^verbatim>\<open>url.QueryEscape\<close>.\<close>

definition hexDigit :: "nat \<Rightarrow> char" where
  "hexDigit n = (if n < 10 then char_of (48 + n) else char_of (55 + n))"

definition queryUnreserved :: "char \<Rightarrow> bool" where
  "queryUnreserved c \<longleftrightarrow> isAlnum c \<or> c \<in> set ''-_.~''"

definition QueryEscape :: "string \<Rightarrow> string" where
  "QueryEscape s = concat (map (\<lambda>c. if queryUnreserved c then [c]
     else if c = CHR '' '' then ''+''
     else [CHR ''%'', hexDigit (of_char c div 16), hexDigit (of_char c mod 16)]) s)"

record Reporter =
  serverURL :: string
  apiKey :: string
  agentToken :: string
  retry :: retryConfig

definition New :: "(string \<Rightarrow> string) \<Rightarrow> string \<Rightarrow> string \<Rightarrow> string list \<Rightarrow> Reporter" where
  "New env url key tokens =
     \<lparr>serverURL = url, apiKey = key, agentToken = (case tokens of t # _ \<Rightarrow> t | [] \<Rightarrow> []),
      retry = retryConfigFromEnv env\<rparr>"

definition setAgentIdentityHeaders :: "Reporter \<Rightarrow> string \<Rightarrow> (string \<times> string) list \<Rightarrow> (string \<times> string) list" where
  "setAgentIdentityHeaders r hostID hdrs =
     (if agentToken r = [] then hdrs
      else hdrs @ [(''X-Bongsu-Agent-Token'', agentToken r), (''X-Bongsu-Host-ID'', hostID)])"

text \<open>
  \<open>transport n\<close> sends the \<open>n\<close>-th attempt; \<open>urlOk\<close> says whether \<^verbatim>\<open>http.NewRequest\<close> accepts an address; the JSON
  decoder and encoders are parameters.
\<close>

type_synonym transport = "nat \<Rightarrow> HttpRequest \<Rightarrow> send_error + Response"

definition ClaimScanRequest_agent :: "Reporter \<Rightarrow> world \<Rightarrow> transport \<Rightarrow> (string \<Rightarrow> bool)
    \<Rightarrow> ((string \<times> bool) option \<Rightarrow> 'q option option) \<Rightarrow> string \<Rightarrow> (int list \<times> (report_error + 'q option)) option" where
  "ClaimScanRequest_agent r w transport urlOk decode hostID =
     (let url = serverURL r @ ''/api/agent/scan-requests/claim?host_id='' @ QueryEscape hostID;
          req = \<lparr>Url = url, Headers = setAgentIdentityHeaders r hostID [(''X-API-Key'', apiKey r)], ReqBody = []\<rparr>
      in if \<not> urlOk url then Some ([], Inl NewRequestFailed)
         else case doWithRetry (retry r) w (\<lambda>k. transport k req) of
                None \<Rightarrow> None
              | Some (slept, Inl e) \<Rightarrow> Some (slept, Inl e)
              | Some (slept, Inr resp) \<Rightarrow>
                  if StatusCode resp \<noteq> 200 then
                    Some (slept, Inl (Returned (StatusCode resp) (readBoundedErrorBody (Body resp))))
                  else case decode (Body resp) of
                         None \<Rightarrow> Some (slept, Inl DecodeFailed)
                       | Some out \<Rightarrow> Some (slept, Inr out))"

text \<open>\<open>encode\<close> writes the completion as JSON.\<close>

definition CompleteScanRequest_agent :: "Reporter \<Rightarrow> world \<Rightarrow> transport \<Rightarrow> (string \<Rightarrow> bool)
    \<Rightarrow> (string \<Rightarrow> string \<Rightarrow> string \<Rightarrow> string) \<Rightarrow> string \<Rightarrow> string \<Rightarrow> string \<Rightarrow> string
    \<Rightarrow> (int list \<times> (report_error + unit)) option" where
  "CompleteScanRequest_agent r w transport urlOk encode reqID hostID st message =
     (let url = serverURL r @ ''/api/agent/scan-requests/'' @ reqID @ ''/complete'';
          req = \<lparr>Url = url, Headers = setAgentIdentityHeaders r hostID
                  [(''Content-Type'', ''application/json''), (''X-API-Key'', apiKey r)],
                 ReqBody = encode hostID st message\<rparr>
      in if \<not> urlOk url then Some ([], Inl NewRequestFailed)
         else case doWithRetry (retry r) w
                     (\<lambda>k. if \<not> urlOk url then Inl BadRequestURL else transport k req) of
                None \<Rightarrow> None
              | Some (slept, Inl e) \<Rightarrow> Some (slept, Inl e)
              | Some (slept, Inr resp) \<Rightarrow>
                  if StatusCode resp \<noteq> 200 then
                    Some (slept, Inl (Returned (StatusCode resp) (readBoundedErrorBody (Body resp))))
                  else Some (slept, Inr ()))"

record ReportResult =
  ResStatus :: string
  ResScanID :: string
  ScanStatus :: string
  InventoryStatus :: string
  IngestErrorCount :: int
  SkippedVulnCount :: int

text \<open>Sending a report; \<open>hostOf\<close> reads the id of its host.\<close>

definition Send :: "Reporter \<Rightarrow> world \<Rightarrow> transport \<Rightarrow> (string \<Rightarrow> bool) \<Rightarrow> ('r \<Rightarrow> string option) \<Rightarrow> ('r \<Rightarrow> string)
    \<Rightarrow> ((string \<times> bool) option \<Rightarrow> ReportResult option) \<Rightarrow> 'r \<Rightarrow> (int list \<times> (report_error + ReportResult)) option" where
  "Send r w transport urlOk encode hostOf decode report =
     (let url = serverURL r @ ''/api/report'';
          fn = (\<lambda>k. case encode report of
             None \<Rightarrow> Inl MarshalFailed
           | Some body \<Rightarrow>
               if \<not> urlOk url then Inl BadRequestURL
               else transport k \<lparr>Url = url, Headers = setAgentIdentityHeaders r (hostOf report)
                      [(''Content-Type'', ''application/json''), (''X-API-Key'', apiKey r)], ReqBody = body\<rparr>)
      in case doWithRetry (retry r) w fn of
           None \<Rightarrow> None
         | Some (slept, Inl e) \<Rightarrow> Some (slept, Inl e)
         | Some (slept, Inr resp) \<Rightarrow>
             if StatusCode resp \<noteq> 200 then
               Some (slept, Inl (Returned (StatusCode resp) (readBoundedErrorBody (Body resp))))
             else case decode (Body resp) of
                    None \<Rightarrow> Some (slept, Inl DecodeFailed)
                  | Some result \<Rightarrow>
                      Some (slept, Inr (if ScanStatus result = [] then result\<lparr>ScanStatus := ''completed''\<rparr> else result)))"

section \<open>Bounds of the delays\<close>

lemma wrap64_even: "even n \<Longrightarrow> even (wrap64 n)"
  by (simp add: wrap64_def sint_sbintrunc' even_signed_take_bit_iff)

lemma wrap64_le: "go_int_min \<le> n \<Longrightarrow> wrap64 n \<le> n"
  using zmod_le_nonneg_dividend[of "n + 2 ^ 63" "2 ^ 64"]
  by (simp add: wrap64_def sint_sbintrunc' signed_take_bit_eq_take_bit_shift go_int_min_def take_bit_eq_mod)

lemma boundedBackoff_le: "boundedBackoff cfg d \<le> maxBackoff cfg"
  by (simp add: boundedBackoff_def)

lemma retryConfigFromEnv_ok: "maxAttempts (retryConfigFromEnv env) > 0" "even (maxBackoff (retryConfigFromEnv env))"
  by (auto simp: retryConfigFromEnv_def Let_def Second_def wrap64_even split: option.splits)

text \<open>The pseudo random source returns values of the range asked for.\<close>

definition fair :: "world \<Rightarrow> bool" where
  "fair w \<longleftrightarrow> (\<forall>k n. 0 < n \<longrightarrow> 0 \<le> Int63n w k n \<and> Int63n w k n < n)"

lemma exponentialBackoff_total:
  assumes "even (maxBackoff cfg)"
  shows "exponentialBackoff cfg draw attempt \<noteq> None"
proof -
  define b where "b = boundedBackoff cfg (wrap64 (wrap64 (2 ^ nat ((if attempt \<le> 0 then 1 else attempt) - 1)) * Second))"
  have "even b" using assms by (simp add: b_def boundedBackoff_def wrap64_even Second_def)
  then have "b \<le> 0 \<or> \<not> b div 2 \<le> 0" by auto
  then show ?thesis by (auto simp: exponentialBackoff_def Let_def b_def[symmetric])
qed

lemma exponentialBackoff_le:
  assumes "exponentialBackoff cfg (Int63n w k) attempt = Some d" "fair w"
  shows "2 * d \<le> 3 * max 0 (maxBackoff cfg)"
proof -
  define b where "b = boundedBackoff cfg (wrap64 (wrap64 (2 ^ nat ((if attempt \<le> 0 then 1 else attempt) - 1)) * Second))"
  have b: "b \<le> maxBackoff cfg" by (simp add: b_def boundedBackoff_le)
  show ?thesis
  proof (cases "b \<le> 0")
    case True
    then show ?thesis using assms(1) by (simp add: exponentialBackoff_def Let_def b_def[symmetric])
  next
    case False
    then have h: "b div 2 > 0" "d = wrap64 (b + Int63n w k (b div 2))"
      using assms(1) by (auto simp: exponentialBackoff_def Let_def b_def[symmetric] split: if_splits)
    then have r: "0 \<le> Int63n w k (b div 2)" "Int63n w k (b div 2) < b div 2" using assms(2) by (auto simp: fair_def)
    have "d \<le> b + Int63n w k (b div 2)" unfolding h(2) by (rule wrap64_le) (use False r in \<open>simp add: go_int_min_def\<close>)
    then show ?thesis using r b False by auto
  qed
qed

lemma retryDelay_total: "even (maxBackoff cfg) \<Longrightarrow> retryDelay cfg w k attempt resp \<noteq> None"
  using exponentialBackoff_total[of cfg] by (auto simp: retryDelay_def split: option.split)

lemma retryDelay_le:
  assumes "retryDelay cfg w k attempt resp = Some d" "fair w"
  shows "2 * d \<le> 3 * max 0 (maxBackoff cfg)"
proof -
  have "2 * boundedBackoff cfg x \<le> 3 * max 0 (maxBackoff cfg)" for x
    using boundedBackoff_le[of cfg x] by simp
  then show ?thesis using assms exponentialBackoff_le by (auto simp: retryDelay_def split: option.splits)
qed

text \<open>Without a \<^verbatim>\<open>Retry-After\<close>, the wait doubles from a second up to the bound.\<close>

lemma exponentialBackoff_ge:
  assumes "exponentialBackoff cfg (Int63n w k) (int n + 1) = Some d" "fair w" "n \<le> 33"
    "0 < maxBackoff cfg" "maxBackoff cfg \<le> 2 ^ 62"
  shows "min (2 ^ n * Second) (maxBackoff cfg) \<le> d"
proof -
  define b where "b = boundedBackoff cfg (wrap64 (wrap64 (2 ^ n) * Second))"
  have "(2::int) ^ n \<le> 2 ^ 33" using assms(3) by (intro power_increasing) auto
  moreover define x :: int where "x = 2 ^ n"
  ultimately have p: "x \<le> 8589934592" "0 < x" by simp_all
  have "wrap64 x = x" "wrap64 (x * Second) = x * Second"
    by (rule wrap64_id; use p in \<open>simp add: go_int_min_def go_int_max_def Second_def\<close>)+
  then have "wrap64 (wrap64 (2 ^ n) * Second) = 2 ^ n * Second" by (simp add: x_def)
  then have b: "b = min (2 ^ n * Second) (maxBackoff cfg)" by (simp add: b_def boundedBackoff_def)
  have bm: "b \<le> maxBackoff cfg" using b by simp
  have pos: "b > 0" using assms(4) by (simp add: b Second_def)
  then have h: "b div 2 > 0" "d = wrap64 (b + Int63n w k (b div 2))"
    using assms(1) by (auto simp: exponentialBackoff_def Let_def b_def[symmetric] split: if_splits)
  then have r: "0 \<le> Int63n w k (b div 2)" "Int63n w k (b div 2) < b div 2" using assms(2) by (auto simp: fair_def)
  have "2 * Int63n w k (b div 2) < b" using r(2) by linarith
  then have "go_int_min \<le> b + Int63n w k (b div 2)" "b + Int63n w k (b div 2) \<le> go_int_max"
    using pos r(1) assms(5) bm by (simp_all add: go_int_min_def go_int_max_def)
  then have "d = b + Int63n w k (b div 2)" unfolding h(2) by (rule wrap64_id)
  then show ?thesis using r b by simp
qed

text \<open>
  From the thirty-fifth attempt on the doubling overflows: the product is negative and the wait is zero, so
  a client configured for many attempts ends up retrying without any pause.
\<close>

lemma backoff_overflow:
  "maxBackoff cfg \<ge> 0 \<Longrightarrow> exponentialBackoff cfg draw 35 = Some 0"
proof -
  have "wrap64 (wrap64 (2 ^ 34) * Second) = -1266874889709551616" by code_simp
  then show "maxBackoff cfg \<ge> 0 \<Longrightarrow> exponentialBackoff cfg draw 35 = Some 0"
    by (simp add: exponentialBackoff_def boundedBackoff_def Let_def)
qed

section \<open>The retry loop, step by step\<close>

definition failed :: "send_error + Response \<Rightarrow> bool" where
  "failed x = (case x of Inl e \<Rightarrow> True | Inr r \<Rightarrow> shouldRetryHTTP (StatusCode r))"

definition causeOf :: "send_error + Response \<Rightarrow> send_error" where
  "causeOf x = (case x of Inl e \<Rightarrow> e | Inr r \<Rightarrow> ServerStatus (StatusCode r))"

definition respOf :: "send_error + Response \<Rightarrow> Response option" where
  "respOf x = (case x of Inl e \<Rightarrow> None | Inr r \<Rightarrow> Some r)"

text \<open>The wait after attempt \<open>k\<close>.\<close>

definition waitAfter :: "retryConfig \<Rightarrow> world \<Rightarrow> (nat \<Rightarrow> send_error + Response) \<Rightarrow> nat \<Rightarrow> int" where
  "waitAfter cfg w fn k = the (retryDelay cfg w k (int k + 1) (respOf (fn k)))"

lemma waitAfter_eq:
  "even (maxBackoff cfg) \<Longrightarrow> retryDelay cfg w k (int k + 1) (respOf (fn k)) = Some (waitAfter cfg w fn k)"
  using retryDelay_total[of cfg w k "int k + 1" "respOf (fn k)"] by (auto simp: waitAfter_def)

lemma retryLoop_stop:
  "int n \<ge> maxAttempts cfg \<Longrightarrow> retryLoop cfg w fn (int n) d e = Some ([], Inl (AfterAttempts (maxAttempts cfg) e))"
  by (subst retryLoop.simps) simp

lemma retryLoop_success:
  "int n < maxAttempts cfg \<Longrightarrow> fn n = Inr r \<Longrightarrow> \<not> failed (fn n) \<Longrightarrow>
   retryLoop cfg w fn (int n) d e = Some ((if n > 0 then [d] else []), Inr r)"
  by (subst retryLoop.simps) (simp add: failed_def)

lemma retryLoop_again:
  assumes "int n < maxAttempts cfg" "failed (fn n)" "even (maxBackoff cfg)"
  shows "retryLoop cfg w fn (int n) d e = map_option (map_prod ((@) (if n > 0 then [d] else [])) id)
     (retryLoop cfg w fn (int (Suc n)) (waitAfter cfg w fn n) (Some (causeOf (fn n))))"
proof -
  note eq = waitAfter_eq[OF assms(3), of w n fn]
  have s: "int n + 1 = int (Suc n)" by simp
  show ?thesis
  proof (cases "fn n")
    case (Inl x)
    then show ?thesis using assms(1) eq
      by (subst retryLoop.simps) (simp add: causeOf_def respOf_def Let_def s del: of_nat_Suc)
  next
    case (Inr r)
    then show ?thesis using assms(1,2) eq
      by (subst retryLoop.simps) (simp add: causeOf_def respOf_def failed_def Let_def s del: of_nat_Suc)
  qed
qed

lemma retryLoop_all_fail:
  assumes "even (maxBackoff cfg)" "n < nat (maxAttempts cfg)" "\<forall>k. n \<le> k \<longrightarrow> k < nat (maxAttempts cfg) \<longrightarrow> failed (fn k)"
  shows "retryLoop cfg w fn (int n) d e =
     Some ((if n > 0 then [d] else []) @ map (waitAfter cfg w fn) [n..<nat (maxAttempts cfg) - 1],
       Inl (AfterAttempts (maxAttempts cfg) (Some (causeOf (fn (nat (maxAttempts cfg) - 1))))))"
  using assms(2,3)
proof (induction "nat (maxAttempts cfg) - n" arbitrary: n d e)
  case (Suc m)
  note again = retryLoop_again[OF _ _ assms(1), of n fn w d e]
  show ?case
  proof (cases "Suc n < nat (maxAttempts cfg)")
    case True
    then have "n < nat (maxAttempts cfg) - 1" by simp
    then have u: "[n..<nat (maxAttempts cfg) - 1] = n # [Suc n..<nat (maxAttempts cfg) - 1]" by (rule upt_conv_Cons)
    show ?thesis using again Suc.prems Suc.hyps(1)[of "Suc n"] Suc.hyps(2) True
      by (simp add: u[unfolded One_nat_def] del: of_nat_Suc)
  next
    case False
    then have "nat (maxAttempts cfg) = Suc n" using Suc.prems by simp
    then have "maxAttempts cfg = int (Suc n)" "nat (maxAttempts cfg) - 1 = n" by linarith+
    then show ?thesis using again Suc.prems retryLoop_stop[of cfg "Suc n"]
      by (simp del: of_nat_Suc)
  qed
qed simp

lemma retryLoop_first_success:
  assumes "even (maxBackoff cfg)" "n \<le> m" "m < nat (maxAttempts cfg)" "fn m = Inr r" "\<not> failed (fn m)"
    "\<forall>k. n \<le> k \<longrightarrow> k < m \<longrightarrow> failed (fn k)"
  shows "retryLoop cfg w fn (int n) d e =
     Some ((if n > 0 then [d] else []) @ map (waitAfter cfg w fn) [n..<m], Inr r)"
  using assms(2-6)
proof (induction "m - n" arbitrary: n d e)
  case 0
  then show ?case using retryLoop_success[of n cfg fn r w d e] by simp
next
  case (Suc l)
  then have u: "[n..<m] = n # [Suc n..<m]" by (simp add: upt_conv_Cons)
  show ?case using retryLoop_again[OF _ _ assms(1), of n fn w d e] Suc.prems Suc.hyps(1)[of "Suc n"] Suc.hyps(2)
    by (simp add: u del: of_nat_Suc)
qed

lemma doWithRetry_total: "doWithRetry (retryConfigFromEnv env) w fn \<noteq> None"
proof -
  let ?cfg = "retryConfigFromEnv env"
  note even = retryConfigFromEnv_ok(2)[of env]
  define n where "n = nat (maxAttempts ?cfg)"
  have n: "0 < n" using retryConfigFromEnv_ok(1)[of env] by (simp add: n_def)
  show ?thesis
  proof (cases "\<exists>k<n. \<not> failed (fn k)")
    case True
    define m where "m = (LEAST k. \<not> failed (fn k))"
    have m: "\<not> failed (fn m)" "\<forall>j<m. failed (fn j)"
      using True LeastI_ex[of "\<lambda>k. \<not> failed (fn k)"] unfolding m_def by (blast, blast dest: not_less_Least)
    have "m < n" using True m(2) by (meson linorder_not_less order.strict_trans1)
    moreover obtain r where "fn m = Inr r" using m(1) by (auto simp: failed_def split: sum.splits)
    ultimately show ?thesis
      using retryLoop_first_success[OF even, of 0 m fn r w 0 None] m by (simp add: doWithRetry_def n_def)
  next
    case False
    then show ?thesis using retryLoop_all_fail[OF even, of 0 fn w 0 None] n by (simp add: doWithRetry_def n_def)
  qed
qed

section \<open>What a call guarantees\<close>

text \<open>
  C26: with any configuration the environment can give, a call returns and never panics; it makes at most
  the configured number of attempts and sleeps one time less than it attempts; it returns the first
  response that is not to be retried, and an error, that of the last attempt, exactly when every attempt
  failed; no wait is longer than one and a half times the configured bound.
\<close>

theorem doWithRetry_exact:
  assumes "cfg = retryConfigFromEnv env" "fair w" "n = nat (maxAttempts cfg)"
  shows "\<exists>slept. (\<forall>d\<in>set slept. 2 * d \<le> 3 * max 0 (maxBackoff cfg))
     \<and> (if \<exists>k<n. \<not> failed (fn k)
        then \<exists>k r. k < n \<and> fn k = Inr r \<and> \<not> shouldRetryHTTP (StatusCode r) \<and> (\<forall>j<k. failed (fn j))
               \<and> length slept = k \<and> doWithRetry cfg w fn = Some (slept, Inr r)
        else length slept = n - 1
             \<and> doWithRetry cfg w fn = Some (slept, Inl (AfterAttempts (maxAttempts cfg) (Some (causeOf (fn (n - 1)))))))"
proof -
  have even: "even (maxBackoff cfg)" and n: "0 < n" using retryConfigFromEnv_ok assms(1,3) by simp_all
  have w: "2 * waitAfter cfg w fn k \<le> 3 * max 0 (maxBackoff cfg)" for k
    by (rule retryDelay_le[OF waitAfter_eq[OF even] assms(2)])
  show ?thesis
  proof (cases "\<exists>k<n. \<not> failed (fn k)")
    case True
    define m where "m = (LEAST k. \<not> failed (fn k))"
    have m: "\<not> failed (fn m)" "\<forall>j<m. failed (fn j)"
      using True LeastI_ex[of "\<lambda>k. \<not> failed (fn k)"] unfolding m_def by (blast, blast dest: not_less_Least)
    have "m < n" using True m(2) by (meson linorder_not_less order.strict_trans1)
    moreover obtain r where "fn m = Inr r" "\<not> shouldRetryHTTP (StatusCode r)"
      using m(1) by (auto simp: failed_def split: sum.splits)
    moreover have "doWithRetry cfg w fn = Some (map (waitAfter cfg w fn) [0..<m], Inr r)"
      using retryLoop_first_success[OF even, of 0 m fn r w 0 None] calculation m assms(3)
      by (simp add: doWithRetry_def)
    ultimately show ?thesis using True m w by (intro exI[of _ "map (waitAfter cfg w fn) [0..<m]"]) auto
  next
    case False
    then have "doWithRetry cfg w fn = Some (map (waitAfter cfg w fn) [0..<n - 1],
        Inl (AfterAttempts (maxAttempts cfg) (Some (causeOf (fn (n - 1))))))"
      using retryLoop_all_fail[OF even, of 0 fn w 0 None] n assms(3) by (simp add: doWithRetry_def)
    then show ?thesis using False w by (intro exI[of _ "map (waitAfter cfg w fn) [0..<n - 1]"]) auto
  qed
qed

definition sampleWorld :: world where
  "sampleWorld = \<lparr>clock = int, Int63n = (\<lambda>k n. n - 1), parseTime = (\<lambda>s. None)\<rparr>"

lemma fair_sample: "fair sampleWorld"
  by (simp add: fair_def sampleWorld_def)

definition flaky :: "nat \<Rightarrow> send_error + Response" where
  "flaky k = (if k = 0 then Inl (Transport ''refused'')
     else if k = 1 then Inr \<lparr>StatusCode = 503, RetryAfter = ''7'', Body = None\<rparr>
     else Inr \<lparr>StatusCode = 200, RetryAfter = [], Body = None\<rparr>)"

lemma doWithRetry_exact_witness:
  "\<exists>slept. length slept = 2 \<and> doWithRetry (retryConfigFromEnv (\<lambda>_. [])) sampleWorld flaky
     = Some (slept, Inr \<lparr>StatusCode = 200, RetryAfter = [], Body = None\<rparr>)"
proof -
  let ?cfg = "retryConfigFromEnv (\<lambda>_. [])"
  have n: "nat (maxAttempts ?cfg) = 5" by (simp add: retryConfigFromEnv_def)
  have ok: "\<not> failed (flaky 2)" "failed (flaky 0)" "failed (flaky 1)"
    by (simp_all add: failed_def flaky_def shouldRetryHTTP_def)
  have ex: "\<exists>k<nat (maxAttempts ?cfg). \<not> failed (flaky k)" using ok(1) n by (intro exI[of _ 2]) simp
  obtain slept k r where r: "flaky k = Inr r" "\<not> shouldRetryHTTP (StatusCode r)" "\<forall>j<k. failed (flaky j)"
      "length slept = k" "doWithRetry ?cfg sampleWorld flaky = Some (slept, Inr r)"
    using doWithRetry_exact[OF refl fair_sample refl, of "\<lambda>_. []" flaky] ex by auto
  have "\<not> 2 < k" using r(3) ok(1) by blast
  moreover have "k \<noteq> 0" using r(1) by (auto simp: flaky_def split: if_splits)
  moreover have "k \<noteq> 1" using r(1,2) by (auto simp: flaky_def shouldRetryHTTP_def)
  ultimately have "k = 2" by linarith
  then show ?thesis using r by (auto simp: flaky_def)
qed

text \<open>
  The waits grow as intended: up to the thirty-fourth attempt, a wait the server does not fix with
  \<^verbatim>\<open>Retry-After\<close> is at least the doubled second or the bound, whichever is smaller, and a wait the server
  does fix is that time, cut to the bound; after a transport error at the thirty-fifth attempt the
  wait is zero.
\<close>

theorem waits_grow:
  assumes "fair w" "even (maxBackoff cfg)" "0 < maxBackoff cfg" "maxBackoff cfg \<le> 2 ^ 62"
  shows "(\<forall>k\<le>33. respOf (fn k) = None \<longrightarrow> min (2 ^ k * Second) (maxBackoff cfg) \<le> waitAfter cfg w fn k)
    \<and> (\<forall>k r secs. respOf (fn k) = Some r \<longrightarrow> Atoi (TrimSpace (RetryAfter r)) = Some secs \<longrightarrow> 0 \<le> secs
         \<longrightarrow> secs \<le> 2 ^ 33 \<longrightarrow> waitAfter cfg w fn k = min (secs * Second) (maxBackoff cfg))
    \<and> (respOf (fn 34) = None \<longrightarrow> waitAfter cfg w fn 34 = 0)"
proof (intro conjI allI impI)
  fix k :: nat assume k: "k \<le> 33" "respOf (fn k) = None"
  have "exponentialBackoff cfg (Int63n w k) (int k + 1) = Some (waitAfter cfg w fn k)"
    using waitAfter_eq[OF assms(2), of w k fn] k(2) by (simp add: retryDelay_def)
  then show "min (2 ^ k * Second) (maxBackoff cfg) \<le> waitAfter cfg w fn k"
    using exponentialBackoff_ge assms k(1) by blast
next
  fix k r secs
  assume r: "respOf (fn k) = Some r" "Atoi (TrimSpace (RetryAfter r)) = Some secs" "0 \<le> secs" "secs \<le> 2 ^ 33"
  have ne: "TrimSpace (RetryAfter r) \<noteq> []" using r(2) by (auto simp: Atoi_def)
  have "wrap64 (secs * Second) = secs * Second"
    by (rule wrap64_id) (use r(3,4) in \<open>simp_all add: go_int_min_def go_int_max_def Second_def\<close>)
  then have "retryDelay cfg w k (int k + 1) (Some r) = Some (boundedBackoff cfg (secs * Second))"
    using r ne by (simp add: retryDelay_def retryAfterDelay_def)
  then show "waitAfter cfg w fn k = min (secs * Second) (maxBackoff cfg)"
    by (simp add: waitAfter_def r(1) boundedBackoff_def)
next
  assume "respOf (fn 34) = None"
  then show "waitAfter cfg w fn 34 = 0"
    using backoff_overflow[of cfg "Int63n w 34"] assms(3) by (simp add: waitAfter_def retryDelay_def)
qed

lemma waits_grow_witness:
  "2 * Second \<le> waitAfter (retryConfigFromEnv (\<lambda>_. [])) sampleWorld (\<lambda>k. Inl (Transport [])) 1
   \<and> waitAfter (retryConfigFromEnv (\<lambda>_. [])) sampleWorld flaky 1 = 7 * Second"
proof -
  let ?cfg = "retryConfigFromEnv (\<lambda>_. [])"
  have c: "even (maxBackoff ?cfg)" "0 < maxBackoff ?cfg" "maxBackoff ?cfg \<le> 2 ^ 62" "maxBackoff ?cfg = 30 * Second"
    by (simp_all add: retryConfigFromEnv_def Second_def)
  have a: "Atoi (TrimSpace ''7'') = Some 7" by code_simp
  have "min (2 ^ 1 * Second) (maxBackoff ?cfg) \<le> waitAfter ?cfg sampleWorld (\<lambda>k. Inl (Transport [])) 1"
    using waits_grow[OF fair_sample c(1-3), of "\<lambda>k. Inl (Transport [])", THEN conjunct1,
      THEN spec, of 1] by (simp add: respOf_def)
  moreover have "respOf (flaky 1) = Some \<lparr>StatusCode = 503, RetryAfter = ''7'', Body = None\<rparr>"
    by (simp add: respOf_def flaky_def)
  then have "waitAfter ?cfg sampleWorld flaky 1 = min (7 * Second) (maxBackoff ?cfg)"
    using waits_grow[OF fair_sample c(1-3), of flaky, THEN conjunct2, THEN conjunct1] a by force
  ultimately show ?thesis by (simp add: c(4) Second_def)
qed

end
