(* ===== verification/Spool.thy ===== *)
theory Spool
  imports Prelude
begin

text \<open>
  Unsent scan reports on disk: \<^verbatim>\<open>internal/agent/reporter/spool.go\<close>. The spool directory is a list of named
  entries; the file system may refuse any operation, which a record of faults describes. The disk a crash
  leaves behind at any point of \<^verbatim>\<open>SpoolReport\<close> is also the disk some faults leave behind.
\<close>

section \<open>File names\<close>

definition defaultSpoolMax :: int where "defaultSpoolMax = 20"

definition spoolMaxFromEnv :: "(string \<Rightarrow> string) \<Rightarrow> int" where
  "spoolMaxFromEnv env =
     (let v = env ''BONGSU_AGENT_SPOOL_MAX'' in
      if v \<noteq> [] then (case Atoi v of Some n \<Rightarrow> if n > 0 then n else defaultSpoolMax | None \<Rightarrow> defaultSpoolMax)
      else defaultSpoolMax)"

definition scanIDChar :: "char \<Rightarrow> bool" where
  "scanIDChar r \<longleftrightarrow> (CHR ''a'' \<le> r \<and> r \<le> CHR ''z'') \<or> (CHR ''A'' \<le> r \<and> r \<le> CHR ''Z'')
     \<or> (CHR ''0'' \<le> r \<and> r \<le> CHR ''9'') \<or> r = CHR ''-'' \<or> r = CHR ''_''"

definition sanitizeScanID :: "string \<Rightarrow> string" where
  "sanitizeScanID scanID =
     (let scanID = TrimSpace scanID;
          scanID = (if scanID = [] then ''noid'' else scanID)
      in replace_runes scanIDChar (CHR ''_'') scanID)"

text \<open>\<^verbatim>\<open>%020d\<close> of a 64-bit integer.\<close>

definition padZero :: "nat \<Rightarrow> string \<Rightarrow> string" where
  "padZero w s = replicate (w - length s) (CHR ''0'') @ s"

definition show020 :: "int \<Rightarrow> string" where
  "show020 n = (if n < 0 then CHR ''-'' # padZero 19 (show_nat (nat (- n))) else padZero 20 (show_nat (nat n)))"

text \<open>Times are nanoseconds since the epoch; \<^verbatim>\<open>UnixNano\<close> wraps outside 64 bits.\<close>

definition spoolFileName :: "int \<Rightarrow> string \<Rightarrow> string" where
  "spoolFileName t scanID = show020 (wrap64 t) @ ''-'' @ sanitizeScanID scanID @ ''.json''"

section \<open>The directory\<close>

datatype entry = Dir | File string

type_synonym directory = "(string \<times> entry) list"

datatype write_outcome = Written | NotCreated | Partial string

record faults =
  mkdirFails :: bool
  listFails :: bool
  readFails :: "string \<Rightarrow> bool"
  removeFails :: "string \<Rightarrow> bool"
  writing :: "string \<Rightarrow> write_outcome"
  renameFails :: bool

definition noFaults :: faults where
  "noFaults = \<lparr>mkdirFails = False, listFails = False, readFails = (\<lambda>_. False), removeFails = (\<lambda>_. False),
     writing = (\<lambda>_. Written), renameFails = False\<rparr>"

definition setEntry :: "string \<Rightarrow> entry \<Rightarrow> directory \<Rightarrow> directory" where
  "setEntry name e es = (name, e) # filter (\<lambda>x. fst x \<noteq> name) es"

datatype remove_result = Removed | NotExist | RemoveFailed

definition Remove :: "faults \<Rightarrow> string \<Rightarrow> directory \<Rightarrow> remove_result \<times> directory" where
  "Remove f name es =
     (if name \<notin> set (map fst es) then (NotExist, es)
      else if removeFails f name then (RemoveFailed, es)
      else (Removed, filter (\<lambda>x. fst x \<noteq> name) es))"

definition ReadFile :: "faults \<Rightarrow> string \<Rightarrow> directory \<Rightarrow> string option" where
  "ReadFile f name es =
     (if readFails f name then None
      else case map_of es name of Some (File data) \<Rightarrow> Some data | _ \<Rightarrow> None)"

definition isReport :: "string \<times> entry \<Rightarrow> bool" where
  "isReport e \<longleftrightarrow> snd e \<noteq> Dir \<and> HasSuffix (fst e) ''.json'' \<and> \<not> HasSuffix (fst e) ''.tmp''"

text \<open>\<open>None\<close> is a directory that does not exist; the result \<open>None\<close> is an error.\<close>

definition listSpoolFiles :: "faults \<Rightarrow> directory option \<Rightarrow> string list option" where
  "listSpoolFiles f d =
     (case d of
        None \<Rightarrow> Some []
      | Some es \<Rightarrow> if listFails f then None else Some (sort (map fst (filter isReport es))))"

section \<open>Storing a report\<close>

fun evictLoop :: "faults \<Rightarrow> int \<Rightarrow> string list \<Rightarrow> directory \<Rightarrow> bool \<times> directory" where
  "evictLoop f cap [] es = (True, es)"
| "evictLoop f cap (oldest # files) es =
     (if int (length (oldest # files)) \<ge> cap then
        (case Remove f oldest es of
           (RemoveFailed, es') \<Rightarrow> (False, es')
         | (_, es') \<Rightarrow> evictLoop f cap files es')
      else (True, es))"

text \<open>\<open>False\<close> is an error.\<close>

definition evictForCapacity :: "faults \<Rightarrow> int \<Rightarrow> directory \<Rightarrow> bool \<times> directory" where
  "evictForCapacity f cap es =
     (if cap \<le> 0 then (True, es)
      else case listSpoolFiles f (Some es) of
             None \<Rightarrow> (False, es)
           | Some files \<Rightarrow> evictLoop f cap files es)"

text \<open>The part of a report the spool reads; the agent extends it.\<close>

record ScanReport =
  ScanID :: string
  Timestamp :: int

datatype spool_error = CreateDir | Marshal | WriteTemp | RenameTemp

text \<open>The name of the stored file, or the error, and the directory afterwards.\<close>

definition SpoolReport :: "faults \<Rightarrow> (string \<Rightarrow> string) \<Rightarrow> ('a ScanReport_scheme \<Rightarrow> string option)
    \<Rightarrow> 'a ScanReport_scheme \<Rightarrow> directory option \<Rightarrow> (spool_error + string) \<times> directory option" where
  "SpoolReport f env encode report d =
     (if mkdirFails f then (Inl CreateDir, d)
      else
        let es = (case d of None \<Rightarrow> [] | Some es \<Rightarrow> es) in
        case encode report of
          None \<Rightarrow> (Inl Marshal, Some es)
        | Some data \<Rightarrow>
            let es = snd (evictForCapacity f (spoolMaxFromEnv env) es);
                name = spoolFileName (Timestamp report) (ScanID report);
                tmp = name @ ''.tmp''
            in case (if map_of es tmp = Some Dir then NotCreated else writing f tmp) of
                 NotCreated \<Rightarrow> (Inl WriteTemp, Some es)
               | Partial part \<Rightarrow> (Inl WriteTemp, Some (setEntry tmp (File part) es))
               | Written \<Rightarrow>
                   let es = setEntry tmp (File data) es in
                   if renameFails f \<or> map_of es name = Some Dir then (Inl RenameTemp, Some (snd (Remove f tmp es)))
                   else (Inr name, Some (setEntry name (File data) (filter (\<lambda>x. fst x \<noteq> tmp) es))))"

section \<open>Sending what was stored\<close>

text \<open>\<open>send k\<close> sends the report of the \<open>k\<close>-th file. The result lists the reports sent.\<close>

fun replayLoop :: "faults \<Rightarrow> (string \<Rightarrow> 'r option) \<Rightarrow> (nat \<Rightarrow> 'r \<Rightarrow> bool) \<Rightarrow> nat \<Rightarrow> string list \<Rightarrow> directory
    \<Rightarrow> 'r list \<times> directory" where
  "replayLoop f decode send k [] es = ([], es)"
| "replayLoop f decode send k (name # names) es =
     (case ReadFile f name es of
        None \<Rightarrow> replayLoop f decode send (k + 1) names (snd (Remove f name es))
      | Some data \<Rightarrow>
          (case decode data of
             None \<Rightarrow> replayLoop f decode send (k + 1) names (snd (Remove f name es))
           | Some report \<Rightarrow>
               if \<not> send k report then ([], es)
               else map_prod ((#) report) id (replayLoop f decode send (k + 1) names (snd (Remove f name es)))))"

definition ReplaySpool :: "faults \<Rightarrow> (string \<Rightarrow> 'r option) \<Rightarrow> (nat \<Rightarrow> 'r \<Rightarrow> bool) \<Rightarrow> directory option
    \<Rightarrow> 'r list \<times> directory option" where
  "ReplaySpool f decode send d =
     (case listSpoolFiles f d of
        None \<Rightarrow> ([], d)
      | Some files \<Rightarrow>
          if length files = 0 then ([], d)
          else case d of None \<Rightarrow> ([], d)
             | Some es \<Rightarrow> map_prod id Some (replayLoop f decode send 0 files es))"

section \<open>Names in order of time\<close>

text \<open>The last \<open>w\<close> decimal digits of a number.\<close>

fun digits :: "nat \<Rightarrow> nat \<Rightarrow> string" where
  "digits 0 n = []"
| "digits (Suc w) n = digits w (n div 10) @ [char_of (48 + n mod 10)]"

lemma length_digits [simp]: "length (digits w n) = w"
  by (induction w arbitrary: n) auto

lemma char_zero: "char_of (48 :: nat) = CHR ''0''"
  by code_simp

lemma digits_zero: "digits w 0 = replicate w (CHR ''0'')"
  by (induction w) (simp_all add: replicate_append_same char_zero)

lemma length_show_nat: "n < 10 ^ w \<Longrightarrow> 0 < w \<Longrightarrow> length (show_nat n) \<le> w"
proof (induction w arbitrary: n)
  case (Suc w)
  then show ?case by (cases "w = 0") (auto simp: show_nat.simps[of n])
qed simp

lemma padZero_digits: "n < 10 ^ w \<Longrightarrow> 0 < w \<Longrightarrow> padZero w (show_nat n) = digits w n"
proof (induction w arbitrary: n)
  case (Suc w)
  show ?case
  proof (cases "n < 10")
    case True
    then show ?thesis by (simp add: padZero_def show_nat.simps[of n] digits_zero)
  next
    case False
    then have "0 < w" using Suc.prems by (cases w) auto
    moreover have "n div 10 < 10 ^ w" using Suc.prems(1) by auto
    ultimately have "padZero w (show_nat (n div 10)) = digits w (n div 10)" by (rule Suc.IH[rotated])
    moreover have "length (show_nat (n div 10)) \<le> w"
      using length_show_nat \<open>n div 10 < 10 ^ w\<close> \<open>0 < w\<close> by blast
    ultimately show ?thesis using False by (simp add: padZero_def show_nat.simps[of n] Suc_diff_le)
  qed
qed simp

lemma less_append_right: "length xs = length ys \<Longrightarrow> (xs :: string) < ys \<Longrightarrow> xs @ us < ys @ vs"
proof (induction xs ys rule: list_induct2)
  case (Cons x xs y ys)
  then show ?case by (cases "x = y") auto
qed simp

lemma less_append_left: "(us :: string) < vs \<Longrightarrow> xs @ us < xs @ vs"
  by (induction xs) auto

lemma digits_mono: "n < m \<Longrightarrow> m < 10 ^ w \<Longrightarrow> digits w n < digits w m"
proof (induction w arbitrary: n m)
  case (Suc w)
  show ?case
  proof (cases "n div 10 < m div 10")
    case True
    moreover have "m div 10 < 10 ^ w" using Suc.prems(2) by auto
    ultimately show ?thesis using Suc.IH less_append_right[of "digits w (n div 10)" "digits w (m div 10)"] by simp
  next
    case False
    then have eq: "n div 10 = m div 10" using Suc.prems(1) by (simp add: div_le_mono linorder_neq_iff)
    then have lt: "n mod 10 < m mod 10" using Suc.prems(1) by (metis div_mult_mod_eq nat_add_left_cancel_less)
    have "char_of (48 + n mod 10) < (char_of (48 + m mod 10) :: char)"
      using lt by (simp add: less_char_def)
    then show ?thesis using less_append_left[of "[char_of (48 + n mod 10)]" "[char_of (48 + m mod 10)]"] by (simp add: eq)
  qed
qed simp

lemma show020_digits: "0 \<le> t \<Longrightarrow> t < 2 ^ 63 \<Longrightarrow> show020 t = digits 20 (nat t)"
  by (simp add: show020_def padZero_digits nat_less_iff)

lemma spoolFileName_mono:
  assumes "0 \<le> t" "t < u" "u < 2 ^ 63"
  shows "spoolFileName t a < spoolFileName u b"
proof -
  have w: "wrap64 t = t" "wrap64 u = u" using assms by (simp_all add: wrap64_id go_int_min_def go_int_max_def)
  have "digits 20 (nat t) < digits 20 (nat u)" using assms by (intro digits_mono) auto
  then show ?thesis using assms by (simp add: spoolFileName_def w show020_digits less_append_right)
qed

lemma spoolFileName_time:
  assumes "0 \<le> t" "0 \<le> u" "t < 2 ^ 63" "u < 2 ^ 63" "spoolFileName t a \<le> spoolFileName u b"
  shows "t \<le> u"
  using spoolFileName_mono[of u t b a] assms by (meson leD linorder_not_less)

lemma HasSuffix_iff: "HasSuffix s p \<longleftrightarrow> (\<exists>x. s = x @ p)"
  unfolding HasSuffix_def HasPrefix_iff by (metis rev_append rev_rev_ident)

lemma report_name: "isReport (spoolFileName t i, File d)"
proof -
  have "HasSuffix (spoolFileName t i) ''.json''" unfolding HasSuffix_iff spoolFileName_def by (metis append.assoc)
  moreover have "\<not> HasSuffix (spoolFileName t i) ''.tmp''"
    by (simp add: HasSuffix_def spoolFileName_def)
  ultimately show ?thesis by (simp add: isReport_def)
qed

lemma tmp_no_report: "\<not> isReport (n @ ''.tmp'', e)"
  by (auto simp: isReport_def HasSuffix_iff)

section \<open>The invariant of the spool\<close>

text \<open>Every listed file is the complete encoding of a report, under the name of that report.\<close>

definition stored :: "('a ScanReport_scheme \<Rightarrow> string option) \<Rightarrow> string \<Rightarrow> string \<Rightarrow> 'a ScanReport_scheme \<Rightarrow> bool" where
  "stored encode n data report \<longleftrightarrow> encode report = Some data \<and> n = spoolFileName (Timestamp report) (ScanID report)"

definition wholeEntry :: "('a ScanReport_scheme \<Rightarrow> string option) \<Rightarrow> string \<times> entry \<Rightarrow> bool" where
  "wholeEntry encode x \<longleftrightarrow> snd x \<noteq> Dir \<and> (isReport x \<longrightarrow> (\<exists>report data. snd x = File data \<and> stored encode (fst x) data report))"

definition whole :: "('a ScanReport_scheme \<Rightarrow> string option) \<Rightarrow> directory \<Rightarrow> bool" where
  "whole encode es \<longleftrightarrow> distinct (map fst es) \<and> (\<forall>x\<in>set es. wholeEntry encode x)"

definition listed :: "directory \<Rightarrow> string list" where
  "listed es = sort (map fst (filter isReport es))"

lemma set_listed: "set (listed es) = {n. \<exists>e. (n, e) \<in> set es \<and> isReport (n, e)}"
  by (force simp: listed_def)

lemma distinct_listed: "distinct (map fst es) \<Longrightarrow> distinct (listed es)"
  by (simp add: listed_def distinct_map_filter)

lemma sorted_listed: "sorted (listed es)"
  by (simp add: listed_def)

lemma listed_unique: "distinct (map fst es) \<Longrightarrow> sorted L \<Longrightarrow> distinct L \<Longrightarrow> set L = set (listed es) \<Longrightarrow> listed es = L"
  by (metis distinct_listed sorted_listed sorted_distinct_set_unique)

lemma listSpoolFiles_listed: "\<not> listFails f \<Longrightarrow> listSpoolFiles f (Some es) = Some (listed es)"
  by (simp add: listSpoolFiles_def listed_def)

lemma distinct_filter_fst: "distinct (map fst es) \<Longrightarrow> distinct (map fst (filter P es))"
  by (rule distinct_map_filter)

lemma filter_whole: "whole encode es \<Longrightarrow> whole encode (filter P es)"
  by (simp add: whole_def distinct_map_filter)

lemma setEntry_whole: "whole encode es \<Longrightarrow> wholeEntry encode (n, e) \<Longrightarrow> whole encode (setEntry n e es)"
  by (auto simp: whole_def setEntry_def distinct_map_filter)

lemma Remove_cases: "snd (Remove f n es) = es \<or> snd (Remove f n es) = filter (\<lambda>x. fst x \<noteq> n) es"
  by (simp add: Remove_def)

lemma Remove_whole: "whole encode es \<Longrightarrow> whole encode (snd (Remove f n es))"
  using Remove_cases[of f n es] filter_whole by metis

lemma Remove_works: "removeFails f = (\<lambda>_. False) \<Longrightarrow> snd (Remove f n es) = filter (\<lambda>x. fst x \<noteq> n) es"
  by (auto simp: Remove_def intro!: filter_True[symmetric])

lemma Remove_no_fail: "removeFails f = (\<lambda>_. False) \<Longrightarrow> fst (Remove f n es) \<noteq> RemoveFailed"
  by (auto simp: Remove_def)

lemma evictLoop_whole: "whole encode es \<Longrightarrow> whole encode (snd (evictLoop f cap files es))"
proof (induction f cap files es rule: evictLoop.induct)
  case (2 f cap oldest files es)
  obtain r es' where r: "Remove f oldest es = (r, es')" by fastforce
  have "whole encode es'" using Remove_whole[OF 2(3), of f oldest] r by simp
  then show ?case using 2(1,2) 2(3) r by (cases r) auto
qed simp

lemma evictForCapacity_whole: "whole encode es \<Longrightarrow> whole encode (snd (evictForCapacity f cap es))"
  using evictLoop_whole by (auto simp: evictForCapacity_def split: option.split)

lemma wholeEntry_tmp: "wholeEntry encode (n @ ''.tmp'', File c)"
  by (simp add: wholeEntry_def tmp_no_report)

lemma wholeEntry_stored:
  "encode report = Some data \<Longrightarrow> wholeEntry encode (spoolFileName (Timestamp report) (ScanID report), File data)"
  by (auto simp: wholeEntry_def stored_def)

lemma whole_Nil: "whole encode []"
  by (simp add: whole_def)

definition wholeDir :: "('a ScanReport_scheme \<Rightarrow> string option) \<Rightarrow> directory option \<Rightarrow> bool" where
  "wholeDir encode d = (case d of None \<Rightarrow> True | Some es \<Rightarrow> whole encode es)"

text \<open>The ways a call can end once the report is encoded.\<close>

lemma SpoolReport_form:
  assumes "\<not> mkdirFails f" "encode report = Some data"
    "es1 = snd (evictForCapacity f (spoolMaxFromEnv env) (case d of None \<Rightarrow> [] | Some es \<Rightarrow> es))"
    "name = spoolFileName (Timestamp report) (ScanID report)" "tmp = name @ ''.tmp''"
  obtains "SpoolReport f env encode report d = (Inl WriteTemp, Some es1)"
  | part where "SpoolReport f env encode report d = (Inl WriteTemp, Some (setEntry tmp (File part) es1))"
  | "SpoolReport f env encode report d = (Inl RenameTemp, Some (snd (Remove f tmp (setEntry tmp (File data) es1))))"
  | "SpoolReport f env encode report d =
      (Inr name, Some (setEntry name (File data) (filter (\<lambda>x. fst x \<noteq> tmp) (setEntry tmp (File data) es1))))"
proof -
  have "SpoolReport f env encode report d =
      (case (if map_of es1 tmp = Some Dir then NotCreated else writing f tmp) of
         NotCreated \<Rightarrow> (Inl WriteTemp, Some es1)
       | Partial part \<Rightarrow> (Inl WriteTemp, Some (setEntry tmp (File part) es1))
       | Written \<Rightarrow>
           if renameFails f \<or> map_of (setEntry tmp (File data) es1) name = Some Dir
           then (Inl RenameTemp, Some (snd (Remove f tmp (setEntry tmp (File data) es1))))
           else (Inr name, Some (setEntry name (File data) (filter (\<lambda>x. fst x \<noteq> tmp) (setEntry tmp (File data) es1)))))"
    using assms(1) by (simp add: SpoolReport_def assms(2-5) Let_def split: write_outcome.split)
  then show thesis using that
    by (cases "if map_of es1 tmp = Some Dir then NotCreated else writing f tmp";
        cases "renameFails f \<or> map_of (setEntry tmp (File data) es1) name = Some Dir") simp_all
qed

lemma SpoolReport_early:
  "mkdirFails f \<Longrightarrow> SpoolReport f env encode report d = (Inl CreateDir, d)"
  "\<not> mkdirFails f \<Longrightarrow> encode report = None \<Longrightarrow>
     SpoolReport f env encode report d = (Inl Marshal, Some (case d of None \<Rightarrow> [] | Some es \<Rightarrow> es))"
  by (simp_all add: SpoolReport_def)

lemma SpoolReport_whole:
  assumes "wholeDir encode d" "SpoolReport f env encode report d = (r, d')"
  shows "wholeDir encode d'"
proof -
  define es where "es = (case d of None \<Rightarrow> [] | Some es \<Rightarrow> es)"
  have es: "whole encode es" using assms(1) by (auto simp: es_def wholeDir_def whole_Nil split: option.splits)
  consider "mkdirFails f" | "\<not> mkdirFails f" "encode report = None" | data where "\<not> mkdirFails f" "encode report = Some data"
    by fastforce
  then show ?thesis
  proof cases
    case 1
    then show ?thesis using assms by (simp add: SpoolReport_early)
  next
    case 2
    then show ?thesis using assms(2) es by (auto simp: SpoolReport_early wholeDir_def es_def)
  next
    case (3 data)
    define es1 where "es1 = snd (evictForCapacity f (spoolMaxFromEnv env) es)"
    define name where "name = spoolFileName (Timestamp report) (ScanID report)"
    define tmp where "tmp = name @ ''.tmp''"
    have w1: "whole encode es1" unfolding es1_def by (rule evictForCapacity_whole[OF es])
    have w: "whole encode (setEntry tmp (File c) es1)" for c
      unfolding tmp_def by (rule setEntry_whole[OF w1 wholeEntry_tmp])
    have "wholeEntry encode (name, File data)" unfolding name_def by (rule wholeEntry_stored) (rule 3(2))
    then have fin: "whole encode (setEntry name (File data) (filter (\<lambda>x. fst x \<noteq> tmp) (setEntry tmp (File data) es1)))"
      by (intro setEntry_whole filter_whole w)
    show ?thesis
      by (rule SpoolReport_form[where encode = encode and report = report, OF 3 es1_def[unfolded es_def] name_def tmp_def])
        (use assms(2) w1 w fin Remove_whole[OF w] in \<open>auto simp: wholeDir_def\<close>)
  qed
qed

lemma replayLoop_whole: "whole encode es \<Longrightarrow> whole encode (snd (replayLoop f decode send k names es))"
proof (induction f decode send k names es rule: replayLoop.induct)
  case (2 f decode send k name names es)
  have "whole encode (snd (Remove f name es))" by (rule Remove_whole[OF 2(4)])
  then show ?case using 2 by (auto split: option.split)
qed simp

section \<open>Capacity\<close>

lemma evictLoop_removes:
  assumes "removeFails f = (\<lambda>_. False)" "cap > 0"
  shows "evictLoop f cap files es =
     (True, filter (\<lambda>x. fst x \<notin> set (take (length files + 1 - nat cap) files)) es)"
proof (induction files arbitrary: es)
  case (Cons n files)
  obtain r es' where r: "Remove f n es = (r, es')" by fastforce
  have e: "es' = filter (\<lambda>x. fst x \<noteq> n) es" "r \<noteq> RemoveFailed"
    using Remove_works[OF assms(1), of n es] Remove_no_fail[OF assms(1), of n es] r by auto
  show ?case
  proof (cases "int (length (n # files)) \<ge> cap")
    case True
    then have "length (n # files) + 1 - nat cap = Suc (length files + 1 - nat cap)" using assms(2) by auto
    then show ?thesis using True r e Cons.IH[of es'] by (cases r) (auto intro!: filter_cong)
  next
    case False
    then have "length (n # files) + 1 - nat cap = 0" by auto
    then show ?thesis using False by simp
  qed
qed simp

lemma listed_filter_drop:
  assumes "distinct (map fst es)"
  shows "listed (filter (\<lambda>x. fst x \<notin> set (take k (listed es))) es) = drop k (listed es)"
proof (rule listed_unique)
  have d: "distinct (listed es)" by (rule distinct_listed[OF assms])
  then show "distinct (drop k (listed es))" by simp
  show "sorted (drop k (listed es))" by (simp add: sorted_listed)
  show "distinct (map fst (filter (\<lambda>x. fst x \<notin> set (take k (listed es))) es))" using assms by (rule distinct_filter_fst)
  have "set (drop k (listed es)) = set (listed es) - set (take k (listed es))"
    using d by (metis append_take_drop_id distinct_append Diff_cancel Un_Diff Diff_triv Int_commute sup_bot.left_neutral set_append)
  then show "set (drop k (listed es)) = set (listed (filter (\<lambda>x. fst x \<notin> set (take k (listed es))) es))"
    unfolding set_listed by auto
qed

definition evicts :: "faults \<Rightarrow> bool" where
  "evicts f \<longleftrightarrow> \<not> listFails f \<and> removeFails f = (\<lambda>_. False)"

lemma evictForCapacity_listed:
  assumes "evicts f" "cap > 0" "distinct (map fst es)"
  shows "listed (snd (evictForCapacity f cap es)) = drop (length (listed es) + 1 - nat cap) (listed es)"
  using assms listed_filter_drop[OF assms(3)]
  by (simp add: evictForCapacity_def evicts_def listSpoolFiles_listed evictLoop_removes)

lemma report_not_tmp: "isReport (m, e) \<Longrightarrow> m \<noteq> n @ ''.tmp''"
  using tmp_no_report by blast

lemma listed_setEntry_tmp: "distinct (map fst es) \<Longrightarrow> listed (setEntry (n @ ''.tmp'') e es) = listed es"
proof (rule listed_unique)
  assume d: "distinct (map fst es)"
  then show "distinct (map fst (setEntry (n @ ''.tmp'') e es))" by (auto simp: setEntry_def distinct_map_filter)
  show "sorted (listed es)" "distinct (listed es)" using d by (auto simp: sorted_listed distinct_listed)
  show "set (listed es) = set (listed (setEntry (n @ ''.tmp'') e es))"
    unfolding set_listed setEntry_def using report_not_tmp[of _ _ n] by (simp add: tmp_no_report) blast
qed

lemma listed_remove_tmp: "distinct (map fst es) \<Longrightarrow> listed (filter (\<lambda>x. fst x \<noteq> n @ ''.tmp'') es) = listed es"
proof (rule listed_unique)
  assume d: "distinct (map fst es)"
  then show "distinct (map fst (filter (\<lambda>x. fst x \<noteq> n @ ''.tmp'') es))" by (rule distinct_filter_fst)
  show "sorted (listed es)" "distinct (listed es)" using d by (auto simp: sorted_listed distinct_listed)
  show "set (listed es) = set (listed (filter (\<lambda>x. fst x \<noteq> n @ ''.tmp'') es))"
    unfolding set_listed by (auto simp: tmp_no_report)
qed

lemma set_listed_setEntry:
  "isReport (n, e) \<Longrightarrow> set (listed (setEntry n e es)) = insert n (set (listed es))"
  unfolding set_listed by (auto simp: setEntry_def)

lemma spoolMaxFromEnv_pos: "spoolMaxFromEnv env > 0"
  by (auto simp: spoolMaxFromEnv_def Let_def defaultSpoolMax_def split: option.split)

text \<open>The listing after a call whose evictions work: the newest reports that fit, and the new one.\<close>

lemma SpoolReport_listed:
  assumes "evicts f" "distinct (map fst es)" "SpoolReport f env encode report (Some es) = (r, Some es')"
  shows "set (listed es') = (case r of Inr name \<Rightarrow> {name} | Inl e \<Rightarrow> {})
      \<union> (if mkdirFails f \<or> encode report = None then set (listed es)
         else set (drop (length (listed es) + 1 - nat (spoolMaxFromEnv env)) (listed es)))"
proof -
  consider "mkdirFails f" | "\<not> mkdirFails f" "encode report = None" | data where "\<not> mkdirFails f" "encode report = Some data"
    by fastforce
  then show ?thesis
  proof cases
    case (3 data)
    define es1 where "es1 = snd (evictForCapacity f (spoolMaxFromEnv env) (case Some es of None \<Rightarrow> [] | Some es \<Rightarrow> es))"
    define name where "name = spoolFileName (Timestamp report) (ScanID report)"
    define tmp where "tmp = name @ ''.tmp''"
    have l: "listed es1 = drop (length (listed es) + 1 - nat (spoolMaxFromEnv env)) (listed es)"
      unfolding es1_def using evictForCapacity_listed[OF assms(1) spoolMaxFromEnv_pos assms(2)] by simp
    have d1: "distinct (map fst es1)"
      using assms(1,2) evictLoop_removes[OF _ spoolMaxFromEnv_pos]
      by (simp add: es1_def evictForCapacity_def evicts_def listSpoolFiles_listed spoolMaxFromEnv_pos distinct_map_filter
          split: option.split)
    have t: "listed (setEntry tmp e es1) = listed es1" for e
      unfolding tmp_def by (rule listed_setEntry_tmp[OF d1])
    have dt: "distinct (map fst (setEntry tmp e es1))" for e
      using d1 by (auto simp: setEntry_def distinct_map_filter)
    have rm: "listed (snd (Remove f tmp (setEntry tmp e es1))) = listed es1" for e
      using assms(1) t[of e] listed_remove_tmp[OF dt[of e, unfolded tmp_def]] by (simp add: evicts_def Remove_works tmp_def)
    have fin: "set (listed (setEntry name (File data) (filter (\<lambda>x. fst x \<noteq> tmp) (setEntry tmp e es1)))) = insert name (set (listed es1))" for e
      using t[of e] listed_remove_tmp[OF dt[of e, unfolded tmp_def]]
      by (simp add: set_listed_setEntry name_def report_name tmp_def)
    show ?thesis
      by (rule SpoolReport_form[where encode = encode and report = report, OF 3 es1_def name_def tmp_def])
        (use assms(3) 3 l t rm fin in auto)
  qed (use assms(3) in \<open>auto simp: SpoolReport_early\<close>)
qed

section \<open>The spool over time\<close>

text \<open>
  The directories an agent can leave, started without one: any reports stored and replayed, under any
  faults. The flag says that so far no eviction has met a fault.
\<close>

inductive spool_reachable :: "(string \<Rightarrow> string) \<Rightarrow> ('a ScanReport_scheme \<Rightarrow> string option) \<Rightarrow> bool
    \<Rightarrow> directory option \<Rightarrow> bool" for env encode where
  empty: "spool_reachable env encode True None"
| store: "spool_reachable env encode b d \<Longrightarrow> SpoolReport f env encode report d = (r, d')
    \<Longrightarrow> spool_reachable env encode (b \<and> evicts f) d'"
| replay: "spool_reachable env encode b d \<Longrightarrow> ReplaySpool f decode send d = (sent :: 'a ScanReport_scheme list, d')
    \<Longrightarrow> spool_reachable env encode b d'"

definition fits :: "(string \<Rightarrow> string) \<Rightarrow> directory option \<Rightarrow> bool" where
  "fits env d = (case d of None \<Rightarrow> True | Some es \<Rightarrow> length (listed es) \<le> nat (spoolMaxFromEnv env))"

lemma Remove_listed: "set (listed (snd (Remove f n es))) \<subseteq> set (listed es)"
  using Remove_cases[of f n es] by (auto simp: set_listed)

lemma replayLoop_listed: "set (listed (snd (replayLoop f decode send k names es))) \<subseteq> set (listed es)"
proof (induction f decode send k names es rule: replayLoop.induct)
  case (2 f decode send k name names es)
  then show ?case using Remove_listed[of f name es] by (simp split: option.split) (meson order.trans)
qed simp

lemma ReplaySpool_result:
  "snd (ReplaySpool f decode send d) = d \<or>
   (\<exists>es names. d = Some es \<and> snd (ReplaySpool f decode send d) = Some (snd (replayLoop f decode send 0 names es)))"
  by (auto simp: ReplaySpool_def split: option.split)

lemma ReplaySpool_whole: "wholeDir encode d \<Longrightarrow> wholeDir encode (snd (ReplaySpool f decode send d))"
  using ReplaySpool_result[of f decode send d] replayLoop_whole by (fastforce simp: wholeDir_def)

lemma listed_length_mono:
  assumes "distinct (map fst es')" "set (listed es') \<subseteq> A" "finite A"
  shows "length (listed es') \<le> card A"
  using assms card_mono[of A "set (listed es')"] by (simp add: distinct_card distinct_listed)

lemma ReplaySpool_fits:
  assumes "wholeDir encode d" "fits env d"
  shows "fits env (snd (ReplaySpool f decode send d))"
proof -
  have le: "length (listed (snd (replayLoop f decode send 0 names es))) \<le> length (listed es)" if "whole encode es" for es names
  proof -
    have "distinct (map fst (snd (replayLoop f decode send 0 names es)))"
      using replayLoop_whole[OF that, of f decode send 0 names] unfolding whole_def by blast
    then have "length (listed (snd (replayLoop f decode send 0 names es))) \<le> card (set (listed es))"
      by (rule listed_length_mono[OF _ replayLoop_listed]) simp
    then show ?thesis using card_length[of "listed es"] by linarith
  qed
  consider "snd (ReplaySpool f decode send d) = d"
    | es names where "d = Some es" "snd (ReplaySpool f decode send d) = Some (snd (replayLoop f decode send 0 names es))"
    using ReplaySpool_result[of f decode send d] by blast
  then show ?thesis
  proof cases
    case 2
    then show ?thesis using assms le[of es names] by (simp add: fits_def wholeDir_def)
  qed (simp add: assms(2))
qed

lemma SpoolReport_fits:
  assumes "wholeDir encode d" "fits env d" "evicts f" "SpoolReport f env encode report d = (r, d')"
  shows "fits env d'"
proof -
  define es where "es = (case d of None \<Rightarrow> [] | Some es \<Rightarrow> es)"
  have es: "distinct (map fst es)" "length (listed es) \<le> nat (spoolMaxFromEnv env)"
    using assms(1,2) by (auto simp: es_def wholeDir_def whole_def fits_def listed_def split: option.splits)
  have some: "SpoolReport f env encode report (Some es) = (r, if mkdirFails f then Some es else d')"
    using assms(4) by (auto simp: SpoolReport_def es_def split: option.splits)
  show ?thesis
  proof (cases "mkdirFails f \<or> d' = None")
    case True
    then show ?thesis using assms(2,4) by (auto simp: fits_def SpoolReport_def)
  next
    case False
    then obtain es' where d': "d' = Some es'" by auto
    define N where "N = nat (spoolMaxFromEnv env)"
    define k where "k = length (listed es) + 1 - N"
    have N: "length (listed es) \<le> N" "0 < N" using es(2) spoolMaxFromEnv_pos[of env] by (simp_all add: N_def)
    have d: "distinct (map fst es')"
      using SpoolReport_whole[OF assms(1,4)] d' by (simp add: wholeDir_def whole_def)
    have set: "set (listed es') = (case r of Inr name \<Rightarrow> {name} | Inl e \<Rightarrow> {})
        \<union> (if encode report = None then set (listed es) else set (drop k (listed es)))"
      using SpoolReport_listed[OF assms(3) es(1), of env encode report r es'] some False d' by (simp add: k_def N_def)
    have "length (listed es') \<le> N"
    proof (cases "encode report = None")
      case True
      then have "r = Inl Marshal" using some False by (auto simp: SpoolReport_def)
      then have "set (listed es') \<subseteq> set (listed es)" using set True by simp
      then show ?thesis using listed_length_mono[OF d, of "set (listed es)"] card_length[of "listed es"] N(1) by simp
    next
      case False
      define A where "A = insert (case r of Inr name \<Rightarrow> name | Inl _ \<Rightarrow> []) (set (drop k (listed es)))"
      have "set (listed es') \<subseteq> A" using set False by (auto simp: A_def split: sum.splits)
      then have "length (listed es') \<le> card A" by (rule listed_length_mono[OF d]) (simp add: A_def)
      also have "\<dots> \<le> Suc (card (set (drop k (listed es))))" unfolding A_def by (simp add: card_insert_if)
      also have "\<dots> \<le> Suc (length (drop k (listed es)))" using card_length by blast
      also have "\<dots> \<le> N" using N by (simp add: k_def)
      finally show ?thesis .
    qed
    then show ?thesis by (simp add: fits_def d' N_def)
  qed
qed

lemma reachable_inv:
  "spool_reachable env encode b d \<Longrightarrow> wholeDir encode d \<and> (b \<longrightarrow> fits env d)"
proof (induction rule: spool_reachable.induct)
  case empty
  then show ?case by (simp add: wholeDir_def fits_def)
next
  case (store b d f report r d')
  then show ?case using SpoolReport_whole[of encode d f env report r d'] SpoolReport_fits[of encode d env f report r d'] by blast
next
  case (replay b d f decode send sent d')
  then show ?case using ReplaySpool_whole[of encode d f decode send] ReplaySpool_fits[of encode d env f decode send] by simp
qed


definition sampleReport :: "int \<Rightarrow> ScanReport" where
  "sampleReport t = \<lparr>ScanID = ''a/b'', Timestamp = t\<rparr>"

definition sampleEncode :: "ScanReport \<Rightarrow> string option" where
  "sampleEncode r = Some (show_nat (nat (Timestamp r)))"


section \<open>Replaying in order\<close>

lemma ReadFile_filter_other: "n \<noteq> m \<Longrightarrow> ReadFile noFaults m (filter (\<lambda>x. fst x \<noteq> n) es) = ReadFile noFaults m es"
proof -
  assume "n \<noteq> m"
  then have "map_of (filter (\<lambda>x. fst x \<noteq> n) es) m = map_of es m"
    by (induction es) auto
  then show ?thesis by (simp add: ReadFile_def noFaults_def)
qed

lemma replayLoop_exact:
  assumes "distinct names" "\<forall>n\<in>set names. \<exists>data report. ReadFile noFaults n es = Some data \<and> decode data = Some report"
  shows "\<exists>m sent. m \<le> length names \<and> length sent = m
     \<and> replayLoop noFaults decode send k names es = (sent, filter (\<lambda>x. fst x \<notin> set (take m names)) es)
     \<and> (\<forall>i<m. send (k + i) (sent ! i)
          \<and> Some (sent ! i) = Option.bind (ReadFile noFaults (names ! i) es) decode)
     \<and> (m = length names \<or> (\<exists>report. Option.bind (ReadFile noFaults (names ! m) es) decode = Some report \<and> \<not> send (k + m) report))"
  using assms
proof (induction names arbitrary: k es)
  case (Cons n names)
  obtain data report where n: "ReadFile noFaults n es = Some data" "decode data = Some report" using Cons.prems(2) by auto
  show ?case
  proof (cases "send k report")
    case False
    then show ?thesis using n by (intro exI[of _ 0] exI[of _ "[]"]) simp
  next
    case True
    define es' where "es' = filter (\<lambda>x. fst x \<noteq> n) es"
    have rm: "snd (Remove noFaults n es) = es'" unfolding es'_def by (rule Remove_works) (simp add: noFaults_def)
    have other: "ReadFile noFaults x es' = ReadFile noFaults x es" if "x \<in> set names" for x
      using that Cons.prems(1) unfolding es'_def by (intro ReadFile_filter_other) auto
    then have "\<forall>x\<in>set names. \<exists>data report. ReadFile noFaults x es' = Some data \<and> decode data = Some report"
      using Cons.prems(2) by simp
    then obtain m sent where ih: "m \<le> length names" "length sent = m"
        "replayLoop noFaults decode send (k + 1) names es' = (sent, filter (\<lambda>x. fst x \<notin> set (take m names)) es')"
        "\<forall>i<m. send (k + 1 + i) (sent ! i) \<and> Some (sent ! i) = Option.bind (ReadFile noFaults (names ! i) es') decode"
        "m = length names \<or> (\<exists>report. Option.bind (ReadFile noFaults (names ! m) es') decode = Some report \<and> \<not> send (k + 1 + m) report)"
      using Cons.IH[of es' "k + 1"] Cons.prems(1) by auto
    have at: "ReadFile noFaults (names ! i) es' = ReadFile noFaults (names ! i) es" if "i < length names" for i
      using that other by simp
    have loop: "replayLoop noFaults decode send k (n # names) es = (report # sent, filter (\<lambda>x. fst x \<notin> set (take (Suc m) (n # names))) es)"
      using n True ih(3) rm by (simp add: es'_def)
    have "send (k + i) ((report # sent) ! i)
        \<and> Some ((report # sent) ! i) = Option.bind (ReadFile noFaults ((n # names) ! i) es) decode" if "i < Suc m" for i
      using that True n ih(1,4) at by (cases i) auto
    moreover have "Suc m = length (n # names) \<or> (\<exists>report. Option.bind (ReadFile noFaults ((n # names) ! Suc m) es) decode = Some report
        \<and> \<not> send (k + Suc m) report)"
      using ih(1,5) at[of m] by auto
    ultimately show ?thesis using loop ih(1,2) by (intro exI[of _ "Suc m"] exI[of _ "report # sent"]) simp
  qed
qed simp

lemma listed_filter_other:
  assumes "distinct (map fst es)"
  shows "listed (filter (\<lambda>x. fst x \<notin> set (take m (listed es))) es) = drop m (listed es)"
  using assms by (rule listed_filter_drop)

lemma replay_ordered:
  assumes "spool_reachable env encode b d" "listSpoolFiles noFaults d = Some L"
    "\<forall>report data. encode report = Some data \<longrightarrow> decode data = Some report"
    "ReplaySpool noFaults decode send d = (sent, d')"
  shows "length sent \<le> length L \<and> listSpoolFiles noFaults d' = Some (drop (length sent) L)
    \<and> (\<forall>i<length sent. send i (sent ! i) \<and> L ! i = spoolFileName (Timestamp (sent ! i)) (ScanID (sent ! i)))
    \<and> (length sent = length L \<or> (\<exists>report. L ! length sent = spoolFileName (Timestamp report) (ScanID report)
          \<and> \<not> send (length sent) report))
    \<and> ((\<forall>report\<in>set sent. 0 \<le> Timestamp report \<and> Timestamp report < 2 ^ 63) \<longrightarrow> sorted (map Timestamp sent))"
proof (cases d)
  case None
  then show ?thesis using assms(2,4) by (auto simp: listSpoolFiles_def ReplaySpool_def)
next
  case (Some es)
  have L: "L = listed es" using assms(2) by (simp add: Some listSpoolFiles_listed noFaults_def)
  have w: "whole encode es" using reachable_inv[OF assms(1)] by (simp add: Some wholeDir_def)
  then have dist: "distinct (map fst es)" by (simp add: whole_def)
  have st: "\<exists>data report. ReadFile noFaults n es = Some data \<and> decode data = Some report \<and> stored encode n data report"
    if n: "n \<in> set L" for n
  proof -
    obtain e where e: "(n, e) \<in> set es" "isReport (n, e)" using n unfolding L set_listed by blast
    then obtain report data where "e = File data" "stored encode n data report"
      using w by (fastforce simp: whole_def wholeEntry_def)
    moreover have "map_of es n = Some e" using e(1) dist by simp
    ultimately show ?thesis using assms(3) by (auto simp: ReadFile_def noFaults_def stored_def)
  qed
  then have readable: "\<forall>n\<in>set L. \<exists>data report. ReadFile noFaults n es = Some data \<and> decode data = Some report" by blast
  have named: "n = spoolFileName (Timestamp report) (ScanID report)"
    if "n \<in> set L" "Option.bind (ReadFile noFaults n es) decode = Some report" for n report
    using st[OF that(1)] that(2) by (auto simp: stored_def)
  obtain m ss where m: "m \<le> length L" "length ss = m"
      "replayLoop noFaults decode send 0 L es = (ss, filter (\<lambda>x. fst x \<notin> set (take m L)) es)"
      "\<forall>i<m. send (0 + i) (ss ! i) \<and> Some (ss ! i) = Option.bind (ReadFile noFaults (L ! i) es) decode"
      "m = length L \<or> (\<exists>report. Option.bind (ReadFile noFaults (L ! m) es) decode = Some report \<and> \<not> send (0 + m) report)"
    using replayLoop_exact[of L es decode send 0, OF _ readable] distinct_listed[OF dist] L by blast
  have res: "sent = ss" "d' = Some (filter (\<lambda>x. fst x \<notin> set (take m L)) es)"
    using assms(4) m(1-3) by (auto simp: ReplaySpool_def assms(2)[unfolded Some] Some split: if_splits)
  have after: "listSpoolFiles noFaults d' = Some (drop m L)"
    using listed_filter_drop[OF dist, of m] unfolding res(2) L by (simp add: listSpoolFiles_listed noFaults_def)
  have names: "L ! i = spoolFileName (Timestamp (ss ! i)) (ScanID (ss ! i))" if "i < m" for i
    using named[of "L ! i" "ss ! i"] m(1,4) that by (metis nth_mem order.strict_trans2)
  have rest: "\<exists>report. L ! m = spoolFileName (Timestamp report) (ScanID report) \<and> \<not> send m report" if "m \<noteq> length L"
    using m(1,5) that named[of "L ! m"] by (metis add_0 le_neq_implies_less nth_mem)
  have ord: "sorted (map Timestamp ss)" if t: "\<forall>report\<in>set ss. 0 \<le> Timestamp report \<and> Timestamp report < 2 ^ 63"
  proof -
    have "Timestamp (ss ! i) \<le> Timestamp (ss ! j)" if "i \<le> j" "j < m" for i j
    proof (rule spoolFileName_time)
      have "L ! i \<le> L ! j" using sorted_listed[of es] that m(1) by (simp add: L sorted_nth_mono)
      then show "spoolFileName (Timestamp (ss ! i)) (ScanID (ss ! i)) \<le> spoolFileName (Timestamp (ss ! j)) (ScanID (ss ! j))"
        using names that by simp
    qed (use t that m(2) nth_mem[of i ss] nth_mem[of j ss] in auto)
    then show ?thesis using m(2) by (simp add: sorted_iff_nth_mono)
  qed
  show ?thesis using m(1,2,4) after names rest ord by (auto simp: res(1))
qed

text \<open>
  Replaying resends the stored reports oldest first: in any spool an agent can leave, with a JSON codec
  that reads back what it wrote and a file system that works, the reports sent are those of the first files
  of the list, in their order; exactly these files disappear and every other stays; the replay stops only
  at the end or at the first report that cannot be sent; and the reports sent are in the order of their
  time stamps.
\<close>

theorem replay_is_in_order:
  assumes "spool_reachable env encode b d" "listSpoolFiles noFaults d = Some L"
    "\<forall>report data. encode report = Some data \<longrightarrow> decode data = Some report"
    "ReplaySpool noFaults decode send d = (sent, d')"
  shows "length sent \<le> length L \<and> listSpoolFiles noFaults d' = Some (drop (length sent) L)
    \<and> (\<forall>i<length sent. send i (sent ! i) \<and> L ! i = spoolFileName (Timestamp (sent ! i)) (ScanID (sent ! i)))
    \<and> (length sent = length L \<or> (\<exists>report. L ! length sent = spoolFileName (Timestamp report) (ScanID report)
          \<and> \<not> send (length sent) report))
    \<and> ((\<forall>report\<in>set sent. 0 \<le> Timestamp report \<and> Timestamp report < 2 ^ 63) \<longrightarrow> sorted (map Timestamp sent))"
  by (rule replay_ordered[OF assms])

definition oneEncode :: "ScanReport \<Rightarrow> string option" where
  "oneEncode r = (if r = sampleReport 1 then Some ''x'' else None)"

lemma replay_is_in_order_witness:
  "\<exists>d d'. spool_reachable (\<lambda>_. []) oneEncode True d
     \<and> ReplaySpool noFaults (\<lambda>s. Some (sampleReport 1)) (\<lambda>i r. True) d = ([sampleReport 1], d')
     \<and> listSpoolFiles noFaults d' = Some []"
proof -
  define d where "d = Some [(''00000000000000000001-a_b.json'', File ''x'')]"
  have n: "spoolFileName 1 ''a/b'' = ''00000000000000000001-a_b.json''" by code_simp
  have "SpoolReport noFaults (\<lambda>_. []) oneEncode (sampleReport 1) None = (Inr ''00000000000000000001-a_b.json'', d)"
    by (simp add: SpoolReport_def oneEncode_def sampleReport_def n noFaults_def evictForCapacity_def listSpoolFiles_def
        setEntry_def d_def Let_def)
  then have "spool_reachable (\<lambda>_. []) oneEncode (True \<and> evicts noFaults) d" by (rule store[OF empty])
  then have r: "spool_reachable (\<lambda>_. []) oneEncode True d" by (simp add: evicts_def noFaults_def)
  have l: "listSpoolFiles noFaults d = Some [''00000000000000000001-a_b.json'']"
    by (simp add: d_def listSpoolFiles_def noFaults_def isReport_def HasSuffix_def)
  have dec: "\<forall>report data. oneEncode report = Some data \<longrightarrow> (\<lambda>s. Some (sampleReport 1)) data = Some report"
    by (simp add: oneEncode_def)
  have s: "ReplaySpool noFaults (\<lambda>s. Some (sampleReport 1)) (\<lambda>i r. True) d = ([sampleReport 1], Some [])"
    by (simp add: ReplaySpool_def l) (simp add: d_def ReadFile_def Remove_def noFaults_def)
  have "listSpoolFiles noFaults (Some []) = Some (drop (length [sampleReport 1]) [''00000000000000000001-a_b.json''])"
    using replay_is_in_order[where decode = "\<lambda>s. Some (sampleReport 1)", OF r l dec s] by blast
  then show ?thesis using r s by auto
qed

section \<open>A stored report is sent\<close>

lemma no_dir: "whole encode es \<Longrightarrow> map_of es n \<noteq> Some Dir"
  by (auto simp: whole_def wholeEntry_def dest!: map_of_SomeD)

lemma SpoolReport_stores:
  assumes "wholeDir encode d" "encode report = Some data"
    "SpoolReport noFaults env encode report d = (r, d')"
  shows "\<exists>es. d' = Some es \<and> r = Inr (spoolFileName (Timestamp report) (ScanID report))
    \<and> spoolFileName (Timestamp report) (ScanID report) \<in> set (listed es)
    \<and> ReadFile noFaults (spoolFileName (Timestamp report) (ScanID report)) es = Some data"
proof -
  define es where "es = (case d of None \<Rightarrow> [] | Some es \<Rightarrow> es)"
  define es1 where "es1 = snd (evictForCapacity noFaults (spoolMaxFromEnv env) es)"
  define name where "name = spoolFileName (Timestamp report) (ScanID report)"
  have "whole encode es" using assms(1) by (auto simp: es_def wholeDir_def whole_Nil split: option.splits)
  then have w1: "whole encode es1" unfolding es1_def by (rule evictForCapacity_whole)
  have w: "whole encode (setEntry (name @ ''.tmp'') (File data) es1)"
    by (rule setEntry_whole[OF w1 wholeEntry_tmp])
  have "(r, d') = (Inr name, Some (setEntry name (File data)
      (filter (\<lambda>x. fst x \<noteq> name @ ''.tmp'') (setEntry (name @ ''.tmp'') (File data) es1))))"
    using assms(3) no_dir[OF w1, of "name @ ''.tmp''"] no_dir[OF w, of name]
    by (simp add: SpoolReport_def assms(2) noFaults_def es_def[symmetric] Let_def es1_def[unfolded noFaults_def, symmetric] name_def[symmetric])
  then show ?thesis
    using report_name[of "Timestamp report" "ScanID report" data]
    by (auto simp: name_def[symmetric] ReadFile_def noFaults_def setEntry_def set_listed)
qed

lemma replay_sends_all:
  assumes "spool_reachable env encode b d" "d = Some es" "n \<in> set (listed es)" "ReadFile noFaults n es = Some data"
    "\<forall>report data. encode report = Some data \<longrightarrow> decode data = Some report" "decode data = Some report"
  shows "report \<in> set (fst (ReplaySpool noFaults decode (\<lambda>_ _. True) d))"
proof -
  have w: "whole encode es" using reachable_inv[OF assms(1)] by (simp add: assms(2) wholeDir_def)
  then have dist: "distinct (map fst es)" by (simp add: whole_def)
  have L: "listSpoolFiles noFaults d = Some (listed es)" by (simp add: assms(2) listSpoolFiles_listed noFaults_def)
  have "\<exists>data report. ReadFile noFaults m es = Some data \<and> decode data = Some report" if m: "m \<in> set (listed es)" for m
  proof -
    obtain e where e: "(m, e) \<in> set es" "isReport (m, e)" using m unfolding set_listed by blast
    then obtain report data where "e = File data" "stored encode m data report"
      using w by (fastforce simp: whole_def wholeEntry_def)
    moreover have "map_of es m = Some e" using e(1) dist by simp
    ultimately show ?thesis using assms(5) by (auto simp: ReadFile_def noFaults_def stored_def)
  qed
  then obtain m ss where m: "m \<le> length (listed es)" "length ss = m"
      "replayLoop noFaults decode (\<lambda>_ _. True) 0 (listed es) es = (ss, filter (\<lambda>x. fst x \<notin> set (take m (listed es))) es)"
      "\<forall>i<m. Some (ss ! i) = Option.bind (ReadFile noFaults (listed es ! i) es) decode" "m = length (listed es)"
    using replayLoop_exact[of "listed es" es decode "\<lambda>_ _. True" 0] distinct_listed[OF dist] by auto
  obtain i where i: "i < m" "listed es ! i = n" using assms(3) m(5) by (auto simp: in_set_conv_nth)
  then have "ss ! i = report" using m(4) assms(4,6) by auto
  then have "report \<in> set ss" using i(1) m(2) by auto
  moreover have "fst (ReplaySpool noFaults decode (\<lambda>_ _. True) d) = ss"
    using m(2,3,5) by (auto simp: ReplaySpool_def L[unfolded assms(2)] assms(2))
  ultimately show ?thesis by simp
qed

end
