(* ===== verification/Scan_Handlers.thy ===== *)
theory Scan_Handlers
  imports Scan_Queue
begin

text \<open>
  The HTTP handlers of scan requests (\<^verbatim>\<open>internal/server/api/scan.go\<close>) and the binding of a host to its
  agent's token (\<^verbatim>\<open>internal/server/api/report.go\<close>, \<^verbatim>\<open>internal/server/db/host.go\<close>). A handler maps the server's
  state to a response, an error code with its message or a result, and the next state. A request body that
  cannot be decoded is \<open>Inl\<close>, with a flag for one that is too large; what the session layer says about an
  administrator is an argument.
\<close>

section \<open>The server's state\<close>

text \<open>
  The audit log keeps action, resource type, resource and status of each entry, not its metadata.
  \<open>sv_bindings\<close> is the column \<^verbatim>\<open>agent_token_hash\<close> of the table \<^verbatim>\<open>hosts\<close>, by host id.
\<close>

record server =
  sv_requests :: scan_table
  sv_bindings :: "(string \<times> string) list"
  sv_audit :: "(string \<times> string \<times> string \<times> string) list"

type_synonym 'a scan_reply = "(int \<times> string) + 'a"

definition audit :: "string \<Rightarrow> string \<Rightarrow> string \<Rightarrow> string \<Rightarrow> server \<Rightarrow> server" where
  "audit action resourceType resourceID st sv =
     sv\<lparr>sv_audit := sv_audit sv @ [(action, resourceType, resourceID, if st = [] then ''ok'' else st)]\<rparr>"

section \<open>Host binding\<close>

text \<open>
  The statement \<^verbatim>\<open>UPDATE hosts\<close>: the rows it selects and what it writes. \<open>None\<close> is \<^verbatim>\<open>ErrAgentHostTokenMismatch\<close>.
\<close>

definition bindable :: "string \<Rightarrow> string \<Rightarrow> string \<times> string \<Rightarrow> bool" where
  "bindable hostID tokenHash x \<longleftrightarrow> fst x = hostID \<and> (snd x = [] \<or> snd x = tokenHash)"

definition bindRow :: "string \<Rightarrow> string \<Rightarrow> string \<times> string \<Rightarrow> string \<times> string" where
  "bindRow hostID tokenHash x =
     (if bindable hostID tokenHash x then (fst x, if snd x = [] then tokenHash else snd x) else x)"

definition VerifyOrBindHostAgentToken :: "string \<Rightarrow> string \<Rightarrow> (string \<times> string) list \<Rightarrow> (string \<times> string) list option" where
  "VerifyOrBindHostAgentToken hostID tokenHash hosts =
     (if hostID = [] \<or> tokenHash = [] then None
      else if length (filter (bindable hostID tokenHash) hosts) = 0 then None
      else Some (map (bindRow hostID tokenHash) hosts))"

definition ResetHostAgentToken :: "string \<Rightarrow> (string \<times> string) list \<Rightarrow> (string \<times> string) list option" where
  "ResetHostAgentToken hostID hosts =
     (if filter (\<lambda>(h, t). h = hostID) hosts = [] then None
      else Some (map (\<lambda>(h, t). if h = hostID then (h, []) else (h, t)) hosts))"

text \<open>The headers of a request, and what the server compares them with.\<close>

record agentHeaders =
  h_key :: string
  h_token :: string
  h_host :: string

record serverConfig =
  cf_apiKey :: string
  cf_agentKey :: string
  cf_hostBinding :: bool
  cf_claimTimeoutMinutes :: int
  cf_sha256 :: "string \<Rightarrow> string"

definition matchKey :: "string \<Rightarrow> string \<Rightarrow> bool" where
  "matchKey got want = (if got = [] \<or> want = [] then False else got = want)"

definition authenticateAgent :: "serverConfig \<Rightarrow> agentHeaders \<Rightarrow> bool" where
  "authenticateAgent cfg h \<longleftrightarrow> matchKey (h_key h) (cf_agentKey cfg) \<or> matchKey (h_key h) (cf_apiKey cfg)"

definition agentHostTokenHash :: "serverConfig \<Rightarrow> agentHeaders \<Rightarrow> string \<Rightarrow> string + string" where
  "agentHostTokenHash cfg h hostID =
     (if \<not> cf_hostBinding cfg then Inr []
      else
        let token = TrimSpace (h_token h) in
        if token = [] then Inl ''missing agent host token''
        else if length token < 32 then Inl ''agent host token is too short''
        else if TrimSpace (h_host h) \<noteq> hostID then Inl ''agent host id header mismatch''
        else Inr (cf_sha256 cfg token))"

definition verifyAgentHostBinding :: "serverConfig \<Rightarrow> agentHeaders \<Rightarrow> string \<Rightarrow> server \<Rightarrow> string + server" where
  "verifyAgentHostBinding cfg h hostID sv =
     (case agentHostTokenHash cfg h hostID of
        Inl e \<Rightarrow> Inl e
      | Inr tokenHash \<Rightarrow>
          if tokenHash = [] then Inr sv
          else (case VerifyOrBindHostAgentToken hostID tokenHash (sv_bindings sv) of
                  None \<Rightarrow> Inl ''agent token does not match host binding''
                | Some hosts \<Rightarrow> Inr (sv\<lparr>sv_bindings := hosts\<rparr>)))"

section \<open>Errors and messages\<close>

definition scanRequestErrorStatus :: "scan_error \<Rightarrow> int" where
  "scanRequestErrorStatus e =
     (case e of
        ErrInvalidScanRequestStatus _ \<Rightarrow> 400
      | ErrScanRequestNotFound \<Rightarrow> 404
      | ErrScanRequestNotActive \<Rightarrow> 409
      | ErrScanRequestClaimMismatch \<Rightarrow> 403
      | ErrScanRequestNotRetryable \<Rightarrow> 409
      | UniqueViolation \<Rightarrow> 500)"

definition scanRequestErrorMessage :: "scan_error \<Rightarrow> string" where
  "scanRequestErrorMessage e =
     (case e of
        ErrInvalidScanRequestStatus _ \<Rightarrow> ''invalid scan request status''
      | ErrScanRequestNotFound \<Rightarrow> ''scan request not found''
      | ErrScanRequestNotActive \<Rightarrow> ''scan request is not pending or claimed''
      | ErrScanRequestClaimMismatch \<Rightarrow> ''scan request was not claimed by this host''
      | ErrScanRequestNotRetryable \<Rightarrow> ''scan request is not failed, degraded, or cancelled''
      | UniqueViolation \<Rightarrow> ''db error'')"

definition scanFailure :: "scan_error \<Rightarrow> 'a scan_reply" where
  "scanFailure e = Inl (scanRequestErrorStatus e, scanRequestErrorMessage e)"

definition maxScanRequestMessageBytes :: nat where
  "maxScanRequestMessageBytes = 1024"

definition normalizeScanRequestMessage :: "string \<Rightarrow> string" where
  "normalizeScanRequestMessage message =
     (let message = TrimSpace message in
      if length message > maxScanRequestMessageBytes
      then truncateValidUTF8 message maxScanRequestMessageBytes @ ''...(truncated)'' else message)"

definition validAgentScanRequestCompletionStatus :: "string \<Rightarrow> bool" where
  "validAgentScanRequestCompletionStatus st \<longleftrightarrow> st = ''completed'' \<or> st = ''degraded'' \<or> st = ''failed''"

text \<open>
  \<open>minutes\<close> is \<^verbatim>\<open>BONGSU_SCAN_REQUEST_CLAIM_TIMEOUT_MINUTES\<close> as \<^verbatim>\<open>envInt\<close> reads it. A duration of minutes is a 64-bit
  count of nanoseconds; the table counts seconds.
\<close>

definition scanRequestClaimTimeoutSeconds :: "int \<Rightarrow> int" where
  "scanRequestClaimTimeoutSeconds minutes = wrap64 ((if minutes \<le> 0 then 60 else minutes) * 60)"

definition minutesDuration :: "int \<Rightarrow> int" where
  "minutesDuration m = wrap64 (m * 60000000000) div 1000000000"

definition badBody :: "bool \<Rightarrow> int \<times> string" where
  "badBody large = (if large then (413, ''request body too large'') else (400, ''invalid request body''))"

section \<open>Agent handlers\<close>

definition handleClaimScanRequest :: "serverConfig \<Rightarrow> agentHeaders \<Rightarrow> int \<Rightarrow> string \<Rightarrow> server
    \<Rightarrow> ScanRequest option scan_reply \<times> server" where
  "handleClaimScanRequest cfg h now hostID sv =
     (if \<not> authenticateAgent cfg h then (Inl (401, ''unauthorized''), sv)
      else if hostID = [] then (Inl (400, ''host_id is required''), sv)
      else case verifyAgentHostBinding cfg h hostID sv of
             Inl e \<Rightarrow> (Inl (403, e), audit ''scan_request.claim'' ''host'' hostID ''forbidden'' sv)
           | Inr sv \<Rightarrow>
               let seconds = scanRequestClaimTimeoutSeconds (cf_claimTimeoutMinutes cfg);
                   minutes = (if seconds \<ge> 0 then seconds div 60 else - ((- seconds) div 60))
               in (case ClaimScanRequest now hostID (minutesDuration minutes) (sv_requests sv) of
                     Inl e \<Rightarrow> (Inl (500, ''db error''), sv)
                   | Inr ((req, n, cancelled), rows) \<Rightarrow>
                       let sv = sv\<lparr>sv_requests := rows\<rparr>;
                           sv = (if n > 0 \<or> cancelled > 0
                                 then audit ''scan_request.requeue_stale'' ''scan_request'' ''stale_claims'' ''ok'' sv else sv)
                       in (case req of
                             None \<Rightarrow> (Inr None, sv)
                           | Some r \<Rightarrow> (Inr (Some r), audit ''scan_request.claim'' ''scan_request'' (sr_id r) ''ok'' sv))))"

record completion =
  co_host :: string
  co_status :: string
  co_message :: string

text \<open>The result is the status recorded.\<close>

definition handleCompleteScanRequest :: "serverConfig \<Rightarrow> agentHeaders \<Rightarrow> int \<Rightarrow> string \<Rightarrow> bool + completion \<Rightarrow> server
    \<Rightarrow> string scan_reply \<times> server" where
  "handleCompleteScanRequest cfg h now reqID body sv =
     (if \<not> authenticateAgent cfg h then (Inl (401, ''unauthorized''), sv)
      else case body of
             Inl large \<Rightarrow> (Inl (badBody large), sv)
           | Inr b \<Rightarrow>
               let hostID = TrimSpace (co_host b);
                   st = TrimSpace (co_status b);
                   message = normalizeScanRequestMessage (co_message b);
                   st = (if st = [] then ''completed'' else st)
               in if \<not> validAgentScanRequestCompletionStatus st then (Inl (400, ''invalid scan request status''), sv)
                  else case verifyAgentHostBinding cfg h hostID sv of
                         Inl e \<Rightarrow> (Inl (403, e), audit ''scan_request.complete'' ''host'' hostID ''forbidden'' sv)
                       | Inr sv \<Rightarrow>
                           (case CompleteClaimedScanRequest now reqID hostID st message (sv_requests sv) of
                              Inl e \<Rightarrow> (scanFailure e, sv)
                            | Inr rows \<Rightarrow>
                                (Inr st, audit ''scan_request.complete'' ''scan_request'' reqID st (sv\<lparr>sv_requests := rows\<rparr>))))"

section \<open>Administration handlers\<close>

definition handleCancelScanRequest :: "bool \<Rightarrow> int \<Rightarrow> string \<Rightarrow> server \<Rightarrow> string scan_reply \<times> server" where
  "handleCancelScanRequest admin now reqID sv =
     (if \<not> admin then (Inl (401, ''unauthorized''), sv)
      else if reqID = [] then (Inl (400, ''id is required''), sv)
      else case CompleteScanRequest now reqID ''cancelled'' ''cancelled by admin'' (sv_requests sv) of
             Inl e \<Rightarrow> (scanFailure e, sv)
           | Inr rows \<Rightarrow>
               (Inr ''cancelled'', audit ''scan_request.cancel'' ''scan_request'' reqID ''cancelled'' (sv\<lparr>sv_requests := rows\<rparr>)))"

definition handleRequeueScanRequest :: "bool \<Rightarrow> string \<Rightarrow> bool + string \<Rightarrow> server \<Rightarrow> string scan_reply \<times> server" where
  "handleRequeueScanRequest admin reqID body sv =
     (if \<not> admin then (Inl (401, ''unauthorized''), sv)
      else if reqID = [] then (Inl (400, ''id is required''), sv)
      else case body of
             Inl large \<Rightarrow> (Inl (badBody large), sv)
           | Inr message \<Rightarrow>
               let message = normalizeScanRequestMessage message;
                   message = (if message = [] then ''requeued by admin'' else message)
               in (case RequeueScanRequest reqID message (sv_requests sv) of
                     Inl e \<Rightarrow> (scanFailure e, sv)
                   | Inr rows \<Rightarrow>
                       (Inr ''pending'', audit ''scan_request.requeue'' ''scan_request'' reqID ''ok'' (sv\<lparr>sv_requests := rows\<rparr>))))"

definition handleRequeueStaleScanRequests :: "serverConfig \<Rightarrow> bool \<Rightarrow> int \<Rightarrow> bool + int \<Rightarrow> server
    \<Rightarrow> (nat \<times> nat \<times> int) scan_reply \<times> server" where
  "handleRequeueStaleScanRequests cfg admin now body sv =
     (if \<not> admin then (Inl (401, ''unauthorized''), sv)
      else case body of
             Inl large \<Rightarrow> (Inl (badBody large), sv)
           | Inr minutes \<Rightarrow>
               let minutes = (if minutes \<le> 0 then cf_claimTimeoutMinutes cfg else minutes);
                   minutes = (if minutes \<le> 0 then 60 else minutes)
               in (case RequeueStaleScanRequests now (minutesDuration minutes) (sv_requests sv) of
                     Inl e \<Rightarrow> (Inl (500, ''db error''), sv)
                   | Inr ((n, cancelled), rows) \<Rightarrow>
                       (Inr (n, cancelled, minutes),
                        audit ''scan_request.requeue_stale'' ''scan_request'' ''stale_claims'' ''ok'' (sv\<lparr>sv_requests := rows\<rparr>))))"

record requeueFilter =
  rf_host :: string
  rf_status :: string
  rf_type :: string
  rf_revision :: string
  rf_message :: string

text \<open>\<^verbatim>\<open>GetHost\<close> finds the hosts of the binding column.\<close>

definition hostKnown :: "string \<Rightarrow> server \<Rightarrow> bool" where
  "hostKnown hostID sv = list_ex (\<lambda>(h, t). h = hostID) (sv_bindings sv)"

definition handleRequeueFilteredScanRequests :: "bool \<Rightarrow> bool + requeueFilter \<Rightarrow> server \<Rightarrow> nat scan_reply \<times> server" where
  "handleRequeueFilteredScanRequests admin body sv =
     (if \<not> admin then (Inl (401, ''unauthorized''), sv)
      else case body of
             Inl large \<Rightarrow> (Inl (badBody large), sv)
           | Inr b \<Rightarrow>
               let host = TrimSpace (rf_host b); st = TrimSpace (rf_status b); ty = TrimSpace (rf_type b);
                   revision = TrimSpace (rf_revision b);
                   message = normalizeScanRequestMessage (rf_message b)
               in if host = [] \<and> st = [] \<and> ty = [] \<and> revision = [] then
                    (Inl (400, ''at least one filter is required''), sv)
                  else if st \<noteq> [] \<and> st \<noteq> ''failed'' \<and> st \<noteq> ''degraded'' \<and> st \<noteq> ''cancelled'' then
                    (Inl (400, ''status must be failed, degraded, or cancelled''), sv)
                  else if ty \<noteq> [] \<and> \<not> validScanRequestType ty then (Inl (400, ''invalid scan_type''), sv)
                  else if host \<noteq> [] \<and> \<not> hostKnown host sv then (Inl (404, ''host not found''), sv)
                  else
                    let message = (if message = [] then ''bulk requeued by admin'' else message)
                    in (case RequeueScanRequestsByFilter host st ty revision message (sv_requests sv) of
                          Inl e \<Rightarrow> (Inl (500, ''db error''), sv)
                        | Inr (count, rows) \<Rightarrow>
                            (Inr count, audit ''scan_request.requeue_filtered'' ''scan_request'' ''filtered'' ''ok''
                               (sv\<lparr>sv_requests := rows\<rparr>))))"

definition handleCreateScanRequest :: "bool \<Rightarrow> string \<Rightarrow> int \<Rightarrow> bool + ScanRequest \<Rightarrow> server \<Rightarrow> ScanRequest scan_reply \<times> server" where
  "handleCreateScanRequest admin newId now body sv =
     (if \<not> admin then (Inl (401, ''unauthorized''), sv)
      else case body of
             Inl large \<Rightarrow> (Inl (badBody large), sv)
           | Inr req \<Rightarrow>
               (case normalizeScanRequestCreate req of
                  None \<Rightarrow> (Inl (400, ''invalid scan_type''), sv)
                | Some req \<Rightarrow>
                    if host_id req \<noteq> [] \<and> \<not> hostKnown (host_id req) sv then (Inl (404, ''host not found''), sv)
                    else (case CreateScanRequest newId now req (sv_requests sv) of
                            Inl e \<Rightarrow> (Inl (500, ''db error''), sv)
                          | Inr rows \<Rightarrow>
                              (Inr (last rows), audit ''scan_request.create'' ''scan_request'' (sr_id (last rows)) ''ok''
                                 (sv\<lparr>sv_requests := rows\<rparr>)))))"

section \<open>A bound host\<close>

lemma Verify_iff:
  "VerifyOrBindHostAgentToken hostID tokenHash hosts = Some hosts' \<longleftrightarrow>
   hostID \<noteq> [] \<and> tokenHash \<noteq> [] \<and> (\<exists>x\<in>set hosts. bindable hostID tokenHash x) \<and> hosts' = map (bindRow hostID tokenHash) hosts"
  by (auto simp: VerifyOrBindHostAgentToken_def filter_empty_conv)

lemma fst_bindRow [simp]: "fst (bindRow hostID tokenHash x) = fst x"
  by (simp add: bindRow_def)

lemma Verify_keys:
  "VerifyOrBindHostAgentToken hostID tokenHash hosts = Some hosts' \<Longrightarrow> map fst hosts' = map fst hosts"
  by (simp add: Verify_iff)

lemma bindRow_bound: "snd x \<noteq> [] \<Longrightarrow> bindRow hostID tokenHash x = x"
  by (simp add: bindRow_def prod_eq_iff)

lemma map_of_bindRow: "map_of hosts k = Some t \<Longrightarrow> t \<noteq> [] \<Longrightarrow> map_of (map (bindRow hostID tokenHash) hosts) k = Some t"
proof (induction hosts)
  case (Cons x hosts)
  show ?case
  proof (cases "fst x = k")
    case True
    then have "snd x = t" using Cons.prems(1) by (cases x) simp
    then have "bindRow hostID tokenHash x = (k, t)" using bindRow_bound Cons.prems(2) True by (metis prod.collapse)
    then show ?thesis by simp
  next
    case False
    then have "map_of hosts k = Some t" using Cons.prems(1) by (cases x) simp
    moreover have "fst (bindRow hostID tokenHash x) \<noteq> k" using False by simp
    ultimately show ?thesis using Cons.IH Cons.prems(2) by (cases "bindRow hostID tokenHash x") simp
  qed
qed simp

lemma Verify_mismatch:
  assumes "distinct (map fst hosts)" "map_of hosts hostID = Some t" "t \<noteq> []" "t \<noteq> tokenHash"
  shows "VerifyOrBindHostAgentToken hostID tokenHash hosts = None"
proof -
  have "\<not> bindable hostID tokenHash x" if "x \<in> set hosts" for x
  proof (cases x)
    case (Pair h u)
    have "h = hostID \<Longrightarrow> u = t"
      using eq_key_imp_eq_value[OF assms(1), of hostID u t] that map_of_SomeD[OF assms(2)] Pair by simp
    then show ?thesis using assms(3,4) Pair by (auto simp: bindable_def)
  qed
  then show ?thesis by (auto simp: VerifyOrBindHostAgentToken_def filter_empty_conv)
qed

lemma Verify_again:
  assumes "VerifyOrBindHostAgentToken hostID tokenHash hosts = Some hosts'"
  shows "VerifyOrBindHostAgentToken hostID tokenHash hosts' = Some hosts'"
proof -
  obtain x where ne: "tokenHash \<noteq> []" "hostID \<noteq> []" "x \<in> set hosts" "bindable hostID tokenHash x"
      and hosts': "hosts' = map (bindRow hostID tokenHash) hosts"
    using assms by (auto simp: Verify_iff)
  have "bindable hostID tokenHash (bindRow hostID tokenHash x)" using ne(4) by (auto simp: bindable_def bindRow_def)
  moreover have "bindRow hostID tokenHash (bindRow hostID tokenHash y) = bindRow hostID tokenHash y" for y
    using ne(1) by (simp add: bindRow_def)
  then have "map (bindRow hostID tokenHash) hosts' = hosts'" by (simp add: hosts')
  ultimately show ?thesis using ne by (auto simp: Verify_iff hosts')
qed

lemma audit_simps [simp]:
  "sv_requests (audit a b c d sv) = sv_requests sv" "sv_bindings (audit a b c d sv) = sv_bindings sv"
  by (simp_all add: audit_def)

text \<open>What a verified request leaves: the same requests, and the bindings of its own token.\<close>

lemma verify_cases:
  assumes "verifyAgentHostBinding cfg h hostID sv = Inr sv'"
  shows "sv_requests sv' = sv_requests sv \<and> sv_audit sv' = sv_audit sv \<and> (sv_bindings sv' = sv_bindings sv \<or>
    VerifyOrBindHostAgentToken hostID (cf_sha256 cfg (TrimSpace (h_token h))) (sv_bindings sv) = Some (sv_bindings sv'))"
  using assms by (auto simp: verifyAgentHostBinding_def agentHostTokenHash_def Let_def split: sum.splits if_splits option.splits)

lemma verify_refused:
  assumes "cf_hostBinding cfg" "distinct (map fst (sv_bindings sv))" "map_of (sv_bindings sv) hostID = Some t" "t \<noteq> []"
    "cf_sha256 cfg (TrimSpace (h_token h)) \<noteq> t" "cf_sha256 cfg (TrimSpace (h_token h)) \<noteq> []"
  shows "\<exists>e. verifyAgentHostBinding cfg h hostID sv = Inl e"
  using assms Verify_mismatch[of "sv_bindings sv" hostID t "cf_sha256 cfg (TrimSpace (h_token h))"]
  by (auto simp: verifyAgentHostBinding_def agentHostTokenHash_def Let_def)

text \<open>Every request of the agents and the administrators, except resetting a host's token.\<close>

inductive server_step :: "serverConfig \<Rightarrow> server \<Rightarrow> server \<Rightarrow> bool" for cfg where
  claim: "handleClaimScanRequest cfg h now hostID sv = (rep, sv') \<Longrightarrow> server_step cfg sv sv'"
| complete: "handleCompleteScanRequest cfg h now reqID body sv = (rep', sv') \<Longrightarrow> server_step cfg sv sv'"
| cancel: "handleCancelScanRequest admin now reqID sv = (rep', sv') \<Longrightarrow> server_step cfg sv sv'"
| requeue: "handleRequeueScanRequest admin reqID message sv = (rep', sv') \<Longrightarrow> server_step cfg sv sv'"
| requeue_stale: "handleRequeueStaleScanRequests cfg admin now minutes sv = (rep2, sv') \<Longrightarrow> server_step cfg sv sv'"
| requeue_filtered: "handleRequeueFilteredScanRequests admin filt sv = (rep3, sv') \<Longrightarrow> server_step cfg sv sv'"
| create: "handleCreateScanRequest admin newId now req sv = (rep4, sv') \<Longrightarrow> server_step cfg sv sv'"

lemma claim_bindings:
  "sv_bindings (snd (handleClaimScanRequest cfg h now hostID sv)) = sv_bindings sv \<or>
   VerifyOrBindHostAgentToken hostID (cf_sha256 cfg (TrimSpace (h_token h))) (sv_bindings sv)
     = Some (sv_bindings (snd (handleClaimScanRequest cfg h now hostID sv)))"
proof (cases "verifyAgentHostBinding cfg h hostID sv")
  case (Inr sv1)
  have "sv_bindings (snd (handleClaimScanRequest cfg h now hostID sv)) \<in> {sv_bindings sv, sv_bindings sv1}"
    by (auto simp: handleClaimScanRequest_def Inr Let_def split: sum.split option.split prod.split)
  then show ?thesis using verify_cases[OF Inr] by auto
qed (simp add: handleClaimScanRequest_def)

lemma complete_bindings:
  "sv_bindings (snd (handleCompleteScanRequest cfg h now reqID body sv)) = sv_bindings sv \<or>
   (\<exists>hostID. VerifyOrBindHostAgentToken hostID (cf_sha256 cfg (TrimSpace (h_token h))) (sv_bindings sv)
     = Some (sv_bindings (snd (handleCompleteScanRequest cfg h now reqID body sv))))"
proof (cases body)
  case (Inr b)
  show ?thesis
  proof (cases "verifyAgentHostBinding cfg h (TrimSpace (co_host b)) sv")
    case v: (Inr sv1)
    have "sv_bindings (snd (handleCompleteScanRequest cfg h now reqID body sv)) \<in> {sv_bindings sv, sv_bindings sv1}"
      by (auto simp: handleCompleteScanRequest_def Inr v Let_def split: sum.split)
    then show ?thesis using verify_cases[OF v] by auto
  qed (simp add: handleCompleteScanRequest_def Inr Let_def)
qed (simp add: handleCompleteScanRequest_def)

text \<open>A handler keeps the bindings when each of its branches does.\<close>

lemma keeps_if: "sv_bindings (snd a) = x \<Longrightarrow> sv_bindings (snd b) = x \<Longrightarrow> sv_bindings (snd (if c then a else b)) = x"
  by simp

lemma keeps_sum:
  "(\<And>y. sv_bindings (snd (f y)) = x) \<Longrightarrow> (\<And>y. sv_bindings (snd (g y)) = x) \<Longrightarrow>
   sv_bindings (snd (case s of Inl y \<Rightarrow> f y | Inr y \<Rightarrow> g y)) = x"
  by (cases s) simp_all

lemma keeps_prod: "(\<And>y z. sv_bindings (snd (f y z)) = x) \<Longrightarrow> sv_bindings (snd (case p of (y, z) \<Rightarrow> f y z)) = x"
  by (cases p) simp

lemmas keeps = keeps_if keeps_sum keeps_prod

lemma step_bindings:
  "server_step cfg sv sv' \<Longrightarrow> sv_bindings sv' = sv_bindings sv
    \<or> (\<exists>hostID tokenHash. VerifyOrBindHostAgentToken hostID tokenHash (sv_bindings sv) = Some (sv_bindings sv'))"
proof (induction rule: server_step.induct)
  case (claim h now hostID sv rep sv')
  then show ?case using claim_bindings[of cfg h now hostID sv] by auto
next
  case (complete h now reqID body sv rep' sv')
  then show ?case using complete_bindings[of cfg h now reqID body sv] by auto
next
  case (cancel admin now reqID sv rep' sv')
  have "sv_bindings (snd (handleCancelScanRequest admin now reqID sv)) = sv_bindings sv"
    by (simp add: handleCancelScanRequest_def split: sum.split)
  then show ?case using cancel by simp
next
  case (requeue admin reqID message sv rep' sv')
  have "sv_bindings (snd (handleRequeueScanRequest admin reqID message sv)) = sv_bindings sv"
    by (simp add: handleRequeueScanRequest_def Let_def split: sum.split)
  then show ?case using requeue by simp
next
  case (requeue_stale admin now minutes sv rep2 sv')
  have "sv_bindings (snd (handleRequeueStaleScanRequests cfg admin now minutes sv)) = sv_bindings sv"
    by (simp add: handleRequeueStaleScanRequests_def Let_def split: sum.split prod.split)
  then show ?case using requeue_stale by simp
next
  case (requeue_filtered admin filt sv rep3 sv')
  have "sv_bindings (snd (handleRequeueFilteredScanRequests admin filt sv)) = sv_bindings sv"
    unfolding handleRequeueFilteredScanRequests_def Let_def by (intro keeps; simp)
  then show ?case using requeue_filtered by simp
next
  case (create admin newId now req sv rep4 sv')
  have "sv_bindings (snd (handleCreateScanRequest admin newId now req sv)) = sv_bindings sv"
    by (simp add: handleCreateScanRequest_def split: sum.split option.split)
  then show ?case using create by simp
qed

lemma steps_keep_binding:
  "(server_step cfg)\<^sup>*\<^sup>* sv sv' \<Longrightarrow> map_of (sv_bindings sv) h = Some t \<Longrightarrow> t \<noteq> [] \<Longrightarrow>
   map_of (sv_bindings sv') h = Some t \<and> map fst (sv_bindings sv') = map fst (sv_bindings sv)"
proof (induction rule: rtranclp_induct)
  case (step sv1 sv2)
  then have ih: "map_of (sv_bindings sv1) h = Some t" "map fst (sv_bindings sv1) = map fst (sv_bindings sv)" by auto
  from step_bindings[OF step(2)] show ?case
  proof (elim disjE exE)
    fix hostID tokenHash
    assume v: "VerifyOrBindHostAgentToken hostID tokenHash (sv_bindings sv1) = Some (sv_bindings sv2)"
    show ?case using ih step.prems(2) map_of_bindRow[OF ih(1)] Verify_keys[OF v] v by (simp add: Verify_iff)
  qed (use ih in simp)
qed simp

definition sameTables :: "server \<Rightarrow> server \<Rightarrow> bool" where
  "sameTables sv sv' \<longleftrightarrow> sv_requests sv = sv_requests sv' \<and> sv_bindings sv = sv_bindings sv'"

definition refused :: "'a scan_reply \<times> server \<Rightarrow> server \<Rightarrow> bool" where
  "refused res sv \<longleftrightarrow> (case res of (Inl (code, message), sv') \<Rightarrow> code \<in> {400, 401, 403, 413} \<and> sameTables sv' sv
     | (Inr x, sv') \<Rightarrow> False)"

lemma claim_refused:
  assumes "\<exists>e. verifyAgentHostBinding cfg h hostID sv = Inl e"
  shows "refused (handleClaimScanRequest cfg h now hostID sv) sv"
  using assms by (auto simp: handleClaimScanRequest_def refused_def sameTables_def)

lemma complete_refused:
  assumes "\<exists>e. verifyAgentHostBinding cfg h (TrimSpace (co_host b)) sv = Inl e"
  shows "refused (handleCompleteScanRequest cfg h now reqID (Inr b) sv) sv"
  using assms by (auto simp: handleCompleteScanRequest_def refused_def sameTables_def Let_def)


definition sampleConfig :: serverConfig where
  "sampleConfig = \<lparr>cf_apiKey = ''k'', cf_agentKey = ''a'', cf_hostBinding = True, cf_claimTimeoutMinutes = 60,
     cf_sha256 = (\<lambda>s. s @ ''#'')\<rparr>"

definition sampleServer :: server where
  "sampleServer = \<lparr>sv_requests = [(rescanRow ''r1'' 0 ''h'' [] [] [])\<lparr>scan_type := ''manual''\<rparr>],
     sv_bindings = [(''h'', ''secret'')], sv_audit = []\<rparr>"


section \<open>Claiming and completing\<close>

text \<open>
  A claimed request can be completed by the same agent at any later time before the queue changes again. The
  host id must carry no surrounding space, because completing trims it and claiming does not.
\<close>

lemma claim_then_complete:
  assumes "scan_index (sv_requests sv)" "handleClaimScanRequest cfg h now host sv = (Inr (Some r), sv1)"
    "TrimSpace host = host" "st \<in> {''completed'', ''degraded'', ''failed''}"
  shows "\<exists>sv2. handleCompleteScanRequest cfg h later (sr_id r)
        (Inr \<lparr>co_host = host, co_status = st, co_message = message\<rparr>) sv1 = (Inr st, sv2)
    \<and> r \<in> set (sv_requests sv1) \<and> status r = ''claimed'' \<and> claimed_by_host_id r = host
    \<and> sv_bindings sv2 = sv_bindings sv1
    \<and> sv_requests sv2 = map (\<lambda>q. if sr_id q = sr_id r then finished later st (normalizeScanRequestMessage message) q else q)
        (sv_requests sv1)"
proof -
  have auth: "authenticateAgent cfg h" "host \<noteq> []"
    using assms(2) by (auto simp: handleClaimScanRequest_def split: if_splits)
  then obtain sv0 where v: "verifyAgentHostBinding cfg h host sv = Inr sv0"
    using assms(2) by (auto simp: handleClaimScanRequest_def split: sum.splits)
  define secs where "secs = scanRequestClaimTimeoutSeconds (cf_claimTimeoutMinutes cfg)"
  define mins where "mins = minutesDuration (if secs \<ge> 0 then secs div 60 else - ((- secs) div 60))"
  have req0: "sv_requests sv0 = sv_requests sv" using verify_cases[OF v] by blast
  obtain n c rows where cl: "ClaimScanRequest now host mins (sv_requests sv) = Inr ((Some r, n, c), rows)"
      "sv_requests sv1 = rows" "sv_bindings sv1 = sv_bindings sv0"
    using assms(2) auth v req0
    unfolding handleClaimScanRequest_def secs_def mins_def Let_def
    by (fastforce split: sum.splits prod.splits option.splits if_splits)
  obtain r0 where r0: "r = claimed_row now host r0" "r \<in> set rows" "scan_index rows"
  proof (rule ClaimScanRequest_cases[OF assms(1) refl, where now = now and hostID = host and timeout = mins])
    fix n' c'
    assume "ClaimScanRequest now host mins (sv_requests sv) = Inr ((None, n', c'),
        map (recovered now (now - effectiveTimeout mins) (sv_requests sv)) (sv_requests sv))"
    then show thesis using cl by simp
  next
    fix n' c' q
    let ?rows2 = "map (recovered now (now - effectiveTimeout mins) (sv_requests sv)) (sv_requests sv)"
    assume q: "oldest (filter (claimable host) ?rows2) = Some q"
      "ClaimScanRequest now host mins (sv_requests sv) = Inr ((Some (claimed_row now host q), n', c'), after_claim now host q ?rows2)"
      "scan_index (after_claim now host q ?rows2)"
    have "q \<in> set ?rows2" using oldest_min[OF q(1)] by auto
    then have "claimed_row now host q \<in> set (after_claim now host q ?rows2)" by force
    then show thesis using q cl that[of q] by simp
  qed
  have st: "status r = ''claimed''" "claimed_by_host_id r = host" using r0(1) by (simp_all add: claimed_row_def)
  have again: "verifyAgentHostBinding cfg h host sv1 = Inr sv1"
    using v cl(3) Verify_again
    by (auto simp: verifyAgentHostBinding_def split: sum.splits if_splits option.splits)
  have "find (\<lambda>q. sr_id q = sr_id r) rows = Some r"
    using r0(2,3) by (metis (mono_tags, lifting) find_id find_id_None not_None_eq row_unique)
  then have co: "CompleteClaimedScanRequest later (sr_id r) host st (normalizeScanRequestMessage message) rows
      = Inr (map (\<lambda>q. if sr_id q = sr_id r then finished later st (normalizeScanRequestMessage message) q else q) rows)"
    using CompleteClaimed_cases[OF r0(3), of later "sr_id r" host st] assms(4) auth(2) st by auto
  have sttrim: "TrimSpace st = st" "st \<noteq> []" "validAgentScanRequestCompletionStatus st"
    using assms(4) by (auto simp: validAgentScanRequestCompletionStatus_def TrimSpace_def is_space_def)
  show ?thesis
    using co r0(2) st sttrim
    by (simp add: handleCompleteScanRequest_def auth(1) assms(3) again cl(2))
qed

definition sampleHeaders :: agentHeaders where
  "sampleHeaders = \<lparr>h_key = ''a'', h_token = replicate 32 (CHR ''x''), h_host = ''h''\<rparr>"

definition freshServer :: server where
  "freshServer = sampleServer\<lparr>sv_bindings := [(''h'', [])]\<rparr>"

definition claimedRow :: ScanRequest where
  "claimedRow = claimed_row 5 ''h'' (hd (sv_requests sampleServer))"

lemma sample_claim:
  "\<exists>sv1. handleClaimScanRequest sampleConfig sampleHeaders 5 ''h'' freshServer = (Inr (Some claimedRow), sv1)"
proof -
  have "fst (handleClaimScanRequest sampleConfig sampleHeaders 5 ''h'' freshServer) = Inr (Some claimedRow)"
    by code_simp
  then show ?thesis by (metis prod.collapse)
qed

end
