(* ===== verification/Agent.thy ===== *)
theory Agent
  imports Reporter Spool Cvematch Scan_Handlers
begin

text \<open>
  The agent process, \<^verbatim>\<open>cmd/agent/main.go\<close>: reading its configuration, one run (collect, report, spool) and
  one turn of the daemon loop. What the collectors find on the machine is a record of results; a Go error is
  its message. Logging is left out.
\<close>

section \<open>String helpers\<close>

definition agentSpace :: "char \<Rightarrow> bool" where
  "agentSpace c \<longleftrightarrow> c = CHR '' '' \<or> byte c = 9 \<or> byte c = 10 \<or> byte c = 13"

definition trimSpace :: "string \<Rightarrow> string" where
  "trimSpace s = rev (dropWhile agentSpace (rev (dropWhile agentSpace s)))"

definition trimQuotes :: "string \<Rightarrow> string" where
  "trimQuotes s =
     (if length s \<ge> 2 \<and> hd s = CHR 0x22 \<and> last s = CHR 0x22 then butlast (tl s) else s)"

definition hasPrefix :: "string \<Rightarrow> string \<Rightarrow> bool" where
  "hasPrefix s prefix \<longleftrightarrow> length s \<ge> length prefix \<and> take (length prefix) s = prefix"

text \<open>The first position of \<open>sub\<close>, if any.\<close>

fun indexOf :: "string \<Rightarrow> string \<Rightarrow> nat option" where
  "indexOf [] sub = (if sub = [] then Some 0 else None)"
| "indexOf (c # s) sub = (if take (length sub) (c # s) = sub then Some 0 else map_option Suc (indexOf s sub))"

lemma indexOf_le: "indexOf s sub = Some i \<Longrightarrow> i + length sub \<le> length s"
proof (induction s sub arbitrary: i rule: indexOf.induct)
  case (2 c s sub)
  then show ?case by (auto split: if_splits) (metis length_Cons length_take min.cobounded1)
qed (auto split: if_splits)

text \<open>The separator is not empty where the program calls this; an empty one would not end.\<close>

function splitOn :: "string \<Rightarrow> string \<Rightarrow> string list" where
  "splitOn s sep = (if sep = [] then [s] else
     (case indexOf s sep of
        None \<Rightarrow> [s]
      | Some i \<Rightarrow> take i s # splitOn (drop (i + length sep) s) sep))"
  by pat_completeness auto
termination
proof (relation "measure (\<lambda>(s, sep). length s)", goal_cases)
  case (2 s sep i)
  then show ?case using indexOf_le[of s sep i] by (cases sep) auto
qed simp

declare splitOn.simps [simp del]

definition splitLines :: "string \<Rightarrow> string list" where
  "splitLines s = filter (\<lambda>l. l \<noteq> [] \<and> \<not> hasPrefix l ''#'') (map trimSpace (splitOn s [CHR 0x0A]))"

definition parseKV :: "string \<Rightarrow> string \<times> string \<times> bool" where
  "parseKV line =
     (case CutByte line (CHR '':'') of (k, v, found) \<Rightarrow>
        if found then (trimSpace k, trimSpace v, True) else ([], [], False))"

definition parsePositiveInt :: "string \<Rightarrow> int" where
  "parsePositiveInt s = (case Atoi (trimQuotes (trimSpace s)) of None \<Rightarrow> 0 | Some n \<Rightarrow> if n \<le> 0 then 0 else n)"

definition parseBool :: "string \<Rightarrow> bool option" where
  "parseBool s = ParseBool (trimQuotes (trimSpace s))"

definition envString :: "(string \<Rightarrow> string) \<Rightarrow> string \<Rightarrow> string \<Rightarrow> string" where
  "envString env key def = (if TrimSpace (env key) \<noteq> [] then env key else def)"

definition envInt :: "(string \<Rightarrow> string) \<Rightarrow> string \<Rightarrow> int \<Rightarrow> int" where
  "envInt env key def =
     (let raw = TrimSpace (env key) in
      if raw = [] then def else (case Atoi raw of None \<Rightarrow> def | Some n \<Rightarrow> n))"

definition envBool :: "(string \<Rightarrow> string) \<Rightarrow> string \<Rightarrow> bool \<Rightarrow> bool" where
  "envBool env key def =
     (let raw = TrimSpace (env key) in
      if raw = [] then def else (case ParseBool raw of None \<Rightarrow> def | Some b \<Rightarrow> b))"

definition envDurationSeconds :: "(string \<Rightarrow> string) \<Rightarrow> string \<Rightarrow> int \<Rightarrow> int" where
  "envDurationSeconds env key def =
     (let seconds = envInt env key 0 in if seconds \<le> 0 then def else wrap64 (seconds * Second))"

section \<open>Configuration\<close>

record config =
  c_ServerURL :: string
  c_APIKey :: string
  c_AgentToken :: string
  c_WorkDir :: string
  c_HostID :: string
  c_ScanRoot :: string
  c_TrivyTimeoutSeconds :: int
  c_ContainerTimeoutSeconds :: int
  c_CommandTimeoutSeconds :: int
  c_SkipContainers :: "bool option"
  c_MaxContainers :: int

definition emptyConfig :: config where
  "emptyConfig = \<lparr>c_ServerURL = [], c_APIKey = [], c_AgentToken = [], c_WorkDir = [], c_HostID = [], c_ScanRoot = [],
     c_TrivyTimeoutSeconds = 0, c_ContainerTimeoutSeconds = 0, c_CommandTimeoutSeconds = 0, c_SkipContainers = None,
     c_MaxContainers = 0\<rparr>"

definition configLine :: "config \<Rightarrow> string \<Rightarrow> config" where
  "configLine cfg line =
     (case parseKV line of (k, v, found) \<Rightarrow>
        if \<not> found then cfg
        else if k = ''server_url'' then cfg\<lparr>c_ServerURL := trimQuotes v\<rparr>
        else if k = ''api_key'' then cfg\<lparr>c_APIKey := trimQuotes v\<rparr>
        else if k = ''agent_token'' then cfg\<lparr>c_AgentToken := trimQuotes v\<rparr>
        else if k = ''work_dir'' then cfg\<lparr>c_WorkDir := trimQuotes v\<rparr>
        else if k = ''host_id'' then cfg\<lparr>c_HostID := trimQuotes v\<rparr>
        else if k = ''scan_root'' then cfg\<lparr>c_ScanRoot := trimQuotes v\<rparr>
        else if k = ''trivy_timeout_seconds'' then cfg\<lparr>c_TrivyTimeoutSeconds := parsePositiveInt v\<rparr>
        else if k = ''container_timeout_seconds'' then cfg\<lparr>c_ContainerTimeoutSeconds := parsePositiveInt v\<rparr>
        else if k = ''command_timeout_seconds'' then cfg\<lparr>c_CommandTimeoutSeconds := parsePositiveInt v\<rparr>
        else if k = ''skip_containers'' then
          (case parseBool v of Some b \<Rightarrow> cfg\<lparr>c_SkipContainers := Some b\<rparr> | None \<Rightarrow> cfg)
        else if k = ''max_containers'' then cfg\<lparr>c_MaxContainers := parsePositiveInt v\<rparr>
        else cfg)"

text \<open>\<open>None\<close> is a file that cannot be read.\<close>

definition loadConfig :: "string option \<Rightarrow> config option" where
  "loadConfig data = map_option (\<lambda>text. foldl configLine emptyConfig (splitLines text)) data"

definition splitCSVRoots :: "string \<Rightarrow> string list" where
  "splitCSVRoots s = filter (\<lambda>p. p \<noteq> []) (map TrimSpace (SplitByte s (CHR '','')))"

text \<open>\<open>isDir\<close> is the \<^verbatim>\<open>os.Stat\<close> of the host.\<close>

definition resolveLangScanRoots :: "(string \<Rightarrow> bool) \<Rightarrow> string \<Rightarrow> string \<Rightarrow> string list" where
  "resolveLangScanRoots isDir spec scanRoot =
     (let s = ToLower (TrimSpace spec) in
      if s = [] \<or> s = ''none'' \<or> s = ''off'' \<or> s = ''disabled'' then []
      else if s = ''all'' then [if scanRoot = [] then ''/'' else scanRoot]
      else filter isDir (splitCSVRoots spec))"

text \<open>
  The agent token file: its content, if it exists, and whether creating the directory, reading or writing is
  refused. \<open>fresh\<close> is a pair of new UUIDs. \<open>None\<close> is an error.
\<close>

definition ensureAgentToken :: "bool \<Rightarrow> bool \<Rightarrow> bool \<Rightarrow> string \<Rightarrow> string option \<Rightarrow> string option \<times> string option" where
  "ensureAgentToken noDir noRead noWrite fresh file =
     (let create = (if noWrite then (None, file) else (Some fresh, Some (fresh @ [CHR 0x0A]))) in
      if noDir then (None, file)
      else case file of
             None \<Rightarrow> create
           | Some data \<Rightarrow>
               if noRead then (None, file)
               else if trimSpace data \<noteq> [] then (Some (trimSpace data), file)
               else create)"

record agentScanOptions =
  PackagesOnly :: bool
  ScanRoot :: string
  TrivyTimeout :: int
  ContainerTimeout :: int
  CommandTimeout :: int
  SkipContainers :: bool
  MaxContainers :: int
  Scanner :: string
  LangScanRoots :: "string list"
  LangScanDepth :: int

definition nativeScanner :: "agentScanOptions \<Rightarrow> bool" where
  "nativeScanner opts \<longleftrightarrow> ToLower (TrimSpace (Scanner opts)) \<noteq> ''trivy''"

text \<open>The command line: every flag with its value, and the names of the flags that were given.\<close>

record flags =
  f_server :: string
  f_apiKey :: string
  f_workDir :: string
  f_packagesOnly :: bool
  f_hostID :: string
  f_scanRoot :: string
  f_trivyTimeout :: int
  f_containerTimeout :: int
  f_commandTimeout :: int
  f_skipContainers :: bool
  f_maxContainers :: int
  f_scanner :: string
  f_langScanRoots :: string
  f_langScanDepth :: int
  visitedFlags :: "string list"

definition defaultLangScanRoots :: string where
  "defaultLangScanRoots = ''/opt,/srv,/usr/local,/var/www,/app,/home,/root''"

definition defaultFlags :: "(string \<Rightarrow> string) \<Rightarrow> flags" where
  "defaultFlags env =
     \<lparr>f_server = [], f_apiKey = [], f_workDir = ''/opt/bongsu'', f_packagesOnly = False, f_hostID = [],
      f_scanRoot = envString env ''BONGSU_AGENT_SCAN_ROOT'' ''/'',
      f_trivyTimeout = envDurationSeconds env ''BONGSU_AGENT_TRIVY_TIMEOUT_SECONDS'' (1800 * Second),
      f_containerTimeout = envDurationSeconds env ''BONGSU_AGENT_CONTAINER_TIMEOUT_SECONDS'' (600 * Second),
      f_commandTimeout = envDurationSeconds env ''BONGSU_AGENT_COMMAND_TIMEOUT_SECONDS'' (30 * Second),
      f_skipContainers = envBool env ''BONGSU_AGENT_SKIP_CONTAINERS'' False,
      f_maxContainers = envInt env ''BONGSU_AGENT_MAX_CONTAINERS'' 0,
      f_scanner = envString env ''BONGSU_AGENT_SCANNER'' ''native'',
      f_langScanRoots = envString env ''BONGSU_AGENT_LANG_SCAN_ROOTS'' defaultLangScanRoots,
      f_langScanDepth = envInt env ''BONGSU_AGENT_LANG_SCAN_DEPTH'' 12, visitedFlags = []\<rparr>"

definition applyConfig :: "config \<Rightarrow> flags \<Rightarrow> flags" where
  "applyConfig cfg f =
     f\<lparr>f_server := (if f_server f = [] then c_ServerURL cfg else f_server f),
       f_apiKey := (if f_apiKey f = [] then c_APIKey cfg else f_apiKey f),
       f_workDir := (if f_workDir f = ''/opt/bongsu'' \<and> c_WorkDir cfg \<noteq> [] then c_WorkDir cfg else f_workDir f),
       f_hostID := (if f_hostID f = [] then c_HostID cfg else f_hostID f),
       f_scanRoot := (if ''scan-root'' \<notin> set (visitedFlags f) \<and> c_ScanRoot cfg \<noteq> [] then c_ScanRoot cfg else f_scanRoot f),
       f_trivyTimeout := (if ''trivy-timeout'' \<notin> set (visitedFlags f) \<and> c_TrivyTimeoutSeconds cfg > 0
          then wrap64 (c_TrivyTimeoutSeconds cfg * Second) else f_trivyTimeout f),
       f_containerTimeout := (if ''container-timeout'' \<notin> set (visitedFlags f) \<and> c_ContainerTimeoutSeconds cfg > 0
          then wrap64 (c_ContainerTimeoutSeconds cfg * Second) else f_containerTimeout f),
       f_commandTimeout := (if ''command-timeout'' \<notin> set (visitedFlags f) \<and> c_CommandTimeoutSeconds cfg > 0
          then wrap64 (c_CommandTimeoutSeconds cfg * Second) else f_commandTimeout f),
       f_skipContainers := (case c_SkipContainers cfg of
            Some b \<Rightarrow> if ''skip-containers'' \<notin> set (visitedFlags f) then b else f_skipContainers f
          | None \<Rightarrow> f_skipContainers f),
       f_maxContainers := (if ''max-containers'' \<notin> set (visitedFlags f) \<and> c_MaxContainers cfg > 0
          then c_MaxContainers cfg else f_maxContainers f)\<rparr>"

record settings =
  s_server :: string
  s_apiKey :: string
  s_token :: string
  s_workDir :: string
  s_hostID :: string
  s_opts :: agentScanOptions

datatype fatal = LoadConfigFailed | ServerAndKeyRequired | AgentTokenFailed

text \<open>
  \<open>cfg\<close> is the configuration file: \<open>None\<close> when none is named, \<open>Some None\<close> when it cannot be read.
  \<open>ensure\<close> is \<open>ensureAgentToken\<close> at a working directory.
\<close>

definition mainSettings :: "(string \<Rightarrow> string) \<Rightarrow> (string \<Rightarrow> bool) \<Rightarrow> (string \<Rightarrow> string option) \<Rightarrow> config option option \<Rightarrow> flags
    \<Rightarrow> fatal + settings" where
  "mainSettings env isDir ensure cfg f =
     (case cfg of
        Some None \<Rightarrow> Inl LoadConfigFailed
      | _ \<Rightarrow>
          let f = (case cfg of Some (Some c) \<Rightarrow> applyConfig c f | _ \<Rightarrow> f);
              token = (case cfg of Some (Some c) \<Rightarrow> c_AgentToken c | _ \<Rightarrow> []);
              server = (if f_server f = [] then env ''BONGSU_SERVER_URL'' else f_server f);
              key = (if f_apiKey f = [] then env ''BONGSU_AGENT_API_KEY'' else f_apiKey f);
              key = (if key = [] then env ''BONGSU_API_KEY'' else key)
          in if server = [] \<or> key = [] then Inl ServerAndKeyRequired
             else
               let token = (if token = [] then env ''BONGSU_AGENT_TOKEN'' else token);
                   hostID = (if f_hostID f = [] then env ''BONGSU_HOST_ID'' else f_hostID f);
                   hostID = (if hostID = [] then env ''BONGSU_AGENT_HOST_ID'' else hostID)
               in case (if token = [] then ensure (f_workDir f) else Some token) of
                    None \<Rightarrow> Inl AgentTokenFailed
                  | Some token \<Rightarrow>
                      Inr \<lparr>s_server = server, s_apiKey = key, s_token = token, s_workDir = f_workDir f, s_hostID = hostID,
                        s_opts = \<lparr>PackagesOnly = f_packagesOnly f, ScanRoot = f_scanRoot f,
                          TrivyTimeout = f_trivyTimeout f, ContainerTimeout = f_containerTimeout f,
                          CommandTimeout = f_commandTimeout f, SkipContainers = f_skipContainers f,
                          MaxContainers = f_maxContainers f, Scanner = f_scanner f,
                          LangScanRoots = resolveLangScanRoots isDir (f_langScanRoots f) (f_scanRoot f),
                          LangScanDepth = f_langScanDepth f\<rparr>\<rparr>)"

section \<open>Collection errors\<close>

definition maxCollectionErrors :: nat where "maxCollectionErrors = 32"
definition maxCollectionErrorBytes :: nat where "maxCollectionErrorBytes = 2048"

definition appendCollectionError :: "string list \<Rightarrow> string \<Rightarrow> string option \<Rightarrow> string list" where
  "appendCollectionError errs area err =
     (case err of
        None \<Rightarrow> errs
      | Some msg \<Rightarrow>
          let entry = trimSpace (area @ '': '' @ msg);
              entry = (if length entry > maxCollectionErrorBytes
                       then truncateValidUTF8 entry maxCollectionErrorBytes @ ''...(truncated)'' else entry)
          in if length errs \<ge> maxCollectionErrors
             then errs[maxCollectionErrors - 1 := ''additional collection errors omitted'']
             else errs @ [entry])"

definition agentVersionString :: "string \<Rightarrow> string \<Rightarrow> string \<Rightarrow> string" where
  "agentVersionString version commit buildDate =
     (let v = TrimSpace version; v = (if v = [] then ''dev'' else v);
          c = TrimSpace commit; d = TrimSpace buildDate
      in Join ([v] @ (if c \<noteq> [] then [if length c > 12 then take 12 c else c] else []) @ (if d \<noteq> [] then [d] else [])) ''+'')"

definition applyHostIDOverride :: "Host \<Rightarrow> string \<Rightarrow> Host" where
  "applyHostIDOverride host override =
     (let override = TrimSpace override in if override \<noteq> [] then host\<lparr>H_ID := override\<rparr> else host)"

section \<open>One run\<close>

record container =
  k_ContainerID :: string
  k_Name :: string
  k_ImageName :: string
  k_ImageID :: string
  k_Runtime :: string
  k_Facts :: string

text \<open>
  What the collectors return. A pair ends in the error, \<open>None\<close> being nil; \<^verbatim>\<open>'u\<close>, \<^verbatim>\<open>'p\<close> and \<^verbatim>\<open>'q\<close> stand for the
  accounts, processes and ports, which the agent only passes on.
\<close>

record ('u, 'p, 'q) machine =
  CollectHostInfo :: "string + Host"
  CollectUsers :: "'u list \<times> string option"
  CollectProcesses :: "'p list \<times> string option"
  CollectHostPackages :: "string + Package list \<times> Vulnerability list"
  ScanLanguagePackages :: "string \<Rightarrow> int \<Rightarrow> Package list"
  ScanRuntimes :: "string \<Rightarrow> int \<Rightarrow> Package list"
  GetRunningContainers :: "container list \<times> string option"
  ScanContainerNative :: "container \<Rightarrow> string + Package list \<times> string"
  CollectContainerPackages :: "container \<Rightarrow> string + Package list \<times> Vulnerability list"
  CollectOSQueryPackages :: "string + Package list"
  CollectOSQueryListeningPorts :: "'q list \<times> string option"

text \<open>What a run has collected so far.\<close>

record inventory =
  allPkgs :: "Package list"
  allVulns :: "Vulnerability list"
  collectionErrors :: "string list"

definition onHost :: "string \<Rightarrow> Package \<Rightarrow> Package" where
  "onHost hostID p = p\<lparr>P_AssetType := ''host'', P_AssetID := hostID\<rparr>"

definition addError :: "string \<Rightarrow> string option \<Rightarrow> inventory \<Rightarrow> inventory" where
  "addError area err got = got\<lparr>collectionErrors := appendCollectionError (collectionErrors got) area err\<rparr>"

text \<open>The host scan; the second result is \<^verbatim>\<open>nativeHostPackages\<close>.\<close>

definition hostStage :: "('u, 'p, 'q) machine \<Rightarrow> string \<Rightarrow> inventory \<Rightarrow> inventory \<times> nat" where
  "hostStage m hostID got =
     (case CollectHostPackages m of
        Inl err \<Rightarrow> (addError ''host_packages'' (Some err) got, 0)
      | Inr (pkgs, vulns) \<Rightarrow>
          (got\<lparr>allPkgs := allPkgs got @ map (onHost hostID) pkgs, allVulns := allVulns got @ vulns\<rparr>, length pkgs))"

definition langStage :: "('u, 'p, 'q) machine \<Rightarrow> agentScanOptions \<Rightarrow> string \<Rightarrow> inventory \<Rightarrow> inventory" where
  "langStage m opts hostID got =
     (if nativeScanner opts \<and> LangScanRoots opts \<noteq> [] then
        got\<lparr>allPkgs := allPkgs got @ concat (map (\<lambda>lr.
              map (onHost hostID) (ScanLanguagePackages m lr (LangScanDepth opts))
              @ map (onHost hostID) (ScanRuntimes m lr (LangScanDepth opts))) (LangScanRoots opts))\<rparr>
      else got)"

definition inContainer :: "container \<Rightarrow> Package \<Rightarrow> Package" where
  "inContainer c p = p\<lparr>P_AssetType := ''container'', P_AssetID := k_ContainerID c, P_Container := k_Name c,
     P_ContainerID := k_ContainerID c, P_ImageName := k_ImageName c, P_ImageID := k_ImageID c\<rparr>"

text \<open>The scan of one container, with the container as the report will hold it.\<close>

definition scanContainer :: "('u, 'p, 'q) machine \<Rightarrow> agentScanOptions \<Rightarrow> container
    \<Rightarrow> (string + Package list \<times> Vulnerability list) \<times> container" where
  "scanContainer m opts c =
     (if nativeScanner opts then
        (case ScanContainerNative m c of
           Inr (pkgs, facts) \<Rightarrow> (Inr (pkgs, []), c\<lparr>k_Facts := facts\<rparr>)
         | Inl err \<Rightarrow> (CollectContainerPackages m c, c))
      else (CollectContainerPackages m c, c))"

fun containerLoop :: "('u, 'p, 'q) machine \<Rightarrow> agentScanOptions \<Rightarrow> container list \<Rightarrow> inventory
    \<Rightarrow> inventory \<times> container list" where
  "containerLoop m opts [] got = (got, [])"
| "containerLoop m opts (c # cs) got =
     (case scanContainer m opts c of (result, c) \<Rightarrow>
        let got = (case result of
              Inl err \<Rightarrow> addError (''container '' @ k_Name c) (Some err) got
            | Inr (pkgs, vulns) \<Rightarrow>
                got\<lparr>allPkgs := allPkgs got @ map (inContainer c) pkgs,
                    allVulns := allVulns got @ map (\<lambda>v. v\<lparr>m_container := k_Name c\<rparr>) vulns\<rparr>)
        in map_prod id ((#) c) (containerLoop m opts cs got))"

text \<open>\<open>limited\<close> is the text of the error that reports a reached limit.\<close>

definition limitMessage :: "int \<Rightarrow> nat \<Rightarrow> string" where
  "limitMessage scanned found = ''container scan limit reached: scanning '' @ show_nat (nat scanned) @ '' of ''
     @ show_nat found @ '' containers''"

definition containerStage :: "('u, 'p, 'q) machine \<Rightarrow> agentScanOptions \<Rightarrow> inventory \<Rightarrow> inventory \<times> container list" where
  "containerStage m opts got =
     (if SkipContainers opts then
        (addError ''containers'' (Some ''skipped by agent configuration'') got, [])
      else
        let (cs, err) = GetRunningContainers m;
            got = addError ''containers'' err got
        in if MaxContainers opts > 0 \<and> int (length cs) > MaxContainers opts then
             containerLoop m opts (take (nat (MaxContainers opts)) cs)
               (addError ''containers'' (Some (limitMessage (MaxContainers opts) (length cs))) got)
           else containerLoop m opts cs got)"

definition osqueryStage :: "('u, 'p, 'q) machine \<Rightarrow> agentScanOptions \<Rightarrow> nat \<Rightarrow> string \<Rightarrow> inventory \<Rightarrow> inventory" where
  "osqueryStage m opts nativeHostPackages hostID got =
     (if \<not> nativeScanner opts \<or> nativeHostPackages = 0 then
        (case CollectOSQueryPackages m of
           Inl err \<Rightarrow> addError ''osquery_packages'' (Some err) got
         | Inr pkgs \<Rightarrow> got\<lparr>allPkgs := allPkgs got @ map (onHost hostID) pkgs\<rparr>)
      else got)"

record ('u, 'p, 'q) AgentReport = ScanReport +
  r_Host :: Host
  r_AgentVersion :: string
  r_ScanType :: string
  r_ScanRequestID :: string
  r_SecurityDBRevision :: string
  r_Errors :: "string list"
  r_Containers :: "container list"
  r_Packages :: "Package list"
  r_Vulns :: "Vulnerability list"
  r_Users :: "'u list"
  r_Processes :: "'p list"
  r_Ports :: "'q list"

text \<open>
  The report of a run (the agent version is a field of the host in the program): \<open>scanID\<close> is the new UUID, \<open>now\<close> the time it started. An error means that the host
  could not be read.
\<close>

definition collectReport :: "('u, 'p, 'q) machine \<Rightarrow> agentScanOptions \<Rightarrow> string \<Rightarrow> string \<Rightarrow> string
    \<Rightarrow> string \<Rightarrow> int \<Rightarrow> string \<Rightarrow> string \<Rightarrow> string + ('u, 'p, 'q) AgentReport" where
  "collectReport m opts version hostIDOverride scanType scanID now scanRequestID securityDBRevision =
     (case CollectHostInfo m of
        Inl err \<Rightarrow> Inl err
      | Inr host \<Rightarrow>
          let host = applyHostIDOverride host hostIDOverride;
              got = \<lparr>allPkgs = [], allVulns = [], collectionErrors = []\<rparr>;
              (users, uerr) = CollectUsers m;
              got = addError ''users'' uerr got;
              (procs, perr) = CollectProcesses m;
              got = addError ''processes'' perr got;
              (got, nativeHostPackages) = hostStage m (H_ID host) got;
              got = langStage m opts (H_ID host) got;
              (got, cs) = containerStage m opts got;
              got = osqueryStage m opts nativeHostPackages (H_ID host) got;
              (ports, oerr) = CollectOSQueryListeningPorts m;
              got = addError ''osquery_ports'' oerr got
          in Inr \<lparr>ScanID = scanID, Timestamp = now, r_Host = host, r_AgentVersion = version, r_ScanType = scanType,
                  r_ScanRequestID = scanRequestID, r_SecurityDBRevision = securityDBRevision,
                  r_Errors = collectionErrors got, r_Containers = cs, r_Packages = allPkgs got,
                  r_Vulns = (if PackagesOnly opts then [] else allVulns got),
                  r_Users = users, r_Processes = procs, r_Ports = ports\<rparr>)"

section \<open>Sending, or keeping for later\<close>

text \<open>
  The agent's fixed surroundings: addresses and keys, the environment, the version, and the JSON codecs.
  \<open>g_errorText\<close> is \<^verbatim>\<open>Error()\<close> of a run's error.
\<close>

datatype run_error = SystemInfo string | SendReport report_error

record ('u, 'p, 'q) agent =
  g_serverURL :: string
  g_apiKey :: string
  g_agentToken :: string
  g_env :: "string \<Rightarrow> string"
  g_version :: string
  g_hostIDOverride :: string
  g_urlOk :: "string \<Rightarrow> bool"
  g_encode :: "('u, 'p, 'q) AgentReport \<Rightarrow> string option"
  g_decode :: "string \<Rightarrow> ('u, 'p, 'q) AgentReport option"
  g_decodeResult :: "(string \<times> bool) option \<Rightarrow> ReportResult option"
  g_decodeClaim :: "(string \<times> bool) option \<Rightarrow> ScanRequest option option"
  g_encodeCompletion :: "string \<Rightarrow> string \<Rightarrow> string \<Rightarrow> string"
  g_errorText :: "run_error \<Rightarrow> string"

definition reporterOf :: "('u, 'p, 'q) agent \<Rightarrow> Reporter" where
  "reporterOf g = New (g_env g) (g_serverURL g) (g_apiKey g) [g_agentToken g]"

text \<open>The network during one call: the clock and the random source, and the server.\<close>

type_synonym net = "world \<times> transport"

definition sendReport :: "('u, 'p, 'q) agent \<Rightarrow> net \<Rightarrow> ('u, 'p, 'q) AgentReport
    \<Rightarrow> (int list \<times> (report_error + ReportResult)) option" where
  "sendReport g net report =
     Send (reporterOf g) (fst net) (snd net) (g_urlOk g) (g_encode g) (\<lambda>r. H_ID (r_Host r)) (g_decodeResult g) report"

definition delivered :: "('u, 'p, 'q) agent \<Rightarrow> net \<Rightarrow> ('u, 'p, 'q) AgentReport \<Rightarrow> bool" where
  "delivered g net report = (case sendReport g net report of Some (_, Inr _) \<Rightarrow> True | _ \<Rightarrow> False)"

text \<open>
  What changes from run to run: the network while the \<open>k\<close>-th spooled report and the new one are sent, what
  the machine holds, the faults of its file system, the new id and the time. A panic is \<open>None\<close>.
\<close>

record ('u, 'p, 'q) occasion =
  o_replay :: "nat \<Rightarrow> net"
  o_net :: net
  o_machine :: "('u, 'p, 'q) machine"
  o_faults :: faults
  o_scanID :: string
  o_now :: int

definition run :: "('u, 'p, 'q) agent \<Rightarrow> ('u, 'p, 'q) occasion \<Rightarrow> agentScanOptions \<Rightarrow> string \<Rightarrow> string \<Rightarrow> string
    \<Rightarrow> directory option \<Rightarrow> (run_error + ReportResult) option \<times> directory option" where
  "run g oc opts scanType scanRequestID securityDBRevision d =
     (let d = snd (ReplaySpool (o_faults oc) (g_decode g) (\<lambda>k. delivered g (o_replay oc k)) d)
      in case collectReport (o_machine oc) opts (g_version g) (g_hostIDOverride g) scanType (o_scanID oc) (o_now oc)
                scanRequestID securityDBRevision of
           Inl err \<Rightarrow> (Some (Inl (SystemInfo err)), d)
         | Inr report \<Rightarrow>
             (case sendReport g (o_net oc) report of
                None \<Rightarrow> (None, d)
              | Some (slept, Inr result) \<Rightarrow> (Some (Inr result), d)
              | Some (slept, Inl e) \<Rightarrow>
                  (Some (Inl (SendReport e)), snd (SpoolReport (o_faults oc) (g_env g) (g_encode g) report d))))"

section \<open>The daemon\<close>

definition scanRequestCompletionFromReport :: "ReportResult option \<Rightarrow> string \<times> string" where
  "scanRequestCompletionFromReport result =
     (case result of
        None \<Rightarrow> (''completed'', [])
      | Some r \<Rightarrow>
          if ScanStatus r \<noteq> ''degraded'' then (''completed'', [])
          else (''degraded'', ''scan degraded: inventory_status='' @ InventoryStatus r @ '' ingest_errors=''
                 @ show_int (IngestErrorCount r) @ '' skipped_vulns='' @ show_int (SkippedVulnCount r)))"

definition completeOnce :: "('u, 'p, 'q) agent \<Rightarrow> net \<Rightarrow> string \<Rightarrow> string \<Rightarrow> string \<Rightarrow> string
    \<Rightarrow> (int list \<times> (report_error + unit)) option" where
  "completeOnce g net reqID hostID st message =
     CompleteScanRequest_agent (reporterOf g) (fst net) (snd net) (g_urlOk g) (g_encodeCompletion g) reqID hostID st message"

text \<open>
  Attempts \<open>i, ..., 2\<close>; the result counts the sleeps of two seconds between them and says whether an attempt
  succeeded.
\<close>

definition completeAttempts :: nat where "completeAttempts = 3"

function completeLoop :: "('u, 'p, 'q) agent \<Rightarrow> (nat \<Rightarrow> net) \<Rightarrow> string \<Rightarrow> string \<Rightarrow> string \<Rightarrow> string \<Rightarrow> nat
    \<Rightarrow> (nat \<times> bool) option" where
  "completeLoop g nets reqID hostID st message i =
     (if i < completeAttempts then
        let slept = (if i > 0 then 1 else 0) in
        case completeOnce g (nets i) reqID hostID st message of
          None \<Rightarrow> None
        | Some (_, Inl e) \<Rightarrow> map_option (map_prod ((+) slept) id) (completeLoop g nets reqID hostID st message (i + 1))
        | Some (_, Inr u) \<Rightarrow> Some (slept, True)
      else Some (0, False))"
  by pat_completeness auto
termination by (relation "measure (\<lambda>(g, nets, reqID, hostID, st, message, i). completeAttempts - i)") auto

declare completeLoop.simps [simp del]

definition completeScanRequestWithRetry :: "('u, 'p, 'q) agent \<Rightarrow> (nat \<Rightarrow> net) \<Rightarrow> string \<Rightarrow> string \<Rightarrow> string \<Rightarrow> string
    \<Rightarrow> (nat \<times> bool) option" where
  "completeScanRequestWithRetry g nets reqID hostID st message = completeLoop g nets reqID hostID st message 0"

text \<open>
  One turn of the loop of \<^verbatim>\<open>runDaemon\<close>: it claims a request, runs it and says what it reports about it, with
  or without the outer retries. \<open>Waits\<close> sleeps for the poll interval.
\<close>

datatype turn = Waits | Reports (reported_id: string) (reported_status: string) (reported_message: string) (retried_outside: bool)

definition daemonTurn :: "('u, 'p, 'q) agent \<Rightarrow> net \<Rightarrow> ('u, 'p, 'q) occasion \<Rightarrow> agentScanOptions \<Rightarrow> string
    \<Rightarrow> directory option \<Rightarrow> turn option \<times> directory option" where
  "daemonTurn g net oc opts hostID d =
     (case ClaimScanRequest_agent (reporterOf g) (fst net) (snd net) (g_urlOk g) (g_decodeClaim g) hostID of
        None \<Rightarrow> (None, d)
      | Some (_, Inl e) \<Rightarrow> (Some Waits, d)
      | Some (_, Inr None) \<Rightarrow> (Some Waits, d)
      | Some (_, Inr (Some req)) \<Rightarrow>
          (case run g oc (opts\<lparr>PackagesOnly := packages_only req\<rparr>) (scan_type req) (sr_id req)
                  (security_db_revision req) d of
             (None, d') \<Rightarrow> (None, d')
           | (Some (Inl err), d') \<Rightarrow> (Some (Reports (sr_id req) ''failed'' (g_errorText g err) True), d')
           | (Some (Inr result), d') \<Rightarrow>
               (case scanRequestCompletionFromReport (Some result) of
                  (st, message) \<Rightarrow> (Some (Reports (sr_id req) st message False), d'))))"

section \<open>The report of a run\<close>

lemma length_trimSpace: "length (trimSpace s) \<le> length s"
proof -
  have "length (dropWhile P t) \<le> length t" for P and t :: string by (induction t) auto
  then have "length (dropWhile agentSpace (rev (dropWhile agentSpace s))) \<le> length s"
    by (metis le_trans length_rev)
  then show ?thesis by (simp add: trimSpace_def)
qed

definition errorsOk :: "string list \<Rightarrow> bool" where
  "errorsOk errs \<longleftrightarrow> length errs \<le> maxCollectionErrors \<and> list_all (\<lambda>e. length e \<le> maxCollectionErrorBytes + 14) errs"

lemma appendCollectionError_ok: "errorsOk errs \<Longrightarrow> errorsOk (appendCollectionError errs area err)"
proof (cases err)
  case (Some msg)
  assume ok: "errorsOk errs"
  define entry where "entry = (if length (trimSpace (area @ '': '' @ msg)) > maxCollectionErrorBytes
      then truncateValidUTF8 (trimSpace (area @ '': '' @ msg)) maxCollectionErrorBytes @ ''...(truncated)''
      else trimSpace (area @ '': '' @ msg))"
  have e: "length entry \<le> maxCollectionErrorBytes + 14"
    using length_truncateValidUTF8[of "trimSpace (area @ '': '' @ msg)" maxCollectionErrorBytes] by (auto simp: entry_def)
  have "appendCollectionError errs area err = (if length errs \<ge> maxCollectionErrors
      then errs[maxCollectionErrors - 1 := ''additional collection errors omitted''] else errs @ [entry])"
    by (simp add: appendCollectionError_def Some Let_def entry_def)
  then show ?thesis using ok e
    by (auto simp: errorsOk_def list_all_iff maxCollectionErrorBytes_def dest!: set_update_subset_insert[THEN subsetD])
qed (simp add: appendCollectionError_def)

text \<open>Where the packages collected so far lie: on the host, or in one of the containers scanned.\<close>

definition placed :: "string \<Rightarrow> container list \<Rightarrow> Package \<Rightarrow> bool" where
  "placed hostID cs p \<longleftrightarrow> (P_AssetType p = ''host'' \<and> P_AssetID p = hostID)
     \<or> (P_AssetType p = ''container'' \<and> (\<exists>c\<in>set cs. P_AssetID p = k_ContainerID c \<and> P_ContainerID p = k_ContainerID c
          \<and> P_Container p = k_Name c \<and> P_ImageName p = k_ImageName c \<and> P_ImageID p = k_ImageID c))"

definition gathered :: "string \<Rightarrow> container list \<Rightarrow> inventory \<Rightarrow> bool" where
  "gathered hostID cs got \<longleftrightarrow> errorsOk (collectionErrors got) \<and> list_all (placed hostID cs) (allPkgs got)"

lemma placed_onHost: "placed hostID cs (onHost hostID p)"
  by (simp add: placed_def onHost_def)

lemma addError_gathered: "gathered hostID cs got \<Longrightarrow> gathered hostID cs (addError area err got)"
  by (simp add: gathered_def addError_def appendCollectionError_ok)

lemma hostStage_gathered: "gathered hostID cs got \<Longrightarrow> gathered hostID cs (fst (hostStage m hostID got))"
  by (auto simp: hostStage_def addError_gathered split: sum.split)
    (auto simp: gathered_def list_all_iff placed_onHost)

lemma langStage_gathered: "gathered hostID cs got \<Longrightarrow> gathered hostID cs (langStage m opts hostID got)"
  by (auto simp: langStage_def gathered_def list_all_iff placed_onHost)

lemma osqueryStage_gathered: "gathered hostID cs got \<Longrightarrow> gathered hostID cs (osqueryStage m opts n hostID got)"
  by (auto simp: osqueryStage_def addError_gathered split: sum.split)
    (auto simp: gathered_def list_all_iff placed_onHost)

lemma placed_mono: "set cs \<subseteq> set ds \<Longrightarrow> placed hostID cs p \<Longrightarrow> placed hostID ds p"
  unfolding placed_def by blast

lemma gathered_mono: "set cs \<subseteq> set ds \<Longrightarrow> gathered hostID cs got \<Longrightarrow> gathered hostID ds got"
  using placed_mono by (auto simp: gathered_def list_all_iff)

lemma containerLoop_gathered:
  "gathered hostID ds got \<Longrightarrow> containerLoop m opts cs got = (got', cs') \<Longrightarrow>
   gathered hostID (ds @ cs') got' \<and> length cs' = length cs"
proof (induction cs arbitrary: got ds got' cs')
  case (Cons c cs)
  obtain result c' where c': "scanContainer m opts c = (result, c')" by fastforce
  define got1 where "got1 = (case result of
      Inl err \<Rightarrow> addError (''container '' @ k_Name c') (Some err) got
    | Inr (pkgs, vulns) \<Rightarrow> got\<lparr>allPkgs := allPkgs got @ map (inContainer c') pkgs,
        allVulns := allVulns got @ map (\<lambda>v. v\<lparr>m_container := k_Name c'\<rparr>) vulns\<rparr>)"
  obtain got2 cs2 where l: "containerLoop m opts cs got1 = (got2, cs2)" by fastforce
  have "gathered hostID (ds @ [c']) got" by (rule gathered_mono[OF _ Cons.prems(1)]) auto
  moreover have "placed hostID (ds @ [c']) (inContainer c' p)" for p
    by (auto simp: placed_def inContainer_def)
  ultimately have "gathered hostID (ds @ [c']) got1"
    by (auto simp: got1_def addError_gathered split: sum.split) (auto simp: gathered_def list_all_iff)
  from Cons.IH[OF this l] have "gathered hostID (ds @ [c'] @ cs2) got2 \<and> length cs2 = length cs" by simp
  moreover have "got' = got2" "cs' = c' # cs2"
    using Cons.prems(2) l by (auto simp: c' Let_def got1_def[symmetric])
  ultimately show ?case by simp
qed simp

lemma containerStage_gathered:
  assumes "gathered hostID [] got" "containerStage m opts got = (got', cs')"
  shows "gathered hostID cs' got' \<and> (MaxContainers opts > 0 \<longrightarrow> int (length cs') \<le> MaxContainers opts)"
proof (cases "SkipContainers opts")
  case True
  then show ?thesis using assms by (auto simp: containerStage_def addError_gathered)
next
  case False
  obtain cs err where r: "GetRunningContainers m = (cs, err)" by fastforce
  note g = addError_gathered[OF assms(1)]
  note loop = containerLoop_gathered[where ds = "[]", simplified]
  show ?thesis
  proof (cases "MaxContainers opts > 0 \<and> int (length cs) > MaxContainers opts")
    case True
    then have "containerLoop m opts (take (nat (MaxContainers opts)) cs)
        (addError ''containers'' (Some (limitMessage (MaxContainers opts) (length cs))) (addError ''containers'' err got)) = (got', cs')"
      using assms(2) False r by (simp add: containerStage_def)
    from loop[OF addError_gathered[OF g] this] show ?thesis using True by auto
  next
    case n: False
    then have "containerLoop m opts cs (addError ''containers'' err got) = (got', cs')"
      using assms(2) False r by (auto simp: containerStage_def Let_def)
    from loop[OF g this] show ?thesis using n by auto
  qed
qed

text \<open>
  C23: a report is well formed whatever the collectors return: every package names the asset it was found
  on, the host of the report or one of its containers with that container's name and image; there are at
  most 32 error texts of at most 2062 bytes; no more containers than the configured limit; and a
  packages-only run reports no vulnerability.
\<close>

theorem report_is_well_formed:
  assumes "collectReport m opts version hostIDOverride scanType scanID now scanRequestID securityDBRevision = Inr report"
  shows "list_all (placed (H_ID (r_Host report)) (r_Containers report)) (r_Packages report)
    \<and> length (r_Errors report) \<le> 32 \<and> list_all (\<lambda>e. length e \<le> 2062) (r_Errors report)
    \<and> (MaxContainers opts > 0 \<longrightarrow> int (length (r_Containers report)) \<le> MaxContainers opts)
    \<and> (PackagesOnly opts \<longrightarrow> r_Vulns report = [])"
proof -
  obtain host0 where h: "CollectHostInfo m = Inr host0"
    using assms by (auto simp: collectReport_def split: sum.splits)
  define host where "host = applyHostIDOverride host0 hostIDOverride"
  obtain users uerr where u: "CollectUsers m = (users, uerr)" by fastforce
  obtain procs perr where p: "CollectProcesses m = (procs, perr)" by fastforce
  obtain ports oerr where o: "CollectOSQueryListeningPorts m = (ports, oerr)" by fastforce
  define g0 where "g0 = addError ''processes'' perr (addError ''users'' uerr \<lparr>allPkgs = [], allVulns = [], collectionErrors = []\<rparr>)"
  have "gathered (H_ID host) [] \<lparr>allPkgs = [], allVulns = [], collectionErrors = []\<rparr>"
    by (simp add: gathered_def errorsOk_def)
  then have g0: "gathered (H_ID host) [] g0" unfolding g0_def by (intro addError_gathered)
  obtain g1 n where 1: "hostStage m (H_ID host) g0 = (g1, n)" by fastforce
  have g1: "gathered (H_ID host) [] g1" using hostStage_gathered[OF g0, of m] 1 by simp
  obtain g2 cs where 2: "containerStage m opts (langStage m opts (H_ID host) g1) = (g2, cs)" by fastforce
  have g2: "gathered (H_ID host) cs g2" "MaxContainers opts > 0 \<longrightarrow> int (length cs) \<le> MaxContainers opts"
    using containerStage_gathered[OF langStage_gathered[OF g1] 2] by blast+
  define g3 where "g3 = addError ''osquery_ports'' oerr (osqueryStage m opts n (H_ID host) g2)"
  have g3: "gathered (H_ID host) cs g3" unfolding g3_def by (intro addError_gathered osqueryStage_gathered g2(1))
  have "r_Host report = host" "r_Containers report = cs" "r_Packages report = allPkgs g3"
    "r_Errors report = collectionErrors g3" "PackagesOnly opts \<longrightarrow> r_Vulns report = []"
    using assms by (auto simp: collectReport_def h u p o Let_def host_def[symmetric] g0_def[symmetric] 1 2 g3_def[symmetric])
  then show ?thesis using g3 g2(2) by (simp add: gathered_def errorsOk_def maxCollectionErrors_def maxCollectionErrorBytes_def)
qed

definition sampleMachine :: "(nat, nat, nat) machine" where
  "sampleMachine = \<lparr>CollectHostInfo = Inr \<lparr>H_ID = ''h'', H_Hostname = [], H_IPAddress = [], H_OSName = [], H_OSVersion = [],
       H_Kernel = [], H_Arch = [], H_Owner = [], H_Team = [], H_Environment = [], H_Criticality = [], H_Tags = []\<rparr>,
     CollectUsers = ([], None), CollectProcesses = ([], Some ''denied''), CollectHostPackages = Inr ([samplePackage], []),
     ScanLanguagePackages = (\<lambda>_ _. []), ScanRuntimes = (\<lambda>_ _. []),
     GetRunningContainers = ([\<lparr>k_ContainerID = ''c'', k_Name = ''n'', k_ImageName = [], k_ImageID = [], k_Runtime = [],
       k_Facts = []\<rparr>], None),
     ScanContainerNative = (\<lambda>c. Inr ([samplePackage], ''f'')), CollectContainerPackages = (\<lambda>c. Inl []),
     CollectOSQueryPackages = Inl [], CollectOSQueryListeningPorts = ([], None)\<rparr>"

definition sampleOpts :: agentScanOptions where
  "sampleOpts = \<lparr>PackagesOnly = True, ScanRoot = ''/'', TrivyTimeout = 0, ContainerTimeout = 0, CommandTimeout = 0,
     SkipContainers = False, MaxContainers = 1, Scanner = ''native'', LangScanRoots = [], LangScanDepth = 12\<rparr>"

definition sampleAgentReport :: "(nat, nat, nat) AgentReport" where
  "sampleAgentReport = (case collectReport sampleMachine sampleOpts ''1'' [] ''daily'' ''s'' 7 [] [] of Inr r \<Rightarrow> r)"

lemma sample_report:
  "collectReport sampleMachine sampleOpts ''1'' [] ''daily'' ''s'' 7 [] [] = Inr sampleAgentReport"
  "length (r_Packages sampleAgentReport) = 2" "H_ID (r_Host sampleAgentReport) = ''h''"
proof -
  have n: "nativeScanner sampleOpts" by code_simp
  note defs = collectReport_def sampleMachine_def sampleOpts_def hostStage_def langStage_def containerStage_def
    osqueryStage_def scanContainer_def applyHostIDOverride_def addError_def
  have "\<exists>r. collectReport sampleMachine sampleOpts ''1'' [] ''daily'' ''s'' 7 [] [] = Inr r
      \<and> length (r_Packages r) = 2 \<and> H_ID (r_Host r) = ''h''"
    using n by (simp add: defs TrimSpace_def)
  then show "collectReport sampleMachine sampleOpts ''1'' [] ''daily'' ''s'' 7 [] [] = Inr sampleAgentReport"
    "length (r_Packages sampleAgentReport) = 2" "H_ID (r_Host sampleAgentReport) = ''h''"
    by (auto simp: sampleAgentReport_def)
qed

lemma report_is_well_formed_witness:
  "length (r_Packages sampleAgentReport) = 2
   \<and> list_all (placed ''h'' (r_Containers sampleAgentReport)) (r_Packages sampleAgentReport)"
  using report_is_well_formed[OF sample_report(1)] sample_report(2,3) by simp

section \<open>Nothing is lost\<close>

lemma sendReport_total: "sendReport g net report \<noteq> None"
proof -
  have "doWithRetry (retry (reporterOf g)) w fn \<noteq> None" for w fn
    using doWithRetry_total[of "g_env g"] by (simp add: reporterOf_def New_def)
  then show ?thesis
    by (auto simp: sendReport_def Send_def Let_def split: option.split sum.split)
qed

lemma spool_noFaults: "evicts noFaults"
  by (simp add: evicts_def noFaults_def)

text \<open>
  C21: a report is delivered or kept: on a machine whose file system works, a run never panics; when it
  returns a result, the report of the machine was delivered; when sending fails, the report is in the
  spool under its own name with its whole encoding, and the next replay during which the server answers
  sends it; and the run leaves a spool of the kind it found.
\<close>

theorem report_is_kept:
  assumes "spool_reachable (g_env g) (g_encode g) b d" "o_faults oc = noFaults"
    "run g oc opts scanType reqID revision d = (res, d')"
    "\<forall>report data. g_encode g report = Some data \<longrightarrow> g_decode g data = Some report"
  shows "spool_reachable (g_env g) (g_encode g) b d'
    \<and> (case collectReport (o_machine oc) opts (g_version g) (g_hostIDOverride g) scanType (o_scanID oc) (o_now oc) reqID revision of
         Inl err \<Rightarrow> res = Some (Inl (SystemInfo err))
       | Inr report \<Rightarrow>
           if delivered g (o_net oc) report then \<exists>result. res = Some (Inr result)
           else (\<exists>e. res = Some (Inl (SendReport e)))
             \<and> (g_encode g report \<noteq> None \<longrightarrow> report \<in> set (fst (ReplaySpool noFaults (g_decode g) (\<lambda>_ _. True) d'))))"
proof -
  obtain sent d1 where d1: "ReplaySpool noFaults (g_decode g) (\<lambda>k. delivered g (o_replay oc k)) d = (sent, d1)" by fastforce
  have r1: "spool_reachable (g_env g) (g_encode g) b d1" by (rule replay[OF assms(1) d1])
  let ?c = "collectReport (o_machine oc) opts (g_version g) (g_hostIDOverride g) scanType (o_scanID oc) (o_now oc) reqID revision"
  show ?thesis
  proof (cases ?c)
    case (Inl err)
    then show ?thesis using assms(2,3) d1 r1 by (simp add: run_def)
  next
    case (Inr report)
    obtain slept x where s: "sendReport g (o_net oc) report = Some (slept, x)"
      using sendReport_total[of g "o_net oc" report] by auto
    show ?thesis
    proof (cases x)
      case res: (Inr result)
      then have "delivered g (o_net oc) report" by (simp add: delivered_def s)
      then show ?thesis using assms(2,3) d1 r1 Inr s res by (auto simp: run_def)
    next
      case err: (Inl e)
      then have nd: "\<not> delivered g (o_net oc) report" by (simp add: delivered_def s)
      obtain r d2 where sp: "SpoolReport noFaults (g_env g) (g_encode g) report d1 = (r, d2)" by fastforce
      have out: "res = Some (Inl (SendReport e))" "d' = d2"
        using assms(2,3) d1 Inr s err sp by (simp_all add: run_def)
      have r2: "spool_reachable (g_env g) (g_encode g) b d2"
        using store[OF r1 sp] spool_noFaults by simp
      have "report \<in> set (fst (ReplaySpool noFaults (g_decode g) (\<lambda>_ _. True) d2))" if "g_encode g report = Some data" for data
      proof -
        have "wholeDir (g_encode g) d1" using reachable_inv[OF r1] by blast
        from SpoolReport_stores[OF this that sp] obtain es where es: "d2 = Some es"
          "spoolFileName (Timestamp report) (ScanID report) \<in> set (listed es)"
          "ReadFile noFaults (spoolFileName (Timestamp report) (ScanID report)) es = Some data" by auto
        show ?thesis by (rule replay_sends_all[OF r2 es assms(4)]) (use assms(4) that in blast)
      qed
      then show ?thesis using r2 out nd Inr by auto
    qed
  qed
qed

definition sampleAgent :: "(nat, nat, nat) agent" where
  "sampleAgent = \<lparr>g_serverURL = ''u'', g_apiKey = ''a'', g_agentToken = replicate 32 (CHR ''x''), g_env = (\<lambda>_. []),
     g_version = ''1'', g_hostIDOverride = [], g_urlOk = (\<lambda>_. True),
     g_encode = (\<lambda>r. if r = sampleAgentReport then Some ''r'' else None), g_decode = (\<lambda>s. Some sampleAgentReport),
     g_decodeResult = (\<lambda>_. None), g_decodeClaim = (\<lambda>_. None), g_encodeCompletion = (\<lambda>h st m. st),
     g_errorText = (\<lambda>_. ''failed'')\<rparr>"

definition deadNet :: net where
  "deadNet = (sampleWorld, \<lambda>_ _. Inl (Transport ''refused''))"

definition sampleOccasion :: "(nat, nat, nat) occasion" where
  "sampleOccasion = \<lparr>o_replay = (\<lambda>_. deadNet), o_net = deadNet, o_machine = sampleMachine, o_faults = noFaults,
     o_scanID = ''s'', o_now = 7\<rparr>"

lemma report_is_kept_witness:
  "\<exists>e d'. run sampleAgent sampleOccasion sampleOpts ''daily'' [] [] None = (Some (Inl (SendReport e)), d')
     \<and> sampleAgentReport \<in> set (fst (ReplaySpool noFaults (g_decode sampleAgent) (\<lambda>_ _. True) d'))"
proof -
  obtain res d' where r: "run sampleAgent sampleOccasion sampleOpts ''daily'' [] [] None = (res, d')" by fastforce
  have c: "collectReport (o_machine sampleOccasion) sampleOpts (g_version sampleAgent) (g_hostIDOverride sampleAgent) ''daily''
      (o_scanID sampleOccasion) (o_now sampleOccasion) [] [] = Inr sampleAgentReport"
    using sample_report(1) by (simp add: sampleOccasion_def sampleAgent_def)
  have nd: "\<not> delivered sampleAgent (o_net sampleOccasion) sampleAgentReport"
  proof -
    have "\<exists>s e. doWithRetry (retryConfigFromEnv (\<lambda>_. [])) sampleWorld (\<lambda>k. Inl (Transport ''refused'')) = Some (s, Inl e)"
      using retryLoop_all_fail[OF retryConfigFromEnv_ok(2), of 0 "\<lambda>_. []" "\<lambda>k. Inl (Transport ''refused'')" sampleWorld 0 None]
        retryConfigFromEnv_ok(1)[of "\<lambda>_. []"]
      by (simp add: doWithRetry_def failed_def)
    then show ?thesis
      by (auto simp: delivered_def sendReport_def Send_def sampleAgent_def reporterOf_def New_def sampleOccasion_def deadNet_def)
  qed
  have f: "o_faults sampleOccasion = noFaults" by (simp add: sampleOccasion_def)
  have e: "\<forall>report data. g_encode sampleAgent report = Some data \<longrightarrow> g_decode sampleAgent data = Some report"
    by (simp add: sampleAgent_def)
  have "g_encode sampleAgent sampleAgentReport \<noteq> None" by (simp add: sampleAgent_def)
  then show ?thesis using report_is_kept[OF empty f r e] r unfolding c by (simp add: nd)
qed

section \<open>The daemon and the queue\<close>

definition headerValue :: "(string \<times> string) list \<Rightarrow> string \<Rightarrow> string" where
  "headerValue hs name = (case map_of hs name of Some v \<Rightarrow> v | None \<Rightarrow> [])"

text \<open>What the server reads from the headers of a request.\<close>

definition readHeaders :: "(string \<times> string) list \<Rightarrow> agentHeaders" where
  "readHeaders hs = \<lparr>h_key = headerValue hs ''X-API-Key'', h_token = headerValue hs ''X-Bongsu-Agent-Token'',
     h_host = headerValue hs ''X-Bongsu-Host-ID''\<rparr>"

definition claimHeaders :: "('u, 'p, 'q) agent \<Rightarrow> string \<Rightarrow> agentHeaders" where
  "claimHeaders g hostID = readHeaders (setAgentIdentityHeaders (reporterOf g) hostID [(''X-API-Key'', g_apiKey g)])"

definition completeHeaders :: "('u, 'p, 'q) agent \<Rightarrow> string \<Rightarrow> agentHeaders" where
  "completeHeaders g hostID = readHeaders (setAgentIdentityHeaders (reporterOf g) hostID
     [(''Content-Type'', ''application/json''), (''X-API-Key'', g_apiKey g)])"

lemma same_headers: "completeHeaders g hostID = claimHeaders g hostID"
  by (simp add: completeHeaders_def claimHeaders_def readHeaders_def headerValue_def setAgentIdentityHeaders_def)

lemma run_total: "fst (run g oc opts scanType reqID revision d) \<noteq> None"
proof (cases "collectReport (o_machine oc) opts (g_version g) (g_hostIDOverride g) scanType (o_scanID oc) (o_now oc) reqID revision")
  case (Inr report)
  obtain slept x where "sendReport g (o_net oc) report = Some (slept, x)"
    using sendReport_total[of g "o_net oc" report] by auto
  then show ?thesis using Inr by (cases x) (simp_all add: run_def)
qed (simp add: run_def)

lemma completion_status:
  "fst (scanRequestCompletionFromReport r) \<in> {''completed'', ''degraded'', ''failed''}"
  by (auto simp: scanRequestCompletionFromReport_def split: option.split)

text \<open>What a turn reports once a request is claimed.\<close>

lemma daemonTurn_reports:
  assumes "ClaimScanRequest_agent (reporterOf g) (fst net) (snd net) (g_urlOk g) (g_decodeClaim g) hostID = Some (slept, Inr (Some req))"
  shows "\<exists>st message again d'. daemonTurn g net oc opts hostID d = (Some (Reports (sr_id req) st message again), d')
    \<and> st \<in> {''completed'', ''degraded'', ''failed''}"
proof -
  obtain res d' where r: "run g oc (opts\<lparr>PackagesOnly := packages_only req\<rparr>) (scan_type req) (sr_id req)
      (security_db_revision req) d = (Some res, d')"
    using run_total[of g oc "opts\<lparr>PackagesOnly := packages_only req\<rparr>" "scan_type req" "sr_id req" "security_db_revision req" d]
    by (metis fst_conv not_None_eq surj_pair)
  show ?thesis
  proof (cases res)
    case (Inl err)
    then show ?thesis by (auto simp: daemonTurn_def assms r)
  next
    case (Inr result)
    obtain st message where c: "scanRequestCompletionFromReport (Some result) = (st, message)" by fastforce
    then have "st \<in> {''completed'', ''degraded'', ''failed''}" using completion_status[of "Some result"] by simp
    then show ?thesis using Inr c by (auto simp: daemonTurn_def assms r)
  qed
qed


definition claimNet :: net where
  "claimNet = (sampleWorld, \<lambda>_ _. Inr \<lparr>StatusCode = 200, RetryAfter = [], Body = None\<rparr>)"


end
