(* ===== verification/Cron.thy ===== *)
theory Cron
  imports Version_Order
begin

text \<open>
  Cron expressions, \<^verbatim>\<open>internal/server/api/scheduler.go\<close> up to \<^verbatim>\<open>computeNextRun\<close>. An instant is a count of
  nanoseconds since the Unix epoch. What the code asks of an instant (month, day, weekday, hour, minute)
  is read off the proleptic Gregorian calendar after the offset of the location; the offset, a function
  of the Unix second, is the parameter \<open>zone\<close>, since it comes from the time zone database.
\<close>

section \<open>Instants\<close>

definition second :: int where "second = 1000000000"
definition minute :: int where "minute = 60 * second"
definition hour :: int where "hour = 60 * minute"

type_synonym zone = "int \<Rightarrow> int"

text \<open>\<^verbatim>\<open>Time.Date\<close>: year, month and day of a count of days since 1 January 1970.\<close>

definition civil :: "int \<Rightarrow> int \<times> int \<times> int" where
  "civil days =
     (let z = days + 719468;
          era = z div 146097;
          doe = z mod 146097;
          yoe = (doe - doe div 1460 + doe div 36524 - doe div 146096) div 365;
          doy = doe - (365 * yoe + yoe div 4 - yoe div 100);
          mp = (5 * doy + 2) div 153;
          d = doy - (153 * mp + 2) div 5 + 1;
          m = (if mp < 10 then mp + 3 else mp - 9)
      in (yoe + era * 400 + (if m \<le> 2 then 1 else 0), m, d))"

definition localSeconds :: "zone \<Rightarrow> int \<Rightarrow> int" where
  "localSeconds zone t = t div second + zone (t div second)"

definition localDay :: "zone \<Rightarrow> int \<Rightarrow> int" where
  "localDay zone t = localSeconds zone t div 86400"

definition Month :: "zone \<Rightarrow> int \<Rightarrow> int" where
  "Month zone t = fst (snd (civil (localDay zone t)))"

definition Day :: "zone \<Rightarrow> int \<Rightarrow> int" where
  "Day zone t = snd (snd (civil (localDay zone t)))"

definition Weekday :: "zone \<Rightarrow> int \<Rightarrow> int" where
  "Weekday zone t = (localDay zone t + 4) mod 7"

definition Hour :: "zone \<Rightarrow> int \<Rightarrow> int" where
  "Hour zone t = localSeconds zone t mod 86400 div 3600"

definition Minute :: "zone \<Rightarrow> int \<Rightarrow> int" where
  "Minute zone t = localSeconds zone t mod 3600 div 60"

text \<open>\<^verbatim>\<open>Time.Truncate\<close>: Go's zero time is a whole number of minutes before the epoch.\<close>

definition Truncate :: "int \<Rightarrow> int \<Rightarrow> int" where
  "Truncate t d = t - t mod d"

section \<open>Parsing\<close>

datatype cron_error =
    InvalidStep string
  | InvalidField string
  | InvalidRange string
  | InvalidValue string
  | FieldCount nat
  | InField string cron_error
  | NoMatchingTime string

record fieldMatcher =
  fm_values :: "int set"
  fm_any :: bool

text \<open>One element of the comma-separated base of a field.\<close>

definition cronPart :: "int \<Rightarrow> int \<Rightarrow> string \<Rightarrow> cron_error + int list" where
  "cronPart mn mx part =
     (if CHR ''-'' \<in> set part then
        (case CutByte part CHR ''-'' of (lo, hi, _) \<Rightarrow>
           (case (Atoi lo, Atoi hi) of
              (Some l, Some h) \<Rightarrow> if l < mn \<or> h > mx \<or> l > h then Inl (InvalidRange part) else Inr [l..h]
            | _ \<Rightarrow> Inl (InvalidRange part)))
      else
        (case Atoi part of
           None \<Rightarrow> Inl (InvalidValue part)
         | Some v \<Rightarrow> if v < mn \<or> v > mx then Inl (InvalidValue part) else Inr [v]))"

fun cronParts :: "int \<Rightarrow> int \<Rightarrow> string list \<Rightarrow> int list \<Rightarrow> cron_error + int list" where
  "cronParts mn mx [] vals = Inr vals"
| "cronParts mn mx (part # parts) vals =
     (case cronPart mn mx part of
        Inl e \<Rightarrow> Inl e
      | Inr vs \<Rightarrow> cronParts mn mx parts (vals @ vs))"

text \<open>The elements at the indices \<^verbatim>\<open>0, step, 2 * step, ...\<close> of a list.\<close>

function everyNth :: "nat \<Rightarrow> 'a list \<Rightarrow> 'a list" where
  "everyNth step [] = []"
| "everyNth step (x # xs) = x # everyNth step (drop (step - 1) xs)"
  by pat_completeness auto
termination by (relation "measure (\<lambda>(s, xs). length xs)") auto

definition cronStep :: "string list \<Rightarrow> string \<Rightarrow> cron_error + int" where
  "cronStep parts field =
     (if length parts = 2 then
        (case Atoi (parts ! 1) of
           None \<Rightarrow> Inl (InvalidStep (parts ! 1))
         | Some s \<Rightarrow> if s \<le> 0 then Inl (InvalidStep (parts ! 1)) else Inr s)
      else if length parts > 2 then Inl (InvalidField field)
      else Inr 1)"

definition parseCronField :: "string \<Rightarrow> int \<Rightarrow> int \<Rightarrow> cron_error + fieldMatcher" where
  "parseCronField field mn mx =
     (if field = ''*'' then Inr \<lparr>fm_values = {}, fm_any = True\<rparr>
      else
        (let parts = SplitByte field CHR ''/''; base = parts ! 0 in
         case cronStep parts field of
           Inl e \<Rightarrow> Inl e
         | Inr step \<Rightarrow>
             (case (if base = ''*'' then Inr [mn..mx] else cronParts mn mx (SplitByte base CHR '','') []) of
                Inl e \<Rightarrow> Inl e
              | Inr vals \<Rightarrow>
                  (let chosen = set (everyNth (nat step) vals)
                   in Inr \<lparr>fm_values = chosen, fm_any = (chosen = {})\<rparr>))))"

record cronSchedule =
  cs_minute :: fieldMatcher
  cs_hour :: fieldMatcher
  cs_dayOfMonth :: fieldMatcher
  cs_month :: fieldMatcher
  cs_dayOfWeek :: fieldMatcher

definition parseCron :: "string \<Rightarrow> cron_error + cronSchedule" where
  "parseCron expr =
     (case Fields expr of
        [f0, f1, f2, f3, f4] \<Rightarrow>
          (case parseCronField f0 0 59 of Inl e \<Rightarrow> Inl (InField ''minute'' e) | Inr mi \<Rightarrow>
          (case parseCronField f1 0 23 of Inl e \<Rightarrow> Inl (InField ''hour'' e) | Inr ho \<Rightarrow>
          (case parseCronField f2 1 31 of Inl e \<Rightarrow> Inl (InField ''day of month'' e) | Inr dm \<Rightarrow>
          (case parseCronField f3 1 12 of Inl e \<Rightarrow> Inl (InField ''month'' e) | Inr mo \<Rightarrow>
          (case parseCronField f4 0 6 of Inl e \<Rightarrow> Inl (InField ''day of week'' e) | Inr dw \<Rightarrow>
             Inr \<lparr>cs_minute = mi, cs_hour = ho, cs_dayOfMonth = dm, cs_month = mo, cs_dayOfWeek = dw\<rparr>)))))
      | fs \<Rightarrow> Inl (FieldCount (length fs)))"

section \<open>The next run\<close>

definition fieldMatches :: "fieldMatcher \<Rightarrow> int \<Rightarrow> bool" where
  "fieldMatches m v \<longleftrightarrow> fm_any m \<or> v \<in> fm_values m"

definition cronMatches :: "zone \<Rightarrow> cronSchedule \<Rightarrow> int \<Rightarrow> bool" where
  "cronMatches zone s t \<longleftrightarrow>
     fieldMatches (cs_month s) (Month zone t) \<and> fieldMatches (cs_dayOfMonth s) (Day zone t)
     \<and> fieldMatches (cs_dayOfWeek s) (Weekday zone t) \<and> fieldMatches (cs_hour s) (Hour zone t)
     \<and> fieldMatches (cs_minute s) (Minute zone t)"

text \<open>The search, whose counter is the loop's own; \<open>None\<close> is Go's zero time.\<close>

primrec cronLoop :: "zone \<Rightarrow> cronSchedule \<Rightarrow> nat \<Rightarrow> int \<Rightarrow> int option" where
  "cronLoop zone s 0 t = None"
| "cronLoop zone s (Suc n) t = (if cronMatches zone s t then Some t else cronLoop zone s n (t + minute))"

definition maxIter :: nat where "maxIter = 525960"

definition nextCronTime :: "zone \<Rightarrow> cronSchedule \<Rightarrow> int \<Rightarrow> int option" where
  "nextCronTime zone s t0 = cronLoop zone s maxIter (Truncate (t0 + minute) minute)"

definition computeNextRun :: "zone \<Rightarrow> string \<Rightarrow> int \<Rightarrow> cron_error + int" where
  "computeNextRun zone expr now =
     (case parseCron expr of
        Inl e \<Rightarrow> Inl e
      | Inr schedule \<Rightarrow>
          (case nextCronTime zone schedule now of
             None \<Rightarrow> Inl (NoMatchingTime expr)
           | Some next \<Rightarrow> Inr next))"

section \<open>The search finds the least match\<close>

lemma cronLoop_Some:
  "cronLoop zone s n t = Some u \<longleftrightarrow>
     (\<exists>k < n. u = t + int k * minute \<and> cronMatches zone s u \<and> (\<forall>j < k. \<not> cronMatches zone s (t + int j * minute)))"
proof (induction n arbitrary: t)
  case (Suc n)
  show ?case
  proof (cases "cronMatches zone s t")
    case True
    then have "u = t" if "k < Suc n" "u = t + int k * minute" "\<forall>j < k. \<not> cronMatches zone s (t + int j * minute)" for k
      using that by (cases k) auto
    then show ?thesis using True by auto
  next
    case False
    have step: "t + minute + int j * minute = t + int (Suc j) * minute" for j
      by (simp add: algebra_simps)
    have "(\<exists>k < n. u = t + int (Suc k) * minute \<and> cronMatches zone s u \<and> (\<forall>j < k. \<not> cronMatches zone s (t + int (Suc j) * minute)))
      \<longleftrightarrow> (\<exists>k < Suc n. u = t + int k * minute \<and> cronMatches zone s u \<and> (\<forall>j < k. \<not> cronMatches zone s (t + int j * minute)))"
      (is "?L \<longleftrightarrow> ?R")
    proof
      assume ?L
      then obtain k where k: "k < n" "u = t + int (Suc k) * minute" "cronMatches zone s u"
        "\<forall>j < k. \<not> cronMatches zone s (t + int (Suc j) * minute)" by blast
      have "\<not> cronMatches zone s (t + int j * minute)" if "j < Suc k" for j
        using that False k(4) by (cases j) auto
      then show ?R using k by (intro exI [of _ "Suc k"]) auto
    next
      assume ?R
      then obtain k where k: "k < Suc n" "u = t + int k * minute" "cronMatches zone s u"
        "\<forall>j < k. \<not> cronMatches zone s (t + int j * minute)" by blast
      then obtain k' where "k = Suc k'" using False by (cases k) auto
      then show ?L using k by (intro exI [of _ k']) auto
    qed
    then show ?thesis using False Suc.IH [of "t + minute"] by (simp only: cronLoop.simps if_False step)
  qed
qed simp

lemma cronLoop_None:
  "cronLoop zone s n t = None \<longleftrightarrow> (\<forall>k < n. \<not> cronMatches zone s (t + int k * minute))"
proof (induction n arbitrary: t)
  case (Suc n)
  have step: "t + minute + int j * minute = t + int (Suc j) * minute" for j
    by (simp add: algebra_simps)
  show ?case unfolding cronLoop.simps All_less_Suc2 using Suc.IH [of "t + minute"] by (simp add: step)
qed simp

text \<open>The minutes strictly after \<open>t0\<close> that the loop looks at are those of the next 525960 minutes.\<close>

lemma minute_pos [simp]: "0 < minute"
  by (simp add: minute_def second_def)

lemma firstMinute:
  "Truncate (t0 + minute) minute = (t0 div minute + 1) * minute"
proof -
  have "(t0 + minute) div minute = t0 div minute + 1" using minute_pos div_add_self2 [of minute t0] by linarith
  moreover have "Truncate (t0 + minute) minute = (t0 + minute) div minute * minute"
    unfolding Truncate_def using minus_mod_eq_div_mult by blast
  ultimately show ?thesis by simp
qed

lemma scanned:
  "(\<exists>k < maxIter. u = Truncate (t0 + minute) minute + int k * minute)
    \<longleftrightarrow> minute dvd u \<and> t0 < u \<and> u \<le> t0 + int maxIter * minute"
proof -
  define q where "q = t0 div minute"
  have q: "q * minute \<le> t0" "t0 < (q + 1) * minute"
    using div_mult_mod_eq [of t0 minute] pos_mod_bound [OF minute_pos, of t0] pos_mod_sign [OF minute_pos, of t0]
    unfolding q_def distrib_right by linarith+
  have lower: "t0 < v * minute \<longleftrightarrow> q + 1 \<le> v" for v
  proof
    assume "t0 < v * minute"
    then have "q * minute < v * minute" using q(1) by linarith
    then show "q + 1 \<le> v" using minute_pos by (simp add: mult_less_cancel_right)
  next
    assume "q + 1 \<le> v"
    then have "(q + 1) * minute \<le> v * minute" by (rule mult_right_mono [OF _ less_imp_le [OF minute_pos]])
    then show "t0 < v * minute" using q(2) by linarith
  qed
  have upper: "v * minute \<le> t0 + int n * minute \<longleftrightarrow> v \<le> q + int n" for v n
    using lower [of "v - int n"] by (auto simp: algebra_simps)
  show ?thesis
  proof
    assume "\<exists>k < maxIter. u = Truncate (t0 + minute) minute + int k * minute"
    then obtain k where "k < maxIter" "u = (q + 1 + int k) * minute"
      unfolding firstMinute q_def [symmetric] by (auto simp: algebra_simps)
    then show "minute dvd u \<and> t0 < u \<and> u \<le> t0 + int maxIter * minute"
      by (simp add: lower upper)
  next
    assume u: "minute dvd u \<and> t0 < u \<and> u \<le> t0 + int maxIter * minute"
    then obtain v where v: "u = v * minute" by (metis dvd_def mult.commute)
    then have "q + 1 \<le> v" "v \<le> q + int maxIter" using u lower upper by auto
    then show "\<exists>k < maxIter. u = Truncate (t0 + minute) minute + int k * minute"
      unfolding firstMinute q_def [symmetric] v
      by (intro exI [of _ "nat (v - (q + 1))"]) (auto simp: algebra_simps)
  qed
qed

lemma scanned_before:
  assumes "u = Truncate (t0 + minute) minute + int k * minute" "k < maxIter"
  shows "(\<exists>j < k. w = Truncate (t0 + minute) minute + int j * minute) \<longleftrightarrow> minute dvd w \<and> t0 < w \<and> w < u"
proof
  assume "\<exists>j < k. w = Truncate (t0 + minute) minute + int j * minute"
  then obtain j where j: "j < k" "w = Truncate (t0 + minute) minute + int j * minute" by blast
  then have "minute dvd w \<and> t0 < w" using scanned [of w t0] assms(2) by (auto intro: exI [of _ j])
  moreover have "w < u" using j assms(1) minute_pos by simp
  ultimately show "minute dvd w \<and> t0 < w \<and> w < u" by simp
next
  assume w: "minute dvd w \<and> t0 < w \<and> w < u"
  have "u \<le> t0 + int maxIter * minute" using scanned [of u t0] assms by blast
  then obtain j where j: "j < maxIter" "w = Truncate (t0 + minute) minute + int j * minute"
    using scanned [of w t0] w by auto
  then have "int j * minute < int k * minute" using w assms(1) by linarith
  then have "j < k" using minute_pos by simp
  then show "\<exists>j < k. w = Truncate (t0 + minute) minute + int j * minute" using j by blast
qed

lemma nextCronTime_Some:
  "nextCronTime zone s t0 = Some u \<longleftrightarrow>
     minute dvd u \<and> t0 < u \<and> u \<le> t0 + int maxIter * minute \<and> cronMatches zone s u
     \<and> (\<forall>w. minute dvd w \<and> t0 < w \<and> w < u \<longrightarrow> \<not> cronMatches zone s w)"
proof -
  have "(\<forall>j < k. \<not> cronMatches zone s (Truncate (t0 + minute) minute + int j * minute))
    \<longleftrightarrow> (\<forall>w. minute dvd w \<and> t0 < w \<and> w < u \<longrightarrow> \<not> cronMatches zone s w)"
    if "u = Truncate (t0 + minute) minute + int k * minute" "k < maxIter" for k
    unfolding scanned_before [OF that, symmetric] by blast
  then show ?thesis
    unfolding nextCronTime_def cronLoop_Some using scanned [of u t0] by blast
qed

lemma nextCronTime_None:
  "nextCronTime zone s t0 = None \<longleftrightarrow>
     (\<forall>w. minute dvd w \<and> t0 < w \<and> w \<le> t0 + int maxIter * minute \<longrightarrow> \<not> cronMatches zone s w)"
  unfolding nextCronTime_def cronLoop_None scanned [symmetric] by blast

section \<open>What an expression denotes\<close>

datatype cron_term = Single nat | Range nat nat

datatype cron_field = Star | StarStep nat | RangeStep nat nat nat | Terms "cron_term list"

fun print_term :: "cron_term \<Rightarrow> string" where
  "print_term (Single a) = show_nat a"
| "print_term (Range a b) = show_nat a @ ''-'' @ show_nat b"

fun print_field :: "cron_field \<Rightarrow> string" where
  "print_field Star = ''*''"
| "print_field (StarStep n) = ''*'' @ ''/'' @ show_nat n"
| "print_field (RangeStep a b n) = print_term (Range a b) @ ''/'' @ show_nat n"
| "print_field (Terms ts) = Join (map print_term ts) '',''"

fun term_ok :: "nat \<Rightarrow> nat \<Rightarrow> cron_term \<Rightarrow> bool" where
  "term_ok mn mx (Single a) \<longleftrightarrow> mn \<le> a \<and> a \<le> mx"
| "term_ok mn mx (Range a b) \<longleftrightarrow> mn \<le> a \<and> a \<le> b \<and> b \<le> mx"

definition step_ok :: "nat \<Rightarrow> bool" where
  "step_ok n \<longleftrightarrow> 0 < n \<and> int n \<le> go_int_max"

fun field_ok :: "nat \<Rightarrow> nat \<Rightarrow> cron_field \<Rightarrow> bool" where
  "field_ok mn mx Star \<longleftrightarrow> True"
| "field_ok mn mx (StarStep n) \<longleftrightarrow> step_ok n"
| "field_ok mn mx (RangeStep a b n) \<longleftrightarrow> term_ok mn mx (Range a b) \<and> step_ok n"
| "field_ok mn mx (Terms ts) \<longleftrightarrow> ts \<noteq> [] \<and> list_all (term_ok mn mx) ts"

fun in_term :: "cron_term \<Rightarrow> int \<Rightarrow> bool" where
  "in_term (Single a) v \<longleftrightarrow> v = int a"
| "in_term (Range a b) v \<longleftrightarrow> int a \<le> v \<and> v \<le> int b"

fun in_field :: "nat \<Rightarrow> nat \<Rightarrow> cron_field \<Rightarrow> int \<Rightarrow> bool" where
  "in_field mn mx Star v \<longleftrightarrow> True"
| "in_field mn mx (StarStep n) v \<longleftrightarrow> int mn \<le> v \<and> v \<le> int mx \<and> int n dvd v - int mn"
| "in_field mn mx (RangeStep a b n) v \<longleftrightarrow> int a \<le> v \<and> v \<le> int b \<and> int n dvd v - int a"
| "in_field mn mx (Terms ts) v \<longleftrightarrow> list_ex (\<lambda>t. in_term t v) ts"

lemma everyNth_upto: "0 < n \<Longrightarrow> set (everyNth n [a..b]) = {v. a \<le> v \<and> v \<le> b \<and> int n dvd v - a}"
proof (induction "nat (b - a + 1)" arbitrary: a rule: less_induct)
  case less
  show ?case
  proof (cases "a \<le> b")
    case True
    have d: "drop k [c..b] = [c + int k..b]" for k c
    proof (induction k arbitrary: c)
      case (Suc k)
      then show ?case
        by (cases "c \<le> b") (simp_all add: upto_rec1 algebra_simps)
    qed simp
    have "a + 1 + int (n - 1) = a + int n" using less.prems by simp
    then have "everyNth n [a..b] = a # everyNth n [a + int n..b]"
      using True by (simp add: upto_rec1 d)
    moreover have "set (everyNth n [a + int n..b]) = {v. a + int n \<le> v \<and> v \<le> b \<and> int n dvd v - (a + int n)}"
      using less.prems True by (intro less.hyps) auto
    moreover have "int n dvd v - (a + int n) \<longleftrightarrow> int n dvd v - a" for v
      using dvd_add_triv_right_iff [of "int n" "v - (a + int n)"] by (simp add: algebra_simps)
    moreover have "a \<le> v \<and> int n dvd v - a \<longleftrightarrow> v = a \<or> a + int n \<le> v \<and> int n dvd v - a" for v
      using zdvd_imp_le [of "int n" "v - a"] less.prems by auto
    ultimately show ?thesis using True by auto
  qed simp
qed

lemma fieldMatches_step:
  assumes "0 < n" "a \<le> b"
  shows "fieldMatches \<lparr>fm_values = set (everyNth n [a..b]), fm_any = (set (everyNth n [a..b]) = {})\<rparr> v
    \<longleftrightarrow> a \<le> v \<and> v \<le> b \<and> int n dvd v - a"
proof -
  have "a \<in> set (everyNth n [a..b])" unfolding everyNth_upto [OF assms(1)] using assms(2) by simp
  then have "(set (everyNth n [a..b]) = {}) = False" by auto
  then show ?thesis unfolding fieldMatches_def by (simp only: everyNth_upto [OF assms(1)]) simp
qed

lemma everyNth_one: "everyNth 1 xs = xs"
  by (induction xs) simp_all

lemma show_nat_no: "\<not> isDigit c \<Longrightarrow> c \<notin> set (show_nat n)"
  using show_nat_chars by blast

lemma not_digits [simp]:
  "\<not> isDigit CHR ''-''" "\<not> isDigit CHR ''/''" "\<not> isDigit CHR '',''" "\<not> isDigit CHR ''*''"
  by (simp_all add: isDigit_def less_eq_char_byte)

lemma cronPart_print:
  assumes "term_ok mn mx t" "mx \<le> 59"
  shows "\<exists>vs. cronPart (int mn) (int mx) (print_term t) = Inr vs \<and> vs \<noteq> [] \<and> (\<forall>v. v \<in> set vs \<longleftrightarrow> in_term t v)"
proof -
  have num: "Atoi (show_nat a) = Some (int a)" if "a \<le> 59" for a
    using that by (intro Atoi_show_nat) (simp add: go_int_max_def)
  show ?thesis
  proof (cases t)
    case (Single a)
    then show ?thesis using assms num [of a] by (simp add: cronPart_def show_nat_no)
  next
    case (Range a b)
    then show ?thesis using assms num [of a] num [of b]
      by (simp add: cronPart_def show_nat_no CutByte_first)
  qed
qed

lemma cronParts_print:
  assumes "list_all (term_ok mn mx) ts" "mx \<le> 59"
  shows "\<exists>vs. cronParts (int mn) (int mx) (map print_term ts) acc = Inr (acc @ vs) \<and> length ts \<le> length vs
    \<and> (\<forall>v. v \<in> set vs \<longleftrightarrow> list_ex (\<lambda>t. in_term t v) ts)"
  using assms(1)
proof (induction ts arbitrary: acc)
  case (Cons t ts)
  obtain us where us: "cronPart (int mn) (int mx) (print_term t) = Inr us" "us \<noteq> []" "\<forall>v. v \<in> set us \<longleftrightarrow> in_term t v"
    using cronPart_print [of mn mx t] Cons.prems assms(2) by auto
  obtain vs where vs: "cronParts (int mn) (int mx) (map print_term ts) (acc @ us) = Inr ((acc @ us) @ vs)"
    "length ts \<le> length vs" "\<forall>v. v \<in> set vs \<longleftrightarrow> list_ex (\<lambda>t. in_term t v) ts"
    using Cons.IH [of "acc @ us"] Cons.prems by auto
  have "length (t # ts) \<le> length (us @ vs)" using us(2) vs(2) by (cases us) auto
  then show ?case using us vs by (intro exI [of _ "us @ vs"]) auto
qed simp

lemma print_term_chars: "c \<in> set (print_term t) \<Longrightarrow> isDigit c \<or> c = CHR ''-''"
  using show_nat_chars by (cases t) auto

lemma print_term_no:
  "CHR '','' \<notin> set (print_term t)" "CHR ''/'' \<notin> set (print_term t)" "CHR ''*'' \<notin> set (print_term t)"
  using print_term_chars [of _ t] not_digits by fastforce+

lemma print_term_nonempty [simp]: "print_term t \<noteq> []"
  using show_nat_digits by (cases t) auto

lemma not_star: "CHR ''*'' \<notin> set s \<Longrightarrow> s \<noteq> ''*''"
  by auto

lemma Join_chars: "c \<in> set (Join ps sep) \<Longrightarrow> c \<in> set sep \<or> (\<exists>p \<in> set ps. c \<in> set p)"
  using set_Join [of ps sep] by blast

lemma Join_terms_no: "CHR ''/'' \<notin> set (Join (map print_term ts) '','')" "CHR ''*'' \<notin> set (Join (map print_term ts) '','')"
  using Join_chars [of _ "map print_term ts" "'',''"] print_term_no by fastforce+

lemma Atoi_step: "step_ok n \<Longrightarrow> Atoi (show_nat n) = Some (int n)"
  by (intro Atoi_show_nat) (simp add: step_ok_def)

lemma parseCronField_print:
  assumes "field_ok mn mx f" "mn \<le> mx" "mx \<le> 59"
  shows "\<exists>m. parseCronField (print_field f) (int mn) (int mx) = Inr m \<and> (\<forall>v. fieldMatches m v \<longleftrightarrow> in_field mn mx f v)"
proof (cases f)
  case Star
  then show ?thesis by (simp add: parseCronField_def fieldMatches_def)
next
  case (StarStep n)
  then have n: "step_ok n" "0 < n" using assms by (simp_all add: step_ok_def)
  have sp: "SplitByte (print_field f) CHR ''/'' = [''*'', show_nat n]"
    using StarStep by (simp add: SplitByte_none show_nat_no)
  show ?thesis unfolding parseCronField_def sp
    using StarStep n fieldMatches_step [of n "int mn" "int mx"] assms(2)
    by (simp add: cronStep_def Atoi_step Let_def del: set_empty)
next
  case (RangeStep a b n)
  then have n: "step_ok n" "0 < n" using assms by (simp_all add: step_ok_def)
  have sp: "SplitByte (print_field f) CHR ''/'' = [print_term (Range a b), show_nat n]"
    using RangeStep SplitByte_append [OF print_term_no(2), of "Range a b" "show_nat n"]
    by (simp add: SplitByte_none show_nat_no)
  have "CHR ''*'' \<notin> set (print_field f)"
    using print_term_no(3) [of "Range a b"] RangeStep by (simp add: show_nat_no)
  then have ns: "print_field f \<noteq> ''*''" "print_term (Range a b) \<noteq> ''*''"
    using print_term_no(3) [of "Range a b"] not_star by blast+
  have one: "cronParts (int mn) (int mx) (SplitByte (print_term (Range a b)) CHR '','') [] = Inr [int a..int b]"
  proof -
    have "int a \<le> go_int_max" "int b \<le> go_int_max" using RangeStep assms by (auto simp: go_int_max_def)
    then have "cronPart (int mn) (int mx) (print_term (Range a b)) = Inr [int a..int b]"
      using RangeStep assms by (simp add: cronPart_def show_nat_no CutByte_first Atoi_show_nat)
    then show ?thesis by (simp add: SplitByte_none print_term_no del: print_term.simps)
  qed
  show ?thesis unfolding parseCronField_def sp
    using RangeStep n ns one fieldMatches_step [of n "int a" "int b"] assms(1)
    by (simp add: cronStep_def Atoi_step Let_def del: set_empty print_term.simps print_field.simps)
next
  case (Terms ts)
  then have ts: "ts \<noteq> []" "list_all (term_ok mn mx) ts" using assms by simp_all
  have sp: "SplitByte (print_field f) CHR ''/'' = [print_field f]"
    using Terms Join_terms_no(1) by (simp add: SplitByte_none)
  have ns: "print_field f \<noteq> ''*''" using Terms Join_terms_no(2) [of ts] by auto
  have sc: "SplitByte (print_field f) CHR '','' = map print_term ts"
    using SplitByte_Join [of "map print_term ts" "CHR '',''"] Terms ts(1) print_term_no(1) by auto
  obtain vs where vs: "cronParts (int mn) (int mx) (map print_term ts) [] = Inr vs" "length ts \<le> length vs"
    "\<forall>v. v \<in> set vs \<longleftrightarrow> list_ex (\<lambda>t. in_term t v) ts"
    using cronParts_print [OF ts(2) assms(3), of "[]"] by auto
  have "vs \<noteq> []" using vs(2) ts(1) by (cases ts) auto
  then have "parseCronField (print_field f) (int mn) (int mx) = Inr \<lparr>fm_values = set vs, fm_any = False\<rparr>"
    unfolding parseCronField_def sp using ns sc vs(1) everyNth_one [of vs]
    by (simp add: cronStep_def Let_def del: print_field.simps)
  then show ?thesis using vs(3) Terms by (simp add: fieldMatches_def)
qed

lemma print_term_word: "c \<in> set (print_term t) \<Longrightarrow> \<not> is_space c"
  using print_term_chars [of c t] digit_no_space [of c] by (auto simp: is_space_def)

lemma print_field_word:
  assumes "field_ok mn mx f"
  shows "word (print_field f)"
proof (cases f)
  case (RangeStep a b n)
  have "\<not> is_space CHR ''/''" by (simp add: is_space_def)
  then show ?thesis unfolding word_def
    using RangeStep print_term_word [of _ "Range a b"] show_nat_chars [of _ n] digit_no_space
    by (auto simp del: print_term.simps)
next
  case (StarStep n)
  have "\<not> is_space CHR ''/''" "\<not> is_space CHR ''*''" by (simp_all add: is_space_def)
  then show ?thesis unfolding word_def using StarStep show_nat_chars [of _ n] digit_no_space by auto
next
  case (Terms ts)
  then obtain t us where ts: "ts = t # us" using assms by (cases ts) auto
  have "Join (map print_term ts) '','' \<noteq> []" using ts print_term_nonempty [of t] by (cases us) simp_all
  moreover have "\<not> is_space c" if "c \<in> set (Join (map print_term ts) '','')" for c
    using Join_chars [OF that] print_term_word [of c] by (auto simp: is_space_def)
  ultimately show ?thesis unfolding word_def using Terms by simp
qed (simp add: word_def is_space_def)

record cron =
  c_minute :: cron_field
  c_hour :: cron_field
  c_dayOfMonth :: cron_field
  c_month :: cron_field
  c_dayOfWeek :: cron_field

definition print_cron :: "cron \<Rightarrow> string" where
  "print_cron c = Join [print_field (c_minute c), print_field (c_hour c), print_field (c_dayOfMonth c),
     print_field (c_month c), print_field (c_dayOfWeek c)] '' ''"

definition cron_ok :: "cron \<Rightarrow> bool" where
  "cron_ok c \<longleftrightarrow> field_ok 0 59 (c_minute c) \<and> field_ok 0 23 (c_hour c) \<and> field_ok 1 31 (c_dayOfMonth c)
     \<and> field_ok 1 12 (c_month c) \<and> field_ok 0 6 (c_dayOfWeek c)"

definition on_schedule :: "zone \<Rightarrow> cron \<Rightarrow> int \<Rightarrow> bool" where
  "on_schedule zone c t \<longleftrightarrow> in_field 0 59 (c_minute c) (Minute zone t) \<and> in_field 0 23 (c_hour c) (Hour zone t)
     \<and> in_field 1 31 (c_dayOfMonth c) (Day zone t) \<and> in_field 1 12 (c_month c) (Month zone t)
     \<and> in_field 0 6 (c_dayOfWeek c) (Weekday zone t)"

lemma parseCron_print:
  assumes "cron_ok c"
  shows "\<exists>s. parseCron (print_cron c) = Inr s \<and> (\<forall>zone t. cronMatches zone s t \<longleftrightarrow> on_schedule zone c t)"
proof -
  have fs: "Fields (print_cron c) = [print_field (c_minute c), print_field (c_hour c), print_field (c_dayOfMonth c),
     print_field (c_month c), print_field (c_dayOfWeek c)]"
    unfolding print_cron_def using assms print_field_word by (intro Fields_Join) (auto simp: cron_ok_def)
  obtain mi where mi: "parseCronField (print_field (c_minute c)) 0 59 = Inr mi"
      "\<forall>v. fieldMatches mi v \<longleftrightarrow> in_field 0 59 (c_minute c) v"
    using parseCronField_print [of 0 59 "c_minute c"] assms by (auto simp: cron_ok_def)
  obtain ho where ho: "parseCronField (print_field (c_hour c)) 0 23 = Inr ho"
      "\<forall>v. fieldMatches ho v \<longleftrightarrow> in_field 0 23 (c_hour c) v"
    using parseCronField_print [of 0 23 "c_hour c"] assms by (auto simp: cron_ok_def)
  obtain dm where dm: "parseCronField (print_field (c_dayOfMonth c)) 1 31 = Inr dm"
      "\<forall>v. fieldMatches dm v \<longleftrightarrow> in_field 1 31 (c_dayOfMonth c) v"
    using parseCronField_print [of 1 31 "c_dayOfMonth c"] assms by (auto simp: cron_ok_def)
  obtain mo where mo: "parseCronField (print_field (c_month c)) 1 12 = Inr mo"
      "\<forall>v. fieldMatches mo v \<longleftrightarrow> in_field 1 12 (c_month c) v"
    using parseCronField_print [of 1 12 "c_month c"] assms by (auto simp: cron_ok_def)
  obtain dw where dw: "parseCronField (print_field (c_dayOfWeek c)) 0 6 = Inr dw"
      "\<forall>v. fieldMatches dw v \<longleftrightarrow> in_field 0 6 (c_dayOfWeek c) v"
    using parseCronField_print [of 0 6 "c_dayOfWeek c"] assms by (auto simp: cron_ok_def)
  show ?thesis unfolding parseCron_def fs
    using mi ho dm mo dw by (auto simp: cronMatches_def on_schedule_def)
qed

lemma computeNextRun_print:
  assumes "cron_ok c"
  obtains s where "\<And>t. cronMatches zone s t \<longleftrightarrow> on_schedule zone c t"
    "computeNextRun zone (print_cron c) now =
      (case nextCronTime zone s now of None \<Rightarrow> Inl (NoMatchingTime (print_cron c)) | Some t \<Rightarrow> Inr t)"
proof -
  obtain s where "parseCron (print_cron c) = Inr s" "\<And>zone t. cronMatches zone s t \<longleftrightarrow> on_schedule zone c t"
    using parseCron_print [OF assms] by blast
  then show thesis using that [of s] by (simp add: computeNextRun_def)
qed

lemma int_maxIter: "int maxIter = 525960"
  by (simp add: maxIter_def)

lemma computeNextRun_match:
  assumes "cron_ok c" "computeNextRun zone (print_cron c) now = Inr t"
  shows "minute dvd t \<and> now < t \<and> t \<le> now + 525960 * minute \<and> on_schedule zone c t
    \<and> (\<forall>w. minute dvd w \<and> now < w \<and> w < t \<longrightarrow> \<not> on_schedule zone c w)"
proof -
  obtain s where s: "\<And>t. cronMatches zone s t \<longleftrightarrow> on_schedule zone c t"
    "computeNextRun zone (print_cron c) now =
      (case nextCronTime zone s now of None \<Rightarrow> Inl (NoMatchingTime (print_cron c)) | Some t \<Rightarrow> Inr t)"
    using computeNextRun_print [OF assms(1)] by blast
  then have "nextCronTime zone s now = Some t" using assms(2) by (cases "nextCronTime zone s now") auto
  then show ?thesis unfolding nextCronTime_Some s(1) int_maxIter by blast
qed

lemma computeNextRun_error:
  assumes "cron_ok c" "computeNextRun zone (print_cron c) now = Inl e"
  shows "e = NoMatchingTime (print_cron c)
    \<and> (\<forall>w. minute dvd w \<and> now < w \<and> w \<le> now + 525960 * minute \<longrightarrow> \<not> on_schedule zone c w)"
proof -
  obtain s where s: "\<And>t. cronMatches zone s t \<longleftrightarrow> on_schedule zone c t"
    "computeNextRun zone (print_cron c) now =
      (case nextCronTime zone s now of None \<Rightarrow> Inl (NoMatchingTime (print_cron c)) | Some t \<Rightarrow> Inr t)"
    using computeNextRun_print [OF assms(1)] by blast
  then have "nextCronTime zone s now = None" "e = NoMatchingTime (print_cron c)"
    using assms(2) by (cases "nextCronTime zone s now"; simp)+
  then show ?thesis unfolding nextCronTime_None s(1) int_maxIter by blast
qed

text \<open>
  C27: an expression written from a cron description (stars, steps, ranges, lists) is accepted, and the next
  run computed from it is the least whole minute after now at which month, day, weekday, hour and minute of the
  location all match the description; the only error is that no minute of the next 365.25 days matches.
\<close>

theorem computeNextRun_exact:
  assumes "cron_ok c"
  shows "case computeNextRun zone (print_cron c) now of
      Inr t \<Rightarrow> minute dvd t \<and> now < t \<and> t \<le> now + 525960 * minute \<and> on_schedule zone c t
        \<and> (\<forall>w. minute dvd w \<and> now < w \<and> w < t \<longrightarrow> \<not> on_schedule zone c w)
    | Inl e \<Rightarrow> e = NoMatchingTime (print_cron c)
        \<and> (\<forall>w. minute dvd w \<and> now < w \<and> w \<le> now + 525960 * minute \<longrightarrow> \<not> on_schedule zone c w)"
  using computeNextRun_match [OF assms] computeNextRun_error [OF assms] by (simp split: sum.split)

section \<open>Concrete schedules\<close>

definition utc :: zone where "utc = (\<lambda>_. 0)"

definition everyFive :: cron where
  "everyFive = \<lparr>c_minute = StarStep 5, c_hour = Star, c_dayOfMonth = Star, c_month = Star, c_dayOfWeek = Star\<rparr>"

definition yearly :: cron where
  "yearly = \<lparr>c_minute = Terms [Single 0], c_hour = Terms [Single 0], c_dayOfMonth = Terms [Single 1],
     c_month = Terms [Single 1], c_dayOfWeek = Star\<rparr>"

lemma everyFive_text: "print_cron everyFive = ''*/5 * * * *''"
  by code_simp

lemma yearly_text: "print_cron yearly = ''0 0 1 1 *''"
  by code_simp

lemma everyFive_ok: "cron_ok everyFive"
  by (simp add: cron_ok_def everyFive_def step_ok_def go_int_max_def)

lemma yearly_ok: "cron_ok yearly"
  by (simp add: cron_ok_def yearly_def)

theorem computeNextRun_exact_witness:
  "cron_ok everyFive \<and>
   (case computeNextRun utc (print_cron everyFive) 1780308180000000000 of
      Inr t \<Rightarrow> minute dvd t \<and> 1780308180000000000 < t \<and> t \<le> 1780308180000000000 + 525960 * minute
        \<and> on_schedule utc everyFive t
        \<and> (\<forall>w. minute dvd w \<and> 1780308180000000000 < w \<and> w < t \<longrightarrow> \<not> on_schedule utc everyFive w)
    | Inl e \<Rightarrow> e = NoMatchingTime (print_cron everyFive)
        \<and> (\<forall>w. minute dvd w \<and> 1780308180000000000 < w \<and> w \<le> 1780308180000000000 + 525960 * minute
              \<longrightarrow> \<not> on_schedule utc everyFive w))"
  using computeNextRun_exact [OF everyFive_ok, where zone = utc and now = 1780308180000000000] everyFive_ok by blast

text \<open>The cases of the repository's own tests; 1 June 2026, 10:03 and 14:00 UTC.\<close>

lemma nextCronTime_first:
  "cronMatches zone s (Truncate (t0 + minute) minute) \<Longrightarrow> nextCronTime zone s t0 = Some (Truncate (t0 + minute) minute)"
  unfolding nextCronTime_def maxIter_def by (simp add: cronLoop_Some) (rule exI [of _ 0], simp)

lemma next_five_minutes: "computeNextRun utc ''*/5 * * * *'' 1780308180000000000 = Inr 1780308300000000000"
proof -
  obtain s where s: "parseCron (print_cron everyFive) = Inr s" "\<And>zone t. cronMatches zone s t \<longleftrightarrow> on_schedule zone everyFive t"
    using parseCron_print [OF everyFive_ok] by blast
  have "nextCronTime utc s 1780308180000000000 = Some 1780308300000000000"
    unfolding nextCronTime_def cronLoop_Some s(2)
    by (rule exI [of _ 1])
      (simp add: maxIter_def Truncate_def minute_def second_def on_schedule_def everyFive_def Minute_def localSeconds_def utc_def)
  then show ?thesis using s(1) everyFive_text by (simp add: computeNextRun_def)
qed

lemma rejected_expressions:
  "parseCron ''* * *'' = Inl (FieldCount 3)"
  "parseCron ''* * * * * *'' = Inl (FieldCount 6)"
  "parseCron ''60 * * * *'' = Inl (InField ''minute'' (InvalidValue ''60''))"
  "parseCron ''* 25 * * *'' = Inl (InField ''hour'' (InvalidValue ''25''))"
  "parseCron ''abc * * * *'' = Inl (InField ''minute'' (InvalidValue ''abc''))"
  "parseCron ''0-60 * * * *'' = Inl (InField ''minute'' (InvalidRange ''0-60''))"
  by code_simp+

text \<open>
  A yearly schedule has no next run for the first eighteen hours of a leap year: the search covers 365.25 days,
  the next occurrence is 366 days away. 21184 is 1 January 2028.
\<close>

lemma div_between: "q * n \<le> x \<Longrightarrow> x < (q + 1) * n \<Longrightarrow> 0 < n \<Longrightarrow> x div n = q" for x n q :: int
  by (rule int_div_pos_eq [where r = "x - q * n"]) (simp_all add: algebra_simps)

lemma no_new_year:
  assumes "21185 \<le> d" "d \<le> 21549"
  shows "\<not> (fst (snd (civil d)) = 1 \<and> snd (snd (civil d)) = 1)"
proof -
  define e where "e = d - 11017"
  have e: "10168 \<le> e" "e \<le> 10532" using assms by (simp_all add: e_def)
  have era: "(d + 719468) div 146097 = 5" using assms by (intro div_between) simp_all
  have doe: "(d + 719468) mod 146097 = e"
    using div_mult_mod_eq [of "d + 719468" 146097] era by (simp add: e_def)
  have small: "e div 36524 = 0" "e div 146096 = 0" using e by simp_all
  have quad: "e div 1460 = (if e < 10220 then 6 else 7)" using e by (auto intro: div_between)
  have yoe: "(e - e div 1460 + e div 36524 - e div 146096) div 365 = (if e < 10227 then 27 else 28)"
    unfolding small quad using e by (auto intro: div_between)
  show ?thesis
  proof (cases "e < 10227")
    case True
    have "(5 * (e - 9861) + 2) div 153 = 10 \<or> (5 * (e - 9861) + 2) div 153 = 11"
      using e True div_between [of 10 153 "5 * (e - 9861) + 2"] div_between [of 11 153 "5 * (e - 9861) + 2"]
      by (cases "e \<le> 10197") simp_all
    then show ?thesis unfolding civil_def doe era Let_def yoe using True e by auto
  next
    case False
    have "(5 * (e - 10227) + 2) div 153 \<le> 9" using e False zdiv_mono1 [of "5 * (e - 10227) + 2" 1529 153] by simp
    moreover have "0 \<le> (5 * (e - 10227) + 2) div 153" using False by (simp add: pos_imp_zdiv_nonneg_iff)
    ultimately show ?thesis unfolding civil_def doe era Let_def yoe using False e by auto
  qed
qed

lemma leap_year_minutes:
  assumes w: "minute dvd w" "now < w" "w \<le> now + 525960 * minute"
    and now: "21184 * 24 * hour \<le> now" "now < 21184 * 24 * hour + 18 * hour"
  shows "\<not> on_schedule utc yearly w"
proof
  assume on: "on_schedule utc yearly w"
  obtain k where k: "w = minute * k" using w(1) by blast
  have sec: "w div second = 60 * k" unfolding k by (simp add: minute_def second_def)
  have bounds: "21184 * 1440 < k" "k < 21550 * 1440"
    using w(2,3) now unfolding k by (simp_all add: minute_def second_def hour_def)
  have d: "60 * k div 86400 = k div 1440" "60 * k mod 86400 = 60 * (k mod 1440)" "60 * k mod 3600 = 60 * (k mod 60)"
    using div_mult_mult1 [of 60 k 1440] mult_mod_right [of 60 k 1440] mult_mod_right [of 60 k 60] by simp_all
  have q: "60 * (k mod 60) div 60 = k mod 60" "60 * (k mod 1440) div 3600 = k mod 1440 div 60"
    using div_mult_mult1 [of 60 "k mod 1440" 60] by simp_all
  have date: "fst (snd (civil (k div 1440))) = 1 \<and> snd (snd (civil (k div 1440))) = 1"
    and time: "k mod 60 = 0" "k mod 1440 div 60 = 0"
    using on by (simp_all add: on_schedule_def yearly_def utc_def Hour_def Minute_def Month_def Day_def localDay_def
        localSeconds_def sec d q)
  define r where "r = k mod 1440"
  have "r mod 60 = 0" using time(1) by (simp add: r_def mod_mod_cancel)
  then have "r = 0" using time(2) div_mult_mod_eq [of r 60] unfolding r_def [symmetric] by simp
  then have "k = 1440 * (k div 1440)" using div_mult_mod_eq [of k 1440] by (simp add: r_def)
  then have "21185 \<le> k div 1440" "k div 1440 \<le> 21549" using bounds by linarith+
  then show False using no_new_year date by blast
qed

lemma leap_year_has_no_next:
  assumes "21184 * 24 * hour \<le> now" "now < 21184 * 24 * hour + 18 * hour"
  shows "computeNextRun utc ''0 0 1 1 *'' now = Inl (NoMatchingTime ''0 0 1 1 *'')"
proof (cases "computeNextRun utc (print_cron yearly) now")
  case (Inl e)
  then show ?thesis using computeNextRun_error [OF yearly_ok Inl] yearly_text by simp
next
  case (Inr t)
  then show ?thesis using computeNextRun_match [OF yearly_ok Inr] leap_year_minutes [OF _ _ _ assms] by blast
qed

end
