(* ===== verification/Scheduler.thy ===== *)
theory Scheduler
  imports Cron Scan_Handlers
begin

text \<open>
  Scheduled scans: the table \<^verbatim>\<open>scheduled_scans\<close> (\<^verbatim>\<open>internal/server/db/schedule.go\<close>), its handlers
  (\<^verbatim>\<open>internal/server/api/schedule_handlers.go\<close>) and the tick that turns due schedules into scan requests
  (\<^verbatim>\<open>internal/server/api/scheduler.go\<close>). Times are nanoseconds here and seconds in the request table. Any
  statement of the tick may fail: the record \<open>tick_faults\<close> says which.
\<close>

section \<open>The table\<close>

record ScheduledScan =
  ss_id :: string
  ss_name :: string
  ss_cron :: string
  ss_type :: string
  ss_filter :: string
  ss_packagesOnly :: bool
  ss_enabled :: bool
  ss_lastRun :: "int option"
  ss_nextRun :: "int option"

datatype schedule_error = ConstraintViolation | ScheduledScanNotFound

text \<open>Migration 044: the primary key and the check on the scan type.\<close>

definition CreateScheduledScan :: "ScheduledScan \<Rightarrow> ScheduledScan list \<Rightarrow> schedule_error + ScheduledScan list" where
  "CreateScheduledScan s rows =
     (if list_ex (\<lambda>r. ss_id r = ss_id s) rows \<or> \<not> validScanRequestType (ss_type s) then Inl ConstraintViolation
      else Inr (rows @ [s\<lparr>ss_lastRun := None\<rparr>]))"

definition GetScheduledScan :: "string \<Rightarrow> ScheduledScan list \<Rightarrow> ScheduledScan option" where
  "GetScheduledScan k rows = find (\<lambda>r. ss_id r = k) rows"

definition ListScheduledScans :: "ScheduledScan list \<Rightarrow> ScheduledScan list" where
  "ListScheduledScans rows = sort_key ss_name rows"

definition UpdateScheduledScan :: "ScheduledScan \<Rightarrow> ScheduledScan list \<Rightarrow> schedule_error + ScheduledScan list" where
  "UpdateScheduledScan s rows =
     (if \<not> list_ex (\<lambda>r. ss_id r = ss_id s) rows then Inl ScheduledScanNotFound
      else if \<not> validScanRequestType (ss_type s) then Inl ConstraintViolation
      else Inr (map (\<lambda>r. if ss_id r = ss_id s then s\<lparr>ss_lastRun := ss_lastRun r\<rparr> else r) rows))"

definition DeleteScheduledScan :: "string \<Rightarrow> ScheduledScan list \<Rightarrow> schedule_error + ScheduledScan list" where
  "DeleteScheduledScan k rows =
     (if \<not> list_ex (\<lambda>r. ss_id r = k) rows then Inl ScheduledScanNotFound
      else Inr (filter (\<lambda>r. ss_id r \<noteq> k) rows))"

definition UpdateScheduledScanRunTimes :: "string \<Rightarrow> int \<Rightarrow> int \<Rightarrow> ScheduledScan list \<Rightarrow> ScheduledScan list" where
  "UpdateScheduledScanRunTimes k lastRun nextRun rows =
     map (\<lambda>r. if ss_id r = k then r\<lparr>ss_lastRun := Some lastRun, ss_nextRun := Some nextRun\<rparr> else r) rows"

definition due :: "int \<Rightarrow> ScheduledScan \<Rightarrow> bool" where
  "due now s \<longleftrightarrow> ss_enabled s \<and> (case ss_nextRun s of None \<Rightarrow> False | Some t \<Rightarrow> t \<le> now)"

definition GetDueScheduledScans :: "int \<Rightarrow> ScheduledScan list \<Rightarrow> ScheduledScan list" where
  "GetDueScheduledScans now rows = sort_key (\<lambda>s. the (ss_nextRun s)) (filter (due now) rows)"

section \<open>One tick\<close>

text \<open>\<open>w_hosts\<close> are id and name of the hosts in the order of their names.\<close>

record sched_world =
  w_server :: server
  w_schedules :: "ScheduledScan list"
  w_hosts :: "(string \<times> string) list"

record tick_faults =
  tf_due :: bool
  tf_hosts :: "string \<Rightarrow> bool"
  tf_create :: "string \<Rightarrow> string \<Rightarrow> bool"
  tf_update :: "string \<Rightarrow> bool"

definition expandHostFilter :: "string \<Rightarrow> (string \<times> string) list \<Rightarrow> string list" where
  "expandHostFilter hostFilter hosts =
     (if hostFilter = [] then map fst hosts
      else
        (let wanted = filter (\<lambda>f. f \<noteq> []) (map TrimSpace (SplitByte hostFilter CHR '',''))
         in map fst (filter (\<lambda>(k, name). k \<in> set wanted \<or> name \<in> set wanted) hosts)))"

definition scheduledRequest :: "ScheduledScan \<Rightarrow> string \<Rightarrow> ScanRequest" where
  "scheduledRequest s hostID =
     \<lparr>sr_id = [], host_id = hostID, requested_by = [], scan_type = ss_type s, packages_only = ss_packagesOnly s,
      req_reason = ''scheduled: '' @ ss_name s, security_db_revision = [], status = [], error_message = [],
      claimed_by_host_id = [], claimed_at = None, completed_at = None, sr_created_at = 0\<rparr>"

text \<open>The inner loop; \<open>fresh\<close> makes the id of a new row, the number is \<^verbatim>\<open>queued\<close>.\<close>

fun queueHosts :: "tick_faults \<Rightarrow> (scan_table \<Rightarrow> string) \<Rightarrow> int \<Rightarrow> ScheduledScan \<Rightarrow> string list \<Rightarrow> scan_table \<Rightarrow> nat
    \<Rightarrow> scan_table \<times> nat" where
  "queueHosts flt fresh now s [] rows queued = (rows, queued)"
| "queueHosts flt fresh now s (hostID # hosts) rows queued =
     (if tf_create flt (ss_id s) hostID then queueHosts flt fresh now s hosts rows queued
      else case CreateScanRequest (fresh rows) (now div second) (scheduledRequest s hostID) rows of
             Inl e \<Rightarrow> queueHosts flt fresh now s hosts rows queued
           | Inr rows' \<Rightarrow> queueHosts flt fresh now s hosts rows' (queued + 1))"

definition nextRunOf :: "zone \<Rightarrow> int \<Rightarrow> ScheduledScan \<Rightarrow> int" where
  "nextRunOf zone now s = (case computeNextRun zone (ss_cron s) now of Inl e \<Rightarrow> now + hour | Inr t \<Rightarrow> t)"

definition runSchedule :: "tick_faults \<Rightarrow> (scan_table \<Rightarrow> string) \<Rightarrow> zone \<Rightarrow> int \<Rightarrow> ScheduledScan \<Rightarrow> sched_world \<Rightarrow> sched_world" where
  "runSchedule flt fresh zone now s w =
     (if tf_hosts flt (ss_id s) then w
      else
        (let rows = fst (queueHosts flt fresh now s (expandHostFilter (ss_filter s) (w_hosts w)) (sv_requests (w_server w)) 0)
         in w\<lparr>w_server := (w_server w)\<lparr>sv_requests := rows\<rparr>,
              w_schedules := (if tf_update flt (ss_id s) then w_schedules w
                else UpdateScheduledScanRunTimes (ss_id s) now (nextRunOf zone now s) (w_schedules w))\<rparr>))"

definition runSchedulerTick :: "tick_faults \<Rightarrow> (scan_table \<Rightarrow> string) \<Rightarrow> zone \<Rightarrow> int \<Rightarrow> sched_world \<Rightarrow> sched_world" where
  "runSchedulerTick flt fresh zone now w =
     (if tf_due flt then w
      else fold (runSchedule flt fresh zone now) (GetDueScheduledScans now (w_schedules w)) w)"

section \<open>Handlers\<close>

fun cronErrorText :: "cron_error \<Rightarrow> string" where
  "cronErrorText (InvalidStep s) = ''invalid step: '' @ s"
| "cronErrorText (InvalidField s) = ''invalid field: '' @ s"
| "cronErrorText (InvalidRange s) = ''invalid range: '' @ s"
| "cronErrorText (InvalidValue s) = ''invalid value: '' @ s"
| "cronErrorText (FieldCount n) = ''cron expression must have 5 fields, got '' @ show_nat n"
| "cronErrorText (InField f e) = f @ '': '' @ cronErrorText e"
| "cronErrorText (NoMatchingTime s) = ''no matching time found within 1 year for: '' @ s"

record scheduleBody =
  sb_name :: "string option"
  sb_cron :: "string option"
  sb_type :: "string option"
  sb_filter :: "string option"
  sb_packagesOnly :: "bool option"
  sb_enabled :: "bool option"

definition orElse :: "'a option \<Rightarrow> 'a \<Rightarrow> 'a" where
  "orElse x d = (case x of None \<Rightarrow> d | Some v \<Rightarrow> v)"

text \<open>In the create handler an absent text field reads as the empty string.\<close>

definition handleCreateScheduledScan :: "bool \<Rightarrow> string \<Rightarrow> zone \<Rightarrow> int \<Rightarrow> bool + scheduleBody \<Rightarrow> sched_world
    \<Rightarrow> ScheduledScan scan_reply \<times> sched_world" where
  "handleCreateScheduledScan admin newId zone now body w =
     (if \<not> admin then (Inl (401, ''unauthorized''), w)
      else case body of
             Inl large \<Rightarrow> (Inl (badBody large), w)
           | Inr b \<Rightarrow>
               if orElse (sb_name b) [] = [] \<or> orElse (sb_cron b) [] = [] then
                 (Inl (400, ''name and cron_expr are required''), w)
               else
                 (case computeNextRun zone (orElse (sb_cron b) []) now of
                    Inl e \<Rightarrow> (Inl (400, ''invalid cron_expr: '' @ cronErrorText e), w)
                  | Inr next \<Rightarrow>
                      let s = \<lparr>ss_id = newId, ss_name = orElse (sb_name b) [], ss_cron = orElse (sb_cron b) [],
                               ss_type = (if orElse (sb_type b) [] = [] then ''manual'' else orElse (sb_type b) []),
                               ss_filter = orElse (sb_filter b) [], ss_packagesOnly = orElse (sb_packagesOnly b) True,
                               ss_enabled = orElse (sb_enabled b) True, ss_lastRun = None, ss_nextRun = Some next\<rparr>
                      in (case CreateScheduledScan s (w_schedules w) of
                            Inl e \<Rightarrow> (Inl (500, ''internal error''), w)
                          | Inr rows \<Rightarrow>
                              (Inr s, w\<lparr>w_schedules := rows,
                                 w_server := audit ''schedule.create'' ''scheduled_scan'' newId ''ok'' (w_server w)\<rparr>))))"

definition handleGetScheduledScan :: "bool \<Rightarrow> string \<Rightarrow> sched_world \<Rightarrow> ScheduledScan scan_reply" where
  "handleGetScheduledScan admin k w =
     (if \<not> admin then Inl (401, ''unauthorized'')
      else case GetScheduledScan k (w_schedules w) of None \<Rightarrow> Inl (404, ''not found'') | Some s \<Rightarrow> Inr s)"

definition handleListScheduledScans :: "bool \<Rightarrow> sched_world \<Rightarrow> ScheduledScan list scan_reply" where
  "handleListScheduledScans admin w =
     (if \<not> admin then Inl (401, ''unauthorized'') else Inr (ListScheduledScans (w_schedules w)))"

definition handleUpdateScheduledScan :: "bool \<Rightarrow> string \<Rightarrow> zone \<Rightarrow> int \<Rightarrow> bool + scheduleBody \<Rightarrow> sched_world
    \<Rightarrow> ScheduledScan scan_reply \<times> sched_world" where
  "handleUpdateScheduledScan admin k zone now body w =
     (if \<not> admin then (Inl (401, ''unauthorized''), w)
      else case GetScheduledScan k (w_schedules w) of
             None \<Rightarrow> (Inl (404, ''not found''), w)
           | Some existing \<Rightarrow>
               (case body of
                  Inl large \<Rightarrow> (Inl (badBody large), w)
                | Inr b \<Rightarrow>
                    let s = existing\<lparr>ss_name := orElse (sb_name b) (ss_name existing),
                              ss_cron := orElse (sb_cron b) (ss_cron existing),
                              ss_type := orElse (sb_type b) (ss_type existing),
                              ss_filter := orElse (sb_filter b) (ss_filter existing),
                              ss_packagesOnly := orElse (sb_packagesOnly b) (ss_packagesOnly existing),
                              ss_enabled := orElse (sb_enabled b) (ss_enabled existing)\<rparr>
                    in (case computeNextRun zone (ss_cron s) now of
                          Inl e \<Rightarrow> (Inl (400, ''invalid cron_expr: '' @ cronErrorText e), w)
                        | Inr next \<Rightarrow>
                            (case UpdateScheduledScan (s\<lparr>ss_nextRun := Some next\<rparr>) (w_schedules w) of
                               Inl e \<Rightarrow> (Inl (500, ''internal error''), w)
                             | Inr rows \<Rightarrow>
                                 (Inr (s\<lparr>ss_nextRun := Some next\<rparr>), w\<lparr>w_schedules := rows,
                                    w_server := audit ''schedule.update'' ''scheduled_scan'' k ''ok'' (w_server w)\<rparr>)))))"

definition handleDeleteScheduledScan :: "bool \<Rightarrow> string \<Rightarrow> sched_world \<Rightarrow> string scan_reply \<times> sched_world" where
  "handleDeleteScheduledScan admin k w =
     (if \<not> admin then (Inl (401, ''unauthorized''), w)
      else case DeleteScheduledScan k (w_schedules w) of
             Inl e \<Rightarrow> (Inl (404, ''not found''), w)
           | Inr rows \<Rightarrow>
               (Inr ''deleted'', w\<lparr>w_schedules := rows,
                  w_server := audit ''schedule.delete'' ''scheduled_scan'' k ''ok'' (w_server w)\<rparr>))"

section \<open>What a tick does\<close>

definition effectiveType :: "ScheduledScan \<Rightarrow> string" where
  "effectiveType s = (if ss_type s = [] then ''manual'' else ss_type s)"

text \<open>A waiting request of a schedule's kind for a host.\<close>

definition serves :: "ScheduledScan \<Rightarrow> string \<Rightarrow> ScanRequest \<Rightarrow> bool" where
  "serves s h r \<longleftrightarrow> host_id r = h \<and> scan_type r = effectiveType s \<and> status r = ''pending''"

lemma scheduled_create:
  assumes "scan_index rows" "k \<notin> sr_id ` set rows"
  shows "case CreateScanRequest k now (scheduledRequest s h) rows of
      Inl e \<Rightarrow> \<exists>r \<in> set rows. serves s h r
    | Inr rows' \<Rightarrow> scan_index rows' \<and> (\<exists>r. rows' = rows @ [r] \<and> serves s h r)"
proof -
  define row where "row = (scheduledRequest s h)\<lparr>sr_id := k, scan_type := effectiveType s, status := ''pending'',
      sr_created_at := now\<rparr>"
  have c: "CreateScanRequest k now (scheduledRequest s h) rows =
      (if scan_index (rows @ [row]) then Inr (rows @ [row]) else Inl UniqueViolation)"
    unfolding CreateScanRequest_def row_def by (simp add: scheduledRequest_def effectiveType_def Let_def)
  have row: "serves s h row" "sr_id row = k" by (simp_all add: row_def serves_def scheduledRequest_def)
  have "\<exists>r \<in> set rows. serves s h r" if "\<not> scan_index (rows @ [row])"
  proof -
    have "sec_pending row \<and> host_id row \<in> host_id ` set (filter sec_pending rows)"
      using that assms row(2) by (auto simp: scan_index_def split: if_splits)
    then obtain r where r: "r \<in> set rows" "sec_pending r" "host_id r = h" "sec_pending row"
      using row(1) by (auto simp: serves_def)
    then have "serves s h r" using row(1) by (simp add: serves_def sec_pending_def sec_update_def)
    then show ?thesis using r(1) by blast
  qed
  then show ?thesis unfolding c using row(1) by auto
qed

lemma queueHosts_serve:
  assumes "scan_index rows" "\<forall>rows. fresh rows \<notin> sr_id ` set rows"
  shows "\<exists>new. fst (queueHosts flt fresh now s hosts rows n) = rows @ new \<and> scan_index (rows @ new)
    \<and> (\<forall>r \<in> set new. \<exists>h \<in> set hosts. serves s h r)
    \<and> (\<forall>h \<in> set hosts. tf_create flt (ss_id s) h \<or> (\<exists>r \<in> set (rows @ new). serves s h r))"
  using assms(1)
proof (induction hosts arbitrary: rows n)
  case (Cons h hosts)
  show ?case
  proof (cases "tf_create flt (ss_id s) h")
    case True
    obtain new where "fst (queueHosts flt fresh now s hosts rows n) = rows @ new" "scan_index (rows @ new)"
      "\<forall>r \<in> set new. \<exists>h \<in> set hosts. serves s h r"
      "\<forall>h \<in> set hosts. tf_create flt (ss_id s) h \<or> (\<exists>r \<in> set (rows @ new). serves s h r)"
      using Cons.IH [OF Cons.prems, of n] by blast
    then show ?thesis using True by (intro exI [of _ new]) simp
  next
    case False
    have c: "case CreateScanRequest (fresh rows) (now div second) (scheduledRequest s h) rows of
        Inl e \<Rightarrow> \<exists>r \<in> set rows. serves s h r
      | Inr rows' \<Rightarrow> scan_index rows' \<and> (\<exists>r. rows' = rows @ [r] \<and> serves s h r)"
      using scheduled_create [OF Cons.prems] assms(2) by blast
    show ?thesis
    proof (cases "CreateScanRequest (fresh rows) (now div second) (scheduledRequest s h) rows")
      case (Inl e)
      then have "\<exists>r \<in> set rows. serves s h r" using c by simp
      moreover obtain new where "fst (queueHosts flt fresh now s hosts rows n) = rows @ new" "scan_index (rows @ new)"
        "\<forall>r \<in> set new. \<exists>h \<in> set hosts. serves s h r"
        "\<forall>h \<in> set hosts. tf_create flt (ss_id s) h \<or> (\<exists>r \<in> set (rows @ new). serves s h r)"
        using Cons.IH [OF Cons.prems, of n] by blast
      ultimately show ?thesis using False Inl by (intro exI [of _ new]) auto
    next
      case (Inr rows')
      then obtain r where r: "rows' = rows @ [r]" "serves s h r" "scan_index rows'" using c by auto
      obtain new where "fst (queueHosts flt fresh now s hosts rows' (n + 1)) = rows' @ new" "scan_index (rows' @ new)"
        "\<forall>r \<in> set new. \<exists>h \<in> set hosts. serves s h r"
        "\<forall>h \<in> set hosts. tf_create flt (ss_id s) h \<or> (\<exists>r \<in> set (rows' @ new). serves s h r)"
        using Cons.IH [OF r(3), of "n + 1"] by blast
      then show ?thesis using False Inr r by (intro exI [of _ "r # new"]) auto
    qed
  qed
qed simp

lemma nextRunOf_future: "now < nextRunOf zone now s"
proof (cases "computeNextRun zone (ss_cron s) now")
  case (Inr t)
  then have "\<exists>c. nextCronTime zone c now = Some t"
    by (auto simp: computeNextRun_def split: sum.splits option.splits)
  then show ?thesis using Inr by (auto simp: nextRunOf_def nextCronTime_Some)
qed (simp add: nextRunOf_def hour_def minute_def second_def)

text \<open>The schedules after a tick do not depend on the requests.\<close>

definition ran :: "zone \<Rightarrow> int \<Rightarrow> ScheduledScan \<Rightarrow> ScheduledScan \<Rightarrow> ScheduledScan" where
  "ran zone now s r = r\<lparr>ss_lastRun := Some now, ss_nextRun := Some (nextRunOf zone now s)\<rparr>"

definition settled :: "tick_faults \<Rightarrow> ScheduledScan \<Rightarrow> bool" where
  "settled flt s \<longleftrightarrow> \<not> tf_hosts flt (ss_id s) \<and> \<not> tf_update flt (ss_id s)"

lemma runSchedule_hosts: "w_hosts (runSchedule flt fresh zone now s w) = w_hosts w"
  by (simp add: runSchedule_def Let_def)

lemma runSchedule_schedules:
  "w_schedules (runSchedule flt fresh zone now s w) =
    map (\<lambda>r. if ss_id r = ss_id s \<and> settled flt s then ran zone now s r else r) (w_schedules w)"
  by (simp add: runSchedule_def Let_def settled_def ran_def UpdateScheduledScanRunTimes_def)

lemma fold_schedules:
  assumes "distinct (map ss_id ds)"
  shows "w_schedules (fold (runSchedule flt fresh zone now) ds w) =
    map (\<lambda>r. case find (\<lambda>s. ss_id s = ss_id r) ds of None \<Rightarrow> r
             | Some s \<Rightarrow> if settled flt s then ran zone now s r else r) (w_schedules w)"
  using assms
proof (induction ds arbitrary: w)
  case (Cons d ds)
  have none: "find (\<lambda>s. ss_id s = ss_id d) ds = None"
    unfolding find_None_iff using Cons.prems by (simp add: image_iff) metis
  show ?case using Cons none by (auto simp: runSchedule_schedules ran_def)
qed simp

lemma fold_requests:
  assumes "scan_index (sv_requests (w_server w))" "\<forall>rows. fresh rows \<notin> sr_id ` set rows"
  shows "\<exists>new. sv_requests (w_server (fold (runSchedule flt fresh zone now) ds w)) = sv_requests (w_server w) @ new
    \<and> scan_index (sv_requests (w_server w) @ new)
    \<and> (\<forall>r \<in> set new. \<exists>s \<in> set ds. \<not> tf_hosts flt (ss_id s)
          \<and> (\<exists>h \<in> set (expandHostFilter (ss_filter s) (w_hosts w)). serves s h r))
    \<and> (\<forall>s \<in> set ds. tf_hosts flt (ss_id s) \<or> (\<forall>h \<in> set (expandHostFilter (ss_filter s) (w_hosts w)).
          tf_create flt (ss_id s) h \<or> (\<exists>r \<in> set (sv_requests (w_server w) @ new). serves s h r)))"
  using assms(1)
proof (induction ds arbitrary: w)
  case (Cons d ds)
  define w1 where "w1 = runSchedule flt fresh zone now d w"
  obtain new1 where 1: "sv_requests (w_server w1) = sv_requests (w_server w) @ new1" "scan_index (sv_requests (w_server w) @ new1)"
    "\<forall>r \<in> set new1. \<not> tf_hosts flt (ss_id d) \<and> (\<exists>h \<in> set (expandHostFilter (ss_filter d) (w_hosts w)). serves d h r)"
    "tf_hosts flt (ss_id d) \<or> (\<forall>h \<in> set (expandHostFilter (ss_filter d) (w_hosts w)).
       tf_create flt (ss_id d) h \<or> (\<exists>r \<in> set (sv_requests (w_server w) @ new1). serves d h r))"
  proof (cases "tf_hosts flt (ss_id d)")
    case True
    then show ?thesis using that [of "[]"] Cons.prems by (simp add: w1_def runSchedule_def)
  next
    case False
    obtain new where "fst (queueHosts flt fresh now d (expandHostFilter (ss_filter d) (w_hosts w)) (sv_requests (w_server w)) 0)
        = sv_requests (w_server w) @ new" "scan_index (sv_requests (w_server w) @ new)"
      "\<forall>r \<in> set new. \<exists>h \<in> set (expandHostFilter (ss_filter d) (w_hosts w)). serves d h r"
      "\<forall>h \<in> set (expandHostFilter (ss_filter d) (w_hosts w)).
         tf_create flt (ss_id d) h \<or> (\<exists>r \<in> set (sv_requests (w_server w) @ new). serves d h r)"
      using queueHosts_serve [OF Cons.prems assms(2)] by blast
    then show ?thesis using that [of new] False by (simp add: w1_def runSchedule_def Let_def)
  qed
  have h: "w_hosts w1 = w_hosts w" by (simp add: w1_def runSchedule_hosts)
  have "scan_index (sv_requests (w_server w1))" using 1 by simp
  from Cons.IH [OF this] obtain new where 2:
    "sv_requests (w_server (fold (runSchedule flt fresh zone now) ds w1)) = sv_requests (w_server w1) @ new"
    "scan_index (sv_requests (w_server w1) @ new)"
    "\<forall>r \<in> set new. \<exists>s \<in> set ds. \<not> tf_hosts flt (ss_id s)
       \<and> (\<exists>h \<in> set (expandHostFilter (ss_filter s) (w_hosts w)). serves s h r)"
    "\<forall>s \<in> set ds. tf_hosts flt (ss_id s) \<or> (\<forall>h \<in> set (expandHostFilter (ss_filter s) (w_hosts w)).
       tf_create flt (ss_id s) h \<or> (\<exists>r \<in> set (sv_requests (w_server w1) @ new). serves s h r))"
    unfolding h by blast
  have "fold (runSchedule flt fresh zone now) (d # ds) w = fold (runSchedule flt fresh zone now) ds w1"
    by (simp add: w1_def)
  moreover have "\<forall>r \<in> set (new1 @ new). \<exists>s \<in> set (d # ds). \<not> tf_hosts flt (ss_id s)
       \<and> (\<exists>h \<in> set (expandHostFilter (ss_filter s) (w_hosts w)). serves s h r)"
    using 1(3) 2(3) by fastforce
  moreover have "\<forall>s \<in> set (d # ds). tf_hosts flt (ss_id s) \<or> (\<forall>h \<in> set (expandHostFilter (ss_filter s) (w_hosts w)).
       tf_create flt (ss_id s) h \<or> (\<exists>r \<in> set (sv_requests (w_server w) @ new1 @ new). serves s h r))"
    using 1(4) 2(4) unfolding 1(1) by (simp add: ball_Un) blast
  ultimately show ?case using 1(1) 2(1,2) by (intro exI [of _ "new1 @ new"]) simp
qed simp

lemma due_list:
  "set (GetDueScheduledScans now rows) = {s \<in> set rows. due now s}"
  "distinct (map ss_id rows) \<Longrightarrow> distinct (map ss_id (GetDueScheduledScans now rows))"
proof -
  show "set (GetDueScheduledScans now rows) = {s \<in> set rows. due now s}"
    by (auto simp: GetDueScheduledScans_def)
  assume "distinct (map ss_id rows)"
  then show "distinct (map ss_id (GetDueScheduledScans now rows))"
    by (simp add: GetDueScheduledScans_def distinct_map_filter distinct_map)
      (auto simp: distinct_map inj_on_def)
qed

lemma find_due:
  assumes "distinct (map ss_id rows)" "r \<in> set rows"
  shows "find (\<lambda>s. ss_id s = ss_id r) (GetDueScheduledScans now rows) = (if due now r then Some r else None)"
proof (cases "find (\<lambda>s. ss_id s = ss_id r) (GetDueScheduledScans now rows)")
  case None
  then show ?thesis using assms(2) due_list(1) [of now rows] by (auto simp: find_None_iff)
next
  case (Some s)
  then have "s \<in> set rows" "due now s" "ss_id s = ss_id r"
    using due_list(1) [of now rows] by (auto simp: find_Some_iff dest: nth_mem)
  moreover from this have "s = r" using assms by (auto simp: distinct_map inj_on_def)
  ultimately show ?thesis using Some by simp
qed

lemma tick_effects:
  fixes zone :: zone and now :: int
  assumes "distinct (map ss_id (w_schedules w))" "scan_index (sv_requests (w_server w))"
    "\<forall>rows. fresh rows \<notin> sr_id ` set rows" "\<not> tf_due flt"
  defines "w' \<equiv> runSchedulerTick flt fresh zone now w"
  shows "w_schedules w' = map (\<lambda>s. if due now s \<and> settled flt s then ran zone now s s else s) (w_schedules w)"
    and "\<forall>s \<in> set (w_schedules w). now < nextRunOf zone now s"
    and "\<exists>new. sv_requests (w_server w') = sv_requests (w_server w) @ new \<and> scan_index (sv_requests (w_server w'))
      \<and> (\<forall>r \<in> set new. \<exists>s \<in> set (w_schedules w). due now s \<and> \<not> tf_hosts flt (ss_id s)
            \<and> (\<exists>h \<in> set (expandHostFilter (ss_filter s) (w_hosts w)). serves s h r))"
    and "\<forall>s \<in> set (w_schedules w). due now s \<longrightarrow> tf_hosts flt (ss_id s)
      \<or> (\<forall>h \<in> set (expandHostFilter (ss_filter s) (w_hosts w)).
            tf_create flt (ss_id s) h \<or> (\<exists>r \<in> set (sv_requests (w_server w')). serves s h r))"
proof -
  define ds where "ds = GetDueScheduledScans now (w_schedules w)"
  have w': "w' = fold (runSchedule flt fresh zone now) ds w"
    using assms(4) by (simp add: w'_def runSchedulerTick_def ds_def)
  have "w_schedules w' = map (\<lambda>r. case find (\<lambda>s. ss_id s = ss_id r) ds of None \<Rightarrow> r
      | Some s \<Rightarrow> if settled flt s then ran zone now s r else r) (w_schedules w)"
    unfolding w' using due_list(2) [OF assms(1)] by (intro fold_schedules) (simp add: ds_def)
  also have "\<dots> = map (\<lambda>s. if due now s \<and> settled flt s then ran zone now s s else s) (w_schedules w)"
    using find_due [OF assms(1)] by (intro map_cong) (auto simp: ds_def)
  finally show "w_schedules w' = map (\<lambda>s. if due now s \<and> settled flt s then ran zone now s s else s) (w_schedules w)" .
  show "\<forall>s \<in> set (w_schedules w). now < nextRunOf zone now s" using nextRunOf_future by blast
  have ds: "s \<in> set ds \<longleftrightarrow> s \<in> set (w_schedules w) \<and> due now s" for s
    using due_list(1) by (simp add: ds_def)
  obtain new where new: "sv_requests (w_server w') = sv_requests (w_server w) @ new"
    "scan_index (sv_requests (w_server w) @ new)"
    "\<forall>r \<in> set new. \<exists>s \<in> set ds. \<not> tf_hosts flt (ss_id s)
       \<and> (\<exists>h \<in> set (expandHostFilter (ss_filter s) (w_hosts w)). serves s h r)"
    "\<forall>s \<in> set ds. tf_hosts flt (ss_id s) \<or> (\<forall>h \<in> set (expandHostFilter (ss_filter s) (w_hosts w)).
       tf_create flt (ss_id s) h \<or> (\<exists>r \<in> set (sv_requests (w_server w) @ new). serves s h r))"
    using fold_requests [OF assms(2,3), of flt zone now ds] unfolding w' by blast
  show "\<exists>new. sv_requests (w_server w') = sv_requests (w_server w) @ new \<and> scan_index (sv_requests (w_server w'))
      \<and> (\<forall>r \<in> set new. \<exists>s \<in> set (w_schedules w). due now s \<and> \<not> tf_hosts flt (ss_id s)
            \<and> (\<exists>h \<in> set (expandHostFilter (ss_filter s) (w_hosts w)). serves s h r))"
    using new(1-3) ds by (intro exI [of _ new]) metis
  show "\<forall>s \<in> set (w_schedules w). due now s \<longrightarrow> tf_hosts flt (ss_id s)
      \<or> (\<forall>h \<in> set (expandHostFilter (ss_filter s) (w_hosts w)).
            tf_create flt (ss_id s) h \<or> (\<exists>r \<in> set (sv_requests (w_server w')). serves s h r))"
    using new(4) ds unfolding new(1) by blast
qed


section \<open>Concrete worlds\<close>

definition freshId :: "scan_table \<Rightarrow> string" where
  "freshId rows = replicate (Suc (sum_list (map (\<lambda>r. length (sr_id r)) rows))) CHR ''n''"

lemma freshId_fresh: "freshId rows \<notin> sr_id ` set rows"
proof
  assume "freshId rows \<in> sr_id ` set rows"
  then obtain r where "r \<in> set rows" "freshId rows = sr_id r" by auto
  then have "length (freshId rows) \<le> sum_list (map (\<lambda>r. length (sr_id r)) rows)"
    using member_le_sum_list [of "length (sr_id r)" "map (\<lambda>r. length (sr_id r)) rows"] by simp
  then show False by (simp add: freshId_def)
qed

definition noFaults :: tick_faults where
  "noFaults = \<lparr>tf_due = False, tf_hosts = \<lambda>_. False, tf_create = \<lambda>_ _. False, tf_update = \<lambda>_. False\<rparr>"

definition newYear :: int where "newYear = 21184 * 24 * hour"

definition newYearSchedule :: ScheduledScan where
  "newYearSchedule = \<lparr>ss_id = ''s1'', ss_name = ''yearly'', ss_cron = ''0 0 1 1 *'', ss_type = ''manual'', ss_filter = [],
     ss_packagesOnly = True, ss_enabled = True, ss_lastRun = None, ss_nextRun = Some newYear\<rparr>"

definition newYearWorld :: sched_world where
  "newYearWorld = \<lparr>w_server = \<lparr>sv_requests = [], sv_bindings = [], sv_audit = []\<rparr>,
     w_schedules = [newYearSchedule], w_hosts = [(''h1'', ''alpha'')]\<rparr>"


text \<open>
  A yearly schedule in a leap year: it runs again every hour, because the hour is what the scheduler falls back to
  when the search finds nothing, and in that time it cannot even be disabled, because the update handler computes the
  next run first.
\<close>

lemma leap_year_schedule_repeats:
  assumes "21184 * 24 * hour \<le> now" "now < 21184 * 24 * hour + 18 * hour"
    "due now (s::ScheduledScan)" "ss_cron s = ''0 0 1 1 *''"
  shows "due (now + hour) (ran utc now s s)"
    and "handleUpdateScheduledScan True (ss_id s) utc now
        (Inr \<lparr>sb_name = None, sb_cron = None, sb_type = None, sb_filter = None, sb_packagesOnly = None, sb_enabled = Some False\<rparr>)
        (w\<lparr>w_schedules := [s]\<rparr>)
      = (Inl (400, ''invalid cron_expr: no matching time found within 1 year for: 0 0 1 1 *''), w\<lparr>w_schedules := [s]\<rparr>)"
  using assms leap_year_has_no_next [OF assms(1,2)]
  by (simp_all add: due_def ran_def nextRunOf_def handleUpdateScheduledScan_def GetScheduledScan_def orElse_def Let_def)

section \<open>The handlers\<close>

text \<open>Rows the handlers write have a valid expression's next run and one of the three scan types.\<close>

definition schedules_ok :: "ScheduledScan list \<Rightarrow> bool" where
  "schedules_ok rows \<longleftrightarrow> distinct (map ss_id rows)
     \<and> (\<forall>s \<in> set rows. validScanRequestType (ss_type s) \<and> ss_nextRun s \<noteq> None \<and> (\<exists>c. parseCron (ss_cron s) = Inr c))"

lemma computeNextRun_parses: "computeNextRun zone expr now = Inr t \<Longrightarrow> \<exists>c. parseCron expr = Inr c"
  by (auto simp: computeNextRun_def split: sum.splits)

lemma create_schedules_ok:
  assumes "schedules_ok (w_schedules w)"
  shows "schedules_ok (w_schedules (snd (handleCreateScheduledScan admin newId zone now body w)))"
  using assms computeNextRun_parses
  by (force simp: handleCreateScheduledScan_def CreateScheduledScan_def schedules_ok_def Let_def list_ex_iff
      split: sum.splits if_splits)

lemma handleUpdate_cases:
  obtains "w_schedules (snd (handleUpdateScheduledScan admin k zone now body w)) = w_schedules w"
  | x t where "validScanRequestType (ss_type x)" "ss_nextRun x = Some t" "computeNextRun zone (ss_cron x) now = Inr t"
      "w_schedules (snd (handleUpdateScheduledScan admin k zone now body w)) =
        map (\<lambda>r. if ss_id r = ss_id x then x\<lparr>ss_lastRun := ss_lastRun r\<rparr> else r) (w_schedules w)"
proof (cases "\<exists>s b. admin \<and> GetScheduledScan k (w_schedules w) = Some s \<and> body = Inr b")
  case False
  then show ?thesis using that(1)
    by (auto simp: handleUpdateScheduledScan_def split: sum.splits option.splits)
next
  case True
  then obtain s b where sb: "admin" "GetScheduledScan k (w_schedules w) = Some s" "body = Inr b" by blast
  define x where "x = s\<lparr>ss_name := orElse (sb_name b) (ss_name s), ss_cron := orElse (sb_cron b) (ss_cron s),
      ss_type := orElse (sb_type b) (ss_type s), ss_filter := orElse (sb_filter b) (ss_filter s),
      ss_packagesOnly := orElse (sb_packagesOnly b) (ss_packagesOnly s), ss_enabled := orElse (sb_enabled b) (ss_enabled s)\<rparr>"
  have h: "w_schedules (snd (handleUpdateScheduledScan admin k zone now body w)) =
      (case computeNextRun zone (ss_cron x) now of
         Inl e \<Rightarrow> w_schedules w
       | Inr t \<Rightarrow> (case UpdateScheduledScan (x\<lparr>ss_nextRun := Some t\<rparr>) (w_schedules w) of
           Inl e \<Rightarrow> w_schedules w | Inr rows \<Rightarrow> rows))"
    unfolding handleUpdateScheduledScan_def using sb by (simp add: Let_def x_def [symmetric] split: sum.split)
  show ?thesis
  proof (cases "computeNextRun zone (ss_cron x) now")
    case (Inl e)
    then show ?thesis using that(1) h by simp
  next
    case (Inr t)
    then show ?thesis using that(1) that(2) [of "x\<lparr>ss_nextRun := Some t\<rparr>" t] h
      by (auto simp: UpdateScheduledScan_def split: if_splits)
  qed
qed

lemma update_schedules_ok:
  assumes "schedules_ok (w_schedules w)"
  shows "schedules_ok (w_schedules (snd (handleUpdateScheduledScan admin k zone now body w)))"
proof (rule handleUpdate_cases [of admin k zone now body w])
  fix x t
  assume x: "validScanRequestType (ss_type x)" "ss_nextRun x = Some t" "computeNextRun zone (ss_cron x) now = Inr t"
    "w_schedules (snd (handleUpdateScheduledScan admin k zone now body w)) =
      map (\<lambda>r. if ss_id r = ss_id x then x\<lparr>ss_lastRun := ss_lastRun r\<rparr> else r) (w_schedules w)"
  have ids: "map ss_id (map (\<lambda>r. if ss_id r = ss_id x then x\<lparr>ss_lastRun := ss_lastRun r\<rparr> else r) rows) = map ss_id rows" for rows
    by simp
  show ?thesis using assms x(1,2) computeNextRun_parses [OF x(3)] unfolding x(4) schedules_ok_def ids by auto
qed (use assms in simp)

lemma delete_schedules_ok:
  "schedules_ok (w_schedules w) \<Longrightarrow> schedules_ok (w_schedules (snd (handleDeleteScheduledScan admin k w)))"
  by (auto simp: handleDeleteScheduledScan_def DeleteScheduledScan_def schedules_ok_def distinct_map_filter split: sum.splits)

lemma tick_schedules_ok:
  assumes "schedules_ok (w_schedules w)" "scan_index (sv_requests (w_server w))" "\<forall>rows. fresh rows \<notin> sr_id ` set rows"
  shows "schedules_ok (w_schedules (runSchedulerTick flt fresh zone now w))"
proof (cases "tf_due flt")
  case True
  then show ?thesis using assms(1) by (simp add: runSchedulerTick_def)
next
  case False
  have d: "distinct (map ss_id (w_schedules w))" using assms(1) by (simp add: schedules_ok_def)
  have ids: "map ss_id (map (\<lambda>s. if due now s \<and> settled flt s then ran zone now s s else s) rows) = map ss_id rows" for rows
    by (simp add: ran_def)
  show ?thesis
    using assms(1) unfolding schedules_ok_def tick_effects(1) [OF d assms(2,3) False, of zone now] ids
    by (auto simp: ran_def)
qed

end
