(* ===== verification/Login_Limiter.thy ===== *)
theory Login_Limiter
  imports Server_Env "HOL-Library.AList"
begin

text \<open>
  The throttle on failed logins, \<^verbatim>\<open>internal/server/api/login_limiter.go\<close>. Its map is an association list with
  distinct keys; the mutex makes each operation one step. Times are nanoseconds, \<open>now\<close> is the clock.
\<close>

section \<open>The limiter\<close>

record loginFailures =
  lf_count :: int
  lf_first :: int

record loginLimiter =
  lm_max :: int
  lm_window :: int
  lm_entries :: "(string \<times> loginFailures) list"

definition loginLimiterMaxEntries :: nat where "loginLimiterMaxEntries = 100000"

definition newLoginLimiter :: "string option \<Rightarrow> string option \<Rightarrow> loginLimiter" where
  "newLoginLimiter maxEnv minutesEnv =
     \<lparr>lm_max = envPositiveIntDefault maxEnv 5,
      lm_window = wrap64 (envPositiveIntDefault minutesEnv 15 * 60000000000), lm_entries = []\<rparr>"

definition loginLimiterKeys :: "string \<Rightarrow> string \<Rightarrow> string list" where
  "loginLimiterKeys ip username =
     (let ip = TrimSpace ip; username = ToLower (TrimSpace username)
      in (if ip \<noteq> [] then [''ip'' @ [CHR 0x00] @ ip] else [])
         @ (if username \<noteq> [] then [''user'' @ [CHR 0x00] @ username] else []))"

definition expired :: "loginLimiter \<Rightarrow> int \<Rightarrow> loginFailures \<Rightarrow> bool" where
  "expired l now e \<longleftrightarrow> now - lf_first e > lm_window l"

fun blockedLoop :: "int \<Rightarrow> string list \<Rightarrow> loginLimiter \<Rightarrow> bool \<times> loginLimiter" where
  "blockedLoop now [] l = (False, l)"
| "blockedLoop now (key # keys) l =
     (case map_of (lm_entries l) key of
        None \<Rightarrow> blockedLoop now keys l
      | Some e \<Rightarrow>
          if expired l now e then blockedLoop now keys (l\<lparr>lm_entries := AList.delete key (lm_entries l)\<rparr>)
          else if lf_count e \<ge> lm_max l then (True, l)
          else blockedLoop now keys l)"

definition blocked :: "int \<Rightarrow> string \<Rightarrow> string \<Rightarrow> loginLimiter \<Rightarrow> bool \<times> loginLimiter" where
  "blocked now ip username l = blockedLoop now (loginLimiterKeys ip username) l"

definition makeRoom :: "int \<Rightarrow> loginLimiter \<Rightarrow> loginLimiter" where
  "makeRoom now l =
     (if length (lm_entries l) \<ge> loginLimiterMaxEntries then
        (let es = filter (\<lambda>(k, e). \<not> expired l now e) (lm_entries l)
         in l\<lparr>lm_entries := (if length es \<ge> loginLimiterMaxEntries then [] else es)\<rparr>)
      else l)"

definition failKey :: "int \<Rightarrow> string \<Rightarrow> loginLimiter \<Rightarrow> loginLimiter" where
  "failKey now key l =
     l\<lparr>lm_entries :=
        (case map_of (lm_entries l) key of
           None \<Rightarrow> AList.update key \<lparr>lf_count = 1, lf_first = now\<rparr> (lm_entries l)
         | Some e \<Rightarrow>
             if expired l now e then AList.update key \<lparr>lf_count = 1, lf_first = now\<rparr> (lm_entries l)
             else AList.update key (e\<lparr>lf_count := lf_count e + 1\<rparr>) (lm_entries l))\<rparr>"

definition fail :: "int \<Rightarrow> string \<Rightarrow> string \<Rightarrow> loginLimiter \<Rightarrow> loginLimiter" where
  "fail now ip username l = fold (failKey now) (loginLimiterKeys ip username) (makeRoom now l)"

definition success :: "string \<Rightarrow> string \<Rightarrow> loginLimiter \<Rightarrow> loginLimiter" where
  "success ip username l =
     fold (\<lambda>key l. l\<lparr>lm_entries := AList.delete key (lm_entries l)\<rparr>) (loginLimiterKeys ip username) l"

section \<open>Entries\<close>

abbreviation entry :: "loginLimiter \<Rightarrow> string \<Rightarrow> loginFailures option" where
  "entry l \<equiv> map_of (lm_entries l)"

definition limiter_ok :: "loginLimiter \<Rightarrow> bool" where
  "limiter_ok l \<longleftrightarrow> distinct (map fst (lm_entries l)) \<and> length (lm_entries l) \<le> loginLimiterMaxEntries + 1"

definition same_config :: "loginLimiter \<Rightarrow> loginLimiter \<Rightarrow> bool" where
  "same_config l l' \<longleftrightarrow> lm_max l' = lm_max l \<and> lm_window l' = lm_window l"

lemma length_update: "length (AList.update k v es) = (if k \<in> fst ` set es then length es else Suc (length es))"
  by (induction es) auto

lemma length_delete: "length (AList.delete k es) \<le> length es"
  by (simp add: AList.delete_eq)

lemma delete_ok: "limiter_ok l \<Longrightarrow> limiter_ok (l\<lparr>lm_entries := AList.delete k (lm_entries l)\<rparr>)"
  unfolding limiter_ok_def using length_delete [of k "lm_entries l"] distinct_delete [of "lm_entries l" k] by simp

lemma keys_two: "length (loginLimiterKeys ip username) \<le> 2"
  by (simp add: loginLimiterKeys_def Let_def)

lemma keys_distinct: "distinct (loginLimiterKeys ip username)"
  by (simp add: loginLimiterKeys_def Let_def)

lemma failKey_config [simp]: "lm_max (failKey now k l) = lm_max l" "lm_window (failKey now k l) = lm_window l"
  by (simp_all add: failKey_def)

lemma fold_failKey_config [simp]:
  "lm_max (fold (failKey now) ks l) = lm_max l" "lm_window (fold (failKey now) ks l) = lm_window l"
  by (induction ks arbitrary: l) simp_all

lemma makeRoom_config [simp]: "lm_max (makeRoom now l) = lm_max l" "lm_window (makeRoom now l) = lm_window l"
  by (simp_all add: makeRoom_def Let_def)

lemma failKey_size: "length (lm_entries (failKey now k l)) \<le> Suc (length (lm_entries l))"
  by (simp add: failKey_def length_update split: option.split)

lemma failKey_distinct: "distinct (map fst (lm_entries l)) \<Longrightarrow> distinct (map fst (lm_entries (failKey now k l)))"
  by (simp add: failKey_def distinct_update split: option.split)

lemma fold_failKey_size: "length (lm_entries (fold (failKey now) ks l)) \<le> length ks + length (lm_entries l)"
proof (induction ks arbitrary: l)
  case (Cons k ks)
  show ?case using Cons [of "failKey now k l"] failKey_size [of now k l] by simp
qed simp

lemma fold_failKey_distinct:
  "distinct (map fst (lm_entries l)) \<Longrightarrow> distinct (map fst (lm_entries (fold (failKey now) ks l)))"
  by (induction ks arbitrary: l) (simp_all add: failKey_distinct)

lemma makeRoom_size: "length (lm_entries (makeRoom now l)) < loginLimiterMaxEntries"
  by (simp add: makeRoom_def loginLimiterMaxEntries_def Let_def)

lemma makeRoom_distinct: "distinct (map fst (lm_entries l)) \<Longrightarrow> distinct (map fst (lm_entries (makeRoom now l)))"
  by (simp add: makeRoom_def Let_def distinct_map_filter)

lemma fail_ok: "limiter_ok l \<Longrightarrow> limiter_ok (fail now ip username l)"
proof -
  assume l: "limiter_ok l"
  have "length (lm_entries (fail now ip username l)) \<le> 2 + length (lm_entries (makeRoom now l))"
    unfolding fail_def using fold_failKey_size [of now "loginLimiterKeys ip username" "makeRoom now l"] keys_two [of ip username]
    by linarith
  then show ?thesis
    using l makeRoom_size [of now l] makeRoom_distinct fold_failKey_distinct by (simp add: limiter_ok_def fail_def)
qed

lemma blockedLoop_ok: "limiter_ok l \<Longrightarrow> limiter_ok (snd (blockedLoop now ks l))"
  by (induction now ks l rule: blockedLoop.induct) (simp_all add: delete_ok split: option.split)

lemma blocked_ok: "limiter_ok l \<Longrightarrow> limiter_ok (snd (blocked now ip username l))"
  unfolding blocked_def by (rule blockedLoop_ok)

lemma success_ok: "limiter_ok l \<Longrightarrow> limiter_ok (success ip username l)"
proof -
  have "limiter_ok (fold (\<lambda>key l. l\<lparr>lm_entries := AList.delete key (lm_entries l)\<rparr>) ks l)" if "limiter_ok l" for ks
    using that by (induction ks arbitrary: l) (simp_all add: delete_ok)
  then show "limiter_ok l \<Longrightarrow> limiter_ok (success ip username l)" by (simp add: success_def)
qed

text \<open>The operations in any order.\<close>

datatype limiter_op = Blocked int string string | Fail int string string | Success string string

fun limiter_step :: "limiter_op \<Rightarrow> loginLimiter \<Rightarrow> loginLimiter" where
  "limiter_step (Blocked now ip user) l = snd (blocked now ip user l)"
| "limiter_step (Fail now ip user) l = fail now ip user l"
| "limiter_step (Success ip user) l = success ip user l"

lemma limiter_steps_ok: "limiter_ok l \<Longrightarrow> limiter_ok (fold limiter_step ops l)"
proof (induction ops arbitrary: l)
  case (Cons x ops)
  have "limiter_ok (limiter_step x l)" using Cons.prems by (cases x) (simp_all add: blocked_ok fail_ok success_ok)
  then show ?case using Cons.IH by simp
qed simp

text \<open>Whatever logins are tried, the limiter's map never holds more than 100001 entries.\<close>

theorem limiter_bounded:
  "length (lm_entries (fold limiter_step ops (newLoginLimiter maxEnv minutesEnv))) \<le> 100001"
proof -
  have "limiter_ok (newLoginLimiter maxEnv minutesEnv)" by (simp add: limiter_ok_def newLoginLimiter_def)
  then show ?thesis using limiter_steps_ok [of _ ops] by (simp add: limiter_ok_def loginLimiterMaxEntries_def)
qed

section \<open>Who is blocked\<close>

definition locked :: "loginLimiter \<Rightarrow> int \<Rightarrow> string \<Rightarrow> bool" where
  "locked l now k \<longleftrightarrow> (\<exists>e. entry l k = Some e \<and> \<not> expired l now e \<and> lf_count e \<ge> lm_max l)"

lemma locked_delete:
  "k \<noteq> k' \<Longrightarrow> locked (l\<lparr>lm_entries := AList.delete k (lm_entries l)\<rparr>) now k' = locked l now k'"
  by (simp add: locked_def expired_def delete_conv')

lemma blockedLoop_iff: "distinct ks \<Longrightarrow> fst (blockedLoop now ks l) \<longleftrightarrow> (\<exists>k \<in> set ks. locked l now k)"
proof (induction now ks l rule: blockedLoop.induct)
  case (2 now key keys l)
  have r: "(\<exists>k \<in> set keys. locked (l\<lparr>lm_entries := AList.delete key (lm_entries l)\<rparr>) now k)
      \<longleftrightarrow> (\<exists>k \<in> set keys. locked l now k)"
    using "2.prems" locked_delete [of key _ l now] by (metis distinct.simps(2))
  show ?case
  proof (cases "entry l key")
    case None
    then have "\<not> locked l now key" by (simp add: locked_def)
    then show ?thesis using 2 None by simp
  next
    case (Some e)
    then have "locked l now key \<longleftrightarrow> \<not> expired l now e \<and> lf_count e \<ge> lm_max l" by (simp add: locked_def)
    then show ?thesis using 2 Some r by auto
  qed
qed simp

lemma locked_out_iff: "fst (blocked now ip username l) \<longleftrightarrow> (\<exists>k \<in> set (loginLimiterKeys ip username). locked l now k)"
  unfolding blocked_def by (rule blockedLoop_iff [OF keys_distinct])

text \<open>Checking drops only entries that have expired.\<close>

lemma blockedLoop_entry:
  "entry (snd (blockedLoop now ks l)) k = entry l k
    \<or> (entry (snd (blockedLoop now ks l)) k = None \<and> (\<exists>e. entry l k = Some e \<and> expired l now e))"
proof (induction now ks l rule: blockedLoop.induct)
  case (2 now key keys l)
  show ?case using 2 by (auto simp: delete_conv' expired_def split: option.splits if_splits)
qed simp

lemma blockedLoop_config [simp]:
  "lm_max (snd (blockedLoop now ks l)) = lm_max l" "lm_window (snd (blockedLoop now ks l)) = lm_window l"
  by (induction now ks l rule: blockedLoop.induct) (simp_all split: option.split)

lemma blockedLoop_size: "length (lm_entries (snd (blockedLoop now ks l))) \<le> length (lm_entries l)"
proof (induction now ks l rule: blockedLoop.induct)
  case (2 now key keys l)
  show ?case using 2 length_delete [of key "lm_entries l"] by (auto split: option.split intro: le_trans)
qed simp

section \<open>How many guesses get through\<close>

text \<open>One failing login: it is refused or the password is checked and the failure recorded.\<close>

definition attempt :: "int \<times> string \<times> string \<Rightarrow> loginLimiter \<Rightarrow> bool \<times> loginLimiter" where
  "attempt a l = (case a of (now, ip, user) \<Rightarrow>
     (case blocked now ip user l of (True, l') \<Rightarrow> (False, l') | (False, l') \<Rightarrow> (True, fail now ip user l')))"

text \<open>How many of a sequence of attempts with the key \<open>k\<close> are checked.\<close>

fun checked :: "string \<Rightarrow> (int \<times> string \<times> string) list \<Rightarrow> loginLimiter \<Rightarrow> int" where
  "checked k [] l = 0"
| "checked k (a # as) l =
     (if fst (attempt a l) \<and> k \<in> set (loginLimiterKeys (fst (snd a)) (snd (snd a))) then 1 else 0)
       + checked k as (snd (attempt a l))"

lemma failKey_entry:
  "entry (failKey now key l) k =
    (if k = key then (case entry l k of
        None \<Rightarrow> Some \<lparr>lf_count = 1, lf_first = now\<rparr>
      | Some e \<Rightarrow> if expired l now e then Some \<lparr>lf_count = 1, lf_first = now\<rparr> else Some (e\<lparr>lf_count := lf_count e + 1\<rparr>))
     else entry l k)"
  by (simp add: failKey_def update_conv' split: option.split)

lemma expired_failKey [simp]: "expired (failKey now k l) t e = expired l t e"
  by (simp add: expired_def)

lemma fold_failKey_entry:
  "distinct ks \<Longrightarrow> entry (fold (failKey now) ks l) k = (if k \<in> set ks then entry (failKey now k l) k else entry l k)"
proof (induction ks arbitrary: l)
  case (Cons x ks)
  then show ?case by (simp add: failKey_entry split: option.split)
qed simp

lemma fail_entry:
  assumes "length (lm_entries l) < loginLimiterMaxEntries"
  shows "entry (fail now ip user l) k =
    (if k \<in> set (loginLimiterKeys ip user) then entry (failKey now k l) k else entry l k)"
  using assms fold_failKey_entry [OF keys_distinct, of now ip user l k] by (simp add: fail_def makeRoom_def)

lemma attempt_size:
  assumes "length (lm_entries l) < loginLimiterMaxEntries"
  shows "length (lm_entries (snd (attempt a l))) \<le> 2 + length (lm_entries l)"
proof -
  obtain now ip user where a: "a = (now, ip, user)" by (cases a)
  define l' where "l' = snd (blocked now ip user l)"
  have l': "length (lm_entries l') \<le> length (lm_entries l)"
    by (simp add: l'_def blocked_def blockedLoop_size)
  have "makeRoom now l' = l'" using l' assms by (simp add: makeRoom_def)
  then have "length (lm_entries (fail now ip user l')) \<le> 2 + length (lm_entries l')"
    unfolding fail_def using fold_failKey_size [of now "loginLimiterKeys ip user" l'] keys_two [of ip user] by simp
  then show ?thesis using l' by (auto simp: attempt_def a l'_def split: prod.split bool.split)
qed

lemma attempt_cases:
  assumes "length (lm_entries l) < loginLimiterMaxEntries"
  obtains (refused) l' where "\<exists>k' \<in> set (loginLimiterKeys ip user). locked l now k'" "attempt (now, ip, user) l = (False, l')"
      "lm_max l' = lm_max l" "lm_window l' = lm_window l"
      "\<And>k. entry l' k = entry l k \<or> entry l' k = None \<and> (\<exists>e. entry l k = Some e \<and> expired l now e)"
  | (tried) l' where "\<forall>k' \<in> set (loginLimiterKeys ip user). \<not> locked l now k'" "attempt (now, ip, user) l = (True, l')"
      "lm_max l' = lm_max l" "lm_window l' = lm_window l"
      "\<And>k. k \<notin> set (loginLimiterKeys ip user) \<Longrightarrow>
         entry l' k = entry l k \<or> entry l' k = None \<and> (\<exists>e. entry l k = Some e \<and> expired l now e)"
      "\<And>k. k \<in> set (loginLimiterKeys ip user) \<Longrightarrow> entry l' k = Some (case entry l k of
         None \<Rightarrow> \<lparr>lf_count = 1, lf_first = now\<rparr>
       | Some e \<Rightarrow> if expired l now e then \<lparr>lf_count = 1, lf_first = now\<rparr> else e\<lparr>lf_count := lf_count e + 1\<rparr>)"
proof -
  define m where "m = snd (blocked now ip user l)"
  have m: "lm_max m = lm_max l" "lm_window m = lm_window l" "length (lm_entries m) < loginLimiterMaxEntries"
    and e: "\<And>k. entry m k = entry l k \<or> entry m k = None \<and> (\<exists>e. entry l k = Some e \<and> expired l now e)"
    using assms blockedLoop_size [of now "loginLimiterKeys ip user" l] blockedLoop_entry [of now "loginLimiterKeys ip user" l]
    by (simp_all add: m_def blocked_def)
  show thesis
  proof (cases "fst (blocked now ip user l)")
    case True
    then have "attempt (now, ip, user) l = (False, m)"
      unfolding attempt_def m_def by (cases "blocked now ip user l") simp
    then show thesis using True m e by (intro refused [of m]) (simp_all add: locked_out_iff)
  next
    case False
    then have a: "attempt (now, ip, user) l = (True, fail now ip user m)"
      unfolding attempt_def m_def by (cases "blocked now ip user l") simp
    have f: "entry (fail now ip user m) k = (if k \<in> set (loginLimiterKeys ip user) then entry (failKey now k m) k else entry m k)" for k
      by (rule fail_entry [OF m(3)])
    have "entry (failKey now k m) k = Some (case entry l k of
         None \<Rightarrow> \<lparr>lf_count = 1, lf_first = now\<rparr>
       | Some e \<Rightarrow> if expired l now e then \<lparr>lf_count = 1, lf_first = now\<rparr> else e\<lparr>lf_count := lf_count e + 1\<rparr>)" for k
      using e [of k] m(2) by (auto simp: failKey_entry expired_def split: option.split)
    moreover have "lm_max (fail now ip user m) = lm_max l" "lm_window (fail now ip user m) = lm_window l"
      by (simp_all add: fail_def m)
    ultimately show thesis using False a e f by (intro tried [of "fail now ip user m"]) (auto simp: locked_out_iff)
  qed
qed

text \<open>While an entry lives, what is left of its budget bounds what gets through.\<close>

lemma checked_live:
  assumes "length (lm_entries l) + 2 * length as \<le> loginLimiterMaxEntries"
    "entry l k = Some e" "\<forall>a \<in> set as. lf_first e \<le> fst a \<and> fst a \<le> lf_first e + lm_window l"
  shows "checked k as l \<le> max 0 (lm_max l - lf_count e)"
  using assms
proof (induction as arbitrary: l e)
  case (Cons a as)
  obtain now ip user where a: "a = (now, ip, user)" by (cases a)
  have size: "length (lm_entries l) < loginLimiterMaxEntries" using Cons.prems(1) by simp
  have live: "\<not> expired l now e" using Cons.prems(3) by (simp add: a expired_def)
  have size': "length (lm_entries (snd (attempt a l))) + 2 * length as \<le> loginLimiterMaxEntries"
    using attempt_size [OF size, of a] Cons.prems(1) by simp
  show ?case
  proof (rule attempt_cases [OF size, of ip user now])
    fix l' assume r: "attempt (now, ip, user) l = (False, l')" "lm_max l' = lm_max l" "lm_window l' = lm_window l"
      and e: "\<And>k. entry l' k = entry l k \<or> entry l' k = None \<and> (\<exists>e. entry l k = Some e \<and> expired l now e)"
    have "entry l' k = Some e" using e [of k] Cons.prems(2) live by auto
    then have "checked k as l' \<le> max 0 (lm_max l' - lf_count e)"
      using size' r Cons.prems(3) by (intro Cons.IH) (auto simp: a)
    then show ?thesis using r by (simp add: a)
  next
    fix l' assume free: "\<forall>k' \<in> set (loginLimiterKeys ip user). \<not> locked l now k'"
      and r: "attempt (now, ip, user) l = (True, l')" "lm_max l' = lm_max l" "lm_window l' = lm_window l"
      and other: "\<And>k. k \<notin> set (loginLimiterKeys ip user) \<Longrightarrow>
         entry l' k = entry l k \<or> entry l' k = None \<and> (\<exists>e. entry l k = Some e \<and> expired l now e)"
      and own: "\<And>k. k \<in> set (loginLimiterKeys ip user) \<Longrightarrow> entry l' k = Some (case entry l k of
         None \<Rightarrow> \<lparr>lf_count = 1, lf_first = now\<rparr>
       | Some e \<Rightarrow> if expired l now e then \<lparr>lf_count = 1, lf_first = now\<rparr> else e\<lparr>lf_count := lf_count e + 1\<rparr>)"
    show ?thesis
    proof (cases "k \<in> set (loginLimiterKeys ip user)")
      case True
      have "lf_count e < lm_max l" using free True Cons.prems(2) live by (force simp: locked_def)
      moreover have "entry l' k = Some (e\<lparr>lf_count := lf_count e + 1\<rparr>)" using own [OF True] Cons.prems(2) live by simp
      then have "checked k as l' \<le> max 0 (lm_max l' - (lf_count e + 1))"
        using size' r Cons.prems(3) Cons.IH [of l' "e\<lparr>lf_count := lf_count e + 1\<rparr>"] by (simp add: a)
      ultimately show ?thesis using r True by (simp add: a)
    next
      case False
      then have "entry l' k = Some e" using other [of k] Cons.prems(2) live by auto
      then have "checked k as l' \<le> max 0 (lm_max l' - lf_count e)"
        using size' r Cons.prems(3) by (intro Cons.IH) (auto simp: a)
      then show ?thesis using r False by (simp add: a)
    qed
  qed
qed simp

definition dead_entry :: "loginLimiter \<Rightarrow> int \<Rightarrow> string \<Rightarrow> bool" where
  "dead_entry l now k \<longleftrightarrow> (\<forall>e. entry l k = Some e \<longrightarrow> expired l now e)"

text \<open>
  Of the failing logins tried within one window, from whatever addresses and for whatever names, at most the
  configured number of those against one name (or from one address) has its password checked, as long as the map has
  room for their entries.
\<close>

theorem limiter_bounds_guesses:
  assumes "length (lm_entries l) + 2 * length as \<le> 100000" "0 < lm_max l" "dead_entry l start k"
    "sorted (map fst as)" "\<forall>a \<in> set as. start \<le> fst a \<and> fst a \<le> start + lm_window l"
  shows "checked k as l \<le> lm_max l"
  using assms
proof (induction as arbitrary: l)
  case (Cons a as)
  obtain now ip user where a: "a = (now, ip, user)" by (cases a)
  have size: "length (lm_entries l) < loginLimiterMaxEntries" using Cons.prems(1) by (simp add: loginLimiterMaxEntries_def)
  have size': "length (lm_entries (snd (attempt a l))) + 2 * length as \<le> 100000"
    using attempt_size [OF size, of a] Cons.prems(1) by simp
  have dead: "dead_entry l now k" using Cons.prems(3,5) by (auto simp: dead_entry_def expired_def a)
  show ?case
  proof (rule attempt_cases [OF size, of ip user now])
    fix l' assume r: "attempt (now, ip, user) l = (False, l')" "lm_max l' = lm_max l" "lm_window l' = lm_window l"
      and e: "\<And>k. entry l' k = entry l k \<or> entry l' k = None \<and> (\<exists>e. entry l k = Some e \<and> expired l now e)"
    have "dead_entry l' start k" using e [of k] Cons.prems(3) r(3) by (auto simp: dead_entry_def expired_def)
    then have "checked k as l' \<le> lm_max l'" using size' r Cons.prems by (intro Cons.IH) (auto simp: a)
    then show ?thesis using r by (simp add: a)
  next
    fix l' assume r: "attempt (now, ip, user) l = (True, l')" "lm_max l' = lm_max l" "lm_window l' = lm_window l"
      and other: "\<And>k. k \<notin> set (loginLimiterKeys ip user) \<Longrightarrow>
         entry l' k = entry l k \<or> entry l' k = None \<and> (\<exists>e. entry l k = Some e \<and> expired l now e)"
      and own: "\<And>k. k \<in> set (loginLimiterKeys ip user) \<Longrightarrow> entry l' k = Some (case entry l k of
         None \<Rightarrow> \<lparr>lf_count = 1, lf_first = now\<rparr>
       | Some e \<Rightarrow> if expired l now e then \<lparr>lf_count = 1, lf_first = now\<rparr> else e\<lparr>lf_count := lf_count e + 1\<rparr>)"
    show ?thesis
    proof (cases "k \<in> set (loginLimiterKeys ip user)")
      case True
      have "entry l' k = Some \<lparr>lf_count = 1, lf_first = now\<rparr>"
        using own [OF True] dead by (auto simp: dead_entry_def split: option.split)
      then have "checked k as l' \<le> max 0 (lm_max l' - 1)"
        using size' r Cons.prems(4,5) checked_live [of l' as k "\<lparr>lf_count = 1, lf_first = now\<rparr>"]
        by (force simp: a loginLimiterMaxEntries_def)
      then show ?thesis using r True Cons.prems(2) by (simp add: a)
    next
      case False
      then have "dead_entry l' start k" using other [of k] Cons.prems(3) r(3) by (auto simp: dead_entry_def expired_def)
      then have "checked k as l' \<le> lm_max l'" using size' r Cons.prems by (intro Cons.IH) (auto simp: a)
      then show ?thesis using r False by (simp add: a)
    qed
  qed
qed simp

theorem limiter_bounds_guesses_witness:
  "checked (''user'' @ [CHR 0x00] @ ''root'') (replicate 7 (3, ''10.0.0.1'', ''Root'')) (newLoginLimiter None None) \<le> 5"
proof -
  define l where "l = newLoginLimiter None None"
  have l: "lm_entries l = []" "lm_max l = 5" "lm_window l = 900000000000"
    by (simp_all add: l_def newLoginLimiter_def envPositiveIntDefault_def wrap64_def)
  have "checked (''user'' @ [CHR 0x00] @ ''root'') (replicate 7 (3, ''10.0.0.1'', ''Root'')) l \<le> lm_max l"
    by (rule limiter_bounds_guesses [where start = 3]) (simp_all add: l dead_entry_def)
  then show ?thesis by (simp add: l l_def [symmetric])
qed

end
