(* ===== verification/Accounts.thy ===== *)
theory Accounts
  imports Login_Limiter Scan_Handlers
begin

text \<open>
  Dashboard users, their sessions and the API tokens: the tables of migrations 042, 043 and 062
  (\<^verbatim>\<open>internal/server/db/users_tokens.go\<close>, \<^verbatim>\<open>internal/server/db/session.go\<close>), the token cache
  (\<^verbatim>\<open>internal/server/api/api_token_store.go\<close>) and the handlers (\<^verbatim>\<open>users_tokens_handlers.go\<close>,
  \<^verbatim>\<open>auth_handlers.go\<close>). Times are nanoseconds. SHA-256, bcrypt and the random generator are parameters. A
  statement fails where a constraint refuses it; besides, the deletion of sessions after a change of a user and
  the refresh of the cache, whose errors the code ignores, may fail at will.
\<close>

section \<open>Tables\<close>

record localUser =
  lu_id :: string
  lu_name :: string
  lu_hash :: string
  lu_role :: string

record session =
  se_id :: string
  se_user :: string
  se_hash :: string
  se_expires :: int
  se_lastUsed :: int
  se_ip :: string
  se_agent :: string

record apiToken =
  at_id :: string
  at_name :: string
  at_hash :: string
  at_prefix :: string
  at_role :: string
  at_subject :: string
  at_createdBy :: string
  at_created :: int
  at_expires :: "int option"
  at_lastUsed :: "int option"
  at_revoked :: "int option"

definition validUserRole :: "string \<Rightarrow> bool" where
  "validUserRole role \<longleftrightarrow> role = ''admin'' \<or> role = ''viewer''"

datatype account_error = DuplicateKey | CheckViolation

text \<open>Users: unique ids and names, and the check on the role.\<close>

definition CreateLocalUser :: "string \<Rightarrow> string \<Rightarrow> string \<Rightarrow> string \<Rightarrow> localUser list \<Rightarrow> account_error + localUser \<times> localUser list" where
  "CreateLocalUser newId username passwordHash role users =
     (let u = \<lparr>lu_id = newId, lu_name = username, lu_hash = passwordHash, lu_role = role\<rparr> in
      if list_ex (\<lambda>v. lu_id v = newId \<or> lu_name v = username) users then Inl DuplicateKey
      else if \<not> validUserRole role then Inl CheckViolation
      else Inr (u, users @ [u]))"

definition GetLocalUserByUsername :: "string \<Rightarrow> localUser list \<Rightarrow> localUser option" where
  "GetLocalUserByUsername username users = find (\<lambda>u. lu_name u = username) users"

definition GetLocalUserByID :: "string \<Rightarrow> localUser list \<Rightarrow> localUser option" where
  "GetLocalUserByID k users = find (\<lambda>u. lu_id u = k) users"

definition UpdateLocalUserPassword :: "string \<Rightarrow> string \<Rightarrow> localUser list \<Rightarrow> localUser list" where
  "UpdateLocalUserPassword k passwordHash users =
     map (\<lambda>u. if lu_id u = k then u\<lparr>lu_hash := passwordHash\<rparr> else u) users"

definition CountLocalUsers :: "localUser list \<Rightarrow> nat" where
  "CountLocalUsers users = length users"

definition CountLocalAdmins :: "localUser list \<Rightarrow> nat" where
  "CountLocalAdmins users = length (filter (\<lambda>u. lu_role u = ''admin'') users)"

text \<open>The rows without their password hash, in the order of the names.\<close>

definition ListLocalUsers :: "localUser list \<Rightarrow> (string \<times> string \<times> string) list" where
  "ListLocalUsers users = map (\<lambda>u. (lu_id u, lu_name u, lu_role u)) (sort_key lu_name users)"

datatype UserGuardResult = UserGuardOK | UserGuardNotFound | UserGuardLastAdmin

text \<open>The role of the target (\<open>None\<close> when there is none) and the number of administrators.\<close>

definition lockAdminsAndTarget :: "string \<Rightarrow> localUser list \<Rightarrow> string option \<times> nat" where
  "lockAdminsAndTarget k users =
     (case GetLocalUserByID k users of
        None \<Rightarrow> (None, CountLocalAdmins users)
      | Some u \<Rightarrow> (Some (lu_role u), CountLocalAdmins users))"

definition UpdateLocalUserRoleGuarded :: "string \<Rightarrow> string \<Rightarrow> localUser list \<Rightarrow> UserGuardResult \<times> localUser list" where
  "UpdateLocalUserRoleGuarded k role users =
     (case lockAdminsAndTarget k users of
        (None, adminCount) \<Rightarrow> (UserGuardNotFound, users)
      | (Some targetRole, adminCount) \<Rightarrow>
          if targetRole = ''admin'' \<and> role \<noteq> ''admin'' \<and> adminCount \<le> 1 then (UserGuardLastAdmin, users)
          else (UserGuardOK, map (\<lambda>u. if lu_id u = k then u\<lparr>lu_role := role\<rparr> else u) users))"

text \<open>Deleting a user deletes its sessions by the foreign key.\<close>

definition DeleteLocalUserGuarded :: "string \<Rightarrow> localUser list \<Rightarrow> session list
    \<Rightarrow> UserGuardResult \<times> localUser list \<times> session list" where
  "DeleteLocalUserGuarded k users sessions =
     (case lockAdminsAndTarget k users of
        (None, adminCount) \<Rightarrow> (UserGuardNotFound, users, sessions)
      | (Some targetRole, adminCount) \<Rightarrow>
          if targetRole = ''admin'' \<and> adminCount \<le> 1 then (UserGuardLastAdmin, users, sessions)
          else (UserGuardOK, filter (\<lambda>u. lu_id u \<noteq> k) users, filter (\<lambda>s. se_user s \<noteq> k) sessions))"

text \<open>Sessions: unique ids and hashes, and a user that exists.\<close>

definition CreateSession :: "string \<Rightarrow> string \<Rightarrow> string \<Rightarrow> int \<Rightarrow> int \<Rightarrow> string \<Rightarrow> string \<Rightarrow> localUser list \<Rightarrow> session list
    \<Rightarrow> account_error + session list" where
  "CreateSession newId userID tokenHash now expiresAt ip userAgent users sessions =
     (if list_ex (\<lambda>s. se_id s = newId \<or> se_hash s = tokenHash) sessions then Inl DuplicateKey
      else if \<not> list_ex (\<lambda>u. lu_id u = userID) users then Inl CheckViolation
      else Inr (sessions @ [\<lparr>se_id = newId, se_user = userID, se_hash = tokenHash, se_expires = expiresAt,
                             se_lastUsed = now, se_ip = ip, se_agent = userAgent\<rparr>]))"

definition GetSessionByTokenHash :: "string \<Rightarrow> int \<Rightarrow> session list \<Rightarrow> session option" where
  "GetSessionByTokenHash tokenHash now sessions = find (\<lambda>s. se_hash s = tokenHash \<and> se_expires s > now) sessions"

definition TouchSession :: "int \<Rightarrow> string \<Rightarrow> session list \<Rightarrow> session list" where
  "TouchSession now k sessions = map (\<lambda>s. if se_id s = k then s\<lparr>se_lastUsed := now\<rparr> else s) sessions"

definition DeleteSession :: "string \<Rightarrow> session list \<Rightarrow> session list" where
  "DeleteSession k sessions = filter (\<lambda>s. se_id s \<noteq> k) sessions"

definition DeleteExpiredSessions :: "int \<Rightarrow> session list \<Rightarrow> session list" where
  "DeleteExpiredSessions now sessions = filter (\<lambda>s. \<not> se_expires s \<le> now) sessions"

definition DeleteUserSessions :: "string \<Rightarrow> session list \<Rightarrow> nat \<times> session list" where
  "DeleteUserSessions userID sessions =
     (length (filter (\<lambda>s. se_user s = userID) sessions), filter (\<lambda>s. se_user s \<noteq> userID) sessions)"

text \<open>Tokens: unique ids and hashes, and the check on the role.\<close>

definition CreateAPIToken :: "string \<Rightarrow> int \<Rightarrow> string \<Rightarrow> string \<Rightarrow> string \<Rightarrow> string \<Rightarrow> string \<Rightarrow> string \<Rightarrow> int option
    \<Rightarrow> apiToken list \<Rightarrow> account_error + apiToken \<times> apiToken list" where
  "CreateAPIToken newId now name tokenHash prefix role subject createdBy expiresAt tokens =
     (let t = \<lparr>at_id = newId, at_name = name, at_hash = tokenHash, at_prefix = prefix, at_role = role,
               at_subject = subject, at_createdBy = createdBy, at_created = now, at_expires = expiresAt,
               at_lastUsed = None, at_revoked = None\<rparr> in
      if list_ex (\<lambda>v. at_id v = newId \<or> at_hash v = tokenHash) tokens then Inl DuplicateKey
      else if \<not> validUserRole role then Inl CheckViolation
      else Inr (t, tokens @ [t]))"

definition ListAPITokens :: "apiToken list \<Rightarrow> apiToken list" where
  "ListAPITokens tokens = sort_key (\<lambda>t. - at_created t) tokens"

definition revokedRow :: "int \<Rightarrow> string \<Rightarrow> apiToken \<Rightarrow> apiToken" where
  "revokedRow now k t =
     (if at_id t = k then t\<lparr>at_revoked := (case at_revoked t of None \<Rightarrow> Some now | Some r \<Rightarrow> Some r)\<rparr> else t)"

definition RevokeAPIToken :: "int \<Rightarrow> string \<Rightarrow> apiToken list \<Rightarrow> (string \<times> apiToken list) option" where
  "RevokeAPIToken now k tokens =
     (case find (\<lambda>t. at_id t = k) tokens of
        None \<Rightarrow> None
      | Some t \<Rightarrow> Some (at_hash t, map (revokedRow now k) tokens))"

record ActiveAPIToken =
  aa_id :: string
  aa_hash :: string
  aa_role :: string
  aa_subject :: string
  aa_expires :: "int option"

definition activeToken :: "int \<Rightarrow> apiToken \<Rightarrow> bool" where
  "activeToken now t \<longleftrightarrow> at_revoked t = None \<and> (case at_expires t of None \<Rightarrow> True | Some e \<Rightarrow> e > now)"

definition ActiveAPITokens :: "int \<Rightarrow> apiToken list \<Rightarrow> ActiveAPIToken list" where
  "ActiveAPITokens now tokens =
     map (\<lambda>t. \<lparr>aa_id = at_id t, aa_hash = at_hash t, aa_role = at_role t, aa_subject = at_subject t,
               aa_expires = at_expires t\<rparr>) (filter (activeToken now) tokens)"

definition TouchAPIToken :: "int \<Rightarrow> string \<Rightarrow> apiToken list \<Rightarrow> apiToken list" where
  "TouchAPIToken now k tokens = map (\<lambda>t. if at_id t = k then t\<lparr>at_lastUsed := Some now\<rparr> else t) tokens"

section \<open>The server's state\<close>

record apiTokenEntry =
  te_id :: string
  te_role :: string
  te_subject :: string
  te_expires :: "int option"

record accounts =
  ac_users :: "localUser list"
  ac_sessions :: "session list"
  ac_tokens :: "apiToken list"
  ac_cache :: "(string \<times> apiTokenEntry) list"
  ac_lastSeen :: "(string \<times> int) list"
  ac_limiter :: "loginLimiter option"
  ac_audit :: "(string \<times> string \<times> string \<times> string) list"

record authConfig =
  au_apiKey :: string
  au_sha :: "string \<Rightarrow> string"
  au_bcrypt :: "string \<Rightarrow> string option"
  au_compare :: "string \<Rightarrow> string \<Rightarrow> bool"
  au_maxAge :: int
  au_weakSecrets :: bool

text \<open>
  A request: its headers, the address it comes from, and what the proxy's headers and OIDC say: whether its sender is an
  administrator, and who it is when it has no session.
\<close>

record request =
  rq_key :: string
  rq_auth :: string
  rq_cookie :: string
  rq_ip :: string
  rq_agent :: string
  rq_identityAdmin :: bool
  rq_actor :: string

definition record_audit :: "string \<Rightarrow> string \<Rightarrow> string \<Rightarrow> string \<Rightarrow> accounts \<Rightarrow> accounts" where
  "record_audit action resourceType resourceID st ac =
     ac\<lparr>ac_audit := ac_audit ac @ [(action, resourceType, resourceID, st)]\<rparr>"

section \<open>The token cache\<close>

definition refreshInstall :: "ActiveAPIToken list \<Rightarrow> accounts \<Rightarrow> accounts" where
  "refreshInstall tokens ac =
     (let next = fold (\<lambda>t. AList.update (aa_hash t)
                 \<lparr>te_id = aa_id t, te_role = aa_role t, te_subject = aa_subject t, te_expires = aa_expires t\<rparr>) tokens [];
          activeIDs = set (map aa_id tokens)
      in ac\<lparr>ac_cache := next, ac_lastSeen := filter (\<lambda>(k, t). k \<in> activeIDs) (ac_lastSeen ac)\<rparr>)"

definition refresh :: "bool \<Rightarrow> int \<Rightarrow> accounts \<Rightarrow> accounts" where
  "refresh fails now ac = (if fails then ac else refreshInstall (ActiveAPITokens now (ac_tokens ac)) ac)"

definition put :: "string \<Rightarrow> apiTokenEntry \<Rightarrow> accounts \<Rightarrow> accounts" where
  "put hash e ac = (if hash = [] then ac else ac\<lparr>ac_cache := AList.update hash e (ac_cache ac)\<rparr>)"

definition evict :: "string \<Rightarrow> accounts \<Rightarrow> accounts" where
  "evict hash ac = (if hash = [] then ac else ac\<lparr>ac_cache := AList.delete hash (ac_cache ac)\<rparr>)"

definition tokenLookup :: "authConfig \<Rightarrow> int \<Rightarrow> string \<Rightarrow> accounts \<Rightarrow> apiTokenEntry option" where
  "tokenLookup cfg now secret ac =
     (if secret = [] then None
      else case map_of (ac_cache ac) (au_sha cfg secret) of
             None \<Rightarrow> None
           | Some e \<Rightarrow>
               (case te_expires e of
                  Some t \<Rightarrow> if \<not> t > now then None else Some e
                | None \<Rightarrow> Some e))"

text \<open>The write of the background goroutine is part of the step.\<close>

definition markUsed :: "int \<Rightarrow> string \<Rightarrow> accounts \<Rightarrow> accounts" where
  "markUsed now k ac =
     (if k = [] then ac
      else if (case map_of (ac_lastSeen ac) k of Some seen \<Rightarrow> now - seen < 60000000000 | None \<Rightarrow> False) then ac
      else ac\<lparr>ac_lastSeen := AList.update k now (ac_lastSeen ac), ac_tokens := TouchAPIToken now k (ac_tokens ac)\<rparr>)"

definition bearer :: "request \<Rightarrow> string" where
  "bearer rq = (if HasPrefix (rq_auth rq) ''Bearer '' then TrimSpace (TrimPrefix (rq_auth rq) ''Bearer '') else [])"

definition apiTokenFromRequest :: "authConfig \<Rightarrow> int \<Rightarrow> request \<Rightarrow> accounts \<Rightarrow> apiTokenEntry option \<times> accounts" where
  "apiTokenFromRequest cfg now rq ac =
     (let key = (if rq_key rq = [] then bearer rq else rq_key rq)
      in case tokenLookup cfg now key ac of
           None \<Rightarrow> (None, ac)
         | Some e \<Rightarrow> (Some e, markUsed now (te_id e) ac))"

section \<open>Who is asking\<close>

definition sessionToken :: "request \<Rightarrow> string" where
  "sessionToken rq = (if rq_cookie rq \<noteq> [] then rq_cookie rq else bearer rq)"

definition sessionFromRequest :: "authConfig \<Rightarrow> int \<Rightarrow> request \<Rightarrow> accounts \<Rightarrow> session option \<times> accounts" where
  "sessionFromRequest cfg now rq ac =
     (let token = sessionToken rq in
      if token = [] then (None, ac)
      else case GetSessionByTokenHash (au_sha cfg token) now (ac_sessions ac) of
             None \<Rightarrow> (None, ac)
           | Some s \<Rightarrow> (Some s, ac\<lparr>ac_sessions := TouchSession now (se_id s) (ac_sessions ac)\<rparr>))"

definition sessionUser :: "authConfig \<Rightarrow> int \<Rightarrow> request \<Rightarrow> accounts \<Rightarrow> localUser option \<times> accounts" where
  "sessionUser cfg now rq ac =
     (case sessionFromRequest cfg now rq ac of
        (None, ac) \<Rightarrow> (None, ac)
      | (Some s, ac) \<Rightarrow> (GetLocalUserByID (se_user s) (ac_users ac), ac))"

definition sessionUserRole :: "authConfig \<Rightarrow> int \<Rightarrow> request \<Rightarrow> accounts \<Rightarrow> string \<times> accounts" where
  "sessionUserRole cfg now rq ac =
     (case sessionUser cfg now rq ac of (None, ac) \<Rightarrow> ([], ac) | (Some u, ac) \<Rightarrow> (lu_role u, ac))"

definition authenticateAdmin :: "authConfig \<Rightarrow> int \<Rightarrow> request \<Rightarrow> accounts \<Rightarrow> bool \<times> accounts" where
  "authenticateAdmin cfg now rq ac =
     (if matchKey (rq_key rq) (au_apiKey cfg) then (True, ac)
      else
        (case apiTokenFromRequest cfg now rq ac of (found, ac) \<Rightarrow>
           if (case found of Some e \<Rightarrow> te_role e = ''admin'' | None \<Rightarrow> False) then (True, ac)
           else
             (case sessionUser cfg now rq ac of (u, ac) \<Rightarrow>
                ((case u of Some u \<Rightarrow> lu_role u = ''admin'' | None \<Rightarrow> False) \<or> rq_identityAdmin rq, ac))))"

definition actorID :: "authConfig \<Rightarrow> int \<Rightarrow> request \<Rightarrow> accounts \<Rightarrow> string \<times> accounts" where
  "actorID cfg now rq ac =
     (case sessionUser cfg now rq ac of (Some u, ac) \<Rightarrow> (lu_name u, ac) | (None, ac) \<Rightarrow> (rq_actor rq, ac))"

definition asAdmin :: "authConfig \<Rightarrow> int \<Rightarrow> request \<Rightarrow> (accounts \<Rightarrow> 'a scan_reply \<times> accounts) \<Rightarrow> accounts \<Rightarrow> 'a scan_reply \<times> accounts" where
  "asAdmin cfg now rq f ac =
     (case authenticateAdmin cfg now rq ac of
        (False, ac) \<Rightarrow> (Inl (401, ''unauthorized''), ac)
      | (True, ac) \<Rightarrow> f ac)"

end
