(* ===== verification/Account_Handlers.thy ===== *)
theory Account_Handlers
  imports Accounts
begin

text \<open>
  The handlers of users, API tokens and logins: \<^verbatim>\<open>internal/server/api/users_tokens_handlers.go\<close> and
  \<^verbatim>\<open>internal/server/api/auth_handlers.go\<close>. A handler maps a request and the state to a response and the next
  state; a body that cannot be decoded is \<open>Inl\<close>. The arguments \<open>newId\<close> and \<open>raw\<close> are the id the database
  generates and the bytes of the random generator, \<open>None\<close> when it fails.
\<close>

section \<open>Users\<close>

definition minUserPasswordLen :: "authConfig \<Rightarrow> nat" where
  "minUserPasswordLen cfg = (if au_weakSecrets cfg then 1 else 12)"

record userBody =
  ub_username :: string
  ub_password :: string
  ub_role :: string

definition handleListUsers :: "authConfig \<Rightarrow> int \<Rightarrow> request \<Rightarrow> accounts \<Rightarrow> (string \<times> string \<times> string) list scan_reply \<times> accounts" where
  "handleListUsers cfg now rq = asAdmin cfg now rq (\<lambda>ac. (Inr (ListLocalUsers (ac_users ac)), ac))"

definition handleCreateUser :: "authConfig \<Rightarrow> int \<Rightarrow> request \<Rightarrow> string \<Rightarrow> bool + userBody \<Rightarrow> accounts
    \<Rightarrow> (string \<times> string \<times> string) scan_reply \<times> accounts" where
  "handleCreateUser cfg now rq newId body = asAdmin cfg now rq (\<lambda>ac.
     case body of
       Inl large \<Rightarrow> (Inl (badBody large), ac)
     | Inr b \<Rightarrow>
         let username = TrimSpace (ub_username b); role = TrimSpace (ub_role b) in
         if username = [] then (Inl (400, ''username is required''), ac)
         else if \<not> validUserRole role then (Inl (400, ''role must be admin or viewer''), ac)
         else if length (ub_password b) < minUserPasswordLen cfg then (Inl (400, ''password too short''), ac)
         else case au_bcrypt cfg (ub_password b) of
                None \<Rightarrow> (Inl (500, ''internal error''), ac)
              | Some hash \<Rightarrow>
                  (case CreateLocalUser newId username hash role (ac_users ac) of
                     Inl DuplicateKey \<Rightarrow> (Inl (409, ''username already exists''), ac)
                   | Inl CheckViolation \<Rightarrow> (Inl (500, ''db error''), ac)
                   | Inr (u, users) \<Rightarrow>
                       (Inr (lu_id u, lu_name u, lu_role u),
                        record_audit ''user.create'' ''local_user'' (lu_id u) ''ok'' (ac\<lparr>ac_users := users\<rparr>))))"

definition handleUpdateUserRole :: "authConfig \<Rightarrow> int \<Rightarrow> request \<Rightarrow> bool \<Rightarrow> string \<Rightarrow> bool + string \<Rightarrow> accounts
    \<Rightarrow> (string \<times> string) scan_reply \<times> accounts" where
  "handleUpdateUserRole cfg now rq deleteFails path body = asAdmin cfg now rq (\<lambda>ac.
     let k = TrimSpace path in
     case body of
       Inl large \<Rightarrow> (Inl (badBody large), ac)
     | Inr role \<Rightarrow>
         if \<not> validUserRole role then (Inl (400, ''role must be admin or viewer''), ac)
         else case GetLocalUserByID k (ac_users ac) of
                None \<Rightarrow> (Inl (404, ''user not found''), ac)
              | Some target \<Rightarrow>
                  (case UpdateLocalUserRoleGuarded k role (ac_users ac) of
                     (res, users) \<Rightarrow>
                       (case res of
                          UserGuardNotFound \<Rightarrow> (Inl (404, ''user not found''), ac)
                        | UserGuardLastAdmin \<Rightarrow> (Inl (409, ''cannot demote the last admin user''), ac)
                        | UserGuardOK \<Rightarrow>
                            let sessions = (if deleteFails then ac_sessions ac else snd (DeleteUserSessions k (ac_sessions ac)))
                            in (Inr (k, role), record_audit ''user.update_role'' ''local_user'' k ''ok''
                                  (ac\<lparr>ac_users := users, ac_sessions := sessions\<rparr>)))))"

definition handleResetUserPassword :: "authConfig \<Rightarrow> int \<Rightarrow> request \<Rightarrow> bool \<Rightarrow> string \<Rightarrow> bool + string \<Rightarrow> accounts
    \<Rightarrow> nat scan_reply \<times> accounts" where
  "handleResetUserPassword cfg now rq deleteFails path body = asAdmin cfg now rq (\<lambda>ac.
     let k = TrimSpace path in
     case body of
       Inl large \<Rightarrow> (Inl (badBody large), ac)
     | Inr password \<Rightarrow>
         if length password < minUserPasswordLen cfg then (Inl (400, ''password too short''), ac)
         else case GetLocalUserByID k (ac_users ac) of
                None \<Rightarrow> (Inl (404, ''user not found''), ac)
              | Some target \<Rightarrow>
                  (case au_bcrypt cfg password of
                     None \<Rightarrow> (Inl (500, ''internal error''), ac)
                   | Some hash \<Rightarrow>
                       let (revoked, sessions) = (if deleteFails then (0, ac_sessions ac) else DeleteUserSessions k (ac_sessions ac))
                       in (Inr revoked, record_audit ''user.reset_password'' ''local_user'' k ''ok''
                             (ac\<lparr>ac_users := UpdateLocalUserPassword k hash (ac_users ac), ac_sessions := sessions\<rparr>))))"

definition deleteTarget :: "string \<Rightarrow> accounts \<Rightarrow> string scan_reply \<times> accounts" where
  "deleteTarget k ac =
     (case DeleteLocalUserGuarded k (ac_users ac) (ac_sessions ac) of
        (res, users, sessions) \<Rightarrow>
          (case res of
             UserGuardNotFound \<Rightarrow> (Inl (404, ''user not found''), ac)
           | UserGuardLastAdmin \<Rightarrow> (Inl (409, ''cannot delete the last admin user''), ac)
           | UserGuardOK \<Rightarrow>
               (Inr k, record_audit ''user.delete'' ''local_user'' k ''ok''
                  (ac\<lparr>ac_users := users, ac_sessions := sessions\<rparr>))))"

definition handleDeleteUser :: "authConfig \<Rightarrow> int \<Rightarrow> request \<Rightarrow> string \<Rightarrow> accounts \<Rightarrow> string scan_reply \<times> accounts" where
  "handleDeleteUser cfg now rq path = asAdmin cfg now rq (\<lambda>ac.
     let k = TrimSpace path in
     case GetLocalUserByID k (ac_users ac) of
       None \<Rightarrow> (Inl (404, ''user not found''), ac)
     | Some target \<Rightarrow>
         (case sessionUser cfg now rq ac of (cur, ac) \<Rightarrow>
            if (case cur of Some u \<Rightarrow> lu_id u = k | None \<Rightarrow> False) then
              (Inl (409, ''cannot delete your own account''), ac)
            else
              deleteTarget k ac))"

section \<open>API tokens\<close>

definition ellipsis :: string where
  "ellipsis = [CHR 0xE2, CHR 0x80, CHR 0xA6]"

text \<open>Secret, displayed prefix and hash.\<close>

definition generateAPITokenSecret :: "authConfig \<Rightarrow> string option \<Rightarrow> (string \<times> string \<times> string) option" where
  "generateAPITokenSecret cfg raw =
     (case raw of
        None \<Rightarrow> None
      | Some buf \<Rightarrow>
          let secret = ''bsk_'' @ hexEncode buf
          in Some (secret, take 12 secret @ ellipsis, au_sha cfg secret))"

record tokenBody =
  tb_name :: string
  tb_role :: string
  tb_subject :: string
  tb_days :: int

definition handleListAPITokens :: "authConfig \<Rightarrow> int \<Rightarrow> request \<Rightarrow> accounts \<Rightarrow> apiToken list scan_reply \<times> accounts" where
  "handleListAPITokens cfg now rq = asAdmin cfg now rq (\<lambda>ac. (Inr (ListAPITokens (ac_tokens ac)), ac))"

text \<open>\<^verbatim>\<open>time.Duration(days) * 24 * time.Hour\<close> in 64-bit arithmetic.\<close>

definition daysDuration :: "int \<Rightarrow> int" where
  "daysDuration days = wrap64 (wrap64 (days * 24) * 3600000000000)"

definition tokenExpiry :: "int \<Rightarrow> int \<Rightarrow> int option" where
  "tokenExpiry now days = (if days > 0 then Some (now + daysDuration days) else None)"

text \<open>The insert, and the cache made to know the token.\<close>

definition storeToken :: "int \<Rightarrow> bool \<Rightarrow> string \<Rightarrow> string \<Rightarrow> string \<Rightarrow> string \<Rightarrow> string \<Rightarrow> int option \<Rightarrow> string \<Rightarrow> string \<Rightarrow> string
    \<Rightarrow> accounts \<Rightarrow> (apiToken \<times> string) scan_reply \<times> accounts" where
  "storeToken now refreshFails newId name role subject actor expiry secret prefix hash ac =
     (case CreateAPIToken newId now name hash prefix role subject actor expiry (ac_tokens ac) of
        Inl e \<Rightarrow> (Inl (500, ''db error''), ac)
      | Inr (t, tokens) \<Rightarrow>
          let te = \<lparr>te_id = at_id t, te_role = at_role t, te_subject = at_subject t, te_expires = at_expires t\<rparr>
          in (Inr (t, secret),
              record_audit ''api_token.create'' ''api_token'' (at_id t) ''ok''
                (refresh refreshFails now (put hash te (ac\<lparr>ac_tokens := tokens\<rparr>)))))"

definition handleCreateAPIToken :: "authConfig \<Rightarrow> int \<Rightarrow> request \<Rightarrow> bool \<Rightarrow> string \<Rightarrow> string option \<Rightarrow> bool + tokenBody \<Rightarrow> accounts
    \<Rightarrow> (apiToken \<times> string) scan_reply \<times> accounts" where
  "handleCreateAPIToken cfg now rq refreshFails newId raw body = asAdmin cfg now rq (\<lambda>ac.
     case body of
       Inl large \<Rightarrow> (Inl (badBody large), ac)
     | Inr b \<Rightarrow>
         let name = TrimSpace (tb_name b); role = TrimSpace (tb_role b); subject = TrimSpace (tb_subject b) in
         if name = [] then (Inl (400, ''name is required''), ac)
         else if \<not> validUserRole role then (Inl (400, ''role must be admin or viewer''), ac)
         else if role = ''viewer'' \<and> subject = [] then
           (Inl (400, ''viewer tokens require a subject (e.g. user:alice or group:platform)''), ac)
         else case generateAPITokenSecret cfg raw of
                None \<Rightarrow> (Inl (500, ''could not generate token''), ac)
              | Some (secret, prefix, hash) \<Rightarrow>
                  (case actorID cfg now rq ac of (actor, ac) \<Rightarrow>
                     storeToken now refreshFails newId name role subject actor (tokenExpiry now (tb_days b)) secret prefix hash ac))"

definition handleRevokeAPIToken :: "authConfig \<Rightarrow> int \<Rightarrow> request \<Rightarrow> bool \<Rightarrow> string \<Rightarrow> accounts \<Rightarrow> string scan_reply \<times> accounts" where
  "handleRevokeAPIToken cfg now rq refreshFails path = asAdmin cfg now rq (\<lambda>ac.
     let k = TrimSpace path in
     case RevokeAPIToken now k (ac_tokens ac) of
       None \<Rightarrow> (Inl (404, ''token not found''), ac)
     | Some (hash, tokens) \<Rightarrow>
         (Inr k, record_audit ''api_token.revoke'' ''api_token'' k ''ok''
            (refresh refreshFails now (evict hash (ac\<lparr>ac_tokens := tokens\<rparr>)))))"

section \<open>Logging in and out\<close>

definition limiterBlocked :: "int \<Rightarrow> string \<Rightarrow> string \<Rightarrow> accounts \<Rightarrow> bool \<times> accounts" where
  "limiterBlocked now ip username ac =
     (case ac_limiter ac of
        None \<Rightarrow> (False, ac)
      | Some l \<Rightarrow> (case Login_Limiter.blocked now ip username l of (b, l) \<Rightarrow> (b, ac\<lparr>ac_limiter := Some l\<rparr>)))"

definition limiterFail :: "int \<Rightarrow> string \<Rightarrow> string \<Rightarrow> accounts \<Rightarrow> accounts" where
  "limiterFail now ip username ac = ac\<lparr>ac_limiter := map_option (Login_Limiter.fail now ip username) (ac_limiter ac)\<rparr>"

definition limiterSuccess :: "string \<Rightarrow> string \<Rightarrow> accounts \<Rightarrow> accounts" where
  "limiterSuccess ip username ac = ac\<lparr>ac_limiter := map_option (success ip username) (ac_limiter ac)\<rparr>"

text \<open>Token and its hash.\<close>

definition generateSessionToken :: "authConfig \<Rightarrow> string option \<Rightarrow> (string \<times> string) option" where
  "generateSessionToken cfg raw = map_option (\<lambda>b. (hexEncode b, au_sha cfg (hexEncode b))) raw"

definition sanitizeUser :: "localUser \<Rightarrow> string \<times> string \<times> string" where
  "sanitizeUser u = (lu_id u, lu_name u, lu_role u)"

text \<open>The response of a login: the cookie's token, the user and the expiry.\<close>

type_synonym login_reply = "string \<times> (string \<times> string \<times> string) \<times> int"

definition startSession :: "authConfig \<Rightarrow> int \<Rightarrow> request \<Rightarrow> string \<Rightarrow> string option \<Rightarrow> localUser \<Rightarrow> accounts
    \<Rightarrow> login_reply scan_reply \<times> accounts" where
  "startSession cfg now rq newId raw u ac =
     (case generateSessionToken cfg raw of
        None \<Rightarrow> (Inl (500, ''internal error''), ac)
      | Some (token, tokenHash) \<Rightarrow>
          let expiresAt = now + au_maxAge cfg in
          (case CreateSession newId (lu_id u) tokenHash now expiresAt (rq_ip rq) (take 512 (rq_agent rq))
                  (ac_users ac) (ac_sessions ac) of
             Inl e \<Rightarrow> (Inl (500, ''internal error''), ac)
           | Inr sessions \<Rightarrow>
               (Inr (token, sanitizeUser u, expiresAt),
                record_audit ''auth.login'' ''local_user'' (lu_id u) ''ok'' (ac\<lparr>ac_sessions := sessions\<rparr>))))"

definition handleLogin :: "authConfig \<Rightarrow> int \<Rightarrow> request \<Rightarrow> string \<Rightarrow> string option \<Rightarrow> bool + string \<times> string \<Rightarrow> accounts
    \<Rightarrow> login_reply scan_reply \<times> accounts" where
  "handleLogin cfg now rq newId raw body ac =
     (case body of
        Inl large \<Rightarrow> (Inl (badBody large), ac)
      | Inr (name, password) \<Rightarrow>
          let username = TrimSpace name; ip = rq_ip rq in
          if username = [] \<or> password = [] then (Inl (400, ''username and password are required''), ac)
          else
            (case limiterBlocked now ip username ac of (stop, ac) \<Rightarrow>
               if stop then
                 (Inl (429, ''too many failed login attempts; try again later''),
                  record_audit ''auth.login'' ''local_user'' username ''rate_limited'' ac)
               else
                 (case GetLocalUserByUsername username (ac_users ac) of
                    None \<Rightarrow> (Inl (401, ''invalid credentials''),
                        record_audit ''auth.login'' ''local_user'' username ''denied'' (limiterFail now ip username ac))
                  | Some u \<Rightarrow>
                      if \<not> au_compare cfg (lu_hash u) password then
                        (Inl (401, ''invalid credentials''),
                         record_audit ''auth.login'' ''local_user'' (lu_id u) ''denied'' (limiterFail now ip username ac))
                      else
                        startSession cfg now rq newId raw u (limiterSuccess ip username ac))))"

definition handleLogout :: "authConfig \<Rightarrow> int \<Rightarrow> request \<Rightarrow> accounts \<Rightarrow> string scan_reply \<times> accounts" where
  "handleLogout cfg now rq ac =
     (case sessionFromRequest cfg now rq ac of
        (None, ac) \<Rightarrow> (Inr ''logged_out'', ac)
      | (Some s, ac) \<Rightarrow>
          (Inr ''logged_out'', record_audit ''auth.logout'' ''local_user'' (se_user s) ''ok''
             (ac\<lparr>ac_sessions := DeleteSession (se_id s) (ac_sessions ac)\<rparr>)))"

definition handleAuthMe :: "authConfig \<Rightarrow> int \<Rightarrow> request \<Rightarrow> accounts \<Rightarrow> (string \<times> string \<times> string) scan_reply \<times> accounts" where
  "handleAuthMe cfg now rq ac =
     (case sessionFromRequest cfg now rq ac of
        (None, ac) \<Rightarrow> (Inl (401, ''not authenticated''), ac)
      | (Some s, ac) \<Rightarrow>
          (case GetLocalUserByID (se_user s) (ac_users ac) of
             None \<Rightarrow> (Inl (401, ''user not found''), ac)
           | Some u \<Rightarrow> (Inr (sanitizeUser u), ac)))"

definition handleChangePassword :: "authConfig \<Rightarrow> int \<Rightarrow> request \<Rightarrow> bool + string \<times> string \<Rightarrow> accounts
    \<Rightarrow> string scan_reply \<times> accounts" where
  "handleChangePassword cfg now rq body ac =
     (case sessionFromRequest cfg now rq ac of
        (None, ac) \<Rightarrow> (Inl (401, ''not authenticated''), ac)
      | (Some s, ac) \<Rightarrow>
          (case body of
             Inl large \<Rightarrow> (Inl (badBody large), ac)
           | Inr (currentPassword, newPassword) \<Rightarrow>
               if currentPassword = [] \<or> newPassword = [] then
                 (Inl (400, ''current_password and new_password are required''), ac)
               else if length newPassword < minUserPasswordLen cfg then
                 (Inl (400, ''new password must be at least '' @ show_nat (minUserPasswordLen cfg) @ '' characters''), ac)
               else
                 (case GetLocalUserByID (se_user s) (ac_users ac) of
                    None \<Rightarrow> (Inl (401, ''user not found''), ac)
                  | Some u \<Rightarrow>
                      if \<not> au_compare cfg (lu_hash u) currentPassword then
                        (Inl (401, ''current password is incorrect''), ac)
                      else
                        (case au_bcrypt cfg newPassword of
                           None \<Rightarrow> (Inl (500, ''internal error''), ac)
                         | Some hash \<Rightarrow>
                             (Inr ''password_changed'', record_audit ''auth.change_password'' ''local_user'' (lu_id u) ''ok''
                                (ac\<lparr>ac_users := UpdateLocalUserPassword (lu_id u) hash (ac_users ac)\<rparr>))))))"

text \<open>The first administrator, made from the environment when there is no user yet.\<close>

definition bootstrapAdmin :: "authConfig \<Rightarrow> string \<Rightarrow> string \<Rightarrow> string \<Rightarrow> accounts \<Rightarrow> accounts" where
  "bootstrapAdmin cfg newId adminUserEnv adminPass ac =
     (let adminUser = TrimSpace adminUserEnv in
      if adminUser = [] \<or> adminPass = [] then ac
      else if length adminPass < (if au_weakSecrets cfg then 1 else 16) then ac
      else if CountLocalUsers (ac_users ac) > 0 then ac
      else case au_bcrypt cfg adminPass of
             None \<Rightarrow> ac
           | Some hash \<Rightarrow>
               (case CreateLocalUser newId adminUser hash ''admin'' (ac_users ac) of
                  Inl e \<Rightarrow> ac
                | Inr (u, users) \<Rightarrow> ac\<lparr>ac_users := users\<rparr>))"

definition sessionCleanup :: "int \<Rightarrow> accounts \<Rightarrow> accounts" where
  "sessionCleanup now ac = ac\<lparr>ac_sessions := DeleteExpiredSessions now (ac_sessions ac)\<rparr>"

end
