(* ===== verification/Account_Invariants.thy ===== *)
theory Account_Invariants
  imports Account_Handlers
begin

text \<open>
  What every operation on users, sessions and tokens preserves. The locale states what a predicate on the state has to
  survive, one law per write; inside it every handler and every interleaving with the periodic refresh is shown
  to preserve the predicate. It is interpreted three times: consistency of the tables, the last administrator, and the
  death of a revoked token.
\<close>

section \<open>Interleavings\<close>

text \<open>
  The requests are served one at a time; the periodic refresh of the token cache reads the table and
  installs what it read later, so the state carries the reads in flight.
\<close>

type_synonym account_world = "accounts \<times> ActiveAPIToken list list"

inductive handled :: "authConfig \<Rightarrow> accounts \<Rightarrow> accounts \<Rightarrow> bool" for cfg where
  list_users: "handled cfg ac (snd (handleListUsers cfg now rq ac))"
| create_user: "handled cfg ac (snd (handleCreateUser cfg now rq newId body ac))"
| update_role: "handled cfg ac (snd (handleUpdateUserRole cfg now rq fails path roleBody ac))"
| reset_password: "handled cfg ac (snd (handleResetUserPassword cfg now rq fails path passBody ac))"
| delete_user: "handled cfg ac (snd (handleDeleteUser cfg now rq path ac))"
| list_tokens: "handled cfg ac (snd (handleListAPITokens cfg now rq ac))"
| create_token: "handled cfg ac (snd (handleCreateAPIToken cfg now rq fails newId raw tokBody ac))"
| revoke_token: "handled cfg ac (snd (handleRevokeAPIToken cfg now rq fails path ac))"
| login: "handled cfg ac (snd (handleLogin cfg now rq newId raw loginBody ac))"
| logout: "handled cfg ac (snd (handleLogout cfg now rq ac))"
| auth_me: "handled cfg ac (snd (handleAuthMe cfg now rq ac))"
| change_password: "handled cfg ac (snd (handleChangePassword cfg now rq changeBody ac))"
| authenticate: "handled cfg ac (snd (authenticateAdmin cfg now rq ac))"
| bootstrap: "handled cfg ac (bootstrapAdmin cfg newId user pass ac)"
| cleanup: "handled cfg ac (sessionCleanup now ac)"

inductive account_step :: "authConfig \<Rightarrow> account_world \<Rightarrow> account_world \<Rightarrow> bool" for cfg where
  serve: "handled cfg ac ac' \<Longrightarrow> account_step cfg (ac, reads) (ac', reads)"
| refresh_read: "account_step cfg (ac, reads) (ac, ActiveAPITokens now (ac_tokens ac) # reads)"
| refresh_install: "ts \<in> set reads \<Longrightarrow> account_step cfg (ac, reads) (refreshInstall ts ac, remove1 ts reads)"

section \<open>The interface\<close>

definition entryOf :: "apiToken \<Rightarrow> apiTokenEntry" where
  "entryOf t = \<lparr>te_id = at_id t, te_role = at_role t, te_subject = at_subject t, te_expires = at_expires t\<rparr>"

locale account_invariant =
  fixes I :: "accounts \<Rightarrow> bool" and S :: "ActiveAPIToken list \<Rightarrow> bool"
  assumes audit: "I ac \<Longrightarrow> I (ac\<lparr>ac_audit := entries\<rparr>)"
    and limiter: "I ac \<Longrightarrow> I (ac\<lparr>ac_limiter := l\<rparr>)"
    and touch: "I ac \<Longrightarrow> I (ac\<lparr>ac_sessions := TouchSession now k (ac_sessions ac)\<rparr>)"
    and mark: "I ac \<Longrightarrow> I (ac\<lparr>ac_lastSeen := seen, ac_tokens := TouchAPIToken now k (ac_tokens ac)\<rparr>)"
    and create_user: "I ac \<Longrightarrow> CreateLocalUser k name hash role (ac_users ac) = Inr (u, users)
      \<Longrightarrow> I (ac\<lparr>ac_users := users\<rparr>)"
    and set_password: "I ac \<Longrightarrow> I (ac\<lparr>ac_users := UpdateLocalUserPassword k hash (ac_users ac)\<rparr>)"
    and set_role: "I ac \<Longrightarrow> validUserRole role \<Longrightarrow> UpdateLocalUserRoleGuarded k role (ac_users ac) = (UserGuardOK, users)
      \<Longrightarrow> I (ac\<lparr>ac_users := users\<rparr>)"
    and delete_user: "I ac \<Longrightarrow> DeleteLocalUserGuarded k (ac_users ac) (ac_sessions ac) = (UserGuardOK, users, sessions)
      \<Longrightarrow> I (ac\<lparr>ac_users := users, ac_sessions := sessions\<rparr>)"
    and drop_sessions: "I ac \<Longrightarrow> I (ac\<lparr>ac_sessions := filter P (ac_sessions ac)\<rparr>)"
    and create_session: "I ac \<Longrightarrow> CreateSession k user hash now expires ip agent (ac_users ac) (ac_sessions ac) = Inr sessions
      \<Longrightarrow> I (ac\<lparr>ac_sessions := sessions\<rparr>)"
    and create_token: "I ac \<Longrightarrow> CreateAPIToken k now name hash prefix role subject actor expiry (ac_tokens ac) = Inr (t, tokens)
      \<Longrightarrow> I (put hash (entryOf t) (ac\<lparr>ac_tokens := tokens\<rparr>))"
    and revoke: "I ac \<Longrightarrow> RevokeAPIToken now k (ac_tokens ac) = Some (hash, tokens)
      \<Longrightarrow> I (evict hash (ac\<lparr>ac_tokens := tokens\<rparr>))"
    and read: "I ac \<Longrightarrow> S (ActiveAPITokens now (ac_tokens ac))"
    and install: "I ac \<Longrightarrow> S ts \<Longrightarrow> I (refreshInstall ts ac)"
begin

lemma recorded: "I ac \<Longrightarrow> I (record_audit a b c d ac)"
  by (simp add: record_audit_def audit)

lemma refreshed: "I ac \<Longrightarrow> I (refresh fails now ac)"
  by (simp add: refresh_def install read)

lemma marked: "I ac \<Longrightarrow> I (markUsed now k ac)"
  by (simp add: markUsed_def mark)

text \<open>A handler keeps the predicate when each of its branches does.\<close>

lemma keep_if: "(c \<Longrightarrow> I (snd a)) \<Longrightarrow> (\<not> c \<Longrightarrow> I (snd b)) \<Longrightarrow> I (snd (if c then a else b))"
  by simp

lemma keep_sum:
  "(\<And>y. x = Inl y \<Longrightarrow> I (snd (f y))) \<Longrightarrow> (\<And>y. x = Inr y \<Longrightarrow> I (snd (g y))) \<Longrightarrow> I (snd (case x of Inl y \<Rightarrow> f y | Inr y \<Rightarrow> g y))"
  by (cases x) simp_all

lemma keep_option:
  "(x = None \<Longrightarrow> I (snd a)) \<Longrightarrow> (\<And>y. x = Some y \<Longrightarrow> I (snd (g y))) \<Longrightarrow> I (snd (case x of None \<Rightarrow> a | Some y \<Rightarrow> g y))"
  by (cases x) simp_all

lemma keep_bind:
  "I (snd p) \<Longrightarrow> (\<And>y ac. p = (y, ac) \<Longrightarrow> I ac \<Longrightarrow> I (snd (g y ac))) \<Longrightarrow> I (snd (case p of (y, ac) \<Rightarrow> g y ac))"
  by (cases p) simp

lemma keep_pair: "(\<And>y z. p = (y, z) \<Longrightarrow> I (snd (g y z))) \<Longrightarrow> I (snd (case p of (y, z) \<Rightarrow> g y z))"
  by (cases p) simp

lemma keep_done: "I ac \<Longrightarrow> I (snd (r, ac))"
  by simp

lemmas keep = keep_if keep_sum keep_option keep_done

lemma token_keeps: "I ac \<Longrightarrow> I (snd (apiTokenFromRequest cfg now rq ac))"
  unfolding apiTokenFromRequest_def Let_def by (intro keep) (simp_all add: marked)

lemma session_keeps: "I ac \<Longrightarrow> I (snd (sessionFromRequest cfg now rq ac))"
  unfolding sessionFromRequest_def Let_def by (intro keep) (simp_all add: touch)

lemma user_keeps: "I ac \<Longrightarrow> I (snd (sessionUser cfg now rq ac))"
  unfolding sessionUser_def by (rule keep_bind [OF session_keeps]) (auto intro: keep)

lemma admin_keeps: "I ac \<Longrightarrow> I (snd (authenticateAdmin cfg now rq ac))"
  unfolding authenticateAdmin_def
  by (intro keep_if keep_done keep_bind [OF token_keeps] keep_bind [OF user_keeps])

lemma actor_keeps: "I ac \<Longrightarrow> I (snd (actorID cfg now rq ac))"
  unfolding actorID_def by (rule keep_bind [OF user_keeps]) (auto intro: keep)

lemma asAdmin_keeps:
  assumes "\<And>ac. I ac \<Longrightarrow> I (snd (f ac))" "I ac"
  shows "I (snd (asAdmin cfg now rq f ac))"
  unfolding asAdmin_def by (rule keep_bind [OF admin_keeps [OF assms(2)]]) (simp add: assms(1) split: bool.split)

lemma handleListUsers_keeps: "I ac \<Longrightarrow> I (snd (handleListUsers cfg now rq ac))"
  unfolding handleListUsers_def by (rule asAdmin_keeps) simp_all

lemma handleListAPITokens_keeps: "I ac \<Longrightarrow> I (snd (handleListAPITokens cfg now rq ac))"
  unfolding handleListAPITokens_def by (rule asAdmin_keeps) simp_all

lemma handleCreateUser_keeps: "I ac \<Longrightarrow> I (snd (handleCreateUser cfg now rq newId body ac))"
  unfolding handleCreateUser_def Let_def
  by (rule asAdmin_keeps)
    (auto intro!: keep recorded intro: create_user split: account_error.split)

text \<open>A change of a user followed by the deletion of sessions.\<close>

lemma users_and_sessions:
  assumes "I (ac\<lparr>ac_users := users\<rparr>)"
  shows "I (ac\<lparr>ac_users := users, ac_sessions := filter P (ac_sessions ac)\<rparr>)"
    and "I (ac\<lparr>ac_users := users, ac_sessions := ac_sessions ac\<rparr>)"
  using drop_sessions [OF assms, of P] assms by simp_all

lemma handleUpdateUserRole_keeps: "I ac \<Longrightarrow> I (snd (handleUpdateUserRole cfg now rq deleteFails path body ac))"
  unfolding handleUpdateUserRole_def Let_def DeleteUserSessions_def
  by (rule asAdmin_keeps)
    (auto intro!: keep keep_pair recorded users_and_sessions intro: set_role split: UserGuardResult.split)

lemma handleResetUserPassword_keeps: "I ac \<Longrightarrow> I (snd (handleResetUserPassword cfg now rq deleteFails path body ac))"
  unfolding handleResetUserPassword_def Let_def DeleteUserSessions_def
  by (rule asAdmin_keeps) (auto intro!: keep keep_pair recorded users_and_sessions intro: set_password split: if_splits)

lemma deleteTarget_keeps: "I ac \<Longrightarrow> I (snd (deleteTarget k ac))"
  unfolding deleteTarget_def
  by (auto intro!: keep_pair recorded intro: delete_user split: UserGuardResult.split)

lemma handleDeleteUser_keeps: "I ac \<Longrightarrow> I (snd (handleDeleteUser cfg now rq path ac))"
  unfolding handleDeleteUser_def Let_def
  by (intro asAdmin_keeps keep_option keep_done keep_bind [OF user_keeps] keep_if deleteTarget_keeps)

lemma storeToken_keeps: "I ac \<Longrightarrow> I (snd (storeToken now refreshFails newId name role subject actor expiry secret prefix hash ac))"
  unfolding storeToken_def Let_def entryOf_def [symmetric]
  by (auto intro!: keep keep_pair recorded refreshed intro: create_token)

lemma handleCreateAPIToken_keeps: "I ac \<Longrightarrow> I (snd (handleCreateAPIToken cfg now rq refreshFails newId raw body ac))"
  unfolding handleCreateAPIToken_def Let_def
  by (rule asAdmin_keeps)
    (auto intro!: keep keep_bind [OF actor_keeps] storeToken_keeps split: prod.split)

lemma handleRevokeAPIToken_keeps: "I ac \<Longrightarrow> I (snd (handleRevokeAPIToken cfg now rq refreshFails path ac))"
  unfolding handleRevokeAPIToken_def Let_def
  by (rule asAdmin_keeps) (auto intro!: keep keep_pair recorded refreshed intro: revoke)

lemma startSession_keeps: "I ac \<Longrightarrow> I (snd (startSession cfg now rq newId raw u ac))"
  unfolding startSession_def Let_def
  by (auto intro!: keep keep_pair recorded intro: create_session)

lemma handleLogin_keeps: "I ac \<Longrightarrow> I (snd (handleLogin cfg now rq newId raw body ac))"
  unfolding handleLogin_def limiterBlocked_def limiterFail_def limiterSuccess_def Let_def
  by (auto intro!: keep_sum keep_if keep_option keep_pair keep_done recorded limiter startSession_keeps
      split: option.splits prod.splits)

lemma handleLogout_keeps: "I ac \<Longrightarrow> I (snd (handleLogout cfg now rq ac))"
  unfolding handleLogout_def DeleteSession_def
  by (rule keep_bind [OF session_keeps]) (auto intro!: keep recorded drop_sessions)

lemma handleAuthMe_keeps: "I ac \<Longrightarrow> I (snd (handleAuthMe cfg now rq ac))"
  unfolding handleAuthMe_def by (rule keep_bind [OF session_keeps]) (auto intro!: keep)

lemma handleChangePassword_keeps: "I ac \<Longrightarrow> I (snd (handleChangePassword cfg now rq body ac))"
  unfolding handleChangePassword_def
  by (rule keep_bind [OF session_keeps]) (auto intro!: keep keep_pair recorded set_password)

lemma bootstrapAdmin_keeps: "I ac \<Longrightarrow> I (bootstrapAdmin cfg newId user pass ac)"
  by (auto simp: bootstrapAdmin_def Let_def intro: create_user split: option.split sum.split)

lemma sessionCleanup_keeps: "I ac \<Longrightarrow> I (sessionCleanup now ac)"
  by (simp add: sessionCleanup_def DeleteExpiredSessions_def drop_sessions)

lemma handled_keeps: "handled cfg ac ac' \<Longrightarrow> I ac \<Longrightarrow> I ac'"
  by (induction rule: handled.induct)
    (simp_all only: handleListUsers_keeps handleCreateUser_keeps handleUpdateUserRole_keeps handleResetUserPassword_keeps
      handleDeleteUser_keeps handleListAPITokens_keeps handleCreateAPIToken_keeps handleRevokeAPIToken_keeps
      handleLogin_keeps handleLogout_keeps handleAuthMe_keeps handleChangePassword_keeps admin_keeps
      bootstrapAdmin_keeps sessionCleanup_keeps)

definition world_ok :: "account_world \<Rightarrow> bool" where
  "world_ok w \<longleftrightarrow> I (fst w) \<and> (\<forall>ts \<in> set (snd w). S ts)"

lemma step_keeps: "account_step cfg w w' \<Longrightarrow> world_ok w \<Longrightarrow> world_ok w'"
proof (induction rule: account_step.induct)
  case (serve ac ac' reads)
  then show ?case using handled_keeps by (simp add: world_ok_def)
next
  case (refresh_read ac reads now)
  then show ?case using read by (simp add: world_ok_def)
next
  case (refresh_install ts reads ac)
  then show ?case using install notin_set_remove1 [of _ reads ts] by (auto simp: world_ok_def)
qed

lemma steps_keep: "(account_step cfg)\<^sup>*\<^sup>* w w' \<Longrightarrow> world_ok w \<Longrightarrow> world_ok w'"
  by (induction rule: rtranclp_induct) (auto intro: step_keeps)

lemma steps_keep_state: "(account_step cfg)\<^sup>*\<^sup>* (ac, []) (ac', reads) \<Longrightarrow> I ac \<Longrightarrow> I ac'"
  using steps_keep [of cfg "(ac, [])" "(ac', reads)"] by (simp add: world_ok_def)

end

section \<open>The tables stay consistent\<close>

definition users_ok :: "localUser list \<Rightarrow> bool" where
  "users_ok users \<longleftrightarrow> distinct (map lu_id users) \<and> distinct (map lu_name users) \<and> (\<forall>u \<in> set users. validUserRole (lu_role u))"

definition sessions_ok :: "localUser list \<Rightarrow> session list \<Rightarrow> bool" where
  "sessions_ok users sessions \<longleftrightarrow> distinct (map se_id sessions) \<and> distinct (map se_hash sessions)
     \<and> (\<forall>s \<in> set sessions. se_user s \<in> lu_id ` set users)"

definition tokens_ok :: "apiToken list \<Rightarrow> bool" where
  "tokens_ok tokens \<longleftrightarrow> distinct (map at_id tokens) \<and> distinct (map at_hash tokens) \<and> (\<forall>t \<in> set tokens. validUserRole (at_role t))"

definition accounts_ok :: "accounts \<Rightarrow> bool" where
  "accounts_ok ac \<longleftrightarrow> users_ok (ac_users ac) \<and> sessions_ok (ac_users ac) (ac_sessions ac) \<and> tokens_ok (ac_tokens ac)"

lemma cache_frame [simp]:
  "ac_users (put h e ac) = ac_users ac" "ac_sessions (put h e ac) = ac_sessions ac" "ac_tokens (put h e ac) = ac_tokens ac"
  "ac_users (evict h ac) = ac_users ac" "ac_sessions (evict h ac) = ac_sessions ac" "ac_tokens (evict h ac) = ac_tokens ac"
  "ac_users (refreshInstall ts ac) = ac_users ac" "ac_sessions (refreshInstall ts ac) = ac_sessions ac"
  "ac_tokens (refreshInstall ts ac) = ac_tokens ac"
  by (simp_all add: put_def evict_def refreshInstall_def Let_def)

lemma accounts_ok_frame [simp]:
  "accounts_ok (ac\<lparr>ac_audit := x\<rparr>) = accounts_ok ac"
  "accounts_ok (ac\<lparr>ac_limiter := y\<rparr>) = accounts_ok ac"
  "accounts_ok (ac\<lparr>ac_cache := c\<rparr>) = accounts_ok ac"
  "accounts_ok (ac\<lparr>ac_lastSeen := seen\<rparr>) = accounts_ok ac"
  "accounts_ok (put h e ac) = accounts_ok ac"
  "accounts_ok (evict h ac) = accounts_ok ac"
  "accounts_ok (refreshInstall ts ac) = accounts_ok ac"
  by (simp_all add: accounts_ok_def put_def evict_def refreshInstall_def Let_def)

lemma users_ok_map:
  assumes "users_ok users" "\<And>u. lu_id (f u) = lu_id u" "\<And>u. lu_name (f u) = lu_name u"
    "\<And>u. u \<in> set users \<Longrightarrow> validUserRole (lu_role (f u))"
  shows "users_ok (map f users)"
  using assms by (auto simp: users_ok_def comp_def)

lemma sessions_ok_map:
  "sessions_ok users sessions \<Longrightarrow> (\<And>u. lu_id (f u) = lu_id u) \<Longrightarrow> sessions_ok (map f users) sessions"
  by (simp add: sessions_ok_def image_image)

lemma tokens_ok_map:
  assumes "tokens_ok tokens" "\<And>t. at_id (f t) = at_id t \<and> at_hash (f t) = at_hash t \<and> at_role (f t) = at_role t"
  shows "tokens_ok (map f tokens)"
  using assms by (simp add: tokens_ok_def comp_def)

lemma sessions_ok_filter: "sessions_ok users sessions \<Longrightarrow> sessions_ok users (filter P sessions)"
  by (auto simp: sessions_ok_def distinct_map_filter)

lemma sessions_ok_touch: "sessions_ok users sessions \<Longrightarrow> sessions_ok users (TouchSession now k sessions)"
proof -
  have m: "map g (TouchSession now k sessions) = map g sessions" if "\<And>s. g (s\<lparr>se_lastUsed := now\<rparr>) = g s" for g :: "session \<Rightarrow> string"
    using that by (simp add: TouchSession_def)
  show "sessions_ok users sessions \<Longrightarrow> sessions_ok users (TouchSession now k sessions)"
    unfolding sessions_ok_def using m [of se_id] m [of se_hash] by (auto simp: TouchSession_def simp del: map_map)
qed

lemma users_ok_role: "users_ok users \<Longrightarrow> u \<in> set users \<Longrightarrow> validUserRole (lu_role u)"
  by (simp add: users_ok_def)

lemma create_user_ok:
  assumes "users_ok users" "CreateLocalUser k name hash role users = Inr (u, users')"
  shows "users_ok users'" and "set users \<subseteq> set users'"
  using assms by (auto simp: CreateLocalUser_def users_ok_def list_ex_iff Let_def split: if_splits)

lemma sessions_ok_mono: "set users \<subseteq> set users' \<Longrightarrow> sessions_ok users sessions \<Longrightarrow> sessions_ok users' sessions"
  unfolding sessions_ok_def by (meson image_mono subsetD)

lemma delete_user_ok:
  assumes "DeleteLocalUserGuarded k users sessions = (UserGuardOK, users', sessions')"
  shows "users' = filter (\<lambda>u. lu_id u \<noteq> k) users" "sessions' = filter (\<lambda>s. se_user s \<noteq> k) sessions"
    "\<exists>u. GetLocalUserByID k users = Some u \<and> (lu_role u \<noteq> ''admin'' \<or> CountLocalAdmins users > 1)"
  using assms by (auto simp: DeleteLocalUserGuarded_def lockAdminsAndTarget_def split: option.splits if_splits)

lemma set_role_ok:
  assumes "UpdateLocalUserRoleGuarded k role users = (UserGuardOK, users')"
  shows "users' = map (\<lambda>u. if lu_id u = k then u\<lparr>lu_role := role\<rparr> else u) users"
    "\<exists>u. GetLocalUserByID k users = Some u \<and> (lu_role u \<noteq> ''admin'' \<or> role = ''admin'' \<or> CountLocalAdmins users > 1)"
  using assms by (auto simp: UpdateLocalUserRoleGuarded_def lockAdminsAndTarget_def split: option.splits if_splits)

interpretation tables: account_invariant accounts_ok "\<lambda>_. True"
proof
  fix ac k now
  show "accounts_ok (ac\<lparr>ac_sessions := TouchSession now k (ac_sessions ac)\<rparr>)" if "accounts_ok ac"
    using that sessions_ok_touch by (simp add: accounts_ok_def)
  show "accounts_ok (ac\<lparr>ac_lastSeen := seen, ac_tokens := TouchAPIToken now k (ac_tokens ac)\<rparr>)" if "accounts_ok ac" for seen
    using that by (simp add: accounts_ok_def TouchAPIToken_def tokens_ok_map)
  show "accounts_ok (ac\<lparr>ac_users := UpdateLocalUserPassword k hash (ac_users ac)\<rparr>)" if "accounts_ok ac" for hash
    using that by (auto simp: accounts_ok_def UpdateLocalUserPassword_def intro!: users_ok_map sessions_ok_map intro: users_ok_role)
  show "accounts_ok (ac\<lparr>ac_sessions := filter P (ac_sessions ac)\<rparr>)" if "accounts_ok ac" for P
    using that by (simp add: accounts_ok_def sessions_ok_filter)
next
  fix ac k name hash role u users
  assume a: "accounts_ok ac" "CreateLocalUser k name hash role (ac_users ac) = Inr (u, users)"
  then show "accounts_ok (ac\<lparr>ac_users := users\<rparr>)"
    using create_user_ok [OF _ a(2)] sessions_ok_mono by (auto simp: accounts_ok_def)
next
  fix ac role k users
  assume a: "accounts_ok ac" "validUserRole role" "UpdateLocalUserRoleGuarded k role (ac_users ac) = (UserGuardOK, users)"
  then show "accounts_ok (ac\<lparr>ac_users := users\<rparr>)"
    unfolding set_role_ok(1) [OF a(3)]
    by (auto simp: accounts_ok_def intro!: users_ok_map sessions_ok_map intro: users_ok_role)
next
  fix ac k users sessions
  assume a: "accounts_ok ac" "DeleteLocalUserGuarded k (ac_users ac) (ac_sessions ac) = (UserGuardOK, users, sessions)"
  then show "accounts_ok (ac\<lparr>ac_users := users, ac_sessions := sessions\<rparr>)"
    unfolding delete_user_ok(1,2) [OF a(2)]
    by (auto simp: accounts_ok_def users_ok_def sessions_ok_def distinct_map_filter)
next
  fix ac k user hash now expires ip agent sessions
  assume "accounts_ok ac" "CreateSession k user hash now expires ip agent (ac_users ac) (ac_sessions ac) = Inr sessions"
  then show "accounts_ok (ac\<lparr>ac_sessions := sessions\<rparr>)"
    by (auto simp: accounts_ok_def sessions_ok_def CreateSession_def list_ex_iff split: if_splits)
next
  fix ac k now name hash prefix role subject actor expiry t tokens
  assume "accounts_ok ac" "CreateAPIToken k now name hash prefix role subject actor expiry (ac_tokens ac) = Inr (t, tokens)"
  then show "accounts_ok (put hash (entryOf t) (ac\<lparr>ac_tokens := tokens\<rparr>))"
    by (auto simp: accounts_ok_def tokens_ok_def CreateAPIToken_def list_ex_iff Let_def split: if_splits)
next
  fix ac now k hash tokens
  assume "accounts_ok ac" "RevokeAPIToken now k (ac_tokens ac) = Some (hash, tokens)"
  then show "accounts_ok (evict hash (ac\<lparr>ac_tokens := tokens\<rparr>))"
    by (auto simp: accounts_ok_def RevokeAPIToken_def revokedRow_def intro!: tokens_ok_map split: option.splits)
qed simp_all

section \<open>The last administrator\<close>

definition hasAdmin :: "accounts \<Rightarrow> bool" where
  "hasAdmin ac \<longleftrightarrow> (\<exists>u \<in> set (ac_users ac). lu_role u = ''admin'')"

lemma hasAdmin_count: "hasAdmin ac \<longleftrightarrow> 0 < CountLocalAdmins (ac_users ac)"
  by (auto simp: hasAdmin_def CountLocalAdmins_def filter_empty_conv)

lemma GetLocalUserByID_Some: "GetLocalUserByID k users = Some u \<Longrightarrow> u \<in> set users \<and> lu_id u = k"
  by (auto simp: GetLocalUserByID_def find_Some_iff)

lemma other_admin:
  assumes "users_ok users" "GetLocalUserByID k users = Some u" "\<exists>v \<in> set users. lu_role v = ''admin''"
    "lu_role u \<noteq> ''admin'' \<or> CountLocalAdmins users > 1"
  shows "\<exists>v \<in> set users. lu_role v = ''admin'' \<and> lu_id v \<noteq> k"
proof (cases "lu_role u = ''admin''")
  case False
  then obtain v where v: "v \<in> set users" "lu_role v = ''admin''" "v \<noteq> u" using assms(3) by auto
  then have "lu_id v \<noteq> k"
    using assms(1) GetLocalUserByID_Some [OF assms(2)] by (auto simp: users_ok_def distinct_map inj_on_def)
  then show ?thesis using v by blast
next
  case True
  define as where "as = filter (\<lambda>u. lu_role u = ''admin'') users"
  have "1 < length as" using True assms(4) by (simp add: CountLocalAdmins_def as_def)
  then obtain a b xs where f: "as = a # b # xs" by (cases as; cases "tl as") auto
  have "distinct (map lu_id as)" using assms(1) by (simp add: users_ok_def distinct_map_filter as_def)
  then have "lu_id a \<noteq> lu_id b" unfolding f by simp
  moreover have "a \<in> set as" "b \<in> set as" unfolding f by simp_all
  ultimately show ?thesis unfolding as_def by (cases "lu_id a = k") auto
qed

interpretation admins: account_invariant "\<lambda>ac. accounts_ok ac \<and> hasAdmin ac" "\<lambda>_. True"
proof
  fix ac k name hash role u users
  assume a: "accounts_ok ac \<and> hasAdmin ac" "CreateLocalUser k name hash role (ac_users ac) = Inr (u, users)"
  then show "accounts_ok (ac\<lparr>ac_users := users\<rparr>) \<and> hasAdmin (ac\<lparr>ac_users := users\<rparr>)"
    using tables.create_user [OF _ a(2)] create_user_ok(2) [OF _ a(2)] by (auto simp: hasAdmin_def accounts_ok_def)
next
  fix ac role k users
  assume a: "accounts_ok ac \<and> hasAdmin ac" "validUserRole role" "UpdateLocalUserRoleGuarded k role (ac_users ac) = (UserGuardOK, users)"
  obtain u where u: "GetLocalUserByID k (ac_users ac) = Some u"
    "lu_role u \<noteq> ''admin'' \<or> role = ''admin'' \<or> CountLocalAdmins (ac_users ac) > 1" using set_role_ok(2) [OF a(3)] by blast
  have "\<exists>v \<in> set users. lu_role v = ''admin''"
  proof (cases "role = ''admin''")
    case True
    then have "u\<lparr>lu_role := role\<rparr> \<in> set users" using GetLocalUserByID_Some [OF u(1)] by (auto simp: set_role_ok(1) [OF a(3)])
    then show ?thesis using True by force
  next
    case False
    then obtain v where "v \<in> set (ac_users ac)" "lu_role v = ''admin''" "lu_id v \<noteq> k"
      using other_admin [OF _ u(1)] u(2) a(1) by (auto simp: hasAdmin_def accounts_ok_def)
    then show ?thesis unfolding set_role_ok(1) [OF a(3)] by force
  qed
  then show "accounts_ok (ac\<lparr>ac_users := users\<rparr>) \<and> hasAdmin (ac\<lparr>ac_users := users\<rparr>)"
    using tables.set_role [OF _ a(2,3)] a(1) by (simp add: hasAdmin_def)
next
  fix ac k users sessions
  assume a: "accounts_ok ac \<and> hasAdmin ac" "DeleteLocalUserGuarded k (ac_users ac) (ac_sessions ac) = (UserGuardOK, users, sessions)"
  have "\<exists>v \<in> set users. lu_role v = ''admin''"
    using other_admin [of "ac_users ac" k] delete_user_ok [OF a(2)] a(1) by (auto simp: hasAdmin_def accounts_ok_def)
  then show "accounts_ok (ac\<lparr>ac_users := users, ac_sessions := sessions\<rparr>) \<and> hasAdmin (ac\<lparr>ac_users := users, ac_sessions := sessions\<rparr>)"
    using tables.delete_user [OF _ a(2)] a(1) by (simp add: hasAdmin_def)
next
  fix ac k hash
  assume a: "accounts_ok ac \<and> hasAdmin ac"
  then obtain u where "u \<in> set (ac_users ac)" "lu_role u = ''admin''" by (auto simp: hasAdmin_def)
  then have "\<exists>v \<in> set (UpdateLocalUserPassword k hash (ac_users ac)). lu_role v = ''admin''"
    unfolding UpdateLocalUserPassword_def
    by (intro bexI [of _ "if lu_id u = k then u\<lparr>lu_hash := hash\<rparr> else u"]) auto
  then show "accounts_ok (ac\<lparr>ac_users := UpdateLocalUserPassword k hash (ac_users ac)\<rparr>)
      \<and> hasAdmin (ac\<lparr>ac_users := UpdateLocalUserPassword k hash (ac_users ac)\<rparr>)"
    using tables.set_password [of ac k hash] a by (simp add: hasAdmin_def)
next
  fix ac k now name hash prefix role subject actor expiry t tokens
  assume a: "accounts_ok ac \<and> hasAdmin ac" "CreateAPIToken k now name hash prefix role subject actor expiry (ac_tokens ac) = Inr (t, tokens)"
  then show "accounts_ok (put hash (entryOf t) (ac\<lparr>ac_tokens := tokens\<rparr>)) \<and> hasAdmin (put hash (entryOf t) (ac\<lparr>ac_tokens := tokens\<rparr>))"
    using tables.create_token [OF _ a(2)] by (simp add: hasAdmin_def put_def)
next
  fix ac now k hash tokens
  assume a: "accounts_ok ac \<and> hasAdmin ac" "RevokeAPIToken now k (ac_tokens ac) = Some (hash, tokens)"
  then show "accounts_ok (evict hash (ac\<lparr>ac_tokens := tokens\<rparr>)) \<and> hasAdmin (evict hash (ac\<lparr>ac_tokens := tokens\<rparr>))"
    using tables.revoke [OF _ a(2)] by (simp add: hasAdmin_def evict_def)
next
  fix ac k user hash now expires ip agent sessions
  assume a: "accounts_ok ac \<and> hasAdmin ac" "CreateSession k user hash now expires ip agent (ac_users ac) (ac_sessions ac) = Inr sessions"
  then show "accounts_ok (ac\<lparr>ac_sessions := sessions\<rparr>) \<and> hasAdmin (ac\<lparr>ac_sessions := sessions\<rparr>)"
    using tables.create_session [OF _ a(2)] by (simp add: hasAdmin_def)
qed (use tables.touch tables.mark tables.drop_sessions in \<open>auto simp: hasAdmin_def refreshInstall_def Let_def\<close>)

end
