(* ===== verification/Account_Security.thy ===== *)
theory Account_Security
  imports Account_Invariants
begin

text \<open>
  What the accounts promise to their users: a revoked token stays dead, a login opens exactly one user's session, a
  change of a user ends its sessions, and failing logins are limited.
\<close>

section \<open>The last administrator\<close>

text \<open>
  C29: however requests, logins and refreshes interleave, the tables keep their keys, roles and references, and where
  there is a local administrator there always is one.
\<close>

theorem last_admin_survives:
  assumes "(account_step cfg)\<^sup>*\<^sup>* (ac, []) (ac', reads)" "accounts_ok ac" "0 < CountLocalAdmins (ac_users ac)"
  shows "accounts_ok ac' \<and> 0 < CountLocalAdmins (ac_users ac')"
  using admins.steps_keep_state [OF assms(1)] assms(2,3) by (simp add: hasAdmin_count)

section \<open>Revoked tokens\<close>

text \<open>The hash \<open>h\<close> belongs to a revoked token and is not in the cache.\<close>

definition deadToken :: "string \<Rightarrow> accounts \<Rightarrow> bool" where
  "deadToken h ac \<longleftrightarrow> accounts_ok ac \<and> h \<in> at_hash ` set (ac_tokens ac)
     \<and> (\<forall>t \<in> set (ac_tokens ac). at_hash t = h \<longrightarrow> at_revoked t \<noteq> None) \<and> map_of (ac_cache ac) h = None"

lemma fold_cache:
  "map_of (fold (\<lambda>t. AList.update (aa_hash t) (e t)) ts cs) h = None \<longleftrightarrow> map_of cs h = None \<and> h \<notin> aa_hash ` set ts"
  by (induction ts arbitrary: cs) (auto simp: update_conv' simp del: map_of_eq_None_iff)

lemma deadToken_tokens:
  assumes "deadToken h ac" "accounts_ok (ac\<lparr>ac_tokens := map f (ac_tokens ac)\<rparr>)"
    "\<And>t. at_hash (f t) = at_hash t \<and> (at_revoked t \<noteq> None \<longrightarrow> at_revoked (f t) \<noteq> None)"
  shows "deadToken h (ac\<lparr>ac_tokens := map f (ac_tokens ac)\<rparr>)"
  using assms by (auto simp: deadToken_def image_image)

interpretation dead: account_invariant "deadToken h" "\<lambda>ts :: ActiveAPIToken list. h \<notin> aa_hash ` set ts" for h
proof
  fix ac k now seen
  assume d: "deadToken h ac"
  then have "deadToken h (ac\<lparr>ac_tokens := TouchAPIToken now k (ac_tokens ac)\<rparr>)"
    unfolding TouchAPIToken_def using tables.mark [where ac = ac and seen = "ac_lastSeen ac" and now = now and k = k]
    by (intro deadToken_tokens) (auto simp: deadToken_def TouchAPIToken_def)
  then show "deadToken h (ac\<lparr>ac_lastSeen := seen, ac_tokens := TouchAPIToken now k (ac_tokens ac)\<rparr>)"
    using tables.mark [where ac = ac and seen = seen and now = now and k = k] d by (simp add: deadToken_def)
next
  fix ac k now name hash prefix role subject actor expiry t tokens
  assume a: "deadToken h ac" "CreateAPIToken k now name hash prefix role subject actor expiry (ac_tokens ac) = Inr (t, tokens)"
  then have "hash \<noteq> h" "tokens = ac_tokens ac @ [t]" "at_hash t = hash"
    by (auto simp: CreateAPIToken_def deadToken_def list_ex_iff Let_def split: if_splits)
  then show "deadToken h (put hash (entryOf t) (ac\<lparr>ac_tokens := tokens\<rparr>))"
    using tables.create_token [OF _ a(2)] a(1) by (auto simp: deadToken_def put_def update_conv')
next
  fix ac now k hash tokens
  assume a: "deadToken h ac" "RevokeAPIToken now k (ac_tokens ac) = Some (hash, tokens)"
  then have f: "tokens = map (revokedRow now k) (ac_tokens ac)"
    by (auto simp: RevokeAPIToken_def split: option.splits)
  have "accounts_ok (ac\<lparr>ac_tokens := tokens\<rparr>)"
    using tables.revoke [OF _ a(2)] a(1) by (simp add: deadToken_def)
  then have "deadToken h (ac\<lparr>ac_tokens := tokens\<rparr>)" unfolding f by (intro deadToken_tokens a(1)) (simp_all add: revokedRow_def split: option.split)
  then show "deadToken h (evict hash (ac\<lparr>ac_tokens := tokens\<rparr>))"
    by (auto simp: deadToken_def evict_def delete_conv' restrict_map_def)
next
  fix ac now
  assume "deadToken h ac"
  then show "h \<notin> aa_hash ` set (ActiveAPITokens now (ac_tokens ac))"
    by (auto simp: deadToken_def ActiveAPITokens_def activeToken_def)
next
  fix ac and ts :: "ActiveAPIToken list"
  assume "deadToken h ac" "h \<notin> aa_hash ` set ts"
  then show "deadToken h (refreshInstall ts ac)"
    by (simp add: deadToken_def) (simp add: refreshInstall_def Let_def fold_cache)
next
  fix ac k name hash role u users
  assume a: "deadToken h ac" "CreateLocalUser k name hash role (ac_users ac) = Inr (u, users)"
  then show "deadToken h (ac\<lparr>ac_users := users\<rparr>)" using tables.create_user [OF _ a(2)] by (simp add: deadToken_def)
next
  fix ac role k users
  assume a: "deadToken h ac" "validUserRole role" "UpdateLocalUserRoleGuarded k role (ac_users ac) = (UserGuardOK, users)"
  then show "deadToken h (ac\<lparr>ac_users := users\<rparr>)" using tables.set_role [OF _ a(2,3)] by (simp add: deadToken_def)
next
  fix ac k users sessions
  assume a: "deadToken h ac" "DeleteLocalUserGuarded k (ac_users ac) (ac_sessions ac) = (UserGuardOK, users, sessions)"
  then show "deadToken h (ac\<lparr>ac_users := users, ac_sessions := sessions\<rparr>)"
    using tables.delete_user [OF _ a(2)] by (simp add: deadToken_def)
next
  fix ac k user hash now expires ip agent sessions
  assume a: "deadToken h ac" "CreateSession k user hash now expires ip agent (ac_users ac) (ac_sessions ac) = Inr sessions"
  then show "deadToken h (ac\<lparr>ac_sessions := sessions\<rparr>)" using tables.create_session [OF _ a(2)] by (simp add: deadToken_def)
qed (use tables.touch tables.drop_sessions tables.set_password in \<open>auto simp: deadToken_def\<close>)

text \<open>Tokens keep their id and their hash.\<close>

definition storedToken :: "string \<Rightarrow> string \<Rightarrow> accounts \<Rightarrow> bool" where
  "storedToken k h ac \<longleftrightarrow> accounts_ok ac \<and> (\<exists>t \<in> set (ac_tokens ac). at_id t = k \<and> at_hash t = h)"

lemma sessionUser_tokens [simp]: "ac_tokens (snd (sessionUser cfg now rq ac)) = ac_tokens ac"
  by (simp add: sessionUser_def sessionFromRequest_def Let_def split: option.split)

lemma apiToken_tokens:
  "map (\<lambda>t. (at_id t, at_hash t)) (ac_tokens (snd (apiTokenFromRequest cfg now rq ac))) = map (\<lambda>t. (at_id t, at_hash t)) (ac_tokens ac)"
  by (simp add: apiTokenFromRequest_def markUsed_def TouchAPIToken_def Let_def split: option.split)

lemma authenticateAdmin_tokens:
  "map (\<lambda>t. (at_id t, at_hash t)) (ac_tokens (snd (authenticateAdmin cfg now rq ac))) = map (\<lambda>t. (at_id t, at_hash t)) (ac_tokens ac)"
proof -
  obtain e ac1 where e: "apiTokenFromRequest cfg now rq ac = (e, ac1)" by force
  obtain u ac2 where u: "sessionUser cfg now rq ac1 = (u, ac2)" by force
  show ?thesis using apiToken_tokens [of cfg now rq ac] sessionUser_tokens [of cfg now rq ac1]
    by (simp add: authenticateAdmin_def e u)
qed

lemma storedToken_auth:
  "storedToken k h ac \<Longrightarrow> storedToken k h (snd (authenticateAdmin cfg now rq ac))"
proof -
  have "storedToken k h ac \<longleftrightarrow> accounts_ok ac \<and> (k, h) \<in> set (map (\<lambda>t. (at_id t, at_hash t)) (ac_tokens ac))" for ac
    by (auto simp: storedToken_def image_iff)
  then show "storedToken k h ac \<Longrightarrow> storedToken k h (snd (authenticateAdmin cfg now rq ac))"
    using tables.admin_keeps [of ac cfg now rq] by (simp only: authenticateAdmin_tokens)
qed

lemma revoke_kills:
  assumes "storedToken k h ac" "h \<noteq> []" "RevokeAPIToken now k (ac_tokens ac) = Some (hash, tokens)"
  shows "deadToken h (evict hash (ac\<lparr>ac_tokens := tokens\<rparr>))"
proof -
  define f where "f = revokedRow now k"
  obtain t where t: "t \<in> set (ac_tokens ac)" "at_id t = k" "at_hash t = h" using assms(1) by (auto simp: storedToken_def)
  have ok: "distinct (map at_id (ac_tokens ac))" "distinct (map at_hash (ac_tokens ac))"
    using assms(1) by (simp_all add: storedToken_def accounts_ok_def tokens_ok_def)
  obtain t' where t': "find (\<lambda>t. at_id t = k) (ac_tokens ac) = Some t'" "hash = at_hash t'" "tokens = map f (ac_tokens ac)"
    using assms(3) by (auto simp: RevokeAPIToken_def f_def split: option.splits)
  then have "t' \<in> set (ac_tokens ac)" "at_id t' = k" by (auto simp: find_Some_iff)
  then have "hash = h" using t t'(2) ok(1) by (auto simp: distinct_map inj_on_def)
  moreover have "at_revoked (f x) \<noteq> None" if "x \<in> set (ac_tokens ac)" "at_hash x = h" for x
  proof -
    have "x = t" using that t ok(2) by (auto simp: distinct_map inj_on_def)
    then show ?thesis using t(2) by (simp add: f_def revokedRow_def split: option.split)
  qed
  moreover have "at_hash (f x) = at_hash x" for x by (simp add: f_def revokedRow_def)
  moreover have "accounts_ok (evict hash (ac\<lparr>ac_tokens := tokens\<rparr>))"
    using tables.revoke [OF _ assms(3)] assms(1) by (simp add: storedToken_def)
  ultimately show ?thesis using t assms(2)
    by (auto simp: deadToken_def t'(3) image_image evict_def delete_conv' intro!: image_eqI [of h _ t])
qed

lemma revocation_dead:
  assumes "accounts_ok ac" "t \<in> set (ac_tokens ac)" "at_id t = TrimSpace path" "at_hash t \<noteq> []"
    "handleRevokeAPIToken cfg now rq fails path ac = (Inr k, ac1)"
  shows "deadToken (at_hash t) ac1"
proof -
  obtain admin ac0 where a: "authenticateAdmin cfg now rq ac = (admin, ac0)" by force
  then have admin: "admin" using assms(5) by (auto simp: handleRevokeAPIToken_def asAdmin_def split: if_splits bool.splits)
  have "storedToken (TrimSpace path) (at_hash t) ac" using assms(1-3) by (auto simp: storedToken_def)
  then have st: "storedToken (TrimSpace path) (at_hash t) ac0"
    using storedToken_auth [of _ _ ac cfg now rq] a by simp
  obtain hash tokens where r: "RevokeAPIToken now (TrimSpace path) (ac_tokens ac0) = Some (hash, tokens)"
    "ac1 = record_audit ''api_token.revoke'' ''api_token'' (TrimSpace path) ''ok'' (refresh fails now (evict hash (ac0\<lparr>ac_tokens := tokens\<rparr>)))"
    using assms(5) a admin by (auto simp: handleRevokeAPIToken_def asAdmin_def Let_def split: option.splits)
  show ?thesis unfolding r(2) by (rule dead.recorded [OF dead.refreshed [OF revoke_kills [OF st assms(4) r(1)]]])
qed

text \<open>
  C30: once a token is revoked its secret authenticates nobody ever again, whether the refresh after the revocation fails
  or not, whatever requests and refreshes follow, provided that no periodic refresh had read the table before.
\<close>

theorem revoked_token_is_dead:
  assumes "accounts_ok ac" "t \<in> set (ac_tokens ac)" "at_id t = TrimSpace path" "at_hash t = au_sha cfg secret" "at_hash t \<noteq> []"
    "handleRevokeAPIToken cfg now rq fails path ac = (Inr k, ac1)"
    "(account_step cfg)\<^sup>*\<^sup>* (ac1, []) (ac2, reads)"
  shows "tokenLookup cfg later secret ac2 = None"
proof -
  have "deadToken (at_hash t) ac2"
    by (rule dead.steps_keep_state [OF assms(7) revocation_dead [OF assms(1-3,5,6)]])
  then show ?thesis using assms(4) by (simp add: tokenLookup_def deadToken_def)
qed

section \<open>Sessions\<close>

lemma limiterBlocked_frame [simp]:
  "ac_users (snd (limiterBlocked now ip name ac)) = ac_users ac" "ac_sessions (snd (limiterBlocked now ip name ac)) = ac_sessions ac"
  by (simp_all add: limiterBlocked_def split: option.split prod.split)

lemma login_result:
  assumes "handleLogin cfg now rq newId raw (Inr (name, pw)) ac = (Inr reply, ac')"
  obtains u ac1 where "GetLocalUserByUsername (TrimSpace name) (ac_users ac) = Some u" "au_compare cfg (lu_hash u) pw"
    "ac_users ac1 = ac_users ac" "ac_sessions ac1 = ac_sessions ac" "startSession cfg now rq newId raw u ac1 = (Inr reply, ac')"
proof -
  obtain stop ac1 where b: "limiterBlocked now (rq_ip rq) (TrimSpace name) ac = (stop, ac1)" by force
  have f: "ac_users ac1 = ac_users ac" "ac_sessions ac1 = ac_sessions ac"
    using limiterBlocked_frame [of now "rq_ip rq" "TrimSpace name" ac] b by simp_all
  obtain u where "GetLocalUserByUsername (TrimSpace name) (ac_users ac) = Some u" "au_compare cfg (lu_hash u) pw"
    "startSession cfg now rq newId raw u (limiterSuccess (rq_ip rq) (TrimSpace name) ac1) = (Inr reply, ac')"
    using assms f by (auto simp: handleLogin_def b Let_def split: if_splits option.splits)
  then show thesis using f by (intro that [of u "limiterSuccess (rq_ip rq) (TrimSpace name) ac1"]) (simp_all add: limiterSuccess_def)
qed

lemma GetLocalUserByID_unique: "users_ok users \<Longrightarrow> u \<in> set users \<Longrightarrow> GetLocalUserByID (lu_id u) users = Some u"
proof -
  assume a: "users_ok users" "u \<in> set users"
  then have "GetLocalUserByID (lu_id u) users \<noteq> None" by (auto simp: GetLocalUserByID_def find_None_iff)
  then obtain v where v: "GetLocalUserByID (lu_id u) users = Some v" by blast
  then have "v = u" using GetLocalUserByID_Some [OF v] a by (auto simp: users_ok_def distinct_map inj_on_def)
  then show "GetLocalUserByID (lu_id u) users = Some u" using v by simp
qed

lemma sessionUser_fst:
  "fst (sessionUser cfg later rq ac) =
    (if sessionToken rq = [] then None
     else case GetSessionByTokenHash (au_sha cfg (sessionToken rq)) later (ac_sessions ac) of
       None \<Rightarrow> None | Some s \<Rightarrow> GetLocalUserByID (se_user s) (ac_users ac))"
  by (simp add: sessionUser_def sessionFromRequest_def Let_def split: option.split)

text \<open>
  A login succeeds only with the password of the user it names, and the token it returns identifies exactly that
  user until the session expires and nobody afterwards.
\<close>

theorem login_opens_session:
  assumes "accounts_ok ac" "raw \<noteq> []"
    "handleLogin cfg now rq newId (Some raw) (Inr (name, pw)) ac = (Inr (token, user, expires), ac')"
  shows "\<exists>u \<in> set (ac_users ac). lu_name u = TrimSpace name \<and> au_compare cfg (lu_hash u) pw \<and> user = sanitizeUser u
    \<and> expires = now + au_maxAge cfg
    \<and> (\<forall>rq' later. sessionToken rq' = token \<longrightarrow>
          fst (sessionUser cfg later rq' ac') = (if later < expires then Some u else None))"
proof -
  obtain u ac1 where u: "GetLocalUserByUsername (TrimSpace name) (ac_users ac) = Some u" "au_compare cfg (lu_hash u) pw"
    and f: "ac_users ac1 = ac_users ac" "ac_sessions ac1 = ac_sessions ac"
    and st: "startSession cfg now rq newId (Some raw) u ac1 = (Inr (token, user, expires), ac')"
    using login_result [OF assms(3)] .
  have t: "token = hexEncode raw" "user = sanitizeUser u" "expires = now + au_maxAge cfg" and ss: "ac_users ac' = ac_users ac"
    "CreateSession newId (lu_id u) (au_sha cfg token) now expires (rq_ip rq) (take 512 (rq_agent rq)) (ac_users ac) (ac_sessions ac)
      = Inr (ac_sessions ac')"
    using st f by (auto simp: startSession_def generateSessionToken_def record_audit_def Let_def split: sum.splits)
  have new: "ac_sessions ac' = ac_sessions ac @ [\<lparr>se_id = newId, se_user = lu_id u, se_hash = au_sha cfg token, se_expires = expires,
      se_lastUsed = now, se_ip = rq_ip rq, se_agent = take 512 (rq_agent rq)\<rparr>]"
    "\<forall>s \<in> set (ac_sessions ac). se_hash s \<noteq> au_sha cfg token"
    using ss(2) by (auto simp: CreateSession_def list_ex_iff split: if_splits)
  have mem: "u \<in> set (ac_users ac)" "lu_name u = TrimSpace name"
    using u(1) by (auto simp: GetLocalUserByUsername_def find_Some_iff)
  have "token \<noteq> []" using assms(2) by (cases raw) (simp_all add: t(1) hexEncode_def)
  have none: "find (\<lambda>s. se_hash s = au_sha cfg token \<and> se_expires s > later) (ac_sessions ac) = None" for later
    using new(2) by (auto simp: find_None_iff)
  have app: "find P xs = None \<Longrightarrow> find P (xs @ ys) = find P ys" for P and xs ys :: "session list"
    by (induction xs) (auto split: if_splits)
  have g: "GetSessionByTokenHash (au_sha cfg token) later (ac_sessions ac') =
      (if later < expires then Some (last (ac_sessions ac')) else None)" for later
    unfolding GetSessionByTokenHash_def new(1) app [OF none] by simp
  have "fst (sessionUser cfg later rq' ac') = (if later < expires then Some u else None)" if "sessionToken rq' = token" for rq' later
    using that \<open>token \<noteq> []\<close> g [of later] GetLocalUserByID_unique [of "ac_users ac" u] mem assms(1)
    by (simp add: sessionUser_fst ss(1) new(1) accounts_ok_def)
  then show ?thesis using mem u(2) t(2,3) by blast
qed

lemma asAdmin_Inr:
  assumes "asAdmin cfg now rq f ac = (Inr x, ac')"
  obtains ac1 where "f ac1 = (Inr x, ac')"
  using assms by (auto simp: asAdmin_def split: prod.splits bool.splits)

lemma no_session_no_user:
  "\<forall>s \<in> set (ac_sessions ac). se_user s \<noteq> k \<Longrightarrow> fst (sessionUser cfg later rq ac) = Some u \<Longrightarrow> lu_id u \<noteq> k"
  using GetLocalUserByID_Some
  by (fastforce simp: sessionUser_fst GetSessionByTokenHash_def find_Some_iff split: if_splits option.splits)

lemma reset_ends_sessions:
  "handleResetUserPassword cfg now rq False path body ac = (Inr n, ac') \<Longrightarrow> \<forall>s \<in> set (ac_sessions ac'). se_user s \<noteq> TrimSpace path"
  unfolding handleResetUserPassword_def
  by (erule asAdmin_Inr) (auto simp: Let_def DeleteUserSessions_def record_audit_def split: sum.splits if_splits option.splits)

lemma role_ends_sessions:
  "handleUpdateUserRole cfg now rq False path body ac = (Inr n, ac') \<Longrightarrow> \<forall>s \<in> set (ac_sessions ac'). se_user s \<noteq> TrimSpace path"
  unfolding handleUpdateUserRole_def
  by (erule asAdmin_Inr) (auto simp: Let_def DeleteUserSessions_def record_audit_def
      split: sum.splits if_splits option.splits prod.splits UserGuardResult.splits)

lemma deleteTarget_sessions:
  "deleteTarget k ac = (Inr n, ac') \<Longrightarrow> \<forall>s \<in> set (ac_sessions ac'). se_user s \<noteq> k"
  by (auto simp: deleteTarget_def record_audit_def dest: delete_user_ok(2) split: prod.splits UserGuardResult.splits)

lemma delete_ends_sessions:
  "handleDeleteUser cfg now rq path ac = (Inr n, ac') \<Longrightarrow> \<forall>s \<in> set (ac_sessions ac'). se_user s \<noteq> TrimSpace path"
  unfolding handleDeleteUser_def
  by (erule asAdmin_Inr) (auto simp: Let_def dest: deleteTarget_sessions split: if_splits option.splits prod.splits)

text \<open>
  After a password reset, a change of the role or the deletion of a user no session identifies that user any more.
\<close>

theorem user_change_ends_sessions:
  assumes "(\<exists>n. handleResetUserPassword cfg now rq False path passBody ac = (Inr n, ac'))
      \<or> (\<exists>x. handleUpdateUserRole cfg now rq False path roleBody ac = (Inr x, ac'))
      \<or> (\<exists>x. handleDeleteUser cfg now rq path ac = (Inr x, ac'))"
    "fst (sessionUser cfg later rq' ac') = Some u"
  shows "lu_id u \<noteq> TrimSpace path"
  using assms reset_ends_sessions role_ends_sessions delete_ends_sessions no_session_no_user [OF _ assms(2)] by metis

text \<open>A user's own change of the password leaves every session open.\<close>

lemma change_password_keeps_sessions:
  assumes "handleChangePassword cfg now rq body ac = (Inr x, ac')"
  shows "map se_hash (ac_sessions ac') = map se_hash (ac_sessions ac) \<and> map se_user (ac_sessions ac') = map se_user (ac_sessions ac)
    \<and> map se_expires (ac_sessions ac') = map se_expires (ac_sessions ac)"
  using assms by (auto simp: handleChangePassword_def sessionFromRequest_def TouchSession_def record_audit_def Let_def
      split: option.splits sum.splits if_splits prod.splits)

section \<open>Failing logins\<close>

record login =
  lg_now :: int
  lg_request :: request
  lg_name :: string
  lg_password :: string

definition wrongLogin :: "authConfig \<Rightarrow> localUser list \<Rightarrow> login \<Rightarrow> bool" where
  "wrongLogin cfg users x \<longleftrightarrow> TrimSpace (lg_name x) \<noteq> [] \<and> lg_password x \<noteq> []
     \<and> (\<forall>u \<in> set users. lu_name u = TrimSpace (lg_name x) \<longrightarrow> \<not> au_compare cfg (lu_hash u) (lg_password x))"

definition serveLogin :: "authConfig \<Rightarrow> login \<Rightarrow> accounts \<Rightarrow> login_reply scan_reply \<times> accounts" where
  "serveLogin cfg x = handleLogin cfg (lg_now x) (lg_request x) [] None (Inr (lg_name x, lg_password x))"

text \<open>How many of the logins with the limiter's key \<open>k\<close> have their password checked.\<close>

fun guesses :: "authConfig \<Rightarrow> string \<Rightarrow> login list \<Rightarrow> accounts \<Rightarrow> int" where
  "guesses cfg k [] ac = 0"
| "guesses cfg k (x # xs) ac =
     (if fst (serveLogin cfg x ac) = Inl (401, ''invalid credentials'')
         \<and> k \<in> set (loginLimiterKeys (rq_ip (lg_request x)) (lg_name x)) then 1 else 0)
       + guesses cfg k xs (snd (serveLogin cfg x ac))"

definition attemptOf :: "login \<Rightarrow> int \<times> string \<times> string" where
  "attemptOf x = (lg_now x, rq_ip (lg_request x), TrimSpace (lg_name x))"

lemma wrong_login_is_attempt:
  assumes "wrongLogin cfg (ac_users ac) x" "ac_limiter ac = Some l"
  shows "fst (serveLogin cfg x ac) = Inl (if fst (attempt (attemptOf x) l) then (401, ''invalid credentials'')
          else (429, ''too many failed login attempts; try again later''))
    \<and> ac_limiter (snd (serveLogin cfg x ac)) = Some (snd (attempt (attemptOf x) l))
    \<and> ac_users (snd (serveLogin cfg x ac)) = ac_users ac"
proof -
  obtain stop l' where b: "Login_Limiter.blocked (lg_now x) (rq_ip (lg_request x)) (TrimSpace (lg_name x)) l = (stop, l')" by force
  have "GetLocalUserByUsername (TrimSpace (lg_name x)) (ac_users ac) = None
      \<or> (\<exists>u. GetLocalUserByUsername (TrimSpace (lg_name x)) (ac_users ac) = Some u \<and> \<not> au_compare cfg (lu_hash u) (lg_password x))"
    using assms(1) by (cases "GetLocalUserByUsername (TrimSpace (lg_name x)) (ac_users ac)")
      (auto simp: wrongLogin_def GetLocalUserByUsername_def find_Some_iff)
  then show ?thesis using assms
    by (cases stop) (auto simp: serveLogin_def handleLogin_def limiterBlocked_def limiterFail_def attempt_def attemptOf_def
        record_audit_def wrongLogin_def b Let_def)
qed

lemma attemptOf_sel [simp]:
  "fst (attemptOf x) = lg_now x" "fst (snd (attemptOf x)) = rq_ip (lg_request x)" "snd (snd (attemptOf x)) = TrimSpace (lg_name x)"
  by (simp_all add: attemptOf_def)

lemma keys_trimmed: "loginLimiterKeys ip (TrimSpace name) = loginLimiterKeys ip name"
  by (simp add: loginLimiterKeys_def)

lemma guesses_checked:
  assumes "\<forall>x \<in> set xs. wrongLogin cfg (ac_users ac) x" "ac_limiter ac = Some l"
  shows "guesses cfg k xs ac = checked k (map attemptOf xs) l"
  using assms
proof (induction xs arbitrary: ac l)
  case (Cons x xs)
  have w: "wrongLogin cfg (ac_users ac) x" using Cons.prems(1) by simp
  note a = wrong_login_is_attempt [OF w Cons.prems(2)]
  have "guesses cfg k xs (snd (serveLogin cfg x ac)) = checked k (map attemptOf xs) (snd (attempt (attemptOf x) l))"
    using a Cons.prems(1) by (intro Cons.IH) simp_all
  then show ?case using a by (simp add: keys_trimmed)
qed simp


section \<open>Concrete accounts\<close>

definition sampleAuth :: authConfig where
  "sampleAuth = \<lparr>au_apiKey = ''master'', au_sha = \<lambda>s. s, au_bcrypt = Some, au_compare = (\<lambda>hash pw. hash = pw), au_maxAge = 1000,
     au_weakSecrets = False\<rparr>"

definition sampleRequest :: request where
  "sampleRequest = \<lparr>rq_key = ''master'', rq_auth = [], rq_cookie = [], rq_ip = ''10.0.0.1'', rq_agent = [],
     rq_identityAdmin = False, rq_actor = ''admin''\<rparr>"

definition sampleToken :: apiToken where
  "sampleToken = \<lparr>at_id = ''t1'', at_name = ''ci'', at_hash = ''key'', at_prefix = [], at_role = ''admin'', at_subject = [],
     at_createdBy = [], at_created = 0, at_expires = None, at_lastUsed = None, at_revoked = None\<rparr>"

definition root :: localUser where
  "root = \<lparr>lu_id = ''u1'', lu_name = ''root'', lu_hash = ''secret-password'', lu_role = ''admin''\<rparr>"

definition sampleAccounts :: accounts where
  "sampleAccounts = \<lparr>ac_users = [root], ac_sessions = [], ac_tokens = [sampleToken], ac_cache = [(''key'', entryOf sampleToken)],
     ac_lastSeen = [], ac_limiter = Some (newLoginLimiter None None), ac_audit = []\<rparr>"

lemmas sample_defs = sampleAuth_def sampleRequest_def sampleToken_def root_def sampleAccounts_def entryOf_def

lemma sampleAccounts_ok: "accounts_ok sampleAccounts"
  by (simp add: accounts_ok_def users_ok_def sessions_ok_def tokens_ok_def validUserRole_def sample_defs)

lemma sample_admin: "authenticateAdmin sampleAuth now sampleRequest ac = (True, ac)"
  by (simp add: authenticateAdmin_def matchKey_def sampleAuth_def sampleRequest_def)

theorem last_admin_survives_witness:
  "accounts_ok (snd (handleDeleteUser sampleAuth 5 sampleRequest ''u1'' sampleAccounts))
    \<and> 0 < CountLocalAdmins (ac_users (snd (handleDeleteUser sampleAuth 5 sampleRequest ''u1'' sampleAccounts)))"
proof -
  have "(account_step sampleAuth)\<^sup>*\<^sup>* (sampleAccounts, []) (snd (handleDeleteUser sampleAuth 5 sampleRequest ''u1'' sampleAccounts), [])"
    by (intro r_into_rtranclp serve handled.delete_user)
  then show ?thesis using last_admin_survives sampleAccounts_ok
    by (simp add: CountLocalAdmins_def sampleAccounts_def root_def)
qed

lemma sample_revoke:
  "handleRevokeAPIToken sampleAuth 5 sampleRequest True ''t1'' sampleAccounts =
    (Inr ''t1'', sampleAccounts\<lparr>ac_tokens := [sampleToken\<lparr>at_revoked := Some 5\<rparr>], ac_cache := [],
       ac_audit := [(''api_token.revoke'', ''api_token'', ''t1'', ''ok'')]\<rparr>)"
  unfolding handleRevokeAPIToken_def asAdmin_def sample_admin
  by (simp add: RevokeAPIToken_def revokedRow_def TrimSpace_def is_space_def refresh_def evict_def record_audit_def sample_defs Let_def)

theorem revoked_token_is_dead_witness:
  "tokenLookup sampleAuth 4 ''key'' sampleAccounts = Some (entryOf sampleToken)
    \<and> tokenLookup sampleAuth 6 ''key'' (snd (handleRevokeAPIToken sampleAuth 5 sampleRequest True ''t1'' sampleAccounts)) = None"
proof
  show "tokenLookup sampleAuth 4 ''key'' sampleAccounts = Some (entryOf sampleToken)"
    by (simp add: tokenLookup_def sample_defs)
  have "at_id sampleToken = TrimSpace ''t1''" by (simp add: sampleToken_def TrimSpace_def is_space_def)
  then show "tokenLookup sampleAuth 6 ''key'' (snd (handleRevokeAPIToken sampleAuth 5 sampleRequest True ''t1'' sampleAccounts)) = None"
    using revoked_token_is_dead [where cfg = sampleAuth and t = sampleToken and secret = "''key''" and later = 6 and reads = "[]",
        OF sampleAccounts_ok _ _ _ _ sample_revoke rtranclp.rtrancl_refl]
    by (simp add: sample_revoke) (simp add: sample_defs)
qed

text \<open>
  Without the proviso it fails: a periodic refresh that read the table before the revocation brings the token back, and
  it stays until the next refresh.
\<close>

lemma read_in_flight_revives:
  "\<exists>ac1 ac2 reads. account_step sampleAuth (sampleAccounts, []) (sampleAccounts, reads)
    \<and> handleRevokeAPIToken sampleAuth 5 sampleRequest False ''t1'' sampleAccounts = (Inr ''t1'', ac1)
    \<and> account_step sampleAuth (ac1, reads) (ac2, [])
    \<and> tokenLookup sampleAuth 6 ''key'' ac1 = None \<and> tokenLookup sampleAuth 6 ''key'' ac2 = Some (entryOf sampleToken)"
proof -
  define ts where "ts = ActiveAPITokens 4 (ac_tokens sampleAccounts)"
  define ac1 where "ac1 = snd (handleRevokeAPIToken sampleAuth 5 sampleRequest False ''t1'' sampleAccounts)"
  have r: "handleRevokeAPIToken sampleAuth 5 sampleRequest False ''t1'' sampleAccounts = (Inr ''t1'', ac1)"
    "tokenLookup sampleAuth 6 ''key'' ac1 = None"
    unfolding ac1_def handleRevokeAPIToken_def asAdmin_def sample_admin
    by (simp_all add: RevokeAPIToken_def revokedRow_def TrimSpace_def is_space_def refresh_def evict_def record_audit_def
        refreshInstall_def ActiveAPITokens_def activeToken_def tokenLookup_def sample_defs Let_def)
  have "account_step sampleAuth (sampleAccounts, []) (sampleAccounts, [ts])"
    unfolding ts_def by (rule refresh_read)
  moreover have "account_step sampleAuth (ac1, [ts]) (refreshInstall ts ac1, [])"
    using refresh_install [of ts "[ts]" sampleAuth ac1] by simp
  moreover have "tokenLookup sampleAuth 6 ''key'' (refreshInstall ts ac1) = Some (entryOf sampleToken)"
    by (simp add: ts_def ActiveAPITokens_def activeToken_def tokenLookup_def refreshInstall_def sample_defs)
  ultimately show ?thesis using r by blast
qed

text \<open>The lifetime of a token in days overflows: 106752 days from now lie in the past.\<close>

lemma token_lifetime_overflows: "tokenExpiry now 106751 = Some (now + 9223286400000000000)"
    "tokenExpiry now 106752 = Some (now - 9223371273709551616)"
  by (simp_all add: tokenExpiry_def daysDuration_def wrap64_def)

definition guess :: login where
  "guess = \<lparr>lg_now = 3, lg_request = sampleRequest, lg_name = ''root'', lg_password = ''guess''\<rparr>"


lemma sample_hex: "hexEncode ''A'' = ''41''"
  by code_simp

lemma sample_login:
  "\<exists>ac'. handleLogin sampleAuth 3 sampleRequest ''s1'' (Some ''A'') (Inr ('' root '', ''secret-password'')) sampleAccounts
    = (Inr (''41'', (''u1'', ''root'', ''admin''), 1003), ac')"
  by (simp add: handleLogin_def limiterBlocked_def Login_Limiter.blocked_def loginLimiterKeys_def newLoginLimiter_def TrimSpace_def
      is_space_def ToLower_def lower_byte_def GetLocalUserByUsername_def startSession_def generateSessionToken_def sample_hex
      CreateSession_def limiterSuccess_def record_audit_def sanitizeUser_def sample_defs Let_def)

theorem login_opens_session_witness:
  "\<exists>ac'. fst (sessionUser sampleAuth 500 (sampleRequest\<lparr>rq_cookie := ''41''\<rparr>) ac') = Some root
    \<and> fst (sessionUser sampleAuth 1003 (sampleRequest\<lparr>rq_cookie := ''41''\<rparr>) ac') = None"
proof -
  obtain ac' where r: "handleLogin sampleAuth 3 sampleRequest ''s1'' (Some ''A'') (Inr ('' root '', ''secret-password'')) sampleAccounts
      = (Inr (''41'', (''u1'', ''root'', ''admin''), 1003), ac')" using sample_login by blast
  have "sessionToken (sampleRequest\<lparr>rq_cookie := ''41''\<rparr>) = ''41''" by (simp add: sessionToken_def)
  then show ?thesis using login_opens_session [OF sampleAccounts_ok _ r] by (intro exI [of _ ac']) (auto simp: sampleAccounts_def)
qed

definition viewer :: localUser where
  "viewer = \<lparr>lu_id = ''u2'', lu_name = ''eve'', lu_hash = ''pw'', lu_role = ''viewer''\<rparr>"

theorem user_change_ends_sessions_witness:
  "\<exists>ac'. handleDeleteUser sampleAuth 5 sampleRequest ''u2'' (sampleAccounts\<lparr>ac_users := [root, viewer],
        ac_sessions := [\<lparr>se_id = ''s1'', se_user = ''u1'', se_hash = ''41'', se_expires = 9, se_lastUsed = 0, se_ip = [], se_agent = []\<rparr>]\<rparr>)
      = (Inr ''u2'', ac')
    \<and> fst (sessionUser sampleAuth 6 (sampleRequest\<lparr>rq_cookie := ''41''\<rparr>) ac') = Some root \<and> lu_id root \<noteq> TrimSpace ''u2''"
proof -
  define ac where "ac = sampleAccounts\<lparr>ac_users := [root, viewer],
        ac_sessions := [\<lparr>se_id = ''s1'', se_user = ''u1'', se_hash = ''41'', se_expires = 9, se_lastUsed = 0, se_ip = [], se_agent = []\<rparr>]\<rparr>"
  define ac' where "ac' = snd (handleDeleteUser sampleAuth 5 sampleRequest ''u2'' ac)"
  have t: "TrimSpace ''u2'' = ''u2''" by (simp add: TrimSpace_def is_space_def)
  have r: "handleDeleteUser sampleAuth 5 sampleRequest ''u2'' ac = (Inr ''u2'', ac')"
    "fst (sessionUser sampleAuth 6 (sampleRequest\<lparr>rq_cookie := ''41''\<rparr>) ac') = Some root"
    unfolding ac'_def handleDeleteUser_def asAdmin_def sample_admin
    by (simp_all add: t Let_def ac_def GetLocalUserByID_def deleteTarget_def DeleteLocalUserGuarded_def lockAdminsAndTarget_def
        sessionUser_def sessionFromRequest_def sessionToken_def bearer_def GetSessionByTokenHash_def record_audit_def
        viewer_def sample_defs)
  show ?thesis using r user_change_ends_sessions [OF disjI2 [OF disjI2 [OF exI [of _ "''u2''"]]] r(2), OF r(1)]
    unfolding ac_def [symmetric] by blast
qed

end
