(* ===== verification/Webhook.thy ===== *)
theory Webhook
  imports Server_Env "HOL-Library.Multiset"
begin

text \<open>
  The server-wide webhook (\<^verbatim>\<open>internal/server/api/notify.go\<close>): which scans are worth an event, the delivery with
  its retries, and the semaphore that bounds the deliveries in flight. A \<^verbatim>\<open>map[string]any\<close> is a list of pairs with
  distinct keys. What the network does is a parameter: a request and the number of the attempt give the outcome.
\<close>

section \<open>Values of an event\<close>

datatype anyval = AnyBool bool | AnyInt int | AnyString string | AnyStrings "string list" | AnyCounts "(string \<times> int) list"

type_synonym anymap = "(string \<times> anyval) list"

text \<open>Reading a key with a type assertion; \<open>None\<close> where the key is absent or of another type.\<close>

definition getString :: "anymap \<Rightarrow> string \<Rightarrow> string option" where
  "getString m k = (case map_of m k of Some (AnyString s) \<Rightarrow> Some s | _ \<Rightarrow> None)"

definition getInt :: "anymap \<Rightarrow> string \<Rightarrow> int option" where
  "getInt m k = (case map_of m k of Some (AnyInt n) \<Rightarrow> Some n | _ \<Rightarrow> None)"

definition getCounts :: "anymap \<Rightarrow> string \<Rightarrow> (string \<times> int) list option" where
  "getCounts m k = (case map_of m k of Some (AnyCounts c) \<Rightarrow> Some c | _ \<Rightarrow> None)"

section \<open>Ranks\<close>

definition severityRank :: "string \<Rightarrow> int" where
  "severityRank severity =
     (let s = ToUpper severity in
      if s = ''CRITICAL'' then 4 else if s = ''HIGH'' then 3 else if s = ''MEDIUM'' then 2
      else if s = ''LOW'' then 1 else 0)"

definition riskRank :: "string \<Rightarrow> int" where
  "riskRank level =
     (let l = ToLower (TrimSpace level) in
      if l = ''critical'' then 4 else if l = ''high'' then 3 else if l = ''medium'' then 2
      else if l = ''low'' then 1 else 0)"

text \<open>The loop over the counts of a map: some entry counts and has at least the rank.\<close>

definition countsReach :: "(string \<Rightarrow> int) \<Rightarrow> string \<Rightarrow> (string \<times> int) list \<Rightarrow> bool" where
  "countsReach rank floor counts = list_ex (\<lambda>(k, count). count > 0 \<and> rank k \<ge> rank floor) counts"

section \<open>The notifier\<close>

record webhookNotifier =
  wn_url :: string
  wn_secret :: string
  wn_minSeverity :: string
  wn_minRiskLevel :: string
  wn_inventoryStatuses :: "string list option"
  wn_timeout :: int
  wn_maxAttempts :: int
  wn_retryDelay :: int
  wn_sem :: "int option"

definition webhookRiskLevelFromEnv :: "environment \<Rightarrow> string" where
  "webhookRiskLevelFromEnv env =
     (let raw = ToLower (TrimSpace (env ''BONGSU_WEBHOOK_MIN_RISK_LEVEL'')) in
      if raw = [] then ''high''
      else if raw \<in> set [''none'', ''off'', ''disabled'', ''disable''] then []
      else if raw \<in> set [''critical'', ''high'', ''medium'', ''low''] then raw
      else ''high'')"

definition parseInventoryStatuses :: "string \<Rightarrow> string list" where
  "parseInventoryStatuses v =
     (let v = (if TrimSpace v = [] then ''empty'' else v)
      in filter (\<lambda>part. part \<in> set [''healthy'', ''degraded'', ''stale'', ''empty'', ''none''])
           (map (\<lambda>part. ToLower (TrimSpace part)) (SplitByte v (CHR '',''))))"

definition webhookRetryAttemptsFromEnv :: "environment \<Rightarrow> int" where
  "webhookRetryAttemptsFromEnv env =
     (let attempts = envInt env ''BONGSU_WEBHOOK_RETRY_ATTEMPTS'' 3
      in if attempts < 1 then 1 else if attempts > 10 then 10 else attempts)"

definition webhookRetryDelayFromEnv :: "environment \<Rightarrow> int" where
  "webhookRetryDelayFromEnv env =
     (let ms = envInt env ''BONGSU_WEBHOOK_RETRY_DELAY_MS'' 1000
      in if ms \<le> 0 then 1000000000 else if ms > 60000 then 60000000000 else ms * 1000000)"

definition webhookTimeoutFromEnv :: "environment \<Rightarrow> int" where
  "webhookTimeoutFromEnv env =
     (let seconds = envInt env ''BONGSU_WEBHOOK_TIMEOUT_SECONDS'' 15
      in if seconds \<le> 0 then 15000000000 else if seconds > 300 then 300000000000 else seconds * 1000000000)"

definition newWebhookNotifierFromEnv :: "environment \<Rightarrow> webhookNotifier option" where
  "newWebhookNotifierFromEnv env =
     (let url = TrimSpace (env ''BONGSU_WEBHOOK_URL'') in
      if url = [] then None
      else Some \<lparr>wn_url = url, wn_secret = env ''BONGSU_WEBHOOK_SECRET'',
                 wn_minSeverity = ToUpper (TrimSpace (env ''BONGSU_WEBHOOK_MIN_SEVERITY'')),
                 wn_minRiskLevel = webhookRiskLevelFromEnv env,
                 wn_inventoryStatuses = Some (parseInventoryStatuses (env ''BONGSU_WEBHOOK_INVENTORY_STATUSES'')),
                 wn_timeout = webhookTimeoutFromEnv env, wn_maxAttempts = webhookRetryAttemptsFromEnv env,
                 wn_retryDelay = webhookRetryDelayFromEnv env,
                 wn_sem = Some (envPositiveIntDefault (Some (env ''BONGSU_WEBHOOK_MAX_CONCURRENT'')) 16)\<rparr>)"

definition Enabled :: "webhookNotifier option \<Rightarrow> bool" where
  "Enabled n = (case n of None \<Rightarrow> False | Some w \<Rightarrow> wn_url w \<noteq> [])"

definition ShouldSendSeverity :: "webhookNotifier option \<Rightarrow> (string \<times> int) list \<Rightarrow> bool" where
  "ShouldSendSeverity n counts =
     (if \<not> Enabled n then False
      else (case n of None \<Rightarrow> False
            | Some w \<Rightarrow> if wn_minSeverity w = [] then True else countsReach severityRank (wn_minSeverity w) counts))"

definition ShouldSendRiskLevel :: "webhookNotifier option \<Rightarrow> (string \<times> int) list \<Rightarrow> bool" where
  "ShouldSendRiskLevel n counts =
     (if \<not> Enabled n then False
      else (case n of None \<Rightarrow> False
            | Some w \<Rightarrow> if wn_minRiskLevel w = [] then False else countsReach riskRank (wn_minRiskLevel w) counts))"

definition ShouldSendScan :: "webhookNotifier option \<Rightarrow> (string \<times> int) list \<Rightarrow> (string \<times> int) list \<Rightarrow> string
    \<Rightarrow> bool \<times> webhookNotifier option" where
  "ShouldSendScan n severityCounts riskCounts inventoryStatus =
     (if \<not> Enabled n then (False, n)
      else if ShouldSendSeverity n severityCounts \<or> ShouldSendRiskLevel n riskCounts then (True, n)
      else (case n of None \<Rightarrow> (False, n)
            | Some w \<Rightarrow>
                let statuses = (case wn_inventoryStatuses w of None \<Rightarrow> parseInventoryStatuses [] | Some ss \<Rightarrow> ss)
                in (ToLower (TrimSpace inventoryStatus) \<in> set statuses, Some (w\<lparr>wn_inventoryStatuses := Some statuses\<rparr>))))"

section \<open>One delivery\<close>

text \<open>\<open>NotBuilt\<close>: the request cannot be made of the url. \<open>NotSent\<close>: no response. Otherwise the status code.\<close>

datatype attempt_result = NotBuilt string | NotSent string | Answered int

definition retryWebhookStatus :: "int \<Rightarrow> bool" where
  "retryWebhookStatus st \<longleftrightarrow> st = 429 \<or> st \<ge> 500"

record delivery_report =
  rp_status :: string
  rp_http :: int
  rp_error :: string
  rp_attempts :: int

text \<open>
  The loop from \<open>attempt\<close> on, with the last status and error and the time slept so far. The result is the report
  and the time slept.
\<close>

function webhookLoop :: "(int \<Rightarrow> attempt_result) \<Rightarrow> int \<Rightarrow> int \<Rightarrow> int \<Rightarrow> int \<Rightarrow> int \<times> string \<Rightarrow> delivery_report \<times> int" where
  "webhookLoop http delay attempts attempt slept (lastStatus, lastErr) =
     (if attempt > attempts then
        (\<lparr>rp_status = ''failed'', rp_http = lastStatus, rp_error = lastErr, rp_attempts = attempts\<rparr>, slept)
      else
        (case http attempt of
           NotBuilt e \<Rightarrow> (\<lparr>rp_status = ''failed'', rp_http = 0, rp_error = e, rp_attempts = attempt\<rparr>, slept)
         | NotSent e \<Rightarrow>
             if attempt < attempts then webhookLoop http delay attempts (attempt + 1) (slept + delay) (0, e)
             else (\<lparr>rp_status = ''failed'', rp_http = 0, rp_error = e, rp_attempts = attempt\<rparr>, slept)
         | Answered code \<Rightarrow>
             if 200 \<le> code \<and> code < 300 then
               (\<lparr>rp_status = ''ok'', rp_http = code, rp_error = [], rp_attempts = attempt\<rparr>, slept)
             else if \<not> retryWebhookStatus code \<or> attempt = attempts then
               (\<lparr>rp_status = ''failed'', rp_http = code, rp_error = [], rp_attempts = attempt\<rparr>, slept)
             else webhookLoop http delay attempts (attempt + 1) (slept + delay) (code, [])))"
  by pat_completeness auto
termination by (relation "measure (\<lambda>(http, delay, attempts, attempt, _). nat (attempts + 1 - attempt))") auto

declare webhookLoop.simps [simp del]

record outgoing =
  og_url :: string
  og_headers :: "(string \<times> string) list"
  og_body :: string

definition signatureHeader :: "(string \<Rightarrow> string \<Rightarrow> string) \<Rightarrow> string \<Rightarrow> string \<Rightarrow> (string \<times> string) list" where
  "signatureHeader hmac secret body =
     (if secret \<noteq> [] then [(''X-Bongsu-Signature-256'', ''sha256='' @ hexEncode (hmac secret body))] else [])"

definition webhookRequest :: "(string \<Rightarrow> string \<Rightarrow> string) \<Rightarrow> webhookNotifier \<Rightarrow> string \<Rightarrow> string \<Rightarrow> outgoing" where
  "webhookRequest hmac w event body =
     \<lparr>og_url = wn_url w,
      og_headers = [(''Content-Type'', ''application/json''), (''User-Agent'', ''bongsu-webhook/0.1.0''),
                    (''X-Bongsu-Event'', event)] @ signatureHeader hmac (wn_secret w) body,
      og_body = body\<rparr>"

text \<open>HMAC-SHA-256, the encoding of the payload as JSON (\<open>Inl\<close> its error), the clock's text and the network.\<close>

record webhookWorld =
  ww_hmac :: "string \<Rightarrow> string \<Rightarrow> string"
  ww_marshal :: "string \<Rightarrow> string \<Rightarrow> anymap \<Rightarrow> string + string"
  ww_timestamp :: string
  ww_http :: "outgoing \<Rightarrow> int \<Rightarrow> attempt_result"

definition deliverWebhook :: "webhookWorld \<Rightarrow> webhookNotifier \<Rightarrow> string \<Rightarrow> anymap \<Rightarrow> delivery_report \<times> int" where
  "deliverWebhook world w event data =
     (case ww_marshal world event (ww_timestamp world) data of
        Inl e \<Rightarrow> (\<lparr>rp_status = ''failed'', rp_http = 0, rp_error = e, rp_attempts = 1\<rparr>, 0)
      | Inr body \<Rightarrow>
          let attempts = (if wn_maxAttempts w \<le> 0 then 1 else wn_maxAttempts w);
              delay = (if wn_retryDelay w \<le> 0 then 1000000000 else wn_retryDelay w)
          in webhookLoop (ww_http world (webhookRequest (ww_hmac world) w event body)) delay attempts 1 0 (0, []))"

section \<open>Deliveries in flight\<close>

text \<open>
  \<^verbatim>\<open>Send\<close> takes a place in the semaphore and starts a goroutine, or reports the event dropped; a goroutine that
  ends reports and gives its place back. Which goroutine ends when is an operation of its own.
\<close>

record notifierState =
  ns_flying :: "(string \<times> anymap) list"
  ns_reports :: "(string \<times> anymap \<times> delivery_report) list"

definition Send :: "webhookNotifier option \<Rightarrow> string \<Rightarrow> anymap \<Rightarrow> notifierState \<Rightarrow> notifierState" where
  "Send n event data st =
     (if \<not> Enabled n then st
      else if (case n of Some w \<Rightarrow> (case wn_sem w of Some c \<Rightarrow> int (length (ns_flying st)) \<ge> c | None \<Rightarrow> False) | None \<Rightarrow> False) then
        st\<lparr>ns_reports := ns_reports st @ [(event, data,
             \<lparr>rp_status = ''dropped'', rp_http = 0, rp_error = ''delivery concurrency limit reached'', rp_attempts = 0\<rparr>)]\<rparr>
      else st\<lparr>ns_flying := ns_flying st @ [(event, data)]\<rparr>)"

definition finish :: "webhookNotifier option \<Rightarrow> webhookWorld \<Rightarrow> nat \<Rightarrow> notifierState \<Rightarrow> notifierState" where
  "finish n world i st =
     (case n of None \<Rightarrow> st
      | Some w \<Rightarrow>
          if i < length (ns_flying st) then
            (case ns_flying st ! i of (event, data) \<Rightarrow>
               st\<lparr>ns_flying := take i (ns_flying st) @ drop (Suc i) (ns_flying st),
                  ns_reports := ns_reports st @ [(event, data, fst (deliverWebhook world w event data))]\<rparr>)
          else st)"

text \<open>\<^verbatim>\<open>auditWebhookResult\<close>: the audit entry of a report, without its metadata.\<close>

definition auditWebhookResult :: "string \<Rightarrow> anymap \<Rightarrow> string \<Rightarrow> string \<times> string \<times> string \<times> string" where
  "auditWebhookResult event data st =
     (let (resourceType, resourceID) =
        (case getString data ''scan_id'' of
           Some k \<Rightarrow> if k \<noteq> [] then (''scan'', k)
                     else if event = ''security_db.updated'' then (''security_db'', ''aggregate'') else (''webhook'', event)
         | None \<Rightarrow> if event = ''security_db.updated'' then (''security_db'', ''aggregate'') else (''webhook'', event))
      in (''webhook.send'', resourceType, resourceID, st))"

section \<open>Retry loops\<close>

text \<open>
  The contract of a loop over the attempts \<open>k\<close> to \<open>n\<close>: a decisive outcome or the last attempt ends it with \<open>final\<close>,
  any other outcome costs one delay. Three loops of the notifications keep it.
\<close>

locale retry_loop =
  fixes loop :: "(int \<Rightarrow> 'r) \<Rightarrow> int \<Rightarrow> int \<Rightarrow> int \<Rightarrow> int \<Rightarrow> 'l \<Rightarrow> 'o \<times> int"
    and decisive :: "'r \<Rightarrow> bool" and final :: "'r \<Rightarrow> int \<Rightarrow> 'o" and note_last :: "'r \<Rightarrow> 'l"
  assumes step: "k \<le> n \<Longrightarrow> loop f d n k s l =
    (if decisive (f k) \<or> k = n then (final (f k) k, s) else loop f d n (k + 1) (s + d) (note_last (f k)))"
begin

lemma exact:
  assumes "k \<le> n"
  shows "\<exists>j. k \<le> j \<and> j \<le> n \<and> (\<forall>i. k \<le> i \<longrightarrow> i < j \<longrightarrow> \<not> decisive (f i)) \<and> (decisive (f j) \<or> j = n)
    \<and> loop f d n k s l = (final (f j) j, s + (j - k) * d)"
  using assms
proof (induction "nat (n - k)" arbitrary: k s l)
  case 0
  then have "k = n" by simp
  then show ?case using step [of k n f d s l] by auto
next
  case (Suc m)
  show ?case
  proof (cases "decisive (f k)")
    case True
    then show ?thesis using step [OF Suc.prems, of f d s l] Suc.prems by (intro exI [of _ k]) auto
  next
    case False
    have "m = nat (n - (k + 1))" "k + 1 \<le> n" "k \<noteq> n" using Suc.hyps(2) by auto
    from Suc.hyps(1) [OF this(1,2), of "s + d" "note_last (f k)"] obtain j where
      j: "k + 1 \<le> j" "j \<le> n" "\<forall>i. k + 1 \<le> i \<longrightarrow> i < j \<longrightarrow> \<not> decisive (f i)" "decisive (f j) \<or> j = n"
        "loop f d n (k + 1) (s + d) (note_last (f k)) = (final (f j) j, s + d + (j - (k + 1)) * d)" by blast
    have "\<forall>i. k \<le> i \<longrightarrow> i < j \<longrightarrow> \<not> decisive (f i)"
    proof (intro allI impI)
      fix i assume "k \<le> i" "i < j"
      then show "\<not> decisive (f i)" using j(3) False by (cases "i = k") auto
    qed
    moreover have "loop f d n k s l = (final (f j) j, s + (j - k) * d)"
      using step [OF Suc.prems, of f d s l] False \<open>k \<noteq> n\<close> j(5) by (simp add: algebra_simps)
    ultimately show ?thesis using j by (intro exI [of _ j]) auto
  qed
qed

text \<open>If some attempt in time succeeds for good and no earlier one settles the matter, the loop ends with it.\<close>

lemma first_decisive:
  assumes "k \<le> j" "j \<le> n" "decisive (f j)" "\<And>i. k \<le> i \<Longrightarrow> i < j \<Longrightarrow> \<not> decisive (f i)"
  shows "loop f d n k s l = (final (f j) j, s + (j - k) * d)"
proof -
  obtain i where i: "k \<le> i" "i \<le> n" "\<forall>x. k \<le> x \<longrightarrow> x < i \<longrightarrow> \<not> decisive (f x)" "decisive (f i) \<or> i = n"
    "loop f d n k s l = (final (f i) i, s + (i - k) * d)" using exact [of k n f d s l] assms by auto
  have "i = j"
  proof (rule linorder_cases [of i j])
    assume "i < j" then show ?thesis using i assms by auto
  next
    assume "j < i" then show ?thesis using i(3) assms by auto
  qed auto
  then show ?thesis using i(5) by simp
qed

end

definition decisiveResult :: "attempt_result \<Rightarrow> bool" where
  "decisiveResult r = (case r of NotBuilt e \<Rightarrow> True | NotSent e \<Rightarrow> False | Answered code \<Rightarrow> \<not> retryWebhookStatus code)"

definition delivered :: "attempt_result \<Rightarrow> bool" where
  "delivered r = (case r of Answered code \<Rightarrow> 200 \<le> code \<and> code < 300 | _ \<Rightarrow> False)"

definition webhookReport :: "attempt_result \<Rightarrow> int \<Rightarrow> delivery_report" where
  "webhookReport r k =
     \<lparr>rp_status = (if delivered r then ''ok'' else ''failed''),
      rp_http = (case r of Answered code \<Rightarrow> code | _ \<Rightarrow> 0),
      rp_error = (case r of NotBuilt e \<Rightarrow> e | NotSent e \<Rightarrow> e | Answered code \<Rightarrow> []), rp_attempts = k\<rparr>"

definition webhookLast :: "attempt_result \<Rightarrow> int \<times> string" where
  "webhookLast r = (case r of NotBuilt e \<Rightarrow> (0, e) | NotSent e \<Rightarrow> (0, e) | Answered code \<Rightarrow> (code, []))"

interpretation webhook: retry_loop webhookLoop decisiveResult webhookReport webhookLast
proof unfold_locales
  fix k n d s :: int and f :: "int \<Rightarrow> attempt_result" and l :: "int \<times> string"
  assume "k \<le> n"
  then show "webhookLoop f d n k s l = (if decisiveResult (f k) \<or> k = n then (webhookReport (f k) k, s)
      else webhookLoop f d n (k + 1) (s + d) (webhookLast (f k)))"
    by (cases l; cases "f k")
      (auto simp: webhookLoop.simps [of f d n k] decisiveResult_def webhookReport_def webhookLast_def delivered_def
        retryWebhookStatus_def)
qed

section \<open>What the webhook promises\<close>

definition attemptsOf :: "webhookNotifier \<Rightarrow> int" where
  "attemptsOf w = (if wn_maxAttempts w \<le> 0 then 1 else wn_maxAttempts w)"

lemma attemptsOf_positive: "1 \<le> attemptsOf w"
  by (simp add: attemptsOf_def)

lemma webhookRetryDelay_bounds: "0 < webhookRetryDelayFromEnv env \<and> webhookRetryDelayFromEnv env \<le> 60000000000"
  by (simp add: webhookRetryDelayFromEnv_def Let_def)

lemma webhookRetryAttempts_bounds: "1 \<le> webhookRetryAttemptsFromEnv env \<and> webhookRetryAttemptsFromEnv env \<le> 10"
  by (simp add: webhookRetryAttemptsFromEnv_def Let_def)

text \<open>A report that a delivery can end in.\<close>

definition sound_report :: "webhookNotifier \<Rightarrow> delivery_report \<Rightarrow> bool" where
  "sound_report w r \<longleftrightarrow>
     (rp_status r = ''ok'' \<longrightarrow> 200 \<le> rp_http r \<and> rp_http r < 300) \<and>
     (if rp_status r = ''dropped'' then rp_attempts r = 0
      else rp_status r \<in> {''ok'', ''failed''} \<and> 1 \<le> rp_attempts r \<and> rp_attempts r \<le> attemptsOf w)"

lemma webhookReport_sound: "1 \<le> k \<Longrightarrow> k \<le> attemptsOf w \<Longrightarrow> sound_report w (webhookReport r k)"
  by (cases r) (auto simp: sound_report_def webhookReport_def delivered_def)

lemma deliverWebhook_sound: "sound_report w (fst (deliverWebhook world w event data))"
proof (cases "ww_marshal world event (ww_timestamp world) data")
  case (Inl e)
  then show ?thesis using attemptsOf_positive [of w] by (simp add: deliverWebhook_def sound_report_def)
next
  case (Inr body)
  define f where "f = ww_http world (webhookRequest (ww_hmac world) w event body)"
  define d where "d = (if wn_retryDelay w \<le> 0 then 1000000000 else wn_retryDelay w)"
  have "deliverWebhook world w event data = webhookLoop f d (attemptsOf w) 1 0 (0, [])"
    using Inr by (simp add: deliverWebhook_def f_def d_def attemptsOf_def Let_def)
  then show ?thesis using webhook.exact [OF attemptsOf_positive [of w], where f = f and d = d and s = 0 and l = "(0, [])"]
      webhookReport_sound by auto
qed

datatype notifier_op = DoSend string anymap | DoFinish webhookWorld nat

fun notifier_step :: "webhookNotifier option \<Rightarrow> notifier_op \<Rightarrow> notifierState \<Rightarrow> notifierState" where
  "notifier_step n (DoSend event data) st = Send n event data st"
| "notifier_step n (DoFinish world i) st = finish n world i st"

fun sentEvents :: "notifier_op list \<Rightarrow> (string \<times> anymap) list" where
  "sentEvents [] = []"
| "sentEvents (DoSend event data # ops) = (event, data) # sentEvents ops"
| "sentEvents (DoFinish world i # ops) = sentEvents ops"

definition reportedEvents :: "notifierState \<Rightarrow> (string \<times> anymap) list" where
  "reportedEvents st = map (\<lambda>(event, data, r). (event, data)) (ns_reports st)"

definition idle :: notifierState where
  "idle = \<lparr>ns_flying = [], ns_reports = []\<rparr>"

text \<open>Capacity and reports, whatever happened before.\<close>

definition notifier_ok :: "webhookNotifier \<Rightarrow> notifierState \<Rightarrow> bool" where
  "notifier_ok w st \<longleftrightarrow>
     (case wn_sem w of Some c \<Rightarrow> int (length (ns_flying st)) \<le> c | None \<Rightarrow> True) \<and>
     (\<forall>(event, data, r) \<in> set (ns_reports st). sound_report w r)"

lemma dropped_sound:
  "sound_report w \<lparr>rp_status = ''dropped'', rp_http = 0, rp_error = e, rp_attempts = 0\<rparr>"
  by (simp add: sound_report_def)

lemma Send_ok: "notifier_ok w st \<Longrightarrow> notifier_ok w (Send (Some w) event data st)"
  by (cases "wn_sem w") (auto simp: notifier_ok_def Send_def dropped_sound)

lemma finish_ok:
  assumes "notifier_ok w st"
  shows "notifier_ok w (finish (Some w) world i st)"
proof (cases "i < length (ns_flying st)")
  case True
  obtain event data where e: "ns_flying st ! i = (event, data)" by fastforce
  show ?thesis using assms True by (cases "wn_sem w") (auto simp: notifier_ok_def finish_def e deliverWebhook_sound)
qed (simp add: finish_def assms)

lemma mset_remove_nth: "i < length xs \<Longrightarrow> mset xs = add_mset (xs ! i) (mset (take i xs @ drop (Suc i) xs))"
  by (subst id_take_nth_drop [of i xs]) (simp_all del: append_take_drop_id)

lemma step_accounts:
  assumes "Enabled (Some w)"
  shows "mset (ns_flying (notifier_step (Some w) op st)) + mset (reportedEvents (notifier_step (Some w) op st))
    = mset (ns_flying st) + mset (reportedEvents st) + mset (sentEvents [op])"
proof (cases op)
  case (DoSend event data)
  then show ?thesis using assms by (auto simp: Send_def reportedEvents_def split: option.split)
next
  case (DoFinish world i)
  show ?thesis
  proof (cases "i < length (ns_flying st)")
    case True
    obtain event data where e: "ns_flying st ! i = (event, data)" by fastforce
    show ?thesis using mset_remove_nth [OF True] DoFinish True by (simp add: finish_def e reportedEvents_def)
  qed (simp add: DoFinish finish_def)
qed

lemma sentEvents_Cons: "sentEvents (op # ops) = sentEvents [op] @ sentEvents ops"
  by (cases op) simp_all

lemma run_ok: "notifier_ok w st \<Longrightarrow> notifier_ok w (fold (notifier_step (Some w)) ops st)"
proof (induction ops arbitrary: st)
  case (Cons op ops)
  then show ?case by (cases op) (simp_all add: Send_ok finish_ok)
qed simp

lemma run_accounts:
  assumes "Enabled (Some w)"
  shows "mset (ns_flying (fold (notifier_step (Some w)) ops st)) + mset (reportedEvents (fold (notifier_step (Some w)) ops st))
    = mset (ns_flying st) + mset (reportedEvents st) + mset (sentEvents ops)"
proof (induction ops arbitrary: st)
  case (Cons op ops)
  show ?case
    using Cons [of "notifier_step (Some w) op st"] step_accounts [OF assms, of op st] sentEvents_Cons [of op ops] by simp
qed simp

text \<open>
  However sends and ends of deliveries interleave, at most the configured number of deliveries is in flight,
  every event handed to an enabled webhook is in flight or was reported exactly once, and each report is sound: a
  dropped event was never tried, every other was tried at least once and at most as often as configured, and ok
  means a 2xx response.
\<close>

theorem webhook_accounts_for_events:
  assumes "Enabled (Some w)" "wn_sem w = Some c" "0 \<le> c" "st = fold (notifier_step (Some w)) ops idle"
  shows "int (length (ns_flying st)) \<le> c \<and>
    mset (sentEvents ops) = mset (ns_flying st) + mset (reportedEvents st) \<and>
    (\<forall>(event, data, r) \<in> set (ns_reports st). sound_report w r)"
proof -
  have "notifier_ok w st" unfolding assms(4) by (rule run_ok) (simp add: notifier_ok_def idle_def assms)
  moreover have "mset (ns_flying st) + mset (reportedEvents st) = mset (sentEvents ops)"
    using run_accounts [OF assms(1), of ops idle] unfolding assms(4) by (simp add: idle_def reportedEvents_def)
  ultimately show ?thesis using assms(2) by (simp add: notifier_ok_def)
qed

definition sampleWebhook :: webhookNotifier where
  "sampleWebhook = \<lparr>wn_url = ''http://x'', wn_secret = [], wn_minSeverity = [], wn_minRiskLevel = ''high'',
     wn_inventoryStatuses = None, wn_timeout = 1, wn_maxAttempts = 3, wn_retryDelay = 5, wn_sem = Some 1\<rparr>"

definition sampleNetwork :: webhookWorld where
  "sampleNetwork = \<lparr>ww_hmac = (\<lambda>k b. []), ww_marshal = (\<lambda>e t d. Inr e), ww_timestamp = [],
     ww_http = (\<lambda>rq k. if k = 1 then NotSent ''timeout'' else Answered 204)\<rparr>"

text \<open>Two events while one delivery may fly: the second is dropped, the first arrives at the second attempt.\<close>

lemma sample_run:
  "fold (notifier_step (Some sampleWebhook)) [DoSend ''a'' [], DoSend ''b'' [], DoFinish sampleNetwork 0] idle
   = \<lparr>ns_flying = [], ns_reports =
       [(''b'', [], \<lparr>rp_status = ''dropped'', rp_http = 0, rp_error = ''delivery concurrency limit reached'', rp_attempts = 0\<rparr>),
        (''a'', [], \<lparr>rp_status = ''ok'', rp_http = 204, rp_error = [], rp_attempts = 2\<rparr>)]\<rparr>"
  by (simp add: idle_def Send_def finish_def Enabled_def sampleWebhook_def sampleNetwork_def deliverWebhook_def
      webhookLoop.simps retryWebhookStatus_def webhookRequest_def)

lemma webhook_accounts_for_events_witness:
  "mset (sentEvents [DoSend ''a'' [], DoSend ''b'' [], DoFinish sampleNetwork 0])
   = mset [] + mset [(''b'', []), (''a'', [])]"
  using webhook_accounts_for_events [OF _ _ _ sample_run [symmetric], of 1]
  by (simp add: sampleWebhook_def Enabled_def reportedEvents_def)

end
