(* ===== verification/Mail.thy ===== *)
theory Mail
  imports Webhook
begin

text \<open>
  Notification mail (\<^verbatim>\<open>internal/server/api/notifier_email.go\<close>): the configuration, the recipients, the text of a
  message, and one SMTP session as the commands it issues. The mail server is a parameter: what it advertises and
  which command it answers with an error.
\<close>

section \<open>Configuration\<close>

record smtpConfig =
  sc_Host :: string
  sc_Port :: int
  sc_Username :: string
  sc_Password :: string
  sc_From :: string
  sc_Encryption :: string

definition smtpConfigFromEnv :: "environment \<Rightarrow> string + smtpConfig" where
  "smtpConfigFromEnv env =
     (let host = TrimSpace (env ''BONGSU_SMTP_HOST''); sender = TrimSpace (env ''BONGSU_SMTP_FROM'');
          enc = ToLower (TrimSpace (env ''BONGSU_SMTP_ENCRYPTION'')) in
      if host = [] then Inl ''BONGSU_SMTP_HOST is not configured''
      else if sender = [] then Inl ''BONGSU_SMTP_FROM is not configured''
      else if enc \<notin> set ['''', ''starttls'', ''tls'', ''none''] then
        Inl ''BONGSU_SMTP_ENCRYPTION must be starttls, tls, or none''
      else
        (let enc = (if enc = [] then ''starttls'' else enc); defPort = (if enc = ''tls'' then 465 else 587)
         in Inr \<lparr>sc_Host = host, sc_Port = envInt env ''BONGSU_SMTP_PORT'' defPort,
                  sc_Username = TrimSpace (env ''BONGSU_SMTP_USERNAME''), sc_Password = env ''BONGSU_SMTP_PASSWORD'',
                  sc_From = sender, sc_Encryption = enc\<rparr>))"

text \<open>\<open>cfg\<close> is the \<^verbatim>\<open>map[string]string\<close> of a channel: absent keys read as the empty string.\<close>

definition emailRecipients :: "(string \<Rightarrow> string) \<Rightarrow> string list" where
  "emailRecipients cfg =
     filter (\<lambda>addr. addr \<noteq> [] \<and> CHR ''@'' \<in> set addr) (map TrimSpace (SplitByte (cfg ''to'') (CHR '','')))"

section \<open>The message\<close>

record notifyPayload =
  np_event :: string
  np_timestamp :: string
  np_ruleID :: string
  np_ruleName :: string
  np_data :: anymap

text \<open>\<^verbatim>\<open>fmt\<close>'s \<^verbatim>\<open>%v\<close>: a map prints in the order of its keys.\<close>

definition showValue :: "anyval \<Rightarrow> string" where
  "showValue v =
     (case v of
        AnyBool b \<Rightarrow> if b then ''true'' else ''false''
      | AnyInt n \<Rightarrow> show_int n
      | AnyString s \<Rightarrow> s
      | AnyStrings ss \<Rightarrow> ''['' @ Join ss '' '' @ '']''
      | AnyCounts cs \<Rightarrow> ''map['' @ Join (map (\<lambda>(k, n). k @ '':'' @ show_int n) (sort_key fst cs)) '' '' @ '']'')"

text \<open>\<^verbatim>\<open>%-24s\<close> pads with spaces to a width of 24 runes.\<close>

definition padRight :: "nat \<Rightarrow> string \<Rightarrow> string" where
  "padRight n s = s @ replicate (n - length (runes s)) (CHR '' '')"

definition newline :: char where "newline = CHR 0x0A"
definition crlf :: string where "crlf = [CHR 0x0D, CHR 0x0A]"

definition formatNotificationEmailBody :: "string \<Rightarrow> string \<Rightarrow> notifyPayload \<Rightarrow> string" where
  "formatNotificationEmailBody ruleName event payload =
     ''Bongsu notification'' @ [newline, newline]
     @ ''Event:      '' @ event @ [newline]
     @ ''Rule:       '' @ ruleName @ [newline]
     @ ''Timestamp:  '' @ np_timestamp payload @ [newline]
     @ newline # ''Details:'' @ [newline]
     @ concat (map (\<lambda>(k, v). ''  '' @ padRight 24 (k @ '':'') @ '' '' @ showValue v @ [newline])
                 (sort_key fst (np_data payload)))
     @ newline # ''-- bongsu-notification'' @ [newline]"

definition buildEmailMessage :: "string \<Rightarrow> string \<Rightarrow> string list \<Rightarrow> string \<Rightarrow> string \<Rightarrow> string" where
  "buildEmailMessage date sender rcpts subject body =
     ''From: '' @ sender @ crlf
     @ ''To: '' @ Join rcpts '', '' @ crlf
     @ ''Subject: '' @ subject @ crlf
     @ ''Date: '' @ date @ crlf
     @ ''MIME-Version: 1.0'' @ crlf
     @ ''Content-Type: text/plain; charset=utf-8'' @ crlf
     @ crlf
     @ ReplaceAllByte body newline crlf"

section \<open>One SMTP session\<close>

datatype smtp_cmd =
    Dial bool string
  | Greet
  | Extension string
  | StartTLS string
  | Auth string string
  | MailFrom string
  | RcptTo string
  | OpenData
  | WriteData string
  | CloseData
  | Quit

text \<open>The extensions the server advertises, and its error answer to a command, \<open>None\<close> when it accepts.\<close>

record smtpServer =
  sm_extension :: "string \<Rightarrow> bool"
  sm_answer :: "smtp_cmd \<Rightarrow> string option"

definition JoinHostPort :: "string \<Rightarrow> int \<Rightarrow> string" where
  "JoinHostPort host port =
     (if CHR '':'' \<in> set host then ''['' @ host @ '']:'' @ show_int port else host @ '':'' @ show_int port)"

text \<open>A command with the error \<^verbatim>\<open>deliverSMTP\<close> returns if the server refuses it.\<close>

definition asks :: "smtpServer \<Rightarrow> string \<Rightarrow> smtp_cmd \<Rightarrow> smtp_cmd \<times> string option" where
  "asks srv prefix c = (c, map_option (\<lambda>e. prefix @ e) (sm_answer srv c))"

definition needs :: "smtpServer \<Rightarrow> string \<Rightarrow> smtp_cmd \<times> string option" where
  "needs srv ext =
     (Extension ext, if sm_extension srv ext then None else Some (''smtp server does not support '' @ ext))"

definition smtpSteps :: "smtpServer \<Rightarrow> smtpConfig \<Rightarrow> string list \<Rightarrow> string \<Rightarrow> (smtp_cmd \<times> string option) list" where
  "smtpSteps srv cfg recipients msg =
     (let addr = JoinHostPort (sc_Host cfg) (sc_Port cfg) in
      [asks srv (''smtp dial '' @ addr @ '': '') (Dial (sc_Encryption cfg = ''tls'') addr),
       asks srv ''smtp handshake: '' Greet]
      @ (if sc_Encryption cfg = ''starttls'' then
           [needs srv ''STARTTLS'', asks srv ''starttls: '' (StartTLS (sc_Host cfg))]
         else [])
      @ (if sc_Username cfg \<noteq> [] then
           [needs srv ''AUTH'', asks srv ''smtp auth: '' (Auth (sc_Username cfg) (sc_Password cfg))]
         else [])
      @ [asks srv ''smtp mail from: '' (MailFrom (sc_From cfg))]
      @ map (\<lambda>rcpt. asks srv (''smtp rcpt '' @ rcpt @ '': '') (RcptTo rcpt)) recipients
      @ [asks srv ''smtp data: '' OpenData, asks srv ''smtp write: '' (WriteData msg),
         asks srv ''smtp close: '' CloseData, asks srv [] Quit])"

text \<open>Commands are issued in order until one fails: the error, and the commands issued.\<close>

fun runSteps :: "(smtp_cmd \<times> string option) list \<Rightarrow> string option \<times> smtp_cmd list" where
  "runSteps [] = (None, [])"
| "runSteps ((c, e) # steps) =
     (case e of
        Some err \<Rightarrow> (Some err, [c])
      | None \<Rightarrow> (case runSteps steps of (r, cmds) \<Rightarrow> (r, c # cmds)))"

definition deliverSMTP :: "smtpServer \<Rightarrow> smtpConfig \<Rightarrow> string list \<Rightarrow> string \<Rightarrow> string option \<times> smtp_cmd list" where
  "deliverSMTP srv cfg recipients msg = runSteps (smtpSteps srv cfg recipients msg)"

section \<open>What a session guarantees\<close>

lemma runSteps_prefix: "\<exists>rest. map fst steps = snd (runSteps steps) @ rest"
  by (induction steps rule: runSteps.induct) (auto split: option.split prod.split)

lemma runSteps_None: "fst (runSteps steps) = None \<longleftrightarrow> list_all (\<lambda>x. snd x = None) steps"
  by (induction steps rule: runSteps.induct) (auto split: option.split prod.split)

lemma runSteps_all: "fst (runSteps steps) = None \<Longrightarrow> snd (runSteps steps) = map fst steps"
  by (induction steps rule: runSteps.induct) (auto split: option.splits prod.splits)

text \<open>Everything issued before the last command was accepted.\<close>

lemma runSteps_accepted: "snd (runSteps steps) = p @ c # q # r \<Longrightarrow> \<exists>i < length steps. steps ! i = (c, None)"
proof (induction steps arbitrary: p)
  case (Cons x steps)
  obtain d e where x: "x = (d, e)" by fastforce
  show ?case
  proof (cases e)
    case None
    have t: "snd (runSteps (x # steps)) = d # snd (runSteps steps)" by (simp add: x None split: prod.split)
    show ?thesis
    proof (cases p)
      case Nil
      then show ?thesis using Cons.prems t x None by (intro exI [of _ 0]) simp
    next
      case (Cons y p')
      then have "snd (runSteps steps) = p' @ c # q # r" using Cons.prems t by simp
      then obtain i where "i < length steps" "steps ! i = (c, None)" using Cons.IH by blast
      then show ?thesis by (intro exI [of _ "Suc i"]) simp
    qed
  next
    case (Some err)
    then show ?thesis using Cons.prems x by (cases p) auto
  qed
qed simp

text \<open>What must not travel in the clear.\<close>

fun confidential :: "smtp_cmd \<Rightarrow> bool" where
  "confidential (Auth u p) = True"
| "confidential (MailFrom a) = True"
| "confidential (RcptTo a) = True"
| "confidential (WriteData m) = True"
| "confidential _ = False"

fun securing :: "smtp_cmd \<Rightarrow> bool" where
  "securing (Dial tls addr) = tls"
| "securing (StartTLS host) = True"
| "securing _ = False"

definition guarded :: "smtp_cmd list \<Rightarrow> bool" where
  "guarded cmds \<longleftrightarrow> (\<forall>p c q. cmds = p @ c # q \<longrightarrow> confidential c \<longrightarrow> (\<exists>d \<in> set p. securing d))"

lemma guarded_prefix: "guarded (xs @ ys) \<Longrightarrow> guarded xs"
  unfolding guarded_def by (metis append.assoc append_Cons)

lemma guarded_secured:
  assumes "\<forall>c \<in> set xs. \<not> confidential c" "\<exists>d \<in> set xs. securing d"
  shows "guarded (xs @ ys)"
  unfolding guarded_def
proof (intro allI impI)
  fix p c q assume s: "xs @ ys = p @ c # q" "confidential c"
  have "length xs \<le> length p"
  proof (rule ccontr)
    assume "\<not> length xs \<le> length p"
    then have "(xs @ ys) ! length p \<in> set xs" by (simp add: nth_append)
    then show False using s assms(1) by simp
  qed
  then have "set xs \<subseteq> set p" using arg_cong [OF s(1), of "take (length xs)"]
    by (metis append_eq_conv_conj append_take_drop_id set_take_subset take_append take_all_iff le_refl diff_is_0_eq take0 self_append_conv)
  then show "\<exists>d \<in> set p. securing d" using assms(2) by blast
qed

definition secureConfig :: "smtpConfig \<Rightarrow> bool" where
  "secureConfig cfg \<longleftrightarrow> sc_Encryption cfg = ''tls'' \<or> sc_Encryption cfg = ''starttls''"

lemma steps_guarded:
  assumes "secureConfig cfg"
  shows "guarded (map fst (smtpSteps srv cfg recipients msg))"
proof (cases "sc_Encryption cfg = ''tls''")
  case True
  have "map fst (smtpSteps srv cfg recipients msg)
      = [Dial True (JoinHostPort (sc_Host cfg) (sc_Port cfg))] @ drop 1 (map fst (smtpSteps srv cfg recipients msg))"
    by (simp add: smtpSteps_def Let_def asks_def True)
  also have "guarded \<dots>" by (rule guarded_secured) simp_all
  finally show ?thesis .
next
  case False
  then have s: "sc_Encryption cfg = ''starttls''" using assms by (simp add: secureConfig_def)
  have "map fst (smtpSteps srv cfg recipients msg)
      = [Dial False (JoinHostPort (sc_Host cfg) (sc_Port cfg)), Greet, Extension ''STARTTLS'', StartTLS (sc_Host cfg)]
        @ drop 4 (map fst (smtpSteps srv cfg recipients msg))"
    by (simp add: smtpSteps_def Let_def asks_def needs_def s)
  also have "guarded \<dots>" by (rule guarded_secured) simp_all
  finally show ?thesis .
qed

lemma session_guarded: "secureConfig cfg \<Longrightarrow> guarded (snd (deliverSMTP srv cfg recipients msg))"
  using steps_guarded guarded_prefix runSteps_prefix unfolding deliverSMTP_def by metis

lemma smtpConfig_secure:
  "smtpConfigFromEnv env = Inr cfg \<Longrightarrow> ToLower (TrimSpace (env ''BONGSU_SMTP_ENCRYPTION'')) \<noteq> ''none'' \<Longrightarrow> secureConfig cfg"
  by (auto simp: smtpConfigFromEnv_def secureConfig_def Let_def split: if_splits)


definition sampleMailEnv :: environment where
  "sampleMailEnv k = (if k = ''BONGSU_SMTP_HOST'' then ''mx'' else if k = ''BONGSU_SMTP_FROM'' then ''b@x'' else [])"

definition sampleSMTP :: smtpConfig where
  "sampleSMTP = \<lparr>sc_Host = ''mx'', sc_Port = 587, sc_Username = [], sc_Password = [], sc_From = ''b@x'',
     sc_Encryption = ''starttls''\<rparr>"

definition sampleMailServer :: smtpServer where
  "sampleMailServer = \<lparr>sm_extension = (\<lambda>_. True), sm_answer = (\<lambda>_. None)\<rparr>"

lemma sampleMailEnv_config: "smtpConfigFromEnv sampleMailEnv = Inr sampleSMTP"
  by (simp add: smtpConfigFromEnv_def sampleMailEnv_def sampleSMTP_def envInt_def TrimSpace_def is_space_def ToLower_def)

lemma sampleMailEnv_encrypted: "ToLower (TrimSpace (sampleMailEnv ''BONGSU_SMTP_ENCRYPTION'')) \<noteq> ''none''"
  by (simp add: sampleMailEnv_def TrimSpace_def ToLower_def)

lemma sample_delivery: "fst (deliverSMTP sampleMailServer sampleSMTP [''a@y''] ''hi'') = None"
  by (simp add: deliverSMTP_def smtpSteps_def sampleMailServer_def sampleSMTP_def asks_def needs_def)


text \<open>
  A server that takes the message and then fails the closing \<^verbatim>\<open>QUIT\<close>: the session reports an error although the
  message is accepted, and the caller will send it again.
\<close>

definition acceptsBut :: "smtp_cmd \<Rightarrow> string \<Rightarrow> smtpServer" where
  "acceptsBut c e = \<lparr>sm_extension = (\<lambda>_. True), sm_answer = (\<lambda>d. if d = c then Some e else None)\<rparr>"

lemma runSteps_append: "list_all (\<lambda>x. snd x = None) xs \<Longrightarrow>
    runSteps (xs @ ys) = (case runSteps ys of (r, cmds) \<Rightarrow> (r, map fst xs @ cmds))"
  by (induction xs) (auto split: prod.split)

lemma quit_failure_after_delivery:
  "fst (deliverSMTP (acceptsBut Quit e) cfg recipients msg) = Some e
   \<and> WriteData msg \<in> set (snd (deliverSMTP (acceptsBut Quit e) cfg recipients msg))
   \<and> CloseData \<in> set (snd (deliverSMTP (acceptsBut Quit e) cfg recipients msg))"
proof -
  define steps where "steps = smtpSteps (acceptsBut Quit e) cfg recipients msg"
  have s: "steps = butlast steps @ [(Quit, Some e)]"
    by (simp add: steps_def smtpSteps_def Let_def asks_def needs_def acceptsBut_def butlast_append)
  have ok: "list_all (\<lambda>x. snd x = None) (butlast steps)"
    by (auto simp: steps_def smtpSteps_def Let_def asks_def needs_def acceptsBut_def butlast_append list_all_iff)
  have m: "(WriteData msg, None) \<in> set (butlast steps)" "(CloseData, None) \<in> set (butlast steps)"
    by (simp_all add: steps_def smtpSteps_def Let_def asks_def needs_def acceptsBut_def butlast_append)
  have "runSteps steps = (Some e, map fst (butlast steps) @ [Quit])"
    by (subst s) (simp add: runSteps_append [OF ok])
  then show ?thesis using m by (force simp: deliverSMTP_def steps_def [symmetric])
qed

text \<open>A subject with a line break adds a header of its own.\<close>

lemma subject_adds_header:
  "buildEmailMessage date sender rcpts (''x'' @ crlf @ header @ crlf @ rest) body =
   ''From: '' @ sender @ crlf @ ''To: '' @ Join rcpts '', '' @ crlf @ ''Subject: x'' @ crlf @ header @ crlf
   @ rest @ crlf @ ''Date: '' @ date @ crlf @ ''MIME-Version: 1.0'' @ crlf
   @ ''Content-Type: text/plain; charset=utf-8'' @ crlf @ crlf @ ReplaceAllByte body newline crlf"
  by (simp add: buildEmailMessage_def)

end
