(* ===== verification/Notifications.thy ===== *)
theory Notifications
  imports Mail Scheduler
begin

text \<open>
  Notification rules: the tables \<^verbatim>\<open>notification_rules\<close> and \<^verbatim>\<open>notification_log\<close>
  (\<^verbatim>\<open>internal/server/db/notification.go\<close>, migrations 047, 048, 054 and 057), the engine that matches an event
  against the rules and delivers it (\<^verbatim>\<open>internal/server/api/notifier_engine.go\<close>), the handlers
  (\<^verbatim>\<open>internal/server/api/notification_handlers.go\<close>) and the events a report raises (\<^verbatim>\<open>report.go\<close>). Times are
  nanoseconds. The environment does not change while the server runs.
\<close>

section \<open>The channel configuration\<close>

text \<open>
  The JSON of a channel, as far as decoding into a \<^verbatim>\<open>map[string]string\<close> can tell it apart. \<^verbatim>\<open>json.Unmarshal\<close> sets
  an empty string for a member that is no string and goes on, then returns the error.
\<close>

datatype json_member = JString string | JNullMember | JOtherMember

datatype raw_config = JNull | JObject "(string \<times> json_member) list" | JOther

definition unmarshalConfig :: "raw_config \<Rightarrow> bool \<times> (string \<Rightarrow> string)" where
  "unmarshalConfig raw =
     (case raw of
        JNull \<Rightarrow> (True, \<lambda>_. [])
      | JOther \<Rightarrow> (False, \<lambda>_. [])
      | JObject ms \<Rightarrow>
          (list_all (\<lambda>(k, m). m \<noteq> JOtherMember) ms,
           \<lambda>k. case map_of (rev ms) k of Some (JString s) \<Rightarrow> s | _ \<Rightarrow> []))"

section \<open>Tables\<close>

record NotificationRule =
  nr_id :: string
  nr_name :: string
  nr_enabled :: bool
  nr_event :: string
  nr_minSeverity :: string
  nr_minRiskLevel :: string
  nr_exploitedOnly :: bool
  nr_hostFilter :: string
  nr_channelType :: string
  nr_config :: raw_config
  nr_lastTriggered :: "int option"
  nr_triggerCount :: int

record NotificationLog =
  nl_id :: string
  nl_rule :: string
  nl_event :: string
  nl_status :: string
  nl_payload :: "string option"
  nl_error :: string
  nl_attempts :: int
  nl_created :: int

datatype notification_error = RuleConstraint | RuleNotFound | LogConstraint

definition supportedTriggerEvents :: "string list" where
  "supportedTriggerEvents = [''scan.completed'', ''scan.failed'', ''vuln.new_critical'', ''vuln.new_high'',
     ''sla.breach'', ''security_db.updated'', ''schedule.daily'']"

text \<open>The checks of the table on one row.\<close>

definition rule_checks :: "NotificationRule \<Rightarrow> bool" where
  "rule_checks r \<longleftrightarrow>
     (nr_event r = [] \<or> nr_event r \<in> set supportedTriggerEvents) \<and>
     nr_minSeverity r \<in> set ['''', ''CRITICAL'', ''HIGH'', ''MEDIUM'', ''LOW''] \<and>
     nr_minRiskLevel r \<in> set ['''', ''critical'', ''high'', ''medium'', ''low''] \<and>
     nr_channelType r \<in> set [''webhook'', ''log'', ''email'']"

definition CreateNotificationRule :: "NotificationRule \<Rightarrow> NotificationRule list \<Rightarrow> notification_error + NotificationRule list" where
  "CreateNotificationRule r rows =
     (if list_ex (\<lambda>x. nr_id x = nr_id r) rows \<or> \<not> rule_checks r then Inl RuleConstraint
      else Inr (rows @ [r\<lparr>nr_lastTriggered := None, nr_triggerCount := 0\<rparr>]))"

definition GetNotificationRule :: "string \<Rightarrow> NotificationRule list \<Rightarrow> NotificationRule option" where
  "GetNotificationRule k rows = find (\<lambda>r. nr_id r = k) rows"

definition ListNotificationRules :: "NotificationRule list \<Rightarrow> NotificationRule list" where
  "ListNotificationRules rows = sort_key nr_name rows"

definition UpdateNotificationRule :: "NotificationRule \<Rightarrow> NotificationRule list \<Rightarrow> notification_error + NotificationRule list" where
  "UpdateNotificationRule r rows =
     (if \<not> list_ex (\<lambda>x. nr_id x = nr_id r) rows then Inl RuleNotFound
      else if \<not> rule_checks r then Inl RuleConstraint
      else Inr (map (\<lambda>x. if nr_id x = nr_id r
                         then r\<lparr>nr_lastTriggered := nr_lastTriggered x, nr_triggerCount := nr_triggerCount x\<rparr> else x) rows))"

definition DeleteNotificationRule :: "string \<Rightarrow> NotificationRule list \<Rightarrow> NotificationLog list
    \<Rightarrow> notification_error + NotificationRule list \<times> NotificationLog list" where
  "DeleteNotificationRule k rows logs =
     (if \<not> list_ex (\<lambda>r. nr_id r = k) rows then Inl RuleNotFound
      else Inr (filter (\<lambda>r. nr_id r \<noteq> k) rows, filter (\<lambda>l. nl_rule l \<noteq> k) logs))"

definition GetEnabledRulesForEvent :: "string \<Rightarrow> NotificationRule list \<Rightarrow> NotificationRule list" where
  "GetEnabledRulesForEvent event rows = sort_key nr_name (filter (\<lambda>r. nr_enabled r \<and> nr_event r = event) rows)"

definition RecordNotificationLog :: "NotificationLog \<Rightarrow> NotificationRule list \<Rightarrow> NotificationLog list
    \<Rightarrow> notification_error + NotificationLog list" where
  "RecordNotificationLog l rows logs =
     (if list_ex (\<lambda>x. nl_id x = nl_id l) logs \<or> \<not> list_ex (\<lambda>r. nr_id r = nl_rule l) rows
         \<or> nl_status l \<notin> set [''sent'', ''failed''] then Inl LogConstraint
      else Inr (logs @ [l]))"

definition ListNotificationLog :: "string \<Rightarrow> int \<Rightarrow> int \<Rightarrow> NotificationLog list \<Rightarrow> NotificationLog list \<times> nat" where
  "ListNotificationLog ruleID limit offset logs =
     (let rows = (if ruleID \<noteq> [] then filter (\<lambda>l. nl_rule l = ruleID) logs else logs);
          limit = (if limit \<le> 0 \<or> limit > 1000 then 50 else limit);
          offset = (if offset < 0 then 0 else offset)
      in (take (nat limit) (drop (nat offset) (sort_key (\<lambda>l. - nl_created l) rows)), length rows))"

text \<open>The counter is a 32-bit column: the statement fails where it is at its end.\<close>

definition touchRow :: "int \<Rightarrow> NotificationRule \<Rightarrow> NotificationRule" where
  "touchRow now r = r\<lparr>nr_lastTriggered := Some now, nr_triggerCount := nr_triggerCount r + 1\<rparr>"

definition TouchNotificationRuleTrigger :: "int \<Rightarrow> string \<Rightarrow> NotificationRule list \<Rightarrow> NotificationRule list" where
  "TouchNotificationRuleTrigger now k rows =
     (if list_ex (\<lambda>r. nr_id r = k \<and> nr_triggerCount r \<ge> 2 ^ 31 - 1) rows then rows
      else map (\<lambda>r. if nr_id r = k then touchRow now r else r) rows)"

definition CleanupOldNotificationLogs :: "environment \<Rightarrow> int \<Rightarrow> NotificationLog list \<Rightarrow> NotificationLog list" where
  "CleanupOldNotificationLogs env now logs =
     (let days = envInt env ''BONGSU_NOTIFICATION_LOG_RETENTION_DAYS'' 30;
          days = (if days < 1 then 30 else days)
      in filter (\<lambda>l. \<not> nl_created l < now - days * 86400000000000) logs)"

section \<open>Matching\<close>

text \<open>A condition on counts: it holds where the event carries no such counts.\<close>

definition countsCondition :: "(string \<Rightarrow> int) \<Rightarrow> string \<Rightarrow> string \<Rightarrow> anymap \<Rightarrow> bool" where
  "countsCondition rank floor key data =
     (if floor = [] then True
      else (case getCounts data key of None \<Rightarrow> True | Some counts \<Rightarrow> countsReach rank floor counts))"

definition matchesConditions :: "NotificationRule \<Rightarrow> anymap \<Rightarrow> bool" where
  "matchesConditions rule data =
     (if \<not> countsCondition severityRank (nr_minSeverity rule) ''severity_counts'' data then False
      else if \<not> countsCondition riskRank (nr_minRiskLevel rule) ''risk_level_counts'' data then False
      else if nr_exploitedOnly rule \<and> getInt data ''exploited_count'' = Some 0 then False
      else if nr_hostFilter rule \<noteq> [] then
        (let hostID = (case getString data ''host_id'' of None \<Rightarrow> [] | Some h \<Rightarrow> h)
         in hostID \<noteq> [] \<and> list_ex (\<lambda>f. TrimSpace f = hostID) (SplitByte (nr_hostFilter rule) (CHR '','')))
      else True)"

section \<open>Delivery\<close>

definition notificationRetryAttemptsFromEnv :: "environment \<Rightarrow> int" where
  "notificationRetryAttemptsFromEnv env =
     (let attempts = envInt env ''BONGSU_NOTIFICATION_RETRY_ATTEMPTS'' 3
      in if attempts < 1 then 1 else if attempts > 10 then 10 else attempts)"

definition notificationRetryDelayFromEnv :: "environment \<Rightarrow> int" where
  "notificationRetryDelayFromEnv env =
     (let ms = envInt env ''BONGSU_NOTIFICATION_RETRY_DELAY_MS'' 1000
      in if ms \<le> 0 then 1000000000 else if ms > 60000 then 60000000000 else ms * 1000000)"

text \<open>
  The world of a delivery: the environment, HMAC-SHA-256, the JSON of a payload (\<open>Inl\<close> its error), the texts of the
  clock, and for each rule what the network answers at each attempt.
\<close>

record channels =
  ch_env :: environment
  ch_hmac :: "string \<Rightarrow> string \<Rightarrow> string"
  ch_marshal :: "notifyPayload \<Rightarrow> string + string"
  ch_timestamp :: string
  ch_mailDate :: string
  ch_http :: "string \<Rightarrow> outgoing \<Rightarrow> int \<Rightarrow> attempt_result"
  ch_smtp :: "string \<Rightarrow> int \<Rightarrow> smtpServer"

text \<open>Status, error message and attempts.\<close>

type_synonym send_result = "string \<times> string \<times> int"

function postLoop :: "(int \<Rightarrow> attempt_result) \<Rightarrow> int \<Rightarrow> int \<Rightarrow> int \<Rightarrow> int \<Rightarrow> string \<Rightarrow> send_result \<times> int" where
  "postLoop http delay attempts attempt slept lastErr =
     (if attempt > attempts then ((''failed'', lastErr, attempts), slept)
      else
        (case http attempt of
           NotBuilt e \<Rightarrow> ((''failed'', e, attempt), slept)
         | NotSent e \<Rightarrow>
             if attempt < attempts then postLoop http delay attempts (attempt + 1) (slept + delay) e
             else ((''failed'', e, attempt), slept)
         | Answered code \<Rightarrow>
             if 200 \<le> code \<and> code < 300 then ((''sent'', [], attempt), slept)
             else if \<not> retryWebhookStatus code \<or> attempt = attempts then
               ((''failed'', ''HTTP '' @ show_int code, attempt), slept)
             else postLoop http delay attempts (attempt + 1) (slept + delay) (''HTTP '' @ show_int code)))"
  by pat_completeness auto
termination by (relation "measure (\<lambda>(http, delay, attempts, attempt, _). nat (attempts + 1 - attempt))") auto

declare postLoop.simps [simp del]

definition ruleRequest :: "(string \<Rightarrow> string \<Rightarrow> string) \<Rightarrow> NotificationRule \<Rightarrow> string \<Rightarrow> string \<Rightarrow> outgoing" where
  "ruleRequest hmac rule event body =
     (let cfg = snd (unmarshalConfig (nr_config rule)) in
      \<lparr>og_url = TrimSpace (cfg ''url''),
       og_headers = [(''Content-Type'', ''application/json''), (''User-Agent'', ''bongsu-notification/0.1.0''),
                     (''X-Bongsu-Event'', event), (''X-Bongsu-Rule-ID'', nr_id rule)]
                    @ signatureHeader hmac (cfg ''secret'') body,
       og_body = body\<rparr>)"

definition sendWebhook :: "channels \<Rightarrow> NotificationRule \<Rightarrow> string \<Rightarrow> notifyPayload \<Rightarrow> send_result" where
  "sendWebhook ch rule event payload =
     (case ch_marshal ch payload of
        Inl e \<Rightarrow> (''failed'', e, 1)
      | Inr body \<Rightarrow>
          fst (postLoop (ch_http ch (nr_id rule) (ruleRequest (ch_hmac ch) rule event body))
                 (notificationRetryDelayFromEnv (ch_env ch)) (notificationRetryAttemptsFromEnv (ch_env ch)) 1 0 []))"

function mailLoop :: "(int \<Rightarrow> string option) \<Rightarrow> int \<Rightarrow> int \<Rightarrow> int \<Rightarrow> int \<Rightarrow> string \<Rightarrow> send_result \<times> int" where
  "mailLoop deliver delay attempts attempt slept lastErr =
     (if attempt > attempts then ((''failed'', lastErr, attempts), slept)
      else
        (case deliver attempt of
           None \<Rightarrow> ((''sent'', [], attempt), slept)
         | Some e \<Rightarrow>
             mailLoop deliver delay attempts (attempt + 1) (if attempt < attempts then slept + delay else slept) e))"
  by pat_completeness auto
termination by (relation "measure (\<lambda>(http, delay, attempts, attempt, _). nat (attempts + 1 - attempt))") auto

declare mailLoop.simps [simp del]

definition emDash :: string where "emDash = [CHR 0xE2, CHR 0x80, CHR 0x94]"

definition sendEmail :: "channels \<Rightarrow> NotificationRule \<Rightarrow> string \<Rightarrow> notifyPayload \<Rightarrow> send_result" where
  "sendEmail ch rule event payload =
     (case smtpConfigFromEnv (ch_env ch) of
        Inl e \<Rightarrow> (''failed'', e, 1)
      | Inr smtpCfg \<Rightarrow>
          let cfg = snd (unmarshalConfig (nr_config rule)); recipients = emailRecipients cfg in
          if recipients = [] then (''failed'', ''no valid recipients in channel_config.to'', 1)
          else
            (let subjectPrefix = TrimSpace (cfg ''subject_prefix'');
                 subjectPrefix = (if subjectPrefix = [] then ''[Bongsu]'' else subjectPrefix);
                 subject = subjectPrefix @ '' '' @ event @ '' '' @ emDash @ '' '' @ nr_name rule;
                 msg = buildEmailMessage (ch_mailDate ch) (sc_From smtpCfg) recipients subject
                         (formatNotificationEmailBody (nr_name rule) event payload)
             in fst (mailLoop (\<lambda>attempt. fst (deliverSMTP (ch_smtp ch (nr_id rule) attempt) smtpCfg recipients msg))
                   (notificationRetryDelayFromEnv (ch_env ch)) (notificationRetryAttemptsFromEnv (ch_env ch)) 1 0 [])))"

section \<open>The engine\<close>

record notifyState =
  nt_rules :: "NotificationRule list"
  nt_logs :: "NotificationLog list"
  nt_audit :: "(string \<times> string \<times> string \<times> string) list"

text \<open>Statements that fail: reading the rules, writing the log of a rule, counting a rule.\<close>

record notify_faults =
  nf_fetch :: bool
  nf_log :: "string \<Rightarrow> bool"
  nf_touch :: "string \<Rightarrow> bool"

definition dispatchPayload :: "channels \<Rightarrow> NotificationRule \<Rightarrow> string \<Rightarrow> anymap \<Rightarrow> notifyPayload" where
  "dispatchPayload ch rule event data =
     \<lparr>np_event = event, np_timestamp = ch_timestamp ch, np_ruleID = nr_id rule, np_ruleName = nr_name rule, np_data = data\<rparr>"

text \<open>\<open>None\<close>: the webhook has no url and \<^verbatim>\<open>dispatch\<close> returns. An unknown channel leaves status and count at zero.\<close>

definition channelResult :: "channels \<Rightarrow> NotificationRule \<Rightarrow> string \<Rightarrow> anymap \<Rightarrow> send_result option" where
  "channelResult ch rule event data =
     (let payload = dispatchPayload ch rule event data in
      if nr_channelType rule = ''webhook'' then
        (if TrimSpace (snd (unmarshalConfig (nr_config rule)) ''url'') = [] then None
         else Some (sendWebhook ch rule event payload))
      else if nr_channelType rule = ''email'' then Some (sendEmail ch rule event payload)
      else if nr_channelType rule = ''log'' then Some (''sent'', [], 1)
      else Some ([], [], 0))"

definition recordAndTouch :: "notify_faults \<Rightarrow> (NotificationLog list \<Rightarrow> string) \<Rightarrow> int \<Rightarrow> string \<Rightarrow> string \<Rightarrow> string option
    \<Rightarrow> send_result \<Rightarrow> notifyState \<Rightarrow> notifyState" where
  "recordAndTouch flt fresh now ruleID event payloadJSON result st =
     (case result of (outcome, errMsg, attempts) \<Rightarrow>
        let entry = \<lparr>nl_id = fresh (nt_logs st), nl_rule = ruleID, nl_event = event, nl_status = outcome,
                     nl_payload = payloadJSON, nl_error = errMsg, nl_attempts = attempts, nl_created = now\<rparr>;
            logs = (if nf_log flt ruleID then nt_logs st
                    else (case RecordNotificationLog entry (nt_rules st) (nt_logs st) of Inl e \<Rightarrow> nt_logs st | Inr ls \<Rightarrow> ls));
            rules = (if nf_touch flt ruleID then nt_rules st else TouchNotificationRuleTrigger now ruleID (nt_rules st))
        in st\<lparr>nt_logs := logs, nt_rules := rules\<rparr>)"

definition dispatch :: "notify_faults \<Rightarrow> (NotificationLog list \<Rightarrow> string) \<Rightarrow> channels \<Rightarrow> int \<Rightarrow> string \<Rightarrow> anymap
    \<Rightarrow> NotificationRule \<Rightarrow> notifyState \<Rightarrow> notifyState" where
  "dispatch flt fresh ch now event data rule st =
     (let payloadJSON = (case ch_marshal ch (dispatchPayload ch rule event data) of Inl e \<Rightarrow> None | Inr s \<Rightarrow> Some s)
      in (case channelResult ch rule event data of
            None \<Rightarrow> st
          | Some result \<Rightarrow> recordAndTouch flt fresh now (nr_id rule) event payloadJSON result st))"

definition evaluateAndDispatch :: "notify_faults \<Rightarrow> (NotificationLog list \<Rightarrow> string) \<Rightarrow> channels \<Rightarrow> int \<Rightarrow> string \<Rightarrow> anymap
    \<Rightarrow> notifyState \<Rightarrow> notifyState" where
  "evaluateAndDispatch flt fresh ch now event data st =
     (if envBool (ch_env ch) ''BONGSU_NOTIFICATION_DISABLED'' False then st
      else if nf_fetch flt then st
      else fold (\<lambda>rule st. if \<not> matchesConditions rule data then st else dispatch flt fresh ch now event data rule st)
             (GetEnabledRulesForEvent event (nt_rules st)) st)"

definition dispatchTest :: "channels \<Rightarrow> NotificationRule \<Rightarrow> string option" where
  "dispatchTest ch rule =
     (let testData = [(''test'', AnyBool True), (''message'', AnyString ''Test notification from bongsu'')];
          payload = dispatchPayload ch rule ''test'' testData;
          failure = (\<lambda>result def. case result of (outcome, errMsg, attempts) \<Rightarrow>
                       if outcome = ''sent'' then None else Some (if errMsg = [] then def else errMsg))
      in if nr_channelType rule = ''webhook'' then
           (if TrimSpace (snd (unmarshalConfig (nr_config rule)) ''url'') = [] then Some ''no url configured''
            else failure (sendWebhook ch rule ''test'' payload) ''webhook failed'')
         else if nr_channelType rule = ''email'' then failure (sendEmail ch rule ''test'' payload) ''email send failed''
         else if nr_channelType rule = ''log'' then None
         else Some (''unknown channel type: '' @ nr_channelType rule))"

end
