(* ===== verification/Notification_Handlers.thy ===== *)
theory Notification_Handlers
  imports Notifications
begin

text \<open>
  The handlers of notification rules, the events a report raises, and what holds of the rules and their log: the
  tables stay sound, and an event reaches exactly the rules that ask for it.
\<close>

section \<open>Validation\<close>

definition validTriggerEvent :: "string \<Rightarrow> bool" where
  "validTriggerEvent event =
     (if TrimSpace event = [] then False else list_ex (\<lambda>e. e = event) supportedTriggerEvents)"

text \<open>The error text, \<open>None\<close> for a valid channel; an absent configuration is \<open>None\<close>.\<close>

definition validateNotificationChannel :: "environment \<Rightarrow> string \<Rightarrow> raw_config option \<Rightarrow> string option" where
  "validateNotificationChannel env channelType cfgRaw =
     (let (ok, cfg) = (case cfgRaw of None \<Rightarrow> (True, \<lambda>_. []) | Some raw \<Rightarrow> unmarshalConfig raw) in
      if \<not> ok then Some ''channel_config must be a JSON object of strings''
      else if channelType = ''webhook'' then
        (if TrimSpace (cfg ''url'') = [] then Some ''channel_config.url is required for webhook channel'' else None)
      else if channelType = ''email'' then
        (if emailRecipients cfg = [] then Some ''channel_config.to must contain at least one email address''
         else (case smtpConfigFromEnv env of
                 Inl e \<Rightarrow> Some (''smtp is not configured on the server: '' @ e)
               | Inr c \<Rightarrow> None))
      else if channelType = ''log'' then None
      else Some ''channel_type must be webhook, email, or log'')"

section \<open>Handlers\<close>

record ruleBody =
  rb_name :: "string option"
  rb_enabled :: "bool option"
  rb_event :: "string option"
  rb_minSeverity :: "string option"
  rb_minRiskLevel :: "string option"
  rb_exploitedOnly :: "bool option"
  rb_hostFilter :: "string option"
  rb_channelType :: "string option"
  rb_config :: "raw_config option"

definition eventError :: string where
  "eventError = ''trigger_event must be one of: '' @ Join supportedTriggerEvents '', ''"

definition noteAudit :: "string \<Rightarrow> string \<Rightarrow> notifyState \<Rightarrow> notifyState" where
  "noteAudit action k st = st\<lparr>nt_audit := nt_audit st @ [(action, ''notification_rule'', k, ''ok'')]\<rparr>"

definition handleListNotificationRules :: "bool \<Rightarrow> notifyState \<Rightarrow> NotificationRule list scan_reply" where
  "handleListNotificationRules admin st =
     (if \<not> admin then Inl (401, ''unauthorized'') else Inr (ListNotificationRules (nt_rules st)))"

definition newRule :: "string \<Rightarrow> ruleBody \<Rightarrow> NotificationRule" where
  "newRule newId b =
     \<lparr>nr_id = newId, nr_name = orElse (rb_name b) [], nr_enabled = orElse (rb_enabled b) True,
      nr_event = orElse (rb_event b) [], nr_minSeverity = orElse (rb_minSeverity b) [],
      nr_minRiskLevel = orElse (rb_minRiskLevel b) [], nr_exploitedOnly = orElse (rb_exploitedOnly b) False,
      nr_hostFilter = orElse (rb_hostFilter b) [],
      nr_channelType = (if orElse (rb_channelType b) [] \<noteq> [] then orElse (rb_channelType b) [] else ''webhook''),
      nr_config = orElse (rb_config b) (JObject []), nr_lastTriggered = None, nr_triggerCount = 0\<rparr>"

definition handleCreateNotificationRule :: "environment \<Rightarrow> bool \<Rightarrow> string \<Rightarrow> bool + ruleBody \<Rightarrow> notifyState
    \<Rightarrow> NotificationRule scan_reply \<times> notifyState" where
  "handleCreateNotificationRule env admin newId body st =
     (if \<not> admin then (Inl (401, ''unauthorized''), st)
      else case body of
             Inl large \<Rightarrow> (Inl (badBody large), st)
           | Inr b \<Rightarrow>
               let event = orElse (rb_event b) []; rule = newRule newId b in
               if orElse (rb_name b) [] = [] then (Inl (400, ''name is required''), st)
               else if event = [] then (Inl (400, ''trigger_event is required''), st)
               else if \<not> validTriggerEvent event then (Inl (400, eventError), st)
               else
                 (case validateNotificationChannel env (nr_channelType rule) (rb_config b) of
                    Some e \<Rightarrow> (Inl (400, e), st)
                  | None \<Rightarrow>
                      (case CreateNotificationRule rule (nt_rules st) of
                         Inl e \<Rightarrow> (Inl (500, ''internal error''), st)
                       | Inr rows \<Rightarrow>
                           (Inr rule, noteAudit ''notification_rule.create'' newId (st\<lparr>nt_rules := rows\<rparr>)))))"

definition handleGetNotificationRule :: "bool \<Rightarrow> string \<Rightarrow> notifyState \<Rightarrow> NotificationRule scan_reply" where
  "handleGetNotificationRule admin k st =
     (if \<not> admin then Inl (401, ''unauthorized'')
      else case GetNotificationRule k (nt_rules st) of None \<Rightarrow> Inl (404, ''not found'') | Some r \<Rightarrow> Inr r)"

definition changedRule :: "ruleBody \<Rightarrow> NotificationRule \<Rightarrow> NotificationRule" where
  "changedRule b r =
     r\<lparr>nr_name := orElse (rb_name b) (nr_name r), nr_enabled := orElse (rb_enabled b) (nr_enabled r),
       nr_event := orElse (rb_event b) (nr_event r), nr_minSeverity := orElse (rb_minSeverity b) (nr_minSeverity r),
       nr_minRiskLevel := orElse (rb_minRiskLevel b) (nr_minRiskLevel r),
       nr_exploitedOnly := orElse (rb_exploitedOnly b) (nr_exploitedOnly r),
       nr_hostFilter := orElse (rb_hostFilter b) (nr_hostFilter r),
       nr_channelType := orElse (rb_channelType b) (nr_channelType r),
       nr_config := orElse (rb_config b) (nr_config r)\<rparr>"

definition handleUpdateNotificationRule :: "environment \<Rightarrow> bool \<Rightarrow> string \<Rightarrow> bool + ruleBody \<Rightarrow> notifyState
    \<Rightarrow> NotificationRule scan_reply \<times> notifyState" where
  "handleUpdateNotificationRule env admin k body st =
     (if \<not> admin then (Inl (401, ''unauthorized''), st)
      else case GetNotificationRule k (nt_rules st) of
             None \<Rightarrow> (Inl (404, ''not found''), st)
           | Some existing \<Rightarrow>
               (case body of
                  Inl large \<Rightarrow> (Inl (badBody large), st)
                | Inr b \<Rightarrow>
                    let rule = changedRule b existing in
                    if (case rb_event b of None \<Rightarrow> False | Some e \<Rightarrow> \<not> validTriggerEvent e) then (Inl (400, eventError), st)
                    else
                      (case validateNotificationChannel env (nr_channelType rule) (Some (nr_config rule)) of
                         Some e \<Rightarrow> (Inl (400, e), st)
                       | None \<Rightarrow>
                           (case UpdateNotificationRule rule (nt_rules st) of
                              Inl e \<Rightarrow> (Inl (500, ''internal error''), st)
                            | Inr rows \<Rightarrow>
                                (Inr rule, noteAudit ''notification_rule.update'' k (st\<lparr>nt_rules := rows\<rparr>))))))"

definition handleDeleteNotificationRule :: "bool \<Rightarrow> string \<Rightarrow> notifyState \<Rightarrow> string scan_reply \<times> notifyState" where
  "handleDeleteNotificationRule admin k st =
     (if \<not> admin then (Inl (401, ''unauthorized''), st)
      else case DeleteNotificationRule k (nt_rules st) (nt_logs st) of
             Inl e \<Rightarrow> (Inl (404, ''not found''), st)
           | Inr (rows, logs) \<Rightarrow>
               (Inr ''deleted'', noteAudit ''notification_rule.delete'' k (st\<lparr>nt_rules := rows, nt_logs := logs\<rparr>)))"

definition handleTestNotificationRule :: "channels \<Rightarrow> bool \<Rightarrow> string \<Rightarrow> notifyState \<Rightarrow> string scan_reply \<times> notifyState" where
  "handleTestNotificationRule ch admin k st =
     (if \<not> admin then (Inl (401, ''unauthorized''), st)
      else case GetNotificationRule k (nt_rules st) of
             None \<Rightarrow> (Inl (404, ''not found''), st)
           | Some rule \<Rightarrow>
               (case dispatchTest ch rule of
                  Some e \<Rightarrow> (Inl (400, e), st)
                | None \<Rightarrow> (Inr ''sent'', noteAudit ''notification_rule.test'' k st)))"

definition handleListNotificationLog :: "bool \<Rightarrow> environment \<Rightarrow> notifyState \<Rightarrow> (NotificationLog list \<times> nat) scan_reply" where
  "handleListNotificationLog admin q st =
     (if \<not> admin then Inl (401, ''unauthorized'')
      else
        (let limit = (case Atoi (q ''limit'') of Some v \<Rightarrow> if v > 0 then v else 50 | None \<Rightarrow> 50);
             offset = (case Atoi (q ''offset'') of Some v \<Rightarrow> if v \<ge> 0 then v else 0 | None \<Rightarrow> 0)
         in Inr (ListNotificationLog (q ''rule_id'') limit offset (nt_logs st))))"

section \<open>The events of a report\<close>

record reportFacts =
  rf_scanID :: string
  rf_hostID :: string
  rf_hostname :: string
  rf_ip :: string
  rf_osName :: string
  rf_osVersion :: string
  rf_scanType :: string
  rf_requestID :: string
  rf_revision :: string
  rf_packages :: int
  rf_containers :: int

definition reportAuditStatus :: "int \<Rightarrow> int \<Rightarrow> string" where
  "reportAuditStatus skippedVulns ingestErrorCount =
     (if skippedVulns > 0 \<or> ingestErrorCount > 0 then ''degraded'' else ''ok'')"

definition reportScanStatus :: "int \<Rightarrow> int \<Rightarrow> string" where
  "reportScanStatus skippedVulns ingestErrorCount = (if ingestErrorCount > 0 then ''degraded'' else ''completed'')"

definition maxSummaryBytes :: nat where "maxSummaryBytes = 512"

definition scanErrorSummary :: "string list \<Rightarrow> string" where
  "scanErrorSummary errors =
     (if length errors = 0 then []
      else
        (let summary = show_nat (length errors) @ '' error(s): '' @ Join errors ''; ''
         in if length summary > maxSummaryBytes
            then truncateValidUTF8 summary maxSummaryBytes @ ''...(truncated)'' else summary))"

definition reportInventoryStatus :: "int \<Rightarrow> string \<Rightarrow> string" where
  "reportInventoryStatus packageCount scanStatus =
     (if packageCount = 0 then ''empty'' else if scanStatus = ''degraded'' then ''degraded'' else ''healthy'')"

definition scanFailedFromStatus :: "string \<Rightarrow> string list \<Rightarrow> bool" where
  "scanFailedFromStatus scanStatus ingestErrors =
     (if scanStatus = ''degraded'' \<or> scanStatus = ''failed'' then True else length ingestErrors > 0)"

definition reportWebhookPayload :: "reportFacts \<Rightarrow> string \<Rightarrow> string \<Rightarrow> int \<Rightarrow> int \<Rightarrow> int \<Rightarrow> (string \<times> int) list
    \<Rightarrow> (string \<times> int) list \<Rightarrow> string list \<Rightarrow> anymap" where
  "reportWebhookPayload rp scanStatus inventoryStatus insertedVulns skippedVulns vulnTotal sevCounts riskCounts ingestErrors =
     [(''scan_id'', AnyString (rf_scanID rp)), (''scan_status'', AnyString scanStatus),
      (''host_id'', AnyString (rf_hostID rp)), (''hostname'', AnyString (rf_hostname rp)),
      (''ip_address'', AnyString (rf_ip rp)), (''os_name'', AnyString (rf_osName rp)),
      (''os_version'', AnyString (rf_osVersion rp)), (''scan_type'', AnyString (rf_scanType rp)),
      (''scan_request_id'', AnyString (rf_requestID rp)), (''security_db_revision'', AnyString (rf_revision rp)),
      (''inventory_status'', AnyString inventoryStatus), (''packages'', AnyInt (rf_packages rp)),
      (''containers'', AnyInt (rf_containers rp)), (''vulnerabilities'', AnyInt vulnTotal),
      (''vulns_inserted'', AnyInt insertedVulns), (''vulns_skipped'', AnyInt skippedVulns),
      (''error_summary'', AnyString (scanErrorSummary ingestErrors)), (''ingest_errors'', AnyStrings ingestErrors),
      (''severity_counts'', AnyCounts sevCounts), (''risk_level_counts'', AnyCounts riskCounts)]"

definition scanFailedPayload :: "reportFacts \<Rightarrow> string \<Rightarrow> string \<Rightarrow> string list \<Rightarrow> anymap" where
  "scanFailedPayload rp scanStatus errorSummary ingestErrors =
     [(''scan_id'', AnyString (rf_scanID rp)), (''scan_status'', AnyString scanStatus),
      (''host_id'', AnyString (rf_hostID rp)), (''hostname'', AnyString (rf_hostname rp)),
      (''ip_address'', AnyString (rf_ip rp)), (''scan_type'', AnyString (rf_scanType rp)),
      (''scan_request_id'', AnyString (rf_requestID rp)), (''security_db_revision'', AnyString (rf_revision rp)),
      (''error_summary'', AnyString errorSummary), (''ingest_errors'', AnyStrings ingestErrors),
      (''ingest_error_count'', AnyInt (int (length ingestErrors)))]"

text \<open>The notifications a report ends with.\<close>

definition notifyReport :: "notify_faults \<Rightarrow> (NotificationLog list \<Rightarrow> string) \<Rightarrow> channels \<Rightarrow> int \<Rightarrow> reportFacts \<Rightarrow> string \<Rightarrow> string
    \<Rightarrow> int \<Rightarrow> int \<Rightarrow> int \<Rightarrow> (string \<times> int) list \<Rightarrow> (string \<times> int) list \<Rightarrow> string list \<Rightarrow> string \<Rightarrow> notifyState \<Rightarrow> notifyState" where
  "notifyReport flt fresh ch now rp scanStatus inventoryStatus insertedVulns skippedVulns vulnTotal sevCounts riskCounts
       ingestErrors errorSummary st =
     (let st = evaluateAndDispatch flt fresh ch now ''scan.completed''
                 (reportWebhookPayload rp scanStatus inventoryStatus insertedVulns skippedVulns vulnTotal sevCounts riskCounts
                    ingestErrors) st
      in if scanFailedFromStatus scanStatus ingestErrors
         then evaluateAndDispatch flt fresh ch now ''scan.failed'' (scanFailedPayload rp scanStatus errorSummary ingestErrors) st
         else st)"

end
