(* ===== verification/Notification_Safety.thy ===== *)
theory Notification_Safety
  imports Notification_Handlers
begin

text \<open>
  The tables of the notifications stay sound under every operation, an event is delivered for exactly the rules that
  ask for it whatever fails, and the conditions that the events of a report can never meet or miss.
\<close>

section \<open>Results of a delivery\<close>

definition postResult :: "attempt_result \<Rightarrow> int \<Rightarrow> send_result" where
  "postResult r k =
     (case r of NotBuilt e \<Rightarrow> (''failed'', e, k) | NotSent e \<Rightarrow> (''failed'', e, k)
      | Answered code \<Rightarrow> if 200 \<le> code \<and> code < 300 then (''sent'', [], k) else (''failed'', ''HTTP '' @ show_int code, k))"

definition postLast :: "attempt_result \<Rightarrow> string" where
  "postLast r = (case r of NotBuilt e \<Rightarrow> e | NotSent e \<Rightarrow> e | Answered code \<Rightarrow> ''HTTP '' @ show_int code)"

interpretation post: retry_loop postLoop decisiveResult postResult postLast
proof unfold_locales
  fix k n d s :: int and f :: "int \<Rightarrow> attempt_result" and l :: string
  assume "k \<le> n"
  then show "postLoop f d n k s l = (if decisiveResult (f k) \<or> k = n then (postResult (f k) k, s)
      else postLoop f d n (k + 1) (s + d) (postLast (f k)))"
    by (cases "f k") (auto simp: postLoop.simps [of f d n k] decisiveResult_def postResult_def postLast_def retryWebhookStatus_def)
qed

definition mailResult :: "string option \<Rightarrow> int \<Rightarrow> send_result" where
  "mailResult r k = (case r of None \<Rightarrow> (''sent'', [], k) | Some e \<Rightarrow> (''failed'', e, k))"

definition mailLast :: "string option \<Rightarrow> string" where
  "mailLast r = (case r of None \<Rightarrow> [] | Some e \<Rightarrow> e)"

interpretation mail: retry_loop mailLoop "\<lambda>r. r = None" mailResult mailLast
proof unfold_locales
  fix k n d s :: int and f :: "int \<Rightarrow> string option" and l :: string
  assume "k \<le> n"
  then show "mailLoop f d n k s l = (if f k = None \<or> k = n then (mailResult (f k) k, s)
      else mailLoop f d n (k + 1) (s + d) (mailLast (f k)))"
    by (cases "f k") (auto simp: mailLoop.simps [of f d n k] mailLoop.simps [of f d n "n + 1"] mailResult_def mailLast_def)
qed

lemma notificationRetryAttempts_bounds: "1 \<le> notificationRetryAttemptsFromEnv env \<and> notificationRetryAttemptsFromEnv env \<le> 10"
  by (simp add: notificationRetryAttemptsFromEnv_def Let_def)

definition valid_result :: "send_result \<Rightarrow> bool" where
  "valid_result x = (case x of (outcome, errMsg, attempts) \<Rightarrow>
     outcome \<in> set [''sent'', ''failed''] \<and> 1 \<le> attempts \<and> attempts \<le> 10)"

lemma results_valid: "1 \<le> k \<Longrightarrow> k \<le> 10 \<Longrightarrow> valid_result (postResult r k)" "1 \<le> k \<Longrightarrow> k \<le> 10 \<Longrightarrow> valid_result (mailResult r' k)"
  by (auto simp: valid_result_def postResult_def mailResult_def split: attempt_result.split option.split)

lemma sendWebhook_valid: "valid_result (sendWebhook ch rule event payload)"
proof (cases "ch_marshal ch payload")
  case (Inl e)
  then show ?thesis by (simp add: sendWebhook_def valid_result_def)
next
  case (Inr body)
  define n where "n = notificationRetryAttemptsFromEnv (ch_env ch)"
  have "1 \<le> n" "n \<le> 10" using notificationRetryAttempts_bounds by (simp_all add: n_def)
  then show ?thesis using Inr post.exact [of 1 n, where s = 0 and l = "[]"] results_valid(1)
    by (simp add: sendWebhook_def n_def [symmetric]) (metis (no_types, lifting) fst_conv order.trans)
qed

lemma sendEmail_valid: "valid_result (sendEmail ch rule event payload)"
proof (cases "smtpConfigFromEnv (ch_env ch)")
  case (Inl e)
  then show ?thesis by (simp add: sendEmail_def valid_result_def)
next
  case (Inr c)
  define n where "n = notificationRetryAttemptsFromEnv (ch_env ch)"
  have n: "1 \<le> n" "n \<le> 10" using notificationRetryAttempts_bounds by (simp_all add: n_def)
  have "valid_result (fst (mailLoop f d n 1 0 []))" for f d
    using mail.exact [OF n(1), where f = f and d = d and s = 0 and l = "[]"] n results_valid(2) by (metis fst_conv order.trans)
  then show ?thesis using Inr by (simp add: sendEmail_def n_def [symmetric] valid_result_def Let_def)
qed

section \<open>Sound tables\<close>

text \<open>A rule that every operation may rely on: a supported event and a channel that passes validation.\<close>

definition rule_ok :: "environment \<Rightarrow> NotificationRule \<Rightarrow> bool" where
  "rule_ok env r \<longleftrightarrow>
     rule_checks r \<and> nr_event r \<in> set supportedTriggerEvents \<and>
     validateNotificationChannel env (nr_channelType r) (Some (nr_config r)) = None"

definition log_ok :: "NotificationRule list \<Rightarrow> NotificationLog \<Rightarrow> bool" where
  "log_ok rows l \<longleftrightarrow> nl_rule l \<in> nr_id ` set rows \<and> valid_result (nl_status l, nl_error l, nl_attempts l)"

definition notify_ok :: "environment \<Rightarrow> notifyState \<Rightarrow> bool" where
  "notify_ok env st \<longleftrightarrow>
     distinct (map nr_id (nt_rules st)) \<and> distinct (map nl_id (nt_logs st)) \<and>
     (\<forall>r \<in> set (nt_rules st). rule_ok env r) \<and> (\<forall>l \<in> set (nt_logs st). log_ok (nt_rules st) l)"

text \<open>A rule that is ok has a channel, and its result is one the log accepts.\<close>

lemma valid_webhook:
  "validateNotificationChannel env ''webhook'' (Some c) = None \<Longrightarrow> TrimSpace (snd (unmarshalConfig c) ''url'') \<noteq> []"
  by (cases "unmarshalConfig c") (simp add: validateNotificationChannel_def split: if_splits)

lemma channelResult_ok:
  assumes "rule_ok env r"
  shows "\<exists>x. channelResult ch r event data = Some x \<and> valid_result x"
proof -
  consider "nr_channelType r = ''webhook''" | "nr_channelType r = ''email''" | "nr_channelType r = ''log''"
    using assms by (auto simp: rule_ok_def rule_checks_def)
  then show ?thesis
  proof cases
    case 1
    then have "TrimSpace (snd (unmarshalConfig (nr_config r)) ''url'') \<noteq> []"
      using assms valid_webhook [of env "nr_config r"] by (simp add: rule_ok_def)
    then show ?thesis using 1 sendWebhook_valid by (simp add: channelResult_def)
  next
    case 2
    then show ?thesis using sendEmail_valid by (simp add: channelResult_def)
  next
    case 3
    then show ?thesis by (simp add: channelResult_def valid_result_def)
  qed
qed

lemma touch_keeps: "rule_ok env (touchRow now r) = rule_ok env r" "nr_id (touchRow now r) = nr_id r"
  by (simp_all add: rule_ok_def rule_checks_def touchRow_def)

text \<open>Counting a rule, row by row.\<close>

definition touchOne :: "int \<Rightarrow> NotificationRule \<Rightarrow> NotificationRule" where
  "touchOne now r = (if nr_triggerCount r \<ge> 2 ^ 31 - 1 then r else touchRow now r)"

lemma touchOne_keeps: "rule_ok env (touchOne now r) = rule_ok env r" "nr_id (touchOne now r) = nr_id r"
  by (simp_all add: touchOne_def touch_keeps)

definition touchIf :: "int \<Rightarrow> (string \<Rightarrow> bool) \<Rightarrow> NotificationRule \<Rightarrow> NotificationRule" where
  "touchIf now P r = (if P (nr_id r) then touchOne now r else r)"

lemma touchIf_keeps: "rule_ok env (touchIf now P r) = rule_ok env r" "nr_id (touchIf now P r) = nr_id r"
  by (simp_all add: touchIf_def touchOne_keeps)

lemma touchIf_none: "map (touchIf now (\<lambda>i. False)) rows = rows"
  by (simp add: touchIf_def map_idI)

lemma touchIf_ids: "map nr_id (map (touchIf now P) rows) = map nr_id rows"
  by (simp add: touchIf_keeps)

lemma Touch_rows:
  assumes "distinct (map nr_id rows)"
  shows "TouchNotificationRuleTrigger now k rows = map (touchIf now (\<lambda>i. i = k)) rows"
proof (cases "list_ex (\<lambda>r. nr_id r = k \<and> nr_triggerCount r \<ge> 2 ^ 31 - 1) rows")
  case True
  then obtain x where x: "x \<in> set rows" "nr_id x = k" "nr_triggerCount x \<ge> 2 ^ 31 - 1" by (auto simp: list_ex_iff)
  have "touchIf now (\<lambda>i. i = k) r = r" if "r \<in> set rows" for r
  proof (cases "nr_id r = k")
    case True
    then have "r = x" using x that assms by (metis distinct_map inj_onD)
    then show ?thesis using x by (simp add: touchIf_def touchOne_def)
  qed (simp add: touchIf_def)
  then show ?thesis using True by (simp add: TouchNotificationRuleTrigger_def map_idI)
next
  case False
  then show ?thesis
    by (auto simp: TouchNotificationRuleTrigger_def touchIf_def touchOne_def list_ex_iff)
qed

lemma touchIf_comp: "map (touchIf now P) (map (touchIf now Q) rows) = map (touchIf now (\<lambda>i. P i \<or> Q i)) rows"
  if "\<And>i. \<not> (P i \<and> Q i)"
  using that by (auto simp: touchIf_def touchOne_keeps)

section \<open>One dispatch\<close>

text \<open>The parts of an entry that do not depend on the clock and the generator.\<close>

definition logged :: "NotificationLog \<Rightarrow> string \<times> string \<times> send_result" where
  "logged l = (nl_rule l, nl_event l, nl_status l, nl_error l, nl_attempts l)"

definition fresh_ids :: "(NotificationLog list \<Rightarrow> string) \<Rightarrow> bool" where
  "fresh_ids fresh \<longleftrightarrow> (\<forall>logs. fresh logs \<notin> nl_id ` set logs)"

lemma recordAndTouch_effect:
  assumes "fresh_ids fresh" "distinct (map nr_id (nt_rules st))" "k \<in> nr_id ` set (nt_rules st)" "valid_result x"
  shows "map logged (nt_logs (recordAndTouch flt fresh now k event payload x st))
      = map logged (nt_logs st) @ (if nf_log flt k then [] else [(k, event, x)])"
    and "nt_rules (recordAndTouch flt fresh now k event payload x st)
      = map (touchIf now (\<lambda>i. i = k \<and> \<not> nf_touch flt k)) (nt_rules st)"
proof -
  obtain outcome errMsg attempts where x: "x = (outcome, errMsg, attempts)" by (cases x)
  have "outcome \<in> set [''sent'', ''failed'']" using assms(4) by (simp add: x valid_result_def)
  then have r: "RecordNotificationLog \<lparr>nl_id = fresh (nt_logs st), nl_rule = k, nl_event = event, nl_status = outcome,
      nl_payload = payload, nl_error = errMsg, nl_attempts = attempts, nl_created = now\<rparr> (nt_rules st) (nt_logs st)
    = Inr (nt_logs st @ [\<lparr>nl_id = fresh (nt_logs st), nl_rule = k, nl_event = event, nl_status = outcome,
      nl_payload = payload, nl_error = errMsg, nl_attempts = attempts, nl_created = now\<rparr>])"
    using assms(1,3) unfolding RecordNotificationLog_def fresh_ids_def by (force simp: list_ex_iff)
  show "map logged (nt_logs (recordAndTouch flt fresh now k event payload x st))
      = map logged (nt_logs st) @ (if nf_log flt k then [] else [(k, event, x)])"
    by (simp add: recordAndTouch_def x r Let_def logged_def)
  show "nt_rules (recordAndTouch flt fresh now k event payload x st)
      = map (touchIf now (\<lambda>i. i = k \<and> \<not> nf_touch flt k)) (nt_rules st)"
    by (simp add: recordAndTouch_def x Let_def Touch_rows [OF assms(2)] touchIf_none)
qed

lemma dispatch_effect:
  assumes "fresh_ids fresh" "distinct (map nr_id (nt_rules st))" "nr_id r \<in> nr_id ` set (nt_rules st)"
    "channelResult ch r event data = Some x" "valid_result x"
  shows "map logged (nt_logs (dispatch flt fresh ch now event data r st))
      = map logged (nt_logs st) @ (if nf_log flt (nr_id r) then [] else [(nr_id r, event, x)])"
    and "nt_rules (dispatch flt fresh ch now event data r st)
      = map (touchIf now (\<lambda>i. i = nr_id r \<and> \<not> nf_touch flt (nr_id r))) (nt_rules st)"
  using recordAndTouch_effect [OF assms(1-3,5)] by (simp_all add: dispatch_def assms(4))

section \<open>One event\<close>

text \<open>The rules that ask for an event.\<close>

definition wanted :: "string \<Rightarrow> anymap \<Rightarrow> NotificationRule \<Rightarrow> bool" where
  "wanted event data r \<longleftrightarrow> nr_enabled r \<and> nr_event r = event \<and> matchesConditions r data"

abbreviation resultOf :: "channels \<Rightarrow> string \<Rightarrow> anymap \<Rightarrow> NotificationRule \<Rightarrow> send_result" where
  "resultOf ch event data r \<equiv> the (channelResult ch r event data)"

definition visit :: "notify_faults \<Rightarrow> (NotificationLog list \<Rightarrow> string) \<Rightarrow> channels \<Rightarrow> int \<Rightarrow> string \<Rightarrow> anymap
    \<Rightarrow> NotificationRule \<Rightarrow> notifyState \<Rightarrow> notifyState" where
  "visit flt fresh ch now event data rule st =
     (if \<not> matchesConditions rule data then st else dispatch flt fresh ch now event data rule st)"

lemma fold_visit:
  assumes "fresh_ids fresh" "distinct (map nr_id (nt_rules st))" "nr_id ` set rs \<subseteq> nr_id ` set (nt_rules st)"
    "distinct (map nr_id rs)" "\<forall>r \<in> set rs. rule_ok env r"
  shows "map logged (nt_logs (fold (visit flt fresh ch now event data) rs st))
      = map logged (nt_logs st) @ map (\<lambda>r. (nr_id r, event, resultOf ch event data r))
          (filter (\<lambda>r. matchesConditions r data \<and> \<not> nf_log flt (nr_id r)) rs)
    \<and> nt_rules (fold (visit flt fresh ch now event data) rs st)
      = map (touchIf now (\<lambda>i. \<not> nf_touch flt i \<and> (\<exists>r \<in> set rs. nr_id r = i \<and> matchesConditions r data))) (nt_rules st)"
  using assms(2-)
proof (induction rs arbitrary: st)
  case Nil
  show ?case by (simp add: touchIf_def)
next
  case (Cons r rs)
  define st' where "st' = visit flt fresh ch now event data r st"
  obtain x where x: "channelResult ch r event data = Some x" "valid_result x"
    using channelResult_ok Cons.prems(4) by (metis list.set_intros(1))
  have k: "nr_id r \<in> nr_id ` set (nt_rules st)" using Cons.prems(2) by simp
  have log: "map logged (nt_logs st') = map logged (nt_logs st)
      @ (if matchesConditions r data \<and> \<not> nf_log flt (nr_id r) then [(nr_id r, event, x)] else [])"
    using dispatch_effect(1) [OF assms(1) Cons.prems(1) k x] by (simp add: st'_def visit_def)
  have rules: "nt_rules st' = map (touchIf now (\<lambda>i. i = nr_id r \<and> matchesConditions r data \<and> \<not> nf_touch flt (nr_id r))) (nt_rules st)"
    using dispatch_effect(2) [OF assms(1) Cons.prems(1) k x]
    by (cases "matchesConditions r data") (simp_all add: st'_def visit_def touchIf_none)
  have ids: "map nr_id (nt_rules st') = map nr_id (nt_rules st)" by (simp only: rules touchIf_ids)
  have d: "distinct (map nr_id (nt_rules st'))" using Cons.prems(1) by (simp only: ids)
  have sub: "nr_id ` set rs \<subseteq> nr_id ` set (nt_rules st')"
    using Cons.prems(2) ids by (metis image_mono list.set_map set_subset_Cons subset_trans)
  have dr: "distinct (map nr_id rs)" "nr_id r \<notin> nr_id ` set rs" and ok: "\<forall>r \<in> set rs. rule_ok env r" using Cons.prems by simp_all
  note IH = Cons.IH [OF d sub dr(1) ok]
  have c: "map (touchIf now P) (nt_rules st') = map (touchIf now (\<lambda>i. P i \<or> (i = nr_id r \<and> matchesConditions r data \<and> \<not> nf_touch flt (nr_id r)))) (nt_rules st)"
    if "\<not> P (nr_id r)" for P
    unfolding rules by (rule touchIf_comp) (use that in auto)
  have nr: "\<not> (\<not> nf_touch flt (nr_id r) \<and> (\<exists>q \<in> set rs. nr_id q = nr_id r \<and> matchesConditions q data))" using dr(2) by (metis imageI)
  have P: "(\<lambda>i. (\<not> nf_touch flt i \<and> (\<exists>q \<in> set rs. nr_id q = i \<and> matchesConditions q data))
      \<or> (i = nr_id r \<and> matchesConditions r data \<and> \<not> nf_touch flt (nr_id r)))
    = (\<lambda>i. \<not> nf_touch flt i \<and> (\<exists>q \<in> set (r # rs). nr_id q = i \<and> matchesConditions q data))" by (rule ext) auto
  define Q where "Q = (\<lambda>i. \<not> nf_touch flt i \<and> (\<exists>q \<in> set rs. nr_id q = i \<and> matchesConditions q data))"
  have q: "\<not> Q (nr_id r)" using nr by (simp add: Q_def)
  have "nt_rules (fold (visit flt fresh ch now event data) rs st') = map (touchIf now Q) (nt_rules st')"
    using IH unfolding Q_def by blast
  also have "\<dots> = map (touchIf now (\<lambda>i. Q i \<or> (i = nr_id r \<and> matchesConditions r data \<and> \<not> nf_touch flt (nr_id r)))) (nt_rules st)"
    by (rule c) (rule q)
  finally have R: "nt_rules (fold (visit flt fresh ch now event data) rs st') = \<dots>" .
  have L: "map logged (nt_logs (fold (visit flt fresh ch now event data) rs st')) = map logged (nt_logs st)
      @ map (\<lambda>r. (nr_id r, event, resultOf ch event data r))
          (filter (\<lambda>r. matchesConditions r data \<and> \<not> nf_log flt (nr_id r)) (r # rs))"
    using IH log x by simp
  show ?case unfolding fold_simps st'_def [symmetric] P [symmetric] using L R unfolding Q_def by blast
qed

lemma evaluate_visits:
  "evaluateAndDispatch flt fresh ch now event data st =
     (if envBool (ch_env ch) ''BONGSU_NOTIFICATION_DISABLED'' False \<or> nf_fetch flt then st
      else fold (visit flt fresh ch now event data) (GetEnabledRulesForEvent event (nt_rules st)) st)"
  by (simp add: evaluateAndDispatch_def visit_def [abs_def])

lemma wanted_rules:
  "filter (\<lambda>r. matchesConditions r data \<and> P r) (GetEnabledRulesForEvent event rows)
   = filter (\<lambda>r. wanted event data r \<and> P r) (ListNotificationRules rows)"
  by (simp add: GetEnabledRulesForEvent_def ListNotificationRules_def filter_sort wanted_def)

lemma event_effect:
  assumes "notify_ok (ch_env ch) st" "fresh_ids fresh"
    "\<not> envBool (ch_env ch) ''BONGSU_NOTIFICATION_DISABLED'' False" "\<not> nf_fetch flt"
    "st' = evaluateAndDispatch flt fresh ch now event data st"
  shows "map logged (nt_logs st') = map logged (nt_logs st) @ map (\<lambda>r. (nr_id r, event, resultOf ch event data r))
        (filter (\<lambda>r. wanted event data r \<and> \<not> nf_log flt (nr_id r)) (ListNotificationRules (nt_rules st)))
    \<and> (\<forall>r \<in> set (nt_rules st). valid_result (resultOf ch event data r))
    \<and> nt_rules st' = map (\<lambda>r. if wanted event data r \<and> \<not> nf_touch flt (nr_id r) then touchOne now r else r) (nt_rules st)"
proof -
  define rs where "rs = GetEnabledRulesForEvent event (nt_rules st)"
  have d: "distinct (map nr_id (nt_rules st))" and ok: "\<forall>r \<in> set (nt_rules st). rule_ok (ch_env ch) r"
    using assms(1) by (simp_all add: notify_ok_def)
  have set: "set rs = {r \<in> set (nt_rules st). nr_enabled r \<and> nr_event r = event}"
    by (auto simp: rs_def GetEnabledRulesForEvent_def)
  have dr: "distinct (map nr_id rs)"
  proof -
    have "distinct (nt_rules st)" and i: "inj_on nr_id (set (nt_rules st))" using d by (simp_all add: distinct_map)
    then have "distinct rs" by (simp add: rs_def GetEnabledRulesForEvent_def distinct_sort)
    moreover have "inj_on nr_id (set rs)" using i by (rule inj_on_subset) (use set in blast)
    ultimately show ?thesis by (simp add: distinct_map)
  qed
  have st': "st' = fold (visit flt fresh ch now event data) rs st" using assms(3-5) by (simp add: evaluate_visits rs_def)
  have sub: "nr_id ` set rs \<subseteq> nr_id ` set (nt_rules st)" using set by blast
  have okr: "\<forall>r \<in> set rs. rule_ok (ch_env ch) r" using ok set by blast
  note F = fold_visit [OF assms(2) d sub dr okr, of flt ch now event data, folded st']
  have "touchIf now (\<lambda>i. \<not> nf_touch flt i \<and> (\<exists>q \<in> set rs. nr_id q = i \<and> matchesConditions q data)) r
      = (if wanted event data r \<and> \<not> nf_touch flt (nr_id r) then touchOne now r else r)" if r: "r \<in> set (nt_rules st)" for r
  proof -
    have "(\<exists>q \<in> set rs. nr_id q = nr_id r \<and> matchesConditions q data) \<longleftrightarrow> wanted event data r"
      using r d set by (auto simp: wanted_def distinct_map dest: inj_onD)
    then show ?thesis by (auto simp: touchIf_def)
  qed
  then have "nt_rules st' = map (\<lambda>r. if wanted event data r \<and> \<not> nf_touch flt (nr_id r) then touchOne now r else r) (nt_rules st)"
    using F by simp
  moreover have "\<forall>r \<in> set (nt_rules st). valid_result (resultOf ch event data r)"
    using channelResult_ok ok by (metis option.sel)
  ultimately show ?thesis using F wanted_rules [of data "\<lambda>r. \<not> nf_log flt (nr_id r)" event "nt_rules st"] by (simp add: rs_def)
qed


section \<open>Every operation keeps the tables sound\<close>

text \<open>
  A step of the server on the tables. A dispatch may work on a rule as it was read before, when it was sound; by
  now it may be changed or gone.
\<close>

inductive notified :: "environment \<Rightarrow> notifyState \<Rightarrow> notifyState \<Rightarrow> bool" for env :: environment where
  create: "notified env st (snd (handleCreateNotificationRule env admin newId body st))"
| update: "notified env st (snd (handleUpdateNotificationRule env admin k body st))"
| delete: "notified env st (snd (handleDeleteNotificationRule admin k st))"
| test: "ch_env ch = env \<Longrightarrow> notified env st (snd (handleTestNotificationRule ch admin k st))"
| dispatched: "ch_env ch = env \<Longrightarrow> rule_ok env rule \<Longrightarrow> notified env st (dispatch flt fresh ch now event data rule st)"
| cleaned: "notified env st (st\<lparr>nt_logs := CleanupOldNotificationLogs env now (nt_logs st)\<rparr>)"

lemma notify_okI:
  assumes "distinct (map nr_id (nt_rules st))" "distinct (map nl_id (nt_logs st))"
    "\<And>r. r \<in> set (nt_rules st) \<Longrightarrow> rule_ok env r" "\<And>l. l \<in> set (nt_logs st) \<Longrightarrow> log_ok (nt_rules st) l"
  shows "notify_ok env st"
  using assms by (simp add: notify_ok_def)

lemma notify_okD:
  assumes "notify_ok env st"
  shows "distinct (map nr_id (nt_rules st))" "distinct (map nl_id (nt_logs st))"
    "r \<in> set (nt_rules st) \<Longrightarrow> rule_ok env r" "l \<in> set (nt_logs st) \<Longrightarrow> log_ok (nt_rules st) l"
  using assms by (simp_all add: notify_ok_def)

lemma log_ok_mono: "log_ok rows l \<Longrightarrow> nr_id ` set rows \<subseteq> nr_id ` set rows' \<Longrightarrow> log_ok rows' l"
  by (auto simp: log_ok_def)

lemma notify_ok_audit [simp]: "notify_ok env (noteAudit action k st) = notify_ok env st"
  by (simp add: notify_ok_def noteAudit_def)

lemma notify_ok_rules:
  assumes "notify_ok env st" "map nr_id rows = map nr_id (nt_rules st)" "\<And>r. r \<in> set rows \<Longrightarrow> rule_ok env r"
  shows "notify_ok env (st\<lparr>nt_rules := rows\<rparr>)"
proof -
  have "nr_id ` set rows = nr_id ` set (nt_rules st)" using assms(2) by (metis list.set_map)
  then show ?thesis using assms notify_okD [OF assms(1)] by (intro notify_okI) (auto simp: log_ok_def)
qed

lemma notify_ok_logs:
  assumes "notify_ok env st" "distinct (map nl_id logs)" "\<And>l. l \<in> set logs \<Longrightarrow> log_ok (nt_rules st) l"
  shows "notify_ok env (st\<lparr>nt_logs := logs\<rparr>)"
  using assms by (simp add: notify_ok_def)

lemma distinct_map_filter_id: "distinct (map f xs) \<Longrightarrow> distinct (map f (filter P xs))"
  by (simp add: distinct_map_filter)

lemma create_keeps:
  assumes "notify_ok env st"
  shows "notify_ok env (snd (handleCreateNotificationRule env admin newId body st))"
proof -
  have "notify_ok env (st\<lparr>nt_rules := rows\<rparr>)"
    if v: "validTriggerEvent (orElse (rb_event b) [])"
      and c: "validateNotificationChannel env (nr_channelType (newRule newId b)) (rb_config b) = None"
      and i: "CreateNotificationRule (newRule newId b) (nt_rules st) = Inr rows" for b rows
  proof -
    define r where "r = newRule newId b"
    have rows: "rows = nt_rules st @ [r]" "rule_checks r" "nr_id r \<notin> nr_id ` set (nt_rules st)"
      using i by (auto simp: CreateNotificationRule_def r_def newRule_def list_ex_iff split: if_splits)
    have "nr_event r \<in> set supportedTriggerEvents"
      using v by (auto simp: validTriggerEvent_def r_def newRule_def list_ex_iff split: if_splits)
    moreover have "validateNotificationChannel env (nr_channelType r) (Some (nr_config r)) = None"
    proof (cases "rb_config b")
      case None
      then show ?thesis using c unfolding r_def validateNotificationChannel_def
        by (simp add: newRule_def orElse_def unmarshalConfig_def)
    qed (use c in \<open>simp add: r_def newRule_def orElse_def\<close>)
    ultimately have "rule_ok env r" using rows by (simp add: rule_ok_def)
    then show ?thesis using rows notify_okD [OF assms] by (intro notify_okI) (auto simp: log_ok_def)
  qed
  then show ?thesis using assms
    by (auto simp: handleCreateNotificationRule_def Let_def split: sum.split option.split)
qed

lemma find_in: "find P xs = Some x \<Longrightarrow> x \<in> set xs \<and> P x"
  by (auto simp: find_Some_iff)

lemma update_keeps:
  assumes "notify_ok env st"
  shows "notify_ok env (snd (handleUpdateNotificationRule env admin k body st))"
proof -
  have row: "notify_ok env (st\<lparr>nt_rules := rows\<rparr>)"
    if g: "GetNotificationRule k (nt_rules st) = Some e"
      and v: "\<And>x. rb_event b = Some x \<Longrightarrow> validTriggerEvent x"
      and c: "validateNotificationChannel env (nr_channelType (changedRule b e)) (Some (nr_config (changedRule b e))) = None"
      and i: "UpdateNotificationRule (changedRule b e) (nt_rules st) = Inr rows" for e b rows
  proof -
    define r where "r = changedRule b e"
    have e: "e \<in> set (nt_rules st)" using g find_in unfolding GetNotificationRule_def by metis
    have rows: "rows = map (\<lambda>x. if nr_id x = nr_id r
        then r\<lparr>nr_lastTriggered := nr_lastTriggered x, nr_triggerCount := nr_triggerCount x\<rparr> else x) (nt_rules st)" "rule_checks r"
      using i by (auto simp: UpdateNotificationRule_def r_def [symmetric] split: if_splits)
    have "nr_event r \<in> set supportedTriggerEvents"
      using v notify_okD(3) [OF assms e]
      by (cases "rb_event b") (auto simp: r_def changedRule_def orElse_def rule_ok_def validTriggerEvent_def list_ex_iff split: if_splits)
    then have "rule_ok env r" using rows c by (simp add: rule_ok_def r_def)
    then have "rule_ok env (r\<lparr>nr_lastTriggered := t, nr_triggerCount := n\<rparr>)" for t n
      by (simp add: rule_ok_def rule_checks_def)
    then show ?thesis using notify_okD(3) [OF assms] by (intro notify_ok_rules [OF assms]) (auto simp: rows)
  qed
  show ?thesis using assms
    by (auto simp: handleUpdateNotificationRule_def Let_def split: sum.split option.split intro!: row)
qed

lemma delete_keeps:
  assumes "notify_ok env st"
  shows "notify_ok env (snd (handleDeleteNotificationRule admin k st))"
proof -
  have "notify_ok env (st\<lparr>nt_rules := filter (\<lambda>r. nr_id r \<noteq> k) (nt_rules st), nt_logs := filter (\<lambda>l. nl_rule l \<noteq> k) (nt_logs st)\<rparr>)"
    using notify_okD [OF assms] by (intro notify_okI) (force simp: distinct_map_filter log_ok_def)+
  then show ?thesis using assms by (auto simp: handleDeleteNotificationRule_def DeleteNotificationRule_def)
qed

lemma recordAndTouch_keeps:
  assumes "notify_ok env st" "valid_result x"
  shows "notify_ok env (recordAndTouch flt fresh now k event payload x st)"
proof -
  obtain outcome errMsg attempts where x: "x = (outcome, errMsg, attempts)" by (cases x)
  define logs where "logs = nt_logs (recordAndTouch flt fresh now k event payload x st)"
  define rows where "rows = nt_rules (recordAndTouch flt fresh now k event payload x st)"
  have "logs = nt_logs st \<or> (\<exists>l. logs = nt_logs st @ [l] \<and> nl_id l \<notin> nl_id ` set (nt_logs st) \<and> log_ok (nt_rules st) l)"
    using assms(2) unfolding logs_def
    by (auto simp: recordAndTouch_def x Let_def RecordNotificationLog_def log_ok_def list_ex_iff)
  then have 1: "notify_ok env (st\<lparr>nt_logs := logs\<rparr>)"
    using notify_okD [OF assms(1)] by (intro notify_ok_logs [OF assms(1)]) auto
  have "\<exists>P. rows = map (touchIf now P) (nt_rules st)"
    unfolding rows_def recordAndTouch_def x using Touch_rows [OF notify_okD(1) [OF assms(1)]] touchIf_none
    by (auto simp: Let_def) (metis)
  then obtain P where P: "rows = map (touchIf now P) (nt_rules st)" by blast
  have "notify_ok env ((st\<lparr>nt_logs := logs\<rparr>)\<lparr>nt_rules := rows\<rparr>)"
    using notify_okD(3) [OF assms(1)] by (intro notify_ok_rules [OF 1]) (auto simp: P touchIf_keeps)
  moreover have "recordAndTouch flt fresh now k event payload x st = st\<lparr>nt_logs := logs, nt_rules := rows\<rparr>"
    by (simp add: logs_def rows_def recordAndTouch_def x Let_def)
  ultimately show ?thesis by simp
qed

lemma dispatch_keeps:
  assumes "notify_ok env st" "rule_ok env rule"
  shows "notify_ok env (dispatch flt fresh ch now event data rule st)"
proof -
  obtain x where "channelResult ch rule event data = Some x" "valid_result x" using channelResult_ok [OF assms(2)] by blast
  then show ?thesis using recordAndTouch_keeps [OF assms(1)] by (simp add: dispatch_def)
qed

lemma notified_keeps: "notified env st st' \<Longrightarrow> notify_ok env st \<Longrightarrow> notify_ok env st'"
proof (induction rule: notified.induct)
  case (test ch st admin k)
  then show ?case by (auto simp: handleTestNotificationRule_def split: option.split)
next
  case (cleaned st now)
  then show ?case using notify_okD [OF cleaned]
    by (intro notify_ok_logs) (auto simp: CleanupOldNotificationLogs_def Let_def distinct_map_filter)
qed (simp_all add: create_keeps update_keeps delete_keeps dispatch_keeps)

definition noNotifications :: notifyState where
  "noNotifications = \<lparr>nt_rules = [], nt_logs = [], nt_audit = []\<rparr>"

text \<open>
  C33: However requests, deliveries and the cleaning of the log interleave, the tables stay sound: rule ids are
  unique, each rule names a supported event and a channel that passes validation, and each log entry belongs to a
  rule that exists and records sent or failed with one to ten attempts.
\<close>

theorem notifications_stay_sound:
  assumes "(notified env)\<^sup>*\<^sup>* noNotifications st"
  shows "notify_ok env st"
  using assms
proof (induction rule: rtranclp_induct)
  case base
  show ?case by (simp add: notify_ok_def noNotifications_def)
next
  case (step st st')
  then show ?case using notified_keeps by blast
qed

section \<open>Examples\<close>

definition noEnv :: environment where "noEnv = (\<lambda>_. [])"

definition sampleBody :: ruleBody where
  "sampleBody = \<lparr>rb_name = Some ''n'', rb_enabled = None, rb_event = Some ''scan.completed'', rb_minSeverity = None,
     rb_minRiskLevel = None, rb_exploitedOnly = Some True, rb_hostFilter = Some ''h1, h2'', rb_channelType = Some ''log'',
     rb_config = None\<rparr>"

definition sampleRule :: NotificationRule where
  "sampleRule = \<lparr>nr_id = ''r'', nr_name = ''n'', nr_enabled = True, nr_event = ''scan.completed'', nr_minSeverity = [],
     nr_minRiskLevel = [], nr_exploitedOnly = True, nr_hostFilter = ''h1, h2'', nr_channelType = ''log'',
     nr_config = JObject [], nr_lastTriggered = None, nr_triggerCount = 0\<rparr>"

definition sampleState :: notifyState where
  "sampleState = \<lparr>nt_rules = [sampleRule], nt_logs = [],
     nt_audit = [(''notification_rule.create'', ''notification_rule'', ''r'', ''ok'')]\<rparr>"

lemma sample_event: "validTriggerEvent ''scan.completed''"
  by code_simp

lemma sample_created:
  "handleCreateNotificationRule noEnv True ''r'' (Inr sampleBody) noNotifications = (Inr sampleRule, sampleState)"
  by (simp add: handleCreateNotificationRule_def sampleBody_def sample_event validateNotificationChannel_def newRule_def
      orElse_def CreateNotificationRule_def rule_checks_def supportedTriggerEvents_def noNotifications_def noteAudit_def
      sampleState_def sampleRule_def Let_def)

lemma notifications_stay_sound_witness: "notify_ok noEnv sampleState"
proof -
  have "notified noEnv noNotifications sampleState"
    using notified.create [of noEnv noNotifications True "''r''" "Inr sampleBody"] by (simp add: sample_created)
  then have "(notified noEnv)\<^sup>*\<^sup>* noNotifications sampleState" by (rule r_into_rtranclp)
  from notifications_stay_sound [OF this] show ?thesis .
qed

definition freshLog :: "NotificationLog list \<Rightarrow> string" where
  "freshLog logs = replicate (Suc (sum_list (map (\<lambda>l. length (nl_id l)) logs))) (CHR ''x'')"

lemma freshLog_fresh: "fresh_ids freshLog"
proof -
  have "length (nl_id l) \<le> sum_list (map (\<lambda>l. length (nl_id l)) logs)" if "l \<in> set logs" for l logs
    using member_le_sum_list [of "length (nl_id l)" "map (\<lambda>l. length (nl_id l)) logs"] that by simp
  then show ?thesis unfolding fresh_ids_def freshLog_def by (force dest: arg_cong [of _ _ length])
qed

definition sampleChannels :: channels where
  "sampleChannels = \<lparr>ch_env = noEnv, ch_hmac = (\<lambda>k b. []), ch_marshal = (\<lambda>p. Inr []), ch_timestamp = [], ch_mailDate = [],
     ch_http = (\<lambda>k rq n. NotSent []), ch_smtp = (\<lambda>k n. sampleMailServer)\<rparr>"

definition allWell :: notify_faults where
  "allWell = \<lparr>nf_fetch = False, nf_log = (\<lambda>_. False), nf_touch = (\<lambda>_. False)\<rparr>"

definition sampleData :: anymap where
  "sampleData = [(''host_id'', AnyString ''h2'')]"

lemma sample_sound: "notify_ok noEnv sampleState"
  by (simp add: notify_ok_def sampleState_def sampleRule_def rule_ok_def rule_checks_def supportedTriggerEvents_def
      validateNotificationChannel_def unmarshalConfig_def)

lemma sample_wanted: "wanted ''scan.completed'' sampleData sampleRule"
  by code_simp

lemma sample_tables: "nt_rules sampleState = [sampleRule]" "nt_logs sampleState = []"
  by (simp_all add: sampleState_def)

lemma sample_result: "channelResult sampleChannels sampleRule event data = Some (''sent'', [], 1)"
  by (simp add: channelResult_def sampleRule_def Let_def)

lemma sample_on: "ch_env sampleChannels = noEnv" "\<not> envBool noEnv ''BONGSU_NOTIFICATION_DISABLED'' False" "\<not> nf_fetch allWell"
    "\<not> nf_log allWell k" "nr_id sampleRule = ''r''"
  by (simp_all add: sampleChannels_def noEnv_def envBool_def allWell_def sampleRule_def)


section \<open>Conditions that have no effect\<close>

text \<open>No event carries a count of exploited findings: \<^verbatim>\<open>exploited_only\<close> changes nothing.\<close>

lemma exploited_only_never_filters:
  "matchesConditions (r\<lparr>nr_exploitedOnly := b\<rparr>) (reportWebhookPayload rp s i ins sk vt sc rc es)
     = matchesConditions (r\<lparr>nr_exploitedOnly := False\<rparr>) (reportWebhookPayload rp s i ins sk vt sc rc es)"
  "matchesConditions (r\<lparr>nr_exploitedOnly := b\<rparr>) (scanFailedPayload rp s e es)
     = matchesConditions (r\<lparr>nr_exploitedOnly := False\<rparr>) (scanFailedPayload rp s e es)"
  by (simp_all add: matchesConditions_def countsCondition_def getInt_def getCounts_def getString_def
      reportWebhookPayload_def scanFailedPayload_def)

text \<open>The event of a failed scan carries no counts: neither do minimal severity and risk level change anything.\<close>

lemma scan_failed_ignores_floors:
  "matchesConditions (r\<lparr>nr_minSeverity := a, nr_minRiskLevel := b\<rparr>) (scanFailedPayload rp s e es)
   = matchesConditions (r\<lparr>nr_minSeverity := [], nr_minRiskLevel := []\<rparr>) (scanFailedPayload rp s e es)"
  by (simp add: matchesConditions_def countsCondition_def getInt_def getCounts_def getString_def scanFailedPayload_def)

text \<open>
  The events of a report are the only ones given to the rules: a rule that subscribes to another event, which the
  handlers accept, is never triggered.
\<close>

lemma other_events_never_trigger:
  assumes "notify_ok (ch_env ch) st" "fresh_ids fresh" "r \<in> set (nt_rules st)"
    "nr_event r \<notin> {''scan.completed'', ''scan.failed''}"
  shows "r \<in> set (nt_rules (notifyReport flt fresh ch now rp s i ins sk vt sc rc es err st))"
proof -
  have one: "r \<in> set (nt_rules (evaluateAndDispatch flt fresh ch now event data st'))"
    if "notify_ok (ch_env ch) st'" "r \<in> set (nt_rules st')" "nr_event r \<noteq> event" for event data st'
  proof (cases "envBool (ch_env ch) ''BONGSU_NOTIFICATION_DISABLED'' False \<or> nf_fetch flt")
    case False
    then show ?thesis using event_effect [OF that(1) assms(2) _ _ refl, of flt now event data] that(2,3)
      by (force simp: wanted_def)
  qed (use that in \<open>simp add: evaluate_visits\<close>)
  have keep: "notify_ok (ch_env ch) (evaluateAndDispatch flt fresh ch now event data st)" for event data
  proof -
    have "notify_ok (ch_env ch) (fold (visit flt fresh ch now event data) rs st')"
      if "notify_ok (ch_env ch) st'" "\<forall>r \<in> set rs. rule_ok (ch_env ch) r" for rs st'
      using that by (induction rs arbitrary: st') (simp_all add: visit_def dispatch_keeps)
    moreover have "\<forall>r \<in> set (GetEnabledRulesForEvent event (nt_rules st)). rule_ok (ch_env ch) r"
      using assms(1) by (simp add: GetEnabledRulesForEvent_def notify_ok_def)
    ultimately show ?thesis using assms(1) by (simp add: evaluate_visits)
  qed
  show ?thesis using one assms keep by (simp add: notifyReport_def Let_def)
qed

text \<open>A mail server that fails after taking the message gets it at every attempt, and the log says failed.\<close>

lemma quit_failure_resends:
  assumes "smtpConfigFromEnv (ch_env ch) = Inr c" "emailRecipients (snd (unmarshalConfig (nr_config r))) \<noteq> []"
    "\<And>n. ch_smtp ch (nr_id r) n = acceptsBut Quit e"
  shows "sendEmail ch r event payload = (''failed'', e, notificationRetryAttemptsFromEnv (ch_env ch))"
proof -
  define n where "n = notificationRetryAttemptsFromEnv (ch_env ch)"
  have n: "1 \<le> n" using notificationRetryAttempts_bounds by (simp add: n_def)
  have q: "fst (deliverSMTP (acceptsBut Quit e) cfg rcpts msg) = Some e" for cfg rcpts msg
    using quit_failure_after_delivery by blast
  have "fst (mailLoop (\<lambda>_. Some e) d n 1 0 []) = (''failed'', e, n)" for d
    using mail.exact [OF n, where f = "\<lambda>_. Some e" and d = d and s = 0 and l = "[]"] by (auto simp: mailResult_def)
  then show ?thesis using assms by (simp add: sendEmail_def q n_def Let_def)
qed

end
