(* ===== verification/Asset_Groups.thy ===== *)
theory Asset_Groups
  imports Server_Env Scan_Handlers
begin

text \<open>
  Asset groups: named sets of hosts, listed (static) or selected by a rule on host metadata (dynamic). The tables
  \<^verbatim>\<open>asset_groups\<close> and \<^verbatim>\<open>asset_group_members\<close> of migration 045 (\<^verbatim>\<open>internal/server/db/asset_group.go\<close>) and the
  handlers (\<^verbatim>\<open>internal/server/api/asset_group_handlers.go\<close>), with the scan of a group.
\<close>

section \<open>Tables\<close>

record AssetGroup =
  ag_id :: string
  ag_name :: string
  ag_description :: string
  ag_ruleType :: string
  ag_ruleExpr :: string

text \<open>The metadata of a host; \<open>ah_tags\<close> is \<^verbatim>\<open>tags::text\<close>, the text of a \<^verbatim>\<open>JSONB\<close> column.\<close>

record assetHost =
  ah_id :: string
  ah_hostname :: string
  ah_owner :: string
  ah_team :: string
  ah_environment :: string
  ah_criticality :: string
  ah_tags :: string

record groupTables =
  gt_groups :: "AssetGroup list"
  gt_members :: "(string \<times> string) list"
  gt_hosts :: "assetHost list"

datatype group_error = GroupConstraint | GroupNotFound | HostNotInGroup

definition CreateAssetGroup :: "AssetGroup \<Rightarrow> groupTables \<Rightarrow> group_error + groupTables" where
  "CreateAssetGroup g db =
     (if list_ex (\<lambda>x. ag_id x = ag_id g \<or> ag_name x = ag_name g) (gt_groups db)
         \<or> ag_ruleType g \<notin> set [''static'', ''dynamic''] then Inl GroupConstraint
      else Inr (db\<lparr>gt_groups := gt_groups db @ [g]\<rparr>))"

definition HostCount :: "string \<Rightarrow> groupTables \<Rightarrow> nat" where
  "HostCount k db = length (filter (\<lambda>m. fst m = k) (gt_members db))"

text \<open>A group with the number of its members.\<close>

definition GetAssetGroup :: "string \<Rightarrow> groupTables \<Rightarrow> (AssetGroup \<times> nat) option" where
  "GetAssetGroup k db =
     map_option (\<lambda>g. (g, HostCount k db)) (find (\<lambda>g. ag_id g = k) (gt_groups db))"

definition ListAssetGroups :: "groupTables \<Rightarrow> (AssetGroup \<times> nat) list" where
  "ListAssetGroups db = map (\<lambda>g. (g, HostCount (ag_id g) db)) (sort_key ag_name (gt_groups db))"

definition UpdateAssetGroup :: "AssetGroup \<Rightarrow> groupTables \<Rightarrow> group_error + groupTables" where
  "UpdateAssetGroup g db =
     (if \<not> list_ex (\<lambda>x. ag_id x = ag_id g) (gt_groups db) then Inl GroupNotFound
      else if list_ex (\<lambda>x. ag_id x \<noteq> ag_id g \<and> ag_name x = ag_name g) (gt_groups db)
         \<or> ag_ruleType g \<notin> set [''static'', ''dynamic''] then Inl GroupConstraint
      else Inr (db\<lparr>gt_groups := map (\<lambda>x. if ag_id x = ag_id g then g else x) (gt_groups db)\<rparr>))"

definition DeleteAssetGroup :: "string \<Rightarrow> groupTables \<Rightarrow> group_error + groupTables" where
  "DeleteAssetGroup k db =
     (if \<not> list_ex (\<lambda>x. ag_id x = k) (gt_groups db) then Inl GroupNotFound
      else Inr (db\<lparr>gt_groups := filter (\<lambda>x. ag_id x \<noteq> k) (gt_groups db),
                   gt_members := filter (\<lambda>m. fst m \<noteq> k) (gt_members db)\<rparr>))"

text \<open>Both references of a member must exist; a member already there is left alone.\<close>

definition AddHostToAssetGroup :: "string \<Rightarrow> string \<Rightarrow> groupTables \<Rightarrow> group_error + groupTables" where
  "AddHostToAssetGroup groupID hostID db =
     (if (groupID, hostID) \<in> set (gt_members db) then Inr db
      else if \<not> list_ex (\<lambda>g. ag_id g = groupID) (gt_groups db) \<or> \<not> list_ex (\<lambda>h. ah_id h = hostID) (gt_hosts db)
           then Inl GroupConstraint
      else Inr (db\<lparr>gt_members := gt_members db @ [(groupID, hostID)]\<rparr>))"

definition RemoveHostFromAssetGroup :: "string \<Rightarrow> string \<Rightarrow> groupTables \<Rightarrow> group_error + groupTables" where
  "RemoveHostFromAssetGroup groupID hostID db =
     (if (groupID, hostID) \<notin> set (gt_members db) then Inl HostNotInGroup
      else Inr (db\<lparr>gt_members := filter (\<lambda>m. m \<noteq> (groupID, hostID)) (gt_members db)\<rparr>))"

definition GetAssetGroupHostIDs :: "string \<Rightarrow> groupTables \<Rightarrow> string list" where
  "GetAssetGroupHostIDs k db = sort (map snd (filter (\<lambda>m. fst m = k) (gt_members db)))"

section \<open>Rules\<close>

definition quoted :: "string \<Rightarrow> string" where
  "quoted s = CHR 0x22 # s @ [CHR 0x22]"

text \<open>The error text of the first condition that is not well-formed, \<open>None\<close> for a valid rule.\<close>

fun validateConditions :: "string list \<Rightarrow> string option" where
  "validateConditions [] = None"
| "validateConditions (c # conditions) =
     (let cond = TrimSpace c in
      if cond = [] then validateConditions conditions
      else if HasPrefix cond ''tags:'' then
        (if TrimPrefix cond ''tags:'' = [] then Some ''empty tag expression'' else validateConditions conditions)
      else
        (case CutByte cond (CHR ''='') of (k, v, found) \<Rightarrow>
           if \<not> found then Some (''invalid condition: '' @ cond)
           else
             (let key = TrimSpace k in
              if ToLower key \<in> set [''owner'', ''team'', ''environment'', ''criticality''] then validateConditions conditions
              else Some (''unknown field: '' @ key @ '' (allowed: owner, team, environment, criticality, tags:*''))))"

definition validateRuleExpr :: "string \<Rightarrow> string option" where
  "validateRuleExpr expr = (if expr = [] then None else validateConditions (SplitByte expr (CHR '','')))"

fun matchConditions :: "string list \<Rightarrow> assetHost \<Rightarrow> bool" where
  "matchConditions [] h = True"
| "matchConditions (c # conditions) h =
     (let cond = TrimSpace c in
      if cond = [] then matchConditions conditions h
      else if HasPrefix cond ''tags:'' then
        (let tagPart = TrimPrefix cond ''tags:'' in
         case CutByte tagPart (CHR ''='') of (key, val, found) \<Rightarrow>
           if found then
             (if \<not> Contains (ToLower (ah_tags h)) (ToLower (quoted key @ '':'' @ quoted val)) then False
              else matchConditions conditions h)
           else
             (if \<not> Contains (ToLower (ah_tags h)) (ToLower (quoted tagPart)) then False
              else matchConditions conditions h))
      else
        (case CutByte cond (CHR ''='') of (k, v, found) \<Rightarrow>
           if \<not> found then False
           else
             (let key = ToLower (TrimSpace k); val = TrimSpace v in
              if key = ''owner'' then (if \<not> EqualFold (ah_owner h) val then False else matchConditions conditions h)
              else if key = ''team'' then (if \<not> EqualFold (ah_team h) val then False else matchConditions conditions h)
              else if key = ''environment'' then
                (if \<not> EqualFold (ah_environment h) val then False else matchConditions conditions h)
              else if key = ''criticality'' then
                (if \<not> EqualFold (ah_criticality h) val then False else matchConditions conditions h)
              else False)))"

definition matchDynamicRule :: "string \<Rightarrow> assetHost \<Rightarrow> bool" where
  "matchDynamicRule expr h = matchConditions (SplitByte expr (CHR '','')) h"

definition ListHosts :: "groupTables \<Rightarrow> assetHost list" where
  "ListHosts db = sort_key ah_hostname (gt_hosts db)"

definition ExpandDynamicGroup :: "string \<Rightarrow> groupTables \<Rightarrow> group_error + string list" where
  "ExpandDynamicGroup k db =
     (case GetAssetGroup k db of
        None \<Rightarrow> Inl GroupNotFound
      | Some (g, n) \<Rightarrow>
          if ag_ruleType g \<noteq> ''dynamic'' \<or> ag_ruleExpr g = [] then Inr (GetAssetGroupHostIDs k db)
          else Inr (map ah_id (filter (matchDynamicRule (ag_ruleExpr g)) (ListHosts db))))"

section \<open>Handlers\<close>

record groupWorld =
  gw_db :: groupTables
  gw_server :: server

record groupBody =
  gb_name :: string
  gb_description :: string
  gb_ruleType :: string
  gb_ruleExpr :: string

definition handleListAssetGroups :: "bool \<Rightarrow> groupWorld \<Rightarrow> (AssetGroup \<times> nat) list scan_reply" where
  "handleListAssetGroups web w =
     (if \<not> web then Inl (401, ''unauthorized'') else Inr (ListAssetGroups (gw_db w)))"

definition handleCreateAssetGroup :: "bool \<Rightarrow> string \<Rightarrow> bool + groupBody \<Rightarrow> groupWorld \<Rightarrow> AssetGroup scan_reply \<times> groupWorld" where
  "handleCreateAssetGroup admin newId body w =
     (if \<not> admin then (Inl (401, ''unauthorized''), w)
      else case body of
             Inl large \<Rightarrow> (Inl (badBody large), w)
           | Inr b \<Rightarrow>
               let ruleType = (if gb_ruleType b \<noteq> [] then gb_ruleType b else ''static'') in
               if gb_name b = [] then (Inl (400, ''name is required''), w)
               else if ruleType \<noteq> ''static'' \<and> ruleType \<noteq> ''dynamic'' then
                 (Inl (400, ''rule_type must be static or dynamic''), w)
               else
                 (case (if ruleType = ''dynamic'' \<and> gb_ruleExpr b \<noteq> [] then validateRuleExpr (gb_ruleExpr b) else None) of
                    Some e \<Rightarrow> (Inl (400, ''invalid rule_expr: '' @ e), w)
                  | None \<Rightarrow>
                      (let g = \<lparr>ag_id = newId, ag_name = gb_name b, ag_description = gb_description b,
                                    ag_ruleType = ruleType, ag_ruleExpr = gb_ruleExpr b\<rparr>
                       in case CreateAssetGroup g (gw_db w) of
                            Inl e \<Rightarrow> (Inl (500, ''internal error''), w)
                          | Inr db \<Rightarrow>
                              (Inr g, w\<lparr>gw_db := db,
                                 gw_server := audit ''asset_group.create'' ''asset_group'' newId ''ok'' (gw_server w)\<rparr>))))"

definition handleGetAssetGroup :: "bool \<Rightarrow> string \<Rightarrow> groupWorld \<Rightarrow> ((AssetGroup \<times> nat) \<times> string list) scan_reply" where
  "handleGetAssetGroup web k w =
     (if \<not> web then Inl (401, ''unauthorized'')
      else case GetAssetGroup k (gw_db w) of
             None \<Rightarrow> Inl (404, ''not found'')
           | Some g \<Rightarrow> Inr (g, GetAssetGroupHostIDs k (gw_db w)))"

definition handleDeleteAssetGroup :: "bool \<Rightarrow> string \<Rightarrow> groupWorld \<Rightarrow> string scan_reply \<times> groupWorld" where
  "handleDeleteAssetGroup admin k w =
     (if \<not> admin then (Inl (401, ''unauthorized''), w)
      else case DeleteAssetGroup k (gw_db w) of
             Inl e \<Rightarrow> (Inl (404, ''not found''), w)
           | Inr db \<Rightarrow>
               (Inr ''deleted'', w\<lparr>gw_db := db,
                  gw_server := audit ''asset_group.delete'' ''asset_group'' k ''ok'' (gw_server w)\<rparr>))"

definition handleAddHostToAssetGroup :: "bool \<Rightarrow> string \<Rightarrow> bool + string \<Rightarrow> groupWorld \<Rightarrow> string scan_reply \<times> groupWorld" where
  "handleAddHostToAssetGroup admin groupID body w =
     (if \<not> admin then (Inl (401, ''unauthorized''), w)
      else case GetAssetGroup groupID (gw_db w) of
             None \<Rightarrow> (Inl (404, ''group not found''), w)
           | Some (g, n) \<Rightarrow>
               if ag_ruleType g \<noteq> ''static'' then (Inl (400, ''cannot add hosts to dynamic group''), w)
               else
                 (case body of
                    Inl large \<Rightarrow> (Inl (badBody large), w)
                  | Inr hostID \<Rightarrow>
                      if hostID = [] then (Inl (400, ''host_id is required''), w)
                      else
                        (case AddHostToAssetGroup groupID hostID (gw_db w) of
                           Inl e \<Rightarrow> (Inl (500, ''internal error''), w)
                         | Inr db \<Rightarrow>
                             (Inr ''added'', w\<lparr>gw_db := db,
                                gw_server := audit ''asset_group.add_host'' ''asset_group'' groupID ''ok'' (gw_server w)\<rparr>))))"

definition handleRemoveHostFromAssetGroup :: "bool \<Rightarrow> string \<Rightarrow> string \<Rightarrow> groupWorld \<Rightarrow> string scan_reply \<times> groupWorld" where
  "handleRemoveHostFromAssetGroup admin groupID hostID w =
     (if \<not> admin then (Inl (401, ''unauthorized''), w)
      else case RemoveHostFromAssetGroup groupID hostID (gw_db w) of
             Inl e \<Rightarrow> (Inl (404, ''host not in group''), w)
           | Inr db \<Rightarrow>
               (Inr ''removed'', w\<lparr>gw_db := db,
                  gw_server := audit ''asset_group.remove_host'' ''asset_group'' groupID ''ok'' (gw_server w)\<rparr>))"

definition groupRequest :: "string \<Rightarrow> string \<Rightarrow> ScanRequest" where
  "groupRequest groupName hostID =
     \<lparr>sr_id = [], host_id = hostID, requested_by = [], scan_type = ''manual'', packages_only = False,
      req_reason = ''asset group scan: '' @ groupName, security_db_revision = [], status = [], error_message = [],
      claimed_by_host_id = [], claimed_at = None, completed_at = None, sr_created_at = 0\<rparr>"

text \<open>The loop over the hosts; \<open>fresh\<close> makes the id of a new row, the number is \<^verbatim>\<open>queued\<close>.\<close>

fun queueGroup :: "(scan_table \<Rightarrow> string) \<Rightarrow> int \<Rightarrow> string \<Rightarrow> string list \<Rightarrow> scan_table \<Rightarrow> nat \<Rightarrow> scan_table \<times> nat" where
  "queueGroup fresh now groupName [] rows queued = (rows, queued)"
| "queueGroup fresh now groupName (hid # hostIDs) rows queued =
     (case CreateScanRequest (fresh rows) now (groupRequest groupName hid) rows of
        Inl e \<Rightarrow> queueGroup fresh now groupName hostIDs rows queued
      | Inr rows' \<Rightarrow> queueGroup fresh now groupName hostIDs rows' (queued + 1))"

definition handleTriggerAssetGroupScan :: "bool \<Rightarrow> (scan_table \<Rightarrow> string) \<Rightarrow> int \<Rightarrow> string \<Rightarrow> groupWorld
    \<Rightarrow> (nat \<times> nat) scan_reply \<times> groupWorld" where
  "handleTriggerAssetGroupScan admin fresh now groupID w =
     (if \<not> admin then (Inl (401, ''unauthorized''), w)
      else case GetAssetGroup groupID (gw_db w) of
             None \<Rightarrow> (Inl (404, ''group not found''), w)
           | Some (g, n) \<Rightarrow>
               (case (if ag_ruleType g = ''dynamic'' then ExpandDynamicGroup groupID (gw_db w)
                      else Inr (GetAssetGroupHostIDs groupID (gw_db w))) of
                  Inl e \<Rightarrow> (Inl (500, ''internal error''), w)
                | Inr hostIDs \<Rightarrow>
                    (case queueGroup fresh now (ag_name g) hostIDs (sv_requests (gw_server w)) 0 of
                       (rows, queued) \<Rightarrow>
                         (Inr (queued, length hostIDs),
                          w\<lparr>gw_server := audit ''asset_group.scan'' ''asset_group'' groupID ''ok''
                              ((gw_server w)\<lparr>sv_requests := rows\<rparr>)\<rparr>))))"

section \<open>What a rule means\<close>

datatype condition = FieldIs string string | TagPair string string | TagWord string

fun field :: "string \<Rightarrow> assetHost \<Rightarrow> string option" where
  "field key h =
     (if key = ''owner'' then Some (ah_owner h) else if key = ''team'' then Some (ah_team h)
      else if key = ''environment'' then Some (ah_environment h)
      else if key = ''criticality'' then Some (ah_criticality h) else None)"

fun holds :: "condition \<Rightarrow> assetHost \<Rightarrow> bool" where
  "holds (FieldIs key val) h = (case field key h of None \<Rightarrow> False | Some v \<Rightarrow> EqualFold v val)"
| "holds (TagPair key val) h = Contains (ToLower (ah_tags h)) (ToLower (quoted key @ '':'' @ quoted val))"
| "holds (TagWord tag) h = Contains (ToLower (ah_tags h)) (ToLower (quoted tag))"

text \<open>A written condition, \<open>None\<close> where it is not well-formed.\<close>

definition parseCondition :: "string \<Rightarrow> condition option" where
  "parseCondition cond =
     (if HasPrefix cond ''tags:'' then
        (let tagPart = TrimPrefix cond ''tags:'' in
         case CutByte tagPart (CHR ''='') of (key, val, found) \<Rightarrow> Some (if found then TagPair key val else TagWord tagPart))
      else
        (case CutByte cond (CHR ''='') of (k, v, found) \<Rightarrow>
           if found then Some (FieldIs (ToLower (TrimSpace k)) (TrimSpace v)) else None))"

definition conditionsOf :: "string \<Rightarrow> string list" where
  "conditionsOf expr = filter (\<lambda>c. c \<noteq> []) (map TrimSpace (SplitByte expr (CHR '','')))"

lemma matchConditions_all:
  "matchConditions cs h \<longleftrightarrow>
    (\<forall>c \<in> set (filter (\<lambda>c. c \<noteq> []) (map TrimSpace cs)). case parseCondition c of None \<Rightarrow> False | Some p \<Rightarrow> holds p h)"
proof (induction cs)
  case (Cons c cs)
  obtain key val found where k: "CutByte (TrimPrefix (TrimSpace c) ''tags:'') (CHR ''='') = (key, val, found)" by (metis prod_cases3)
  obtain k' v' found' where k': "CutByte (TrimSpace c) (CHR ''='') = (k', v', found')" by (metis prod_cases3)
  show ?case
  proof (cases "TrimSpace c = []")
    case True
    then show ?thesis using Cons by simp
  next
    case False
    then have "matchConditions (c # cs) h \<longleftrightarrow>
        (case parseCondition (TrimSpace c) of None \<Rightarrow> False | Some p \<Rightarrow> holds p h) \<and> matchConditions cs h"
      by (simp add: parseCondition_def k k' Let_def)
    then show ?thesis using Cons False by simp
  qed
qed simp

text \<open>A rule selects a host exactly when each of its conditions is well-formed and holds.\<close>

lemma matchDynamicRule_iff:
  "matchDynamicRule expr h \<longleftrightarrow> (\<forall>c \<in> set (conditionsOf expr). \<exists>p. parseCondition c = Some p \<and> holds p h)"
  by (auto simp: matchDynamicRule_def matchConditions_all conditionsOf_def split: option.splits)

text \<open>Conditions a person would write.\<close>

fun print_condition :: "condition \<Rightarrow> string" where
  "print_condition (FieldIs key val) = key @ ''='' @ val"
| "print_condition (TagPair key val) = ''tags:'' @ key @ ''='' @ val"
| "print_condition (TagWord tag) = ''tags:'' @ tag"

fun condition_ok :: "condition \<Rightarrow> bool" where
  "condition_ok (FieldIs key val) \<longleftrightarrow>
     key \<in> set [''owner'', ''team'', ''environment'', ''criticality''] \<and> CHR '','' \<notin> set val \<and> TrimSpace val = val"
| "condition_ok (TagPair key val) \<longleftrightarrow>
     CHR '','' \<notin> set (key @ val) \<and> CHR ''='' \<notin> set key \<and> (val = [] \<or> \<not> is_space (last val))"
| "condition_ok (TagWord tag) \<longleftrightarrow> tag \<noteq> [] \<and> CHR '','' \<notin> set tag \<and> CHR ''='' \<notin> set tag \<and> \<not> is_space (last tag)"

lemma space_facts: "\<not> is_space (CHR ''='')" "\<not> is_space (CHR ''t'')" "\<not> is_space (CHR ''o'')" "\<not> is_space (CHR ''e'')" "\<not> is_space (CHR ''c'')"
  by (simp_all add: is_space_def)

lemma print_trimmed: "condition_ok c \<Longrightarrow> TrimSpace (print_condition c) = print_condition c"
proof (cases c)
  case (FieldIs key val)
  assume "condition_ok c"
  then show ?thesis unfolding FieldIs using TrimSpace_last [of val]
    by (intro TrimSpace_ends) (auto simp: space_facts)
qed (auto intro!: TrimSpace_ends simp: space_facts split: if_splits)

lemma key_facts:
  assumes "key \<in> set [''owner'', ''team'', ''environment'', ''criticality'']"
  shows "\<not> HasPrefix (key @ ''='' @ val) ''tags:''" "ToLower key = key" "TrimSpace key = key" "CHR ''='' \<notin> set key"
    "CHR '','' \<notin> set key"
proof -
  have t: "TrimSpace key = key" using assms by (intro TrimSpace_no_space) (auto simp: is_space_def)
  show "\<not> HasPrefix (key @ ''='' @ val) ''tags:''" "ToLower key = key" "TrimSpace key = key" "CHR ''='' \<notin> set key" "CHR '','' \<notin> set key"
    using assms t by (auto simp: ToLower_def lower_byte_def less_eq_char_byte)
qed

lemma parse_print: "condition_ok c \<Longrightarrow> parseCondition (print_condition c) = Some c"
proof (cases c)
  case (FieldIs key val)
  assume "condition_ok c"
  then have k: "key \<in> set [''owner'', ''team'', ''environment'', ''criticality'']" and v: "TrimSpace val = val" by (simp_all add: FieldIs)
  show ?thesis using key_facts(1) [OF k, of val] CutByte_first [OF key_facts(4) [OF k], of val] key_facts(2,3) [OF k] v
    by (simp add: FieldIs parseCondition_def)
next
  case (TagPair key val)
  assume "condition_ok c"
  then have "CutByte (key @ ''='' @ val) (CHR ''='') = (key, val, True)" using CutByte_first [of "CHR ''=''" key val] by (simp add: TagPair)
  then show ?thesis by (simp add: TagPair parseCondition_def TrimPrefix_def Let_def)
next
  case (TagWord tag)
  assume "condition_ok c"
  then have "CutByte tag (CHR ''='') = (tag, [], False)" by (simp add: TagWord CutByte_def)
  then show ?thesis by (simp add: TagWord parseCondition_def TrimPrefix_def Let_def)
qed

lemma validate_print:
  assumes "condition_ok c"
  shows "validateConditions (print_condition c # cs) = validateConditions cs"
proof (cases c)
  case (FieldIs key val)
  then have k: "key \<in> set [''owner'', ''team'', ''environment'', ''criticality'']" using assms by simp
  have "CutByte (print_condition c) (CHR ''='') = (key, val, True)" using CutByte_first [OF key_facts(4) [OF k], of val] by (simp add: FieldIs)
  then show ?thesis using key_facts(1) [OF k, of val] key_facts(2,3) [OF k] k
    by (simp add: print_trimmed [OF assms] Let_def) (simp add: FieldIs)
next
  case (TagPair key val)
  then show ?thesis using print_trimmed [OF assms] by (simp add: TrimPrefix_def Let_def)
next
  case (TagWord tag)
  then show ?thesis using print_trimmed [OF assms] assms by (simp add: TrimPrefix_def Let_def)
qed

lemma validate_all: "\<forall>c \<in> set cs. condition_ok c \<Longrightarrow> validateConditions (map print_condition cs) = None"
  by (induction cs) (simp_all add: validate_print del: validateConditions.simps(2))

lemma print_no_comma: "condition_ok c \<Longrightarrow> CHR '','' \<notin> set (print_condition c)"
  using key_facts(5) by (cases c) auto

lemma print_nonempty: "print_condition c \<noteq> []"
  by (cases c) auto

definition print_rule :: "condition list \<Rightarrow> string" where
  "print_rule cs = Join (map print_condition cs) '',''"


definition prodHost :: assetHost where
  "prodHost = \<lparr>ah_id = ''h'', ah_hostname = ''h'', ah_owner = ''Ann'', ah_team = ''core'', ah_environment = ''prod'',
     ah_criticality = [], ah_tags = ''{'' @ quoted ''env'' @ '': '' @ quoted ''prod'' @ ''}''\<rparr>"


text \<open>
  A condition on a key and its value looks for them joined by a colon alone. The text of a \<^verbatim>\<open>JSONB\<close> column has a
  space after each colon, so such a condition selects no host: the lemma states it for every text without the
  three characters, the example for the text PostgreSQL prints of \<^verbatim>\<open>{"env":"prod"}\<close>.
\<close>

lemma tag_value_needs_compact_text:
  assumes "\<not> Contains (ToLower (ah_tags h)) [CHR 0x22, CHR '':'', CHR 0x22]"
  shows "\<not> holds (TagPair key val) h"
proof
  assume "holds (TagPair key val) h"
  then obtain a b where "ToLower (ah_tags h) = a @ ToLower (quoted key @ '':'' @ quoted val) @ b" by (auto simp: Contains_iff)
  moreover have "ToLower (quoted key @ '':'' @ quoted val)
      = (CHR 0x22 # ToLower key) @ [CHR 0x22, CHR '':'', CHR 0x22] @ ToLower val @ [CHR 0x22]"
    by (simp add: ToLower_def quoted_def lower_byte_def less_eq_char_byte)
  ultimately have "ToLower (ah_tags h) = (a @ CHR 0x22 # ToLower key) @ [CHR 0x22, CHR '':'', CHR 0x22] @ (ToLower val @ CHR 0x22 # b)"
    by simp
  then show False using assms Contains_iff by blast
qed

lemma tag_value_of_jsonb: "validateRuleExpr ''tags:env=prod'' = None \<and> \<not> matchDynamicRule ''tags:env=prod'' prodHost"
  by code_simp

section \<open>The scan of a group\<close>

definition grouped :: "string \<Rightarrow> ScanRequest \<Rightarrow> bool" where
  "grouped groupName r \<longleftrightarrow> scan_type r = ''manual'' \<and> status r = ''pending'' \<and> req_reason r = ''asset group scan: '' @ groupName"

lemma queueGroup_all:
  assumes "scan_index rows" "\<forall>rows. fresh rows \<notin> sr_id ` set rows" "\<forall>rows. fresh rows \<noteq> []"
  shows "\<exists>new. queueGroup fresh now g hs rows n = (rows @ new, n + length hs) \<and> map host_id new = hs
    \<and> (\<forall>r \<in> set new. grouped g r) \<and> scan_index (rows @ new)"
  using assms(1)
proof (induction hs arbitrary: rows n)
  case (Cons h hs)
  define row where "row = (groupRequest g h)\<lparr>sr_id := fresh rows, status := ''pending'', sr_created_at := now\<rparr>"
  have ix: "scan_index (rows @ [row])" using Cons.prems assms(2)
    by (auto simp: scan_index_def row_def groupRequest_def sec_pending_def sec_update_def)
  have "CreateScanRequest (fresh rows) now (groupRequest g h) rows = Inr (rows @ [row])"
    using ix unfolding CreateScanRequest_def row_def by (simp add: groupRequest_def Let_def)
  moreover obtain new where "queueGroup fresh now g hs (rows @ [row]) (n + 1) = ((rows @ [row]) @ new, n + 1 + length hs)"
    "map host_id new = hs" "\<forall>r \<in> set new. grouped g r" "scan_index ((rows @ [row]) @ new)" using Cons.IH [OF ix] by blast
  moreover have "host_id row = h" "grouped g row" by (simp_all add: row_def groupRequest_def grouped_def)
  ultimately show ?case by (intro exI [of _ "row # new"]) simp
qed simp

text \<open>
  C36: The scan of a group queues one pending manual request for each of its hosts and leaves every other request
  as it was; the reply counts them.
\<close>

theorem group_scan_queues_all:
  assumes "scan_index (sv_requests (gw_server w))" "\<forall>rows. fresh rows \<notin> sr_id ` set rows" "\<forall>rows. fresh rows \<noteq> []"
    "handleTriggerAssetGroupScan admin fresh now k w = (Inr (queued, hostTotal), w')"
  shows "\<exists>g n hostIDs new. GetAssetGroup k (gw_db w) = Some (g, n) \<and> ExpandDynamicGroup k (gw_db w) = Inr hostIDs
    \<and> sv_requests (gw_server w') = sv_requests (gw_server w) @ new \<and> map host_id new = hostIDs
    \<and> (\<forall>r \<in> set new. grouped (ag_name g) r) \<and> queued = length hostIDs \<and> hostTotal = length hostIDs
    \<and> scan_index (sv_requests (gw_server w')) \<and> gw_db w' = gw_db w"
proof -
  have "admin" using assms(4) by (auto simp: handleTriggerAssetGroupScan_def split: if_splits)
  obtain g n where g: "GetAssetGroup k (gw_db w) = Some (g, n)"
    using assms(4) by (auto simp: handleTriggerAssetGroupScan_def split: if_splits option.splits)
  obtain ids where ids: "ExpandDynamicGroup k (gw_db w) = Inr ids"
    by (cases "ag_ruleType g \<noteq> ''dynamic'' \<or> ag_ruleExpr g = []") (auto simp: ExpandDynamicGroup_def g)
  have e: "(if ag_ruleType g = ''dynamic'' then ExpandDynamicGroup k (gw_db w) else Inr (GetAssetGroupHostIDs k (gw_db w))) = Inr ids"
    using ids by (auto simp: ExpandDynamicGroup_def g split: if_splits)
  obtain new where "queueGroup fresh now (ag_name g) ids (sv_requests (gw_server w)) 0
      = (sv_requests (gw_server w) @ new, length ids)" "map host_id new = ids"
    "\<forall>r \<in> set new. grouped (ag_name g) r" "scan_index (sv_requests (gw_server w) @ new)"
    using queueGroup_all [OF assms(1-3), of now "ag_name g" ids 0] by auto
  then show ?thesis using assms(4) \<open>admin\<close> g ids e
    by (auto simp: handleTriggerAssetGroupScan_def audit_def simp del: if_split intro!: exI [of _ new])
qed

definition freshRow :: "scan_table \<Rightarrow> string" where
  "freshRow rows = replicate (Suc (sum_list (map (\<lambda>r. length (sr_id r)) rows))) (CHR ''n'')"

lemma freshRow_fresh: "freshRow rows \<notin> sr_id ` set rows \<and> freshRow rows \<noteq> []"
proof -
  have "length (sr_id r) \<le> sum_list (map (\<lambda>r. length (sr_id r)) rows)" if "r \<in> set rows" for r
    using member_le_sum_list [of "length (sr_id r)" "map (\<lambda>r. length (sr_id r)) rows"] that by simp
  then show ?thesis unfolding freshRow_def by (force dest: arg_cong [of _ _ length])
qed

definition sampleWorld :: groupWorld where
  "sampleWorld = \<lparr>gw_db = \<lparr>gt_groups = [\<lparr>ag_id = ''g'', ag_name = ''web'', ag_description = [], ag_ruleType = ''dynamic'',
       ag_ruleExpr = ''team=core''\<rparr>], gt_members = [], gt_hosts = [prodHost]\<rparr>,
     gw_server = \<lparr>sv_requests = [], sv_bindings = [], sv_audit = []\<rparr>\<rparr>"

lemma group_scan_queues_all_witness:
  "\<exists>new. sv_requests (gw_server (snd (handleTriggerAssetGroupScan True freshRow 5 ''g'' sampleWorld))) = new
     \<and> map host_id new = [''h'']"
proof -
  have r: "fst (handleTriggerAssetGroupScan True freshRow 5 ''g'' sampleWorld) = Inr (1, 1)"
    and d: "ExpandDynamicGroup ''g'' (gw_db sampleWorld) = Inr [''h'']" by code_simp+
  have "scan_index (sv_requests (gw_server sampleWorld))" "sv_requests (gw_server sampleWorld) = []"
    by (simp_all add: sampleWorld_def scan_index_def)
  then show ?thesis
    using group_scan_queues_all [of sampleWorld freshRow True 5 "''g''" 1 1] freshRow_fresh r d
    by (metis append_Nil prod.collapse sum.inject(2))
qed

section \<open>Sound groups\<close>

definition group_named :: "groupTables \<Rightarrow> string \<Rightarrow> bool" where
  "group_named db k \<longleftrightarrow> (\<exists>g \<in> set (gt_groups db). ag_id g = k \<and> ag_ruleType g = ''static'')"

definition group_ok :: "AssetGroup \<Rightarrow> bool" where
  "group_ok g \<longleftrightarrow> ag_name g \<noteq> [] \<and>
     (ag_ruleType g = ''static'' \<or> ag_ruleType g = ''dynamic'' \<and> validateRuleExpr (ag_ruleExpr g) = None)"

definition groups_ok :: "groupTables \<Rightarrow> bool" where
  "groups_ok db \<longleftrightarrow>
     distinct (map ag_id (gt_groups db)) \<and> distinct (map ag_name (gt_groups db)) \<and> distinct (gt_members db) \<and>
     (\<forall>g \<in> set (gt_groups db). group_ok g) \<and>
     (\<forall>(k, h) \<in> set (gt_members db). group_named db k \<and> h \<in> ah_id ` set (gt_hosts db))"

text \<open>A step on the groups; the last rule is the deletion of a host, which the members reference.\<close>

inductive group_step :: "groupWorld \<Rightarrow> groupWorld \<Rightarrow> bool" where
  create: "group_step w (snd (handleCreateAssetGroup admin newId body w))"
| delete: "group_step w (snd (handleDeleteAssetGroup admin k w))"
| add: "group_step w (snd (handleAddHostToAssetGroup admin k body w))"
| remove: "group_step w (snd (handleRemoveHostFromAssetGroup admin k h w))"
| scan: "group_step w (snd (handleTriggerAssetGroupScan admin fresh now k w))"
| host_joins: "group_step w (w\<lparr>gw_db := (gw_db w)\<lparr>gt_hosts := gt_hosts (gw_db w) @ [h]\<rparr>\<rparr>)"
| host_leaves: "group_step w (w\<lparr>gw_db := (gw_db w)\<lparr>gt_hosts := filter (\<lambda>x. ah_id x \<noteq> h) (gt_hosts (gw_db w)),
      gt_members := filter (\<lambda>m. snd m \<noteq> h) (gt_members (gw_db w))\<rparr>\<rparr>)"

lemma groups_okD:
  assumes "groups_ok db"
  shows "distinct (map ag_id (gt_groups db))" "distinct (map ag_name (gt_groups db))" "distinct (gt_members db)"
    "\<And>g. g \<in> set (gt_groups db) \<Longrightarrow> group_ok g"
    "\<And>k h. (k, h) \<in> set (gt_members db) \<Longrightarrow> group_named db k \<and> h \<in> ah_id ` set (gt_hosts db)"
  using assms by (auto simp: groups_ok_def)

lemma groups_okI:
  assumes "distinct (map ag_id (gt_groups db))" "distinct (map ag_name (gt_groups db))" "distinct (gt_members db)"
    "\<And>g. g \<in> set (gt_groups db) \<Longrightarrow> group_ok g"
    "\<And>k h. (k, h) \<in> set (gt_members db) \<Longrightarrow> group_named db k \<and> h \<in> ah_id ` set (gt_hosts db)"
  shows "groups_ok db"
  using assms by (auto simp: groups_ok_def)

lemma CreateAssetGroup_keeps:
  assumes "groups_ok db" "group_ok g" "CreateAssetGroup g db = Inr db'"
  shows "groups_ok db'"
proof -
  have d: "db' = db\<lparr>gt_groups := gt_groups db @ [g]\<rparr>" and n: "ag_id g \<notin> ag_id ` set (gt_groups db)" "ag_name g \<notin> ag_name ` set (gt_groups db)"
    using assms(3) by (auto simp: CreateAssetGroup_def list_ex_iff split: if_splits)
  have "group_named db' k" if "group_named db k" for k using that by (auto simp: d group_named_def)
  then show ?thesis using groups_okD [OF assms(1)] assms(2) n by (intro groups_okI) (auto simp: d)
qed

lemma DeleteAssetGroup_keeps:
  assumes "groups_ok db" "DeleteAssetGroup k db = Inr db'"
  shows "groups_ok db'"
proof -
  have d: "db' = db\<lparr>gt_groups := filter (\<lambda>x. ag_id x \<noteq> k) (gt_groups db), gt_members := filter (\<lambda>m. fst m \<noteq> k) (gt_members db)\<rparr>"
    using assms(2) by (auto simp: DeleteAssetGroup_def split: if_splits)
  have "group_named db' j" if "group_named db j" "j \<noteq> k" for j using that by (auto simp: d group_named_def)
  then show ?thesis using groups_okD [OF assms(1)] by (intro groups_okI) (auto simp: d distinct_map_filter)
qed

lemma AddHost_keeps:
  assumes "groups_ok db" "GetAssetGroup k db = Some (g, n)" "ag_ruleType g = ''static''" "AddHostToAssetGroup k h db = Inr db'"
  shows "groups_ok db'"
proof (cases "(k, h) \<in> set (gt_members db)")
  case False
  then have d: "db' = db\<lparr>gt_members := gt_members db @ [(k, h)]\<rparr>" and h: "h \<in> ah_id ` set (gt_hosts db)"
    using assms(4) by (auto simp: AddHostToAssetGroup_def list_ex_iff split: if_splits)
  have "group_named db k" using assms(2,3) by (auto simp: GetAssetGroup_def group_named_def find_Some_iff)
  moreover have "group_named db' j = group_named db j" for j by (simp add: d group_named_def)
  ultimately show ?thesis using groups_okD [OF assms(1)] False h by (intro groups_okI) (auto simp: d)
qed (use assms in \<open>auto simp: AddHostToAssetGroup_def\<close>)

lemma RemoveHost_keeps:
  assumes "groups_ok db" "RemoveHostFromAssetGroup k h db = Inr db'"
  shows "groups_ok db'"
proof -
  have d: "db' = db\<lparr>gt_members := filter (\<lambda>m. m \<noteq> (k, h)) (gt_members db)\<rparr>"
    using assms(2) by (auto simp: RemoveHostFromAssetGroup_def split: if_splits)
  have "group_named db' j = group_named db j" for j by (simp add: d group_named_def)
  then show ?thesis using groups_okD [OF assms(1)] by (intro groups_okI) (auto simp: d)
qed

lemma create_group_ok:
  assumes "groups_ok (gw_db w)"
  shows "groups_ok (gw_db (snd (handleCreateAssetGroup admin newId body w)))"
proof (cases body)
  case (Inr b)
  define t where "t = (if gb_ruleType b \<noteq> [] then gb_ruleType b else ''static'')"
  define g where "g = \<lparr>ag_id = newId, ag_name = gb_name b, ag_description = gb_description b, ag_ruleType = t, ag_ruleExpr = gb_ruleExpr b\<rparr>"
  have "group_ok g" if "gb_name b \<noteq> []" "t = ''static'' \<or> t = ''dynamic''"
    "(if t = ''dynamic'' \<and> gb_ruleExpr b \<noteq> [] then validateRuleExpr (gb_ruleExpr b) else None) = None"
    using that by (auto simp: group_ok_def g_def validateRuleExpr_def split: if_splits)
  then show ?thesis using assms CreateAssetGroup_keeps [OF assms, of g] unfolding handleCreateAssetGroup_def Inr sum.case Let_def
      t_def [symmetric] g_def [symmetric]
    by (auto split: option.split sum.split simp del: validateConditions.simps)
qed (simp add: handleCreateAssetGroup_def assms)

lemma group_step_keeps: "group_step w w' \<Longrightarrow> groups_ok (gw_db w) \<Longrightarrow> groups_ok (gw_db w')"
proof (induction rule: group_step.induct)
  case (delete w admin k)
  then show ?case using DeleteAssetGroup_keeps by (auto simp: handleDeleteAssetGroup_def split: sum.split)
next
  case (add w admin k body)
  then show ?case using AddHost_keeps by (auto simp: handleAddHostToAssetGroup_def split: sum.split option.split)
next
  case (remove w admin k h)
  then show ?case using RemoveHost_keeps by (auto simp: handleRemoveHostFromAssetGroup_def split: sum.split)
next
  case (scan w admin fresh now k)
  then show ?case by (auto simp: handleTriggerAssetGroupScan_def split: sum.split option.split prod.split)
next
  case (host_joins w h)
  have "group_named (db\<lparr>gt_hosts := hs\<rparr>) k = group_named db k" for db hs k by (simp add: group_named_def)
  then show ?case using groups_okD [OF host_joins] by (intro groups_okI) auto
next
  case (host_leaves w h)
  have "group_named (db\<lparr>gt_hosts := hs, gt_members := ms\<rparr>) k = group_named db k" for db hs ms k by (simp add: group_named_def)
  then show ?case using groups_okD [OF host_leaves] by (intro groups_okI) (auto simp: image_iff, metis)
qed (simp_all add: create_group_ok)

text \<open>
  However requests interleave, group ids and names stay unique, each dynamic group keeps a valid rule, and each
  member is listed once, names a host that exists and a group that exists and is static.
\<close>

lemma groups_stay_sound:
  assumes "group_step\<^sup>*\<^sup>* w w'" "groups_ok (gw_db w)"
  shows "groups_ok (gw_db w')"
  using assms(1) assms(2) by (induction rule: rtranclp_induct) (blast intro: group_step_keeps)+

end
