(* ===== verification/Files.thy ===== *)
theory Files
  imports Prelude
begin

text \<open>
  The parts of Go's \<^verbatim>\<open>path/filepath\<close>, \<^verbatim>\<open>bufio\<close>, \<^verbatim>\<open>strings\<close> and \<^verbatim>\<open>os\<close> that the scanners of the agent read
  files with. A file system is a parameter: what \<^verbatim>\<open>filepath.EvalSymlinks\<close> answers for a path, and what lies
  at a path without symbolic links.
\<close>

section \<open>Searching strings\<close>

text \<open>\<^verbatim>\<open>strings.Index\<close>, \<^verbatim>\<open>strings.LastIndex\<close> and \<^verbatim>\<open>strings.IndexAny\<close>.\<close>

fun Index :: "string \<Rightarrow> string \<Rightarrow> int" where
  "Index [] p = (if p = [] then 0 else -1)"
| "Index (c # s) p =
     (if HasPrefix (c # s) p then 0 else (let i = Index s p in if i < 0 then -1 else i + 1))"

fun LastIndex :: "string \<Rightarrow> string \<Rightarrow> int" where
  "LastIndex [] p = (if p = [] then 0 else -1)"
| "LastIndex (c # s) p =
     (let i = LastIndex s p in if i \<ge> 0 then i + 1 else if HasPrefix (c # s) p then 0 else -1)"

fun IndexAny :: "string \<Rightarrow> string \<Rightarrow> int" where
  "IndexAny [] cs = -1"
| "IndexAny (c # s) cs = (if c \<in> set cs then 0 else (let i = IndexAny s cs in if i < 0 then -1 else i + 1))"

text \<open>\<^verbatim>\<open>s[:i]\<close> and \<^verbatim>\<open>s[i:]\<close>, where the program has checked the bounds.\<close>

abbreviation upto_ix :: "string \<Rightarrow> int \<Rightarrow> string" where "upto_ix s i \<equiv> take (nat i) s"
abbreviation from_ix :: "string \<Rightarrow> int \<Rightarrow> string" where "from_ix s i \<equiv> drop (nat i) s"

lemma Index_bound: "Index s p \<le> int (length s) \<and> -1 \<le> Index s p"
  by (induction s p rule: Index.induct) (auto simp: Let_def)

lemma LastIndex_bound: "LastIndex s p \<le> int (length s) \<and> -1 \<le> LastIndex s p"
  by (induction s p rule: LastIndex.induct) (auto simp: Let_def)

lemma Index_first: "b \<notin> set s \<Longrightarrow> Index (s @ b # t) [b] = int (length s)"
  by (induction s) (auto simp: Let_def)

lemma LastIndex_none: "b \<notin> set s \<Longrightarrow> LastIndex s [b] = -1"
  by (induction s) (auto simp: Let_def)

lemma LastIndex_last: "b \<notin> set t \<Longrightarrow> LastIndex (s @ b # t) [b] = int (length s)"
  by (induction s) (auto simp: Let_def LastIndex_none)

section \<open>Lines\<close>

definition dropCR :: "string \<Rightarrow> string" where
  "dropCR s = (if s \<noteq> [] \<and> last s = CHR 0x0D then butlast s else s)"

text \<open>
  \<^verbatim>\<open>bufio.Scanner\<close> over lines: a last line without a newline counts unless it is empty; a line of \<open>limit\<close>
  bytes or more before its newline does not fit in the buffer, and ends the scan with \<^verbatim>\<open>ErrTooLong\<close>.
\<close>

fun takeLines :: "int \<Rightarrow> string list \<Rightarrow> string list" where
  "takeLines limit [] = []"
| "takeLines limit (p # ps) = (if limit \<le> int (length p) then [] else dropCR p # takeLines limit ps)"

definition rawLines :: "string \<Rightarrow> string list" where
  "rawLines s = (let ps = SplitByte s (CHR 0x0A) in if last ps = [] then butlast ps else ps)"

definition scanLines :: "int \<Rightarrow> string \<Rightarrow> string list" where
  "scanLines limit s = takeLines limit (rawLines s)"

definition lineTooLong :: "int \<Rightarrow> string \<Rightarrow> bool" where
  "lineTooLong limit s = (\<exists>p \<in> set (rawLines s). limit \<le> int (length p))"

definition MaxScanTokenSize :: int where "MaxScanTokenSize = 65536"

text \<open>A text whose lines are \<open>ls\<close>.\<close>

definition unlines :: "string list \<Rightarrow> string" where
  "unlines ls = concat (map (\<lambda>l. l @ [CHR 0x0A]) ls)"

definition line_ok :: "int \<Rightarrow> string \<Rightarrow> bool" where
  "line_ok limit l \<longleftrightarrow> CHR 0x0A \<notin> set l \<and> (l = [] \<or> last l \<noteq> CHR 0x0D) \<and> int (length l) < limit"

lemma SplitByte_not_Nil [simp]: "SplitByte s b \<noteq> []"
  by (induction s) (auto split: list.splits)

lemma SplitByte_unlines:
  "\<forall>l \<in> set ls. CHR 0x0A \<notin> set l \<Longrightarrow> SplitByte (unlines ls) (CHR 0x0A) = ls @ [[]]"
  by (induction ls) (auto simp: unlines_def SplitByte_append)

lemma takeLines_ok: "\<forall>l \<in> set ls. line_ok limit l \<Longrightarrow> takeLines limit ls = ls"
  by (induction ls) (auto simp: line_ok_def dropCR_def)

lemma rawLines_unlines: "\<forall>l \<in> set ls. line_ok limit l \<Longrightarrow> rawLines (unlines ls) = ls"
proof -
  assume "\<forall>l \<in> set ls. line_ok limit l"
  then have "SplitByte (unlines ls) (CHR 0x0A) = ls @ [[]]"
    by (intro SplitByte_unlines) (auto simp: line_ok_def)
  then show ?thesis by (simp only: rawLines_def Let_def last_snoc butlast_snoc simp_thms if_True)
qed

lemma scanLines_unlines: "\<forall>l \<in> set ls. line_ok limit l \<Longrightarrow> scanLines limit (unlines ls) = ls"
  using rawLines_unlines [of ls limit] takeLines_ok [of ls limit] by (simp add: scanLines_def)

lemma not_lineTooLong_unlines: "\<forall>l \<in> set ls. line_ok limit l \<Longrightarrow> \<not> lineTooLong limit (unlines ls)"
  using rawLines_unlines [of ls limit] by (auto simp: lineTooLong_def line_ok_def)

lemma unlines_append: "unlines (xs @ ys) = unlines xs @ unlines ys"
  by (simp add: unlines_def)

section \<open>Paths\<close>

abbreviation slash :: char where "slash \<equiv> CHR ''/''"

text \<open>\<^verbatim>\<open>filepath.Clean\<close> works on the elements of the path; the stack holds them in reverse.\<close>

definition cleanElem :: "bool \<Rightarrow> string list \<Rightarrow> string \<Rightarrow> string list" where
  "cleanElem rooted st e =
     (if e = [] \<or> e = ''.'' then st
      else if e = ''..'' then
        (if st \<noteq> [] \<and> hd st \<noteq> ''..'' then tl st else if rooted then st else e # st)
      else e # st)"

definition is_rooted :: "string \<Rightarrow> bool" where
  "is_rooted path \<longleftrightarrow> path \<noteq> [] \<and> hd path = slash"

definition cleanElems :: "string \<Rightarrow> string list" where
  "cleanElems path = rev (foldl (cleanElem (is_rooted path)) [] (SplitByte path slash))"

definition Clean :: "string \<Rightarrow> string" where
  "Clean path =
     (let out = (if is_rooted path then [slash] else []) @ Join (cleanElems path) [slash] in
      if out = [] then ''.'' else out)"

definition JoinPath :: "string list \<Rightarrow> string" where
  "JoinPath elems =
     (let elems = filter (\<lambda>e. e \<noteq> []) elems in if elems = [] then [] else Clean (Join elems [slash]))"

text \<open>\<^verbatim>\<open>filepath.Dir\<close> and \<^verbatim>\<open>filepath.Base\<close>.\<close>

definition Dir :: "string \<Rightarrow> string" where
  "Dir path = Clean (upto_ix path (LastIndex path [slash] + 1))"

definition Base :: "string \<Rightarrow> string" where
  "Base path =
     (if path = [] then ''.''
      else (let p = rev (dropWhile (\<lambda>c. c = slash) (rev path)); q = from_ix p (LastIndex p [slash] + 1) in
        if q = [] then [slash] else q))"

definition Count :: "string \<Rightarrow> char \<Rightarrow> int" where
  "Count s b = int (length (filter (\<lambda>c. c = b) s))"

lemma in_set_tl: "x \<in> set (tl st) \<Longrightarrow> x \<in> set st"
  by (cases st) auto

lemma foldl_cleanElem_rooted:
  "''..'' \<notin> set st \<Longrightarrow> ''..'' \<notin> set (foldl (cleanElem True) st es)"
  by (induction es arbitrary: st) (auto simp: cleanElem_def dest: in_set_tl)

definition elem_ok :: "string \<Rightarrow> bool" where
  "elem_ok e \<longleftrightarrow> e \<noteq> [] \<and> e \<noteq> ''.'' \<and> slash \<notin> set e"

lemma cleanElem_elems:
  "list_all elem_ok st \<Longrightarrow> slash \<notin> set e \<Longrightarrow> list_all elem_ok (cleanElem r st e)"
  by (cases st) (simp_all add: cleanElem_def elem_ok_def)

lemma foldl_cleanElem_elems:
  "list_all elem_ok st \<Longrightarrow> list_all (\<lambda>e. slash \<notin> set e) es \<Longrightarrow> list_all elem_ok (foldl (cleanElem r) st es)"
  by (induction es arbitrary: st) (simp_all add: cleanElem_elems)

lemma SplitByte_no_sep: "list_all (\<lambda>p. b \<notin> set p) (SplitByte s b)"
  by (induction s) (auto split: list.splits)

lemma cleanElems_ok: "list_all elem_ok (cleanElems path)"
  using foldl_cleanElem_elems [of "[]" "SplitByte path slash" "is_rooted path"] SplitByte_no_sep
  by (simp add: cleanElems_def list.pred_set)

lemma cleanElems_rooted: "is_rooted path \<Longrightarrow> ''..'' \<notin> set (cleanElems path)"
  using foldl_cleanElem_rooted [of "[]" "SplitByte path slash"] by (simp add: cleanElems_def)

text \<open>A cleaned rooted path splits into its elements, none of which climbs.\<close>

lemma foldl_cleanElem_id:
  "\<forall>e \<in> set es. e \<noteq> [] \<and> e \<noteq> ''.'' \<and> e \<noteq> ''..'' \<Longrightarrow> foldl (cleanElem r) st es = rev es @ st"
  by (induction es arbitrary: st) (auto simp: cleanElem_def)

lemma Clean_rooted: "is_rooted path \<Longrightarrow> Clean path = slash # Join (cleanElems path) [slash]"
  by (simp add: Clean_def Let_def)

lemma cleanElems_Clean:
  assumes "is_rooted path"
  shows "cleanElems (Clean path) = cleanElems path"
proof (cases "cleanElems path = []")
  case True
  then show ?thesis
    by (simp add: Clean_rooted [OF assms]) (simp add: cleanElems_def is_rooted_def cleanElem_def)
next
  case False
  have "SplitByte (Clean path) slash = [] # cleanElems path"
    using False cleanElems_ok [of path]
    by (simp add: Clean_rooted [OF assms] SplitByte_Join list.pred_set elem_ok_def)
  moreover have "\<forall>e \<in> set (cleanElems path). e \<noteq> [] \<and> e \<noteq> ''.'' \<and> e \<noteq> ''..''"
    using cleanElems_ok [of path] cleanElems_rooted [OF assms] unfolding list.pred_set elem_ok_def by metis
  ultimately show ?thesis
    using foldl_cleanElem_id [of "cleanElems path" True "[]"]
    by (simp only: cleanElems_def [of "Clean path"]) (simp add: Clean_rooted [OF assms] is_rooted_def cleanElem_def)
qed

lemma Clean_idem_rooted: "is_rooted path \<Longrightarrow> Clean (Clean path) = Clean path"
  by (metis Clean_rooted cleanElems_Clean is_rooted_def list.distinct(1) list.sel(1))

text \<open>The cleaned rooted path of a list of names.\<close>

definition name_ok :: "string \<Rightarrow> bool" where
  "name_ok e \<longleftrightarrow> e \<noteq> [] \<and> e \<noteq> ''.'' \<and> e \<noteq> ''..'' \<and> slash \<notin> set e"

definition rootedPath :: "string list \<Rightarrow> string" where
  "rootedPath ns = slash # Join ns [slash]"

lemma is_rooted_rootedPath [simp]: "is_rooted (rootedPath ns)"
  by (simp add: is_rooted_def rootedPath_def)

lemma foldl_names: "list_all name_ok ns \<Longrightarrow> foldl (cleanElem r) st ns = rev ns @ st"
  by (rule foldl_cleanElem_id) (auto simp: list.pred_set name_ok_def)

lemma foldl_rootedPath:
  assumes "list_all name_ok ns"
  shows "foldl (cleanElem True) [] (SplitByte (rootedPath ns) slash) = rev ns"
proof (cases "ns = []")
  case False
  have "SplitByte (rootedPath ns) slash = [] # ns"
    using assms False by (simp add: rootedPath_def SplitByte_Join list.pred_set name_ok_def)
  then show ?thesis using foldl_names [OF assms, of True "[]"] by (simp add: cleanElem_def)
qed (simp add: rootedPath_def cleanElem_def)

lemma cleanElems_rootedPath [simp]: "list_all name_ok ns \<Longrightarrow> cleanElems (rootedPath ns) = ns"
  by (simp add: cleanElems_def foldl_rootedPath)

lemma Clean_rootedPath [simp]: "list_all name_ok ns \<Longrightarrow> Clean (rootedPath ns) = rootedPath ns"
  by (simp add: Clean_rooted) (simp add: rootedPath_def)

lemma SplitByte_join2: "SplitByte (s @ b # t) b = SplitByte s b @ SplitByte t b"
  by (induction s) (auto split: list.splits)

lemma JoinPath_rootedPath:
  assumes "list_all name_ok ns" "name_ok n"
  shows "JoinPath [rootedPath ns, n] = rootedPath (ns @ [n])"
proof -
  let ?p = "rootedPath ns @ slash # n"
  have r: "is_rooted ?p" by (simp add: is_rooted_def rootedPath_def)
  have "SplitByte ?p slash = SplitByte (rootedPath ns) slash @ [n]"
    using assms(2) by (simp add: SplitByte_join2 SplitByte_none name_ok_def)
  then have "cleanElems ?p = ns @ [n]"
    using assms foldl_names [of "[n]" True "rev ns"] by (simp add: cleanElems_def r foldl_rootedPath)
  then have "Clean ?p = rootedPath (ns @ [n])" using Clean_rooted [OF r] by (simp only: rootedPath_def [of "ns @ [n]"])
  moreover have "n \<noteq> []" "rootedPath ns \<noteq> []" using assms(2) by (auto simp: name_ok_def rootedPath_def)
  ultimately show ?thesis by (simp add: JoinPath_def)
qed

lemma Count_Join: "\<forall>e \<in> set ns. b \<notin> set e \<Longrightarrow> ns \<noteq> [] \<Longrightarrow> Count (Join ns [b]) b = int (length ns) - 1"
  by (induction ns "[b]" rule: Join.induct) (auto simp: Count_def filter_empty_conv)

lemma Count_rootedPath: "list_all name_ok ns \<Longrightarrow> Count (rootedPath ns) slash = max 1 (int (length ns))"
  using Count_Join [of ns slash]
  by (cases "ns = []") (auto simp: rootedPath_def Count_def list.pred_set name_ok_def)

lemma rootedPath_cleanElems: "is_rooted r \<Longrightarrow> Clean r = r \<Longrightarrow> r = rootedPath (cleanElems r)"
  using Clean_rooted [of r] by (simp add: rootedPath_def)

lemma name_ok_cleanElems: "is_rooted r \<Longrightarrow> list_all name_ok (cleanElems r)"
  using cleanElems_ok [of r] cleanElems_rooted [of r] by (auto simp: list.pred_set elem_ok_def name_ok_def)

section \<open>The file system\<close>

text \<open>
  \<open>fs_eval\<close> is \<^verbatim>\<open>filepath.EvalSymlinks\<close>: the path a name resolves to, or \<open>None\<close> for a missing or dangling
  one. At a resolved path, \<open>fs_stat\<close> says whether something is there and whether it is a directory,
  \<open>fs_file\<close> gives the bytes of a file that can be read, and \<open>fs_list\<close> the sorted entries of a directory.
  Opening, reading and \<^verbatim>\<open>os.Stat\<close> follow symbolic links; one scan sees one state of the file system.
\<close>

record filesystem =
  fs_eval :: "string \<Rightarrow> string option"
  fs_stat :: "string \<Rightarrow> bool option"
  fs_file :: "string \<Rightarrow> string option"
  fs_list :: "string \<Rightarrow> (string \<times> bool) list option"

definition osStat :: "filesystem \<Rightarrow> string \<Rightarrow> bool option" where
  "osStat fs path = Option.bind (fs_eval fs path) (fs_stat fs)"

definition osReadFile :: "filesystem \<Rightarrow> string \<Rightarrow> string option" where
  "osReadFile fs path = Option.bind (fs_eval fs path) (fs_file fs)"

definition osReadDir :: "filesystem \<Rightarrow> string \<Rightarrow> (string \<times> bool) list option" where
  "osReadDir fs path = Option.bind (fs_eval fs path) (fs_list fs)"

end
