(* ===== verification/Os_Scan.thy ===== *)
theory Os_Scan
  imports Files Sbom
begin

text \<open>
  The package scanner of the agent (\<^verbatim>\<open>internal/agent/scanner\<close>: contain.go, ecosystem.go, dpkg.go, apk.go,
  rpm.go, scanner.go): containment of a scan in its root, the readers of the three package databases, and
  the choice between them. \<open>u k\<close> is the \<open>k\<close>-th identifier of \<^verbatim>\<open>uuid.New\<close> in a parser's run; the \<^verbatim>\<open>rpm\<close>
  program is a parameter.
\<close>

section \<open>Containment (contain.go)\<close>

datatype scan_error =
    NotReadable
  | OutsideRoot
  | TooLong
  | RpmFailed

definition isHostRoot :: "string \<Rightarrow> bool" where
  "isHostRoot root \<longleftrightarrow> root = [] \<or> Clean root = [slash]"

definition resolvedRoot :: "filesystem \<Rightarrow> string \<Rightarrow> string" where
  "resolvedRoot fs root = (case fs_eval fs root of None \<Rightarrow> Clean root | Some r \<Rightarrow> r)"

definition withinRoot :: "filesystem \<Rightarrow> string \<Rightarrow> string \<Rightarrow> scan_error option" where
  "withinRoot fs root path =
     (if isHostRoot root then None
      else
        (let rroot = resolvedRoot fs root in
         case fs_eval fs path of
           None \<Rightarrow> Some NotReadable
         | Some r \<Rightarrow>
             let resolved = Clean r; prefix = (if HasSuffix rroot [slash] then rroot else rroot @ [slash]) in
             if resolved = rroot then None
             else if HasPrefix resolved prefix then None
             else Some OutsideRoot))"

definition readFileWithinRoot :: "filesystem \<Rightarrow> string \<Rightarrow> string \<Rightarrow> scan_error + string" where
  "readFileWithinRoot fs root path =
     (case withinRoot fs root path of
        Some e \<Rightarrow> Inl e
      | None \<Rightarrow> (case osReadFile fs path of None \<Rightarrow> Inl NotReadable | Some data \<Rightarrow> Inr data))"

text \<open>The opened file is read to its end, so opening is modelled by the bytes that will be read.\<close>

definition openWithinRoot :: "filesystem \<Rightarrow> string \<Rightarrow> string \<Rightarrow> scan_error + string" where
  "openWithinRoot fs root path =
     (case withinRoot fs root path of
        Some e \<Rightarrow> Inl e
      | None \<Rightarrow> (case osReadFile fs path of None \<Rightarrow> Inl NotReadable | Some data \<Rightarrow> Inr data))"

section \<open>Ecosystems and package URLs (ecosystem.go)\<close>

definition ecosystemForType :: "string \<Rightarrow> string" where
  "ecosystemForType pkgType =
     (let t = ToLower pkgType in
      if t = ''ubuntu'' then ''Ubuntu''
      else if t \<in> set [''debian'', ''deb''] then ''Debian''
      else if t \<in> set [''alpine'', ''apk''] then ''Alpine''
      else if t \<in> set [''redhat'', ''centos'', ''rocky'', ''alma'', ''almalinux'', ''amazon'', ''oracle'', ''rpm'', ''rhel'']
        then ''RHEL''
      else if t \<in> set [''python-pkg'', ''pip'', ''poetry'', ''pypi''] then ''PyPI''
      else if t \<in> set [''node-pkg'', ''npm'', ''yarn'', ''pnpm''] then ''npm''
      else if t \<in> set [''gomod'', ''go'', ''gobinary'', ''golang''] then ''Go''
      else if t \<in> set [''jar'', ''maven''] then ''Maven''
      else if t \<in> set [''cargo'', ''rustbinary''] then ''crates.io''
      else if t = ''composer'' then ''Packagist''
      else if t = ''gem'' then ''RubyGems''
      else if t = ''nuget'' then ''NuGet''
      else [])"

definition purlTypeOf :: "string \<Rightarrow> string" where
  "purlTypeOf eco =
     (if eco \<in> set [''Debian'', ''Ubuntu''] then ''deb''
      else if eco = ''Alpine'' then ''apk''
      else if eco = ''RHEL'' then ''rpm''
      else if eco = ''PyPI'' then ''pypi''
      else if eco = ''npm'' then ''npm''
      else if eco = ''Go'' then ''golang''
      else if eco = ''Maven'' then ''maven''
      else if eco = ''crates.io'' then ''cargo''
      else if eco = ''Packagist'' then ''composer''
      else if eco = ''RubyGems'' then ''gem''
      else if eco = ''NuGet'' then ''nuget''
      else ''generic'')"

definition purlForPackage :: "string \<Rightarrow> string \<Rightarrow> string \<Rightarrow> string \<Rightarrow> string" where
  "purlForPackage pkgType name version arch =
     (if name = [] \<or> version = [] then []
      else
        (let purlType = purlTypeOf (ecosystemForType pkgType);
             p = ''pkg:'' @ purlType @ ''/'' @ name @ ''@'' @ version in
         if arch \<noteq> [] \<and> purlType \<in> set [''deb'', ''rpm'', ''apk''] then p @ ''?arch='' @ arch else p))"

fun osReleaseID :: "string list \<Rightarrow> string" where
  "osReleaseID [] = []"
| "osReleaseID (line # ls) =
     (let line = TrimSpace line in
      if HasPrefix line ''ID='' then ToLower (Trim (TrimPrefix line ''ID='') [CHR 0x22, CHR 0x27])
      else osReleaseID ls)"

definition distroIDFromRoot :: "filesystem \<Rightarrow> string \<Rightarrow> string" where
  "distroIDFromRoot fs root =
     (case readFileWithinRoot fs root (JoinPath [root, ''etc/os-release'']) of
        Inl _ \<Rightarrow> []
      | Inr data \<Rightarrow> osReleaseID (SplitByte data (CHR 0x0A)))"

section \<open>dpkg (dpkg.go)\<close>

type_synonym idstream = "nat \<Rightarrow> string"

definition emptyPackage :: Package where
  "emptyPackage = \<lparr>P_ID = [], P_ScanID = [], P_HostID = [], P_AssetType = [], P_AssetID = [], P_Source = [],
     P_Container = [], P_ContainerID = [], P_ImageName = [], P_ImageID = [], P_Name = [], P_Version = [],
     P_Arch = [], P_PkgType = [], P_Ecosystem = [], P_PURL = [], P_SrcName = [], P_FilePath = [],
     P_LayerID = [], P_Target = []\<rparr>"

definition dpkgSourceName :: "string \<Rightarrow> string \<Rightarrow> string" where
  "dpkgSourceName source bin =
     (let source = TrimSpace source in
      if source = [] then bin
      else
        (let i = IndexByte source (CHR ''(''); source = (if i > 0 then TrimSpace (upto_ix source i) else source) in
         if source = [] then bin else source))"

text \<open>\<open>cur\<close> is the \<^verbatim>\<open>map[string]string\<close> of the stanza: an absent key reads as the empty string.\<close>

definition dpkgPackage :: "string \<Rightarrow> string \<Rightarrow> (string \<Rightarrow> string) \<Rightarrow> Package" where
  "dpkgPackage ident pkgType cur = emptyPackage
     \<lparr>P_ID := ident, P_Name := cur ''Package'', P_Version := cur ''Version'', P_Arch := cur ''Architecture'',
      P_PkgType := pkgType, P_Ecosystem := ecosystemForType pkgType,
      P_SrcName := dpkgSourceName (cur ''Source'') (cur ''Package''),
      P_PURL := purlForPackage pkgType (cur ''Package'') (cur ''Version'') (cur ''Architecture''),
      P_Source := ''native-'' @ pkgType\<rparr>"

definition dpkgFlush :: "idstream \<Rightarrow> string \<Rightarrow> (string \<Rightarrow> string) \<Rightarrow> Package list \<Rightarrow> Package list" where
  "dpkgFlush u pkgType cur pkgs =
     (if cur ''Package'' = [] \<or> cur ''Version'' = [] then pkgs
      else if cur ''Status'' \<noteq> [] \<and> \<not> Contains (cur ''Status'') ''installed'' then pkgs
      else pkgs @ [dpkgPackage (u (length pkgs)) pkgType cur])"

fun dpkgLoop :: "idstream \<Rightarrow> string \<Rightarrow> string list \<Rightarrow> (string \<Rightarrow> string) \<Rightarrow> Package list \<Rightarrow> Package list" where
  "dpkgLoop u pkgType [] cur pkgs = dpkgFlush u pkgType cur pkgs"
| "dpkgLoop u pkgType (line # ls) cur pkgs =
     (if line = [] then dpkgLoop u pkgType ls (\<lambda>_. []) (dpkgFlush u pkgType cur pkgs)
      else if hd line = CHR '' '' \<or> hd line = CHR 0x09 then dpkgLoop u pkgType ls cur pkgs
      else if Index line '':'' \<le> 0 then dpkgLoop u pkgType ls cur pkgs
      else
        (let idx = Index line '':''; k = TrimSpace (upto_ix line idx); v = TrimSpace (from_ix line (idx + 1)) in
         dpkgLoop u pkgType ls (cur(k := v)) pkgs))"

definition dpkgLimit :: int where "dpkgLimit = 4 * 1024 * 1024"

text \<open>An oversized line ends the scan and is no error: the packages before it are the result.\<close>

definition parseDpkgStatus ::
  "filesystem \<Rightarrow> idstream \<Rightarrow> string \<Rightarrow> string \<Rightarrow> string \<Rightarrow> Package list \<times> scan_error option" where
  "parseDpkgStatus fs u root path pkgType =
     (case openWithinRoot fs root path of
        Inl e \<Rightarrow> ([], Some e)
      | Inr data \<Rightarrow> (dpkgLoop u pkgType (scanLines dpkgLimit data) (\<lambda>_. []) [], None))"

section \<open>apk (apk.go)\<close>

record apkStanza =
  ak_name :: string
  ak_version :: string
  ak_arch :: string
  ak_origin :: string

definition emptyApk :: apkStanza where
  "emptyApk = \<lparr>ak_name = [], ak_version = [], ak_arch = [], ak_origin = []\<rparr>"

definition apkPackage :: "string \<Rightarrow> apkStanza \<Rightarrow> Package" where
  "apkPackage ident a = emptyPackage
     \<lparr>P_ID := ident, P_Name := ak_name a, P_Version := ak_version a, P_Arch := ak_arch a, P_PkgType := ''alpine'',
      P_Ecosystem := ecosystemForType ''alpine'',
      P_SrcName := (if ak_origin a = [] then ak_name a else ak_origin a),
      P_PURL := purlForPackage ''alpine'' (ak_name a) (ak_version a) (ak_arch a), P_Source := ''native-alpine''\<rparr>"

definition apkFlush :: "idstream \<Rightarrow> apkStanza \<Rightarrow> Package list \<Rightarrow> Package list" where
  "apkFlush u a pkgs =
     (if ak_name a = [] \<or> ak_version a = [] then pkgs else pkgs @ [apkPackage (u (length pkgs)) a])"

definition apkField :: "apkStanza \<Rightarrow> string \<Rightarrow> apkStanza" where
  "apkField a line =
     (if length line < 2 \<or> line ! 1 \<noteq> CHR '':'' then a
      else if hd line = CHR ''P'' then a\<lparr>ak_name := drop 2 line\<rparr>
      else if hd line = CHR ''V'' then a\<lparr>ak_version := drop 2 line\<rparr>
      else if hd line = CHR ''A'' then a\<lparr>ak_arch := drop 2 line\<rparr>
      else if hd line = CHR ''o'' then a\<lparr>ak_origin := drop 2 line\<rparr>
      else a)"

fun apkLoop :: "idstream \<Rightarrow> string list \<Rightarrow> apkStanza \<Rightarrow> Package list \<Rightarrow> Package list" where
  "apkLoop u [] a pkgs = apkFlush u a pkgs"
| "apkLoop u (line # ls) a pkgs =
     (if line = [] then apkLoop u ls emptyApk (apkFlush u a pkgs) else apkLoop u ls (apkField a line) pkgs)"

definition apkLimit :: int where "apkLimit = 1024 * 1024"

definition parseApkInstalled ::
  "filesystem \<Rightarrow> idstream \<Rightarrow> string \<Rightarrow> string \<Rightarrow> Package list \<times> scan_error option" where
  "parseApkInstalled fs u root path =
     (case openWithinRoot fs root path of
        Inl e \<Rightarrow> ([], Some e)
      | Inr data \<Rightarrow>
          (apkLoop u (scanLines apkLimit data) emptyApk [],
           if lineTooLong apkLimit data then Some TooLong else None))"

section \<open>rpm (rpm.go)\<close>

definition tabc :: char where "tabc = CHR 0x09"

definition RPMQueryFormat :: string where
  "RPMQueryFormat =
     Join [''%{NAME}'', ''%{EPOCHNUM}'', ''%{VERSION}-%{RELEASE}'', ''%{ARCH}'', ''%{SOURCERPM}''] [tabc] @ [CHR 0x0A]"

definition rpmSourceName :: "string \<Rightarrow> string" where
  "rpmSourceName src =
     (let src = TrimSuffix src ''.src.rpm''; i = LastIndex src ''-'' in
      if i > 0 then
        (let src = upto_ix src i; j = LastIndex src ''-'' in if j > 0 then upto_ix src j else src)
      else src)"

definition rpmPackage :: "string \<Rightarrow> string \<Rightarrow> string \<Rightarrow> string \<Rightarrow> string \<Rightarrow> Package" where
  "rpmPackage ident name version arch srcName = emptyPackage
     \<lparr>P_ID := ident, P_Name := name, P_Version := version, P_Arch := arch, P_PkgType := ''rhel'',
      P_Ecosystem := ecosystemForType ''rhel'', P_SrcName := srcName,
      P_PURL := purlForPackage ''rhel'' name version arch, P_Source := ''native-rhel''\<rparr>"

definition rpmLine :: "idstream \<Rightarrow> Package list \<Rightarrow> string \<Rightarrow> Package list" where
  "rpmLine u pkgs line =
     (let flds = SplitByte line tabc in
      if length flds < 4 then pkgs
      else
        (let name = TrimSpace (flds ! 0); epoch = TrimSpace (flds ! 1); version = TrimSpace (flds ! 2);
             arch = TrimSpace (flds ! 3) in
         if name = [] \<or> version = [] then pkgs
         else
           (let version = (if epoch \<noteq> [] \<and> epoch \<noteq> ''0'' \<and> epoch \<noteq> ''(none)'' then epoch @ '':'' @ version
                           else version);
                srcName = (if length flds > 4 then rpmSourceName (TrimSpace (flds ! 4)) else []) in
            pkgs @ [rpmPackage (u (length pkgs)) name version arch srcName])))"

definition parseRPMQuery :: "idstream \<Rightarrow> string \<Rightarrow> Package list" where
  "parseRPMQuery u out = foldl (rpmLine u) [] (SplitByte out (CHR 0x0A))"

definition ParseRPMQuery :: "idstream \<Rightarrow> string \<Rightarrow> Package list" where
  "ParseRPMQuery u out = parseRPMQuery u out"

text \<open>
  \<open>rt_found\<close> is \<^verbatim>\<open>exec.LookPath\<close>, \<open>rt_abs\<close> is \<^verbatim>\<open>filepath.Abs\<close>, \<open>rt_query\<close> the output of the program on its
  arguments within its time limit.
\<close>

record rpmTool =
  rt_found :: bool
  rt_abs :: "string \<Rightarrow> string option"
  rt_query :: "string list \<Rightarrow> string option"

definition rpmDBPresent :: "filesystem \<Rightarrow> string \<Rightarrow> bool" where
  "rpmDBPresent fs dbDir =
     list_ex (\<lambda>f. osStat fs (JoinPath [dbDir, f]) = Some False) [''rpmdb.sqlite'', ''Packages'', ''Packages.db'']"

record scanResult =
  sr_Packages :: "Package list"
  sr_OSFamily :: string
  sr_Source :: string

definition scanRPM ::
  "filesystem \<Rightarrow> rpmTool \<Rightarrow> idstream \<Rightarrow> string \<Rightarrow> scanResult option \<times> bool \<times> scan_error option" where
  "scanRPM fs rt u root =
     (if \<not> rpmDBPresent fs (JoinPath [root, ''var/lib/rpm'']) then (None, False, None)
      else if \<not> rt_found rt then
        (Some \<lparr>sr_Packages = [], sr_OSFamily = ''rhel'', sr_Source = ''rpmdb-unreadable''\<rparr>, True, None)
      else
        (let args = [''-qa'', ''--qf'', RPMQueryFormat];
             args = (case rt_abs rt root of
                       Some a \<Rightarrow> if a \<noteq> [slash] then [''--root'', a] @ args else args
                     | None \<Rightarrow> args) in
         case rt_query rt args of
           None \<Rightarrow> (None, True, Some RpmFailed)
         | Some out \<Rightarrow>
             (Some \<lparr>sr_Packages = parseRPMQuery u out, sr_OSFamily = ''rhel'', sr_Source = ''rpm''\<rparr>, True, None)))"

section \<open>Choosing the database (scanner.go)\<close>

fun firstExisting :: "filesystem \<Rightarrow> string \<Rightarrow> string list \<Rightarrow> string" where
  "firstExisting fs root [] = []"
| "firstExisting fs root (rel # rels) =
     (let p = JoinPath [root, rel] in if osStat fs p = Some False then p else firstExisting fs root rels)"

text \<open>The \<^verbatim>\<open>Result\<close> and \<^verbatim>\<open>error\<close> of \<^verbatim>\<open>ScanRoot\<close>; the result is nil when there is an error.\<close>

definition ScanRoot :: "filesystem \<Rightarrow> rpmTool \<Rightarrow> idstream \<Rightarrow> string \<Rightarrow> scan_error + scanResult" where
  "ScanRoot fs rt u root0 =
     (let root = (if root0 = [] then [slash] else root0); dpkg = firstExisting fs root [''var/lib/dpkg/status'']
      in if dpkg \<noteq> [] then
           (let pkgType = (if distroIDFromRoot fs root = ''ubuntu'' then ''ubuntu'' else ''debian'') in
            case parseDpkgStatus fs u root dpkg pkgType of
              (pkgs, Some e) \<Rightarrow> Inl e
            | (pkgs, None) \<Rightarrow> Inr \<lparr>sr_Packages = pkgs, sr_OSFamily = pkgType, sr_Source = ''dpkg''\<rparr>)
         else
           (let apk = firstExisting fs root [''lib/apk/db/installed''] in
            if apk \<noteq> [] then
              (case parseApkInstalled fs u root apk of
                 (pkgs, Some e) \<Rightarrow> Inl e
               | (pkgs, None) \<Rightarrow> Inr \<lparr>sr_Packages = pkgs, sr_OSFamily = ''alpine'', sr_Source = ''apk''\<rparr>)
            else
              (case scanRPM fs rt u root of
                 (_, _, Some e) \<Rightarrow> Inl e
               | (Some res, True, None) \<Rightarrow> Inr res
               | _ \<Rightarrow> Inr \<lparr>sr_Packages = [], sr_OSFamily = [], sr_Source = []\<rparr>)))"

section \<open>What a contained scan can read\<close>

text \<open>
  A rooted path is inside a rooted directory when it continues the elements of the directory: it is
  compared element by element, so a sibling with a longer name is outside.
\<close>

definition inside :: "string \<Rightarrow> string \<Rightarrow> bool" where
  "inside dir path \<longleftrightarrow> is_rooted path \<and> take (length (cleanElems dir)) (cleanElems path) = cleanElems dir"

text \<open>\<^verbatim>\<open>filepath.EvalSymlinks\<close> answers a rooted path with a cleaned rooted path.\<close>

definition eval_clean :: "filesystem \<Rightarrow> bool" where
  "eval_clean fs \<longleftrightarrow> (\<forall>p r. is_rooted p \<longrightarrow> fs_eval fs p = Some r \<longrightarrow> is_rooted r \<and> Clean r = r)"

lemma SplitByte_Clean:
  assumes "is_rooted r" "Clean r = r"
  shows "SplitByte r slash = (if cleanElems r = [] then [[], []] else [] # cleanElems r)"
proof -
  have r: "r = slash # Join (cleanElems r) [slash]" using Clean_rooted [OF assms(1)] assms(2) by simp
  have "SplitByte (slash # Join (cleanElems r) [slash]) slash
      = (if cleanElems r = [] then [[], []] else [] # cleanElems r)"
    using cleanElems_ok [of r] by (simp add: SplitByte_Join list.pred_set elem_ok_def)
  then show ?thesis using r by metis
qed

lemma prefix_inside:
  assumes R: "is_rooted R" "Clean R = R" and r: "is_rooted r" "Clean r = r"
    and pre: "HasPrefix r (if HasSuffix R [slash] then R else R @ [slash])"
  shows "inside R r"
proof (cases "cleanElems R = []")
  case False
  have "R \<noteq> [slash]" using R False by (auto simp: cleanElems_def is_rooted_def cleanElem_def)
  have ns: "\<not> HasSuffix R [slash]"
  proof
    assume "HasSuffix R [slash]"
    then obtain t where t: "R = t @ [slash]" by (auto simp: HasSuffix_def HasPrefix_iff)
    have "last (SplitByte R slash) = []" using SplitByte_join2 [of t slash "[]"] t by simp
    then have "last (cleanElems R) = []" using SplitByte_Clean [OF R] False by simp
    then show False using cleanElems_ok [of R] False by (auto simp: list.pred_set elem_ok_def dest: last_in_set)
  qed
  then obtain x where x: "r = R @ slash # x" using pre by (auto simp: HasPrefix_iff)
  have "SplitByte r slash = [] # cleanElems R @ SplitByte x slash"
    using SplitByte_Clean [OF R] False by (simp add: x SplitByte_join2)
  then have "cleanElems r = cleanElems R @ SplitByte x slash"
    using SplitByte_Clean [OF r] False by (cases "cleanElems R") (auto split: if_splits)
  then show ?thesis using r by (simp add: inside_def)
qed (use r in \<open>simp add: inside_def\<close>)

lemma is_rooted_Clean: "is_rooted p \<Longrightarrow> is_rooted (Clean p)"
  by (simp add: Clean_rooted) (simp add: is_rooted_def)

lemma resolvedRoot_clean:
  assumes "eval_clean fs" "is_rooted root"
  shows "is_rooted (resolvedRoot fs root) \<and> Clean (resolvedRoot fs root) = resolvedRoot fs root"
  using assms by (auto simp: resolvedRoot_def eval_clean_def is_rooted_Clean Clean_idem_rooted split: option.splits)

text \<open>What the check lets through lies inside the root, wherever its links lead.\<close>

lemma withinRoot_inside:
  assumes "eval_clean fs" "is_rooted root" "\<not> isHostRoot root" "is_rooted path" "withinRoot fs root path = None"
  obtains r where "fs_eval fs path = Some r" "inside (resolvedRoot fs root) r"
proof -
  let ?R = "resolvedRoot fs root"
  have R: "is_rooted ?R" "Clean ?R = ?R" using resolvedRoot_clean [OF assms(1,2)] by simp_all
  obtain r where r: "fs_eval fs path = Some r"
    using assms(3,5) by (auto simp: withinRoot_def Let_def split: option.splits)
  have cr: "is_rooted r" "Clean r = r" using assms(1,4) r by (auto simp: eval_clean_def)
  have "r = ?R \<or> HasPrefix r (if HasSuffix ?R [slash] then ?R else ?R @ [slash])"
    using assms(3,5) r cr(2) by (auto simp: withinRoot_def Let_def split: if_splits)
  then have "inside ?R r" using prefix_inside [OF R cr] R by (auto simp: inside_def)
  then show ?thesis using that r by blast
qed

text \<open>Two file systems that differ only in the contents of files outside the root.\<close>

definition same_inside :: "filesystem \<Rightarrow> string \<Rightarrow> (string \<Rightarrow> string option) \<Rightarrow> bool" where
  "same_inside fs root g \<longleftrightarrow> (\<forall>r. inside (resolvedRoot fs root) r \<longrightarrow> g r = fs_file fs r)"

lemma other_files_simps [simp]:
  "osStat (fs\<lparr>fs_file := g\<rparr>) = osStat fs" "withinRoot (fs\<lparr>fs_file := g\<rparr>) = withinRoot fs"
  "firstExisting (fs\<lparr>fs_file := g\<rparr>) root rels = firstExisting fs root rels"
  "rpmDBPresent (fs\<lparr>fs_file := g\<rparr>) = rpmDBPresent fs"
  "scanRPM (fs\<lparr>fs_file := g\<rparr>) rt u root = scanRPM fs rt u root"
proof -
  show st: "osStat (fs\<lparr>fs_file := g\<rparr>) = osStat fs" by (simp add: osStat_def fun_eq_iff)
  show "withinRoot (fs\<lparr>fs_file := g\<rparr>) = withinRoot fs"
    by (simp add: withinRoot_def resolvedRoot_def fun_eq_iff)
  show "firstExisting (fs\<lparr>fs_file := g\<rparr>) root rels = firstExisting fs root rels"
    by (induction rels) (simp_all add: st Let_def)
  show pr: "rpmDBPresent (fs\<lparr>fs_file := g\<rparr>) = rpmDBPresent fs" by (simp add: rpmDBPresent_def st fun_eq_iff)
  show "scanRPM (fs\<lparr>fs_file := g\<rparr>) rt u root = scanRPM fs rt u root" by (simp add: scanRPM_def pr)
qed

definition contained :: "filesystem \<Rightarrow> string \<Rightarrow> (string \<Rightarrow> string option) \<Rightarrow> bool" where
  "contained fs root g \<longleftrightarrow> eval_clean fs \<and> is_rooted root \<and> \<not> isHostRoot root \<and> same_inside fs root g"

lemma is_rooted_JoinPath: "is_rooted root \<Longrightarrow> is_rooted (JoinPath [root, rel])"
proof -
  assume "is_rooted root"
  then have "root \<noteq> []" "is_rooted (root @ slash # rel)" "is_rooted root" by (auto simp: is_rooted_def)
  then show ?thesis by (simp add: JoinPath_def is_rooted_Clean)
qed

lemma read_same:
  assumes "contained fs root g" "is_rooted path" "withinRoot fs root path = None"
  shows "osReadFile (fs\<lparr>fs_file := g\<rparr>) path = osReadFile fs path"
proof -
  obtain r where "fs_eval fs path = Some r" "inside (resolvedRoot fs root) r"
    using withinRoot_inside [of fs root path] assms by (auto simp: contained_def)
  then show ?thesis using assms(1) by (simp add: osReadFile_def contained_def same_inside_def)
qed

lemma open_same:
  assumes "contained fs root g" "is_rooted path"
  shows "readFileWithinRoot (fs\<lparr>fs_file := g\<rparr>) root path = readFileWithinRoot fs root path"
    and "openWithinRoot (fs\<lparr>fs_file := g\<rparr>) root path = openWithinRoot fs root path"
  using read_same [OF assms] by (simp_all add: readFileWithinRoot_def openWithinRoot_def split: option.splits)

lemma firstExisting_rooted:
  "is_rooted root \<Longrightarrow> firstExisting fs root rels \<noteq> [] \<Longrightarrow> is_rooted (firstExisting fs root rels)"
  by (induction rels) (auto simp: Let_def is_rooted_JoinPath split: if_splits)

lemma scan_same:
  assumes "contained fs root g"
  shows "ScanRoot (fs\<lparr>fs_file := g\<rparr>) rt u root = ScanRoot fs rt u root"
proof -
  have r: "root \<noteq> []" "is_rooted root" using assms by (auto simp: contained_def is_rooted_def)
  note first = firstExisting_rooted [OF r(2)]
  show ?thesis
    by (simp add: ScanRoot_def Let_def r distroIDFromRoot_def parseDpkgStatus_def parseApkInstalled_def
        open_same [OF assms] first is_rooted_JoinPath del: firstExisting.simps)
qed

section \<open>Databases of stanzas\<close>

definition numbered :: "idstream \<Rightarrow> (string \<Rightarrow> 'a \<Rightarrow> 'b) \<Rightarrow> nat \<Rightarrow> 'a list \<Rightarrow> 'b list" where
  "numbered u mk n xs = map (\<lambda>(k, x). mk (u k) x) (enumerate n xs)"

lemma numbered_simps [simp]:
  "numbered u mk n [] = []" "numbered u mk n (x # xs) = mk (u n) x # numbered u mk (Suc n) xs"
  by (simp_all add: numbered_def)

lemma length_numbered [simp]: "length (numbered u mk n xs) = length xs"
  by (simp add: numbered_def)

lemma numbered_append: "numbered u mk n (xs @ ys) = numbered u mk n xs @ numbered u mk (n + length xs) ys"
  by (induction xs arbitrary: n) simp_all

text \<open>
  The two databases of stanzas are read by loops of one shape: a line changes the stanza, a blank line ends
  it, and the stanza that is complete becomes a package.
\<close>

locale stanza_reader =
  fixes run :: "string list \<Rightarrow> 's \<Rightarrow> Package list \<Rightarrow> Package list"
    and flush :: "'s \<Rightarrow> Package list \<Rightarrow> Package list"
    and field :: "'s \<Rightarrow> string \<Rightarrow> 's"
    and start :: 's
    and keep :: "'s \<Rightarrow> bool"
    and package :: "string \<Rightarrow> 's \<Rightarrow> Package"
    and u :: idstream
  assumes run_Nil: "run [] s ps = flush s ps"
    and run_blank: "run ([] # ls) s ps = run ls start (flush s ps)"
    and run_line: "line \<noteq> [] \<Longrightarrow> run (line # ls) s ps = run ls (field s line) ps"
    and flush_eq: "flush s ps = (if keep s then ps @ [package (u (length ps)) s] else ps)"
    and start_empty: "\<not> keep start"
begin

lemma run_lines: "[] \<notin> set ls \<Longrightarrow> run (ls @ rest) s ps = run rest (foldl field s ls) ps"
  by (induction ls arbitrary: s) (auto simp: run_line)

lemma run_stanzas:
  "\<forall>ls \<in> set db. [] \<notin> set ls \<Longrightarrow>
   run (concat (map (\<lambda>ls. ls @ [[]]) db)) start ps
     = ps @ numbered u package (length ps) (filter keep (map (foldl field start) db))"
proof (induction db arbitrary: ps)
  case (Cons ls db)
  let ?s = "foldl field start ls"
  have "run (concat (map (\<lambda>ls. ls @ [[]]) (ls # db))) start ps
      = run (concat (map (\<lambda>ls. ls @ [[]]) db)) start (flush ?s ps)"
    using Cons.prems by (simp add: run_lines run_blank)
  also have "\<dots> = flush ?s ps @ numbered u package (length (flush ?s ps)) (filter keep (map (foldl field start) db))"
    using Cons.prems by (intro Cons.IH) simp
  finally show ?case by (simp add: flush_eq)
qed (simp add: run_Nil flush_eq start_empty)

end

definition dpkgField :: "(string \<Rightarrow> string) \<Rightarrow> string \<Rightarrow> string \<Rightarrow> string" where
  "dpkgField cur line =
     (if hd line = CHR '' '' \<or> hd line = CHR 0x09 \<or> Index line '':'' \<le> 0 then cur
      else cur(TrimSpace (upto_ix line (Index line '':'')) := TrimSpace (from_ix line (Index line '':'' + 1))))"

definition dpkgInstalled :: "(string \<Rightarrow> string) \<Rightarrow> bool" where
  "dpkgInstalled cur \<longleftrightarrow>
     cur ''Package'' \<noteq> [] \<and> cur ''Version'' \<noteq> [] \<and> (cur ''Status'' = [] \<or> Contains (cur ''Status'') ''installed'')"

interpretation dpkg: stanza_reader "dpkgLoop u t" "dpkgFlush u t" dpkgField "\<lambda>_. []" dpkgInstalled
  "\<lambda>ident. dpkgPackage ident t" u for u t
  by unfold_locales (auto simp: dpkgFlush_def dpkgField_def dpkgInstalled_def Let_def)

interpretation apk: stanza_reader "apkLoop u" "apkFlush u" apkField emptyApk
  "\<lambda>a. ak_name a \<noteq> [] \<and> ak_version a \<noteq> []" apkPackage u for u
  by unfold_locales (auto simp: apkFlush_def emptyApk_def)

section \<open>Round trips\<close>

text \<open>A field of a dpkg stanza as dpkg writes it.\<close>

definition field_line :: "string \<times> string \<Rightarrow> string" where
  "field_line f = fst f @ '': '' @ snd f"

definition dpkg_field_ok :: "string \<times> string \<Rightarrow> bool" where
  "dpkg_field_ok f \<longleftrightarrow>
     fst f \<noteq> [] \<and> TrimSpace (fst f) = fst f \<and> CHR '':'' \<notin> set (fst f) \<and> TrimSpace (snd f) = snd f \<and>
     line_ok dpkgLimit (field_line f)"

lemma TrimSpace_space: "is_space c \<Longrightarrow> TrimSpace (c # s) = TrimSpace s"
  by (simp add: TrimSpace_def)

lemma TrimSpace_hd: "TrimSpace s = s \<Longrightarrow> s \<noteq> [] \<Longrightarrow> \<not> is_space (hd s)"
proof
  assume s: "TrimSpace s = s" "s \<noteq> []" and "is_space (hd s)"
  then have "TrimSpace s = TrimSpace (tl s)" by (cases s) (auto simp: TrimSpace_space)
  moreover have "length (TrimSpace (tl s)) \<le> length (tl s)"
    using length_dropWhile_le [of is_space "rev (dropWhile is_space (tl s))"]
      length_dropWhile_le [of is_space "tl s"] by (simp add: TrimSpace_def)
  ultimately show False using s by (cases s) auto
qed

lemma dpkgField_line:
  assumes "dpkg_field_ok f"
  shows "dpkgField cur (field_line f) = cur(fst f := snd f)" "field_line f \<noteq> []"
proof -
  have ne: "fst f \<noteq> []" and k: "TrimSpace (fst f) = fst f" "CHR '':'' \<notin> set (fst f)"
    and v: "TrimSpace (snd f) = snd f" using assms by (auto simp: dpkg_field_ok_def)
  have ix: "Index (field_line f) '':'' = int (length (fst f))"
    using Index_first [OF k(2)] by (simp add: field_line_def)
  have sp: "\<not> is_space (hd (fst f))" using TrimSpace_hd [OF k(1) ne] .
  have hd: "hd (field_line f) = hd (fst f)" using ne by (simp add: field_line_def)
  have nosp: "hd (field_line f) \<noteq> CHR '' ''" "hd (field_line f) \<noteq> CHR 0x09"
    using sp unfolding hd by (auto simp: is_space_def)
  have "is_space (CHR '' '')" by code_simp
  then have val: "TrimSpace (from_ix (field_line f) (Index (field_line f) '':'' + 1)) = snd f"
    using v by (simp add: ix nat_add_distrib) (simp add: field_line_def TrimSpace_space)
  have key: "TrimSpace (upto_ix (field_line f) (Index (field_line f) '':'')) = fst f"
    using k by (simp add: ix) (simp add: field_line_def)
  show "dpkgField cur (field_line f) = cur(fst f := snd f)"
    using nosp val key ix ne by (simp add: dpkgField_def)
  show "field_line f \<noteq> []" by (simp add: field_line_def)
qed

definition stanzaMap :: "(string \<times> string) list \<Rightarrow> string \<Rightarrow> string" where
  "stanzaMap fs = foldl (\<lambda>m f. m(fst f := snd f)) (\<lambda>_. []) fs"

definition dpkg_text :: "(string \<times> string) list list \<Rightarrow> string" where
  "dpkg_text db = unlines (concat (map (\<lambda>ls. ls @ [[]]) (map (map field_line) db)))"

lemma foldl_dpkgField:
  "list_all dpkg_field_ok fs \<Longrightarrow>
   foldl dpkgField cur (map field_line fs) = foldl (\<lambda>m f. m(fst f := snd f)) cur fs"
  by (induction fs arbitrary: cur) (simp_all add: dpkgField_line)

lemma stanza_lines_ok:
  "0 < limit \<Longrightarrow> \<forall>ls \<in> set db. \<forall>l \<in> set ls. line_ok limit l \<Longrightarrow>
   \<forall>l \<in> set (concat (map (\<lambda>ls. ls @ [[]]) db)). line_ok limit l"
  by (auto simp: line_ok_def)

lemma scan_dpkg_text:
  assumes "list_all (list_all dpkg_field_ok) db"
  shows "dpkgLoop u t (scanLines dpkgLimit (dpkg_text db)) (\<lambda>_. []) []
    = numbered u (\<lambda>ident. dpkgPackage ident t) 0 (filter dpkgInstalled (map stanzaMap db))"
proof -
  let ?db = "map (map field_line) db"
  have "\<forall>l \<in> set (concat (map (\<lambda>ls. ls @ [[]]) ?db)). line_ok dpkgLimit l"
    using assms by (intro stanza_lines_ok) (auto simp: list.pred_set dpkg_field_ok_def dpkgLimit_def)
  then have l: "scanLines dpkgLimit (dpkg_text db) = concat (map (\<lambda>ls. ls @ [[]]) ?db)"
    unfolding dpkg_text_def by (rule scanLines_unlines)
  have "\<forall>ls \<in> set ?db. [] \<notin> set ls" using assms dpkgField_line(2) by (fastforce simp: list.pred_set)
  moreover have "map (foldl dpkgField (\<lambda>_. [])) ?db = map stanzaMap db"
    using assms by (auto simp: stanzaMap_def foldl_dpkgField list.pred_set)
  ultimately show ?thesis using dpkg.run_stanzas [of ?db u t "[]"] unfolding l by (simp del: map_map)
qed

text \<open>A field of an apk stanza.\<close>

definition apk_line :: "char \<times> string \<Rightarrow> string" where
  "apk_line f = fst f # CHR '':'' # snd f"

definition apk_field_ok :: "char \<times> string \<Rightarrow> bool" where
  "apk_field_ok f \<longleftrightarrow> line_ok apkLimit (apk_line f)"

definition setApk :: "apkStanza \<Rightarrow> char \<times> string \<Rightarrow> apkStanza" where
  "setApk a f =
     (if fst f = CHR ''P'' then a\<lparr>ak_name := snd f\<rparr>
      else if fst f = CHR ''V'' then a\<lparr>ak_version := snd f\<rparr>
      else if fst f = CHR ''A'' then a\<lparr>ak_arch := snd f\<rparr>
      else if fst f = CHR ''o'' then a\<lparr>ak_origin := snd f\<rparr>
      else a)"

definition apk_text :: "(char \<times> string) list list \<Rightarrow> string" where
  "apk_text db = unlines (concat (map (\<lambda>ls. ls @ [[]]) (map (map apk_line) db)))"

lemma apkField_line: "apkField a (apk_line f) = setApk a f"
  by (simp add: apkField_def apk_line_def setApk_def)

lemma foldl_apkField: "foldl apkField a (map apk_line fs) = foldl setApk a fs"
  by (induction fs arbitrary: a) (simp_all add: apkField_line)

lemma apk_text_lines:
  assumes "list_all (list_all apk_field_ok) db"
  shows "\<forall>l \<in> set (concat (map (\<lambda>ls. ls @ [[]]) (map (map apk_line) db))). line_ok apkLimit l"
  using assms by (intro stanza_lines_ok) (auto simp: list.pred_set apk_field_ok_def apkLimit_def)

lemma scan_apk_text:
  assumes "list_all (list_all apk_field_ok) db"
  shows "apkLoop u (scanLines apkLimit (apk_text db)) emptyApk []
    = numbered u apkPackage 0
        (filter (\<lambda>a. ak_name a \<noteq> [] \<and> ak_version a \<noteq> []) (map (foldl setApk emptyApk) db))"
proof -
  let ?db = "map (map apk_line) db"
  have l: "scanLines apkLimit (apk_text db) = concat (map (\<lambda>ls. ls @ [[]]) ?db)"
    unfolding apk_text_def by (rule scanLines_unlines) (rule apk_text_lines [OF assms])
  have "\<forall>ls \<in> set ?db. [] \<notin> set ls" by (auto simp: apk_line_def)
  moreover have "map (foldl apkField emptyApk) ?db = map (foldl setApk emptyApk) db"
    by (simp add: foldl_apkField comp_def)
  ultimately show ?thesis using apk.run_stanzas [of ?db u "[]"] unfolding l by (simp del: map_map)
qed

lemma apk_text_fits: "list_all (list_all apk_field_ok) db \<Longrightarrow> \<not> lineTooLong apkLimit (apk_text db)"
  unfolding apk_text_def by (intro not_lineTooLong_unlines apk_text_lines)

text \<open>A line of \<^verbatim>\<open>rpm -qa --qf RPMQueryFormat\<close>, from the fields of the package and the file of its source.\<close>

record rpmRow =
  rr_name :: string
  rr_epoch :: string
  rr_version :: string
  rr_arch :: string
  rr_src :: string
  rr_srcver :: string
  rr_srcrel :: string

definition rpm_source_file :: "rpmRow \<Rightarrow> string" where
  "rpm_source_file r = rr_src r @ ''-'' @ rr_srcver r @ ''-'' @ rr_srcrel r @ ''.src.rpm''"

definition rpm_fields :: "rpmRow \<Rightarrow> string list" where
  "rpm_fields r = [rr_name r, rr_epoch r, rr_version r, rr_arch r, rpm_source_file r]"

definition rpm_text :: "rpmRow list \<Rightarrow> string" where
  "rpm_text rs = unlines (map (\<lambda>r. Join (rpm_fields r) [tabc]) rs)"

definition rpm_row_ok :: "rpmRow \<Rightarrow> bool" where
  "rpm_row_ok r \<longleftrightarrow>
     list_all (\<lambda>x. TrimSpace x = x \<and> tabc \<notin> set x \<and> CHR 0x0A \<notin> set x) (rpm_fields r) \<and>
     rr_name r \<noteq> [] \<and> rr_version r \<noteq> [] \<and> rr_src r \<noteq> [] \<and>
     CHR ''-'' \<notin> set (rr_srcver r) \<and> CHR ''-'' \<notin> set (rr_srcrel r)"

definition rpmRowPackage :: "string \<Rightarrow> rpmRow \<Rightarrow> Package" where
  "rpmRowPackage ident r =
     rpmPackage ident (rr_name r)
       (if rr_epoch r \<in> set ['''', ''0'', ''(none)''] then rr_version r else rr_epoch r @ '':'' @ rr_version r)
       (rr_arch r) (rr_src r)"

lemma TrimSuffix_append: "TrimSuffix (s @ t) t = s"
  by (auto simp: TrimSuffix_def HasSuffix_def HasPrefix_iff)

lemma rpmSourceName_file:
  assumes "rr_src r \<noteq> []" "CHR ''-'' \<notin> set (rr_srcver r)" "CHR ''-'' \<notin> set (rr_srcrel r)"
  shows "rpmSourceName (rpm_source_file r) = rr_src r"
proof -
  have t: "TrimSuffix (rpm_source_file r) ''.src.rpm'' = (rr_src r @ ''-'' @ rr_srcver r) @ CHR ''-'' # rr_srcrel r"
    using TrimSuffix_append [of "rr_src r @ ''-'' @ rr_srcver r @ ''-'' @ rr_srcrel r" "''.src.rpm''"]
    by (simp add: rpm_source_file_def)
  have i: "LastIndex ((rr_src r @ ''-'' @ rr_srcver r) @ CHR ''-'' # rr_srcrel r) ''-''
      = int (length (rr_src r @ ''-'' @ rr_srcver r))"
    by (rule LastIndex_last) (rule assms)
  have j: "LastIndex (rr_src r @ CHR ''-'' # rr_srcver r) ''-'' = int (length (rr_src r))"
    by (rule LastIndex_last) (rule assms)
  have k: "upto_ix ((rr_src r @ ''-'' @ rr_srcver r) @ CHR ''-'' # rr_srcrel r)
      (int (length (rr_src r @ ''-'' @ rr_srcver r))) = rr_src r @ CHR ''-'' # rr_srcver r"
    by (simp only: nat_int append_eq_conv_conj [THEN iffD1, OF refl]) simp
  show ?thesis unfolding rpmSourceName_def t Let_def i k j using assms(1) by simp
qed

lemma rpmLine_row:
  assumes "rpm_row_ok r"
  shows "rpmLine u pkgs (Join (rpm_fields r) [tabc]) = pkgs @ [rpmRowPackage (u (length pkgs)) r]"
proof -
  have "SplitByte (Join (rpm_fields r) [tabc]) tabc = rpm_fields r"
    using assms by (intro SplitByte_Join) (auto simp: rpm_row_ok_def rpm_fields_def)
  then show ?thesis
    using assms rpmSourceName_file [of r]
    by (auto simp: rpmLine_def rpm_fields_def rpm_row_ok_def rpmRowPackage_def)
qed

lemma foldl_rpmLine:
  "list_all rpm_row_ok rs \<Longrightarrow>
   foldl (rpmLine u) ps (map (\<lambda>r. Join (rpm_fields r) [tabc]) rs) = ps @ numbered u rpmRowPackage (length ps) rs"
  by (induction rs arbitrary: ps) (simp_all add: rpmLine_row)

lemma newline_notin_row: "rpm_row_ok r \<Longrightarrow> CHR 0x0A \<notin> set (Join (rpm_fields r) [tabc])"
  using set_Join [of "rpm_fields r" "[tabc]"] by (auto simp: rpm_row_ok_def list.pred_set tabc_def)

lemma rpm_text_lines:
  "list_all rpm_row_ok rs \<Longrightarrow>
   SplitByte (rpm_text rs) (CHR 0x0A) = map (\<lambda>r. Join (rpm_fields r) [tabc]) rs @ [[]]"
  unfolding rpm_text_def by (rule SplitByte_unlines) (auto simp: list.pred_set newline_notin_row)

lemma parse_rpm_text: "list_all rpm_row_ok rs \<Longrightarrow> parseRPMQuery u (rpm_text rs) = numbered u rpmRowPackage 0 rs"
  by (simp add: parseRPMQuery_def rpm_text_lines foldl_rpmLine) (simp add: rpmLine_def)

section \<open>Properties\<close>



section \<open>Examples and limits\<close>

text \<open>A container whose \<^verbatim>\<open>os-release\<close> is a link to a file of the host.\<close>

definition linkedFs :: filesystem where
  "linkedFs =
     \<lparr>fs_eval = (\<lambda>p. if p = ''/c'' \<or> p = ''/c/var/lib/dpkg/status'' then Some p
                    else if p = ''/c/etc/os-release'' then Some ''/etc/os-release'' else None),
      fs_stat = (\<lambda>r. if r = ''/c/var/lib/dpkg/status'' then Some False else None),
      fs_file = (\<lambda>r. if r = ''/c/var/lib/dpkg/status'' then
                       Some (dpkg_text [[(''Package'', ''bash''), (''Version'', ''5.2'')]])
                     else if r = ''/etc/os-release'' then Some ''ID=ubuntu'' else None),
      fs_list = (\<lambda>_. None)\<rparr>"

definition sampleRpm :: rpmTool where
  "sampleRpm = \<lparr>rt_found = False, rt_abs = (\<lambda>_. None), rt_query = (\<lambda>_. None)\<rparr>"

lemma linkedFs_clean: "eval_clean linkedFs"
  unfolding eval_clean_def
proof (intro allI impI)
  fix p r assume "fs_eval linkedFs p = Some r"
  then have r: "r \<in> set [''/c'', ''/c/var/lib/dpkg/status'', ''/etc/os-release'']"
    by (auto simp: linkedFs_def split: if_splits)
  have "list_all (\<lambda>p. is_rooted p \<and> Clean p = p) [''/c'', ''/c/var/lib/dpkg/status'', ''/etc/os-release'']"
    by code_simp
  then show "is_rooted r \<and> Clean r = r" using r by (simp only: list.pred_set)
qed

definition otherHost :: "string \<Rightarrow> string option" where
  "otherHost r = (if r = ''/etc/os-release'' then Some ''ID=debian'' else fs_file linkedFs r)"


lemma linked_release_ignored:
  "map_sum id sr_OSFamily (ScanRoot linkedFs sampleRpm (\<lambda>_. ''i'') ''/c'') = Inr ''debian''"
  by code_simp

definition sampleRow :: rpmRow where
  "sampleRow = \<lparr>rr_name = ''openssl-libs'', rr_epoch = ''1'', rr_version = ''1.1.1k-14'', rr_arch = ''x86_64'',
     rr_src = ''openssl'', rr_srcver = ''1.1.1k'', rr_srcrel = ''14''\<rparr>"


text \<open>
  The status check takes any status that contains the word: a package whose installation was interrupted is
  reported, although the comment of the reader excludes it.
\<close>

lemma half_installed_reported:
  "dpkgInstalled (stanzaMap [(''Package'', ''x''), (''Version'', ''1''), (''Status'', ''install ok half-installed'')])"
  by code_simp

text \<open>A database that is a link out of the root ends the scan with an error; the other databases are not tried.\<close>

lemma escaping_database_fails:
  assumes "root \<noteq> []" "firstExisting fs root [''var/lib/dpkg/status''] = p" "p \<noteq> []" "withinRoot fs root p = Some e"
  shows "ScanRoot fs rt u root = Inl e"
  using assms by (simp add: ScanRoot_def Let_def parseDpkgStatus_def openWithinRoot_def del: firstExisting.simps)

text \<open>With the relative root \<^verbatim>\<open>.\<close> every file is outside: no cleaned relative path starts with \<^verbatim>\<open>./\<close>.\<close>

lemma dot_root_rejects:
  assumes "fs_eval fs ''.'' = Some ''.''" "fs_eval fs ''var/lib/dpkg/status'' = Some ''var/lib/dpkg/status''"
    "fs_stat fs ''var/lib/dpkg/status'' = Some False"
  shows "ScanRoot fs rt u ''.'' = Inl OutsideRoot"
proof (rule escaping_database_fails)
  have j: "JoinPath [''.'', ''var/lib/dpkg/status''] = ''var/lib/dpkg/status''" by code_simp
  show "firstExisting fs ''.'' [''var/lib/dpkg/status''] = ''var/lib/dpkg/status''"
    using assms by (simp add: Let_def j osStat_def)
  have c: "Clean ''var/lib/dpkg/status'' = ''var/lib/dpkg/status''" "\<not> isHostRoot ''.''" "\<not> HasSuffix ''.'' [slash]"
    by code_simp+
  show "withinRoot fs ''.'' ''var/lib/dpkg/status'' = Some OutsideRoot"
    using assms by (simp add: withinRoot_def c resolvedRoot_def)
qed simp_all

text \<open>An oversized line is skipped over in a dpkg database and fails the scan of an apk database.\<close>

lemma oversized_line:
  assumes "openWithinRoot fs root path = Inr data" "lineTooLong apkLimit data"
  shows "snd (parseApkInstalled fs u root path) = Some TooLong" "snd (parseDpkgStatus fs u root path t) = None"
  using assms by (simp_all add: parseApkInstalled_def parseDpkgStatus_def)

end
