(* ===== verification/Lang_Scan.thy ===== *)
theory Lang_Scan
  imports Os_Scan
begin

text \<open>
  The language scanners of the agent (\<^verbatim>\<open>internal/agent/scanner\<close>: lang.go and runtime.go): the readers of
  manifests and lock files, the detection of language runtimes from their layout on disk, and the bounded walk
  both run over a tree. What \<^verbatim>\<open>encoding/json\<close> decodes is a parameter, the entries of a JSON object in the
  order in which the run of the program iterates over the map.
\<close>

section \<open>Packages of a language (lang.go)\<close>

definition skipDir :: "string \<Rightarrow> bool" where
  "skipDir name \<longleftrightarrow> name \<in> set [''.git'', ''.svn'', ''.hg'', ''.cache'', ''__pycache__'', ''.terraform'', ''.gradle'', ''.m2'']"

definition systemPseudoDir :: "string \<Rightarrow> bool" where
  "systemPseudoDir name \<longleftrightarrow> name \<in> set [''proc'', ''sys'', ''dev'', ''run'']"

definition newLangPkg :: "string \<Rightarrow> string \<Rightarrow> string \<Rightarrow> string \<Rightarrow> string \<Rightarrow> Package" where
  "newLangPkg ident name version pkgType path =
     (let name = TrimSpace name; version = TrimSpace version in
      if name = [] \<or> version = [] then emptyPackage
      else emptyPackage
        \<lparr>P_ID := ident, P_Name := name, P_Version := version, P_PkgType := pkgType,
         P_Ecosystem := ecosystemForType pkgType, P_PURL := purlForPackage pkgType name version [],
         P_FilePath := path, P_Source := ''native-lang''\<rparr>)"

text \<open>\<^verbatim>\<open>if p := newLangPkg(...); p.Name != "" { out = append(out, p) }\<close>\<close>

definition addLang :: "idstream \<Rightarrow> string \<Rightarrow> string \<Rightarrow> string \<Rightarrow> string \<Rightarrow> Package list \<Rightarrow> Package list" where
  "addLang u name version pkgType path out =
     (let p = newLangPkg (u (length out)) name version pkgType path in if P_Name p \<noteq> [] then out @ [p] else out)"

record jsonDecoder =
  jd_package :: "string \<Rightarrow> (string \<times> string) option"
  jd_lock :: "string \<Rightarrow> ((string \<times> string) list \<times> (string \<times> string) list) option"

definition parsePackageJSON :: "filesystem \<Rightarrow> jsonDecoder \<Rightarrow> idstream \<Rightarrow> string \<Rightarrow> string \<Rightarrow> Package list" where
  "parsePackageJSON fs jd u root path =
     (case readFileWithinRoot fs root path of
        Inl _ \<Rightarrow> []
      | Inr data \<Rightarrow>
          (case jd_package jd data of
             None \<Rightarrow> []
           | Some (name, version) \<Rightarrow>
               if name = [] \<or> version = [] then [] else addLang u name version ''npm'' path []))"

definition lockName :: "string \<Rightarrow> string" where
  "lockName k = (let i = LastIndex k ''node_modules/'' in if i \<ge> 0 then from_ix k (i + 13) else k)"

definition parseNpmLock :: "filesystem \<Rightarrow> jsonDecoder \<Rightarrow> idstream \<Rightarrow> string \<Rightarrow> string \<Rightarrow> Package list" where
  "parseNpmLock fs jd u root path =
     (case readFileWithinRoot fs root path of
        Inl _ \<Rightarrow> []
      | Inr data \<Rightarrow>
          (case jd_lock jd data of
             None \<Rightarrow> []
           | Some (packages, deps) \<Rightarrow>
               let out = foldl (\<lambda>out (k, v). if lockName k = [] \<or> v = [] then out
                                            else addLang u (lockName k) v ''npm'' path out) [] packages
               in foldl (\<lambda>out (name, v). addLang u name v ''npm'' path out) out deps))"

definition requirementLine :: "idstream \<Rightarrow> string \<Rightarrow> Package list \<Rightarrow> string \<Rightarrow> Package list" where
  "requirementLine u path out raw =
     (let line = TrimSpace raw in
      if line = [] \<or> HasPrefix line ''#'' \<or> HasPrefix line ''-'' then out
      else
        (let i = Index line ''=='' in
         if i > 0 then
           (let name = TrimSpace (upto_ix line i); rest = TrimSpace (from_ix line (i + 2));
                j = IndexAny rest '' ;#''; rest = (if j \<ge> 0 then upto_ix rest j else rest)
            in addLang u name rest ''pypi'' path out)
         else out))"

definition parseRequirementsTxt :: "filesystem \<Rightarrow> idstream \<Rightarrow> string \<Rightarrow> string \<Rightarrow> Package list" where
  "parseRequirementsTxt fs u root path =
     (case openWithinRoot fs root path of
        Inl _ \<Rightarrow> []
      | Inr data \<Rightarrow> foldl (requirementLine u path) [] (scanLines MaxScanTokenSize data))"

fun distInfoLoop :: "string list \<Rightarrow> string \<Rightarrow> string \<Rightarrow> string \<times> string" where
  "distInfoLoop [] name version = (name, version)"
| "distInfoLoop (line # ls) name version =
     (if line = [] then (name, version)
      else if HasPrefix line ''Name:'' then distInfoLoop ls (TrimSpace (TrimPrefix line ''Name:'')) version
      else if HasPrefix line ''Version:'' then distInfoLoop ls name (TrimSpace (TrimPrefix line ''Version:''))
      else distInfoLoop ls name version)"

definition parsePythonDistInfo :: "filesystem \<Rightarrow> idstream \<Rightarrow> string \<Rightarrow> string \<Rightarrow> Package list" where
  "parsePythonDistInfo fs u root path =
     (case openWithinRoot fs root path of
        Inl _ \<Rightarrow> []
      | Inr data \<Rightarrow>
          (case distInfoLoop (scanLines MaxScanTokenSize data) [] [] of
             (name, version) \<Rightarrow> addLang u name version ''pypi'' path []))"

fun goModLoop :: "idstream \<Rightarrow> string \<Rightarrow> string list \<Rightarrow> bool \<Rightarrow> Package list \<Rightarrow> Package list" where
  "goModLoop u path [] inRequire out = out"
| "goModLoop u path (raw # ls) inRequire out =
     (let line = TrimSpace raw; flds = Fields line in
      if HasPrefix line ''require ('' then goModLoop u path ls True out
      else if inRequire \<and> line = '')'' then goModLoop u path ls False out
      else if inRequire \<and> length flds \<ge> 2 then
        goModLoop u path ls inRequire (addLang u (flds ! 0) (TrimPrefix (flds ! 1) ''v'') ''go'' path out)
      else if HasPrefix line ''require '' \<and> length flds \<ge> 3 then
        goModLoop u path ls inRequire (addLang u (flds ! 1) (TrimPrefix (flds ! 2) ''v'') ''go'' path out)
      else goModLoop u path ls inRequire out)"

definition parseGoMod :: "filesystem \<Rightarrow> idstream \<Rightarrow> string \<Rightarrow> string \<Rightarrow> Package list" where
  "parseGoMod fs u root path =
     (case openWithinRoot fs root path of
        Inl _ \<Rightarrow> []
      | Inr data \<Rightarrow> goModLoop u path (scanLines MaxScanTokenSize data) False [])"

abbreviation dquote :: string where "dquote \<equiv> [CHR 0x22]"

fun cargoLoop :: "idstream \<Rightarrow> string \<Rightarrow> string list \<Rightarrow> string \<Rightarrow> Package list \<Rightarrow> Package list" where
  "cargoLoop u path [] name out = out"
| "cargoLoop u path (raw # ls) name out =
     (let line = TrimSpace raw in
      if line = ''[[package]]'' then cargoLoop u path ls [] out
      else if HasPrefix line ''name = '' then cargoLoop u path ls (Trim (TrimPrefix line ''name = '') dquote) out
      else if HasPrefix line ''version = '' \<and> name \<noteq> [] then
        cargoLoop u path ls [] (addLang u name (Trim (TrimPrefix line ''version = '') dquote) ''cargo'' path out)
      else cargoLoop u path ls name out)"

definition parseCargoLock :: "filesystem \<Rightarrow> idstream \<Rightarrow> string \<Rightarrow> string \<Rightarrow> Package list" where
  "parseCargoLock fs u root path =
     (case openWithinRoot fs root path of
        Inl _ \<Rightarrow> []
      | Inr data \<Rightarrow> cargoLoop u path (scanLines MaxScanTokenSize data) [] [])"

fun gemLoop :: "idstream \<Rightarrow> string \<Rightarrow> string list \<Rightarrow> bool \<Rightarrow> Package list \<Rightarrow> Package list" where
  "gemLoop u path [] inSpecs out = out"
| "gemLoop u path (raw # ls) inSpecs out =
     (let trimmed = TrimSpace raw in
      if trimmed = ''specs:'' then gemLoop u path ls True out
      else if inSpecs then
        (if \<not> HasPrefix raw ''    '' \<or> HasPrefix raw ''      '' then
           gemLoop u path ls (if trimmed = [] \<or> \<not> HasPrefix raw '' '' then False else inSpecs) out
         else
           (let op = Index trimmed '' (''; closeP = LastIndex trimmed '')'' in
            if op > 0 \<and> closeP > op then
              gemLoop u path ls inSpecs
                (addLang u (upto_ix trimmed op) (take (nat (closeP - (op + 2))) (from_ix trimmed (op + 2))) ''gem''
                  path out)
            else gemLoop u path ls inSpecs out))
      else gemLoop u path ls inSpecs out)"

definition parseGemfileLock :: "filesystem \<Rightarrow> idstream \<Rightarrow> string \<Rightarrow> string \<Rightarrow> Package list" where
  "parseGemfileLock fs u root path =
     (case openWithinRoot fs root path of
        Inl _ \<Rightarrow> []
      | Inr data \<Rightarrow> gemLoop u path (scanLines MaxScanTokenSize data) False [])"

definition parseManifest ::
  "filesystem \<Rightarrow> jsonDecoder \<Rightarrow> idstream \<Rightarrow> string \<Rightarrow> string \<Rightarrow> string \<Rightarrow> Package list" where
  "parseManifest fs jd u root path name =
     (if name = ''package-lock.json'' then parseNpmLock fs jd u root path
      else if name = ''package.json'' then parsePackageJSON fs jd u root path
      else if name = ''requirements.txt'' then parseRequirementsTxt fs u root path
      else if name = ''go.mod'' then parseGoMod fs u root path
      else if name = ''Cargo.lock'' then parseCargoLock fs u root path
      else if name = ''Gemfile.lock'' then parseGemfileLock fs u root path
      else if name = ''METADATA'' \<and> Contains path ''.dist-info'' then parsePythonDistInfo fs u root path
      else [])"

text \<open>Dropping all but the first package of each key, as both scanners end.\<close>

fun dedupeLoop :: "(Package \<Rightarrow> string) \<Rightarrow> Package list \<Rightarrow> string list \<Rightarrow> Package list" where
  "dedupeLoop key [] seen = []"
| "dedupeLoop key (p # ps) seen =
     (if key p \<in> set seen then dedupeLoop key ps seen else p # dedupeLoop key ps (key p # seen))"

definition langKey :: "Package \<Rightarrow> string" where
  "langKey p = P_Ecosystem p @ nul @ ToLower (P_Name p) @ nul @ P_Version p"

definition dedupeLangPackages :: "Package list \<Rightarrow> Package list" where
  "dedupeLangPackages pkgs = dedupeLoop langKey pkgs []"

section \<open>The walk\<close>

text \<open>
  What \<^verbatim>\<open>filepath.WalkDir\<close> meets below the root: a directory with its entries in order, \<open>None\<close> when it cannot
  be listed, or anything else (symbolic links are not followed).
\<close>

datatype dirTree =
    DirNode (treeName: string) "dirTree list option"
  | FileNode (treeName: string)

type_synonym visitor = "idstream \<Rightarrow> string \<Rightarrow> string \<Rightarrow> Package list"

definition dirPruned :: "int \<Rightarrow> int \<Rightarrow> string \<Rightarrow> string \<Rightarrow> bool" where
  "dirPruned maxDepth rootDepth path name =
     (let depth = Count (Clean path) slash - rootDepth in
      depth = 1 \<and> systemPseudoDir name \<or> skipDir name \<or> depth > maxDepth)"

text \<open>\<^verbatim>\<open>walkFn\<close> under \<^verbatim>\<open>WalkDir\<close>: a pruned or unreadable directory is skipped, a file is inspected.\<close>

fun walkTree :: "visitor \<Rightarrow> idstream \<Rightarrow> int \<Rightarrow> int \<Rightarrow> string \<Rightarrow> dirTree \<Rightarrow> Package list \<Rightarrow> Package list"
  and walkTrees :: "visitor \<Rightarrow> idstream \<Rightarrow> int \<Rightarrow> int \<Rightarrow> string \<Rightarrow> dirTree list \<Rightarrow> Package list \<Rightarrow> Package list" where
  "walkTree v u md rd path (FileNode name) pkgs = pkgs @ v (\<lambda>k. u (length pkgs + k)) path name"
| "walkTree v u md rd path (DirNode name None) pkgs = pkgs"
| "walkTree v u md rd path (DirNode name (Some es)) pkgs =
     (if dirPruned md rd path name then pkgs else walkTrees v u md rd path es pkgs)"
| "walkTrees v u md rd path [] pkgs = pkgs"
| "walkTrees v u md rd path (e # es) pkgs =
     walkTrees v u md rd path es (walkTree v u md rd (JoinPath [path, treeName e]) e pkgs)"

definition walkRoot :: "visitor \<Rightarrow> idstream \<Rightarrow> string \<Rightarrow> int \<Rightarrow> dirTree option \<Rightarrow> Package list" where
  "walkRoot v u root maxDepth tree =
     (case tree of
        None \<Rightarrow> []
      | Some t \<Rightarrow> walkTree v u maxDepth (Count (Clean root) slash) root t [])"

text \<open>\<open>tree\<close> gives what lies at a root, \<open>None\<close> when it cannot be examined.\<close>

definition ScanLanguagePackages ::
  "filesystem \<Rightarrow> jsonDecoder \<Rightarrow> (string \<Rightarrow> dirTree option) \<Rightarrow> idstream \<Rightarrow> string \<Rightarrow> int \<Rightarrow> Package list" where
  "ScanLanguagePackages fs jd tree u root maxDepth =
     (let root = (if root = [] then [slash] else root); maxDepth = (if maxDepth \<le> 0 then 12 else maxDepth) in
      dedupeLangPackages (walkRoot (\<lambda>u path name. parseManifest fs jd u root path name) u root maxDepth (tree root)))"

section \<open>What the walk reaches\<close>

text \<open>
  All files of a tree that can be listed, each with the names of the directories above it, the root's own
  name first; and the directories that do not stop the walk. Below \<^verbatim>\<open>/\<close> the depth the program computes is one
  less than the number of directories, because \<^verbatim>\<open>/\<close> itself counts as one separator.
\<close>

fun allFiles :: "dirTree \<Rightarrow> (string list \<times> string) list" where
  "allFiles (FileNode n) = [([], n)]"
| "allFiles (DirNode n None) = []"
| "allFiles (DirNode n (Some es)) = map (\<lambda>(ds, m). (n # ds, m)) (concat (map allFiles es))"

fun names_ok :: "dirTree \<Rightarrow> bool" where
  "names_ok (FileNode n) = True"
| "names_ok (DirNode n None) = True"
| "names_ok (DirNode n (Some es)) = (\<forall>e \<in> set es. name_ok (treeName e) \<and> names_ok e)"

definition depthAt :: "string list \<Rightarrow> nat \<Rightarrow> int" where
  "depthAt rn i = (if rn = [] then max 1 (int i) - 1 else int i)"

definition dirOpen :: "string list \<Rightarrow> int \<Rightarrow> nat \<Rightarrow> string \<Rightarrow> bool" where
  "dirOpen rn md i d \<longleftrightarrow>
     \<not> skipDir d \<and> depthAt rn i \<le> md \<and> \<not> (depthAt rn i = 1 \<and> systemPseudoDir d)"

fun dirsOpen :: "string list \<Rightarrow> int \<Rightarrow> nat \<Rightarrow> string list \<Rightarrow> bool" where
  "dirsOpen rn md i [] \<longleftrightarrow> True"
| "dirsOpen rn md i (d # ds) \<longleftrightarrow> dirOpen rn md i d \<and> dirsOpen rn md (Suc i) ds"

text \<open>The path of a file from the elements \<open>rn\<close> of the root.\<close>

definition pathOf :: "string list \<Rightarrow> string list \<Rightarrow> string \<Rightarrow> string" where
  "pathOf rn ds n = rootedPath (rn @ tl (ds @ [n]))"

definition reached :: "string list \<Rightarrow> int \<Rightarrow> dirTree \<Rightarrow> (string \<times> string) list" where
  "reached rn md t = map (\<lambda>(ds, n). (pathOf rn ds n, n)) (filter (\<lambda>(ds, n). dirsOpen rn md 0 ds) (allFiles t))"

definition collect :: "visitor \<Rightarrow> idstream \<Rightarrow> Package list \<Rightarrow> (string \<times> string) list \<Rightarrow> Package list" where
  "collect v u acc files = foldl (\<lambda>acc (p, n). acc @ v (\<lambda>k. u (length acc + k)) p n) acc files"

lemma collect_simps [simp]:
  "collect v u acc [] = acc"
  "collect v u acc ((p, n) # fs) = collect v u (acc @ v (\<lambda>k. u (length acc + k)) p n) fs"
  "collect v u acc (xs @ ys) = collect v u (collect v u acc xs) ys"
  by (simp_all add: collect_def)

text \<open>The files below a directory that the walk has entered with the names \<open>ds\<close>.\<close>

definition below :: "string list \<Rightarrow> int \<Rightarrow> string list \<Rightarrow> dirTree \<Rightarrow> (string \<times> string) list" where
  "below rn md ds0 t =
     map (\<lambda>(ds, n). (pathOf rn (ds0 @ ds) n, n)) (filter (\<lambda>(ds, n). dirsOpen rn md (length ds0) ds) (allFiles t))"

lemma below_DirNode:
  "below rn md ds0 (DirNode n (Some es))
     = (if dirOpen rn md (length ds0) n then concat (map (below rn md (ds0 @ [n])) es) else [])"
proof -
  have "map (\<lambda>(ds, n). (pathOf rn (ds0 @ ds) n, n))
         (filter (\<lambda>(ds, n). dirsOpen rn md (length ds0) ds) (map (\<lambda>(ds, m). (n # ds, m)) xs))
      = (if dirOpen rn md (length ds0) n
         then map (\<lambda>(ds, m). (pathOf rn ((ds0 @ [n]) @ ds) m, m))
                (filter (\<lambda>(ds, m). dirsOpen rn md (length (ds0 @ [n])) ds) xs)
         else [])" for xs
    by (induction xs) auto
  moreover have "map f (filter P (concat (map allFiles es))) = concat (map (\<lambda>t. map f (filter P (allFiles t))) es)" for f :: "string list \<times> string \<Rightarrow> string \<times> string" and P
    by (induction es) simp_all
  ultimately show ?thesis by (simp only: below_def [abs_def] allFiles.simps)
qed

lemma dirPruned_path:
  assumes "list_all name_ok rn" "list_all name_ok (tl (ds @ [n]))"
  shows "dirPruned md (Count (rootedPath rn) slash) (pathOf rn ds n) n \<longleftrightarrow> \<not> dirOpen rn md (length ds) n"
proof -
  have "list_all name_ok (rn @ tl (ds @ [n]))" using assms by simp
  moreover have "length (tl (ds @ [n])) = length ds" by (cases ds) auto
  ultimately have "Count (Clean (pathOf rn ds n)) slash - Count (rootedPath rn) slash = depthAt rn (length ds)"
    using assms(1) by (simp add: pathOf_def Count_rootedPath depthAt_def) (cases rn; simp)
  then show ?thesis by (auto simp: dirPruned_def dirOpen_def Let_def)
qed

lemma walk_below:
  "list_all name_ok rn \<Longrightarrow> list_all name_ok (tl (ds @ [treeName t])) \<Longrightarrow> names_ok t \<Longrightarrow>
   path = pathOf rn ds (treeName t) \<Longrightarrow> rd = Count (rootedPath rn) slash \<Longrightarrow>
   walkTree v u md rd path t acc = collect v u acc (below rn md ds t)"
  "list_all name_ok rn \<Longrightarrow> list_all name_ok (tl (ds @ [n])) \<Longrightarrow>
   \<forall>e \<in> set es. name_ok (treeName e) \<and> names_ok e \<Longrightarrow>
   path = pathOf rn ds n \<Longrightarrow> rd = Count (rootedPath rn) slash \<Longrightarrow>
   walkTrees v u md rd path es acc = collect v u acc (concat (map (below rn md (ds @ [n])) es))"
proof (induction v u md rd path t acc and v u md rd path es acc arbitrary: ds and ds n rule: walkTree_walkTrees.induct)
  case (3 v u md rd path name es acc)
  then show ?case
    using dirPruned_path [of rn ds name md] by (auto simp: below_DirNode)
next
  case (5 v u md rd path e es acc)
  have tl: "tl ((ds @ [n]) @ [treeName e]) = tl (ds @ [n]) @ [treeName e]" by (cases ds) auto
  have ok: "list_all name_ok (tl ((ds @ [n]) @ [treeName e]))" using 5(4,5) by (simp only: tl) simp
  have p: "JoinPath [path, treeName e] = pathOf rn (ds @ [n]) (treeName e)"
    using "5.prems" JoinPath_rootedPath [of "rn @ tl (ds @ [n])" "treeName e"] by (simp only: pathOf_def tl) simp
  have "walkTree v u md rd (JoinPath [path, treeName e]) e acc = collect v u acc (below rn md (ds @ [n]) e)"
    using "5.prems" ok p by (intro "5.IH"(1)) auto
  then show ?case using "5.IH"(2) [of ds n] "5.prems" by simp
qed (simp_all add: below_def)

lemma walkRoot_reached:
  assumes "is_rooted root" "Clean root = root" "names_ok t"
  shows "walkRoot v u root md (Some t) = collect v u [] (reached (cleanElems root) md t)"
proof -
  have r: "root = rootedPath (cleanElems root)" using assms by (intro rootedPath_cleanElems)
  have "walkTree v u md (Count (Clean root) slash) root t [] = collect v u [] (below (cleanElems root) md [] t)"
    using assms r name_ok_cleanElems [OF assms(1)] by (intro walk_below(1)) (auto simp: pathOf_def)
  then show ?thesis by (simp add: walkRoot_def reached_def below_def)
qed

section \<open>No package twice\<close>

lemma dedupeLoop_keys:
  "distinct (map key (dedupeLoop key ps seen)) \<and>
   set (map key (dedupeLoop key ps seen)) = set (map key ps) - set seen \<and>
   set (dedupeLoop key ps seen) \<subseteq> set ps"
  by (induction key ps seen rule: dedupeLoop.induct) auto

lemma dedupeLoop_id: "distinct (map key ps) \<Longrightarrow> set (map key ps) \<inter> set seen = {} \<Longrightarrow> dedupeLoop key ps seen = ps"
  by (induction key ps seen rule: dedupeLoop.induct) auto

text \<open>
  In a \<^verbatim>\<open>require\<close> block every line of two words is a module: a comment becomes a package named \<^verbatim>\<open>//\<close>.
\<close>

lemma gomod_comment_is_package:
  "map (\<lambda>p. (P_Name p, P_Version p))
     (goModLoop u path [''require ('', ''  // direct dependencies'', ''  golang.org/x/net v0.1.0'', '')''] False [])
   = [(''//'', ''direct''), (''golang.org/x/net'', ''0.1.0'')]"
  by code_simp

text \<open>A line of 64 KiB or more ends the reading of a manifest: the pins after it are lost without an error.\<close>

lemma long_line_ends_requirements:
  assumes "openWithinRoot fs root path = Inr data" "rawLines data = xs @ l # ys" "MaxScanTokenSize \<le> int (length l)"
  shows "parseRequirementsTxt fs u root path = foldl (requirementLine u path) [] (takeLines MaxScanTokenSize xs)"
proof -
  have "takeLines MaxScanTokenSize (xs @ l # ys) = takeLines MaxScanTokenSize xs"
    using assms(3) by (induction xs) auto
  then show ?thesis using assms by (simp add: parseRequirementsTxt_def scanLines_def)
qed

text \<open>
  With the root \<^verbatim>\<open>/\<close> the pseudo file systems are entered, and a directory named like one of them is pruned a
  level below, as \<^verbatim>\<open>/home/dev\<close> is.
\<close>

lemma host_root_pruning: "1 \<le> md \<Longrightarrow> dirsOpen [] md 0 [''/'', ''proc'']" "\<not> dirsOpen [] md 0 [''/'', ''home'', ''dev'']"
  by (simp_all add: dirOpen_def depthAt_def skipDir_def systemPseudoDir_def)

lemma container_root_pruning:
  "rn \<noteq> [] \<Longrightarrow> \<not> dirsOpen rn md 0 [r, ''proc'']"
  "rn \<noteq> [] \<Longrightarrow> 2 \<le> md \<Longrightarrow> dirsOpen rn md 0 [''rootfs'', ''home'', ''dev'']"
  by (simp_all add: dirOpen_def depthAt_def skipDir_def systemPseudoDir_def)

end
