(* ===== verification/Runtime_Scan.thy ===== *)
theory Runtime_Scan
  imports Lang_Scan
begin

text \<open>
  The detection of language runtimes (\<^verbatim>\<open>internal/agent/scanner/runtime.go\<close>): the version an interpreter is
  reported with is read off the layout and the release files next to it. The four regular expressions of the
  file are written as functions; a leftmost match with \<^verbatim>\<open>\d+\<close> is the longest run of digits, because what may
  follow it is never a digit.
\<close>

section \<open>Versions in a string\<close>

definition is_word :: "char \<Rightarrow> bool" where
  "is_word c \<longleftrightarrow> isAlnum c \<or> c = CHR ''_''"

definition dotted :: "string \<Rightarrow> (string \<times> string) option" where
  "dotted s =
     (case s of
        [] \<Rightarrow> None
      | c # t \<Rightarrow>
          if c = CHR ''.'' \<and> takeWhile isDigit t \<noteq> [] then Some (c # takeWhile isDigit t, dropWhile isDigit t) else None)"

text \<open>\<^verbatim>\<open>\b(\d+\.\d+(?:\.\d+)?)\b\<close> at a position where a word starts.\<close>

definition ends_word :: "string \<Rightarrow> bool" where
  "ends_word s \<longleftrightarrow> s = [] \<or> \<not> is_word (hd s)"

definition semverAt :: "string \<Rightarrow> string option" where
  "semverAt s =
     (let major = takeWhile isDigit s in
      if major = [] then None
      else
        (case dotted (dropWhile isDigit s) of
           None \<Rightarrow> None
         | Some (minor, r) \<Rightarrow>
             (case dotted r of
                Some (patch, r') \<Rightarrow>
                  if ends_word r' then Some (major @ minor @ patch)
                  else if ends_word r then Some (major @ minor) else None
              | None \<Rightarrow> if ends_word r then Some (major @ minor) else None)))"

fun semverFrom :: "bool \<Rightarrow> string \<Rightarrow> string" where
  "semverFrom inWord [] = []"
| "semverFrom inWord (c # s) =
     (case if inWord then None else semverAt (c # s) of
        Some m \<Rightarrow> m
      | None \<Rightarrow> semverFrom (is_word c) s)"

definition semverFind :: "string \<Rightarrow> string" where
  "semverFind s = semverFrom False s"

text \<open>\<^verbatim>\<open>^python(\d+\.\d+)$\<close> and \<^verbatim>\<open>^python(\d+(?:\.\d+)?)?$\<close>.\<close>

definition digits_only :: "string \<Rightarrow> bool" where
  "digits_only s \<longleftrightarrow> s \<noteq> [] \<and> list_all isDigit s"

definition pyMinor :: "string \<Rightarrow> string option" where
  "pyMinor name =
     (if HasPrefix name ''python'' then
        (let v = TrimPrefix name ''python'' in
         case CutByte v (CHR ''.'') of
           (x, y, found) \<Rightarrow> if found \<and> digits_only x \<and> digits_only y then Some v else None)
      else None)"

definition isPythonBinary :: "string \<Rightarrow> bool" where
  "isPythonBinary name \<longleftrightarrow>
     HasPrefix name ''python'' \<and>
     (let v = TrimPrefix name ''python'' in v = [] \<or> digits_only v \<or> pyMinor name \<noteq> None)"

text \<open>\<^verbatim>\<open>node-v(\d+\.\d+\.\d+)\<close> anywhere.\<close>

definition tripleAt :: "string \<Rightarrow> string option" where
  "tripleAt s =
     (let major = takeWhile isDigit s in
      if major = [] then None
      else
        (case dotted (dropWhile isDigit s) of
           None \<Rightarrow> None
         | Some (minor, r) \<Rightarrow> (case dotted r of None \<Rightarrow> None | Some (patch, _) \<Rightarrow> Some (major @ minor @ patch))))"

fun nodeTarball :: "string \<Rightarrow> string option" where
  "nodeTarball [] = None"
| "nodeTarball (c # s) =
     (if HasPrefix (c # s) ''node-v'' \<and> tripleAt (drop 6 (c # s)) \<noteq> None then tripleAt (drop 6 (c # s))
      else nodeTarball s)"

section \<open>The detectors\<close>

definition runtimePkg :: "string \<Rightarrow> string \<Rightarrow> string \<Rightarrow> string \<Rightarrow> string \<Rightarrow> Package list" where
  "runtimePkg ident name version ecosystem path =
     (let name = TrimSpace name; version = TrimSpace version in
      if name = [] \<or> version = [] then []
      else [emptyPackage\<lparr>P_ID := ident, P_Name := name, P_Version := version, P_PkgType := ''runtime'',
              P_Ecosystem := ecosystem, P_PURL := ''pkg:generic/'' @ name @ ''@'' @ version,
              P_FilePath := path, P_Source := ''native-runtime''\<rparr>])"

definition readSemver :: "filesystem \<Rightarrow> string \<Rightarrow> string \<Rightarrow> string" where
  "readSemver fs root cand =
     (case readFileWithinRoot fs root cand of Inl _ \<Rightarrow> [] | Inr data \<Rightarrow> semverFind data)"

text \<open>The first of several answers that is not empty.\<close>

fun firstFound :: "string list \<Rightarrow> string" where
  "firstFound [] = []"
| "firstFound (x # xs) = (if x \<noteq> [] then x else firstFound xs)"

definition pythonLibMinor :: "filesystem \<Rightarrow> string \<Rightarrow> string" where
  "pythonLibMinor fs libDir =
     (case osReadDir fs libDir of
        None \<Rightarrow> []
      | Some es \<Rightarrow>
          (case filter (\<lambda>(name, isDir). isDir \<and> pyMinor name \<noteq> None) es of
             [] \<Rightarrow> []
           | (name, _) # _ \<Rightarrow> the (pyMinor name)))"

definition detectPythonVersion :: "filesystem \<Rightarrow> string \<Rightarrow> string \<Rightarrow> string" where
  "detectPythonVersion fs root prefix =
     (let bs = Base prefix; m = semverFind bs in
      if Base (Dir prefix) = ''versions'' \<and> m \<noteq> [] then m
      else if m \<noteq> [] \<and> Count m (CHR ''.'') = 2 then m
      else
        (let v = pythonLibMinor fs (JoinPath [prefix, ''lib'']) in
         if v \<noteq> [] then v
         else firstFound (map (readSemver fs root) [JoinPath [prefix, ''python_version''], JoinPath [prefix, ''version'']])))"

definition readNodeVersion :: "filesystem \<Rightarrow> string \<Rightarrow> string \<Rightarrow> string" where
  "readNodeVersion fs root cand =
     (case readFileWithinRoot fs root cand of
        Inl _ \<Rightarrow> []
      | Inr data \<Rightarrow> semverFind (TrimPrefix (TrimSpace data) ''v''))"

definition detectNodeVersion :: "filesystem \<Rightarrow> string \<Rightarrow> string \<Rightarrow> string \<Rightarrow> string" where
  "detectNodeVersion fs root binPath prefix =
     (case nodeTarball binPath of
        Some m \<Rightarrow> m
      | None \<Rightarrow>
          (let v = firstFound (map (readNodeVersion fs root) [JoinPath [prefix, ''node_version''], JoinPath [prefix, ''VERSION'']])
           in if v \<noteq> [] then v
              else if osStat fs (JoinPath [prefix, ''lib'', ''node_modules'', ''npm'', ''package.json'']) \<noteq> None then
                (case nodeTarball prefix of Some m \<Rightarrow> m | None \<Rightarrow> [])
              else []))"

definition releaseValue :: "string \<Rightarrow> string \<Rightarrow> string option" where
  "releaseValue line k =
     (if HasPrefix line (k @ ''='') then Some (TrimSpace (Trim (TrimPrefix line (k @ ''='')) dquote)) else None)"

fun releaseLoop :: "string list \<Rightarrow> string \<Rightarrow> string \<Rightarrow> string \<times> string" where
  "releaseLoop [] version implementor = (version, implementor)"
| "releaseLoop (raw # ls) version implementor =
     (case releaseValue (TrimSpace raw) ''JAVA_VERSION'' of
        Some v \<Rightarrow> releaseLoop ls v implementor
      | None \<Rightarrow>
          (case releaseValue (TrimSpace raw) ''IMPLEMENTOR'' of
             Some v \<Rightarrow> releaseLoop ls version v
           | None \<Rightarrow> releaseLoop ls version implementor))"

definition javaName :: "string \<Rightarrow> string" where
  "javaName implementor =
     (let impl = ToLower implementor in
      if Contains impl ''oracle'' then ''jdk''
      else if Contains impl ''adoptium'' \<or> Contains impl ''temurin'' \<or> Contains impl ''eclipse'' then ''openjdk''
      else ''openjdk'')"

definition detectJavaVersion :: "filesystem \<Rightarrow> string \<Rightarrow> string \<Rightarrow> string \<times> string" where
  "detectJavaVersion fs root prefix =
     (case readFileWithinRoot fs root (JoinPath [prefix, ''release'']) of
        Inl _ \<Rightarrow> ([], [])
      | Inr data \<Rightarrow>
          (case releaseLoop (SplitByte data (CHR 0x0A)) [] [] of
             (version, implementor) \<Rightarrow>
               if version = [] then ([], [])
               else (javaName implementor, if semverFind version \<noteq> [] then semverFind version else version)))"

definition detectRubyVersion :: "filesystem \<Rightarrow> string \<Rightarrow> string" where
  "detectRubyVersion fs prefix =
     (case osReadDir fs (JoinPath [prefix, ''lib'', ''ruby'']) of
        None \<Rightarrow> []
      | Some es \<Rightarrow>
          (case filter (\<lambda>(name, isDir). isDir \<and> semverFind name \<noteq> [] \<and> Count (semverFind name) (CHR ''.'') = 2) es of
             [] \<Rightarrow> []
           | (name, _) # _ \<Rightarrow> semverFind name))"

definition detectPHPVersion :: "filesystem \<Rightarrow> string \<Rightarrow> string \<Rightarrow> string" where
  "detectPHPVersion fs root prefix =
     firstFound (map (readSemver fs root) [JoinPath [prefix, ''php_version''], JoinPath [prefix, ''VERSION'']])"

definition goSDKVersion :: "filesystem \<Rightarrow> string \<Rightarrow> string \<Rightarrow> string" where
  "goSDKVersion fs root path =
     (case readFileWithinRoot fs root path of
        Inl _ \<Rightarrow> []
      | Inr data \<Rightarrow>
          (let fst_line = TrimSpace (takeWhile (\<lambda>c. c \<noteq> CHR 0x0A) data) in
           if HasPrefix fst_line ''go'' \<and> semverFind fst_line \<noteq> [] then fst_line else []))"

definition detectRuntime :: "filesystem \<Rightarrow> idstream \<Rightarrow> string \<Rightarrow> string \<Rightarrow> string \<Rightarrow> Package list" where
  "detectRuntime fs u root path name =
     (let dir = Dir path; parent = Dir dir; inBin = (Base dir = ''bin'') in
      if name = ''VERSION'' \<and> goSDKVersion fs root path \<noteq> [] then
        runtimePkg (u 0) ''go'' (goSDKVersion fs root path) ''golang'' path
      else if inBin \<and> isPythonBinary name then
        (let v = detectPythonVersion fs root parent in
         if v \<noteq> [] then runtimePkg (u 0) ''python'' v ''python'' path else [])
      else if inBin \<and> name = ''node'' then
        (let v = detectNodeVersion fs root path parent in
         if v \<noteq> [] then runtimePkg (u 0) ''node.js'' v ''nodejs'' path else [])
      else if inBin \<and> name = ''java'' then
        (case detectJavaVersion fs root parent of
           (vname, v) \<Rightarrow> if v \<noteq> [] then runtimePkg (u 0) vname v ''jdk'' path else [])
      else if inBin \<and> name = ''ruby'' then
        (let v = detectRubyVersion fs parent in if v \<noteq> [] then runtimePkg (u 0) ''ruby'' v ''ruby'' path else [])
      else if inBin \<and> name = ''php'' then
        (let v = detectPHPVersion fs root parent in if v \<noteq> [] then runtimePkg (u 0) ''php'' v ''php'' path else [])
      else [])"

definition runtimeKey :: "Package \<Rightarrow> string" where
  "runtimeKey p = ToLower (P_Name p) @ nul @ P_Version p @ nul @ P_FilePath p"

definition dedupeRuntimes :: "Package list \<Rightarrow> Package list" where
  "dedupeRuntimes pkgs = dedupeLoop runtimeKey pkgs []"

definition ScanRuntimes ::
  "filesystem \<Rightarrow> (string \<Rightarrow> dirTree option) \<Rightarrow> idstream \<Rightarrow> string \<Rightarrow> int \<Rightarrow> Package list" where
  "ScanRuntimes fs tree u root maxDepth =
     (let root = (if root = [] then [slash] else root); maxDepth = (if maxDepth \<le> 0 then 12 else maxDepth) in
      dedupeRuntimes (walkRoot (\<lambda>u path name. detectRuntime fs u root path name) u root maxDepth (tree root)))"

section \<open>Properties\<close>

lemma scan_reached:
  assumes "is_rooted root" "Clean root = root" "tree root = Some t" "names_ok t" "0 < md"
  shows "ScanLanguagePackages fs jd tree u root md = dedupeLangPackages
           (collect (\<lambda>u path name. parseManifest fs jd u root path name) u [] (reached (cleanElems root) md t))"
    and "ScanRuntimes fs tree u root md = dedupeRuntimes
           (collect (\<lambda>u path name. detectRuntime fs u root path name) u [] (reached (cleanElems root) md t))"
proof -
  have "root \<noteq> []" using assms(1) by (auto simp: is_rooted_def)
  then show "ScanLanguagePackages fs jd tree u root md = dedupeLangPackages
      (collect (\<lambda>u path name. parseManifest fs jd u root path name) u [] (reached (cleanElems root) md t))"
    and "ScanRuntimes fs tree u root md = dedupeRuntimes
      (collect (\<lambda>u path name. detectRuntime fs u root path name) u [] (reached (cleanElems root) md t))"
    using assms by (simp_all add: ScanLanguagePackages_def ScanRuntimes_def walkRoot_reached)
qed


definition sampleTree :: "string \<Rightarrow> dirTree option" where
  "sampleTree root =
     Some (DirNode ''/'' (Some [DirNode ''home'' (Some [DirNode ''dev'' (Some [FileNode ''requirements.txt''])]),
                                DirNode ''proc'' (Some [FileNode ''requirements.txt''])]))"

definition pinnedFs :: filesystem where
  "pinnedFs = \<lparr>fs_eval = Some, fs_stat = (\<lambda>_. Some False), fs_file = (\<lambda>r. Some (''flask==3.0 '' @ r)), fs_list = (\<lambda>_. None)\<rparr>"

definition noJson :: jsonDecoder where
  "noJson = \<lparr>jd_package = (\<lambda>_. None), jd_lock = (\<lambda>_. None)\<rparr>"


section \<open>Versions the detectors miss\<close>

text \<open>
  A word boundary is asked for at both ends. The release string of a JDK 8 loses its third number, although
  the comment of the detector gives it as an example; a Go SDK whose version has two numbers is not found,
  and one with three is found by its last two.
\<close>

lemma jdk8_version_is_cut: "semverFind ''1.8.0_392'' = ''1.8''" "semverFind ''21.0.2'' = ''21.0.2''"
  by code_simp+

lemma go_two_numbers_missed:
  assumes "readFileWithinRoot fs root path = Inr ''go1.20''"
  shows "goSDKVersion fs root path = []" "detectRuntime fs u root path ''VERSION'' = []"
proof -
  have "semverFind (TrimSpace (takeWhile (\<lambda>c. c \<noteq> CHR 0x0A) ''go1.20'')) = []" by code_simp
  then show g: "goSDKVersion fs root path = []" by (simp only: goSDKVersion_def assms sum.case Let_def) simp
  have "\<not> isPythonBinary ''VERSION''" by code_simp
  then show "detectRuntime fs u root path ''VERSION'' = []" by (simp add: detectRuntime_def g)
qed

text \<open>
  The key of a runtime holds its path, and a walk meets each path once: the launchers \<^verbatim>\<open>python\<close>, \<^verbatim>\<open>python3\<close> and
  \<^verbatim>\<open>python3.12\<close> of one installation stay three packages.
\<close>

lemma distinct_paths_never_collapse:
  assumes "distinct (map runtimeKey pkgs)"
  shows "dedupeRuntimes pkgs = pkgs"
  using assms by (simp add: dedupeRuntimes_def dedupeLoop_id)

lemma launchers_stay:
  "length (dedupeRuntimes (concat (map (\<lambda>n. runtimePkg ''i'' ''python'' ''3.12.1'' ''python'' (''/opt/3.12.1/bin/'' @ n))
     [''python'', ''python3'', ''python3.12'']))) = 3"
  by code_simp

text \<open>The listings of \<^verbatim>\<open>lib\<close> are read without the check of containment: a link out of the root is followed.\<close>

definition linkedLib :: filesystem where
  "linkedLib =
     \<lparr>fs_eval = (\<lambda>p. if p = ''/c/opt/py/lib'' then Some ''/usr/lib'' else Some p), fs_stat = (\<lambda>_. Some True),
      fs_file = (\<lambda>_. None), fs_list = (\<lambda>r. if r = ''/usr/lib'' then Some [(''python3.11'', True)] else None)\<rparr>"

lemma listing_leaves_the_root:
  "withinRoot linkedLib ''/c'' ''/c/opt/py/lib'' = Some OutsideRoot"
  "map P_Version (detectRuntime linkedLib (\<lambda>_. ''i'') ''/c'' ''/c/opt/py/bin/python3'' ''python3'') = [''3.11'']"
  by code_simp+

end
