(* ===== verification/Trivy_Parse.thy ===== *)
theory Trivy_Parse
  imports Cvematch Os_Scan
begin

text \<open>
  Reading the output of the trivy program (\<^verbatim>\<open>internal/shared/trivyparse/parse.go\<close>): packages get an identifier
  and a URL, and each vulnerability is attributed to a package by target, name and version, then by target and
  name, then by name alone, the last two only when they leave no choice. The decoded document is the input,
  the scores of a vulnerability in the order in which the run iterates over the map; \<open>u k\<close> is the \<open>k\<close>-th
  identifier of \<^verbatim>\<open>uuid.New\<close>.
\<close>

section \<open>The document\<close>

record trivyPkg =
  tp_Name :: string
  tp_Version :: string
  tp_Arch :: string
  tp_SrcName :: string
  tp_FilePath :: string
  tp_Layer :: string

record trivySection =
  ts_Target :: string
  ts_Type :: string
  ts_Packages :: "trivyPkg list"
  ts_Vulnerabilities :: "trivyVuln list"

definition trivyPackageNameKey :: "string \<Rightarrow> string \<Rightarrow> string" where
  "trivyPackageNameKey target name = target @ nul @ name"

definition trivyPackageKey :: "string \<Rightarrow> string \<Rightarrow> string \<Rightarrow> string" where
  "trivyPackageKey target name version = trivyPackageNameKey target name @ nul @ version"

definition trivyEcosystem :: "string \<Rightarrow> string" where
  "trivyEcosystem pkgType =
     (let t = ToLower pkgType in
      if t = ''ubuntu'' then ''Ubuntu''
      else if t \<in> set [''debian'', ''deb''] then ''Debian''
      else if t \<in> set [''alpine'', ''apk''] then ''Alpine''
      else if t \<in> set [''redhat'', ''centos'', ''rocky'', ''alma'', ''amazon'', ''rpm''] then ''RHEL''
      else if t \<in> set [''python-pkg'', ''pip'', ''poetry''] then ''PyPI''
      else if t \<in> set [''node-pkg'', ''npm'', ''yarn'', ''pnpm''] then ''npm''
      else if t \<in> set [''gomod'', ''go'', ''gobinary'', ''golang''] then ''Go''
      else if t \<in> set [''jar'', ''maven''] then ''Maven''
      else if t \<in> set [''cargo'', ''rustbinary''] then ''crates.io''
      else if t = ''composer'' then ''Packagist''
      else if t = ''gem'' then ''RubyGems''
      else if t = ''nuget'' then ''NuGet''
      else [])"

definition trivyPURL :: "string \<Rightarrow> string \<Rightarrow> string \<Rightarrow> string \<Rightarrow> string" where
  "trivyPURL pkgType name version arch =
     (if name = [] \<or> version = [] then []
      else
        (let purlType = purlTypeOf (trivyEcosystem pkgType);
             p = ''pkg:'' @ purlType @ ''/'' @ name @ ''@'' @ version in
         if arch \<noteq> [] \<and> purlType \<in> set [''deb'', ''rpm'', ''apk''] then p @ ''?arch='' @ arch else p))"

section \<open>Packages\<close>

text \<open>The five maps; a Go map reads as the zero value where it has no key.\<close>

record trivyMaps =
  tm_pkg :: "string \<Rightarrow> string"
  tm_targetCount :: "string \<Rightarrow> int"
  tm_targetID :: "string \<Rightarrow> string"
  tm_nameCount :: "string \<Rightarrow> int"
  tm_nameID :: "string \<Rightarrow> string"

definition emptyMaps :: trivyMaps where
  "emptyMaps = \<lparr>tm_pkg = (\<lambda>_. []), tm_targetCount = (\<lambda>_. 0), tm_targetID = (\<lambda>_. []), tm_nameCount = (\<lambda>_. 0),
     tm_nameID = (\<lambda>_. [])\<rparr>"

definition trivyPackage :: "string \<Rightarrow> string \<Rightarrow> string \<Rightarrow> trivySection \<Rightarrow> trivyPkg \<Rightarrow> Package" where
  "trivyPackage ident source container r p = emptyPackage
     \<lparr>P_ID := ident, P_Source := source, P_Container := container, P_Name := tp_Name p, P_Version := tp_Version p,
      P_Arch := tp_Arch p, P_SrcName := tp_SrcName p, P_PkgType := ts_Type r,
      P_Ecosystem := trivyEcosystem (ts_Type r),
      P_PURL := trivyPURL (ts_Type r) (tp_Name p) (tp_Version p) (tp_Arch p), P_FilePath := tp_FilePath p,
      P_LayerID := tp_Layer p, P_Target := ts_Target r\<rparr>"

definition enterPackage :: "string \<Rightarrow> string \<Rightarrow> trivyPkg \<Rightarrow> trivyMaps \<Rightarrow> trivyMaps" where
  "enterPackage ident target p m =
     (let nk = trivyPackageNameKey target (tp_Name p) in
      m\<lparr>tm_pkg := (tm_pkg m)(trivyPackageKey target (tp_Name p) (tp_Version p) := ident),
        tm_targetCount := (tm_targetCount m)(nk := tm_targetCount m nk + 1),
        tm_targetID := (tm_targetID m)(nk := ident),
        tm_nameCount := (tm_nameCount m)(tp_Name p := tm_nameCount m (tp_Name p) + 1),
        tm_nameID := (tm_nameID m)(tp_Name p := ident)\<rparr>)"

fun packageLoop :: "idstream \<Rightarrow> string \<Rightarrow> string \<Rightarrow> trivySection \<Rightarrow> trivyPkg list \<Rightarrow> Package list \<times> trivyMaps
    \<Rightarrow> Package list \<times> trivyMaps" where
  "packageLoop u source container r [] st = st"
| "packageLoop u source container r (p # ps) (pkgs, m) =
     (let pkgID = u (length pkgs) in
      packageLoop u source container r ps
        (pkgs @ [trivyPackage pkgID source container r p], enterPackage pkgID (ts_Target r) p m))"

section \<open>Vulnerabilities\<close>

definition severityOf :: "rat \<Rightarrow> string \<Rightarrow> string" where
  "severityOf score sev =
     (if score \<ge> 9 then ''CRITICAL''
      else if score \<ge> 7 then ''HIGH''
      else if score \<ge> 4 then ''MEDIUM''
      else if score > 0 then ''LOW''
      else sev)"

definition packageIDFor :: "trivyMaps \<Rightarrow> string \<Rightarrow> string \<Rightarrow> string \<Rightarrow> string" where
  "packageIDFor m target name version =
     (let nk = trivyPackageNameKey target name; i = tm_pkg m (trivyPackageKey target name version);
          i = (if i = [] \<and> tm_targetCount m nk = 1 then tm_targetID m nk else i)
      in if i = [] \<and> tm_nameCount m name = 1 then tm_nameID m name else i)"

definition findingOf :: "string \<Rightarrow> string \<Rightarrow> trivyVuln \<Rightarrow> Vulnerability" where
  "findingOf container packageID v =
     (let best = bestCVSS (v_cvss v) (0, []) in
      \<lparr>m_packageID = packageID, m_vulnerabilityID = v_id v,
       m_severity = severityOf (fst best) (v_severity v), m_title = v_title v, m_description = v_description v,
       m_pkgName = v_pkg v, m_pkgPath = v_path v, m_container = container, m_installed = v_installed v,
       m_fixed = v_fixed v, m_score = fst best, m_vector = snd best, m_url = v_url v, m_layer = v_layer v\<rparr>)"

definition trivyVulnerability :: "string \<Rightarrow> trivyMaps \<Rightarrow> string \<Rightarrow> trivyVuln \<Rightarrow> Vulnerability" where
  "trivyVulnerability container m target v =
     findingOf container (packageIDFor m target (v_pkg v) (v_installed v)) v"

text \<open>The maps grow from section to section: a vulnerability sees the packages of its own and earlier sections.\<close>

fun sectionLoop :: "idstream \<Rightarrow> string \<Rightarrow> string \<Rightarrow> trivySection list \<Rightarrow> Package list \<times> trivyMaps \<Rightarrow> Vulnerability list
    \<Rightarrow> Package list \<times> Vulnerability list" where
  "sectionLoop u source container [] (pkgs, m) vulns = (pkgs, vulns)"
| "sectionLoop u source container (r # rs) st vulns =
     (case packageLoop u source container r (ts_Packages r) st of
        (pkgs, m) \<Rightarrow>
          sectionLoop u source container rs (pkgs, m)
            (vulns @ map (trivyVulnerability container m (ts_Target r)) (ts_Vulnerabilities r)))"

definition ExtractPackagesAndVulns ::
  "(string \<Rightarrow> trivySection list option) \<Rightarrow> idstream \<Rightarrow> string \<Rightarrow> string \<Rightarrow> string \<Rightarrow> (Package list \<times> Vulnerability list) option" where
  "ExtractPackagesAndVulns Parse u data source container =
     (case Parse data of
        None \<Rightarrow> None
      | Some results \<Rightarrow> Some (sectionLoop u source container results ([], emptyMaps) []))"

section \<open>Attribution is exact\<close>

text \<open>
  The specification: a vulnerability belongs to the last package with its target, name and version; otherwise
  to the only one with its target and name; otherwise to the only one with its name; otherwise to none.
\<close>

definition exact_pkgs :: "Package list \<Rightarrow> string \<Rightarrow> string \<Rightarrow> string \<Rightarrow> Package list" where
  "exact_pkgs pkgs t n v = filter (\<lambda>p. P_Target p = t \<and> P_Name p = n \<and> P_Version p = v) pkgs"

definition target_pkgs :: "Package list \<Rightarrow> string \<Rightarrow> string \<Rightarrow> Package list" where
  "target_pkgs pkgs t n = filter (\<lambda>p. P_Target p = t \<and> P_Name p = n) pkgs"

definition named_pkgs :: "Package list \<Rightarrow> string \<Rightarrow> Package list" where
  "named_pkgs pkgs n = filter (\<lambda>p. P_Name p = n) pkgs"

definition last_id :: "Package list \<Rightarrow> string" where
  "last_id ps = (if ps = [] then [] else P_ID (last ps))"

definition idSpec :: "Package list \<Rightarrow> string \<Rightarrow> string \<Rightarrow> string \<Rightarrow> string" where
  "idSpec pkgs t n v =
     (if exact_pkgs pkgs t n v \<noteq> [] then last_id (exact_pkgs pkgs t n v)
      else if length (target_pkgs pkgs t n) = 1 then last_id (target_pkgs pkgs t n)
      else if length (named_pkgs pkgs n) = 1 then last_id (named_pkgs pkgs n)
      else [])"

fun findingsSpec :: "idstream \<Rightarrow> string \<Rightarrow> string \<Rightarrow> Package list \<Rightarrow> trivySection list \<Rightarrow> Vulnerability list" where
  "findingsSpec u s c pkgs [] = []"
| "findingsSpec u s c pkgs (r # rs) =
     (let pkgs' = pkgs @ numbered u (\<lambda>i. trivyPackage i s c r) (length pkgs) (ts_Packages r) in
      map (\<lambda>v. findingOf c (idSpec pkgs' (ts_Target r) (v_pkg v) (v_installed v)) v) (ts_Vulnerabilities r)
        @ findingsSpec u s c pkgs' rs)"

text \<open>Names and targets have no zero byte, and identifiers are not empty.\<close>

definition plain :: "string \<Rightarrow> bool" where
  "plain s \<longleftrightarrow> CHR 0x00 \<notin> set s"

definition section_plain :: "trivySection \<Rightarrow> bool" where
  "section_plain r \<longleftrightarrow>
     plain (ts_Target r) \<and> list_all (\<lambda>p. plain (tp_Name p)) (ts_Packages r) \<and>
     list_all (\<lambda>v. plain (v_pkg v)) (ts_Vulnerabilities r)"

definition maps_exact :: "Package list \<Rightarrow> trivyMaps \<Rightarrow> bool" where
  "maps_exact pkgs m \<longleftrightarrow>
     (\<forall>p \<in> set pkgs. P_ID p \<noteq> []) \<and>
     (\<forall>t n. plain t \<longrightarrow> plain n \<longrightarrow>
        (\<forall>v. tm_pkg m (trivyPackageKey t n v) = last_id (exact_pkgs pkgs t n v)) \<and>
        tm_targetCount m (trivyPackageNameKey t n) = int (length (target_pkgs pkgs t n)) \<and>
        tm_targetID m (trivyPackageNameKey t n) = last_id (target_pkgs pkgs t n) \<and>
        tm_nameCount m n = int (length (named_pkgs pkgs n)) \<and>
        tm_nameID m n = last_id (named_pkgs pkgs n))"

lemma cut_plain: "plain t \<Longrightarrow> takeWhile (\<lambda>c. c \<noteq> CHR 0x00) (t @ nul @ n) = t"
  by (induction t) (auto simp: plain_def nul_def)

lemma key_inj: "plain t \<Longrightarrow> plain t' \<Longrightarrow> t @ nul @ n = t' @ nul @ n' \<longleftrightarrow> t = t' \<and> n = n'"
  using cut_plain [of t n] cut_plain [of t' n'] by (metis same_append_eq)

lemma nameKey_inj:
  "plain t \<Longrightarrow> plain t' \<Longrightarrow> trivyPackageNameKey t n = trivyPackageNameKey t' n' \<longleftrightarrow> t = t' \<and> n = n'"
  by (simp add: trivyPackageNameKey_def key_inj)

lemma packageKey_inj:
  assumes "plain t" "plain t'" "plain n" "plain n'"
  shows "trivyPackageKey t n v = trivyPackageKey t' n' v' \<longleftrightarrow> t = t' \<and> n = n' \<and> v = v'"
proof -
  have "trivyPackageKey t n v = t @ nul @ (n @ nul @ v)" for t n v :: string
    by (simp add: trivyPackageKey_def trivyPackageNameKey_def)
  then show ?thesis using assms by (simp only: key_inj) 
qed

lemma maps_exact_empty: "maps_exact [] emptyMaps"
  by (simp add: maps_exact_def emptyMaps_def exact_pkgs_def target_pkgs_def named_pkgs_def last_id_def)

lemma pkgs_snoc:
  "exact_pkgs (pkgs @ [q]) t n v
     = exact_pkgs pkgs t n v @ (if P_Target q = t \<and> P_Name q = n \<and> P_Version q = v then [q] else [])"
  "target_pkgs (pkgs @ [q]) t n = target_pkgs pkgs t n @ (if P_Target q = t \<and> P_Name q = n then [q] else [])"
  "named_pkgs (pkgs @ [q]) n = named_pkgs pkgs n @ (if P_Name q = n then [q] else [])"
  by (simp_all add: exact_pkgs_def target_pkgs_def named_pkgs_def)

lemma last_id_snoc: "last_id (ps @ (if b then [q] else [])) = (if b then P_ID q else last_id ps)"
  by (simp add: last_id_def)

lemma maps_exact_enter:
  assumes m: "maps_exact pkgs m" and p: "plain (ts_Target r)" "plain (tp_Name p)" "i \<noteq> []"
  shows "maps_exact (pkgs @ [trivyPackage i s c r p]) (enterPackage i (ts_Target r) p m)"
proof -
  let ?q = "trivyPackage i s c r p"
  have q: "P_ID ?q = i" "P_Target ?q = ts_Target r" "P_Name ?q = tp_Name p" "P_Version ?q = tp_Version p"
    by (simp_all add: trivyPackage_def)
  show ?thesis
    unfolding maps_exact_def
  proof (intro conjI allI impI)
    show "\<forall>p \<in> set (pkgs @ [?q]). P_ID p \<noteq> []" using m p(3) q by (auto simp: maps_exact_def)
  next
    fix t n v assume t: "plain t" "plain n"
    note eqs = packageKey_inj [OF t(1) p(1) t(2) p(2)] nameKey_inj [OF t(1) p(1)]
    note old = m [unfolded maps_exact_def, THEN conjunct2, rule_format, OF t]
    show "tm_pkg (enterPackage i (ts_Target r) p m) (trivyPackageKey t n v)
        = last_id (exact_pkgs (pkgs @ [?q]) t n v)"
      using old by (auto simp: enterPackage_def Let_def eqs pkgs_snoc last_id_snoc q)
    show "tm_targetCount (enterPackage i (ts_Target r) p m) (trivyPackageNameKey t n)
        = int (length (target_pkgs (pkgs @ [?q]) t n))"
      using old by (auto simp: enterPackage_def Let_def eqs pkgs_snoc q)
    show "tm_targetID (enterPackage i (ts_Target r) p m) (trivyPackageNameKey t n)
        = last_id (target_pkgs (pkgs @ [?q]) t n)"
      using old by (auto simp: enterPackage_def Let_def eqs pkgs_snoc last_id_snoc q)
    show "tm_nameCount (enterPackage i (ts_Target r) p m) n = int (length (named_pkgs (pkgs @ [?q]) n))"
      using old by (auto simp: enterPackage_def Let_def pkgs_snoc q)
    show "tm_nameID (enterPackage i (ts_Target r) p m) n = last_id (named_pkgs (pkgs @ [?q]) n)"
      using old by (auto simp: enterPackage_def Let_def pkgs_snoc last_id_snoc q)
  qed
qed

lemma packageLoop_exact:
  "\<forall>k. u k \<noteq> [] \<Longrightarrow> plain (ts_Target r) \<Longrightarrow> list_all (\<lambda>p. plain (tp_Name p)) ps \<Longrightarrow> maps_exact pkgs m \<Longrightarrow>
   \<exists>m'. packageLoop u s c r ps (pkgs, m) = (pkgs @ numbered u (\<lambda>i. trivyPackage i s c r) (length pkgs) ps, m') \<and>
        maps_exact (pkgs @ numbered u (\<lambda>i. trivyPackage i s c r) (length pkgs) ps) m'"
proof (induction ps arbitrary: pkgs m)
  case (Cons p ps)
  have "maps_exact (pkgs @ [trivyPackage (u (length pkgs)) s c r p]) (enterPackage (u (length pkgs)) (ts_Target r) p m)"
    using Cons.prems by (intro maps_exact_enter) auto
  from Cons.IH [OF Cons.prems(1,2) _ this] Cons.prems(3) show ?case by (simp add: Let_def)
qed simp

lemma last_id_Nil: "maps_exact pkgs m \<Longrightarrow> set ps \<subseteq> set pkgs \<Longrightarrow> last_id ps = [] \<longleftrightarrow> ps = []"
  by (cases ps rule: rev_cases) (auto simp: last_id_def maps_exact_def)

lemma packageIDFor_exact:
  assumes "maps_exact pkgs m" "plain t" "plain n"
  shows "packageIDFor m t n v = idSpec pkgs t n v"
proof -
  note old = assms(1) [unfolded maps_exact_def, THEN conjunct2, rule_format, OF assms(2,3)]
  have ids: "last_id (exact_pkgs pkgs t n v) = [] \<longleftrightarrow> exact_pkgs pkgs t n v = []"
    "last_id (target_pkgs pkgs t n) = [] \<longleftrightarrow> target_pkgs pkgs t n = []"
    by (rule last_id_Nil [OF assms(1)], simp add: exact_pkgs_def target_pkgs_def)+
  then show ?thesis using old by (auto simp: packageIDFor_def idSpec_def Let_def)
qed

lemma sectionLoop_exact:
  "\<forall>k. u k \<noteq> [] \<Longrightarrow> list_all section_plain rs \<Longrightarrow> maps_exact pkgs m \<Longrightarrow>
   sectionLoop u s c rs (pkgs, m) vulns
     = (pkgs @ numbered u (\<lambda>i (r, p). trivyPackage i s c r p) (length pkgs)
                 (concat (map (\<lambda>r. map (Pair r) (ts_Packages r)) rs)),
        vulns @ findingsSpec u s c pkgs rs)"
proof (induction rs arbitrary: pkgs m vulns)
  case (Cons r rs)
  let ?new = "numbered u (\<lambda>i. trivyPackage i s c r) (length pkgs) (ts_Packages r)"
  have pl: "plain (ts_Target r)" "list_all (\<lambda>p. plain (tp_Name p)) (ts_Packages r)"
    "list_all (\<lambda>v. plain (v_pkg v)) (ts_Vulnerabilities r)" using Cons.prems(2) by (auto simp: section_plain_def)
  obtain m' where m': "packageLoop u s c r (ts_Packages r) (pkgs, m) = (pkgs @ ?new, m')" "maps_exact (pkgs @ ?new) m'"
    using packageLoop_exact [OF Cons.prems(1) pl(1,2) Cons.prems(3)] by blast
  have vs: "map (trivyVulnerability c m' (ts_Target r)) (ts_Vulnerabilities r)
      = map (\<lambda>v. findingOf c (idSpec (pkgs @ ?new) (ts_Target r) (v_pkg v) (v_installed v)) v) (ts_Vulnerabilities r)"
    using pl m'(2) by (intro map_cong) (auto simp: trivyVulnerability_def packageIDFor_exact list.pred_set)
  have num: "numbered u (\<lambda>i (r, p). trivyPackage i s c r p) k (map (Pair r) ps) = numbered u (\<lambda>i. trivyPackage i s c r) k ps"
    for k and ps :: "trivyPkg list" by (induction ps arbitrary: k) simp_all
  show ?case
    using Cons.IH [OF Cons.prems(1) _ m'(2)] Cons.prems(2) m'(1) vs
    by (simp add: numbered_append num Let_def)
qed simp

lemma idSpec_names:
  "idSpec pkgs t n v \<noteq> [] \<Longrightarrow> \<exists>p \<in> set pkgs. P_ID p = idSpec pkgs t n v \<and> P_Name p = n"
proof -
  have f: "last_id (filter P pkgs) \<noteq> [] \<Longrightarrow> \<exists>p \<in> set pkgs. P_ID p = last_id (filter P pkgs) \<and> P p" for P
    using last_in_set [of "filter P pkgs"] by (auto simp: last_id_def split: if_splits)
  show "idSpec pkgs t n v \<noteq> [] \<Longrightarrow> ?thesis"
    using f [of "\<lambda>p. P_Target p = t \<and> P_Name p = n \<and> P_Version p = v"] f [of "\<lambda>p. P_Target p = t \<and> P_Name p = n"]
      f [of "\<lambda>p. P_Name p = n"]
    by (auto simp: idSpec_def exact_pkgs_def target_pkgs_def named_pkgs_def split: if_splits)
qed

text \<open>C37: reading a trivy report lists every package once, in order, under fresh identifiers, and attributes each vulnerability exactly as specified over the packages of its own and the earlier sections: by target, name and version, else by an unambiguous target and name, else by an unambiguous name, else to none.\<close>

theorem trivy_report_exact:
  assumes "Parse data = Some rs" "list_all section_plain rs" "\<forall>k. u k \<noteq> []"
  shows "ExtractPackagesAndVulns Parse u data s c
    = Some (numbered u (\<lambda>i (r, p). trivyPackage i s c r p) 0 (concat (map (\<lambda>r. map (Pair r) (ts_Packages r)) rs)),
            findingsSpec u s c [] rs)"
  using sectionLoop_exact [OF assms(3,2) maps_exact_empty] assms(1) by (simp add: ExtractPackagesAndVulns_def)

definition sampleSection :: trivySection where
  "sampleSection =
     \<lparr>ts_Target = ''lock'', ts_Type = ''npm'',
      ts_Packages = [\<lparr>tp_Name = ''a'', tp_Version = ''1'', tp_Arch = [], tp_SrcName = [], tp_FilePath = [], tp_Layer = []\<rparr>],
      ts_Vulnerabilities = [\<lparr>v_id = ''CVE-1'', v_severity = ''LOW'', v_title = [], v_description = [], v_pkg = ''a'',
        v_path = [], v_installed = ''2'', v_fixed = [], v_url = [], v_layer = [], v_cvss = [(75 / 10, ''V'')]\<rparr>]\<rparr>"

lemma trivy_report_exact_witness:
  "map_option (map (\<lambda>v. (m_packageID v, m_severity v)) \<circ> snd)
     (ExtractPackagesAndVulns (\<lambda>_. Some [sampleSection]) (\<lambda>_. ''i'') [] [] []) = Some [(''i'', ''HIGH'')]"
proof -
  have ok: "list_all section_plain [sampleSection]" by code_simp
  have "map (\<lambda>v. (m_packageID v, m_severity v)) (findingsSpec (\<lambda>_. ''i'') [] [] [] [sampleSection]) = [(''i'', ''HIGH'')]"
    by code_simp
  then show ?thesis
    using trivy_report_exact [of "\<lambda>_. Some [sampleSection]" "[]" "[sampleSection]" "\<lambda>_. ''i''" "[]" "[]"] ok by simp
qed

section \<open>Where the layers differ\<close>

text \<open>
  The agent's own mapping of package types, which says that it mirrors this one, knows more types: the two give
  different ecosystems to packages of these types.
\<close>

lemma ecosystems_differ:
  "list_all (\<lambda>t. trivyEcosystem t = [] \<and> ecosystemForType t \<noteq> []) [''almalinux'', ''oracle'', ''rhel'', ''pypi'']"
  by code_simp

text \<open>Of two sources with the same score the one met first gives the vector: the result depends on the order of the map.\<close>

lemma vector_depends_on_order:
  "m_vector (findingOf c i (v\<lparr>v_cvss := [(5, ''A''), (5, ''B'')]\<rparr>)) = ''A''"
  "m_vector (findingOf c i (v\<lparr>v_cvss := [(5, ''B''), (5, ''A'')]\<rparr>)) = ''B''"
  by (simp_all add: findingOf_def)

end
