(* ===== verification/Collector.thy ===== *)
theory Collector
  imports Trivy_Parse
begin

text \<open>
  The collector of the agent (\<^verbatim>\<open>internal/agent/collector/collector.go\<close>): which engine takes the inventory of
  the host and of a container, the arguments it is run with, and the readers of what package managers and
  \<^verbatim>\<open>ss\<close> or \<^verbatim>\<open>netstat\<close> print. Programs are parameters: whether a program is found, and what it prints.
\<close>

section \<open>The collector\<close>

record collector =
  cl_trivy :: string
  cl_osquery :: string
  cl_dbRepository :: string
  cl_PackagesOnly :: bool
  cl_HostScanRoot :: string
  cl_Scanner :: string

text \<open>
  \<open>ct_exists\<close> is \<^verbatim>\<open>os.Stat\<close>, \<open>ct_isDir\<close> whether it finds a directory, \<open>ct_look\<close> is \<^verbatim>\<open>exec.LookPath\<close>;
  \<open>ct_run\<close> is the output of a command within its time limit or its error; \<open>ct_rows\<close> decodes the rows of
  osquery, \<open>ct_trivy\<close> the document of trivy.
\<close>

record hostTools =
  ct_exists :: "string \<Rightarrow> bool"
  ct_isDir :: "string \<Rightarrow> bool"
  ct_look :: "string \<Rightarrow> string option"
  ct_run :: "string \<Rightarrow> string list \<Rightarrow> string + string"
  ct_rows :: "string \<Rightarrow> (string \<times> string \<times> string \<times> string) list option"
  ct_trivy :: "string \<Rightarrow> trivySection list option"
  ct_fs :: filesystem
  ct_rpm :: rpmTool

datatype collect_error =
    TrivyMissing string
  | OSQueryMissing string
  | NativeScan string scan_error
  | CommandFailed string string
  | BadTrivyOutput
  | UnsupportedRuntime string
  | NoRootfs string
  | RootfsNotAccessible string
  | NoPackageManager

definition defaultDBRepository :: string where
  "defaultDBRepository = ''ghcr.io/aquasecurity/trivy-db''"

definition newCollector :: "string \<Rightarrow> string \<Rightarrow> collector" where
  "newCollector workDir dbRepo =
     (let dbRepo = (if dbRepo = [] then defaultDBRepository else dbRepo); binDir = JoinPath [workDir, ''bin''] in
      \<lparr>cl_trivy = JoinPath [binDir, ''trivy''], cl_osquery = JoinPath [binDir, ''osqueryi''], cl_dbRepository = dbRepo,
       cl_PackagesOnly = False, cl_HostScanRoot = ''/'', cl_Scanner = []\<rparr>)"

definition useNativeScanner :: "collector \<Rightarrow> bool" where
  "useNativeScanner c \<longleftrightarrow> ToLower (TrimSpace (cl_Scanner c)) \<noteq> ''trivy''"

definition ensureTrivy :: "hostTools \<Rightarrow> collector \<Rightarrow> collect_error + collector" where
  "ensureTrivy w c =
     (if ct_exists w (cl_trivy c) then Inr c
      else (case ct_look w ''trivy'' of Some p \<Rightarrow> Inr (c\<lparr>cl_trivy := p\<rparr>) | None \<Rightarrow> Inl (TrivyMissing (cl_trivy c))))"

definition ensureOSQuery :: "hostTools \<Rightarrow> collector \<Rightarrow> collect_error + collector" where
  "ensureOSQuery w c =
     (if ct_exists w (cl_osquery c) then Inr c
      else if ct_look w ''osqueryi'' \<noteq> None then Inr (c\<lparr>cl_osquery := ''osqueryi''\<rparr>)
      else Inl (OSQueryMissing (cl_osquery c)))"

section \<open>Running trivy\<close>

definition insertTrivyCommandFlags :: "string list \<Rightarrow> string list \<Rightarrow> string list" where
  "insertTrivyCommandFlags args fs = (if args = [] \<or> fs = [] then args else hd args # fs @ tl args)"

definition trivyArgs :: "collector \<Rightarrow> string list \<Rightarrow> string list" where
  "trivyArgs c args =
     (if \<not> cl_PackagesOnly c then
        (if ''--db-repository'' \<in> set args then args
         else insertTrivyCommandFlags args [''--db-repository'', cl_dbRepository c])
      else insertTrivyCommandFlags args
        [''--skip-db-update'', ''--skip-java-db-update'', ''--skip-version-check'', ''--offline-scan'', ''--scanners'', ''vuln''])"

definition runTrivy ::
  "hostTools \<Rightarrow> idstream \<Rightarrow> collector \<Rightarrow> string list \<Rightarrow> string \<Rightarrow> string \<Rightarrow> string
    \<Rightarrow> collect_error + Package list \<times> Vulnerability list" where
  "runTrivy w u c args what source container =
     (case ct_run w (cl_trivy c) (trivyArgs c args) of
        Inl e \<Rightarrow> Inl (CommandFailed what e)
      | Inr out \<Rightarrow>
          (case ExtractPackagesAndVulns (ct_trivy w) u out source container of
             None \<Rightarrow> Inl BadTrivyOutput
           | Some r \<Rightarrow> Inr r))"

definition CollectHostPackages ::
  "hostTools \<Rightarrow> idstream \<Rightarrow> collector \<Rightarrow> collect_error + Package list \<times> Vulnerability list" where
  "CollectHostPackages w u c =
     (let r = TrimSpace (cl_HostScanRoot c); scanRoot = (if r = [] then ''/'' else r) in
      if useNativeScanner c then
        (case ScanRoot (ct_fs w) (ct_rpm w) u scanRoot of
           Inl e \<Rightarrow> Inl (NativeScan scanRoot e)
         | Inr res \<Rightarrow> Inr (sr_Packages res, []))
      else
        (case ensureTrivy w c of
           Inl e \<Rightarrow> Inl e
         | Inr c \<Rightarrow>
             runTrivy w u c
               (if cl_PackagesOnly c then [''fs'', ''--format'', ''json'', ''--list-all-pkgs'', scanRoot]
                else [''fs'', ''--format'', ''json'', ''--list-all-pkgs'', ''--scanners'', ''vuln'', scanRoot])
               ''trivy fs'' ''trivy-host'' []))"

definition trivyImageSrc :: "string \<Rightarrow> string" where
  "trivyImageSrc runtime =
     (if runtime = ''docker'' then ''docker''
      else if runtime = ''podman'' then ''podman''
      else if runtime \<in> set [''nerdctl'', ''cri'', ''containerd''] then ''containerd''
      else [])"

definition getContainerImage :: "hostTools \<Rightarrow> string \<Rightarrow> collect_error + string" where
  "getContainerImage w name =
     (case ct_run w ''docker'' [''inspect'', ''--format'', ''{{.Config.Image}}'', name] of
        Inl e \<Rightarrow> Inl (CommandFailed ''docker'' e)
      | Inr out \<Rightarrow> Inr (TrimSpace out))"

definition CollectContainerPackages ::
  "hostTools \<Rightarrow> idstream \<Rightarrow> collector \<Rightarrow> string \<Rightarrow> string \<Rightarrow> string
    \<Rightarrow> collect_error + Package list \<times> Vulnerability list" where
  "CollectContainerPackages w u c containerName imageRef runtime =
     (case ensureTrivy w c of
        Inl e \<Rightarrow> Inl e
      | Inr c \<Rightarrow>
          (case (if imageRef = [] then getContainerImage w containerName else Inr imageRef) of
             Inl e \<Rightarrow> Inl e
           | Inr imageRef \<Rightarrow>
               let src = trivyImageSrc runtime;
                   args = [''image'', ''--format'', ''json'', ''--list-all-pkgs'']
                     @ (if src \<noteq> [] then [''--image-src'', src] else [])
                     @ (if \<not> cl_PackagesOnly c then [''--scanners'', ''vuln''] else []) @ [imageRef]
               in runTrivy w u c args (''trivy image '' @ imageRef) ''trivy-container'' containerName))"

section \<open>Containers without trivy\<close>

definition dockerBin :: "string \<Rightarrow> string" where
  "dockerBin runtime = (if runtime \<in> set [''docker'', ''podman'', ''nerdctl''] then runtime else ''docker'')"

definition containerRootfs :: "hostTools \<Rightarrow> string \<Rightarrow> string \<Rightarrow> collect_error + string" where
  "containerRootfs w containerID runtime =
     (if runtime \<in> set [''cri'', ''containerd''] then Inl (UnsupportedRuntime runtime)
      else
        (case ct_run w (dockerBin runtime)
                [''inspect'', ''--format'', ''{{.GraphDriver.Data.MergedDir}}'', containerID] of
           Inl e \<Rightarrow> Inl (CommandFailed (dockerBin runtime @ '' inspect rootfs'') e)
         | Inr out \<Rightarrow>
             let root = TrimSpace out in
             if root = [] \<or> root = ''<no value>'' then Inl (NoRootfs containerID)
             else if \<not> ct_isDir w root then Inl (RootfsNotAccessible root)
             else Inr root))"

definition rpmViaExec :: "hostTools \<Rightarrow> idstream \<Rightarrow> string \<Rightarrow> string \<Rightarrow> collect_error + Package list" where
  "rpmViaExec w u containerID runtime =
     (case ct_run w (dockerBin runtime) [''exec'', containerID, ''rpm'', ''-qa'', ''--qf'', RPMQueryFormat] of
        Inl e \<Rightarrow> Inl (CommandFailed (dockerBin runtime @ '' exec rpm'') e)
      | Inr out \<Rightarrow> Inr (ParseRPMQuery u out))"

record containerScan =
  cs_Packages :: "Package list"
  cs_Facts :: "string option"

text \<open>\<open>facts\<close> is the JSON of \<^verbatim>\<open>system.CollectContainerFacts\<close> when it found any.\<close>

definition ScanContainerNative ::
  "hostTools \<Rightarrow> idstream \<Rightarrow> (string \<Rightarrow> string option) \<Rightarrow> string \<Rightarrow> string \<Rightarrow> collect_error + containerScan" where
  "ScanContainerNative w u facts containerID runtime =
     (case containerRootfs w containerID runtime of
        Inl e \<Rightarrow> Inl e
      | Inr merged \<Rightarrow>
          (case ScanRoot (ct_fs w) (ct_rpm w) u merged of
             Inl e \<Rightarrow> Inl (NativeScan merged e)
           | Inr res \<Rightarrow>
               let pkgs =
                 (if sr_Source res = ''rpmdb-unreadable'' then
                    (case rpmViaExec w u containerID runtime of Inr ps \<Rightarrow> ps | Inl _ \<Rightarrow> sr_Packages res)
                  else sr_Packages res)
               in Inr \<lparr>cs_Packages = pkgs, cs_Facts = facts merged\<rparr>))"

section \<open>Package managers\<close>

definition normalizeSourcePackageName :: "string \<Rightarrow> string \<Rightarrow> string" where
  "normalizeSourcePackageName src source = (if source \<noteq> ''rpm'' then src else rpmSourceName src)"

definition delimitedLine :: "idstream \<Rightarrow> string \<Rightarrow> Package list \<Rightarrow> string \<Rightarrow> Package list" where
  "delimitedLine u source pkgs raw =
     (let line = TrimSpace raw; parts = SplitByte line tabc in
      if line = [] \<or> length parts < 2 then pkgs
      else
        (let name = TrimSpace (parts ! 0); version = TrimSpace (parts ! 1) in
         if name = [] \<or> version = [] then pkgs
         else pkgs @ [emptyPackage
           \<lparr>P_ID := u (length pkgs), P_Name := name, P_Version := version, P_PkgType := ''os'', P_Source := source,
            P_Arch := (if length parts > 2 then TrimSpace (parts ! 2) else []),
            P_SrcName := (if length parts > 3 then normalizeSourcePackageName (TrimSpace (parts ! 3)) source
                          else [])\<rparr>]))"

definition parseDelimitedPackages :: "idstream \<Rightarrow> string \<Rightarrow> string \<Rightarrow> Package list" where
  "parseDelimitedPackages u out source = foldl (delimitedLine u source) [] (SplitByte out (CHR 0x0A))"

definition apkInfoLine :: "idstream \<Rightarrow> Package list \<Rightarrow> string \<Rightarrow> Package list" where
  "apkInfoLine u pkgs raw =
     (let line = TrimSpace raw; idx = LastIndex line ''-'' in
      if line = [] \<or> idx \<le> 0 \<or> idx = int (length line) - 1 then pkgs
      else pkgs @ [emptyPackage
        \<lparr>P_ID := u (length pkgs), P_Name := upto_ix line idx, P_Version := from_ix line (idx + 1), P_PkgType := ''os'',
         P_Source := ''apk''\<rparr>])"

definition parseApkPackages :: "idstream \<Rightarrow> string \<Rightarrow> Package list" where
  "parseApkPackages u out = foldl (apkInfoLine u) [] (SplitByte out (CHR 0x0A))"

definition dpkgQueryFormat :: string where
  "dpkgQueryFormat =
     ''-f='' @ Join [''${binary:Package}'', ''${Version}'', ''${Architecture}'', ''${source:Package}''] [tabc] @ [CHR 0x0A]"

definition rpmListFormat :: string where
  "rpmListFormat = Join [''%{NAME}'', ''%{VERSION}-%{RELEASE}'', ''%{ARCH}'', ''%{SOURCERPM}''] [tabc] @ [CHR 0x0A]"

text \<open>A program that is found and fails leaves the choice to the next one.\<close>

definition tryManager :: "hostTools \<Rightarrow> string \<Rightarrow> string list \<Rightarrow> string option" where
  "tryManager w prog args =
     (if ct_look w prog = None then None
      else (case ct_run w prog args of Inl _ \<Rightarrow> None | Inr out \<Rightarrow> Some out))"

definition CollectNativePackages :: "hostTools \<Rightarrow> idstream \<Rightarrow> collect_error + Package list" where
  "CollectNativePackages w u =
     (case tryManager w ''dpkg-query'' [''-W'', dpkgQueryFormat] of
        Some out \<Rightarrow> Inr (parseDelimitedPackages u out ''dpkg'')
      | None \<Rightarrow>
          (case tryManager w ''rpm'' [''-qa'', ''--qf'', rpmListFormat] of
             Some out \<Rightarrow> Inr (parseDelimitedPackages u out ''rpm'')
           | None \<Rightarrow>
               (case tryManager w ''apk'' [''info'', ''-v''] of
                  Some out \<Rightarrow> Inr (parseApkPackages u out)
                | None \<Rightarrow> Inl NoPackageManager)))"

text \<open>A row of osquery: name, version, architecture and source name, printed as text.\<close>

definition osqueryPackage :: "string \<Rightarrow> string \<times> string \<times> string \<times> string \<Rightarrow> Package" where
  "osqueryPackage ident r =
     (case r of (name, version, arch, src) \<Rightarrow> emptyPackage
        \<lparr>P_ID := ident, P_Name := name, P_Version := version, P_Arch := arch, P_SrcName := src, P_PkgType := ''os'',
         P_Source := ''osquery''\<rparr>)"

definition osqueryQueries :: "string list" where
  "osqueryQueries =
     [''SELECT name, version, arch, source_name FROM deb_packages'',
      ''SELECT name, version, arch, '' @ [CHR 0x27, CHR 0x27] @ '' as source_name FROM rpm_packages'']"

fun osqueryLoop :: "hostTools \<Rightarrow> idstream \<Rightarrow> collector \<Rightarrow> string list \<Rightarrow> Package list \<Rightarrow> Package list" where
  "osqueryLoop w u c [] pkgs = pkgs"
| "osqueryLoop w u c (q # qs) pkgs =
     (case ct_run w (cl_osquery c) [''--json'', q] of
        Inl _ \<Rightarrow> osqueryLoop w u c qs pkgs
      | Inr out \<Rightarrow>
          (case ct_rows w out of
             None \<Rightarrow> osqueryLoop w u c qs pkgs
           | Some rows \<Rightarrow> osqueryLoop w u c qs (pkgs @ numbered u osqueryPackage (length pkgs) rows)))"

definition CollectOSQueryPackages :: "hostTools \<Rightarrow> idstream \<Rightarrow> collector \<Rightarrow> collect_error + Package list" where
  "CollectOSQueryPackages w u c =
     (case ensureOSQuery w c of
        Inl _ \<Rightarrow> CollectNativePackages w u
      | Inr c \<Rightarrow>
          let pkgs = osqueryLoop w u c osqueryQueries [] in
          if pkgs = [] then
            (case CollectNativePackages w u of
               Inr ps \<Rightarrow> if ps \<noteq> [] then Inr ps else Inr pkgs
             | Inl _ \<Rightarrow> Inr pkgs)
          else Inr pkgs)"

section \<open>Listening ports\<close>

record PortInfo =
  pt_Name :: string
  pt_Port :: int
  pt_Protocol :: string
  pt_Address :: string
  pt_PID :: int

definition normalizePortProtocol :: "string \<Rightarrow> string" where
  "normalizePortProtocol proto0 =
     (let proto = ToLower (TrimSpace proto0) in
      if HasPrefix proto ''tcp'' then ''tcp'' else if HasPrefix proto ''udp'' then ''udp'' else [])"

text \<open>
  The value \<^verbatim>\<open>strconv.Atoi\<close> returns beside its error, which \<^verbatim>\<open>parsePort\<close> drops: zero for what is no number, the
  nearest 64-bit integer for a number out of range.
\<close>

definition AtoiValue :: "string \<Rightarrow> int" where
  "AtoiValue s =
     (case Atoi s of
        Some n \<Rightarrow> n
      | None \<Rightarrow>
          (let neg = (s \<noteq> [] \<and> hd s = CHR ''-''); ds = (if s \<noteq> [] \<and> hd s \<in> set ''+-'' then tl s else s) in
           if ds \<noteq> [] \<and> list_all isDigit ds then (if neg then go_int_min else go_int_max) else 0))"

definition parsePort :: "string \<Rightarrow> int" where
  "parsePort raw = AtoiValue (TrimSpace raw)"

definition parseAddressPort :: "string \<Rightarrow> string \<times> int" where
  "parseAddressPort ep0 =
     (let ep = TrimSpace ep0; b = LastIndex ep '']:''; idx = LastIndex ep '':'' in
      if ep = [] \<or> ep = ''*'' then ([], 0)
      else if HasPrefix ep ''['' \<and> b \<ge> 0 then
        (Trim (take (nat (b - 1)) (tl ep)) ''[]'', parsePort (from_ix ep (b + 2)))
      else if idx < 0 \<or> idx = int (length ep) - 1 then ([], 0)
      else (Trim (upto_ix ep idx) ''[]'', parsePort (from_ix ep (idx + 1))))"

text \<open>\<^verbatim>\<open>\("([^"]*)",pid=([0-9]+)\<close>\<close>

definition ssProcessAt :: "string \<Rightarrow> (string \<times> string) option" where
  "ssProcessAt s =
     (if HasPrefix s [CHR ''('', CHR 0x22] then
        (let r = drop 2 s; name = takeWhile (\<lambda>c. c \<noteq> CHR 0x22) r; t = dropWhile (\<lambda>c. c \<noteq> CHR 0x22) r in
         if HasPrefix t (CHR 0x22 # '',pid='') \<and> takeWhile isDigit (drop 6 t) \<noteq> [] then
           Some (name, takeWhile isDigit (drop 6 t))
         else None)
      else None)"

fun ssProcessFind :: "string \<Rightarrow> (string \<times> string) option" where
  "ssProcessFind [] = None"
| "ssProcessFind (c # s) = (case ssProcessAt (c # s) of Some m \<Rightarrow> Some m | None \<Rightarrow> ssProcessFind s)"

definition parseSSProcess :: "string \<Rightarrow> string \<times> int" where
  "parseSSProcess raw = (case ssProcessFind raw of None \<Rightarrow> ([], 0) | Some (name, pid) \<Rightarrow> (name, parsePort pid))"

definition parseNetstatProcess :: "string \<Rightarrow> string \<times> int" where
  "parseNetstatProcess raw0 =
     (let raw = TrimSpace raw0 in
      if raw = [] \<or> raw = ''-'' \<or> \<not> Contains raw ''/'' then ([], 0)
      else (case CutByte raw slash of (pid, name, _) \<Rightarrow> (name, parsePort pid)))"

definition ssLine :: "string \<Rightarrow> PortInfo option" where
  "ssLine line =
     (let flds = Fields line in
      if length flds < 5 then None
      else
        (let proto = normalizePortProtocol (flds ! 0); ap = parseAddressPort (flds ! 4);
             np = parseSSProcess (Join (drop 5 flds) '' '') in
         if proto = [] \<or> snd ap \<le> 0 then None
         else Some \<lparr>pt_Name = fst np, pt_Port = snd ap, pt_Protocol = proto, pt_Address = fst ap, pt_PID = snd np\<rparr>))"

definition parseSSListeningPorts :: "string \<Rightarrow> PortInfo list" where
  "parseSSListeningPorts out = List.map_filter ssLine (SplitByte (TrimSpace out) (CHR 0x0A))"

definition netstatLine :: "string \<Rightarrow> PortInfo option" where
  "netstatLine line =
     (let flds = Fields line in
      if length flds < 4 \<or> HasPrefix (ToLower (flds ! 0)) ''proto'' then None
      else
        (let proto = normalizePortProtocol (flds ! 0); ap = parseAddressPort (flds ! 3);
             np = parseNetstatProcess (last flds) in
         if proto = [] \<or> snd ap \<le> 0 then None
         else Some \<lparr>pt_Name = fst np, pt_Port = snd ap, pt_Protocol = proto, pt_Address = fst ap, pt_PID = snd np\<rparr>))"

definition parseNetstatListeningPorts :: "string \<Rightarrow> PortInfo list" where
  "parseNetstatListeningPorts out = List.map_filter netstatLine (SplitByte (TrimSpace out) (CHR 0x0A))"

definition CollectNativeListeningPorts :: "hostTools \<Rightarrow> PortInfo list option" where
  "CollectNativeListeningPorts w =
     (let ss = (case tryManager w ''ss'' [''-H'', ''-lntuap''] of Some out \<Rightarrow> parseSSListeningPorts out | None \<Rightarrow> []) in
      if ss \<noteq> [] then Some ss
      else
        (let ns = (case tryManager w ''netstat'' [''-lntup''] of Some out \<Rightarrow> parseNetstatListeningPorts out | None \<Rightarrow> [])
         in if ns \<noteq> [] then Some ns else None))"

section \<open>What the collector keeps to\<close>

text \<open>The subcommand stays first; without the database the program is told to stay off the network.\<close>

lemma trivyArgs_shape:
  assumes "args \<noteq> []"
  shows "hd (trivyArgs c args) = hd args"
    and "set args \<subseteq> set (trivyArgs c args)"
    and "cl_PackagesOnly c \<Longrightarrow> {''--offline-scan'', ''--skip-db-update''} \<subseteq> set (trivyArgs c args)"
    and "\<not> cl_PackagesOnly c \<Longrightarrow> ''--db-repository'' \<in> set (trivyArgs c args)"
  using assms by (cases args; auto simp: trivyArgs_def insertTrivyCommandFlags_def)+

text \<open>The native engine leaves the vulnerabilities to the server and never starts trivy.\<close>

lemma native_host_packages:
  assumes "useNativeScanner c"
  shows "CollectHostPackages (w\<lparr>ct_run := r, ct_look := l, ct_exists := e\<rparr>) u c = CollectHostPackages w u c"
    and "CollectHostPackages w u c = Inr (ps, vs) \<Longrightarrow> vs = []"
  using assms by (auto simp: CollectHostPackages_def Let_def split: sum.splits)

text \<open>An unreadable rpm database is no error: the container is reported with no packages when its own rpm fails.\<close>

lemma unreadable_rpm_is_empty:
  assumes "containerRootfs w i rt = Inr m" "ScanRoot (ct_fs w) (ct_rpm w) u m = Inr res"
    "sr_Source res = ''rpmdb-unreadable''" "sr_Packages res = []" "rpmViaExec w u i rt = Inl e"
  shows "ScanContainerNative w u facts i rt = Inr \<lparr>cs_Packages = [], cs_Facts = facts m\<rparr>"
  using assms by (simp add: ScanContainerNative_def)

section \<open>Where the readers go wrong\<close>

text \<open>
  \<^verbatim>\<open>apk info -v\<close> prints name, version and release with hyphens between them; the line is cut at the last
  hyphen, so every package is reported under its name and version, with the release as its version.
\<close>

lemma apk_info_cut_at_release:
  assumes "n \<noteq> []" "CHR ''-'' \<notin> set rel" "rel \<noteq> []"
    "TrimSpace (n @ ''-'' @ v @ ''-'' @ rel) = n @ ''-'' @ v @ ''-'' @ rel" "CHR 0x0A \<notin> set (n @ ''-'' @ v @ ''-'' @ rel)"
  shows "map (\<lambda>p. (P_Name p, P_Version p)) (parseApkPackages u (n @ ''-'' @ v @ ''-'' @ rel)) = [(n @ ''-'' @ v, rel)]"
proof -
  have i: "LastIndex (n @ ''-'' @ v @ ''-'' @ rel) ''-'' = int (length (n @ ''-'' @ v))"
    using LastIndex_last [OF assms(2), of "n @ ''-'' @ v"] by simp
  have s: "SplitByte (n @ ''-'' @ v @ ''-'' @ rel) (CHR 0x0A) = [n @ ''-'' @ v @ ''-'' @ rel]"
    by (rule SplitByte_none) (rule assms)
  have "n @ ''-'' @ v @ ''-'' @ rel = (n @ ''-'' @ v) @ CHR ''-'' # rel" by simp
  then have "upto_ix (n @ ''-'' @ v @ ''-'' @ rel) (int (length (n @ ''-'' @ v))) = n @ ''-'' @ v"
    "from_ix (n @ ''-'' @ v @ ''-'' @ rel) (int (length (n @ ''-'' @ v)) + 1) = rel"
    by (simp_all only: nat_int nat_add_distrib append_eq_conv_conj [THEN iffD1, OF refl]) (simp_all add: nat_add_distrib)
  then show ?thesis
    using assms unfolding parseApkPackages_def s foldl.simps apkInfoLine_def Let_def assms(4) i by simp
qed

text \<open>
  The fallback asks rpm for no epoch: the same installed package gets another version, and compares differently,
  than from the scanner.
\<close>

lemma fallback_loses_epoch:
  "map P_Version (parseDelimitedPackages u (Join [''openssl-libs'', ''1.1.1k-14'', ''x86_64'', ''openssl-1.1.1k-14.src.rpm''] [tabc]) ''rpm'')
     = [''1.1.1k-14'']"
  "map P_Version (parseRPMQuery u (rpm_text [sampleRow])) = [''1:1.1.1k-14'']"
  by code_simp+

end
