(* ===== verification/Rematch.thy ===== *)
theory Rematch
  imports Complex_Main Classify Rbac "HOL-Library.Multiset" "HOL-Library.Product_Lexorder"
begin

text \<open>
  Matching the stored packages against the stored advisories (\<^verbatim>\<open>RematchCVEs\<close>, \<^verbatim>\<open>RematchCPE\<close> and their helpers in
  \<^verbatim>\<open>internal/server/db/cvedb.go\<close>, and the removal of findings no advisory supports any more in
  \<^verbatim>\<open>internal/server/db/vulnerability.go\<close>). A coarse SQL join proposes pairs of a package and an advisory, the Go
  code of \<^verbatim>\<open>classify.go\<close> decides, and the findings are inserted in one transaction. A query without
  \<^verbatim>\<open>ORDER BY\<close> gives its rows in any order: the arrangement is a parameter. So are the decoding of the two JSON
  columns and the statements that fail; a statement that fails inside a transaction aborts it, as PostgreSQL
  does, and the driver then refuses to commit.
\<close>

section \<open>Rows\<close>

record pkgRow =
  pk_id :: string
  pk_name :: string
  pk_version :: string
  pk_host :: string
  pk_scan :: string
  pk_container :: string
  pk_path :: string
  pk_type :: string
  pk_eco :: string

record cveRow =
  cv_id :: string
  cv_vuln :: string
  cv_source :: string
  cv_category :: string
  cv_eco :: string
  cv_severity :: string
  cv_score :: rat
  cv_vector :: string
  cv_title :: string
  cv_desc :: string
  cv_refs :: string
  cv_products :: string
  cv_epss :: rat
  cv_percentile :: rat
  cv_updated :: int

record vulnRow =
  vr_id :: string
  vr_package :: string
  vr_scan :: string
  vr_host :: string
  vr_vuln :: string
  vr_severity :: string
  vr_title :: string
  vr_desc :: string
  vr_pkgName :: string
  vr_path :: string
  vr_installed :: string
  vr_fixed :: string
  vr_score :: rat
  vr_vector :: string
  vr_url :: string
  vr_container :: string
  vr_source :: string

record capRow =
  cp_cve :: string
  cp_name :: string
  cp_eco :: string
  cp_fixed :: string

text \<open>\<open>jc_products\<close> decodes \<^verbatim>\<open>affected_products\<close>, \<open>jc_urls\<close> the \<^verbatim>\<open>url\<close> members of \<^verbatim>\<open>refs\<close>.\<close>

record jsonColumns =
  jc_products :: unmarshal
  jc_urls :: "string \<Rightarrow> string list option"

record rematchState =
  rs_packages :: "pkgRow list"
  rs_scans :: "ScanRow list"
  rs_cves :: "cveRow list"
  rs_index :: "capRow list"
  rs_vulns :: "vulnRow list"

section \<open>The index of affected packages\<close>

text \<open>PostgreSQL's \<^verbatim>\<open>trim\<close> removes spaces only.\<close>

definition sqlTrim :: "string \<Rightarrow> string" where
  "sqlTrim s = rev (dropWhile (\<lambda>c. c = CHR '' '') (rev (dropWhile (\<lambda>c. c = CHR '' '') s)))"

definition fixedVersionValuePredicateSQL :: "string \<Rightarrow> bool" where
  "fixedVersionValuePredicateSQL v =
     (let t = sqlTrim v in
      t \<noteq> [] \<and> t \<noteq> ''0'' \<and> versionLikeFixedVersion t \<and> \<not> hashOnlyFixedVersion t \<and> \<not> urlLikeFixedVersion t
      \<and> \<not> branchLikeFixedVersion t)"

definition cveSourceFixedPredicateSQL :: "affectedProduct \<Rightarrow> bool" where
  "cveSourceFixedPredicateSQL p \<longleftrightarrow>
     length (PFixed p) = 1 \<and> fixedVersionValuePredicateSQL (hd (PFixed p)) \<or>
     list_ex fixedVersionValuePredicateSQL (rangeFixes p)"

text \<open>\<^verbatim>\<open>cveAffectedPackageFixedVersionSQL\<close>; of several range events the first stands for the one \<^verbatim>\<open>LIMIT 1\<close> picks.\<close>

definition affectedFixedSQL :: "affectedProduct \<Rightarrow> string option" where
  "affectedFixedSQL p =
     (if length (PFixed p) = 1 \<and> fixedVersionValuePredicateSQL (hd (PFixed p)) then Some (sqlTrim (hd (PFixed p)))
      else map_option sqlTrim (find fixedVersionValuePredicateSQL (rangeFixes p)))"

definition firstLabel :: "string \<Rightarrow> string \<Rightarrow> string option" where
  "firstLabel a b = (if a \<noteq> [] then Some a else if b \<noteq> [] then Some b else None)"

definition affectedProductEcosystemSQL :: "cveRow \<Rightarrow> affectedProduct \<Rightarrow> string option" where
  "affectedProductEcosystemSQL c p = map_option (normalizeEcosystemSQL \<circ> ToLower) (firstLabel (PEcosystem p) (cv_eco c))"

definition packageEcosystemSQL :: "pkgRow \<Rightarrow> string option" where
  "packageEcosystemSQL p = map_option (normalizeEcosystemSQL \<circ> ToLower) (firstLabel (pk_eco p) (pk_type p))"

text \<open>A column that is no JSON array has no elements.\<close>

definition productsOf :: "jsonColumns \<Rightarrow> cveRow \<Rightarrow> affectedProduct list" where
  "productsOf jc c = (if snd (jc_products jc (cv_products c)) then fst (jc_products jc (cv_products c)) else [])"

definition indexRows :: "jsonColumns \<Rightarrow> cveRow \<Rightarrow> capRow list" where
  "indexRows jc c =
     concat (map (\<lambda>p.
       case (affectedProductEcosystemSQL c p, affectedFixedSQL p) of
         (Some eco, Some fixed) \<Rightarrow>
           if PName p \<noteq> [] then [\<lparr>cp_cve = cv_id c, cp_name = ToLower (PName p), cp_eco = eco, cp_fixed = fixed\<rparr>] else []
       | _ \<Rightarrow> []) (productsOf jc c))"

definition RebuildCveAffectedPackages :: "jsonColumns \<Rightarrow> rematchState \<Rightarrow> rematchState" where
  "RebuildCveAffectedPackages jc st = st\<lparr>rs_index := remdups (concat (map (indexRows jc) (rs_cves st)))\<rparr>"

definition RefreshCveAffectedPackagesForCve :: "jsonColumns \<Rightarrow> string \<Rightarrow> rematchState \<Rightarrow> rematchState" where
  "RefreshCveAffectedPackagesForCve jc cveID st =
     st\<lparr>rs_index := filter (\<lambda>r. cp_cve r \<noteq> cveID) (rs_index st)
          @ remdups (concat (map (indexRows jc) (filter (\<lambda>c. cv_id c = cveID) (rs_cves st))))\<rparr>"

section \<open>Candidate pairs\<close>

record rematchOptions =
  ro_Sources :: "string list"
  ro_MinPercent :: rat
  ro_ScanID :: string
  ro_CandidateLimit :: int

definition DefaultRematchCandidateLimit :: int where "DefaultRematchCandidateLimit = 50000"
definition MaxRematchCandidateLimit :: int where "MaxRematchCandidateLimit = 1000000"

definition candidateLimit :: "rematchOptions \<Rightarrow> int" where
  "candidateLimit o' =
     (let l = (if ro_CandidateLimit o' \<le> 0 then DefaultRematchCandidateLimit else ro_CandidateLimit o')
      in if l > MaxRematchCandidateLimit then MaxRematchCandidateLimit else l)"

definition rowLimit :: "int \<Rightarrow> int" where
  "rowLimit limit =
     (let l = limit * 100; l = (if l < limit + 1 then limit + 1 else l)
      in if l > MaxRematchCandidateLimit + 1 then MaxRematchCandidateLimit + 1 else l)"

text \<open>The share of the advisories of a source that could match at all, in percent.\<close>

definition cveSourceMatchablePredicateSQL :: "jsonColumns \<Rightarrow> cveRow \<Rightarrow> bool" where
  "cveSourceMatchablePredicateSQL jc c \<longleftrightarrow>
     list_ex (\<lambda>p. PName p \<noteq> [] \<and> firstLabel (PEcosystem p) (cv_eco c) \<noteq> None \<and> cveSourceFixedPredicateSQL p)
       (productsOf jc c)"

definition sourceQuality :: "jsonColumns \<Rightarrow> cveRow list \<Rightarrow> string \<Rightarrow> rat" where
  "sourceQuality jc cves src =
     (let ofSrc = filter (\<lambda>c. cv_source c = src) cves in
      100 * rat_of_nat (length (filter (cveSourceMatchablePredicateSQL jc) ofSrc)) / rat_of_nat (length ofSrc))"

definition sourceAllowed :: "jsonColumns \<Rightarrow> rematchState \<Rightarrow> rematchOptions \<Rightarrow> cveRow \<Rightarrow> bool" where
  "sourceAllowed jc st o' c \<longleftrightarrow>
     (ro_Sources o' = [] \<or> cv_source c \<in> set (ro_Sources o')) \<and>
     (ro_MinPercent o' \<le> 0 \<or> cv_source c \<noteq> [] \<and> ro_MinPercent o' \<le> sourceQuality jc (rs_cves st) (cv_source c))"

definition scanInScope :: "rematchState \<Rightarrow> rematchOptions \<Rightarrow> string \<Rightarrow> bool" where
  "scanInScope st o' scan \<longleftrightarrow> (if ro_ScanID o' \<noteq> [] then scan = ro_ScanID o' else scan \<in> set (latestScans (rs_scans st)))"

definition candidateRows :: "jsonColumns \<Rightarrow> rematchState \<Rightarrow> rematchOptions \<Rightarrow> (pkgRow \<times> cveRow) list" where
  "candidateRows jc st o' =
     concat (map (\<lambda>p. concat (map (\<lambda>r. map (Pair p)
         (filter (\<lambda>c. cv_id c = cp_cve r \<and> sourceAllowed jc st o' c) (rs_cves st)))
       (filter (\<lambda>r. cp_name r = ToLower (pk_name p) \<and> Some (cp_eco r) = packageEcosystemSQL p) (rs_index st))))
     (filter (\<lambda>p. scanInScope st o' (pk_scan p)) (rs_packages st)))"

section \<open>Building a finding\<close>

definition truncate_bytes :: "string \<Rightarrow> nat \<Rightarrow> string" where
  "truncate_bytes s n = (if length s \<le> n then s else take n s)"

definition rematchSeverity :: "rat \<Rightarrow> string \<Rightarrow> string" where
  "rematchSeverity score sev =
     (if score \<ge> 9 then ''CRITICAL'' else if score \<ge> 7 then ''HIGH'' else if score \<ge> 4 then ''MEDIUM''
      else if score > 0 then ''LOW'' else sev)"

definition primaryURL :: "jsonColumns \<Rightarrow> string \<Rightarrow> string" where
  "primaryURL jc refs =
     (case jc_urls jc refs of
        None \<Rightarrow> []
      | Some urls \<Rightarrow> (case find (\<lambda>x. x \<noteq> []) urls of None \<Rightarrow> [] | Some x \<Rightarrow> x))"

definition findingRow :: "jsonColumns \<Rightarrow> string \<Rightarrow> pkgRow \<Rightarrow> cveRow \<Rightarrow> string \<Rightarrow> vulnRow" where
  "findingRow jc ident p c fixed =
     \<lparr>vr_id = ident, vr_package = pk_id p, vr_scan = pk_scan p, vr_host = pk_host p, vr_vuln = cv_vuln c,
      vr_severity = rematchSeverity (cv_score c) (cv_severity c), vr_title = truncate_bytes (cv_title c) 500,
      vr_desc = truncate_bytes (cv_desc c) 2000, vr_pkgName = pk_name p, vr_path = pk_path p,
      vr_installed = pk_version p, vr_fixed = fixed, vr_score = cv_score c, vr_vector = cv_vector c,
      vr_url = primaryURL jc (cv_refs c), vr_container = pk_container p, vr_source = ''cve-db''\<rparr>"

text \<open>\<^verbatim>\<open>rematchVulnerabilityKey\<close> joins the three identifiers, which have no zero byte; the unique index is on them.\<close>

definition vulnKey :: "vulnRow \<Rightarrow> string \<times> string \<times> string" where
  "vulnKey v = (vr_package v, vr_scan v, vr_vuln v)"

definition severityRank :: "string \<Rightarrow> int" where
  "severityRank sev =
     (let s = ToUpper sev in
      if s = ''CRITICAL'' then 4 else if s = ''HIGH'' then 3 else if s = ''MEDIUM'' then 2
      else if s = ''LOW'' then 1 else 0)"

definition betterRematchVulnerability :: "vulnRow \<Rightarrow> vulnRow \<Rightarrow> bool" where
  "betterRematchVulnerability cand cur =
     (if vr_score cand \<noteq> vr_score cur then vr_score cand > vr_score cur
      else if severityRank (vr_severity cand) \<noteq> severityRank (vr_severity cur) then
        severityRank (vr_severity cand) > severityRank (vr_severity cur)
      else if (vr_fixed cand \<noteq> []) \<noteq> (vr_fixed cur \<noteq> []) then vr_fixed cand \<noteq> []
      else if (vr_title cand \<noteq> []) \<noteq> (vr_title cur \<noteq> []) then vr_title cand \<noteq> []
      else vr_url cand \<noteq> [] \<and> vr_url cur = [])"

definition decision :: "jsonColumns \<Rightarrow> pkgRow \<Rightarrow> cveRow \<Rightarrow> affectedProduct \<times> bool" where
  "decision jc p c =
     compatibleSecurityCandidate (jc_products jc) (pk_name p) (pk_type p) (pk_eco p) (pk_version p) (cv_category c)
       (cv_eco c) (cv_products c)"

section \<open>The loop\<close>

record rematchResult =
  rr_Matched :: int
  rr_NewVulns :: int
  rr_Skipped :: int
  rr_ScannedCandidates :: int
  rr_CandidateLimit :: int
  rr_Limited :: bool

text \<open>\<open>rf_rest\<close> are the failures of opening, preparing and committing the transaction.\<close>

record rematchFaults =
  rf_query :: bool
  rf_exists :: "pkgRow \<times> cveRow \<Rightarrow> bool"
  rf_begin :: bool
  rf_prepare :: bool
  rf_exec :: "vulnRow \<Rightarrow> bool"
  rf_commit :: bool

fun replaceKey :: "vulnRow \<Rightarrow> vulnRow list \<Rightarrow> vulnRow list" where
  "replaceKey v [] = []"
| "replaceKey v (w # ws) = (if vulnKey w = vulnKey v then v # ws else w # replaceKey v ws)"

text \<open>
  The map \<^verbatim>\<open>pending\<close> gives the place of each key in \<^verbatim>\<open>newVulns\<close>; here the list is searched. \<open>k\<close> counts the
  identifiers drawn.
\<close>

fun rematchLoop ::
  "jsonColumns \<Rightarrow> (nat \<Rightarrow> string) \<Rightarrow> (pkgRow \<times> cveRow \<Rightarrow> bool) \<Rightarrow> vulnRow list \<Rightarrow> (pkgRow \<times> cveRow) list \<Rightarrow> nat \<Rightarrow> int
    \<Rightarrow> rematchResult \<Rightarrow> vulnRow list \<Rightarrow> rematchResult \<times> vulnRow list" where
  "rematchLoop jc u bad table [] k seen r new = (r, new)"
| "rematchLoop jc u bad table ((p, c) # ms) k seen r new =
     (if \<not> snd (decision jc p c) then
        rematchLoop jc u bad table ms k seen (r\<lparr>rr_Skipped := rr_Skipped r + 1\<rparr>) new
      else if seen + 1 > rr_CandidateLimit r then (r\<lparr>rr_Limited := True\<rparr>, new)
      else
        (let r = r\<lparr>rr_Matched := rr_Matched r + 1\<rparr> in
         if bad (p, c) \<or> (pk_id p, pk_scan p, cv_vuln c) \<in> vulnKey ` set table then
           rematchLoop jc u bad table ms k (seen + 1) (r\<lparr>rr_Skipped := rr_Skipped r + 1\<rparr>) new
         else
           (let v = findingRow jc (u k) p c (hd (fixedVersions (fst (decision jc p c)))) in
            case find (\<lambda>w. vulnKey w = vulnKey v) new of
              Some w \<Rightarrow>
                rematchLoop jc u bad table ms (Suc k) (seen + 1) (r\<lparr>rr_Skipped := rr_Skipped r + 1\<rparr>)
                  (if betterRematchVulnerability v w then replaceKey v new else new)
            | None \<Rightarrow> rematchLoop jc u bad table ms (Suc k) (seen + 1) r (new @ [v]))))"

section \<open>Inserting\<close>

text \<open>
  \<^verbatim>\<open>ON CONFLICT ... DO NOTHING\<close> on the unique index. Once a statement has failed the others of the transaction
  fail too; the loop goes on over them.
\<close>

fun insertLoop :: "(vulnRow \<Rightarrow> bool) \<Rightarrow> bool \<Rightarrow> vulnRow list \<Rightarrow> vulnRow list \<Rightarrow> rematchResult
    \<Rightarrow> bool \<times> vulnRow list \<times> rematchResult" where
  "insertLoop bad aborted [] table r = (aborted, table, r)"
| "insertLoop bad aborted (v # vs) table r =
     (if aborted \<or> bad v then insertLoop bad True vs table r
      else if vulnKey v \<in> vulnKey ` set table then
        insertLoop bad False vs table (r\<lparr>rr_Skipped := rr_Skipped r + 1\<rparr>)
      else insertLoop bad False vs (table @ [v]) (r\<lparr>rr_NewVulns := rr_NewVulns r + 1\<rparr>))"

definition insertFindings :: "rematchFaults \<Rightarrow> vulnRow list \<Rightarrow> vulnRow list \<Rightarrow> rematchResult
    \<Rightarrow> rematchResult option \<times> vulnRow list" where
  "insertFindings flt table new r =
     (if new = [] then (Some r, table)
      else if rf_begin flt \<or> rf_prepare flt then (None, table)
      else
        (case insertLoop (rf_exec flt) False new table r of
           (aborted, table', r') \<Rightarrow> if aborted \<or> rf_commit flt then (None, table) else (Some r', table')))"

definition RematchCVEs ::
  "rematchFaults \<Rightarrow> ((pkgRow \<times> cveRow) list \<Rightarrow> (pkgRow \<times> cveRow) list) \<Rightarrow> jsonColumns \<Rightarrow> (nat \<Rightarrow> string) \<Rightarrow> rematchOptions
    \<Rightarrow> rematchState \<Rightarrow> rematchResult option \<times> rematchState" where
  "RematchCVEs flt arrange jc u o' st =
     (if rf_query flt then (None, st)
      else
        (let limit = candidateLimit o'; n = rowLimit limit; ms = take (nat n) (arrange (candidateRows jc st o'));
             r = \<lparr>rr_Matched = 0, rr_NewVulns = 0, rr_Skipped = 0, rr_ScannedCandidates = int (length ms),
                  rr_CandidateLimit = limit, rr_Limited = (int (length ms) \<ge> n)\<rparr>
         in case rematchLoop jc u (rf_exists flt) (rs_vulns st) ms 0 0 r [] of
              (r, new) \<Rightarrow>
                (case insertFindings flt (rs_vulns st) new r of (res, vs) \<Rightarrow> (res, st\<lparr>rs_vulns := vs\<rparr>))))"

section \<open>Runtimes\<close>

definition cpeProductVariants :: "string \<Rightarrow> string list" where
  "cpeProductVariants product0 =
     (let q = ToLower (TrimSpace product0) in
      if q \<in> set [''nodejs'', ''node'', ''node.js''] then [''nodejs'', ''node.js'', ''node'']
      else if q \<in> set [''jdk'', ''jre'', ''openjdk'', ''java''] then [''jdk'', ''jre'', ''openjdk'', ''java'', ''java_se'']
      else if q \<in> set [''go'', ''golang''] then [''go'', ''golang'']
      else [q])"

definition cpeFixedVersion :: "affectedProduct \<Rightarrow> string" where
  "cpeFixedVersion p =
     (let v = TrimSpace (VersionEndExcluding p) in if v \<noteq> [] then v else TrimSpace (VersionEndIncluding p))"

definition runtimePackages :: "rematchState \<Rightarrow> rematchOptions \<Rightarrow> pkgRow list" where
  "runtimePackages st o' =
     filter (\<lambda>p. pk_type p = ''runtime'' \<and> pk_eco p \<noteq> [] \<and> scanInScope st o' (pk_scan p)) (rs_packages st)"

definition cpeVariants :: "rematchState \<Rightarrow> rematchOptions \<Rightarrow> string list" where
  "cpeVariants st o' = remdups (concat (map (\<lambda>p. cpeProductVariants (ToLower (pk_eco p))) (runtimePackages st o')))"

definition cpeRows :: "jsonColumns \<Rightarrow> rematchState \<Rightarrow> rematchOptions \<Rightarrow> (pkgRow \<times> cveRow) list" where
  "cpeRows jc st o' =
     List.product (runtimePackages st o')
       (filter (\<lambda>c. cv_source c = ''nvd''
                  \<and> list_ex (\<lambda>e. ToLower (PProduct e) \<in> set (cpeVariants st o')) (productsOf jc c)) (rs_cves st))"

definition cpeDecision :: "jsonColumns \<Rightarrow> pkgRow \<Rightarrow> cveRow \<Rightarrow> affectedProduct \<times> bool" where
  "cpeDecision jc p c = compatibleCPECandidate (jc_products jc) (ToLower (pk_eco p)) (pk_version p) (cv_products c)"

fun cpeMatchLoop ::
  "jsonColumns \<Rightarrow> (nat \<Rightarrow> string) \<Rightarrow> (pkgRow \<times> cveRow) list \<Rightarrow> nat \<Rightarrow> rematchResult \<Rightarrow> vulnRow list
    \<Rightarrow> rematchResult \<times> vulnRow list" where
  "cpeMatchLoop jc u [] k r new = (r, new)"
| "cpeMatchLoop jc u ((p, c) # ms) k r new =
     (if \<not> snd (cpeDecision jc p c) then cpeMatchLoop jc u ms k (r\<lparr>rr_Skipped := rr_Skipped r + 1\<rparr>) new
      else if rr_Matched r \<ge> rr_CandidateLimit r then (r\<lparr>rr_Limited := True\<rparr>, new)
      else
        (let r = r\<lparr>rr_Matched := rr_Matched r + 1\<rparr>;
             v = findingRow jc (u k) p c (cpeFixedVersion (fst (cpeDecision jc p c))) in
         if vulnKey v \<in> vulnKey ` set new then
           cpeMatchLoop jc u ms (Suc k) (r\<lparr>rr_Skipped := rr_Skipped r + 1\<rparr>) new
         else cpeMatchLoop jc u ms (Suc k) r (new @ [v])))"

text \<open>\<open>rf_exists\<close> does not apply: this matcher leaves existing findings to the unique index.\<close>

definition RematchCPE ::
  "rematchFaults \<Rightarrow> ((pkgRow \<times> cveRow) list \<Rightarrow> (pkgRow \<times> cveRow) list) \<Rightarrow> jsonColumns \<Rightarrow> (nat \<Rightarrow> string) \<Rightarrow> rematchOptions
    \<Rightarrow> rematchState \<Rightarrow> rematchResult option \<times> rematchState" where
  "RematchCPE flt arrange jc u o' st =
     (let limit = (if ro_CandidateLimit o' \<le> 0 then DefaultRematchCandidateLimit else ro_CandidateLimit o');
          r = \<lparr>rr_Matched = 0, rr_NewVulns = 0, rr_Skipped = 0, rr_ScannedCandidates = 0,
               rr_CandidateLimit = limit, rr_Limited = False\<rparr>
      in if rf_query flt then (None, st)
         else if cpeVariants st o' = [] then (Some r, st)
         else
           (let ms = arrange (cpeRows jc st o') in
            case cpeMatchLoop jc u ms 0 (r\<lparr>rr_ScannedCandidates := int (length ms)\<rparr>) [] of
              (r, new) \<Rightarrow>
                (case insertFindings flt (rs_vulns st) new r of (res, vs) \<Rightarrow> (res, st\<lparr>rs_vulns := vs\<rparr>))))"

section \<open>Findings no advisory supports\<close>

definition packageOf :: "rematchState \<Rightarrow> vulnRow \<Rightarrow> pkgRow option" where
  "packageOf st v = find (\<lambda>p. pk_id p = vr_package v) (rs_packages st)"

text \<open>The name and version a finding is checked with; no name is an SQL \<^verbatim>\<open>NULL\<close>, which cannot be scanned.\<close>

definition checkedName :: "vulnRow \<Rightarrow> pkgRow \<Rightarrow> string option" where
  "checkedName v p = firstLabel (pk_name p) (vr_pkgName v)"

definition checkedVersion :: "vulnRow \<Rightarrow> pkgRow \<Rightarrow> string" where
  "checkedVersion v p = (if vr_installed v \<noteq> [] then vr_installed v else pk_version p)"

definition supportedBy :: "jsonColumns \<Rightarrow> vulnRow \<Rightarrow> pkgRow \<Rightarrow> cveRow \<Rightarrow> bool" where
  "supportedBy jc v p c \<longleftrightarrow>
     snd (compatibleSecurityCandidate (jc_products jc) (the (checkedName v p)) (pk_type p) (pk_eco p)
            (checkedVersion v p) (cv_category c) (cv_eco c) (cv_products c)) \<or>
     pk_type p = ''runtime'' \<and>
     snd (compatibleCPECandidate (jc_products jc) (pk_eco p) (checkedVersion v p) (cv_products c))"

definition isSupported :: "jsonColumns \<Rightarrow> rematchState \<Rightarrow> vulnRow \<Rightarrow> bool" where
  "isSupported jc st v =
     (case packageOf st v of
        None \<Rightarrow> True
      | Some p \<Rightarrow> list_ex (supportedBy jc v p) (filter (\<lambda>c. cv_vuln c = vr_vuln v) (rs_cves st)))"

definition cleanupPage :: "rematchState \<Rightarrow> string \<Rightarrow> nat \<Rightarrow> vulnRow list" where
  "cleanupPage st afterID limit =
     take limit (sort_key vr_id (filter (\<lambda>v. vr_source v = ''cve-db'' \<and> packageOf st v \<noteq> None
       \<and> (afterID = [] \<or> afterID < vr_id v)) (rs_vulns st)))"

definition staleRematchedVulnerabilityIDs ::
  "jsonColumns \<Rightarrow> rematchState \<Rightarrow> string \<Rightarrow> nat \<Rightarrow> (string list \<times> string \<times> nat) option" where
  "staleRematchedVulnerabilityIDs jc st afterID limit =
     (let page = cleanupPage st afterID limit in
      if list_ex (\<lambda>v. checkedName v (the (packageOf st v)) = None) page then None
      else Some (map vr_id (filter (\<lambda>v. \<not> isSupported jc st v) page),
                 if page = [] then [] else vr_id (last page), length page))"

record cleanupResult =
  cu_Scanned :: nat
  cu_Removed :: nat
  cu_Batches :: nat
  cu_BatchSize :: nat

definition cleanupBatchSize :: "int \<Rightarrow> nat" where
  "cleanupBatchSize n = nat (if n > 100000 then 100000 else n)"

text \<open>A full page ends on an identifier after the last one, and fewer findings lie after it.\<close>

definition behind :: "rematchState \<Rightarrow> string \<Rightarrow> vulnRow list" where
  "behind st afterID = filter (\<lambda>v. afterID = [] \<or> afterID < vr_id v) (rs_vulns st)"

lemma page_behind: "set (cleanupPage st afterID limit) \<subseteq> set (behind st afterID)"
  by (auto simp: cleanupPage_def behind_def dest: in_set_takeD)

lemma filter_shrinks: "v \<in> set xs \<Longrightarrow> P v \<Longrightarrow> \<not> Q v \<Longrightarrow> (\<And>x. x \<in> set xs \<Longrightarrow> Q x \<Longrightarrow> P x) \<Longrightarrow> length (filter Q xs) < length (filter P xs)"
proof -
  assume v: "v \<in> set xs" "P v" "\<not> Q v" and QP: "\<And>x. x \<in> set xs \<Longrightarrow> Q x \<Longrightarrow> P x"
  have "filter Q xs = filter Q (filter P xs)" using QP by (simp add: filter_filter cong: filter_cong) (metis (mono_tags, lifting) filter_cong)
  moreover have "length (filter Q (filter P xs)) < length (filter P xs)"
    using v by (intro length_filter_less [of v]) auto
  ultimately show ?thesis by simp
qed

lemma behind_shrinks:
  assumes "staleRematchedVulnerabilityIDs jc st afterID size' = Some (stale, lastID, scanned)" "lastID \<noteq> []"
  shows "length (behind (st\<lparr>rs_vulns := filter P (rs_vulns st)\<rparr>) lastID) < length (behind st afterID)"
proof -
  have page: "cleanupPage st afterID size' \<noteq> []" "lastID = vr_id (last (cleanupPage st afterID size'))"
    using assms by (auto simp: staleRematchedVulnerabilityIDs_def Let_def split: if_splits)
  define v where "v = last (cleanupPage st afterID size')"
  have v: "v \<in> set (behind st afterID)" "vr_id v = lastID"
    using page page_behind [of st afterID size'] last_in_set [OF page(1)] by (auto simp: v_def)
  have "length (filter (\<lambda>v. (lastID = [] \<or> lastID < vr_id v) \<and> P v) (rs_vulns st)) < length (behind st afterID)"
    unfolding behind_def using v assms(2)
    by (intro filter_shrinks [of v]) (auto simp: behind_def intro: less_trans)
  then show ?thesis by (simp add: behind_def filter_filter conj_commute)
qed

text \<open>\<open>bad n\<close> says which statements of the \<open>n\<close>-th turn fail: the query, the deletion.\<close>

function cleanupLoop ::
  "(nat \<Rightarrow> bool \<times> bool) \<Rightarrow> jsonColumns \<Rightarrow> nat \<Rightarrow> nat \<Rightarrow> string \<Rightarrow> cleanupResult \<Rightarrow> rematchState
    \<Rightarrow> bool \<times> cleanupResult \<times> rematchState" where
  "cleanupLoop bad jc n size' afterID res st =
     (if fst (bad n) then (False, res, st)
      else
        (case staleRematchedVulnerabilityIDs jc st afterID size' of
           None \<Rightarrow> (False, res, st)
         | Some (stale, lastID, scanned) \<Rightarrow>
             let res = res\<lparr>cu_Scanned := cu_Scanned res + scanned,
                           cu_Batches := cu_Batches res + (if scanned > 0 then 1 else 0)\<rparr>;
                 st' = st\<lparr>rs_vulns := filter (\<lambda>v. vr_id v \<notin> set stale) (rs_vulns st)\<rparr>;
                 removed = length (rs_vulns st) - length (rs_vulns st')
             in if stale \<noteq> [] \<and> snd (bad n) then (False, res, st)
                else
                  (let res = res\<lparr>cu_Removed := cu_Removed res + removed\<rparr> in
                   if scanned < size' \<or> lastID = [] then (True, res, st')
                   else cleanupLoop bad jc (Suc n) size' lastID res st')))"
  by pat_completeness auto

termination
proof (relation "measure (\<lambda>(bad, jc, n, size', afterID, res, st). length (behind st afterID))", goal_cases)
  case (2 bad jc n size' afterID res st x2 stale y lastID scanned res' st' removed res'')
  then show ?case using behind_shrinks [of jc st afterID size' stale lastID scanned] by auto
qed simp

declare cleanupLoop.simps [simp del]

definition RemoveStaleRematchedVulnerabilities ::
  "(nat \<Rightarrow> bool \<times> bool) \<Rightarrow> jsonColumns \<Rightarrow> int \<Rightarrow> rematchState \<Rightarrow> bool \<times> cleanupResult \<times> rematchState" where
  "RemoveStaleRematchedVulnerabilities bad jc batch st =
     (let size' = cleanupBatchSize batch in
      cleanupLoop bad jc 0 size' [] \<lparr>cu_Scanned = 0, cu_Removed = 0, cu_Batches = 0, cu_BatchSize = size'\<rparr> st)"

end
