(* ===== verification/Rematch_Exact.thy ===== *)
theory Rematch_Exact
  imports Rematch
begin

text \<open>
  What a match of the stored packages against the stored advisories adds to the findings, whichever statement
  fails; what the removal of unsupported findings removes; and which pairs the coarse SQL join may not miss.
\<close>

section \<open>The better of two findings\<close>

text \<open>The comparison is the lexicographic order of five criteria.\<close>

definition rankOf :: "vulnRow \<Rightarrow> rat \<times> int \<times> bool \<times> bool \<times> bool" where
  "rankOf v = (vr_score v, severityRank (vr_severity v), vr_fixed v \<noteq> [], vr_title v \<noteq> [], vr_url v \<noteq> [])"

lemma better_is_lexicographic: "betterRematchVulnerability cand cur \<longleftrightarrow> rankOf cur < rankOf cand"
  by (auto simp: betterRematchVulnerability_def rankOf_def less_prod_def)

lemma rankOf_ident: "rankOf (findingRow jc i p c f) = rankOf (findingRow jc j p c f)"
  by (simp add: rankOf_def findingRow_def)

lemma vulnKey_finding: "vulnKey (findingRow jc i p c f) = (pk_id p, pk_scan p, cv_vuln c)"
  by (simp add: vulnKey_def findingRow_def)

section \<open>Collecting the findings\<close>

lemma find_key:
  "find (\<lambda>w. vulnKey w = k) new = Some w \<Longrightarrow> w \<in> set new \<and> vulnKey w = k"
  "find (\<lambda>w. vulnKey w = k) new = None \<Longrightarrow> k \<notin> vulnKey ` set new"
  by (auto simp: find_Some_iff find_None_iff)

lemma replaceKey_keys: "map vulnKey (replaceKey v ws) = map vulnKey ws"
  by (induction ws) auto

lemma replaceKey_sub: "set (replaceKey v ws) \<subseteq> insert v (set ws)"
  by (induction ws) auto

lemma replaceKey_has: "vulnKey v \<in> vulnKey ` set ws \<Longrightarrow> v \<in> set (replaceKey v ws)"
  by (induction ws) auto

lemma replaceKey_keeps: "w \<in> set ws \<Longrightarrow> vulnKey w \<noteq> vulnKey v \<Longrightarrow> w \<in> set (replaceKey v ws)"
  by (induction ws) auto

text \<open>A list covers a finding when it has one with its key that is as good.\<close>

definition covers :: "vulnRow list \<Rightarrow> vulnRow \<Rightarrow> bool" where
  "covers ws v = list_ex (\<lambda>w. vulnKey w = vulnKey v \<and> rankOf v \<le> rankOf w) ws"

definition improves :: "vulnRow list \<Rightarrow> vulnRow list \<Rightarrow> bool" where
  "improves ws ws' = list_all (covers ws') ws"

lemma covers_self: "v \<in> set ws \<Longrightarrow> covers ws v"
  by (auto simp: covers_def list_ex_iff)

lemma improves_refl: "improves ws ws"
  by (simp add: improves_def list_all_iff covers_self)

lemma covers_improves: "covers ws v \<Longrightarrow> improves ws ws' \<Longrightarrow> covers ws' v"
  by (fastforce simp: covers_def improves_def list_ex_iff list_all_iff)

lemma improves_trans: "improves ws ws' \<Longrightarrow> improves ws' ws'' \<Longrightarrow> improves ws ws''"
  by (metis covers_improves improves_def list_all_iff)

lemma improves_append: "improves ws (ws @ vs)"
  by (simp add: improves_def list_all_iff covers_self)

lemma improves_replace:
  assumes "distinct (map vulnKey ws)" "w \<in> set ws" "vulnKey w = vulnKey v" "rankOf w \<le> rankOf v"
  shows "improves ws (replaceKey v ws)"
  unfolding improves_def list_all_iff
proof
  fix x assume x: "x \<in> set ws"
  show "covers (replaceKey v ws) x"
  proof (cases "vulnKey x = vulnKey v")
    case True
    then have "x = w" using assms(1-3) x by (metis distinct_map inj_onD)
    moreover have "v \<in> set (replaceKey v ws)" by (rule replaceKey_has) (use assms(2,3) in \<open>auto intro: rev_image_eqI\<close>)
    ultimately show ?thesis using assms by (auto simp: covers_def list_ex_iff)
  next
    case False
    then show ?thesis using x replaceKey_keeps covers_self by blast
  qed
qed

lemma covers_replace:
  assumes "w \<in> set ws" "vulnKey w = vulnKey v"
  shows "covers (replaceKey v ws) v"
proof -
  have "v \<in> set (replaceKey v ws)" by (rule replaceKey_has) (use assms in \<open>auto intro: rev_image_eqI\<close>)
  then show ?thesis by (rule covers_self)
qed

text \<open>The matches a run acts on and what it writes for one.\<close>

definition acted :: "jsonColumns \<Rightarrow> (pkgRow \<times> cveRow \<Rightarrow> bool) \<Rightarrow> vulnRow list \<Rightarrow> pkgRow \<times> cveRow \<Rightarrow> bool" where
  "acted jc bad table m \<longleftrightarrow>
     snd (decision jc (fst m) (snd m)) \<and> \<not> bad m
     \<and> (pk_id (fst m), pk_scan (fst m), cv_vuln (snd m)) \<notin> vulnKey ` set table"

definition findingFor :: "jsonColumns \<Rightarrow> pkgRow \<times> cveRow \<Rightarrow> string \<Rightarrow> vulnRow" where
  "findingFor jc m ident = findingRow jc ident (fst m) (snd m) (hd (fixedVersions (fst (decision jc (fst m) (snd m)))))"

lemma findingFor_key: "vulnKey (findingFor jc m i) = (pk_id (fst m), pk_scan (fst m), cv_vuln (snd m))"
  by (simp add: findingFor_def vulnKey_finding)

lemma covers_ident: "covers ws (findingFor jc m i) = covers ws (findingFor jc m j)"
  by (simp add: covers_def findingFor_key) (simp add: findingFor_def rankOf_ident [of jc i _ _ _ j])

definition collected :: "jsonColumns \<Rightarrow> (pkgRow \<times> cveRow \<Rightarrow> bool) \<Rightarrow> vulnRow list \<Rightarrow> (pkgRow \<times> cveRow) set \<Rightarrow> vulnRow list \<Rightarrow> bool" where
  "collected jc bad table ms new \<longleftrightarrow>
     distinct (map vulnKey new) \<and> (\<forall>v \<in> set new. \<exists>m \<in> ms. acted jc bad table m \<and> (\<exists>i. v = findingFor jc m i))"

lemma collected_mono: "collected jc bad table ms new \<Longrightarrow> ms \<subseteq> ms' \<Longrightarrow> collected jc bad table ms' new"
  by (fastforce simp: collected_def)

lemma collected_append:
  assumes "collected jc bad table ms new" "m \<in> ms" "acted jc bad table m" "vulnKey (findingFor jc m i) \<notin> vulnKey ` set new"
  shows "collected jc bad table ms (new @ [findingFor jc m i])"
  using assms by (auto simp: collected_def)

lemma collected_replace:
  assumes "collected jc bad table ms new" "m \<in> ms" "acted jc bad table m"
  shows "collected jc bad table ms (replaceKey (findingFor jc m i) new)"
  using assms replaceKey_sub [of "findingFor jc m i" new] by (fastforce simp: collected_def replaceKey_keys)

lemma rematchLoop_collects:
  assumes "rematchLoop jc u bad table ms k seen r new = (r', new')" "collected jc bad table ns new" "set ms \<subseteq> ns"
  shows "collected jc bad table ns new' \<and> improves new new' \<and> rr_NewVulns r' = rr_NewVulns r \<and> (rr_Limited r \<longrightarrow> rr_Limited r') \<and>
    (\<not> rr_Limited r' \<longrightarrow> (\<forall>m \<in> set ms. acted jc bad table m \<longrightarrow> covers new' (findingFor jc m [])))"
  using assms
proof (induction jc u bad table ms k seen r new rule: rematchLoop.induct)
  case (1 jc u bad table k seen r new)
  then show ?case by (simp add: improves_refl)
next
  case (2 jc u bad table p c ms k seen r new)
  define v where "v = findingRow jc (u k) p c (hd (fixedVersions (fst (decision jc p c))))"
  have v: "v = findingFor jc (p, c) (u k)" by (simp add: v_def findingFor_def)
  have m: "(p, c) \<in> ns" "set ms \<subseteq> ns" using "2.prems"(3) by auto
  have cov: "covers ws v \<Longrightarrow> improves ws new' \<Longrightarrow> covers new' (findingFor jc (p, c) [])" for ws
    using covers_improves covers_ident v by blast
  show ?case
  proof (cases "snd (decision jc p c)")
    case False
    then have "\<not> acted jc bad table (p, c)" by (simp add: acted_def)
    then show ?thesis using "2.IH"(1) [OF _ _ "2.prems"(2) m(2)] "2.prems"(1) False by simp
  next
    case yes: True
    show ?thesis
    proof (cases "seen + 1 > rr_CandidateLimit r")
      case True
      then show ?thesis using "2.prems" yes by (auto simp: improves_refl)
    next
      case lim: False
      show ?thesis
      proof (cases "bad (p, c) \<or> (pk_id p, pk_scan p, cv_vuln c) \<in> vulnKey ` set table")
        case True
        have "\<not> acted jc bad table (p, c)" using True by (auto simp: acted_def)
        then show ?thesis using "2.IH"(2) [OF _ lim refl True _ "2.prems"(2) m(2)] "2.prems"(1) yes lim True by (simp add: Let_def)
      next
        case False
        have act: "acted jc bad table (p, c)" using False yes by (simp add: acted_def)
        show ?thesis
        proof (cases "find (\<lambda>w. vulnKey w = vulnKey v) new")
          case None
          have nk: "vulnKey v \<notin> vulnKey ` set new" using find_key(2) [OF None] .
          have ih: "collected jc bad table ns new' \<and> improves (new @ [v]) new' \<and> rr_NewVulns r' = rr_NewVulns r \<and>
              (rr_Limited r \<longrightarrow> rr_Limited r') \<and>
              (\<not> rr_Limited r' \<longrightarrow> (\<forall>m \<in> set ms. acted jc bad table m \<longrightarrow> covers new' (findingFor jc m [])))"
            using "2.IH"(3) [OF _ lim refl False v_def] "2.prems"(1) yes lim False None m
              collected_append [OF "2.prems"(2) m(1) act, of "u k"] nk
            by (simp add: Let_def v_def [symmetric] v [symmetric])
          then show ?thesis using improves_trans [OF improves_append] cov [of "new @ [v]"] covers_self [of v "new @ [v]"] by auto
        next
          case (Some w)
          note w = find_key(1) [OF Some]
          define new1 where "new1 = (if betterRematchVulnerability v w then replaceKey v new else new)"
          have col: "collected jc bad table ns new1"
            using collected_replace [OF "2.prems"(2) m(1) act, of "u k"] "2.prems"(2) by (simp add: new1_def v)
          have imp: "improves new new1" "covers new1 v"
            using improves_replace [of new w v] covers_replace [of w new v] w "2.prems"(2)
            by (auto simp: new1_def better_is_lexicographic improves_refl collected_def)
              (auto simp: covers_def list_ex_iff not_less)
          have ih: "collected jc bad table ns new' \<and> improves new1 new' \<and> rr_NewVulns r' = rr_NewVulns r \<and>
              (rr_Limited r \<longrightarrow> rr_Limited r') \<and>
              (\<not> rr_Limited r' \<longrightarrow> (\<forall>m \<in> set ms. acted jc bad table m \<longrightarrow> covers new' (findingFor jc m [])))"
            using "2.IH"(4) [OF _ lim refl False v_def] "2.prems"(1) yes lim False Some m col
            by (simp add: Let_def v_def [symmetric] new1_def [symmetric])
          then show ?thesis using improves_trans [OF imp(1)] cov [OF imp(2)] by auto
        qed
      qed
    qed
  qed
qed

section \<open>Inserting the findings\<close>

definition newTo :: "vulnRow list \<Rightarrow> vulnRow list \<Rightarrow> vulnRow list" where
  "newTo table vs = filter (\<lambda>v. vulnKey v \<notin> vulnKey ` set table) vs"

lemma insertLoop_aborted: "insertLoop bad True vs table r = (True, table, r)"
  by (induction vs) auto

lemma newTo_append:
  assumes "vulnKey v \<notin> vulnKey ` set vs"
  shows "newTo (table @ [v]) vs = newTo table vs"
  unfolding newTo_def by (rule filter_cong) (use assms in \<open>auto intro: rev_image_eqI\<close>)

lemma insertLoop_exact:
  assumes "insertLoop bad False vs table r = (False, table', r')" "distinct (map vulnKey vs)"
  shows "table' = table @ newTo table vs \<and> rr_NewVulns r' = rr_NewVulns r + int (length (newTo table vs))
    \<and> rr_Limited r' = rr_Limited r"
  using assms
proof (induction vs arbitrary: table r)
  case (Cons v vs)
  show ?case
  proof (cases "vulnKey v \<in> vulnKey ` set table")
    case True
    then show ?thesis using Cons by (auto simp: newTo_def insertLoop_aborted split: if_splits)
  next
    case False
    then have "newTo table (v # vs) = v # newTo table vs" by (simp add: newTo_def)
    then show ?thesis
      using Cons.IH [of "table @ [v]" "r\<lparr>rr_NewVulns := rr_NewVulns r + 1\<rparr>"] Cons.prems False newTo_append [of v vs table]
      by (auto simp: insertLoop_aborted split: if_splits)
  qed
qed (simp add: newTo_def)

lemma insertFindings_exact:
  assumes "insertFindings flt table new r = (res, table')" "distinct (map vulnKey new)"
  shows "case res of None \<Rightarrow> table' = table
    | Some r' \<Rightarrow> table' = table @ newTo table new \<and> rr_NewVulns r' = rr_NewVulns r + int (length (newTo table new))
        \<and> rr_Limited r' = rr_Limited r"
proof (cases "new = []")
  case True
  then show ?thesis using assms(1) by (auto simp: insertFindings_def newTo_def)
next
  case False
  obtain ab t q where i: "insertLoop (rf_exec flt) False new table r = (ab, t, q)" by (cases "insertLoop (rf_exec flt) False new table r")
  then show ?thesis using False assms insertLoop_exact [of "rf_exec flt" new table r t q]
    by (auto simp: insertFindings_def split: if_splits)
qed

lemma newTo_keys:
  assumes "distinct (map vulnKey table)" "distinct (map vulnKey new)"
  shows "distinct (map vulnKey (table @ newTo table new))"
proof -
  have "distinct (map vulnKey (newTo table new))" using assms(2) by (simp add: newTo_def distinct_map_filter)
  then show ?thesis using assms(1) by (auto simp: newTo_def)
qed

lemma newTo_fresh: "\<forall>v \<in> set vs. vulnKey v \<notin> vulnKey ` set table \<Longrightarrow> newTo table vs = vs"
  by (simp add: newTo_def)

section \<open>A whole run\<close>

lemma rematchLoop_unlimited:
  assumes "seen + int (length ms) \<le> rr_CandidateLimit r"
  shows "rr_Limited (fst (rematchLoop jc u bad table ms k seen r new)) = rr_Limited r"
  using assms
  by (induction jc u bad table ms k seen r new rule: rematchLoop.induct) (auto simp: Let_def split: option.split)

lemma insertLoop_runs: "\<forall>v \<in> set vs. \<not> bad v \<Longrightarrow> \<not> fst (insertLoop bad False vs table r)"
  by (induction vs arbitrary: table r) auto

definition noFaults :: "rematchFaults \<Rightarrow> bool" where
  "noFaults flt \<longleftrightarrow> \<not> rf_query flt \<and> \<not> rf_begin flt \<and> \<not> rf_prepare flt \<and> \<not> rf_commit flt \<and> (\<forall>v. \<not> rf_exec flt v)"

lemma insertFindings_runs: "noFaults flt \<Longrightarrow> fst (insertFindings flt table new r) \<noteq> None"
  using insertLoop_runs [of new "rf_exec flt" table r]
  by (auto simp: insertFindings_def noFaults_def split: prod.split)

lemma candidateLimit_bounds: "0 < candidateLimit o'" "candidateLimit o' \<le> MaxRematchCandidateLimit"
  by (auto simp: candidateLimit_def Let_def DefaultRematchCandidateLimit_def MaxRematchCandidateLimit_def)

lemma rowLimit_above: "0 < limit \<Longrightarrow> limit \<le> MaxRematchCandidateLimit \<Longrightarrow> limit < rowLimit limit"
  by (auto simp: rowLimit_def Let_def MaxRematchCandidateLimit_def)

lemma take_all_below: "\<not> int (length (take (nat n) xs)) \<ge> n \<Longrightarrow> take (nat n) xs = xs"
  by (simp add: min_def split: if_splits)

definition allCovered :: "rematchFaults \<Rightarrow> jsonColumns \<Rightarrow> rematchState \<Rightarrow> rematchOptions \<Rightarrow> vulnRow list \<Rightarrow> bool" where
  "allCovered flt jc st o' new \<longleftrightarrow>
     (\<forall>m \<in> set (candidateRows jc st o'). acted jc (rf_exists flt) (rs_vulns st) m \<longrightarrow> covers new (findingFor jc m []))"

text \<open>What a run leaves: nothing if a statement failed, otherwise the findings of the matches it acted on.\<close>

definition ran :: "rematchFaults \<Rightarrow> jsonColumns \<Rightarrow> rematchState \<Rightarrow> rematchOptions \<Rightarrow> rematchResult option \<times> rematchState \<Rightarrow> bool" where
  "ran flt jc st o' out \<longleftrightarrow>
     (case fst out of
        None \<Rightarrow> snd out = st
      | Some r \<Rightarrow> \<exists>new. snd out = st\<lparr>rs_vulns := rs_vulns st @ new\<rparr> \<and> rr_NewVulns r = int (length new)
          \<and> collected jc (rf_exists flt) (rs_vulns st) (set (candidateRows jc st o')) new
          \<and> (\<not> rr_Limited r \<longrightarrow> allCovered flt jc st o' new))"

lemma collected_fresh: "collected jc bad table ms new \<Longrightarrow> newTo table new = new"
  by (rule newTo_fresh) (auto simp: collected_def acted_def findingFor_key)

definition fetched :: "((pkgRow \<times> cveRow) list \<Rightarrow> (pkgRow \<times> cveRow) list) \<Rightarrow> jsonColumns \<Rightarrow> rematchState \<Rightarrow> rematchOptions
    \<Rightarrow> (pkgRow \<times> cveRow) list" where
  "fetched arrange jc st o' = take (nat (rowLimit (candidateLimit o'))) (arrange (candidateRows jc st o'))"

definition firstResult :: "rematchOptions \<Rightarrow> (pkgRow \<times> cveRow) list \<Rightarrow> rematchResult" where
  "firstResult o' ms =
     \<lparr>rr_Matched = 0, rr_NewVulns = 0, rr_Skipped = 0, rr_ScannedCandidates = int (length ms),
      rr_CandidateLimit = candidateLimit o', rr_Limited = (int (length ms) \<ge> rowLimit (candidateLimit o'))\<rparr>"

lemma RematchCVEs_runs:
  "\<not> rf_query flt \<Longrightarrow> RematchCVEs flt arrange jc u o' st =
     (case rematchLoop jc u (rf_exists flt) (rs_vulns st) (fetched arrange jc st o') 0 0
             (firstResult o' (fetched arrange jc st o')) [] of
        (r, new) \<Rightarrow> (case insertFindings flt (rs_vulns st) new r of (res, vs) \<Rightarrow> (res, st\<lparr>rs_vulns := vs\<rparr>)))"
  by (simp only: RematchCVEs_def Let_def fetched_def firstResult_def if_False)

lemma rematch_ran:
  assumes "\<forall>xs. mset (arrange xs) = mset xs"
  shows "ran flt jc st o' (RematchCVEs flt arrange jc u o' st)"
proof (cases "rf_query flt")
  case True
  then show ?thesis by (simp add: ran_def RematchCVEs_def)
next
  case False
  define rows where "rows = candidateRows jc st o'"
  define ms where "ms = fetched arrange jc st o'"
  define r where "r = firstResult o' ms"
  obtain r1 new where l: "rematchLoop jc u (rf_exists flt) (rs_vulns st) ms 0 0 r [] = (r1, new)" by fastforce
  obtain res vs where i: "insertFindings flt (rs_vulns st) new r1 = (res, vs)" by fastforce
  have out: "RematchCVEs flt arrange jc u o' st = (res, st\<lparr>rs_vulns := vs\<rparr>)"
    using l i by (simp add: RematchCVEs_runs [OF False] ms_def [symmetric] r_def [symmetric])
  have rows: "set (arrange rows) = set rows" using assms by (metis set_mset_mset)
  have sub: "set ms \<subseteq> set rows" using rows by (auto simp: ms_def fetched_def rows_def dest: in_set_takeD)
  have "collected jc (rf_exists flt) (rs_vulns st) (set rows) []" by (simp add: collected_def)
  note loop = rematchLoop_collects [OF l this sub]
  have fresh: "newTo (rs_vulns st) new = new" using loop collected_fresh by blast
  have all: "set ms = set rows" if "\<not> rr_Limited r1"
  proof -
    have "\<not> int (length ms) \<ge> rowLimit (candidateLimit o')" using that loop by (auto simp: r_def firstResult_def)
    then have "ms = arrange rows" unfolding ms_def fetched_def rows_def by (rule take_all_below)
    then show ?thesis using rows by simp
  qed
  have "distinct (map vulnKey new)" using loop by (simp add: collected_def)
  note ins = insertFindings_exact [OF i this]
  show ?thesis
  proof (cases res)
    case None
    then show ?thesis using ins by (simp add: ran_def out)
  next
    case (Some r')
    have zero: "rr_NewVulns r = 0" by (simp add: r_def firstResult_def)
    have "allCovered flt jc st o' new" if "\<not> rr_Limited r'"
      using loop all that ins Some by (simp add: allCovered_def rows_def)
    then show ?thesis
      using loop fresh ins Some zero unfolding ran_def out by (intro exI [of _ new] | simp add: rows_def)+
  qed
qed

lemma rematch_returns:
  assumes "noFaults flt"
  shows "fst (RematchCVEs flt arrange jc u o' st) \<noteq> None"
  using assms insertFindings_runs [OF assms]
  by (auto simp: RematchCVEs_def Let_def noFaults_def split: prod.split) (metis fst_conv option.distinct(1))

lemma insertFindings_limited: "insertFindings flt table new r = (Some r', table') \<Longrightarrow> rr_Limited r' = rr_Limited r"
proof -
  have l: "rr_Limited (snd (snd (insertLoop bad ab vs t q))) = rr_Limited q" for bad ab vs t q
    by (induction bad ab vs t q rule: insertLoop.induct) auto
  then show "insertFindings flt table new r = (Some r', table') \<Longrightarrow> rr_Limited r' = rr_Limited r"
    by (auto simp: insertFindings_def split: if_splits prod.splits) (metis snd_conv)+
qed

lemma rematch_unlimited:
  assumes "\<forall>xs. mset (arrange xs) = mset xs" "int (length (candidateRows jc st o')) \<le> candidateLimit o'"
    "fst (RematchCVEs flt arrange jc u o' st) = Some r'"
  shows "\<not> rr_Limited r'"
proof -
  define ms where "ms = fetched arrange jc st o'"
  define r where "r = firstResult o' ms"
  have "length (arrange (candidateRows jc st o')) = length (candidateRows jc st o')" using assms(1) by (metis size_mset)
  then have len: "int (length ms) \<le> candidateLimit o'" using assms(2) by (simp add: ms_def fetched_def)
  have "candidateLimit o' < rowLimit (candidateLimit o')" by (intro rowLimit_above candidateLimit_bounds)
  then have r: "\<not> rr_Limited r" "rr_CandidateLimit r = candidateLimit o'" using len by (simp_all add: r_def firstResult_def)
  have q: "\<not> rf_query flt" using assms(3) by (auto simp: RematchCVEs_def)
  obtain r1 new where l: "rematchLoop jc u (rf_exists flt) (rs_vulns st) ms 0 0 r [] = (r1, new)" by fastforce
  have "\<not> rr_Limited r1"
    using rematchLoop_unlimited [of 0 ms r jc u "rf_exists flt" "rs_vulns st" 0 "[]"] l len r by simp
  then show ?thesis
    using assms(3) l insertFindings_limited [of flt "rs_vulns st" new r1 r']
    by (auto simp: RematchCVEs_runs [OF q] ms_def [symmetric] r_def [symmetric] split: prod.splits)
qed

end
