(* ===== verification/Rematch_Cleanup.thy ===== *)
theory Rematch_Cleanup
  imports Rematch_Exact
begin

text \<open>
  The removal of findings that no advisory supports: page by page it deletes exactly those, and never a finding
  that a match has just written. It works on a copy of the table whose identifiers differ and are not empty.
\<close>

section \<open>Pages\<close>

definition rematched :: "rematchState \<Rightarrow> vulnRow \<Rightarrow> bool" where
  "rematched st v \<longleftrightarrow> vr_source v = ''cve-db'' \<and> packageOf st v \<noteq> None"

definition unsupported :: "jsonColumns \<Rightarrow> rematchState \<Rightarrow> vulnRow \<Rightarrow> bool" where
  "unsupported jc st v \<longleftrightarrow> rematched st v \<and> \<not> isSupported jc st v"

definition dueRows :: "rematchState \<Rightarrow> string \<Rightarrow> vulnRow list" where
  "dueRows st a = filter (\<lambda>v. rematched st v \<and> (a = [] \<or> a < vr_id v)) (rs_vulns st)"

definition idsOk :: "rematchState \<Rightarrow> bool" where
  "idsOk st \<longleftrightarrow> distinct (map vr_id (rs_vulns st)) \<and> [] \<notin> vr_id ` set (rs_vulns st)"

lemma id_nonempty: "idsOk st \<Longrightarrow> v \<in> set (dueRows st a) \<Longrightarrow> vr_id v \<noteq> []"
  by (auto simp: idsOk_def dueRows_def image_iff)

lemma cleanupPage_due: "cleanupPage st a n = take n (sort_key vr_id (dueRows st a))"
  by (simp add: cleanupPage_def dueRows_def rematched_def conj_assoc)

lemma due_sub: "set (dueRows st a) \<subseteq> set (rs_vulns st)"
  by (auto simp: dueRows_def)

lemma rematched_update [simp]: "rematched (st\<lparr>rs_vulns := vs\<rparr>) v = rematched st v"
  by (simp add: rematched_def packageOf_def)

lemma isSupported_update [simp]: "isSupported jc (st\<lparr>rs_vulns := vs\<rparr>) v = isSupported jc st v"
  by (simp add: isSupported_def packageOf_def split: option.split)

lemma unsupported_update [simp]: "unsupported jc (st\<lparr>rs_vulns := vs\<rparr>) v = unsupported jc st v"
  by (simp add: unsupported_def)

lemma idsOk_filter: "idsOk st \<Longrightarrow> idsOk (st\<lparr>rs_vulns := filter P (rs_vulns st)\<rparr>)"
  by (auto simp: idsOk_def distinct_map_filter)

lemma sorted_ids:
  assumes "idsOk st"
  shows "sorted_wrt (<) (map vr_id (sort_key vr_id (dueRows st a)))"
proof -
  have "distinct (map vr_id (dueRows st a))" using assms by (simp add: idsOk_def dueRows_def distinct_map_filter)
  then have "distinct (map vr_id (sort_key vr_id (dueRows st a)))"
    by (simp add: distinct_map)
  then show ?thesis by (simp add: strict_sorted_iff)
qed

text \<open>A page has the findings up to its last one, and a page that is not full has them all.\<close>

lemma page_upto:
  assumes "idsOk st" "v \<in> set (dueRows st a)" "cleanupPage st a n \<noteq> []"
  shows "v \<in> set (cleanupPage st a n) \<longleftrightarrow> \<not> vr_id (last (cleanupPage st a n)) < vr_id v"
proof -
  define l where "l = sort_key vr_id (dueRows st a)"
  have page: "cleanupPage st a n = take n l" by (simp add: cleanupPage_due l_def)
  have v: "v \<in> set (take n l) \<or> v \<in> set (drop n l)"
    using assms(2) by (metis append_take_drop_id Un_iff l_def set_append set_sort)
  have ne: "take n l \<noteq> []" using assms(3) page by simp
  have s: "sorted_wrt (<) (map vr_id (take n l) @ map vr_id (drop n l))"
    using sorted_ids [OF assms(1), of a] by (simp add: l_def flip: map_append)
  have up: "vr_id x < vr_id y" if "x \<in> set (take n l)" "y \<in> set (drop n l)" for x y
    using s that by (auto simp: sorted_wrt_append)
  have lastle: "vr_id x \<le> vr_id (last (take n l))" if "x \<in> set (take n l)" for x
  proof -
    have "sorted (map vr_id (take n l))" using s by (auto simp: sorted_wrt_append strict_sorted_iff)
    then have "sorted (map vr_id (butlast (take n l)) @ [vr_id (last (take n l))])"
      using append_butlast_last_id [OF ne] by (metis list.simps(8) list.simps(9) map_append)
    then show ?thesis using that append_butlast_last_id [OF ne]
      by (metis Un_iff empty_iff image_eqI insert_iff list.set(1) list.set(2) list.set_map order_refl set_append sorted_append)
  qed
  show ?thesis using v up [OF last_in_set [OF ne]] lastle unfolding page by (meson leD)
qed

lemma short_page: "length (cleanupPage st a n) < n \<Longrightarrow> set (cleanupPage st a n) = set (dueRows st a)"
  by (simp add: cleanupPage_due min_def split: if_splits)

definition stalePage :: "jsonColumns \<Rightarrow> rematchState \<Rightarrow> string \<Rightarrow> nat \<Rightarrow> vulnRow list" where
  "stalePage jc st a n = filter (\<lambda>v. \<not> isSupported jc st v) (cleanupPage st a n)"

lemma stale_ids:
  assumes "idsOk st" "v \<in> set (rs_vulns st)"
  shows "vr_id v \<in> vr_id ` set (stalePage jc st a n) \<longleftrightarrow> v \<in> set (stalePage jc st a n)"
proof -
  have "set (stalePage jc st a n) \<subseteq> set (rs_vulns st)"
    using due_sub [of st a] by (auto simp: stalePage_def cleanupPage_due dest!: in_set_takeD)
  then show ?thesis using assms by (auto simp: idsOk_def distinct_map dest: inj_onD)
qed

lemma page_due: "v \<in> set (cleanupPage st a n) \<Longrightarrow> v \<in> set (dueRows st a)"
  by (auto simp: cleanupPage_due dest!: in_set_takeD)

section \<open>The loop\<close>

definition cleans :: "jsonColumns \<Rightarrow> string \<Rightarrow> rematchState \<Rightarrow> bool \<Rightarrow> rematchState \<Rightarrow> bool" where
  "cleans jc a st ok st' \<longleftrightarrow>
     (\<exists>P. st' = st\<lparr>rs_vulns := filter P (rs_vulns st)\<rparr> \<and> (\<forall>v \<in> set (rs_vulns st). \<not> P v \<longrightarrow> unsupported jc st v) \<and>
       (ok \<longrightarrow> (\<forall>v \<in> set (rs_vulns st). P v \<longleftrightarrow> \<not> (unsupported jc st v \<and> (a = [] \<or> a < vr_id v)))))"

lemma cleans_nothing: "cleans jc a st False st"
  by (auto simp: cleans_def intro!: exI [of _ "\<lambda>_. True"])

lemma cleans_step:
  assumes ids: "idsOk st" and n: "0 < n"
    and st1: "st1 = st\<lparr>rs_vulns := filter (\<lambda>v. vr_id v \<notin> vr_id ` set (stalePage jc st a n)) (rs_vulns st)\<rparr>"
    and more: "if length (cleanupPage st a n) < n then ok \<and> st' = st1
      else cleans jc (vr_id (last (cleanupPage st a n))) st1 ok st'"
  shows "cleans jc a st ok st'"
proof -
  let ?page = "cleanupPage st a n"
  have gone: "vr_id v \<in> vr_id ` set (stalePage jc st a n) \<longleftrightarrow> unsupported jc st v \<and> v \<in> set ?page"
    if "v \<in> set (rs_vulns st)" for v
    using stale_ids [OF ids that] by (auto simp: stalePage_def unsupported_def dueRows_def dest: page_due)
  show ?thesis
  proof (cases "length ?page < n")
    case True
    have "v \<in> set ?page \<longleftrightarrow> rematched st v \<and> (a = [] \<or> a < vr_id v)" if "v \<in> set (rs_vulns st)" for v
      using short_page [OF True] that by (simp add: dueRows_def)
    then show ?thesis using more True gone
      by (auto simp: cleans_def st1 unsupported_def intro!: exI [of _ "\<lambda>v. vr_id v \<notin> vr_id ` set (stalePage jc st a n)"])
  next
    case False
    let ?b = "vr_id (last ?page)"
    have ne: "?page \<noteq> []" using False n by auto
    have b: "a = [] \<or> a < ?b" "?b \<noteq> []"
      using page_due [OF last_in_set [OF ne]] id_nonempty [OF ids] by (auto simp: dueRows_def)
    obtain P where P: "st' = st1\<lparr>rs_vulns := filter P (rs_vulns st1)\<rparr>"
      "\<forall>v \<in> set (rs_vulns st1). \<not> P v \<longrightarrow> unsupported jc st1 v"
      "ok \<longrightarrow> (\<forall>v \<in> set (rs_vulns st1). P v \<longleftrightarrow> \<not> (unsupported jc st1 v \<and> (?b = [] \<or> ?b < vr_id v)))"
      using more False unfolding cleans_def by auto
    let ?Q = "\<lambda>v. vr_id v \<notin> vr_id ` set (stalePage jc st a n) \<and> P v"
    have upto: "v \<in> set ?page \<longleftrightarrow> \<not> ?b < vr_id v" if "v \<in> set (rs_vulns st)" "rematched st v" "a = [] \<or> a < vr_id v" for v
      using that page_upto [OF ids _ ne] by (simp add: dueRows_def)
    have "st' = st\<lparr>rs_vulns := filter ?Q (rs_vulns st)\<rparr>"
      using P(1) by (simp add: st1 filter_filter conj_commute)
    moreover have "\<forall>v \<in> set (rs_vulns st). \<not> ?Q v \<longrightarrow> unsupported jc st v"
    proof (intro ballI impI)
      fix v assume v: "v \<in> set (rs_vulns st)" "\<not> ?Q v"
      show "unsupported jc st v"
      proof (cases "vr_id v \<in> vr_id ` set (stalePage jc st a n)")
        case True
        then show ?thesis using gone [OF v(1)] by simp
      next
        case False
        then have "v \<in> set (rs_vulns st1)" "\<not> P v" using v by (simp_all add: st1)
        then show ?thesis using P(2) by (auto simp: st1)
      qed
    qed
    moreover have "?Q v \<longleftrightarrow> \<not> (unsupported jc st v \<and> (a = [] \<or> a < vr_id v))" if "ok" "v \<in> set (rs_vulns st)" for v
    proof (cases "unsupported jc st v")
      case True
      have g: "vr_id v \<in> vr_id ` set (stalePage jc st a n) \<longleftrightarrow> v \<in> set ?page" using gone [OF that(2)] True by simp
      have out: "P v \<longleftrightarrow> \<not> ?b < vr_id v" if "v \<notin> set ?page"
        using P(3) \<open>ok\<close> that g \<open>v \<in> set (rs_vulns st)\<close> True b(2) by (simp add: st1)
      show ?thesis
      proof (cases "a = [] \<or> a < vr_id v")
        case inside: True
        have "v \<in> set ?page \<longleftrightarrow> \<not> ?b < vr_id v" using upto [OF that(2) _ inside] True by (simp add: unsupported_def)
        then show ?thesis using g out inside True by blast
      next
        case outside: False
        have "v \<notin> set ?page" using page_due outside by (auto simp: dueRows_def)
        moreover have "\<not> ?b < vr_id v" using b(1) outside by (auto dest: less_trans)
        ultimately show ?thesis using g out outside by blast
      qed
    next
      case False
      then show ?thesis using gone [OF that(2)] P(2) that(2) by (simp add: st1) blast
    qed
    ultimately show ?thesis unfolding cleans_def by blast
  qed
qed

lemma cleanupLoop_cleans:
  assumes "cleanupLoop bad jc n size' a res st = (ok, res', st')" "idsOk st" "0 < size'"
  shows "cleans jc a st ok st'"
  using assms
proof (induction bad jc n size' a res st rule: cleanupLoop.induct)
  case (1 bad jc n size' a res st)
  show ?case
  proof (cases "fst (bad n) \<or> staleRematchedVulnerabilityIDs jc st a size' = None")
    case True
    then show ?thesis using "1.prems"(1) by (auto simp: cleanupLoop.simps [of bad jc n] cleans_nothing split: if_splits)
  next
    case False
    then obtain stale lastID scanned where ids: "staleRematchedVulnerabilityIDs jc st a size' = Some (stale, lastID, scanned)"
      by auto
    then have parts: "stale = map vr_id (stalePage jc st a size')" "scanned = length (cleanupPage st a size')"
      "lastID = (if cleanupPage st a size' = [] then [] else vr_id (last (cleanupPage st a size')))"
      by (auto simp: staleRematchedVulnerabilityIDs_def Let_def stalePage_def split: if_splits)
    define st1 where "st1 = st\<lparr>rs_vulns := filter (\<lambda>v. vr_id v \<notin> vr_id ` set (stalePage jc st a size')) (rs_vulns st)\<rparr>"
    have ids1: "idsOk st1" unfolding st1_def using "1.prems"(2) by (rule idsOk_filter)
    have nonempty: "lastID \<noteq> []" if "\<not> scanned < size'"
    proof -
      have "cleanupPage st a size' \<noteq> []" using that parts(2) "1.prems"(3) by auto
      then show ?thesis using parts(3) id_nonempty [OF "1.prems"(2) page_due [OF last_in_set]] by simp
    qed
    show ?thesis
    proof (cases "stale \<noteq> [] \<and> snd (bad n)")
      case True
      then show ?thesis using "1.prems"(1) False ids by (auto simp: cleanupLoop.simps [of bad jc n] cleans_nothing)
    next
      case nofail: False
      show ?thesis
      proof (rule cleans_step [OF "1.prems"(2,3) st1_def])
        show "if length (cleanupPage st a size') < size' then ok \<and> st' = st1
          else cleans jc (vr_id (last (cleanupPage st a size'))) st1 ok st'"
        proof (cases "scanned < size'")
          case True
          then show ?thesis using "1.prems"(1) False ids nofail parts
            by (auto simp: cleanupLoop.simps [of bad jc n] st1_def)
        next
          case full: False
          have "cleans jc lastID st1 ok st'"
            using "1.IH" [OF _ ids refl refl refl refl refl _ refl] "1.prems"(1,3) False ids nofail full nonempty [OF full] ids1
            by (auto simp: cleanupLoop.simps [of bad jc n] st1_def parts(1))
          then show ?thesis using full parts nonempty [OF full] by (auto split: if_splits)
        qed
      qed
    qed
  qed
qed

section \<open>What a match writes is supported\<close>

text \<open>The index names packages, as its construction ensures; package identifiers differ.\<close>

definition storeOk :: "rematchState \<Rightarrow> bool" where
  "storeOk st \<longleftrightarrow> distinct (map pk_id (rs_packages st)) \<and> list_all (\<lambda>r. cp_name r \<noteq> []) (rs_index st)"

lemma ToLower_nil [simp]: "ToLower s = [] \<longleftrightarrow> s = []"
  by (simp add: ToLower_def)

lemma index_has_names: "list_all (\<lambda>r. cp_name r \<noteq> []) (rs_index (RebuildCveAffectedPackages jc st))"
  by (auto simp: RebuildCveAffectedPackages_def indexRows_def list_all_iff split: option.splits)

lemma packageOf_finding:
  assumes "storeOk st" "p \<in> set (rs_packages st)"
  shows "packageOf st (findingRow jc i p c f) = Some p"
proof -
  obtain q where "find (\<lambda>q. pk_id q = pk_id p) (rs_packages st) = Some q"
    using assms(2) by (cases "find (\<lambda>q. pk_id q = pk_id p) (rs_packages st)") (auto simp: find_None_iff)
  moreover from this have "q = p"
    using assms by (auto simp: storeOk_def find_Some_iff distinct_map dest!: inj_onD)
  ultimately show ?thesis by (simp add: packageOf_def findingRow_def)
qed

lemma finding_checked:
  "checkedVersion (findingRow jc i p c f) p = pk_version p" "pk_name p \<noteq> [] \<Longrightarrow> checkedName (findingRow jc i p c f) p = Some (pk_name p)"
  by (simp_all add: checkedVersion_def checkedName_def firstLabel_def findingRow_def)

lemma candidate_row:
  assumes "(p, c) \<in> set (candidateRows jc st o')" "storeOk st"
  shows "p \<in> set (rs_packages st)" "c \<in> set (rs_cves st)" "pk_name p \<noteq> []"
  using assms by (auto simp: candidateRows_def storeOk_def list_all_iff)

lemma found_supported:
  assumes "(p, c) \<in> set (candidateRows jc st o')" "storeOk st" "snd (decision jc p c)"
  shows "isSupported jc st (findingRow jc i p c f)"
proof -
  note row = candidate_row [OF assms(1,2)]
  have "supportedBy jc (findingRow jc i p c f) p c"
    using assms(3) by (simp add: supportedBy_def finding_checked row decision_def)
  then show ?thesis
    using row by (auto simp: isSupported_def packageOf_finding [OF assms(2) row(1)] list_ex_iff) (auto simp: findingRow_def)
qed

lemma cpe_lower: "compatibleCPECandidate d (ToLower cpe) v ap = compatibleCPECandidate d cpe v ap"
  by (simp add: compatibleCPECandidate_def TrimSpace_ToLower)

lemma cpe_supported:
  assumes "(p, c) \<in> set (cpeRows jc st o')" "storeOk st" "snd (cpeDecision jc p c)"
  shows "isSupported jc st (findingRow jc i p c f)"
proof -
  have row: "p \<in> set (rs_packages st)" "c \<in> set (rs_cves st)" "pk_type p = ''runtime''"
    using assms(1) by (auto simp: cpeRows_def runtimePackages_def)
  have "supportedBy jc (findingRow jc i p c f) p c"
    using assms(3) by (simp add: supportedBy_def finding_checked row cpeDecision_def cpe_lower)
  then show ?thesis
    using row by (auto simp: isSupported_def packageOf_finding [OF assms(2) row(1)] list_ex_iff) (auto simp: findingRow_def)
qed

section \<open>The matcher of runtimes\<close>

definition cpeFinding :: "jsonColumns \<Rightarrow> pkgRow \<times> cveRow \<Rightarrow> string \<Rightarrow> vulnRow" where
  "cpeFinding jc m i = findingRow jc i (fst m) (snd m) (cpeFixedVersion (fst (cpeDecision jc (fst m) (snd m))))"

definition cpeAccepted :: "jsonColumns \<Rightarrow> pkgRow \<times> cveRow \<Rightarrow> bool" where
  "cpeAccepted jc m = snd (cpeDecision jc (fst m) (snd m))"

definition cpeCollected :: "jsonColumns \<Rightarrow> (pkgRow \<times> cveRow) set \<Rightarrow> vulnRow list \<Rightarrow> bool" where
  "cpeCollected jc ms new \<longleftrightarrow>
     distinct (map vulnKey new) \<and> (\<forall>v \<in> set new. \<exists>m \<in> ms. cpeAccepted jc m \<and> (\<exists>i. v = cpeFinding jc m i))"

lemma cpeFinding_key: "vulnKey (cpeFinding jc m i) = (pk_id (fst m), pk_scan (fst m), cv_vuln (snd m))"
  by (simp add: cpeFinding_def vulnKey_finding)

lemma cpeCollected_append:
  assumes "cpeCollected jc ns new" "m \<in> ns" "cpeAccepted jc m" "vulnKey (cpeFinding jc m i) \<notin> vulnKey ` set new"
  shows "cpeCollected jc ns (new @ [cpeFinding jc m i])"
  using assms by (auto simp: cpeCollected_def)

lemma cpeMatchLoop_collects:
  assumes "cpeMatchLoop jc u ms k r new = (r', new')" "cpeCollected jc ns new" "set ms \<subseteq> ns"
  shows "cpeCollected jc ns new' \<and> set new \<subseteq> set new' \<and> rr_NewVulns r' = rr_NewVulns r \<and>
    (rr_Limited r \<longrightarrow> rr_Limited r') \<and>
    (\<not> rr_Limited r' \<longrightarrow> (\<forall>m \<in> set ms. cpeAccepted jc m \<longrightarrow> vulnKey (cpeFinding jc m []) \<in> vulnKey ` set new'))"
  using assms
proof (induction jc u ms k r new rule: cpeMatchLoop.induct)
  case (2 jc u p c ms k r new)
  have m: "(p, c) \<in> ns" "set ms \<subseteq> ns" using "2.prems"(3) by auto
  define v where "v = findingRow jc (u k) p c (cpeFixedVersion (fst (cpeDecision jc p c)))"
  have v: "v = cpeFinding jc (p, c) (u k)" by (simp add: v_def cpeFinding_def)
  have key: "vulnKey (cpeFinding jc (p, c) i) = vulnKey v" for i by (simp add: v cpeFinding_key)
  show ?case
  proof (cases "snd (cpeDecision jc p c)")
    case False
    then show ?thesis using 2 m by (auto simp: cpeAccepted_def)
  next
    case yes: True
    show ?thesis
    proof (cases "rr_Matched r \<ge> rr_CandidateLimit r")
      case True
      then show ?thesis using "2.prems" yes by auto
    next
      case lim: False
      show ?thesis
      proof (cases "vulnKey v \<in> vulnKey ` set new")
        case True
        have "cpeCollected jc ns new' \<and> set new \<subseteq> set new' \<and> rr_NewVulns r' = rr_NewVulns r \<and>
            (rr_Limited r \<longrightarrow> rr_Limited r') \<and>
            (\<not> rr_Limited r' \<longrightarrow> (\<forall>m \<in> set ms. cpeAccepted jc m \<longrightarrow> vulnKey (cpeFinding jc m []) \<in> vulnKey ` set new'))"
          using "2.IH"(2) [OF _ lim refl v_def True] "2.prems"(1,2) yes lim True m(2)
          by (simp add: Let_def v_def [symmetric])
        then show ?thesis using True by (auto simp: key)
      next
        case False
        have "cpeCollected jc ns new' \<and> set (new @ [v]) \<subseteq> set new' \<and> rr_NewVulns r' = rr_NewVulns r \<and>
            (rr_Limited r \<longrightarrow> rr_Limited r') \<and>
            (\<not> rr_Limited r' \<longrightarrow> (\<forall>m \<in> set ms. cpeAccepted jc m \<longrightarrow> vulnKey (cpeFinding jc m []) \<in> vulnKey ` set new'))"
          using "2.IH"(3) [OF _ lim refl v_def False] "2.prems"(1) yes lim False m(2)
            cpeCollected_append [OF "2.prems"(2) m(1), of "u k"]
          by (simp add: Let_def v_def [symmetric] v [symmetric] cpeAccepted_def)
        then show ?thesis by (auto simp: key)
      qed
    qed
  qed
qed simp

definition ranCPE :: "jsonColumns \<Rightarrow> rematchState \<Rightarrow> rematchOptions \<Rightarrow> rematchResult option \<times> rematchState \<Rightarrow> bool" where
  "ranCPE jc st o' out \<longleftrightarrow>
     (case fst out of
        None \<Rightarrow> snd out = st
      | Some r \<Rightarrow> \<exists>new. snd out = st\<lparr>rs_vulns := rs_vulns st @ newTo (rs_vulns st) new\<rparr>
          \<and> rr_NewVulns r = int (length (newTo (rs_vulns st) new)) \<and> cpeCollected jc (set (cpeRows jc st o')) new
          \<and> (\<not> rr_Limited r \<longrightarrow>
               (\<forall>m \<in> set (cpeRows jc st o'). cpeAccepted jc m \<longrightarrow> vulnKey (cpeFinding jc m []) \<in> vulnKey ` set new)))"

lemma cpeRows_empty: "cpeVariants st o' = [] \<Longrightarrow> cpeRows jc st o' = []"
proof -
  have "cpeProductVariants e \<noteq> []" for e by (simp add: cpeProductVariants_def Let_def)
  then have "cpeVariants st o' = [] \<Longrightarrow> runtimePackages st o' = []"
    by (auto simp: cpeVariants_def)
  then show "cpeVariants st o' = [] \<Longrightarrow> cpeRows jc st o' = []" by (simp add: cpeRows_def)
qed

lemma cpe_ran:
  assumes "\<forall>xs. mset (arrange xs) = mset xs"
  shows "ranCPE jc st o' (RematchCPE flt arrange jc u o' st)"
proof (cases "rf_query flt \<or> cpeVariants st o' = []")
  case True
  then show ?thesis
    by (auto simp: ranCPE_def RematchCPE_def Let_def cpeRows_empty cpeCollected_def newTo_def intro!: exI [of _ "[]"])
next
  case False
  define ms where "ms = arrange (cpeRows jc st o')"
  define r where "r = \<lparr>rr_Matched = 0, rr_NewVulns = 0, rr_Skipped = 0, rr_ScannedCandidates = int (length ms),
    rr_CandidateLimit = (if ro_CandidateLimit o' \<le> 0 then DefaultRematchCandidateLimit else ro_CandidateLimit o'), rr_Limited = False\<rparr>"
  obtain r1 new where l: "cpeMatchLoop jc u ms 0 r [] = (r1, new)" by fastforce
  obtain res vs where i: "insertFindings flt (rs_vulns st) new r1 = (res, vs)" by fastforce
  have out: "RematchCPE flt arrange jc u o' st = (res, st\<lparr>rs_vulns := vs\<rparr>)"
    using False l i by (simp add: RematchCPE_def Let_def ms_def [symmetric] r_def)
  have rows: "set ms = set (cpeRows jc st o')" using assms by (metis ms_def set_mset_mset)
  have "cpeCollected jc (set (cpeRows jc st o')) []" by (simp add: cpeCollected_def)
  from cpeMatchLoop_collects [OF l this] have loop: "cpeCollected jc (set (cpeRows jc st o')) new" "rr_NewVulns r1 = 0"
    "\<not> rr_Limited r1 \<Longrightarrow> \<forall>m \<in> set (cpeRows jc st o'). cpeAccepted jc m \<longrightarrow> vulnKey (cpeFinding jc m []) \<in> vulnKey ` set new"
    by (simp_all add: rows r_def)
  then have "distinct (map vulnKey new)" by (simp add: cpeCollected_def)
  note ins = insertFindings_exact [OF i this]
  show ?thesis
  proof (cases res)
    case None
    then show ?thesis using ins by (simp add: ranCPE_def out)
  next
    case (Some r')
    then show ?thesis
      using loop ins unfolding ranCPE_def out by (intro exI [of _ new] | simp)+
  qed
qed

end
