(* ===== verification/Rematch_Safety.thy ===== *)
theory Rematch_Safety
  imports Rematch_Cleanup
begin

text \<open>
  The properties of matching: what one run adds, what it leaves when statements fail or limits are reached, what
  the removal of unsupported findings removes, and which pairs the index must propose.
\<close>

section \<open>Running to the end\<close>

lemma collected_keys:
  assumes "distinct (map vulnKey table)" "collected jc bad table ms new"
  shows "distinct (map vulnKey (table @ new))"
  using newTo_keys [OF assms(1), of new] collected_fresh [OF assms(2)] assms(2) by (simp add: collected_def)

lemma ran_keys:
  assumes "ran flt jc st o' out" "distinct (map vulnKey (rs_vulns st))"
  shows "distinct (map vulnKey (rs_vulns (snd out)))"
  using assms collected_keys [OF assms(2)] by (cases "fst out") (auto simp: ran_def)

lemma ranCPE_keys:
  assumes "ranCPE jc st o' out" "distinct (map vulnKey (rs_vulns st))"
  shows "distinct (map vulnKey (rs_vulns (snd out)))"
  using assms newTo_keys [OF assms(2)] by (cases "fst out") (auto simp: ranCPE_def cpeCollected_def simp del: map_append)

lemma ran_new:
  assumes "ran flt jc st o' out"
  obtains new where "snd out = st\<lparr>rs_vulns := rs_vulns st @ new\<rparr>"
    "\<forall>v \<in> set new. \<exists>m \<in> set (candidateRows jc st o'). acted jc (rf_exists flt) (rs_vulns st) m \<and> (\<exists>i. v = findingFor jc m i)"
proof (cases "fst out")
  case None
  then show ?thesis using assms that [of "[]"] by (simp add: ran_def)
next
  case (Some r)
  then show ?thesis using assms that by (auto simp: ran_def collected_def)
qed

lemma ranCPE_new:
  assumes "ranCPE jc st o' out"
  obtains new where "snd out = st\<lparr>rs_vulns := rs_vulns st @ new\<rparr>"
    "\<forall>v \<in> set new. \<exists>m \<in> set (cpeRows jc st o'). cpeAccepted jc m \<and> (\<exists>i. v = cpeFinding jc m i)"
proof (cases "fst out")
  case None
  then show ?thesis using assms that [of "[]"] by (simp add: ranCPE_def)
next
  case (Some r)
  then obtain new where "snd out = st\<lparr>rs_vulns := rs_vulns st @ newTo (rs_vulns st) new\<rparr>" "cpeCollected jc (set (cpeRows jc st o')) new"
    using assms by (auto simp: ranCPE_def)
  then show ?thesis using that [of "newTo (rs_vulns st) new"] by (simp add: cpeCollected_def newTo_def)
qed

definition sampleProduct :: affectedProduct where
  "sampleProduct = noProduct\<lparr>PName := ''axios'', PEcosystem := ''npm'', PFixed := [''1.2'']\<rparr>"

definition samplePackage :: pkgRow where
  "samplePackage = \<lparr>pk_id = ''p'', pk_name = ''Axios'', pk_version = ''1.1'', pk_host = ''h'', pk_scan = ''s'',
     pk_container = [], pk_path = [], pk_type = ''node-pkg'', pk_eco = ''npm''\<rparr>"

definition sampleCve :: cveRow where
  "sampleCve = \<lparr>cv_id = ''c'', cv_vuln = ''CVE-1'', cv_source = ''osv'', cv_category = [], cv_eco = [],
     cv_severity = ''LOW'', cv_score = 7, cv_vector = [], cv_title = ''t'', cv_desc = [], cv_refs = [], cv_products = ''[]'',
     cv_epss = 0, cv_percentile = 0, cv_updated = 0\<rparr>"

definition sampleJson :: jsonColumns where
  "sampleJson = \<lparr>jc_products = (\<lambda>_. ([sampleProduct], True)), jc_urls = (\<lambda>_. None)\<rparr>"

definition sampleStore :: rematchState where
  "sampleStore = RebuildCveAffectedPackages sampleJson
     \<lparr>rs_packages = [samplePackage], rs_scans = [], rs_cves = [sampleCve], rs_index = [], rs_vulns = []\<rparr>"

definition sampleOptions :: rematchOptions where
  "sampleOptions = \<lparr>ro_Sources = [], ro_MinPercent = 0, ro_ScanID = ''s'', ro_CandidateLimit = 10\<rparr>"

definition allWork :: rematchFaults where
  "allWork = \<lparr>rf_query = False, rf_exists = (\<lambda>_. False), rf_begin = False, rf_prepare = False, rf_exec = (\<lambda>_. False), rf_commit = False\<rparr>"

lemma allWork_works: "noFaults allWork"
  by (simp add: noFaults_def allWork_def)

lemma sample_rows: "candidateRows sampleJson sampleStore sampleOptions = [(samplePackage, sampleCve)]"
  by code_simp

lemma sample_limit: "candidateLimit sampleOptions = 10"
  by code_simp

lemma sample_accepted: "snd (decision sampleJson samplePackage sampleCve)"
  by code_simp

lemma sample_vulns: "rs_vulns sampleStore = []"
  by code_simp

text \<open>C2: a match without failing statements and with no more candidates than its limit adds, for every package, scan and
  advisory that the classifier accepts and that has no finding yet, exactly one finding, built from an accepted
  pair and the best of them by score, severity, fixed version, title and link; it adds nothing else and counts
  what it added.\<close>

theorem rematch_exact:
  assumes "\<forall>xs. mset (arrange xs) = mset xs" "noFaults flt"
    and "int (length (candidateRows jc st o')) \<le> candidateLimit o'"
  shows "\<exists>r new. RematchCVEs flt arrange jc u o' st = (Some r, st\<lparr>rs_vulns := rs_vulns st @ new\<rparr>)
    \<and> rr_NewVulns r = int (length new) \<and> \<not> rr_Limited r
    \<and> collected jc (rf_exists flt) (rs_vulns st) (set (candidateRows jc st o')) new \<and> allCovered flt jc st o' new"
proof -
  obtain r st' where out: "RematchCVEs flt arrange jc u o' st = (Some r, st')"
    using rematch_returns [OF assms(2), of arrange jc u o' st] by (cases "RematchCVEs flt arrange jc u o' st") auto
  have "\<not> rr_Limited r" by (rule rematch_unlimited [OF assms(1,3), of flt u]) (simp add: out)
  then show ?thesis using rematch_ran [OF assms(1), of flt jc st o' u] by (auto simp: ran_def out)
qed

lemma rematch_exact_witness:
  "covers (rs_vulns (snd (RematchCVEs allWork (\<lambda>xs. xs) sampleJson (\<lambda>_. ''i'') sampleOptions sampleStore)))
     (findingFor sampleJson (samplePackage, sampleCve) [])"
proof -
  have "int (length (candidateRows sampleJson sampleStore sampleOptions)) \<le> candidateLimit sampleOptions"
    by (simp add: sample_rows sample_limit)
  from rematch_exact [OF _ allWork_works this, of "\<lambda>xs. xs" "\<lambda>_. ''i''"] obtain r new where
    "RematchCVEs allWork (\<lambda>xs. xs) sampleJson (\<lambda>_. ''i'') sampleOptions sampleStore
       = (Some r, sampleStore\<lparr>rs_vulns := rs_vulns sampleStore @ new\<rparr>)"
    "allCovered allWork sampleJson sampleStore sampleOptions new" by auto
  then show ?thesis by (simp add: allCovered_def sample_rows sample_vulns acted_def sample_accepted allWork_def)
qed



section \<open>Removing\<close>

lemma stale_query_runs:
  assumes "\<forall>v \<in> set (rs_vulns st). rematched st v \<longrightarrow> checkedName v (the (packageOf st v)) \<noteq> None"
  shows "staleRematchedVulnerabilityIDs jc st a n \<noteq> None"
proof -
  have "v \<in> set (rs_vulns st) \<and> rematched st v" if "v \<in> set (cleanupPage st a n)" for v
    using page_due [OF that] by (auto simp: dueRows_def)
  then show ?thesis using assms by (auto simp: staleRematchedVulnerabilityIDs_def Let_def list_ex_iff)
qed

lemma cleanupLoop_runs:
  assumes "\<forall>v \<in> set (rs_vulns st). rematched st v \<longrightarrow> checkedName v (the (packageOf st v)) \<noteq> None"
    "\<forall>n. bad n = (False, False)"
  shows "fst (cleanupLoop bad jc n size' a res st)"
  using assms
proof (induction bad jc n size' a res st rule: cleanupLoop.induct)
  case (1 bad jc n size' a res st)
  obtain stale lastID scanned where ids: "staleRematchedVulnerabilityIDs jc st a size' = Some (stale, lastID, scanned)"
    using stale_query_runs [OF "1.prems"(1)] by fastforce
  have nb: "\<not> fst (bad n)" "\<not> snd (bad n)" using "1.prems"(2) by simp_all
  let ?st = "st\<lparr>rs_vulns := filter (\<lambda>v. vr_id v \<notin> set stale) (rs_vulns st)\<rparr>"
  have "\<forall>v \<in> set (rs_vulns ?st). rematched ?st v \<longrightarrow> checkedName v (the (packageOf ?st v)) \<noteq> None"
    using "1.prems"(1) by (simp add: packageOf_def rematched_def)
  note ih = "1.IH" [OF nb(1) ids refl refl refl refl refl _ refl _ this "1.prems"(2)]
  show ?case using ih nb ids by (subst cleanupLoop.simps) (auto simp: Let_def)
qed

text \<open>C7: the removal deletes only findings of the advisory database that no stored advisory supports, whatever
  statement fails; when it succeeds it has deleted all of them, on however many pages, and it succeeds when no
  statement fails and every finding has a name.\<close>

theorem cleanup_exact:
  assumes "RemoveStaleRematchedVulnerabilities bad jc batch st = (ok, res, st')" "idsOk st" "0 < batch"
  shows "(\<exists>P. st' = st\<lparr>rs_vulns := filter P (rs_vulns st)\<rparr> \<and> (\<forall>v \<in> set (rs_vulns st). \<not> P v \<longrightarrow> unsupported jc st v))
    \<and> (ok \<longrightarrow> st' = st\<lparr>rs_vulns := filter (\<lambda>v. \<not> unsupported jc st v) (rs_vulns st)\<rparr>)
    \<and> ((\<forall>n. bad n = (False, False)) \<and> (\<forall>v \<in> set (rs_vulns st). rematched st v \<longrightarrow> checkedName v (the (packageOf st v)) \<noteq> None)
        \<longrightarrow> ok)"
proof -
  have loop: "cleanupLoop bad jc 0 (cleanupBatchSize batch) [] \<lparr>cu_Scanned = 0, cu_Removed = 0, cu_Batches = 0,
      cu_BatchSize = cleanupBatchSize batch\<rparr> st = (ok, res, st')"
    using assms(1) by (simp add: RemoveStaleRematchedVulnerabilities_def Let_def)
  have "0 < cleanupBatchSize batch" using assms(3) by (simp add: cleanupBatchSize_def)
  from cleanupLoop_cleans [OF loop assms(2) this] obtain P where
    P: "st' = st\<lparr>rs_vulns := filter P (rs_vulns st)\<rparr>" "\<forall>v \<in> set (rs_vulns st). \<not> P v \<longrightarrow> unsupported jc st v"
    "ok \<longrightarrow> (\<forall>v \<in> set (rs_vulns st). P v \<longleftrightarrow> \<not> unsupported jc st v)" by (auto simp: cleans_def)
  have "ok \<longrightarrow> filter P (rs_vulns st) = filter (\<lambda>v. \<not> unsupported jc st v) (rs_vulns st)"
    using P(3) by (auto intro: filter_cong)
  then show ?thesis using P cleanupLoop_runs [of st bad jc 0 _ "[]"] loop by (metis fst_conv)
qed

definition staleVuln :: vulnRow where
  "staleVuln = (findingRow sampleJson ''v'' samplePackage sampleCve ''1.2'')\<lparr>vr_installed := ''1.3''\<rparr>"

lemma cleanup_exact_witness:
  "rs_vulns (snd (snd (RemoveStaleRematchedVulnerabilities (\<lambda>_. (False, False)) sampleJson 10
     (sampleStore\<lparr>rs_vulns := [staleVuln]\<rparr>)))) = []"
proof -
  let ?st = "sampleStore\<lparr>rs_vulns := [staleVuln]\<rparr>"
  obtain ok res st' where out: "RemoveStaleRematchedVulnerabilities (\<lambda>_. (False, False)) sampleJson 10 ?st = (ok, res, st')"
    by (metis prod_cases3)
  have ids: "idsOk ?st" by (simp add: idsOk_def staleVuln_def findingRow_def)
  have "unsupported sampleJson ?st staleVuln" "checkedName staleVuln (the (packageOf ?st staleVuln)) \<noteq> None"
    by code_simp+
  then show ?thesis using cleanup_exact [OF out ids] by (simp add: out)
qed

text \<open>The removal never takes back what the matchers have just written: a finding that the match of packages or the
  match of runtimes added to the table is still there after the removal, whatever statement of it fails.\<close>

theorem rematched_findings_survive:
  assumes "\<forall>xs. mset (arrange xs) = mset xs" "storeOk st"
    and "st1 = snd (RematchCVEs flt arrange jc u o' st)" "st2 = snd (RematchCPE flt' arrange jc u' o'' st1)"
    and "idsOk st2" "0 < batch"
  shows "set (rs_vulns st2) - set (rs_vulns st) \<subseteq> set (rs_vulns (snd (snd (RemoveStaleRematchedVulnerabilities bad jc batch st2))))"
proof -
  have "ran flt jc st o' (RematchCVEs flt arrange jc u o' st)" by (rule rematch_ran [OF assms(1)])
  then obtain new1 where st1: "st1 = st\<lparr>rs_vulns := rs_vulns st @ new1\<rparr>"
    "\<forall>v \<in> set new1. \<exists>m \<in> set (candidateRows jc st o'). acted jc (rf_exists flt) (rs_vulns st) m \<and> (\<exists>i. v = findingFor jc m i)"
    unfolding assms(3) by (rule ran_new)
  have ok1: "storeOk st1" using assms(2) by (simp add: st1 storeOk_def)
  have "ranCPE jc st1 o'' (RematchCPE flt' arrange jc u' o'' st1)" by (rule cpe_ran [OF assms(1)])
  then obtain new2 where st2: "st2 = st1\<lparr>rs_vulns := rs_vulns st1 @ new2\<rparr>"
    "\<forall>v \<in> set new2. \<exists>m \<in> set (cpeRows jc st1 o''). cpeAccepted jc m \<and> (\<exists>i. v = cpeFinding jc m i)"
    unfolding assms(4) by (rule ranCPE_new)
  have sup: "isSupported jc st2 v" if "v \<in> set (rs_vulns st2) - set (rs_vulns st)" for v
  proof -
    have "v \<in> set new1 \<or> v \<in> set new2" using that by (auto simp: st1 st2)
    then have "isSupported jc st1 v"
    proof
      assume "v \<in> set new1"
      then show ?thesis using st1 found_supported [OF _ assms(2)] by (fastforce simp: acted_def findingFor_def)
    next
      assume "v \<in> set new2"
      then show ?thesis using st2(2) cpe_supported [OF _ ok1] by (fastforce simp: cpeAccepted_def cpeFinding_def)
    qed
    then show ?thesis by (simp add: st2)
  qed
  obtain ok res st' where out: "RemoveStaleRematchedVulnerabilities bad jc batch st2 = (ok, res, st')" by (metis prod_cases3)
  have "0 < cleanupBatchSize batch" using assms(6) by (simp add: cleanupBatchSize_def)
  from out cleanupLoop_cleans [OF _ assms(5) this] obtain P where
    "st' = st2\<lparr>rs_vulns := filter P (rs_vulns st2)\<rparr>" "\<forall>v \<in> set (rs_vulns st2). \<not> P v \<longrightarrow> unsupported jc st2 v"
    unfolding RemoveStaleRematchedVulnerabilities_def Let_def cleans_def by blast
  then show ?thesis using sup by (auto simp: out unsupported_def)
qed

lemma rematched_findings_survive_witness:
  "rs_vulns (snd (snd (RemoveStaleRematchedVulnerabilities (\<lambda>_. (False, False)) sampleJson 10
     (snd (RematchCPE allWork (\<lambda>xs. xs) sampleJson (\<lambda>_. ''j'') sampleOptions
       (snd (RematchCVEs allWork (\<lambda>xs. xs) sampleJson (\<lambda>_. ''i'') sampleOptions sampleStore))))))) \<noteq> []"
proof -
  let ?st2 = "snd (RematchCPE allWork (\<lambda>xs. xs) sampleJson (\<lambda>_. ''j'') sampleOptions
       (snd (RematchCVEs allWork (\<lambda>xs. xs) sampleJson (\<lambda>_. ''i'') sampleOptions sampleStore)))"
  have ids: "map vr_id (rs_vulns ?st2) = [''i'']" by code_simp
  have "storeOk sampleStore" by code_simp
  from rematched_findings_survive [OF _ this refl refl, of "\<lambda>xs. xs" allWork sampleJson "\<lambda>_. ''j''" sampleOptions allWork
      "\<lambda>_. ''i''" sampleOptions 10 "\<lambda>_. (False, False)"]
  have "set (rs_vulns ?st2) \<subseteq> set (rs_vulns (snd (snd (RemoveStaleRematchedVulnerabilities (\<lambda>_. (False, False)) sampleJson 10 ?st2))))"
    using ids by (simp add: idsOk_def sample_vulns flip: list.set_map)
  moreover have "rs_vulns ?st2 \<noteq> []" using ids by force
  ultimately show ?thesis by (metis empty_set subset_empty set_empty)
qed

end
