(* ===== verification/Rematch_Index.thy ===== *)
theory Rematch_Index
  imports Rematch_Safety
begin

text \<open>
  The index is a coarse filter written in SQL in front of a decision written in Go: this theory shows for which
  advisories it proposes every pair the Go code would accept, and where the two disagree.
\<close>

section \<open>What a decision says\<close>

lemma decision_gate:
  assumes "decision jc p c = (q, True)"
  shows "q \<in> set (productsOf jc c)" "EqualFold (PName q) (pk_name p)" "effectiveEcosystem (cv_eco c) q \<noteq> []"
    "normalizeEcosystem (pk_eco p) = effectiveEcosystem (cv_eco c) q" "fixedVersions q \<noteq> []"
proof -
  let ?gate = "candidateGate (pk_name p) (pk_type p) (pk_eco p) (pk_version p) (cv_category c) (cv_eco c)"
  have dec: "snd (jc_products jc (cv_products c))" "find ?gate (fst (jc_products jc (cv_products c))) = Some q"
    using assms by (auto simp: decision_def compatibleSecurityCandidate_def candidateLoop_find split: if_splits option.splits)
  then have "q \<in> set (fst (jc_products jc (cv_products c)))" "?gate q" by (auto simp: find_Some_iff)
  then show "q \<in> set (productsOf jc c)" "EqualFold (PName q) (pk_name p)" "effectiveEcosystem (cv_eco c) q \<noteq> []"
    "normalizeEcosystem (pk_eco p) = effectiveEcosystem (cv_eco c) q" "fixedVersions q \<noteq> []"
    using dec(1) by (simp_all add: productsOf_def candidateGate_def Let_def)
qed

section \<open>Labels\<close>

definition labelOk :: "string \<Rightarrow> bool" where
  "labelOk s \<longleftrightarrow> TrimSpace s = s \<and> TrimSpace (split_part1 (ToLower s)) = split_part1 (ToLower s)"

lemma labelOk_agree: "labelOk s \<Longrightarrow> normalizeEcosystemSQL (ToLower s) = normalizeEcosystem s"
  by (simp add: labelOk_def normalizeEcosystem_agree)

lemma language_nonempty: "languageEcosystem e \<noteq> Some []"
  by (simp add: languageEcosystem_def)

lemma distro_nonempty: "distroFamily e \<noteq> Some []"
  by (simp add: distroFamily_def)

lemma normalize_nil: "normalizeEcosystem s = [] \<longleftrightarrow> TrimSpace s = []"
proof -
  have low: "ToLower [] = []" "languageEcosystem [] = None" "distroFamily (ecoFamily []) = None" by code_simp+
  then show ?thesis
    using language_nonempty distro_nonempty by (auto simp: normalizeEcosystem_def Let_def low split: option.splits)
qed

lemma product_label:
  assumes "labelOk (PEcosystem q)" "labelOk (cv_eco c)" "effectiveEcosystem (cv_eco c) q \<noteq> []"
  shows "affectedProductEcosystemSQL c q = Some (effectiveEcosystem (cv_eco c) q)"
proof (cases "PEcosystem q = []")
  case True
  have nil: "normalizeEcosystem [] = []" by (simp add: normalize_nil) code_simp
  have "cv_eco c \<noteq> []" using assms(3) True by (auto simp: effectiveEcosystem_def nil)
  then show ?thesis
    using True labelOk_agree [OF assms(2)] by (simp add: affectedProductEcosystemSQL_def firstLabel_def effectiveEcosystem_def nil)
next
  case False
  then have "normalizeEcosystem (PEcosystem q) \<noteq> []" using assms(1) by (simp add: normalize_nil labelOk_def)
  then show ?thesis
    using False labelOk_agree [OF assms(1)] by (simp add: affectedProductEcosystemSQL_def firstLabel_def effectiveEcosystem_def)
qed

lemma package_label:
  assumes "labelOk (pk_eco p)" "normalizeEcosystem (pk_eco p) \<noteq> []"
  shows "packageEcosystemSQL p = Some (normalizeEcosystem (pk_eco p))"
  using assms labelOk_agree [OF assms(1)] by (auto simp: packageEcosystemSQL_def firstLabel_def normalize_nil labelOk_def)

lemma affectedFixed_some: "cveSourceFixedPredicateSQL q \<longleftrightarrow> affectedFixedSQL q \<noteq> None"
proof -
  have "list_ex P xs \<longleftrightarrow> find P xs \<noteq> None" for P and xs :: "string list"
    by (auto simp: list_ex_iff find_None_iff simp del: not_None_eq)
  then show ?thesis by (auto simp: cveSourceFixedPredicateSQL_def affectedFixedSQL_def)
qed

lemma candidateRows_mem:
  assumes "p \<in> set (rs_packages st)" "scanInScope st o' (pk_scan p)" "c \<in> set (rs_cves st)" "sourceAllowed jc st o' c"
    "r \<in> set (rs_index st)" "cp_cve r = cv_id c" "cp_name r = ToLower (pk_name p)" "packageEcosystemSQL p = Some (cp_eco r)"
  shows "(p, c) \<in> set (candidateRows jc st o')"
  using assms by (fastforce simp: candidateRows_def)

text \<open>C8: the index never hides a match: when it is up to date, every package in scope and advisory of an allowed source
  that the Go classifier accepts on a product with a single stored fixed version or a safe range fix is proposed to it,
  provided that the labels of package and product carry no blanks around them or before their colon.\<close>

theorem coarse_filter_complete:
  assumes "rs_index st = rs_index (RebuildCveAffectedPackages jc st)"
    and "p \<in> set (rs_packages st)" "scanInScope st o' (pk_scan p)" "pk_name p \<noteq> []"
    and "c \<in> set (rs_cves st)" "sourceAllowed jc st o' c"
    and "decision jc p c = (q, True)" "cveSourceFixedPredicateSQL q"
    and "list_all labelOk [pk_eco p, PEcosystem q, cv_eco c]"
  shows "(p, c) \<in> set (candidateRows jc st o')"
proof -
  note dec = decision_gate [OF assms(7)]
  obtain fixed where fixed: "affectedFixedSQL q = Some fixed" using assms(8) affectedFixed_some by blast
  have eco: "affectedProductEcosystemSQL c q = Some (normalizeEcosystem (pk_eco p))"
    using product_label [of q c] dec assms(9) by simp
  have name: "ToLower (PName q) = ToLower (pk_name p)" using dec(2) by (simp add: EqualFold_def)
  then have "PName q \<noteq> []" using assms(4) by (metis ToLower_nil)
  then have "\<lparr>cp_cve = cv_id c, cp_name = ToLower (PName q), cp_eco = normalizeEcosystem (pk_eco p), cp_fixed = fixed\<rparr>
      \<in> set (indexRows jc c)"
    using dec(1) eco fixed by (force simp: indexRows_def)
  then have row: "\<lparr>cp_cve = cv_id c, cp_name = ToLower (PName q), cp_eco = normalizeEcosystem (pk_eco p), cp_fixed = fixed\<rparr>
      \<in> set (rs_index st)"
    using assms(1,5) by (auto simp: RebuildCveAffectedPackages_def)
  have "packageEcosystemSQL p = Some (normalizeEcosystem (pk_eco p))"
    using package_label [of p] dec(3,4) assms(9) by simp
  then show ?thesis using candidateRows_mem [OF assms(2,3,5,6) row] name by simp
qed

lemma coarse_filter_complete_witness:
  "(samplePackage, sampleCve) \<in> set (candidateRows sampleJson sampleStore sampleOptions)"
proof (rule coarse_filter_complete)
  show "rs_index sampleStore = rs_index (RebuildCveAffectedPackages sampleJson sampleStore)" by code_simp
  show "samplePackage \<in> set (rs_packages sampleStore)" "sampleCve \<in> set (rs_cves sampleStore)"
    by (simp_all add: sampleStore_def RebuildCveAffectedPackages_def)
  show "scanInScope sampleStore sampleOptions (pk_scan samplePackage)" "pk_name samplePackage \<noteq> []"
    "sourceAllowed sampleJson sampleStore sampleOptions sampleCve" "cveSourceFixedPredicateSQL sampleProduct"
    "list_all labelOk [pk_eco samplePackage, PEcosystem sampleProduct, cv_eco sampleCve]"
    by code_simp+
  show "decision sampleJson samplePackage sampleCve = (sampleProduct, True)" by code_simp
qed

section \<open>Where the layers disagree\<close>

text \<open>
  The Go code counts different fixed versions, the SQL counts entries: a product that lists its only fixed version
  twice is accepted by the classifier, but it is in no index and is never proposed.
\<close>

definition doubled :: affectedProduct where
  "doubled = noProduct\<lparr>PName := ''axios'', PEcosystem := ''npm'', PFixed := [''1.2'', ''1.2'']\<rparr>"

definition doubledJson :: jsonColumns where
  "doubledJson = \<lparr>jc_products = (\<lambda>_. ([doubled], True)), jc_urls = (\<lambda>_. None)\<rparr>"

lemma doubled_fix_is_lost:
  "snd (decision doubledJson samplePackage sampleCve)" "indexRows doubledJson sampleCve = []"
  by code_simp+

text \<open>
  The SQL takes the type of a package that has no ecosystem for its label, the Go code rejects the package: its
  pairs are proposed and never accepted.
\<close>

lemma no_ecosystem_no_match: "pk_eco p = [] \<Longrightarrow> \<not> snd (decision jc p c)"
proof -
  assume "pk_eco p = []"
  moreover have "normalizeEcosystem [] = []" by code_simp
  ultimately show "\<not> snd (decision jc p c)" using decision_gate(3,4) [of jc p c] by (metis prod.collapse)
qed

lemma no_ecosystem_proposed:
  "packageEcosystemSQL (samplePackage\<lparr>pk_eco := [], pk_type := ''debian''\<rparr>) = Some ''debian''"
  by code_simp

text \<open>One insertion that fails aborts the transaction: the loop goes on, but the findings of the whole run are lost.\<close>

lemma failing_insert_loses_all:
  assumes "v \<in> set new" "rf_exec flt v"
  shows "insertFindings flt table new r = (None, table)"
proof -
  have "fst (insertLoop (rf_exec flt) False new table r)" using assms
    by (induction new arbitrary: table r) (auto simp: insertLoop_aborted)
  then show ?thesis using assms(1) by (auto simp: insertFindings_def split: prod.split)
qed

text \<open>Long texts are cut at a byte: the cut can fall inside a character, which the database refuses to store.\<close>

lemma truncate_splits_character:
  "truncate_bytes (replicate 499 CHR ''a'' @ [CHR 0xC3, CHR 0xA9]) 500 = replicate 499 CHR ''a'' @ [CHR 0xC3]"
  by (simp add: truncate_bytes_def)

text \<open>The end of a range that includes its end is stored as the fixed version, although it is still affected.\<close>

lemma cpe_fix_is_affected:
  "let p = noProduct\<lparr>PProduct := ''node.js'', VersionEndIncluding := ''18.19.0''\<rparr>
   in cpeVersionAffected ''18.19.0'' p \<and> cpeFixedVersion p = ''18.19.0''"
  by code_simp

text \<open>The matcher of runtimes accepts a spelling that its query does not ask for, so these advisories are never read.\<close>

lemma cpe_variant_is_missed:
  "cpeProductMatches ''jdk'' ''java_se_development_kit''" "''java_se_development_kit'' \<notin> set (cpeProductVariants ''jdk'')"
  by code_simp+

end
