(* ===== verification/Recalc_Stages.thy ===== *)
theory Recalc_Stages
  imports Rematch_Index
begin

text \<open>
  The statements a recalculation runs besides matching: the EPSS columns, the CVSS scores and the severities of
  \<^verbatim>\<open>db/cvedb.go\<close> and the enrichment of findings in \<^verbatim>\<open>db/vulnerability.go\<close>. Scores are rationals; the calculation of a score from a
  vector is floating-point arithmetic and a parameter. Where an \<^verbatim>\<open>UPDATE ... FROM\<close> joins several rows, PostgreSQL uses
  one of them: the choice is a parameter.
\<close>

section \<open>EPSS\<close>

definition hasEpss :: "cveRow \<Rightarrow> bool" where
  "hasEpss c \<longleftrightarrow> cv_source c = ''epss'' \<and> (cv_epss c > 0 \<or> cv_percentile c > 0)"

text \<open>\<^verbatim>\<open>DISTINCT ON (vulnerability_id)\<close> with the order of the query: the first of the newest, then of the highest.\<close>

definition epssKey :: "cveRow \<Rightarrow> int \<times> rat \<times> rat" where
  "epssKey c = (cv_updated c, cv_epss c, cv_percentile c)"

fun bestEpss :: "cveRow list \<Rightarrow> cveRow option" where
  "bestEpss [] = None"
| "bestEpss (c # cs) = (case bestEpss cs of None \<Rightarrow> Some c | Some b \<Rightarrow> if epssKey c < epssKey b then Some b else Some c)"

definition latestEpss :: "cveRow list \<Rightarrow> string \<Rightarrow> cveRow option" where
  "latestEpss cs v = bestEpss (filter (\<lambda>c. hasEpss c \<and> cv_vuln c = v) cs)"

definition clearEpss :: "cveRow list \<Rightarrow> cveRow list" where
  "clearEpss cs =
     map (\<lambda>c. if cv_source c \<noteq> ''epss'' \<and> (cv_epss c \<noteq> 0 \<or> cv_percentile c \<noteq> 0)
                \<and> \<not> list_ex (\<lambda>e. hasEpss e \<and> cv_vuln e = cv_vuln c) cs
              then c\<lparr>cv_epss := 0, cv_percentile := 0\<rparr> else c) cs"

definition setEpss :: "cveRow list \<Rightarrow> cveRow list" where
  "setEpss cs =
     map (\<lambda>c. case latestEpss cs (cv_vuln c) of
                Some e \<Rightarrow> if cv_source c \<noteq> ''epss'' \<and> (cv_epss c \<noteq> cv_epss e \<or> cv_percentile c \<noteq> cv_percentile e)
                          then c\<lparr>cv_epss := cv_epss e, cv_percentile := cv_percentile e\<rparr> else c
              | None \<Rightarrow> c) cs"

text \<open>Both statements are one transaction; \<open>bad\<close> is a failure of any statement of it.\<close>

definition SyncEPSSPriorityColumns :: "bool \<Rightarrow> rematchState \<Rightarrow> bool \<times> rematchState" where
  "SyncEPSSPriorityColumns bad st =
     (if bad then (False, st) else (True, st\<lparr>rs_cves := setEpss (clearEpss (rs_cves st))\<rparr>))"

section \<open>Scores and severities\<close>

definition severityFromScore :: "rat \<Rightarrow> string" where
  "severityFromScore score =
     (if score \<ge> 9 then ''CRITICAL'' else if score \<ge> 7 then ''HIGH'' else if score \<ge> 4 then ''MEDIUM''
      else if score \<ge> 1 / 10 then ''LOW'' else [])"

definition needsScore :: "cveRow \<Rightarrow> bool" where
  "needsScore c \<longleftrightarrow> HasPrefix (cv_vector c) ''CVSS:4'' \<or> cv_vector c \<noteq> [] \<and> cv_score c = 0"

definition CalcCvssScores :: "(string \<Rightarrow> rat) \<Rightarrow> bool \<Rightarrow> rematchState \<Rightarrow> bool \<times> rematchState" where
  "CalcCvssScores calc bad st =
     (if bad then (False, st)
      else (True, st\<lparr>rs_cves := map (\<lambda>c.
        if needsScore c then
          (let score = calc (cv_vector c); sev = severityFromScore score in
           c\<lparr>cv_score := score, cv_severity := (if sev \<noteq> [] then sev else cv_severity c)\<rparr>)
        else c) (rs_cves st)\<rparr>))"

definition NormalizeVulnSeverity :: "bool \<Rightarrow> rematchState \<Rightarrow> bool \<times> rematchState" where
  "NormalizeVulnSeverity bad st =
     (if bad then (False, st)
      else (True, st\<lparr>rs_vulns := map (\<lambda>v.
        if vr_score v > 0 \<and> vr_severity v \<noteq> severityFromScore (vr_score v) then
          v\<lparr>vr_severity := (if severityFromScore (vr_score v) \<noteq> [] then severityFromScore (vr_score v) else vr_severity v)\<rparr>
        else v) (rs_vulns st)\<rparr>))"

section \<open>Enrichment\<close>

definition orElse :: "string option \<Rightarrow> string option \<Rightarrow> string option" where
  "orElse a b = (if a = None then b else a)"

definition safeFixedSQL :: "affectedProduct \<Rightarrow> string option" where
  "safeFixedSQL p =
     (if length (PFixed p) = 1 \<and> fixedVersionValuePredicateSQL (hd (PFixed p)) then Some (sqlTrim (hd (PFixed p))) else None)"

text \<open>The fix of the product of the advisory that is the finding's package, as far as the SQL can tell.\<close>

definition contextualFixedSQL :: "jsonColumns \<Rightarrow> rematchState \<Rightarrow> cveRow \<Rightarrow> vulnRow \<Rightarrow> string option" where
  "contextualFixedSQL jc st c v =
     (case packageOf st v of
        None \<Rightarrow> None
      | Some p \<Rightarrow>
          (case find (\<lambda>ap. map_option ToLower (checkedName v p) = Some (ToLower (PName ap))
                 \<and> affectedProductEcosystemSQL c ap \<noteq> None \<and> affectedProductEcosystemSQL c ap = packageEcosystemSQL p
                 \<and> cveSourceFixedPredicateSQL ap) (productsOf jc c) of
             None \<Rightarrow> None
           | Some ap \<Rightarrow> orElse (safeFixedSQL ap) (find (\<lambda>f. f \<noteq> []) (rangeFixes ap))))"

definition singleFixedSQL :: "jsonColumns \<Rightarrow> cveRow \<Rightarrow> string option" where
  "singleFixedSQL jc c = (case productsOf jc c of [p] \<Rightarrow> affectedFixedSQL p | _ \<Rightarrow> None)"

definition enrichmentFixedSQL :: "jsonColumns \<Rightarrow> rematchState \<Rightarrow> cveRow \<Rightarrow> vulnRow \<Rightarrow> string option" where
  "enrichmentFixedSQL jc st c v = orElse (contextualFixedSQL jc st c v) (singleFixedSQL jc c)"

text \<open>\<^verbatim>\<open>COALESCE(c.severity, v.severity)\<close>: the column is never \<^verbatim>\<open>NULL\<close>, so the advisory's text always wins.\<close>

definition enriched :: "cveRow \<Rightarrow> string option \<Rightarrow> vulnRow \<Rightarrow> vulnRow" where
  "enriched c fix' v =
     v\<lparr>vr_severity := cv_severity c,
       vr_score := (if vr_score v = 0 \<or> cv_score c > vr_score v then cv_score c else vr_score v),
       vr_vector := (if cv_vector c \<noteq> [] then cv_vector c else vr_vector v),
       vr_fixed := (if vr_fixed v \<noteq> [] then vr_fixed v else case fix' of None \<Rightarrow> [] | Some f \<Rightarrow> f),
       vr_title := (if cv_title c \<noteq> [] then cv_title c else vr_title v),
       vr_desc := (if cv_desc c \<noteq> [] then cv_desc c else vr_desc v)\<rparr>"

definition enrichesBy :: "jsonColumns \<Rightarrow> rematchState \<Rightarrow> vulnRow \<Rightarrow> cveRow \<Rightarrow> bool" where
  "enrichesBy jc st v c \<longleftrightarrow>
     cv_vuln c = vr_vuln v
     \<and> (vr_severity v = [] \<or> vr_score v = 0 \<or> vr_fixed v = [] \<or> vr_title v = [] \<or> vr_desc v = [] \<or> cv_score c > vr_score v)
     \<and> (cv_score c > 0 \<or> enrichmentFixedSQL jc st c v \<noteq> None \<or> cv_title c \<noteq> [])"

definition enrichExact :: "(cveRow list \<Rightarrow> cveRow) \<Rightarrow> jsonColumns \<Rightarrow> rematchState \<Rightarrow> vulnRow \<Rightarrow> vulnRow" where
  "enrichExact pick jc st v =
     (let cs = filter (enrichesBy jc st v) (rs_cves st) in
      if cs = [] then v else enriched (pick cs) (enrichmentFixedSQL jc st (pick cs) v) v)"

text \<open>\<^verbatim>\<open>SUBSTRING(id FROM 'CVE-\d+-\d+')\<close>: the first match, as long as possible.\<close>

definition cveAt :: "string \<Rightarrow> string option" where
  "cveAt s =
     (if HasPrefix s ''CVE-'' then
        (let y = takeWhile isDigit (drop 4 s); rest = drop (length y) (drop 4 s) in
         if y \<noteq> [] \<and> HasPrefix rest ''-'' then
           (let n = takeWhile isDigit (drop 1 rest) in
            if n \<noteq> [] then Some (''CVE-'' @ y @ ''-'' @ n) else None)
         else None)
      else None)"

fun cveNumber :: "string \<Rightarrow> string option" where
  "cveNumber [] = None"
| "cveNumber (c # s) = (case cveAt (c # s) of Some m \<Rightarrow> Some m | None \<Rightarrow> cveNumber s)"

definition enrichesByNumber :: "jsonColumns \<Rightarrow> vulnRow \<Rightarrow> cveRow \<Rightarrow> bool" where
  "enrichesByNumber jc v c \<longleftrightarrow>
     cveNumber (cv_vuln c) = cveNumber (vr_vuln v) \<and> (cv_score c > 0 \<or> singleFixedSQL jc c \<noteq> None \<or> cv_title c \<noteq> [])"

definition highest :: "cveRow list \<Rightarrow> cveRow list" where
  "highest cs = filter (\<lambda>c. list_all (\<lambda>d. cv_score d \<le> cv_score c) cs) cs"

definition enrichByNumber :: "(cveRow list \<Rightarrow> cveRow) \<Rightarrow> jsonColumns \<Rightarrow> rematchState \<Rightarrow> vulnRow \<Rightarrow> vulnRow" where
  "enrichByNumber pick jc st v =
     (if \<not> (vr_severity v = [] \<or> vr_score v = 0 \<or> vr_fixed v = [] \<or> vr_title v = []) \<or> cveNumber (vr_vuln v) = None then v
      else (let cs = highest (filter (enrichesByNumber jc v) (rs_cves st)) in
            if cs = [] then v else enriched (pick cs) (singleFixedSQL jc (pick cs)) v))"

text \<open>Two statements, each on its own: when the second fails the first stays. \<open>bad\<close> says which fail.\<close>

definition EnrichVulnerabilities :: "bool \<times> bool \<Rightarrow> (cveRow list \<Rightarrow> cveRow) \<Rightarrow> jsonColumns \<Rightarrow> rematchState \<Rightarrow> bool \<times> rematchState" where
  "EnrichVulnerabilities bad pick jc st =
     (if fst bad then (False, st)
      else
        (let st = st\<lparr>rs_vulns := map (enrichExact pick jc st) (rs_vulns st)\<rparr> in
         if snd bad then (False, st)
         else (True, st\<lparr>rs_vulns := map (enrichByNumber pick jc st) (rs_vulns st)\<rparr>)))"

section \<open>What they leave alone\<close>

text \<open>Neither touches what a finding is about, and advisories keep what matching reads.\<close>

definition sameFinding :: "vulnRow \<Rightarrow> vulnRow \<Rightarrow> bool" where
  "sameFinding v w \<longleftrightarrow> vr_id w = vr_id v \<and> vulnKey w = vulnKey v \<and> vr_host w = vr_host v \<and> vr_pkgName w = vr_pkgName v
     \<and> vr_installed w = vr_installed v \<and> vr_source w = vr_source v
     \<and> (vr_fixed v \<noteq> [] \<longrightarrow> vr_fixed w = vr_fixed v) \<and> (vr_title v \<noteq> [] \<longrightarrow> vr_title w \<noteq> [])"

definition sameAdvisory :: "cveRow \<Rightarrow> cveRow \<Rightarrow> bool" where
  "sameAdvisory c d \<longleftrightarrow> cv_id d = cv_id c \<and> cv_vuln d = cv_vuln c \<and> cv_source d = cv_source c \<and> cv_category d = cv_category c
     \<and> cv_eco d = cv_eco c \<and> cv_products d = cv_products c"

lemma sameFinding_refl [simp]: "sameFinding v v"
  by (simp add: sameFinding_def)

lemma sameFinding_trans: "sameFinding u v \<Longrightarrow> sameFinding v w \<Longrightarrow> sameFinding u w"
  by (simp add: sameFinding_def)

lemma sameAdvisory_refl [simp]: "sameAdvisory c c"
  by (simp add: sameAdvisory_def)

lemma sameAdvisory_trans: "sameAdvisory b c \<Longrightarrow> sameAdvisory c d \<Longrightarrow> sameAdvisory b d"
  by (simp add: sameAdvisory_def)

lemma sameFinding_enriched: "sameFinding v (enriched c f v)"
  by (simp add: sameFinding_def enriched_def vulnKey_def)

lemma sameFinding_exact: "sameFinding v (enrichExact pick jc st v)"
  by (simp add: enrichExact_def Let_def sameFinding_enriched)

lemma sameFinding_number: "sameFinding v (enrichByNumber pick jc st v)"
  by (simp add: enrichByNumber_def Let_def sameFinding_enriched)

text \<open>A stage that keeps findings and advisories apart from these columns, and everything else.\<close>

definition refines :: "rematchState \<Rightarrow> rematchState \<Rightarrow> bool" where
  "refines st st' \<longleftrightarrow>
     rs_packages st' = rs_packages st \<and> rs_scans st' = rs_scans st \<and> rs_index st' = rs_index st
     \<and> list_all2 sameAdvisory (rs_cves st) (rs_cves st') \<and> list_all2 sameFinding (rs_vulns st) (rs_vulns st')"

lemma list_all2_map: "(\<And>x. x \<in> set xs \<Longrightarrow> P x (f x)) \<Longrightarrow> list_all2 P xs (map f xs)"
  by (simp add: list_all2_conv_all_nth)

lemma list_all2_refl: "(\<And>x. P x x) \<Longrightarrow> list_all2 P xs xs"
  by (simp add: list_all2_conv_all_nth)

lemma refines_refl: "refines st st"
  by (simp add: refines_def list_all2_refl)

lemma refines_trans: "refines a b \<Longrightarrow> refines b c \<Longrightarrow> refines a c"
  unfolding refines_def
  by (metis (mono_tags, lifting) list_all2_trans [of sameFinding sameFinding sameFinding]
      list_all2_trans [of sameAdvisory sameAdvisory sameAdvisory] sameFinding_trans sameAdvisory_trans)

lemma refines_cves:
  "(\<And>c. c \<in> set (rs_cves st) \<Longrightarrow> sameAdvisory c (f c)) \<Longrightarrow> refines st (st\<lparr>rs_cves := map f (rs_cves st)\<rparr>)"
  by (simp add: refines_def list_all2_map list_all2_refl)

lemma refines_vulns:
  "(\<And>v. v \<in> set (rs_vulns st) \<Longrightarrow> sameFinding v (f v)) \<Longrightarrow> refines st (st\<lparr>rs_vulns := map f (rs_vulns st)\<rparr>)"
  by (simp add: refines_def list_all2_map list_all2_refl)

lemma SyncEPSS_refines: "refines st (snd (SyncEPSSPriorityColumns bad st))"
proof -
  have a: "refines st (st\<lparr>rs_cves := clearEpss (rs_cves st)\<rparr>)" for st
    unfolding clearEpss_def by (rule refines_cves) (simp add: sameAdvisory_def)
  have b: "refines st (st\<lparr>rs_cves := setEpss (rs_cves st)\<rparr>)" for st
    unfolding setEpss_def by (rule refines_cves) (simp add: sameAdvisory_def split: option.split)
  show ?thesis
    using refines_trans [OF a [of st] b [of "st\<lparr>rs_cves := clearEpss (rs_cves st)\<rparr>"]]
    by (simp add: SyncEPSSPriorityColumns_def refines_refl)
qed

lemma CalcCvss_refines: "refines st (snd (CalcCvssScores calc bad st))"
  by (auto simp: CalcCvssScores_def refines_refl Let_def sameAdvisory_def intro!: refines_cves)

lemma Normalize_refines: "refines st (snd (NormalizeVulnSeverity bad st))"
  by (auto simp: NormalizeVulnSeverity_def refines_refl sameFinding_def vulnKey_def intro!: refines_vulns)

lemma Enrich_refines: "refines st (snd (EnrichVulnerabilities bad pick jc st))"
proof -
  define st1 where "st1 = st\<lparr>rs_vulns := map (enrichExact pick jc st) (rs_vulns st)\<rparr>"
  have a: "refines st st1" unfolding st1_def by (rule refines_vulns) (rule sameFinding_exact)
  have "refines st1 (st1\<lparr>rs_vulns := map (enrichByNumber pick jc st1) (rs_vulns st1)\<rparr>)"
    by (rule refines_vulns) (rule sameFinding_number)
  from refines_trans [OF a this] a show ?thesis
    by (simp add: EnrichVulnerabilities_def Let_def refines_refl st1_def)
qed

text \<open>
  An advisory without a severity erases the severity of the findings it enriches, and its vector replaces theirs although
  the higher score is kept, so that score and vector no longer belong together.
\<close>

lemma enrichment_erases_severity: "cv_severity c = [] \<Longrightarrow> vr_severity (enriched c f v) = []"
  by (simp add: enriched_def)

lemma enrichment_mixes_scores:
  assumes "0 < cv_score c" "cv_score c < vr_score v" "cv_vector c \<noteq> []"
  shows "vr_score (enriched c f v) = vr_score v" "vr_vector (enriched c f v) = cv_vector c"
  using assms by (simp_all add: enriched_def)

end
