(* ===== verification/Recalculation.thy ===== *)
theory Recalculation
  imports Recalc_Stages Scan_Queue Server_Env
begin

text \<open>
  The recalculation of findings after a change of the advisory database (\<^verbatim>\<open>internal/server/api/cvedb.go\<close>): one
  goroutine runs it, requests that arrive meanwhile are noted and give one more pass. The state machine
  interleaves requests, writes to the database by others, and the statements of every goroutine that is
  running; a log records what happened in which order.
\<close>

section \<open>Reasons\<close>

text \<open>\<^verbatim>\<open>strings.Split(s, "; ")\<close>\<close>

fun splitSemi :: "string \<Rightarrow> string list" where
  "splitSemi [] = [[]]"
| "splitSemi [c] = [[c]]"
| "splitSemi (c # d # s) =
     (if c = CHR '';'' \<and> d = CHR '' '' then [] # splitSemi s
      else (case splitSemi (d # s) of [] \<Rightarrow> [[c]] | p # ps \<Rightarrow> (c # p) # ps))"

definition coalesceSecurityRecalcReason :: "string \<Rightarrow> string \<Rightarrow> string" where
  "coalesceSecurityRecalcReason previous next' =
     (if previous = [] then next'
      else if previous = next' then previous
      else if next' \<in> set (splitSemi previous) then previous
      else previous @ ''; '' @ next')"

lemma splitSemi_nonempty: "splitSemi s \<noteq> []"
  by (induction s rule: splitSemi.induct) (auto split: list.split)

lemma splitSemi_append: "splitSemi (p @ ''; '' @ n) = splitSemi p @ splitSemi n"
proof (induction p rule: splitSemi.induct)
  case (2 c)
  then show ?case by (cases "splitSemi n") auto
next
  case (3 c d s)
  then show ?case using splitSemi_nonempty [of "d # s"] by (cases "splitSemi (d # s)") auto
qed simp

lemma splitSemi_parts: "x \<in> set (splitSemi s) \<Longrightarrow> splitSemi x = [x]"
proof (induction s arbitrary: x rule: splitSemi.induct)
  case (3 c d s)
  show ?case
  proof (cases "c = CHR '';'' \<and> d = CHR '' ''")
    case True
    then show ?thesis using 3 by auto
  next
    case False
    obtain p ps where ps: "splitSemi (d # s) = p # ps" using splitSemi_nonempty by (metis list.exhaust)
    then have p: "splitSemi p = [p]" using "3.IH"(2) [OF False, of p] by simp
    have head: "p = [] \<or> hd p = d"
    proof (cases s)
      case (Cons e t)
      then show ?thesis using ps splitSemi_nonempty [of "e # t"] by (auto split: if_splits list.splits)
    qed (use ps in auto)
    have "splitSemi (c # p) = [c # p]"
    proof (cases p)
      case (Cons e t)
      then have "\<not> (c = CHR '';'' \<and> e = CHR '' '')" using head False by auto
      then show ?thesis using p Cons by auto
    qed simp
    then show ?thesis using "3.prems" False ps "3.IH"(2) [OF False] by auto
  qed
qed auto

definition reasonParts :: "string \<Rightarrow> string set" where
  "reasonParts s = set (splitSemi s) - {[]}"

lemma reasonParts_nil [simp]: "reasonParts [] = {}"
  by (simp add: reasonParts_def)

text \<open>Joining reasons loses none of them.\<close>

lemma coalesce_parts: "reasonParts (coalesceSecurityRecalcReason p n) = reasonParts p \<union> reasonParts n"
  by (auto simp: coalesceSecurityRecalcReason_def reasonParts_def splitSemi_append [simplified] splitSemi_parts)

section \<open>The statements of a pass\<close>

datatype stage = Revision | MergeEpss | Cvss | Enrich | Cleanup | MatchCVEs | MatchCPE | Severity' | Summaries

definition allStages :: "stage list" where
  "allStages = [Revision, MergeEpss, Cvss, Enrich, Cleanup, MatchCVEs, MatchCPE, Severity', Summaries]"

text \<open>
  What the statements depend on besides the tables: failures, the choices PostgreSQL makes, JSON, fresh
  identifiers and the environment. \<open>sw_summaries\<close> is the failure of the table of summaries, which nothing here reads;
  \<open>sw_policy\<close> that of the statistics the report of the matcher is given.
\<close>

record stageWorld =
  sw_revision :: "rematchState \<Rightarrow> bool"
  sw_epss :: bool
  sw_cvss :: bool
  sw_enrich :: "bool \<times> bool"
  sw_cleanup :: "nat \<Rightarrow> bool \<times> bool"
  sw_match :: rematchFaults
  sw_policy :: bool
  sw_cpe :: rematchFaults
  sw_severity :: bool
  sw_summaries :: bool
  sw_calc :: "string \<Rightarrow> rat"
  sw_pick :: "cveRow list \<Rightarrow> cveRow"
  sw_arrange :: "(pkgRow \<times> cveRow) list \<Rightarrow> (pkgRow \<times> cveRow) list"
  sw_json :: jsonColumns
  sw_fresh :: "nat \<Rightarrow> string"
  sw_freshCPE :: "nat \<Rightarrow> string"
  sw_batch :: int
  sw_options :: rematchOptions

definition stageName :: "stage \<Rightarrow> string" where
  "stageName g = (case g of
     Revision \<Rightarrow> ''security_db_revision'' | MergeEpss \<Rightarrow> ''epss_merge'' | Cvss \<Rightarrow> ''cvss'' | Enrich \<Rightarrow> ''enrich''
   | Cleanup \<Rightarrow> ''stale_rematch_cleanup'' | MatchCVEs \<Rightarrow> ''rematch'' | MatchCPE \<Rightarrow> ''cpe_rematch'' | Severity' \<Rightarrow> ''severity''
   | Summaries \<Rightarrow> ''package_vulnerability_summaries'')"

text \<open>One statement group: the failures it adds to the report and the tables after it.\<close>

definition runStage :: "stageWorld \<Rightarrow> stage \<Rightarrow> rematchState \<Rightarrow> string list \<times> rematchState" where
  "runStage w g st =
     (let report = (\<lambda>(ok, st'). (if ok then [] else [stageName g], st')) in
      case g of
        Revision \<Rightarrow> report (\<not> sw_revision w st, st)
      | MergeEpss \<Rightarrow> report (SyncEPSSPriorityColumns (sw_epss w) st)
      | Cvss \<Rightarrow> report (CalcCvssScores (sw_calc w) (sw_cvss w) st)
      | Enrich \<Rightarrow> report (EnrichVulnerabilities (sw_enrich w) (sw_pick w) (sw_json w) st)
      | Cleanup \<Rightarrow>
          (case RemoveStaleRematchedVulnerabilities (sw_cleanup w) (sw_json w) (sw_batch w) st of (ok, _, st') \<Rightarrow> report (ok, st'))
      | MatchCVEs \<Rightarrow>
          (case RematchCVEs (sw_match w) (sw_arrange w) (sw_json w) (sw_fresh w) (sw_options w) st of
             (None, st') \<Rightarrow> ([stageName g], st')
           | (Some r, st') \<Rightarrow> (if sw_policy w then [''rematch_source_policy''] else [], st'))
      | MatchCPE \<Rightarrow>
          (case RematchCPE (sw_cpe w) (sw_arrange w) (sw_json w) (sw_freshCPE w) (sw_options w) st of
             (None, st') \<Rightarrow> ([stageName g], st')
           | (Some r, st') \<Rightarrow> ([], st'))
      | Severity' \<Rightarrow> report (NormalizeVulnSeverity (sw_severity w) st)
      | Summaries \<Rightarrow> report (\<not> sw_summaries w, st))"

section \<open>Goroutines\<close>

record worker =
  wk_reason :: string
  wk_left :: "stage list"
  wk_failures :: "string list"
  wk_open :: bool

datatype event = Updated string | Started string | Did stage | Finished string string

text \<open>\<open>wk_open\<close>: the final audit entry and the queueing of rescans are still to come.\<close>

record recalcState =
  rc_running :: bool
  rc_pending :: bool
  rc_reason :: string
  rc_workers :: "worker list"
  rc_tables :: rematchState
  rc_log :: "event list"
  rc_rescans :: "(string \<times> string) list"

definition newWorker :: "string \<Rightarrow> worker" where
  "newWorker reason = \<lparr>wk_reason = reason, wk_left = allStages, wk_failures = [], wk_open = True\<rparr>"

definition recalculateSecurityFindings :: "string \<Rightarrow> recalcState \<Rightarrow> recalcState" where
  "recalculateSecurityFindings reason s =
     (if rc_running s then
        s\<lparr>rc_pending := True, rc_reason := coalesceSecurityRecalcReason (rc_reason s) reason,
          rc_log := rc_log s @ [Updated reason]\<rparr>
      else
        s\<lparr>rc_running := True, rc_workers := rc_workers s @ [newWorker reason],
          rc_log := rc_log s @ [Updated reason, Started reason]\<rparr>)"

text \<open>
  One step of the \<open>i\<close>-th goroutine: the next statement of \<^verbatim>\<open>runSecurityRecalculation\<close>; its end; or the turn of
  the loop around it, under the lock.
\<close>

definition advance :: "stageWorld \<Rightarrow> nat \<Rightarrow> recalcState \<Rightarrow> recalcState" where
  "advance world i s =
     (let w = rc_workers s ! i in
      case wk_left w of
        g # gs \<Rightarrow>
          (case runStage world g (rc_tables s) of
             (fs, st') \<Rightarrow>
               s\<lparr>rc_tables := st', rc_workers := (rc_workers s)[i := w\<lparr>wk_left := gs, wk_failures := wk_failures w @ fs\<rparr>],
                 rc_log := rc_log s @ [Did g]\<rparr>)
      | [] \<Rightarrow>
          if wk_open w then
            (let status' = (if wk_failures w \<noteq> [] then ''error'' else ''ok'') in
             s\<lparr>rc_workers := (rc_workers s)[i := w\<lparr>wk_open := False\<rparr>],
               rc_rescans := rc_rescans s @ [(wk_reason w, status')], rc_log := rc_log s @ [Finished (wk_reason w) status']\<rparr>)
          else if \<not> rc_pending s then
            s\<lparr>rc_running := False, rc_workers := take i (rc_workers s) @ drop (Suc i) (rc_workers s)\<rparr>
          else
            s\<lparr>rc_workers := (rc_workers s)[i := newWorker (rc_reason s)], rc_pending := False, rc_reason := [],
              rc_log := rc_log s @ [Started (rc_reason s)]\<rparr>)"

text \<open>Others write to the tables at any time: imports, reports, people.\<close>

inductive recalc_step :: "recalcState \<Rightarrow> recalcState \<Rightarrow> bool" where
  request: "recalc_step s (recalculateSecurityFindings reason s)"
| statement: "i < length (rc_workers s) \<Longrightarrow> recalc_step s (advance world i s)"
| outside: "recalc_step s (s\<lparr>rc_tables := st\<rparr>)"

definition recalcStart :: "rematchState \<Rightarrow> recalcState" where
  "recalcStart st = \<lparr>rc_running = False, rc_pending = False, rc_reason = [], rc_workers = [], rc_tables = st, rc_log = [],
     rc_rescans = []\<rparr>"

inductive recalc_reachable :: "recalcState \<Rightarrow> bool" where
  start: "recalc_reachable (recalcStart st)"
| step: "recalc_reachable s \<Longrightarrow> recalc_step s s' \<Longrightarrow> recalc_reachable s'"

section \<open>Rescans\<close>

datatype rescanOutcome = Disabled | RevisionFailed | QueueFailed | Rescans SecurityDBRescanQueueResult

text \<open>The part that runs in a goroutine of its own; \<open>revision\<close> is what \<^verbatim>\<open>GetSecurityDBRevision\<close> gives.\<close>

definition queueSecurityDBRescans ::
  "environment \<Rightarrow> (string \<Rightarrow> string) \<Rightarrow> int \<Rightarrow> string option \<Rightarrow> (string \<times> int) list \<Rightarrow> string \<Rightarrow> scan_table
    \<Rightarrow> rescanOutcome \<times> scan_table" where
  "queueSecurityDBRescans env newId now revision fleet reason rows =
     (if \<not> envBool env ''BONGSU_AUTO_RESCAN_ON_DB_UPDATE'' True then (Disabled, rows)
      else
        (let hours = envInt env ''BONGSU_AUTO_RESCAN_LAST_SEEN_HOURS'' 720;
             lastSeenAfter = (if hours > 0 then Some (now + wrap64 (- hours * 3600000000000)) else None)
         in case revision of
              None \<Rightarrow> (RevisionFailed, rows)
            | Some rv \<Rightarrow>
                (case QueueSecurityDBRescans newId now ''system'' reason rv lastSeenAfter fleet rows of
                   Inl e \<Rightarrow> (QueueFailed, rows)
                 | Inr (res, rows') \<Rightarrow> (Rescans res, rows'))))"

text \<open>
  The revision: a digest of the number of advisories and of indexed ones, and the time of the last change, of every source.
\<close>

definition sourceLine :: "(int \<Rightarrow> string) \<Rightarrow> rematchState \<Rightarrow> string \<Rightarrow> string" where
  "sourceLine fmt st src =
     (let cs = filter (\<lambda>c. cv_source c = src) (rs_cves st);
          ids = remdups (map cp_cve (filter (\<lambda>r. cp_cve r \<in> cv_id ` set cs) (rs_index st)))
      in src @ [CHR 0x09] @ show_nat (length cs) @ [CHR 0x09] @ show_nat (length ids) @ [CHR 0x09]
           @ fmt (foldl max (cv_updated (hd cs)) (map cv_updated cs)) @ [CHR 0x0A])"

definition GetSecurityDBRevision :: "(string \<Rightarrow> string) \<Rightarrow> (int \<Rightarrow> string) \<Rightarrow> rematchState \<Rightarrow> string" where
  "GetSecurityDBRevision sha256hex fmt st =
     (let sources = sort (remdups (filter (\<lambda>s. s \<noteq> []) (map cv_source (rs_cves st)))) in
      if sources = [] then ''empty'' else take 16 (sha256hex (concat (map (sourceLine fmt st) sources))))"

section \<open>The log\<close>

text \<open>A reader of the log: the pass that is open and the statements it has left; \<open>None\<close> for a log out of order.\<close>

definition follow1 :: "(string \<times> stage list \<times> bool) option option \<Rightarrow> event \<Rightarrow> (string \<times> stage list \<times> bool) option option" where
  "follow1 st e =
     (case st of
        None \<Rightarrow> None
      | Some cur \<Rightarrow>
          (case e of
             Updated _ \<Rightarrow> Some cur
           | Started q \<Rightarrow> (case cur of None \<Rightarrow> Some (Some (q, allStages, True)) | Some (_, _, op) \<Rightarrow> if op then None else Some (Some (q, allStages, True)))
           | Did g \<Rightarrow> (case cur of Some (q, h # hs, True) \<Rightarrow> if g = h then Some (Some (q, hs, True)) else None | _ \<Rightarrow> None)
           | Finished q _ \<Rightarrow> (case cur of Some (q', [], True) \<Rightarrow> if q = q' then Some (Some (q, [], False)) else None | _ \<Rightarrow> None)))"

definition follow :: "event list \<Rightarrow> (string \<times> stage list \<times> bool) option option" where
  "follow es = foldl follow1 (Some None) es"

lemma follow_append: "follow (es @ fs) = foldl follow1 (follow es) fs"
  by (simp add: follow_def)

text \<open>The reasons no pass has been started for.\<close>

definition owed1 :: "string set \<Rightarrow> event \<Rightarrow> string set" where
  "owed1 o' e = (case e of Updated r \<Rightarrow> o' \<union> reasonParts r | Started q \<Rightarrow> o' - reasonParts q | _ \<Rightarrow> o')"

definition owed :: "event list \<Rightarrow> string set" where
  "owed es = foldl owed1 {} es"

lemma owed_append: "owed (es @ fs) = foldl owed1 (owed es) fs"
  by (simp add: owed_def)

definition openPass :: "recalcState \<Rightarrow> (string \<times> stage list \<times> bool) option \<Rightarrow> bool" where
  "openPass s cur \<longleftrightarrow>
     (case rc_workers s of
        [] \<Rightarrow> \<not> rc_running s \<and> \<not> rc_pending s \<and> (case cur of None \<Rightarrow> True | Some (_, _, op) \<Rightarrow> \<not> op)
      | [w] \<Rightarrow> rc_running s \<and> cur = Some (wk_reason w, wk_left w, wk_open w) \<and> (\<not> wk_open w \<longrightarrow> wk_left w = [])
      | _ \<Rightarrow> False)"

lemma one_worker:
  assumes "openPass s cur" "rc_workers s \<noteq> []"
  obtains w where "rc_workers s = [w]" "rc_running s" "cur = Some (wk_reason w, wk_left w, wk_open w)" "\<not> wk_open w \<longrightarrow> wk_left w = []"
proof (cases "rc_workers s")
  case (Cons w ws)
  then show ?thesis using assms(1) that by (cases ws) (simp_all add: openPass_def)
qed (use assms(2) in simp)

lemma openPass_tables [simp]: "openPass (s\<lparr>rc_tables := st\<rparr>) cur = openPass s cur"
  by (simp add: openPass_def split: list.split)

definition recalcInv :: "recalcState \<Rightarrow> bool" where
  "recalcInv s \<longleftrightarrow>
     (\<exists>cur. follow (rc_log s) = Some cur \<and> openPass s cur)
     \<and> (\<not> rc_pending s \<longrightarrow> rc_reason s = [])
     \<and> owed (rc_log s) \<subseteq> reasonParts (rc_reason s)
     \<and> list_all (\<lambda>w. length (wk_left w) \<le> length allStages) (rc_workers s)"

lemma inv_request:
  assumes "recalcInv s"
  shows "recalcInv (recalculateSecurityFindings reason s)"
proof -
  obtain cur where cur: "follow (rc_log s) = Some cur" "openPass s cur" using assms by (auto simp: recalcInv_def)
  have owed: "owed (rc_log s) \<subseteq> reasonParts (rc_reason s)" "list_all (\<lambda>w. length (wk_left w) \<le> length allStages) (rc_workers s)"
    using assms by (simp_all add: recalcInv_def)
  show ?thesis
  proof (cases "rc_running s")
    case True
    then show ?thesis using cur owed
      by (auto simp: recalcInv_def recalculateSecurityFindings_def follow_append follow1_def owed_append owed1_def coalesce_parts
          openPass_def split: list.splits)
  next
    case False
    then have none: "rc_workers s = []" "\<not> rc_pending s" using cur(2) by (auto simp: openPass_def split: list.splits)
    then have "rc_reason s = []" using assms by (simp add: recalcInv_def)
    then show ?thesis using cur owed False none
      by (auto simp: recalcInv_def recalculateSecurityFindings_def follow_append follow1_def owed_append owed1_def
          openPass_def newWorker_def split: option.splits)
  qed
qed

lemma inv_advance:
  assumes "recalcInv s" "i < length (rc_workers s)"
  shows "recalcInv (advance world i s)"
proof -
  obtain cur where cur: "follow (rc_log s) = Some cur" "openPass s cur" using assms by (auto simp: recalcInv_def)
  have owed: "owed (rc_log s) \<subseteq> reasonParts (rc_reason s)" "list_all (\<lambda>w. length (wk_left w) \<le> length allStages) (rc_workers s)"
    and quiet: "\<not> rc_pending s \<longrightarrow> rc_reason s = []"
    using assms by (simp_all add: recalcInv_def)
  obtain w where w: "rc_workers s = [w]" "rc_running s" "cur = Some (wk_reason w, wk_left w, wk_open w)" "\<not> wk_open w \<longrightarrow> wk_left w = []"
    using cur(2) assms(2) by (auto simp: openPass_def split: list.splits)
  have i: "i = 0" using assms(2) w(1) by simp
  show ?thesis
  proof (cases "wk_left w")
    case (Cons g gs)
    obtain fs st' where r: "runStage world g (rc_tables s) = (fs, st')" by fastforce
    have "wk_open w" using w(4) Cons by auto
    then show ?thesis using cur(1) w owed quiet Cons
      by (auto simp: recalcInv_def advance_def i r follow_append follow1_def owed_append owed1_def openPass_def)
  next
    case Nil
    then show ?thesis using cur(1) w owed quiet
      by (cases "wk_open w"; cases "rc_pending s")
        (auto simp: recalcInv_def advance_def i follow_append follow1_def owed_append owed1_def openPass_def newWorker_def Let_def)
  qed
qed

lemma recalc_invariant: "recalc_reachable s \<Longrightarrow> recalcInv s"
proof (induction rule: recalc_reachable.induct)
  case (start st)
  show ?case by (simp add: recalcInv_def recalcStart_def follow_def owed_def openPass_def)
next
  case (step s s')
  from step(2,3) show ?case
  proof cases
    case (outside st)
    then show ?thesis using step(3) by (simp add: recalcInv_def)
  qed (use step(3) in \<open>auto intro: inv_request inv_advance\<close>)
qed

section \<open>Catching up\<close>

text \<open>The goroutine alone.\<close>

definition drainStep :: "stageWorld \<Rightarrow> recalcState \<Rightarrow> recalcState" where
  "drainStep world s = (if rc_workers s = [] then s else advance world 0 s)"

definition workLeft :: "recalcState \<Rightarrow> nat" where
  "workLeft s =
     (case rc_workers s of
        [] \<Rightarrow> 0
      | w # _ \<Rightarrow> length (wk_left w) + (if wk_open w then 2 else 1) + (if rc_pending s then length allStages + 2 else 0))"

lemma drain_less:
  assumes "recalcInv s" "rc_workers s \<noteq> []"
  shows "workLeft (drainStep world s) < workLeft s"
proof -
  obtain w where w: "rc_workers s = [w]" "\<not> wk_open w \<longrightarrow> wk_left w = []"
    using assms(1) one_worker [OF _ assms(2)] unfolding recalcInv_def by metis
  show ?thesis
  proof (cases "wk_left w")
    case (Cons g gs)
    then show ?thesis using w
      by (auto simp: drainStep_def advance_def workLeft_def split: prod.split)
  next
    case Nil
    then show ?thesis using w
      by (auto simp: drainStep_def advance_def workLeft_def newWorker_def Let_def)
  qed
qed

lemma drain_inv: "recalcInv s \<Longrightarrow> recalcInv (drainStep world s)"
  by (auto simp: drainStep_def intro: inv_advance)

lemma drain_idle:
  "recalcInv s \<Longrightarrow> workLeft s \<le> n \<Longrightarrow> recalcInv ((drainStep world ^^ n) s) \<and> rc_workers ((drainStep world ^^ n) s) = []"
proof (induction n arbitrary: s)
  case 0
  then show ?case by (auto simp: workLeft_def split: list.splits if_splits)
next
  case (Suc n)
  show ?case
  proof (cases "rc_workers s = []")
    case True
    then have "workLeft s \<le> n" by (simp add: workLeft_def)
    from Suc.IH [OF Suc.prems(1) this] True show ?thesis by (simp add: funpow_swap1 drainStep_def)
  next
    case False
    have "workLeft (drainStep world s) \<le> n" using drain_less [OF Suc.prems(1) False, of world] Suc.prems(2) by simp
    from Suc.IH [OF drain_inv [OF Suc.prems(1)] this] show ?thesis by (simp add: funpow_swap1)
  qed
qed

lemma workLeft_bound: "recalcInv s \<Longrightarrow> workLeft s \<le> 2 * (length allStages + 2)"
  by (auto simp: recalcInv_def workLeft_def split: list.splits)

end
