(* ===== verification/Recalc_Safety.thy ===== *)
theory Recalc_Safety
  imports Recalculation
begin

text \<open>
  What recalculation guarantees: every request is followed by a whole pass that began after it, whoever asks and
  writes in between, and a pass that nothing disturbs leaves the findings in agreement with the advisories.
\<close>

section \<open>Reading the log\<close>

definition stagesOf :: "event list \<Rightarrow> stage list" where
  "stagesOf es = concat (map (\<lambda>e. case e of Did g \<Rightarrow> [g] | _ \<Rightarrow> []) es)"

lemma stagesOf_simps [simp]:
  "stagesOf [] = []" "stagesOf (e # es) = (case e of Did g \<Rightarrow> g # stagesOf es | _ \<Rightarrow> stagesOf es)"
  by (simp_all add: stagesOf_def split: event.split)

lemma follow_dead: "foldl follow1 None es = None"
  by (induction es) (simp_all add: follow1_def)

lemma follow1_dead [simp]: "follow1 None e = None"
  by (simp add: follow1_def)

lemma follow1_open [simp]:
  "follow1 (Some (Some (q, left, True))) (Updated r) = Some (Some (q, left, True))"
  "follow1 (Some (Some (q, left, True))) (Started q') = None"
  "follow1 (Some (Some (q, left, True))) (Did g) = (case left of [] \<Rightarrow> None | h # hs \<Rightarrow> if g = h then Some (Some (q, hs, True)) else None)"
  "follow1 (Some (Some (q, left, True))) (Finished q' st) = (if left = [] \<and> q = q' then Some (Some (q, [], False)) else None)"
  by (simp_all add: follow1_def split: list.split)

definition closed :: "(string \<times> stage list \<times> bool) option \<Rightarrow> bool" where
  "closed cur \<longleftrightarrow> (case cur of None \<Rightarrow> True | Some (_, _, op) \<Rightarrow> \<not> op)"

text \<open>A pass that is open when a log begins and closed when it ends has run what it had left, in order.\<close>

lemma pass_finishes:
  assumes "foldl follow1 (Some (Some (q, left, True))) es = Some cur" "closed cur"
  shows "\<exists>as st bs. es = as @ Finished q st # bs \<and> stagesOf as = left"
  using assms
proof (induction es arbitrary: left)
  case Nil
  then have "cur = Some (q, left, True)" by simp
  then show ?case using Nil.prems(2) by (simp add: closed_def)
next
  case (Cons e es)
  show ?case
  proof (cases e)
    case (Updated r)
    then obtain as st bs where "es = as @ Finished q st # bs" "stagesOf as = left"
      using Cons.prems Cons.IH [of left] by auto
    then show ?thesis using Updated by (intro exI [of _ "e # as"]) auto
  next
    case (Started q')
    then show ?thesis using Cons.prems by (simp add: follow_dead)
  next
    case (Did g)
    then obtain hs where hs: "left = g # hs" "foldl follow1 (Some (Some (q, hs, True))) es = Some cur"
      using Cons.prems(1) by (cases left) (auto simp: follow_dead split: if_splits)
    from Cons.IH [OF hs(2) Cons.prems(2)] obtain as st bs where "es = as @ Finished q st # bs" "stagesOf as = hs" by blast
    then show ?thesis using Did hs(1) by (intro exI [of _ "e # as"]) auto
  next
    case (Finished q' st)
    then have "left = []" "q' = q"
      using Cons.prems(1) by (cases left; auto simp: follow_dead split: if_splits)+
    then have "e # es = [] @ Finished q st # es \<and> stagesOf [] = left" using Finished by simp
    then show ?thesis by blast
  qed
qed

lemma started_finishes:
  assumes "follow (as @ Started q # es) = Some cur" "closed cur"
  shows "\<exists>bs st cs. es = bs @ Finished q st # cs \<and> stagesOf bs = allStages"
proof -
  obtain c where "foldl follow1 (follow1 (Some c) (Started q)) es = Some cur"
    using assms(1) by (cases "follow as") (auto simp: follow_append follow_dead follow1_def)
  then have "foldl follow1 (Some (Some (q, allStages, True))) es = Some cur"
    by (cases c) (auto simp: follow1_def follow_dead split: if_splits)
  then show ?thesis using pass_finishes assms(2) by blast
qed

lemma owed_paid:
  assumes "x \<in> foldl owed1 o' es \<longrightarrow> False" "x \<in> o'"
  shows "\<exists>as q bs. es = as @ Started q # bs \<and> x \<in> reasonParts q"
  using assms
proof (induction es arbitrary: o')
  case (Cons e es)
  show ?case
  proof (cases "\<exists>q. e = Started q \<and> x \<in> reasonParts q")
    case True
    then show ?thesis by (metis append_Nil)
  next
    case False
    then have "x \<in> owed1 o' e" using Cons.prems(2) by (auto simp: owed1_def split: event.split)
    then obtain as q bs where "es = as @ Started q # bs" "x \<in> reasonParts q" using Cons.IH [of "owed1 o' e"] Cons.prems(1) by auto
    then show ?thesis by (metis append_Cons)
  qed
qed simp

lemma request_started:
  assumes "owed (as @ Updated r # es) = {}" "x \<in> reasonParts r"
  shows "\<exists>bs q cs. es = bs @ Started q # cs \<and> x \<in> reasonParts q"
  by (rule owed_paid [of x "owed as \<union> reasonParts r"]) (use assms in \<open>simp_all add: owed_append owed1_def\<close>)

lemma drain_log: "\<exists>es. rc_log ((drainStep world ^^ n) s) = rc_log s @ es"
proof (induction n)
  case (Suc n)
  have "\<exists>es. rc_log (drainStep world s) = rc_log s @ es" for s
    by (auto simp: drainStep_def advance_def Let_def split: list.split prod.split)
  then show ?case using Suc by (metis append_assoc comp_apply funpow.simps(2))
qed simp

lemma drained:
  assumes "recalcInv s" "n = 2 * (length allStages + 2)"
  shows "let s' = (drainStep world ^^ n) s in
    rc_workers s' = [] \<and> \<not> rc_running s' \<and> \<not> rc_pending s' \<and> owed (rc_log s') = {}
    \<and> (\<exists>cur. follow (rc_log s') = Some cur \<and> closed cur)"
proof -
  define s' where "s' = (drainStep world ^^ n) s"
  have "workLeft s \<le> n" using workLeft_bound [OF assms(1)] assms(2) by simp
  from drain_idle [OF assms(1) this, of world] have i: "recalcInv s'" "rc_workers s' = []" by (simp_all add: s'_def)
  then have "owed (rc_log s') = {}" "\<not> rc_running s'" "\<not> rc_pending s'"
    "\<exists>cur. follow (rc_log s') = Some cur \<and> closed cur"
    by (auto simp: recalcInv_def openPass_def closed_def)
  then show ?thesis using i(2) by (simp add: s'_def [symmetric] Let_def)
qed

definition sampleWorld :: stageWorld where
  "sampleWorld = \<lparr>sw_revision = (\<lambda>_. False), sw_epss = False, sw_cvss = False, sw_enrich = (False, False),
     sw_cleanup = (\<lambda>_. (False, False)), sw_match = allWork, sw_policy = False, sw_cpe = allWork, sw_severity = False,
     sw_summaries = False, sw_calc = (\<lambda>_. 0), sw_pick = hd, sw_arrange = (\<lambda>xs. xs), sw_json = sampleJson,
     sw_fresh = (\<lambda>_. ''i''), sw_freshCPE = (\<lambda>_. ''j''), sw_batch = 10, sw_options = sampleOptions\<rparr>"

text \<open>C4: no update of the advisory database is forgotten: in every state that requests, writes and the statements of the running
  goroutine can reach in any order, at most one goroutine runs, and left alone it stops within twenty-two steps; by then each
  reason ever given is covered by a pass that began after the request, ran all nine statement groups in order and
  finished.\<close>

theorem recalculation_catches_up:
  assumes "recalc_reachable s" "n = 2 * (length allStages + 2)" "s' = (drainStep world ^^ n) s"
  shows "length (rc_workers s) \<le> 1 \<and> rc_workers s' = [] \<and> \<not> rc_running s' \<and> \<not> rc_pending s'
    \<and> (\<exists>es. rc_log s' = rc_log s @ es)
    \<and> (\<forall>as r es x. rc_log s' = as @ Updated r # es \<and> x \<in> reasonParts r \<longrightarrow>
         (\<exists>bs q cs st ds. es = bs @ Started q # cs @ Finished q st # ds \<and> x \<in> reasonParts q \<and> stagesOf cs = allStages))"
proof -
  note inv = recalc_invariant [OF assms(1)]
  have one: "length (rc_workers s) \<le> 1"
    using inv one_worker unfolding recalcInv_def by (cases "rc_workers s = []") (force, metis One_nat_def list.size(3) list.size(4) order_refl plus_1_eq_Suc add.commute add_0)
  note d = drained [OF inv assms(2), of world, folded assms(3), unfolded Let_def]
  have "\<exists>bs q cs st ds. es = bs @ Started q # cs @ Finished q st # ds \<and> x \<in> reasonParts q \<and> stagesOf cs = allStages"
    if log: "rc_log s' = as @ Updated r # es" "x \<in> reasonParts r" for as r es x
  proof -
    obtain bs q cs where s: "es = bs @ Started q # cs" "x \<in> reasonParts q"
      using request_started [of as r es x] d log by auto
    obtain cur where "follow ((as @ Updated r # bs) @ Started q # cs) = Some cur" "closed cur" using d log s by auto
    from started_finishes [OF this] s show ?thesis by blast
  qed
  then show ?thesis using one d drain_log [of n world s] assms(3) by blast
qed

lemma recalculation_catches_up_witness:
  "\<exists>es. rc_log ((drainStep sampleWorld ^^ 22) (recalculateSecurityFindings ''b'' (recalculateSecurityFindings ''a'' (recalcStart sampleStore))))
     = [Updated ''a'', Started ''a'', Updated ''b''] @ es"
proof -
  let ?s = "recalculateSecurityFindings ''b'' (recalculateSecurityFindings ''a'' (recalcStart sampleStore))"
  have r: "recalc_reachable ?s"
    by (rule recalc_reachable.step [OF recalc_reachable.step [OF recalc_reachable.start]]) (rule recalc_step.request)+
  have "rc_log ?s = [Updated ''a'', Started ''a'', Updated ''b'']"
    by (simp add: recalculateSecurityFindings_def recalcStart_def)
  then show ?thesis using recalculation_catches_up [OF r refl refl, where world = sampleWorld] by (simp add: allStages_def)
qed

section \<open>A pass on its own\<close>

definition passTables :: "stageWorld \<Rightarrow> rematchState \<Rightarrow> string list \<times> rematchState" where
  "passTables w st =
     fold (\<lambda>g (fs, st). case runStage w g st of (fs', st') \<Rightarrow> (fs @ fs', st')) allStages ([], st)"

text \<open>The goroutine's steps compute it.\<close>

definition passing :: "recalcState \<Rightarrow> string \<Rightarrow> stage list \<Rightarrow> string list \<Rightarrow> rematchState \<Rightarrow> bool" where
  "passing s q gs fs st \<longleftrightarrow>
     rc_workers s = [\<lparr>wk_reason = q, wk_left = gs, wk_failures = fs, wk_open = True\<rparr>] \<and> rc_tables s = st"

lemma advance_stage:
  "passing s q (g # gs) fs st \<Longrightarrow>
    passing (advance w 0 s) q gs (fs @ fst (runStage w g st)) (snd (runStage w g st))"
  by (simp add: passing_def advance_def split: prod.split)

lemma pass_steps:
  "passing s q gs fs st \<Longrightarrow>
    (case fold (\<lambda>g (fs, st). case runStage w g st of (fs', st') \<Rightarrow> (fs @ fs', st')) gs (fs, st) of
       (fs', st') \<Rightarrow> passing ((drainStep w ^^ length gs) s) q [] fs' st')"
proof (induction gs arbitrary: s fs st)
  case (Cons g gs)
  have "drainStep w s = advance w 0 s" using Cons.prems by (simp add: drainStep_def passing_def)
  then show ?case using Cons.IH [OF advance_stage [OF Cons.prems, of w]]
    by (simp add: funpow_swap1 case_prod_beta)
qed simp

text \<open>What matching reads of a finding and of an advisory does not change with a refinement.\<close>

lemma supported_same:
  assumes "sameFinding v v'" "rs_packages st' = rs_packages st" "rs_cves st' = rs_cves st"
  shows "unsupported jc st' v' = unsupported jc st v"
proof -
  have p: "packageOf st' v' = packageOf st v" using assms by (simp add: packageOf_def sameFinding_def vulnKey_def)
  have n: "checkedName v' q = checkedName v q" "checkedVersion v' q = checkedVersion v q" for q
    using assms(1) by (simp_all add: checkedName_def checkedVersion_def sameFinding_def)
  have v: "vr_vuln v' = vr_vuln v" "vr_source v' = vr_source v" using assms(1) by (simp_all add: sameFinding_def vulnKey_def)
  have "isSupported jc st' v' = isSupported jc st v"
    unfolding isSupported_def p v assms(3) supportedBy_def n ..
  then show ?thesis by (simp add: unsupported_def rematched_def p v)
qed

lemma refines_ids:
  assumes "refines st st'"
  shows "map vr_id (rs_vulns st') = map vr_id (rs_vulns st)" "map vulnKey (rs_vulns st') = map vulnKey (rs_vulns st)"
  using assms by (auto simp: refines_def sameFinding_def list_all2_conv_all_nth intro: nth_equalityI)

lemma refines_idsOk: "refines st st' \<Longrightarrow> idsOk st' = idsOk st"
proof -
  assume r: "refines st st'"
  have "vr_id ` set (rs_vulns st') = vr_id ` set (rs_vulns st)" using refines_ids(1) [OF r] by (metis set_map)
  then show "idsOk st' = idsOk st" using refines_ids(1) [OF r] by (simp add: idsOk_def)
qed

lemma refines_storeOk: "refines st st' \<Longrightarrow> storeOk st' = storeOk st"
  by (simp add: refines_def storeOk_def)

section \<open>EPSS\<close>

definition epssOf :: "cveRow list \<Rightarrow> string \<Rightarrow> rat \<times> rat" where
  "epssOf cs v = (case latestEpss cs v of None \<Rightarrow> (0, 0) | Some e \<Rightarrow> (cv_epss e, cv_percentile e))"

definition epssSame :: "cveRow \<Rightarrow> cveRow \<Rightarrow> bool" where
  "epssSame c d \<longleftrightarrow> cv_source d = cv_source c \<and> cv_vuln d = cv_vuln c
     \<and> (cv_source c = ''epss'' \<longrightarrow> cv_epss d = cv_epss c \<and> cv_percentile d = cv_percentile c \<and> cv_updated d = cv_updated c)"

lemma bestEpss_map: "\<forall>c \<in> set cs. epssKey (f c) = epssKey c \<Longrightarrow> bestEpss (map f cs) = map_option f (bestEpss cs)"
proof (induction cs)
  case (Cons c cs)
  have mem: "bestEpss cs = Some b \<Longrightarrow> b \<in> set cs" for b
    by (induction cs arbitrary: b) (auto split: option.splits if_splits)
  then show ?case using Cons by (auto split: option.split)
qed simp

lemma epssOf_map:
  assumes "\<forall>c \<in> set cs. epssSame c (f c)"
  shows "epssOf (map f cs) v = epssOf cs v"
proof -
  let ?P = "\<lambda>c. hasEpss c \<and> cv_vuln c = v"
  have "filter ?P (map f cs) = map f (filter ?P cs)"
    using assms by (simp add: filter_map comp_def) (rule arg_cong [of _ _ "map f"], rule filter_cong, auto simp: epssSame_def hasEpss_def)
  moreover have "\<forall>c \<in> set (filter ?P cs). epssKey (f c) = epssKey c"
    using assms by (auto simp: epssSame_def hasEpss_def epssKey_def)
  ultimately have l: "latestEpss (map f cs) v = map_option f (latestEpss cs v)" by (simp add: latestEpss_def bestEpss_map)
  have mem: "bestEpss ds = Some b \<Longrightarrow> b \<in> set ds" for ds b
    by (induction ds arbitrary: b) (auto split: option.splits if_splits)
  have "latestEpss cs v = Some e \<Longrightarrow> cv_epss (f e) = cv_epss e \<and> cv_percentile (f e) = cv_percentile e" for e
    using mem [of "filter ?P cs" e] assms by (auto simp: latestEpss_def epssSame_def hasEpss_def)
  then show ?thesis by (auto simp: epssOf_def l split: option.split)
qed

definition epssSynced :: "cveRow list \<Rightarrow> bool" where
  "epssSynced cs \<longleftrightarrow> list_all (\<lambda>c. cv_source c \<noteq> ''epss'' \<longrightarrow> (cv_epss c, cv_percentile c) = epssOf cs (cv_vuln c)) cs"

lemma bestEpss_none: "bestEpss cs = None \<longleftrightarrow> cs = []"
  by (cases cs) (auto split: option.split)

lemma epssOf_none: "\<not> list_ex (\<lambda>e. hasEpss e \<and> cv_vuln e = v) cs \<Longrightarrow> latestEpss cs v = None"
  by (auto simp: latestEpss_def bestEpss_none list_ex_iff filter_empty_conv)

lemma epssOf_some: "list_ex (\<lambda>e. hasEpss e \<and> cv_vuln e = v) cs \<Longrightarrow> latestEpss cs v \<noteq> None"
  by (auto simp: latestEpss_def bestEpss_none list_ex_iff filter_empty_conv)

lemma epss_synced: "epssSynced (setEpss (clearEpss cs))"
proof -
  let ?cl = "clearEpss cs"
  have same1: "epssOf ?cl v = epssOf cs v" for v unfolding clearEpss_def by (rule epssOf_map) (auto simp: epssSame_def)
  have same2: "epssOf (setEpss ?cl) v = epssOf ?cl v" for v
    unfolding setEpss_def by (rule epssOf_map) (auto simp: epssSame_def split: option.split)
  have cleared: "(cv_epss c, cv_percentile c) = (0, 0)"
    if c: "c \<in> set ?cl" "cv_source c \<noteq> ''epss''" and none: "latestEpss ?cl (cv_vuln c) = None" for c
  proof -
    have "\<not> list_ex (\<lambda>e. hasEpss e \<and> cv_vuln e = cv_vuln c) ?cl" using none epssOf_some by blast
    moreover have "list_ex (\<lambda>e. hasEpss e \<and> cv_vuln e = v) cs \<Longrightarrow> list_ex (\<lambda>e. hasEpss e \<and> cv_vuln e = v) ?cl" for v
      by (force simp: clearEpss_def list_ex_iff hasEpss_def)
    ultimately show ?thesis using c by (auto simp: clearEpss_def split: if_splits)
  qed
  have "(cv_epss d, cv_percentile d) = epssOf (setEpss ?cl) (cv_vuln d)"
    if mem: "d \<in> set (setEpss ?cl)" and other: "cv_source d \<noteq> ''epss''" for d
  proof -
    obtain c where c: "c \<in> set ?cl" and d: "d = (case latestEpss ?cl (cv_vuln c) of
        Some e \<Rightarrow> if cv_source c \<noteq> ''epss'' \<and> (cv_epss c \<noteq> cv_epss e \<or> cv_percentile c \<noteq> cv_percentile e)
                  then c\<lparr>cv_epss := cv_epss e, cv_percentile := cv_percentile e\<rparr> else c
      | None \<Rightarrow> c)" using mem unfolding setEpss_def set_map by (elim imageE) blast
    have src: "cv_source c \<noteq> ''epss''" "cv_vuln d = cv_vuln c" using other d by (auto split: option.splits if_splits)
    show ?thesis unfolding same2 src(2)
      using cleared [OF c src(1)] d src(1) by (cases "latestEpss ?cl (cv_vuln c)") (auto simp: epssOf_def)
  qed
  then show ?thesis by (simp add: epssSynced_def list_all_iff)
qed

lemma epssSynced_map:
  assumes "\<forall>c \<in> set cs. cv_source (f c) = cv_source c \<and> cv_vuln (f c) = cv_vuln c \<and> cv_epss (f c) = cv_epss c
    \<and> cv_percentile (f c) = cv_percentile c \<and> cv_updated (f c) = cv_updated c"
  shows "epssSynced (map f cs) = epssSynced cs"
proof -
  have "epssOf (map f cs) v = epssOf cs v" for v by (rule epssOf_map) (use assms in \<open>simp add: epssSame_def\<close>)
  then show ?thesis using assms by (simp add: epssSynced_def list_all_iff)
qed

end
