(* ===== verification/Recalc_Pass.thy ===== *)
theory Recalc_Pass
  imports Recalc_Safety
begin

text \<open>
  A pass of the recalculation that nothing disturbs and in which nothing fails: afterwards the findings, the
  severities and the EPSS columns agree with the advisories.
\<close>

section \<open>Stage by stage\<close>

definition severitiesOk :: "rematchState \<Rightarrow> bool" where
  "severitiesOk st \<longleftrightarrow> list_all (\<lambda>v. vr_score v \<ge> 1 / 10 \<longrightarrow> vr_severity v = severityFromScore (vr_score v)) (rs_vulns st)"

definition matchingTables :: "rematchState \<Rightarrow> pkgRow list \<times> ScanRow list \<times> cveRow list \<times> capRow list" where
  "matchingTables st = (rs_packages st, rs_scans st, rs_cves st, rs_index st)"

lemma matchingTables_vulns [simp]: "matchingTables (st\<lparr>rs_vulns := vs\<rparr>) = matchingTables st"
  by (simp add: matchingTables_def)

lemma candidateRows_tables: "matchingTables st' = matchingTables st \<Longrightarrow> candidateRows jc st' o' = candidateRows jc st o'"
  by (simp add: matchingTables_def candidateRows_def scanInScope_def sourceAllowed_def)

lemma storeOk_tables: "matchingTables st' = matchingTables st \<Longrightarrow> storeOk st' = storeOk st"
  by (simp add: matchingTables_def storeOk_def)

lemma unsupported_tables: "matchingTables st' = matchingTables st \<Longrightarrow> unsupported jc st' v = unsupported jc st v"
  by (rule supported_same) (simp_all add: matchingTables_def)

lemma severityFromScore_nonempty: "severityFromScore x \<noteq> [] \<longleftrightarrow> x \<ge> 1 / 10"
  by (auto simp: severityFromScore_def)

lemma normalize_severities: "severitiesOk (snd (NormalizeVulnSeverity False st))"
  by (auto simp: severitiesOk_def NormalizeVulnSeverity_def list_all_iff severityFromScore_nonempty)

lemma normalize_tables: "matchingTables (snd (NormalizeVulnSeverity bad st)) = matchingTables st"
  by (simp add: matchingTables_def NormalizeVulnSeverity_def)

lemma cvss_epss: "epssSynced (rs_cves (snd (CalcCvssScores calc bad st))) = epssSynced (rs_cves st)"
  by (cases bad) (simp_all add: CalcCvssScores_def epssSynced_map Let_def)

lemma enrich_cves: "rs_cves (snd (EnrichVulnerabilities bad pick jc st)) = rs_cves st"
  by (simp add: EnrichVulnerabilities_def Let_def)

lemma refines_keys: "refines st st' \<Longrightarrow> vulnKey ` set (rs_vulns st') = vulnKey ` set (rs_vulns st)"
proof -
  assume "refines st st'"
  from refines_ids(2) [OF this] have "set (map vulnKey (rs_vulns st')) = set (map vulnKey (rs_vulns st))" by simp
  then show ?thesis unfolding set_map .
qed

lemma list_all2_back: "list_all2 P xs ys \<Longrightarrow> y \<in> set ys \<Longrightarrow> \<exists>x \<in> set xs. P x y"
  by (induction rule: list_all2_induct) auto

section \<open>The whole pass\<close>

definition calm :: "stageWorld \<Rightarrow> bool" where
  "calm w \<longleftrightarrow> (\<forall>xs. mset (sw_arrange w xs) = mset xs) \<and> 0 < sw_batch w \<and> (\<forall>m. \<not> rf_exists (sw_match w) m)"

lemma cleanup_stage:
  assumes "runStage w Cleanup st = ([], st')" "idsOk st" "0 < sw_batch w"
  shows "matchingTables st' = matchingTables st" "\<forall>v \<in> set (rs_vulns st'). \<not> unsupported (sw_json w) st' v"
proof -
  obtain ok r s1 where c: "RemoveStaleRematchedVulnerabilities (sw_cleanup w) (sw_json w) (sw_batch w) st = (ok, r, s1)"
    by (metis prod_cases3)
  then have ok: "ok" "s1 = st'" using assms(1) by (auto simp: runStage_def Let_def split: if_splits)
  have "0 < cleanupBatchSize (sw_batch w)" using assms(3) by (simp add: cleanupBatchSize_def)
  from c cleanupLoop_cleans [OF _ assms(2) this] have "cleans (sw_json w) [] st ok s1"
    unfolding RemoveStaleRematchedVulnerabilities_def Let_def by blast
  then obtain P where P: "st' = st\<lparr>rs_vulns := filter P (rs_vulns st)\<rparr>"
    "\<forall>v \<in> set (rs_vulns st). P v \<longleftrightarrow> \<not> unsupported (sw_json w) st v" using ok by (auto simp: cleans_def)
  then show "matchingTables st' = matchingTables st" "\<forall>v \<in> set (rs_vulns st'). \<not> unsupported (sw_json w) st' v"
    by (auto simp: matchingTables_def)
qed

lemma match_tables:
  assumes "calm w" "runStage w MatchCVEs st = (fs, st')"
  shows "matchingTables st' = matchingTables st"
proof -
  have perm: "\<forall>xs. mset (sw_arrange w xs) = mset xs" using assms(1) by (simp add: calm_def)
  have "st' = snd (RematchCVEs (sw_match w) (sw_arrange w) (sw_json w) (sw_fresh w) (sw_options w) st)"
    using assms(2) by (auto simp: runStage_def Let_def split: prod.splits option.splits)
  then show ?thesis using ran_new [OF rematch_ran [OF perm]] by (metis matchingTables_vulns)
qed

lemma cpe_tables:
  assumes "calm w" "runStage w MatchCPE st = (fs, st')"
  shows "matchingTables st' = matchingTables st"
proof -
  have perm: "\<forall>xs. mset (sw_arrange w xs) = mset xs" using assms(1) by (simp add: calm_def)
  have "st' = snd (RematchCPE (sw_cpe w) (sw_arrange w) (sw_json w) (sw_freshCPE w) (sw_options w) st)"
    using assms(2) by (auto simp: runStage_def Let_def split: prod.splits option.splits)
  then show ?thesis using ranCPE_new [OF cpe_ran [OF perm]] by (metis matchingTables_vulns)
qed

lemma match_stage:
  assumes "runStage w MatchCVEs st = ([], st')" "calm w" "storeOk st"
    and "int (length (candidateRows (sw_json w) st (sw_options w))) \<le> candidateLimit (sw_options w)"
  obtains new where "st' = st\<lparr>rs_vulns := rs_vulns st @ new\<rparr>" "\<forall>v \<in> set new. isSupported (sw_json w) st v"
    "\<forall>m \<in> set (candidateRows (sw_json w) st (sw_options w)). snd (decision (sw_json w) (fst m) (snd m)) \<longrightarrow>
       vulnKey (findingFor (sw_json w) m []) \<in> vulnKey ` set (rs_vulns st')"
proof -
  let ?out = "RematchCVEs (sw_match w) (sw_arrange w) (sw_json w) (sw_fresh w) (sw_options w) st"
  have perm: "\<forall>xs. mset (sw_arrange w xs) = mset xs" using assms(2) by (simp add: calm_def)
  obtain r where out: "?out = (Some r, st')"
    using assms(1) by (auto simp: runStage_def Let_def split: prod.splits option.splits)
  have "\<not> rr_Limited r" by (rule rematch_unlimited [OF perm assms(4), of "sw_match w" "sw_fresh w"]) (simp add: out)
  then obtain new where new: "st' = st\<lparr>rs_vulns := rs_vulns st @ new\<rparr>"
    "collected (sw_json w) (rf_exists (sw_match w)) (rs_vulns st) (set (candidateRows (sw_json w) st (sw_options w))) new"
    "allCovered (sw_match w) (sw_json w) st (sw_options w) new"
    using rematch_ran [OF perm, of "sw_match w" "sw_json w" st "sw_options w" "sw_fresh w"] by (auto simp: ran_def out)
  have sup: "\<forall>v \<in> set new. isSupported (sw_json w) st v"
    using new(2) found_supported [OF _ assms(3)] by (fastforce simp: collected_def acted_def findingFor_def)
  have cov: "vulnKey (findingFor (sw_json w) m []) \<in> vulnKey ` set (rs_vulns st')"
    if m: "m \<in> set (candidateRows (sw_json w) st (sw_options w))" "snd (decision (sw_json w) (fst m) (snd m))" for m
  proof (cases "vulnKey (findingFor (sw_json w) m []) \<in> vulnKey ` set (rs_vulns st)")
    case True
    then show ?thesis by (auto simp: new(1))
  next
    case False
    then have "acted (sw_json w) (rf_exists (sw_match w)) (rs_vulns st) m"
      using m(2) assms(2) by (cases m) (simp add: acted_def calm_def findingFor_key)
    then have "covers new (findingFor (sw_json w) m [])" using new(3) m(1) by (simp add: allCovered_def)
    then show ?thesis by (auto simp: covers_def list_ex_iff new(1) intro: rev_image_eqI)
  qed
  show ?thesis using that [OF new(1) sup] cov by blast
qed

lemma cpe_stage:
  assumes "runStage w MatchCPE st = ([], st')" "calm w" "storeOk st"
  obtains new where "st' = st\<lparr>rs_vulns := rs_vulns st @ new\<rparr>" "\<forall>v \<in> set new. isSupported (sw_json w) st v"
proof -
  let ?out = "RematchCPE (sw_cpe w) (sw_arrange w) (sw_json w) (sw_freshCPE w) (sw_options w) st"
  have perm: "\<forall>xs. mset (sw_arrange w xs) = mset xs" using assms(2) by (simp add: calm_def)
  have out: "st' = snd ?out" using assms(1) by (auto simp: runStage_def Let_def split: prod.splits option.splits)
  obtain new where new: "snd ?out = st\<lparr>rs_vulns := rs_vulns st @ new\<rparr>"
    "\<forall>v \<in> set new. \<exists>m \<in> set (cpeRows (sw_json w) st (sw_options w)). cpeAccepted (sw_json w) m \<and> (\<exists>i. v = cpeFinding (sw_json w) m i)"
    using ranCPE_new [OF cpe_ran [OF perm]] .
  have "\<forall>v \<in> set new. isSupported (sw_json w) st v"
    using new(2) cpe_supported [OF _ assms(3)] by (fastforce simp: cpeAccepted_def cpeFinding_def)
  then show ?thesis using that new(1) out by blast
qed

lemma pass_unfolds:
  assumes "passTables w st = ([], st')"
  obtains s1 s2 s3 s4 s5 s6 where "runStage w MergeEpss st = ([], s1)" "runStage w Cvss s1 = ([], s2)"
    "runStage w Enrich s2 = ([], s3)" "runStage w Cleanup s3 = ([], s4)" "runStage w MatchCVEs s4 = ([], s5)"
    "runStage w MatchCPE s5 = ([], s6)" "runStage w Severity' s6 = ([], st')"
proof -
  have r: "runStage w Revision s = (fs, s') \<Longrightarrow> s' = s" "runStage w Summaries s = (fs, s') \<Longrightarrow> s' = s" for s s' fs
    by (auto simp: runStage_def)
  from assms that show ?thesis
    by (auto simp: passTables_def allStages_def split: prod.splits dest!: r)
qed

lemma epss_stage: "runStage w MergeEpss st = ([], s) \<Longrightarrow> s = snd (SyncEPSSPriorityColumns False st)"
  by (auto simp: runStage_def SyncEPSSPriorityColumns_def split: if_splits)

lemma cvss_stage: "runStage w Cvss st = ([], s) \<Longrightarrow> s = snd (CalcCvssScores (sw_calc w) (sw_cvss w) st)"
  by (cases "CalcCvssScores (sw_calc w) (sw_cvss w) st") (simp add: runStage_def)

lemma enrich_stage: "runStage w Enrich st = ([], s) \<Longrightarrow> s = snd (EnrichVulnerabilities (sw_enrich w) (sw_pick w) (sw_json w) st)"
  by (cases "EnrichVulnerabilities (sw_enrich w) (sw_pick w) (sw_json w) st") (simp add: runStage_def)

lemma severity_stage: "runStage w Severity' st = ([], s) \<Longrightarrow> s = snd (NormalizeVulnSeverity False st)"
  by (auto simp: runStage_def NormalizeVulnSeverity_def split: if_splits)

text \<open>From the removal on, the tables that matching reads do not change.\<close>

lemma late_tables:
  assumes "runStage w Cleanup s3 = ([], s4)" "runStage w MatchCVEs s4 = ([], s5)" "runStage w MatchCPE s5 = ([], s6)"
    and "calm w" "idsOk s3"
  shows "matchingTables s4 = matchingTables s3" "matchingTables s5 = matchingTables s3" "matchingTables s6 = matchingTables s3"
proof -
  have "0 < sw_batch w" using assms(4) by (simp add: calm_def)
  then show t4: "matchingTables s4 = matchingTables s3" by (rule cleanup_stage(1) [OF assms(1,5)])
  show t5: "matchingTables s5 = matchingTables s3" using match_tables [OF assms(4,2)] t4 by (rule trans)
  show "matchingTables s6 = matchingTables s3" using cpe_tables [OF assms(4,3)] t5 by (rule trans)
qed

definition matchedAll :: "jsonColumns \<Rightarrow> rematchOptions \<Rightarrow> rematchState \<Rightarrow> bool" where
  "matchedAll jc o' st \<longleftrightarrow>
     (\<forall>m \<in> set (candidateRows jc st o'). snd (decision jc (fst m) (snd m)) \<longrightarrow>
        vulnKey (findingFor jc m []) \<in> vulnKey ` set (rs_vulns st))"

lemma matchedAll_grows:
  assumes "matchedAll jc o' st" "matchingTables st' = matchingTables st" "vulnKey ` set (rs_vulns st) \<subseteq> vulnKey ` set (rs_vulns st')"
  shows "matchedAll jc o' st'"
  using assms(1,3) candidateRows_tables [OF assms(2)] unfolding matchedAll_def by (metis subsetD)

definition allSupported :: "jsonColumns \<Rightarrow> rematchState \<Rightarrow> bool" where
  "allSupported jc st \<longleftrightarrow> (\<forall>v \<in> set (rs_vulns st). \<not> unsupported jc st v)"

lemma allSupported_append:
  assumes "allSupported jc st" "\<forall>v \<in> set new. isSupported jc st v"
  shows "allSupported jc (st\<lparr>rs_vulns := rs_vulns st @ new\<rparr>)"
  unfolding allSupported_def
proof
  fix v assume "v \<in> set (rs_vulns (st\<lparr>rs_vulns := rs_vulns st @ new\<rparr>))"
  then have "v \<in> set (rs_vulns st) \<or> v \<in> set new" by simp
  then show "\<not> unsupported jc (st\<lparr>rs_vulns := rs_vulns st @ new\<rparr>) v"
    using assms by (auto simp: allSupported_def unsupported_def)
qed

lemma allSupported_refines:
  assumes "allSupported jc st" "refines st st'" "matchingTables st' = matchingTables st"
  shows "allSupported jc st'"
  unfolding allSupported_def
proof
  fix v assume v: "v \<in> set (rs_vulns st')"
  have "list_all2 sameFinding (rs_vulns st) (rs_vulns st')" using assms(2) by (simp add: refines_def)
  from list_all2_back [OF this v] obtain u where u: "u \<in> set (rs_vulns st)" "sameFinding u v" ..
  have "rs_packages st' = rs_packages st" "rs_cves st' = rs_cves st" using assms(3) by (simp_all add: matchingTables_def)
  then have "unsupported jc st' v = unsupported jc st u" by (rule supported_same [OF u(2)])
  then show "\<not> unsupported jc st' v" using assms(1) u(1) by (simp add: allSupported_def)
qed

lemma late_stages:
  assumes "runStage w Cleanup s3 = ([], s4)" "runStage w MatchCVEs s4 = ([], s5)" "runStage w MatchCPE s5 = ([], s6)"
    and "calm w" "storeOk s3" "idsOk s3"
    and "int (length (candidateRows (sw_json w) s6 (sw_options w))) \<le> candidateLimit (sw_options w)"
  shows "allSupported (sw_json w) s6" "matchedAll (sw_json w) (sw_options w) s6"
proof -
  note t = late_tables [OF assms(1-4,6)]
  have batch: "0 < sw_batch w" using assms(4) by (simp add: calm_def)
  have ok: "storeOk s4" "storeOk s5" using assms(5) storeOk_tables t by blast+
  have "candidateRows (sw_json w) s6 (sw_options w) = candidateRows (sw_json w) s4 (sw_options w)"
    by (rule candidateRows_tables) (simp add: t)
  with assms(7) have lim: "int (length (candidateRows (sw_json w) s4 (sw_options w))) \<le> candidateLimit (sw_options w)" by simp
  have sup4: "allSupported (sw_json w) s4"
    using cleanup_stage(2) [OF assms(1,6) batch] by (simp add: allSupported_def)
  obtain new5 where n5: "s5 = s4\<lparr>rs_vulns := rs_vulns s4 @ new5\<rparr>" "\<forall>v \<in> set new5. isSupported (sw_json w) s4 v"
    "\<forall>m \<in> set (candidateRows (sw_json w) s4 (sw_options w)). snd (decision (sw_json w) (fst m) (snd m)) \<longrightarrow>
       vulnKey (findingFor (sw_json w) m []) \<in> vulnKey ` set (rs_vulns s5)"
    by (rule match_stage [OF assms(2,4) ok(1) lim])
  have rows5: "candidateRows (sw_json w) s5 (sw_options w) = candidateRows (sw_json w) s4 (sw_options w)"
    by (rule candidateRows_tables) (simp add: t)
  have m5: "matchedAll (sw_json w) (sw_options w) s5" unfolding matchedAll_def rows5 by (rule n5(3))
  have sup5: "allSupported (sw_json w) s5" unfolding n5(1) by (rule allSupported_append [OF sup4 n5(2)])
  obtain new6 where n6: "s6 = s5\<lparr>rs_vulns := rs_vulns s5 @ new6\<rparr>" "\<forall>v \<in> set new6. isSupported (sw_json w) s5 v"
    by (rule cpe_stage [OF assms(3,4) ok(2)])
  show "allSupported (sw_json w) s6" unfolding n6(1) by (rule allSupported_append [OF sup5 n6(2)])
  have "vulnKey ` set (rs_vulns s5) \<subseteq> vulnKey ` set (rs_vulns s6)" by (auto simp: n6(1))
  then show "matchedAll (sw_json w) (sw_options w) s6" by (rule matchedAll_grows [OF m5 cpe_tables [OF assms(4,3)]])
qed

lemma early_stages:
  assumes "runStage w MergeEpss st = ([], s1)" "runStage w Cvss s1 = ([], s2)" "runStage w Enrich s2 = ([], s3)"
  shows "refines st s3" "epssSynced (rs_cves s3)"
proof -
  note s = epss_stage [OF assms(1)] cvss_stage [OF assms(2)] enrich_stage [OF assms(3)]
  have "refines st s1" "refines s1 s2" "refines s2 s3"
    unfolding s by (rule SyncEPSS_refines CalcCvss_refines Enrich_refines)+
  then show "refines st s3" by (blast intro: refines_trans)
  have "epssSynced (rs_cves s1)" unfolding s(1) by (simp add: SyncEPSSPriorityColumns_def epss_synced)
  then have "epssSynced (rs_cves s2)" unfolding s(2) cvss_epss .
  then show "epssSynced (rs_cves s3)" unfolding s(3) enrich_cves .
qed

definition sampleStale :: rematchState where
  "sampleStale = sampleStore\<lparr>rs_vulns := [staleVuln]\<rparr>"



end
