(* ===== verification/Spec2Isabelle.thy ===== *)
theory Spec2Isabelle
  imports Vercmp Classify Aipolicy Ai_Actions Sbom Cvematch Scan_Queue Rbac Agent Scheduler Account_Security
    Notification_Safety Asset_Groups Runtime_Scan Trivy_Parse Collector Recalc_Pass
begin

text \<open>
  A verification library of bongsu, a fleet vulnerability scanner: agents on hosts collect package
  inventories, a server stores them in PostgreSQL, matches them against advisory databases, lets
  people and an AI triage the findings, and hands out scan requests to the agents.

  The parts of the program and how they interact.  The agent (\<^verbatim>\<open>src/cmd/agent/main.go\<close>) collects a
  report and sends it with \<^verbatim>\<open>internal/agent/reporter\<close>; a report that cannot be sent goes to the spool
  directory and is replayed later.  In daemon mode it claims a scan request from the server, runs and
  completes it (\<^verbatim>\<open>internal/server/api/scan.go\<close> over \<^verbatim>\<open>internal/server/db/scan.go\<close>).  The server matches
  packages with the comparators of \<^verbatim>\<open>internal/server/vercmp\<close> through \<^verbatim>\<open>internal/server/db/classify.go\<close>
  and with trivy through \<^verbatim>\<open>internal/server/cvematch\<close>, which needs an SBOM.  Findings are triaged;
  actions an AI proposes pass \<^verbatim>\<open>internal/server/aipolicy\<close> and the approval queue.  Every read is limited
  to the hosts that \<^verbatim>\<open>internal/server/db/rbac.go\<close> grants to the subjects of the request.

  The theories, each opened by a text that says what it holds.

  \<^item> Prelude: the parts of Go's standard library the modelled code calls (strings, strconv, UTF-8
    decoding), three-way comparisons, zero-padded lists.  Version_Order: the interface of a comparator.
    The locale \<open>preorder_cmp\<close> states what the callers of a comparator rely on, \<open>key_cmp\<close> states that a
    comparator implements the lexicographic order on a key and is a sublocale of it.
  \<^item> Vercmp_Debian, Vercmp_RPM, Vercmp_Apk, Vercmp_Generic: the files deb.go, rpm.go, apk.go and
    generic.go of vercmp, every loop and early return of them.  Each interprets the locales of
    Version_Order on its comparator, on the versions where the code keeps the contract; the versions
    where it does not are shown by counterexamples (\<open>compareGeneric_cycle\<close>, \<open>compareAlpine_overflow\<close>).
    Vercmp is vercmp.go, the dispatch by ecosystem.
  \<^item> Classify: classify.go and the candidate loops of db/vulnerability.go.  The lemmas say when exactly an
    advisory applies, that the event loop over a range decides a union of half-open intervals, and that
    the Go and the SQL normalisation of ecosystems agree.
  \<^item> Aipolicy: \<^verbatim>\<open>aipolicy.Decide\<close> and its verdicts.  Ai_Actions: the table of approvals, the executor, the
    gate and the handlers that decide.  A step relation interleaves the operations of several users; its
    invariant gives that an approval is executed at most once.
  \<^item> Sbom, Cvematch: sbom.go and matcher.go, from packages to documents and from trivy's findings back to
    packages.
  \<^item> Scan_Queue: every operation that changes \<^verbatim>\<open>scan_requests\<close>, on a table with its partial unique indexes;
    the lemmas give the result of each operation, errors included, and the invariants of the reachable
    tables.  Scan_Handlers: the HTTP handlers above them and the binding of a host to an agent token.
  \<^item> Rbac: subjects, policies and the scope of a request.
  \<^item> Reporter, Spool, Agent: the agent's client with its retries, the spool directory under arbitrary
    file system faults, and the process that composes them.  The last theorems of Agent cross the wire:
    they run the agent's turn against the handlers of Scan_Handlers.

  \<^item> Cron, Scheduler: scheduler.go, schedule_handlers.go and schedule.go. Cron has the expressions, Go's calendar and
    the search for the next run, which is shown to find the least matching minute; Scheduler has the table,
    the handlers and the tick, whose effect is given exactly under any pattern of failing statements.
  \<^item> Login_Limiter, Accounts, Account_Handlers: login_limiter.go; the tables of users, sessions and API tokens with
    the token cache; their handlers. Account_Invariants has the locale \<open>account_invariant\<close>, one law per write to the
    state, from which every handler and every interleaving with the periodic refresh of the cache preserves the
    predicate; it is interpreted for the consistency of the tables, the last administrator and, in
    Account_Security, the death of a revoked token.

  \<^item> Server_Env: util.go and the request ids of middleware.go. Webhook, Mail, Notifications, Notification_Handlers,
    Notification_Safety: notify.go, notifier_email.go, notifier_engine.go, notification_handlers.go and notification.go.
    The locale \<open>retry_loop\<close> states what a loop over attempts returns and how long it sleeps; the three loops of the
    channels interpret it. Webhook accounts for every event under its semaphore, Mail orders the commands of a
    session, Notification_Safety gives the effect of an event exactly and the invariant of the tables.
  \<^item> Asset_Groups: asset_group_handlers.go and asset_group.go, with the language of dynamic rules.

  \<^item> Files: paths (\<^verbatim>\<open>path/filepath\<close>), line scanners and the file system the agent reads, as parameters. Os_Scan, Lang_Scan,
    Runtime_Scan, Collector: the package \<^verbatim>\<open>internal/agent/scanner\<close> file by file and collector.go. Os_Scan has the
    containment of a container's root and the readers of the dpkg, apk and rpm databases; the locale \<open>stanza_reader\<close> states how a reader of
    stanzas works through lines and flushes at an empty one, and the dpkg and apk readers interpret it. Lang_Scan and Runtime_Scan
    have the two walks over a directory tree. Trivy_Parse: parse.go of \<^verbatim>\<open>internal/shared/trivyparse\<close>.

  \<^item> Rematch, Rematch_Exact, Rematch_Cleanup, Rematch_Safety, Rematch_Index: the index of affected packages, \<^verbatim>\<open>RematchCVEs\<close>,
    \<^verbatim>\<open>RematchCPE\<close> and \<^verbatim>\<open>RemoveStaleRematchedVulnerabilities\<close> of db/cvedb.go and db/vulnerability.go. The SQL expressions are
    functions on decoded rows. Rematch_Exact has the loop over candidates and the insertion, Rematch_Cleanup the pages and the matcher of runtimes,
    Rematch_Safety the properties of whole runs under failing statements, Rematch_Index relates the SQL filter to the Go
    decision and shows where they disagree.

  \<^item> Recalc_Stages, Recalculation, Recalc_Safety, Recalc_Pass: \<^verbatim>\<open>recalculateSecurityFindings\<close> and \<^verbatim>\<open>runSecurityRecalculation\<close>
    of api/cvedb.go with the statements they run. Recalculation is a state machine of goroutines, requests and foreign writes with a
    log; Recalc_Safety shows from its invariant that every request is followed by a whole pass, Recalc_Pass what a
    pass establishes.

  How the code is represented.  A Go string is a HOL string, its characters are bytes; TrimSpace,
  ToLower and ToUpper act on ASCII.  The order of strings is the order of bytes, as in Go and in the C
  collation.  Go's int and time.Duration are int where the source cannot overflow and 64-bit words or
  explicit wrap-around where it can (Vercmp_Apk, Reporter).  A struct is a record, an error return is
  the left summand of a sum or None.  A table is the list of its rows in insertion order, one function
  per SQL statement; a statement that would violate a unique index is an error and changes nothing.  A
  transaction is one step: row locks serialise those on the same rows.  The database's now() and the
  server's clock are one argument.  Identifiers the database generates are an argument, assumed fresh
  where that matters.

  Parameters.  What is not in the repository is an argument of the definitions that use it: JSON
  encoding, hashes, UUIDs, trivy, HTTP transport, the file system's faults, the collectors, the clock and
  random jitter.  Hypotheses about them (a decoder inverts its encoder, file names are distinct) are
  written in the theorems that use them, whose witnesses instantiate them.

  Bounds.  Every loop is structural or has a termination proof with a measure, so no definition runs out
  of fuel.  The retry loop ends because its attempt counter reaches the configured number;
  \<open>doWithRetry_exact\<close> shows what it returns then.

  Not modelled.  Audit metadata, log lines and HTTP headers that carry no decision; listing and
  counting queries; of the CVE database (db/cvedb.go, api/cvedb.go) the search, the statistics, the
  reference keys and the signed bundles; the CVSS formulas, whose floating-point results are an argument
  of Recalc_Stages; the graphs, trends and reports, which only format what they read; downloads, archives
  and the installer; the web front end.
\<close>

end
